(* ===== verification/Prelude.thy ===== *)
theory Prelude
  imports Main
begin

text \<open>
  What the components share: the exceptions the program raises, results as sums, the
  list lemmas behind the index loops, and six interfaces stated as locales.
  \<open>causal_series\<close> is the contract of every indicator (the value at a bar depends on
  the bars up to it), \<open>streaming_series\<close> extends it with an incremental tracker that
  reproduces the batch values, \<open>guarded_machine\<close> is an operation set that keeps an
  invariant, \<open>latch_machine\<close> extends it with a state only named events leave,
  \<open>mirrored_machine\<close> is a machine whose successful steps another machine reproduces, and
  \<open>retry_loop\<close> is a loop that repeats an attempt until it is final or the attempts are used up.
\<close>

named_theorems model_defs \<open>definitions a property unfolds\<close>

section \<open>Exceptions and results\<close>

datatype py_error =
    ValueError string
  | TypeError string
  | KeyError
  | IndexError
  | ZeroDivisionError
  | OverflowError
  | AssertionError
  | AttributeError
  | StatisticsError
  | PermissionError string
  | OutOfOrderTimestampError int int
  | OrderBookDesync int int
  | MemoryLeakageError string int int
  | UnsafePaperModeError string
  | RecoveryGapError string string int
  | RecoveryDivergenceError string string int
  | DuplicateCandleError string string int
  | PromotionRejected string
  | UnsupportedStateError string
  | StateTamperedError
  | FileNotFoundError
  | PromptNotFound
  | MissingMarkError
  | InvalidOperation
  | ExternalError string
  | NamedError string string
    \<comment> \<open>a class the program declares, by its name, with the message\<close>

type_synonym 'a result = "py_error + 'a"

definition bindE :: "'a result \<Rightarrow> ('a \<Rightarrow> 'b result) \<Rightarrow> 'b result" where
  "bindE m f = (case m of Inl e \<Rightarrow> Inl e | Inr a \<Rightarrow> f a)"

lemma bindE_simps [simp]: "bindE (Inl e) f = Inl e" "bindE (Inr a) f = f a"
  by (simp_all add: bindE_def)

lemma bindE_eq_Inr: "bindE m f = Inr b \<longleftrightarrow> (\<exists>a. m = Inr a \<and> f a = Inr b)"
  by (cases m) simp_all

lemma bindE_eq_Inl: "bindE m f = Inl e \<longleftrightarrow> m = Inl e \<or> (\<exists>a. m = Inr a \<and> f a = Inl e)"
  by (cases m) simp_all

lemma bindE_assoc: "bindE (bindE m f) g = bindE m (\<lambda>a. bindE (f a) g)"
  by (cases m) simp_all

definition raise_if :: "bool \<Rightarrow> py_error \<Rightarrow> unit result" where
  "raise_if b e = (if b then Inl e else Inr ())"

lemma raise_if_Inr [simp]: "raise_if b e = Inr u \<longleftrightarrow> \<not> b"
  by (simp add: raise_if_def)

fun mapE :: "('a \<Rightarrow> 'b result) \<Rightarrow> 'a list \<Rightarrow> 'b list result" where
  "mapE f [] = Inr []"
| "mapE f (x # xs) = bindE (f x) (\<lambda>y. bindE (mapE f xs) (\<lambda>ys. Inr (y # ys)))"

lemma mapE_append: "mapE f (xs @ ys) = bindE (mapE f xs) (\<lambda>as. bindE (mapE f ys) (\<lambda>bs. Inr (as @ bs)))"
  by (induction xs) (auto simp: bindE_assoc bindE_def split: sum.splits)

lemma mapE_length: "mapE f xs = Inr ys \<Longrightarrow> length ys = length xs"
  by (induction xs arbitrary: ys) (auto simp: bindE_eq_Inr)

lemma mapE_nth: "mapE f xs = Inr ys \<Longrightarrow> i < length xs \<Longrightarrow> f (xs ! i) = Inr (ys ! i)"
  by (induction xs arbitrary: ys i) (auto simp: bindE_eq_Inr nth_Cons split: nat.splits)

lemma mapE_cong [fundef_cong]:
  "xs = ys \<Longrightarrow> (\<And>x. x \<in> set ys \<Longrightarrow> f x = g x) \<Longrightarrow> mapE f xs = mapE g ys"
proof -
  assume "xs = ys" "\<And>x. x \<in> set ys \<Longrightarrow> f x = g x"
  then show ?thesis by (induction ys arbitrary: xs) auto
qed

lemma mapE_snoc:
  "mapE f (xs @ [x]) = Inr ys \<longleftrightarrow>
     (\<exists>as b. mapE f xs = Inr as \<and> f x = Inr b \<and> ys = as @ [b])"
  by (auto simp: mapE_append bindE_eq_Inr)

lemma mapE_Inr [simp]: "mapE (\<lambda>x. Inr (f x)) xs = Inr (map f xs)"
  by (induction xs) auto

fun foldE :: "('s \<Rightarrow> 'a \<Rightarrow> 's result) \<Rightarrow> 's \<Rightarrow> 'a list \<Rightarrow> 's result" where
  "foldE f s [] = Inr s"
| "foldE f s (x # xs) = bindE (f s x) (\<lambda>s'. foldE f s' xs)"

lemma foldE_append: "foldE f s (xs @ ys) = bindE (foldE f s xs) (\<lambda>s'. foldE f s' ys)"
  by (induction xs arbitrary: s) (auto simp: bindE_assoc)

lemma foldE_invariant:
  assumes "foldE f s xs = Inr t" "P s" "\<And>s x t. x \<in> set xs \<Longrightarrow> P s \<Longrightarrow> f s x = Inr t \<Longrightarrow> P t"
  shows "P t"
  using assms by (induction xs arbitrary: s) (auto simp: bindE_eq_Inr)

section \<open>Python slices and sequences\<close>

definition slice :: "nat \<Rightarrow> nat \<Rightarrow> 'a list \<Rightarrow> 'a list" where
  \<comment> \<open>\<open>xs[i:j]\<close> for indices that are not negative\<close>
  "slice i j xs = drop i (take j xs)"

lemma slice_take: "j \<le> n \<Longrightarrow> slice i j (take n xs) = slice i j xs"
  by (simp add: slice_def min_absorb2)

lemma slice_append: "j \<le> length xs \<Longrightarrow> slice i j (xs @ ys) = slice i j xs"
  by (simp add: slice_def)

lemma length_slice: "length (slice i j xs) = min (length xs) j - i"
  by (simp add: slice_def)

definition last_opt :: "'a option list \<Rightarrow> 'a option" where
  \<comment> \<open>\<open>xs[-1] if xs else None\<close>\<close>
  "last_opt xs = (if xs = [] then None else last xs)"

lemma butlast_replicate: "butlast (replicate (Suc n) x) = replicate n x"
  by (metis butlast_snoc replicate_Suc replicate_append_same)

section \<open>Interfaces\<close>

text \<open>A series computed from a series, without looking ahead.\<close>

locale causal_series =
  fixes ind :: "'a list \<Rightarrow> 'b list result"
  assumes ind_length: "ind xs = Inr ys \<Longrightarrow> length ys = length xs"
    and ind_snoc: "ind (xs @ [x]) = Inr ys \<Longrightarrow> ind xs = Inr (butlast ys)"
begin

lemma ind_append: "ind (xs @ zs) = Inr ys \<Longrightarrow> ind xs = Inr (take (length xs) ys)"
proof (induction zs arbitrary: ys rule: rev_induct)
  case Nil
  then show ?case using ind_length by fastforce
next
  case (snoc z zs)
  then have b: "ind (xs @ zs) = Inr (butlast ys)" using ind_snoc[of "xs @ zs"] by simp
  have "length ys = length xs + length zs + 1" using ind_length[OF snoc.prems] by simp
  then have "take (length xs) (butlast ys) = take (length xs) ys" by (simp add: take_butlast)
  with snoc.IH[OF b] show ?case by simp
qed

lemma ind_take: "ind xs = Inr ys \<Longrightarrow> ind (take n xs) = Inr (take n ys)"
proof -
  assume a: "ind xs = Inr ys"
  then have "ind (take n xs @ drop n xs) = Inr ys" by simp
  then have "ind (take n xs) = Inr (take (length (take n xs)) ys)" by (rule ind_append)
  moreover have "take (length (take n xs)) ys = take n ys"
    using ind_length[OF a] by (simp add: min_def)
  ultimately show ?thesis by simp
qed

lemma no_lookahead:
  assumes "ind xs = Inr ys" "ind xs' = Inr ys'" "take n xs = take n xs'"
  shows "take n ys = take n ys'"
  using ind_take[OF assms(1), of n] ind_take[OF assms(2), of n] assms(3) by simp

end

lemma causal_mapI:
  assumes "\<And>xs x i. i < length xs \<Longrightarrow> F (xs @ [x]) i = F xs i"
  shows "causal_series (\<lambda>xs. Inr (map (F xs) [0..<length xs]))"
proof unfold_locales
  fix xs :: "'a list" and x ys
  assume "(Inr (map (F (xs @ [x])) [0..<length (xs @ [x])]) :: 'b list result) = Inr ys"
  then have "ys = map (F (xs @ [x])) [0..<length xs] @ [F (xs @ [x]) (length xs)]" by auto
  moreover have "map (F (xs @ [x])) [0..<length xs] = map (F xs) [0..<length xs]"
    using assms by simp
  ultimately show "(Inr (map (F xs) [0..<length xs]) :: 'b list result) = Inr (butlast ys)" by simp
qed auto

lemma causal_mapEI:
  assumes "\<And>xs x i. i < length xs \<Longrightarrow> F (xs @ [x]) i = F xs i"
  shows "causal_series (\<lambda>xs. mapE (F xs) [0..<length xs])"
proof unfold_locales
  fix xs :: "'a list" and x ys
  assume "mapE (F (xs @ [x])) [0..<length (xs @ [x])] = Inr ys"
  then have "mapE (F (xs @ [x])) [0..<length xs] = Inr (butlast ys)"
    by (auto simp: mapE_snoc)
  moreover have "mapE (F (xs @ [x])) [0..<length xs] = mapE (F xs) [0..<length xs]"
    using assms by (intro mapE_cong) auto
  ultimately show "mapE (F xs) [0..<length xs] = Inr (butlast ys)" by simp
qed (auto dest: mapE_length)

lemma causal_bindI: "causal_series f \<Longrightarrow> causal_series (\<lambda>xs. bindE m (\<lambda>_. f xs))"
  unfolding causal_series_def by (auto simp: bindE_eq_Inr)

lemma causal_pureI:
  "(\<And>xs. length (f xs) = length xs) \<Longrightarrow> (\<And>xs x. butlast (f (xs @ [x])) = f xs) \<Longrightarrow>
   causal_series (\<lambda>xs. Inr (f xs))"
  by unfold_locales auto

text \<open>
  A tracker updated bar by bar.  \<open>run_tracker\<close> feeds it a list and stops at the first
  exception, as the loop that drives it does.
\<close>

fun run_tracker ::
  "('s \<Rightarrow> 'a \<Rightarrow> 's \<times> 'b result) \<Rightarrow> 's \<Rightarrow> 'a list \<Rightarrow> 's \<times> 'b list result" where
  "run_tracker upd s [] = (s, Inr [])"
| "run_tracker upd s (x # xs) =
     (case upd s x of
        (s', Inl e) \<Rightarrow> (s', Inl e)
      | (s', Inr y) \<Rightarrow>
          (case run_tracker upd s' xs of
             (t, Inl e) \<Rightarrow> (t, Inl e)
           | (t, Inr ys) \<Rightarrow> (t, Inr (y # ys))))"

lemma run_tracker_snoc:
  "run_tracker upd s xs = (t, Inr ys) \<Longrightarrow> upd t x = (t', Inr y) \<Longrightarrow>
   run_tracker upd s (xs @ [x]) = (t', Inr (ys @ [y]))"
  by (induction xs arbitrary: s ys) (auto split: prod.splits sum.splits)

locale streaming_series = causal_series ind
  for ind :: "'a list \<Rightarrow> 'b list result" +
  fixes init :: 's
    and upd :: "'s \<Rightarrow> 'a \<Rightarrow> 's \<times> 'b result"
    and agrees :: "'s \<Rightarrow> 'a list \<Rightarrow> bool"
  assumes agrees_init: "agrees init []"
    and agrees_step: "ind (xs @ [x]) = Inr ys \<Longrightarrow> agrees s xs \<Longrightarrow>
      \<exists>s'. upd s x = (s', Inr (last ys)) \<and> agrees s' (xs @ [x])"
begin

lemma tracker_run:
  "ind xs = Inr ys \<Longrightarrow> \<exists>s. run_tracker upd init xs = (s, Inr ys) \<and> agrees s xs"
proof (induction xs arbitrary: ys rule: rev_induct)
  case Nil
  then show ?case using agrees_init ind_length by fastforce
next
  case (snoc x xs)
  from snoc.prems have "ind xs = Inr (butlast ys)" by (rule ind_snoc)
  then obtain s where s: "run_tracker upd init xs = (s, Inr (butlast ys))" "agrees s xs"
    using snoc.IH by blast
  obtain s' where s': "upd s x = (s', Inr (last ys))" "agrees s' (xs @ [x])"
    using agrees_step[OF snoc.prems s(2)] by blast
  have "ys \<noteq> []" using ind_length[OF snoc.prems] by auto
  then have "butlast ys @ [last ys] = ys" by simp
  with run_tracker_snoc[OF s(1) s'(1)] s'(2) show ?case by auto
qed

lemma tracker_equals_batch: "ind xs = Inr ys \<Longrightarrow> snd (run_tracker upd init xs) = Inr ys"
  using tracker_run by fastforce

end

text \<open>
  Operations that keep an invariant, and the runs they make up.  \<open>ok\<close> is what the
  environment promises of an event.
\<close>

locale guarded_machine =
  fixes step :: "'s \<Rightarrow> 'e \<Rightarrow> 's" and inv :: "'s \<Rightarrow> bool" and ok :: "'e \<Rightarrow> bool"
  assumes step_inv: "inv s \<Longrightarrow> ok e \<Longrightarrow> inv (step s e)"
begin

lemma run_inv: "inv s \<Longrightarrow> list_all ok es \<Longrightarrow> inv (foldl step s es)"
  by (induction es arbitrary: s) (auto intro: step_inv)

lemma run_relation:
  assumes "inv s" "list_all ok es" "\<And>s. inv s \<Longrightarrow> R s s"
    and "\<And>a b c. R a b \<Longrightarrow> R b c \<Longrightarrow> R a c"
    and "\<And>s e. inv s \<Longrightarrow> ok e \<Longrightarrow> R s (step s e)"
  shows "R s (foldl step s es)"
  using assms(1,2)
proof (induction es arbitrary: s)
  case Nil
  show ?case using assms(3) Nil by simp
next
  case (Cons e es)
  have "R s (step s e)" using Cons.prems by (intro assms(5)) auto
  moreover have "R (step s e) (foldl step (step s e) es)"
    using Cons.prems by (intro Cons.IH step_inv) auto
  ultimately show ?case using assms(4) by simp
qed

end

locale latch_machine = guarded_machine step inv ok
  for step :: "'s \<Rightarrow> 'e \<Rightarrow> 's" and inv :: "'s \<Rightarrow> bool" and ok :: "'e \<Rightarrow> bool" +
  fixes latched :: "'s \<Rightarrow> bool" and payload :: "'s \<Rightarrow> 'p" and releases :: "'e \<Rightarrow> bool"
  assumes latch_step: "inv s \<Longrightarrow> latched s \<Longrightarrow> \<not> releases e \<Longrightarrow>
      latched (step s e) \<and> payload (step s e) = payload s"
begin

lemma latched_run:
  "inv s \<Longrightarrow> list_all ok es \<Longrightarrow> latched s \<Longrightarrow> \<forall>e \<in> set es. \<not> releases e \<Longrightarrow>
   latched (foldl step s es) \<and> payload (foldl step s es) = payload s"
proof (induction es arbitrary: s)
  case Nil
  then show ?case by simp
next
  case (Cons e es)
  have "latched (step s e) \<and> payload (step s e) = payload s"
    using Cons.prems by (intro latch_step) auto
  moreover have "inv (step s e)" using Cons.prems(1,2) by (auto intro: step_inv)
  ultimately show ?case using Cons.IH[of "step s e"] Cons.prems by simp
qed

lemma unlatch_needs_release:
  "inv s \<Longrightarrow> list_all ok es \<Longrightarrow> latched s \<Longrightarrow> \<not> latched (foldl step s es) \<Longrightarrow>
   \<exists>e \<in> set es. releases e"
  using latched_run by blast

end

text \<open>
  A machine that another one mirrors: each successful step, seen through \<open>abs\<close>, is the
  mirror's step on the record \<open>rel\<close> relates to the event.
\<close>

locale mirrored_machine =
  fixes step :: "'s \<Rightarrow> 'e \<Rightarrow> 's result"
    and mstep :: "'a \<Rightarrow> 'f \<Rightarrow> 'a result"
    and abs :: "'s \<Rightarrow> 'a" and rel :: "'e \<Rightarrow> 'f \<Rightarrow> bool"
  assumes mirror_step: "step s e = Inr t \<Longrightarrow> rel e f \<Longrightarrow> mstep (abs s) f = Inr (abs t)"
begin

lemma mirror_run:
  "foldE step s es = Inr t \<Longrightarrow> list_all2 rel es fs \<Longrightarrow> foldE mstep (abs s) fs = Inr (abs t)"
proof (induction es arbitrary: s fs)
  case (Cons e es)
  then obtain f gs u where "fs = f # gs" "rel e f" "list_all2 rel es gs" "step s e = Inr u" "foldE step u es = Inr t"
    by (auto simp: list_all2_Cons1 bindE_eq_Inr)
  then show ?case using Cons.IH mirror_step by simp
qed simp

end

text \<open>
  A loop over attempts \<open>i\<close>, \<open>i + 1\<close>, \<dots>: an attempt that is not to be repeated ends it, one
  that is repeats after \<open>pause\<close>, and the last one of the range exhausts it.
\<close>

locale retry_loop =
  fixes loop :: "nat \<Rightarrow> nat \<Rightarrow> 'o" and again :: "nat \<Rightarrow> bool"
    and final :: "nat \<Rightarrow> 'o" and exhausted :: "nat \<Rightarrow> 'o" and pause :: "nat \<Rightarrow> 'o \<Rightarrow> 'o"
  assumes loop_final: "\<not> again i \<Longrightarrow> loop (Suc n) i = final i"
    and loop_again: "again i \<Longrightarrow> loop (Suc (Suc n)) i = pause i (loop (Suc n) (Suc i))"
    and loop_exhausted: "again i \<Longrightarrow> loop (Suc 0) i = exhausted i"
begin

lemma loop_ends:
  "k < n \<Longrightarrow> \<not> again (i + k) \<Longrightarrow> \<forall>j < k. again (i + j) \<Longrightarrow> loop n i = foldr pause [i..<i + k] (final (i + k))"
proof (induction k arbitrary: i n)
  case 0
  then show ?case using loop_final by (cases n) auto
next
  case (Suc k)
  then obtain m where n: "n = Suc (Suc m)" by (metis Suc_less_eq2 less_imp_Suc_add)
  have "again i" using Suc.prems(3) by auto
  moreover have "loop (Suc m) (Suc i) = foldr pause [Suc i..<Suc i + k] (final (Suc i + k))"
    using Suc.prems n by (intro Suc.IH) auto
  moreover have "[i..<i + Suc k] = i # [Suc i..<Suc i + k]" by (simp add: upt_conv_Cons del: upt_Suc)
  ultimately show ?case using n loop_again[of i m] by (simp del: upt_Suc)
qed

lemma loop_exhausts:
  "\<forall>j \<le> n. again (i + j) \<Longrightarrow> loop (Suc n) i = foldr pause [i..<i + n] (exhausted (i + n))"
proof (induction n arbitrary: i)
  case 0
  then show ?case using loop_exhausted by simp
next
  case (Suc n)
  have "again i" using Suc.prems by auto
  moreover have "loop (Suc n) (Suc i) = foldr pause [Suc i..<Suc i + n] (exhausted (Suc i + n))"
    using Suc.prems by (intro Suc.IH) auto
  moreover have "[i..<i + Suc n] = i # [Suc i..<Suc i + n]" by (simp add: upt_conv_Cons del: upt_Suc)
  ultimately show ?case using loop_again[of i n] by (simp del: upt_Suc)
qed

lemma loop_cases:
  "(\<exists>k < Suc n. \<not> again (i + k) \<and> (\<forall>j < k. again (i + j)) \<and> loop (Suc n) i = foldr pause [i..<i + k] (final (i + k))) \<or>
   (\<forall>j \<le> n. again (i + j)) \<and> loop (Suc n) i = foldr pause [i..<i + n] (exhausted (i + n))"
proof (cases "\<forall>j \<le> n. again (i + j)")
  case True
  then show ?thesis using loop_exhausts by blast
next
  case False
  then obtain k where "k \<le> n" "\<not> again (i + k)" "\<forall>j < k. again (i + j)"
    using exists_least_iff[of "\<lambda>k. k \<le> n \<and> \<not> again (i + k)"] by (meson le_trans less_imp_le)
  moreover from this have "loop (Suc n) i = foldr pause [i..<i + k] (final (i + k))" by (intro loop_ends) simp_all
  ultimately show ?thesis by (intro disjI1 exI[of _ k]) simp
qed

end

end
