(* ===== verification/PyFloat.thy ===== *)
theory PyFloat
  imports Prelude Complex_Main "HOL-Library.Log_Nat"
begin

text \<open>
  Python's \<open>float\<close>: IEEE-754 binary64 values and the operations the program uses on
  them.  A finite float is the rational number it denotes; the two infinities and NaN are
  constructors of their own.  The sign of zero is not kept: \<open>-0.0 == 0.0\<close> in Python,
  division by either raises, and no modelled code looks at the sign bit.

  Every arithmetic operation is the exact rational operation followed by \<open>rnd\<close>,
  round-to-nearest-even to 53 significant bits with gradual underflow (least exponent
  \<open>-1074\<close>) and overflow to infinity from \<open>2^1024\<close> on.  All of it computes.
  The lemmas give what the components need of rounding: it is monotone, odd, leaves
  representable values alone, and it always returns a representable value or an infinity.
\<close>

section \<open>Rounding a rational number\<close>

definition rne :: "rat \<Rightarrow> int" where
  \<comment> \<open>the nearest integer, ties to even\<close>
  "rne x = (let f = floor x; r = x - of_int f
            in if r < 1/2 then f else if 1/2 < r then f + 1
               else if even f then f else f + 1)"

definition ilog2 :: "rat \<Rightarrow> int" where
  \<comment> \<open>the exponent of the leading bit of a positive rational\<close>
  "ilog2 q = (let (n, d) = quotient_of q; e = bitlen n - bitlen d
              in if 2 powi e \<le> q then e else e - 1)"

definition ulp_exp :: "rat \<Rightarrow> int" where
  "ulp_exp q = max (ilog2 \<bar>q\<bar> - 52) (- 1074)"

definition rq :: "rat \<Rightarrow> rat" where
  \<comment> \<open>rounding with an unbounded upper exponent\<close>
  "rq q = (if q = 0 then 0
           else let u = 2 powi (ulp_exp q) in of_int (rne (q / u)) * u)"

datatype pyfloat = is_Fin: Fin (val: rat) | PInf | NInf | NaN

definition rnd :: "rat \<Rightarrow> pyfloat" where
  "rnd q = (let v = rq q in
            if 2 ^ 1024 \<le> v then PInf else if v \<le> - (2 ^ 1024) then NInf else Fin v)"

subsection \<open>The integer rounding\<close>

lemma rne_of_int [simp]: "rne (of_int n) = n"
  by (simp add: rne_def)

lemma rne_mono: "x \<le> y \<Longrightarrow> rne x \<le> rne y"
proof -
  assume xy: "x \<le> y"
  then have fl: "floor x \<le> floor y" by (rule floor_mono)
  show ?thesis
  proof (cases "floor x = floor y")
    case True
    with xy have "x - of_int (floor x) \<le> y - of_int (floor y)" by simp
    with True show ?thesis by (auto simp: rne_def Let_def)
  next
    case False
    with fl have "floor x + 1 \<le> floor y" by simp
    moreover have "rne x \<le> floor x + 1" and "floor y \<le> rne y"
      by (auto simp: rne_def Let_def)
    ultimately show ?thesis by linarith
  qed
qed

lemma rne_uminus: "rne (- x) = - rne x"
proof (cases "of_int (floor x) = x")
  case True
  then obtain n where "x = of_int n" by metis
  then show ?thesis by (metis of_int_minus rne_of_int)
next
  case False
  then have c: "ceiling x = floor x + 1" by (simp add: ceiling_altdef)
  have f: "floor (- x) = - floor x - 1" using c by (simp add: floor_minus)
  have r: "- x - of_int (floor (- x)) = 1 - (x - of_int (floor x))" using f by simp
  let ?r = "x - of_int (floor x)"
  consider "?r < 1/2" | "1/2 < ?r" | "?r = 1/2" by linarith
  then show ?thesis
  proof cases
    case 1 then show ?thesis unfolding rne_def Let_def r by (simp add: f)
  next
    case 2 then show ?thesis unfolding rne_def Let_def r by (simp add: f)
  next
    case 3 then show ?thesis unfolding rne_def Let_def r by (simp add: f)
  qed
qed

lemma rne_error: "\<bar>of_int (rne x) - x\<bar> \<le> 1/2"
proof -
  have "of_int (floor x) \<le> x" "x < of_int (floor x) + 1" by linarith+
  then show ?thesis by (auto simp: rne_def Let_def abs_le_iff)
qed

subsection \<open>The binary exponent\<close>

lemma powi_2_pos [simp]: "0 < (2::rat) powi k"
  by (simp add: zero_less_power_int)

lemma powi_2_mono: "j \<le> k \<Longrightarrow> (2::rat) powi j \<le> 2 powi k"
  by (rule power_int_increasing) auto

lemma powi_2_less_iff: "(2::rat) powi j < 2 powi k \<longleftrightarrow> j < k"
  by (metis linorder_not_le order_le_less powi_2_mono power_int_strict_increasing one_less_numeral_iff semiring_norm(76))

lemma powi_2_int: "0 \<le> k \<Longrightarrow> \<exists>n::int. (2::rat) powi k = of_int n"
  by (metis power_int_def of_int_numeral of_int_power)

lemma ilog2_bounds:
  assumes "0 < q"
  shows "2 powi (ilog2 q) \<le> q" and "q < 2 powi (ilog2 q + 1)"
proof -
  obtain n d where qo: "quotient_of q = (n, d)" by (cases "quotient_of q")
  have d: "0 < d" using quotient_of_denom_pos[OF qo] .
  have q: "q = of_int n / of_int d" using quotient_of_div[OF qo] .
  have n: "0 < n" using assms q d by (simp add: zero_less_divide_iff)
  have bn: "0 < bitlen n" "0 < bitlen d"
    using n d by (simp_all add: bitlen_nonneg bitlen_eq_zero_iff order_less_le)
  note nb = bitlen_bounds[OF n] and db = bitlen_bounds[OF d]
  have e: "(2::rat) powi k = of_int (2 ^ nat k)" if "0 \<le> k" for k
    using that by (simp add: power_int_def)
  have n1: "(2::rat) powi (bitlen n - 1) \<le> of_int n" and n2: "of_int n < (2::rat) powi (bitlen n)"
    using nb bn by (simp_all add: e)
  have d1: "(2::rat) powi (bitlen d - 1) \<le> of_int d" and d2: "of_int d < (2::rat) powi (bitlen d)"
    using db bn by (simp_all add: e)
  have dp: "0 < (of_int d :: rat)" using d by simp
  have up: "q < 2 powi (bitlen n - bitlen d + 1)"
  proof -
    have "of_int n < (2::rat) powi (bitlen n - bitlen d + 1) * 2 powi (bitlen d - 1)"
      using n2 by (simp flip: power_int_add)
    also have "\<dots> \<le> 2 powi (bitlen n - bitlen d + 1) * of_int d"
      using d1 by (intro mult_left_mono) (simp_all add: less_imp_le)
    finally show ?thesis using dp by (simp add: q pos_divide_less_eq)
  qed
  have lo: "2 powi (bitlen n - bitlen d - 1) \<le> q"
  proof -
    have "(2::rat) powi (bitlen n - bitlen d - 1) * of_int d
          \<le> 2 powi (bitlen n - bitlen d - 1) * 2 powi (bitlen d)"
      using d2 by (intro mult_left_mono) (simp_all add: less_imp_le)
    also have "\<dots> \<le> of_int n" using n1 by (simp flip: power_int_add)
    finally show ?thesis using dp by (simp add: q pos_le_divide_eq)
  qed
  show "2 powi (ilog2 q) \<le> q" using lo by (simp add: ilog2_def qo Let_def)
  show "q < 2 powi (ilog2 q + 1)" using up by (auto simp: ilog2_def qo Let_def)
qed

lemma ilog2_mono:
  assumes "0 < q" "q \<le> r"
  shows "ilog2 q \<le> ilog2 r"
proof -
  have "(2::rat) powi (ilog2 q) \<le> q" using assms(1) by (rule ilog2_bounds)
  also have "q \<le> r" by (rule assms(2))
  also have "r < 2 powi (ilog2 r + 1)" using assms by (intro ilog2_bounds) simp
  finally show ?thesis by (simp add: powi_2_less_iff)
qed

lemma ulp_exp_mono: "0 < q \<Longrightarrow> q \<le> r \<Longrightarrow> ulp_exp q \<le> ulp_exp r"
  using ilog2_mono[of q r] by (simp add: ulp_exp_def)

lemma ulp_exp_ge: "- 1074 \<le> ulp_exp q"
  by (simp add: ulp_exp_def)

lemma ilog2_eqI: "2 powi k \<le> q \<Longrightarrow> q < 2 powi (k + 1) \<Longrightarrow> ilog2 q = k"
proof -
  assume a: "2 powi k \<le> q" "q < 2 powi (k + 1)"
  have "0 < q" using a(1) powi_2_pos[of k] by linarith
  note b = ilog2_bounds[OF this]
  have "(2::rat) powi k < 2 powi (ilog2 q + 1)" using a(1) b(2) by linarith
  moreover have "(2::rat) powi (ilog2 q) < 2 powi (k + 1)" using a(2) b(1) by linarith
  ultimately show ?thesis unfolding powi_2_less_iff by linarith
qed

subsection \<open>Rounding is monotone, odd and idempotent\<close>

lemma rq_zero [simp]: "rq 0 = 0"
  by (simp add: rq_def)

lemma rq_uminus: "rq (- q) = - rq q"
  by (simp add: rq_def Let_def rne_uminus ulp_exp_def)

lemma rq_nonneg: "0 \<le> q \<Longrightarrow> 0 \<le> rq q"
proof -
  assume "0 \<le> q"
  then have "rne 0 \<le> rne (q / 2 powi (ulp_exp q))"
    by (intro rne_mono) (simp add: less_imp_le)
  then have "0 \<le> rne (q / 2 powi (ulp_exp q))" using rne_of_int[of 0] by simp
  then show ?thesis by (simp add: rq_def Let_def less_imp_le)
qed

lemma rq_le_bound:
  assumes "0 < q" "q \<le> 2 powi k" "ulp_exp q \<le> k"
  shows "rq q \<le> 2 powi k"
proof -
  let ?u = "2 powi (ulp_exp q) :: rat"
  obtain n :: int where n: "(2::rat) powi (k - ulp_exp q) = of_int n"
    using powi_2_int[of "k - ulp_exp q"] assms(3) by auto
  have k: "(2::rat) powi k = of_int n * ?u" unfolding n[symmetric] by (simp flip: power_int_add)
  have "q / ?u \<le> of_int n" using assms(2) by (simp add: k pos_divide_le_eq)
  then have "rne (q / ?u) \<le> n" using rne_mono by fastforce
  then show ?thesis using assms(1) by (simp add: rq_def Let_def k)
qed

lemma rq_ge_bound:
  assumes "2 powi k \<le> q" "ulp_exp q \<le> k"
  shows "2 powi k \<le> rq q"
proof -
  let ?u = "2 powi (ulp_exp q) :: rat"
  obtain n :: int where n: "(2::rat) powi (k - ulp_exp q) = of_int n"
    using powi_2_int[of "k - ulp_exp q"] assms(2) by auto
  have k: "(2::rat) powi k = of_int n * ?u" unfolding n[symmetric] by (simp flip: power_int_add)
  have "of_int n \<le> q / ?u" using assms(1) by (simp add: k pos_le_divide_eq)
  then have "n \<le> rne (q / ?u)" using rne_mono by fastforce
  moreover have "q \<noteq> 0" using assms(1) powi_2_pos[of k] by (metis linorder_not_less)
  ultimately show ?thesis by (simp add: rq_def Let_def k)
qed

lemma rq_mono_pos:
  assumes "0 < q" "q \<le> r"
  shows "rq q \<le> rq r"
proof (cases "ulp_exp q = ulp_exp r")
  case True
  have "rne (q / 2 powi (ulp_exp r)) \<le> rne (r / 2 powi (ulp_exp r))"
    using assms(2) by (intro rne_mono divide_right_mono) (simp_all add: less_imp_le)
  then show ?thesis using assms True by (simp add: rq_def Let_def)
next
  case False
  with ulp_exp_mono[OF assms] have lt: "ulp_exp q < ulp_exp r" by simp
  have r: "0 < r" using assms by simp
  have er: "ulp_exp r = ilog2 r - 52" using lt r by (auto simp: ulp_exp_def max_def split: if_splits)
  have "ilog2 q - 52 \<le> ulp_exp q" using assms(1) by (simp add: ulp_exp_def)
  with lt er have lg: "ilog2 q + 1 \<le> ilog2 r" by linarith
  have "q \<le> 2 powi (ilog2 r)"
    using ilog2_bounds(2)[OF assms(1)] powi_2_mono[OF lg] by linarith
  then have "rq q \<le> 2 powi (ilog2 r)" using assms(1) lt er by (intro rq_le_bound) auto
  also have "\<dots> \<le> rq r" using ilog2_bounds(1)[OF r] er by (intro rq_ge_bound) auto
  finally show ?thesis .
qed

lemma rq_mono: "q \<le> r \<Longrightarrow> rq q \<le> rq r"
proof -
  assume qr: "q \<le> r"
  consider "0 < q" | "q \<le> 0" "0 \<le> r" | "r < 0" by linarith
  then show ?thesis
  proof cases
    case 1 then show ?thesis using qr by (rule rq_mono_pos)
  next
    case 2
    have "0 \<le> rq (- q)" using 2 by (intro rq_nonneg) simp
    moreover have "0 \<le> rq r" using 2 by (intro rq_nonneg)
    ultimately show ?thesis by (simp add: rq_uminus)
  next
    case 3
    have "rq (- r) \<le> rq (- q)" using 3 qr by (intro rq_mono_pos) auto
    then show ?thesis by (simp add: rq_uminus)
  qed
qed

definition representable :: "rat \<Rightarrow> bool" where
  \<comment> \<open>the rationals that are values of a finite binary64 number\<close>
  "representable q \<longleftrightarrow> rnd q = Fin q"

lemma rq_exact:
  assumes "\<bar>m\<bar> \<le> 2 ^ 53" "- 1074 \<le> k"
  shows "rq (of_int m * 2 powi k) = of_int m * 2 powi k"
proof (cases "m = 0")
  case False
  let ?q = "of_int m * 2 powi k :: rat"
  have q0: "?q \<noteq> 0" using False by simp
  have p53: "(2::rat) powi (k + 53) = 2 powi k * 9007199254740992"
    by (simp add: power_int_add)
  have dvd: "\<exists>n::int. ?q / 2 powi (ulp_exp ?q) = of_int n"
  proof (cases "\<bar>m\<bar> = 2 ^ 53")
    case True
    have "\<bar>?q\<bar> = of_int \<bar>m\<bar> * 2 powi k" by (simp add: abs_mult)
    also have "\<dots> = 2 powi (k + 53)" unfolding True p53 by simp
    finally have "\<bar>?q\<bar> = 2 powi (k + 53)" .
    then have "ilog2 \<bar>?q\<bar> = k + 53"
      by (intro ilog2_eqI) (simp_all add: powi_2_less_iff)
    then have "ulp_exp ?q = k + 1" using assms(2) by (simp add: ulp_exp_def)
    then have "?q / 2 powi (ulp_exp ?q) = of_int m / 2" by (simp add: power_int_add)
    moreover have "even m" using True by (metis dvd_abs_iff even_numeral even_power zero_less_numeral)
    then obtain j where "m = 2 * j" by blast
    ultimately show ?thesis by (intro exI[of _ j]) simp
  next
    case lt: False
    then have m: "\<bar>m\<bar> < 2 ^ 53" using assms(1) by simp
    have "\<bar>?q\<bar> = of_int \<bar>m\<bar> * 2 powi k" by (simp add: abs_mult)
    also have "\<dots> < of_int (2 ^ 53) * 2 powi k"
      using m by (intro mult_strict_right_mono) (simp_all only: of_int_less_iff powi_2_pos)
    also have "\<dots> = 2 powi (k + 53)" unfolding p53 by simp
    finally have u: "\<bar>?q\<bar> < 2 powi (k + 53)" .
    have "(2::rat) powi (ilog2 \<bar>?q\<bar>) \<le> \<bar>?q\<bar>" using q0 by (intro ilog2_bounds) simp
    with u have "ilog2 \<bar>?q\<bar> < k + 53" using powi_2_less_iff by (metis le_less_trans)
    then have le: "ulp_exp ?q \<le> k" using assms(2) by (simp add: ulp_exp_def)
    have "?q / 2 powi (ulp_exp ?q) = of_int m * 2 powi (k - ulp_exp ?q)"
      by (simp add: power_int_diff)
    moreover obtain n :: int where "(2::rat) powi (k - ulp_exp ?q) = of_int n"
      using powi_2_int[of "k - ulp_exp ?q"] le by auto
    ultimately show ?thesis by (metis of_int_mult)
  qed
  then obtain n :: int where n: "?q / 2 powi (ulp_exp ?q) = of_int n" by blast
  then have "of_int n * 2 powi (ulp_exp ?q) = ?q" by (simp add: divide_eq_eq)
  then show ?thesis using q0 n by (simp add: rq_def Let_def)
qed (simp add: rq_def)

lemma rq_shape: "\<exists>m k. rq q = of_int m * 2 powi k \<and> \<bar>m\<bar> \<le> 2 ^ 53 \<and> - 1074 \<le> k"
proof (cases "q = 0")
  case False
  let ?u = "2 powi (ulp_exp q) :: rat" and ?m = "rne (q / 2 powi (ulp_exp q))"
  have a: "0 < \<bar>q\<bar>" using False by simp
  have "\<bar>q\<bar> < 2 powi (ilog2 \<bar>q\<bar> + 1)" using a by (rule ilog2_bounds)
  also have "\<dots> \<le> 2 powi (ulp_exp q + 53)" by (rule powi_2_mono) (simp add: ulp_exp_def)
  also have "\<dots> = 2 ^ 53 * ?u" by (simp add: power_int_add)
  finally have lt: "\<bar>q / ?u\<bar> \<le> of_int (2 ^ 53)"
    by (simp add: pos_divide_le_eq less_imp_le)
  then have "q / ?u \<le> of_int (2 ^ 53)" "of_int (- (2 ^ 53)) \<le> q / ?u"
    unfolding abs_le_iff by (linarith, simp)
  then have "?m \<le> 2 ^ 53" "- (2 ^ 53) \<le> ?m"
    by (metis rne_mono rne_of_int)+
  then have "\<bar>?m\<bar> \<le> 2 ^ 53" by (simp add: abs_le_iff)
  then show ?thesis using False ulp_exp_ge[of q] by (auto simp: rq_def Let_def)
qed (auto intro!: exI[of _ 0])

lemma rq_idem [simp]: "rq (rq q) = rq q"
  using rq_shape[of q] rq_exact by metis

lemma rq_of_int: "\<bar>n\<bar> \<le> 2 ^ 53 \<Longrightarrow> rq (of_int n) = of_int n"
  using rq_exact[of n 0] by simp

subsection \<open>Rounding to a float\<close>

lemma rnd_zero [simp]: "rnd 0 = Fin 0"
  by (simp add: rnd_def)

lemma rnd_not_NaN [simp]: "rnd q \<noteq> NaN"
  by (simp add: rnd_def Let_def)

lemma rnd_Fin_iff: "rnd q = Fin v \<longleftrightarrow> v = rq q \<and> \<bar>v\<bar> < 2 ^ 1024"
  by (auto simp: rnd_def Let_def abs_less_iff)

lemma rnd_representable: "rnd q = Fin v \<Longrightarrow> representable v"
  by (auto simp: representable_def rnd_Fin_iff)

lemma representable_zero [simp]: "representable 0"
  by (simp add: representable_def)

lemma representable_uminus [simp]: "representable (- q) \<longleftrightarrow> representable q"
  by (auto simp: representable_def rnd_Fin_iff rq_uminus)

lemma representable_of_int: "\<bar>n\<bar> \<le> 2 ^ 53 \<Longrightarrow> representable (of_int n)"
proof -
  assume n: "\<bar>n\<bar> \<le> 2 ^ 53"
  then have "\<bar>of_int n :: rat\<bar> \<le> of_int (2 ^ 53)" by (metis of_int_abs of_int_le_iff)
  also have "\<dots> < (2::rat) ^ 1024" by simp
  finally show ?thesis using n by (simp add: representable_def rnd_Fin_iff rq_of_int)
qed

lemma representable_one [simp]: "representable 1"
  using representable_of_int[of 1] by simp

lemma representable_numeral: "(numeral k :: int) \<le> 2 ^ 53 \<Longrightarrow> representable (numeral k)"
  using representable_of_int[of "numeral k"] by simp

subsection \<open>Evaluating the rounding\<close>

text \<open>
  The definition computes on rationals; this code equation does the same on the integers
  of the fraction, so that evaluating a chain of operations stays cheap.
\<close>

definition rne_div :: "int \<Rightarrow> int \<Rightarrow> int" where
  "rne_div n d = (let f = n div d; r = 2 * (n mod d) in
     if r < d then f else if d < r then f + 1 else if even f then f else f + 1)"

definition ilog_div :: "int \<Rightarrow> int \<Rightarrow> int" where
  "ilog_div n d = (let e = bitlen n - bitlen d in
     if (if 0 \<le> e then d * 2 ^ nat e \<le> n else d \<le> n * 2 ^ nat (- e)) then e else e - 1)"

lemma rne_div: "0 < d \<Longrightarrow> rne (of_int n / of_int d) = rne_div n d"
proof -
  assume d: "0 < d"
  have f: "floor (of_int n / of_int d :: rat) = n div d" by (simp add: floor_divide_of_int_eq)
  have n: "n = d * (n div d) + n mod d" by simp
  have "of_int n = of_int d * of_int (n div d) + (of_int (n mod d) :: rat)"
    using n by (metis of_int_add of_int_mult)
  then have r: "(of_int n / of_int d :: rat) - of_int (n div d) = of_int (n mod d) / of_int d"
    using d by (simp add: field_simps)
  have c1: "of_int (n mod d) / of_int d < (1/2 :: rat) \<longleftrightarrow> 2 * (n mod d) < d"
    using d by (simp add: divide_less_eq) (metis (mono_tags, opaque_lifting) mult.commute of_int_less_iff of_int_mult of_int_numeral)
  have c2: "(1/2 :: rat) < of_int (n mod d) / of_int d \<longleftrightarrow> d < 2 * (n mod d)"
    using d by (simp add: less_divide_eq) (metis (mono_tags, opaque_lifting) mult.commute of_int_less_iff of_int_mult of_int_numeral)
  show ?thesis unfolding rne_def rne_div_def f Let_def r c1 c2 ..
qed

lemma ilog_div:
  assumes "quotient_of q = (n, d)" "0 < n"
  shows "ilog2 q = ilog_div n d"
proof -
  have d: "0 < d" using assms(1) by (rule quotient_of_denom_pos)
  have q: "q = of_int n / of_int d" using assms(1) by (rule quotient_of_div)
  have "2 powi e \<le> q \<longleftrightarrow> (if 0 \<le> e then d * 2 ^ nat e \<le> n else d \<le> n * 2 ^ nat (- e))" for e
  proof (cases "0 \<le> e")
    case True
    have "2 powi e \<le> q \<longleftrightarrow> of_int (d * 2 ^ nat e) \<le> (of_int n :: rat)"
      using True d by (simp add: q power_int_def field_simps)
    then show ?thesis using True by (simp only: of_int_le_iff if_True)
  next
    case False
    have "2 powi e \<le> q \<longleftrightarrow> of_int d \<le> (of_int (n * 2 ^ nat (- e)) :: rat)"
      using False d by (simp add: q power_int_def field_simps)
    then show ?thesis using False by (simp only: of_int_le_iff if_False)
  qed
  then show ?thesis by (simp add: ilog2_def ilog_div_def assms(1) Let_def)
qed

lemma pow2_le_of_int: "(2 ^ k \<le> (of_int v :: rat)) = (2 ^ k \<le> v)"
  and of_int_le_pow2: "((of_int v :: rat) \<le> - (2 ^ k)) = (v \<le> - (2 ^ k))"
  by (metis of_int_le_iff of_int_numeral of_int_power)
     (metis of_int_le_iff of_int_minus of_int_numeral of_int_power)

lemma rq_small: "q \<noteq> 0 \<Longrightarrow> ilog2 \<bar>q\<bar> \<le> 51 \<Longrightarrow> \<bar>rq q\<bar> < 2 ^ 1024"
proof -
  assume q: "q \<noteq> 0" "ilog2 \<bar>q\<bar> \<le> 51"
  have "0 < \<bar>q\<bar>" using q(1) by simp
  then have "\<bar>q\<bar> < 2 powi (ilog2 \<bar>q\<bar> + 1)" by (rule ilog2_bounds)
  also have "\<dots> \<le> 2 powi 52" using q(2) by (intro powi_2_mono) simp
  finally have "- of_int (2 ^ 52) \<le> q" "q \<le> of_int (2 ^ 52)" by (auto simp: power_int_def)
  then have "rq (- of_int (2 ^ 52)) \<le> rq q" "rq q \<le> rq (of_int (2 ^ 52))" by (auto intro!: rq_mono)
  moreover have "rq (of_int (2 ^ 52)) = of_int (2 ^ 52)" by (rule rq_of_int) simp
  ultimately have "\<bar>rq q\<bar> \<le> of_int (2 ^ 52)" by (metis abs_le_iff minus_le_iff rq_uminus)
  also have "\<dots> < (2 :: rat) ^ 1024" by simp
  finally show ?thesis .
qed

lemma rnd_code [code]:
  "rnd q = (case quotient_of q of (n, d) \<Rightarrow>
     if n = 0 then Fin 0
     else let e = ilog_div \<bar>n\<bar> d; u = max (e - 52) (- 1074) in
       if 0 \<le> u then
         let v = rne_div n (d * 2 ^ nat u) * 2 ^ nat u in
         if 2 ^ 1024 \<le> v then PInf else if v \<le> - (2 ^ 1024) then NInf else Fin (of_int v)
       else Fin (of_int (rne_div (n * 2 ^ nat (- u)) d) / of_int (2 ^ nat (- u))))"
proof (cases "q = 0")
  case False
  obtain n d where q: "quotient_of q = (n, d)" by (cases "quotient_of q")
  have d: "0 < d" using q by (rule quotient_of_denom_pos)
  have qd: "q = of_int n / of_int d" using q by (rule quotient_of_div)
  have n: "n \<noteq> 0" using False qd by auto
  have "quotient_of \<bar>q\<bar> = (\<bar>n\<bar>, d)" by (simp only: rat_abs_code q Let_def prod.case)
  then have il: "ilog2 \<bar>q\<bar> = ilog_div \<bar>n\<bar> d" using n by (intro ilog_div) auto
  define u where "u = max (ilog_div \<bar>n\<bar> d - 52) (- 1074)"
  have u: "ulp_exp q = u" by (simp add: ulp_exp_def il u_def)
  have rq: "rq q = of_int (rne (q / 2 powi u)) * 2 powi u" using False by (simp add: rq_def u Let_def)
  show ?thesis
  proof (cases "0 \<le> u")
    case True
    define v where "v = rne_div n (d * 2 ^ nat u) * 2 ^ nat u"
    have p: "(2 :: rat) powi u = of_int (2 ^ nat u)" using True by (simp add: power_int_def)
    have "rne (q / 2 powi u) = rne (of_int n / of_int (d * 2 ^ nat u))" by (simp add: qd p)
    also have "\<dots> = rne_div n (d * 2 ^ nat u)" using d by (intro rne_div) simp
    finally have r: "rq q = of_int v" unfolding rq p v_def by (simp only: of_int_mult)
    have "rnd q = (if 2 ^ 1024 \<le> v then PInf else if v \<le> - (2 ^ 1024) then NInf else Fin (of_int v))"
      unfolding rnd_def Let_def r pow2_le_of_int of_int_le_pow2 ..
    then show ?thesis
      unfolding q prod.case Let_def u_def[symmetric] v_def[symmetric] if_not_P[OF n] if_P[OF True] .
  next
    case neg: False
    have p: "(2 :: rat) powi u = 1 / of_int (2 ^ nat (- u))" using neg by (simp add: power_int_def field_simps)
    have "rne (q / 2 powi u) = rne (of_int (n * 2 ^ nat (- u)) / of_int d)" by (simp add: qd p)
    also have "\<dots> = rne_div (n * 2 ^ nat (- u)) d" using d by (intro rne_div)
    finally have r: "rq q = of_int (rne_div (n * 2 ^ nat (- u)) d) / of_int (2 ^ nat (- u))"
      unfolding rq p by (simp only: times_divide_eq_right mult_1_right)
    have "ilog2 \<bar>q\<bar> \<le> 51" using neg u_def il by linarith
    with False have "\<bar>rq q\<bar> < 2 ^ 1024" by (rule rq_small)
    then have "rnd q = Fin (rq q)" by (metis rnd_Fin_iff)
    then show ?thesis
      unfolding q prod.case Let_def u_def[symmetric] if_not_P[OF n] if_not_P[OF neg] r .
  qed
qed (simp add: rnd_def)

section \<open>Comparison\<close>

text \<open>Every comparison with NaN is false, as in Python.\<close>

fun fle :: "pyfloat \<Rightarrow> pyfloat \<Rightarrow> bool" where
  "fle NaN _ = False"
| "fle _ NaN = False"
| "fle NInf _ = True"
| "fle _ PInf = True"
| "fle (Fin a) (Fin b) = (a \<le> b)"
| "fle _ _ = False"

fun flt :: "pyfloat \<Rightarrow> pyfloat \<Rightarrow> bool" where
  "flt NaN _ = False"
| "flt _ NaN = False"
| "flt (Fin a) (Fin b) = (a < b)"
| "flt NInf NInf = False"
| "flt NInf _ = True"
| "flt PInf _ = False"
| "flt _ PInf = True"
| "flt _ _ = False"

definition feq :: "pyfloat \<Rightarrow> pyfloat \<Rightarrow> bool" where
  "feq a b \<longleftrightarrow> a \<noteq> NaN \<and> a = b"

definition fmax :: "pyfloat \<Rightarrow> pyfloat \<Rightarrow> pyfloat" where
  \<comment> \<open>\<open>max(a, b)\<close>: the first argument unless the second is greater\<close>
  "fmax a b = (if flt a b then b else a)"

definition fmin :: "pyfloat \<Rightarrow> pyfloat \<Rightarrow> pyfloat" where
  "fmin a b = (if flt b a then b else a)"

fun fmax_list :: "pyfloat list \<Rightarrow> pyfloat result" where
  "fmax_list [] = Inl (ValueError ''max() arg is an empty sequence'')"
| "fmax_list (x # xs) = Inr (foldl fmax x xs)"

fun fmin_list :: "pyfloat list \<Rightarrow> pyfloat result" where
  "fmin_list [] = Inl (ValueError ''min() arg is an empty sequence'')"
| "fmin_list (x # xs) = Inr (foldl fmin x xs)"

abbreviation nonneg :: "pyfloat \<Rightarrow> bool" where "nonneg x \<equiv> fle (Fin 0) x"

abbreviation positive :: "pyfloat \<Rightarrow> bool" where "positive x \<equiv> flt (Fin 0) x"

lemma fle_refl_iff [simp]: "fle x x \<longleftrightarrow> x \<noteq> NaN"
  by (cases x) auto

lemma fle_PInf [simp]: "fle x PInf \<longleftrightarrow> x \<noteq> NaN" and fle_NInf [simp]: "fle NInf x \<longleftrightarrow> x \<noteq> NaN"
  by (cases x; simp)+

lemma fle_not_NaN: "fle a b \<Longrightarrow> a \<noteq> NaN \<and> b \<noteq> NaN"
  by (cases a; cases b) auto

lemma flt_not_NaN: "flt a b \<Longrightarrow> a \<noteq> NaN \<and> b \<noteq> NaN"
  by (cases a; cases b) auto

lemma fle_trans: "fle a b \<Longrightarrow> fle b c \<Longrightarrow> fle a c"
  by (cases a; cases b; cases c) auto

lemma flt_imp_fle: "flt a b \<Longrightarrow> fle a b"
  by (cases a; cases b) auto

lemma fle_flt_trans: "fle a b \<Longrightarrow> flt b c \<Longrightarrow> flt a c"
  by (cases a; cases b; cases c) auto

lemma flt_fle_trans: "flt a b \<Longrightarrow> fle b c \<Longrightarrow> flt a c"
  by (cases a; cases b; cases c) auto

lemma flt_irrefl [simp]: "\<not> flt x x"
  by (cases x) auto

lemma flt_asym: "flt a b \<Longrightarrow> \<not> fle b a"
  by (cases a; cases b) auto

lemma fle_antisym: "fle a b \<Longrightarrow> fle b a \<Longrightarrow> a = b"
  by (cases a; cases b) auto

lemma not_flt_iff: "a \<noteq> NaN \<Longrightarrow> b \<noteq> NaN \<Longrightarrow> \<not> flt a b \<longleftrightarrow> fle b a"
  by (cases a; cases b) auto

lemma not_fle_iff: "a \<noteq> NaN \<Longrightarrow> b \<noteq> NaN \<Longrightarrow> \<not> fle a b \<longleftrightarrow> flt b a"
  by (cases a; cases b) auto

lemma fle_Fin_cases: "fle (Fin a) x \<longleftrightarrow> x = PInf \<or> (\<exists>b. x = Fin b \<and> a \<le> b)"
  by (cases x) auto

lemma flt_Fin_cases: "flt (Fin a) x \<longleftrightarrow> x = PInf \<or> (\<exists>b. x = Fin b \<and> a < b)"
  by (cases x) auto

lemma flt_Fin_right: "flt x (Fin b) \<longleftrightarrow> x = NInf \<or> (\<exists>a. x = Fin a \<and> a < b)"
  by (cases x) auto

lemma fle_Fin_right: "fle x (Fin b) \<longleftrightarrow> x = NInf \<or> (\<exists>a. x = Fin a \<and> a \<le> b)"
  by (cases x) auto

lemma feq_Fin [simp]: "feq (Fin a) (Fin b) \<longleftrightarrow> a = b" "feq NaN x \<longleftrightarrow> False" "feq x NaN \<longleftrightarrow> False"
  by (auto simp: feq_def)

lemma feq_refl_iff [simp]: "feq x x \<longleftrightarrow> x \<noteq> NaN"
  by (simp add: feq_def)

lemma feq_fle: "feq a b \<longleftrightarrow> fle a b \<and> fle b a"
  by (auto simp: feq_def intro: fle_antisym dest: fle_not_NaN)

lemma fmax_ge1: "a \<noteq> NaN \<Longrightarrow> fle a (fmax a b)"
  by (auto simp: fmax_def intro: flt_imp_fle)

lemma fmax_ge2: "a \<noteq> NaN \<Longrightarrow> b \<noteq> NaN \<Longrightarrow> fle b (fmax a b)"
  by (auto simp: fmax_def not_flt_iff)

lemma fmin_le1: "a \<noteq> NaN \<Longrightarrow> fle (fmin a b) a"
  by (auto simp: fmin_def intro: flt_imp_fle)

lemma fmin_le2: "a \<noteq> NaN \<Longrightarrow> b \<noteq> NaN \<Longrightarrow> fle (fmin a b) b"
  by (auto simp: fmin_def not_flt_iff)

lemma fmax_Fin [simp]: "fmax (Fin a) (Fin b) = Fin (max a b)"
  by (auto simp: fmax_def)

lemma fmin_Fin [simp]: "fmin (Fin a) (Fin b) = Fin (min a b)"
  by (auto simp: fmin_def)

section \<open>Arithmetic\<close>

fun fneg :: "pyfloat \<Rightarrow> pyfloat" where
  "fneg (Fin a) = Fin (- a)"
| "fneg PInf = NInf"
| "fneg NInf = PInf"
| "fneg NaN = NaN"

fun fabs :: "pyfloat \<Rightarrow> pyfloat" where
  "fabs (Fin a) = Fin \<bar>a\<bar>"
| "fabs NaN = NaN"
| "fabs _ = PInf"

fun fadd :: "pyfloat \<Rightarrow> pyfloat \<Rightarrow> pyfloat" where
  "fadd (Fin a) (Fin b) = rnd (a + b)"
| "fadd NaN _ = NaN"
| "fadd _ NaN = NaN"
| "fadd PInf NInf = NaN"
| "fadd NInf PInf = NaN"
| "fadd PInf _ = PInf"
| "fadd _ PInf = PInf"
| "fadd NInf _ = NInf"
| "fadd _ NInf = NInf"

definition fsub :: "pyfloat \<Rightarrow> pyfloat \<Rightarrow> pyfloat" where
  "fsub a b = fadd a (fneg b)"

definition finf :: "rat \<Rightarrow> pyfloat" where
  \<comment> \<open>infinity with the sign of a finite factor; zero times infinity is NaN\<close>
  "finf q = (if 0 < q then PInf else if q < 0 then NInf else NaN)"

fun fmul :: "pyfloat \<Rightarrow> pyfloat \<Rightarrow> pyfloat" where
  "fmul (Fin a) (Fin b) = rnd (a * b)"
| "fmul NaN _ = NaN"
| "fmul _ NaN = NaN"
| "fmul (Fin a) PInf = finf a"
| "fmul (Fin a) NInf = finf (- a)"
| "fmul PInf (Fin b) = finf b"
| "fmul NInf (Fin b) = finf (- b)"
| "fmul PInf PInf = PInf"
| "fmul NInf NInf = PInf"
| "fmul PInf NInf = NInf"
| "fmul NInf PInf = NInf"

fun fdiv :: "pyfloat \<Rightarrow> pyfloat \<Rightarrow> pyfloat" where
  \<comment> \<open>division by a nonzero float; a zero divisor is left to \<open>pdiv\<close>\<close>
  "fdiv (Fin a) (Fin b) = (if b = 0 then NaN else rnd (a / b))"
| "fdiv NaN _ = NaN"
| "fdiv _ NaN = NaN"
| "fdiv (Fin a) _ = Fin 0"
| "fdiv PInf (Fin b) = finf b"
| "fdiv NInf (Fin b) = finf (- b)"
| "fdiv _ _ = NaN"

definition pdiv :: "pyfloat \<Rightarrow> pyfloat \<Rightarrow> pyfloat result" where
  \<comment> \<open>Python's \<open>/\<close>\<close>
  "pdiv a b = (if feq b (Fin 0) then Inl ZeroDivisionError else Inr (fdiv a b))"

definition fint :: "int \<Rightarrow> pyfloat" where
  \<comment> \<open>an int operand of a float operation (below \<open>2^1024\<close>, where Python would raise)\<close>
  "fint n = rnd (of_int n)"

definition idiv :: "int \<Rightarrow> int \<Rightarrow> pyfloat" where
  \<comment> \<open>\<open>int / int\<close> for a nonzero divisor: correctly rounded\<close>
  "idiv m n = rnd (of_int m / of_int n)"

text \<open>
  \<open>sum\<close> over floats is the compensated (Neumaier) sum CPython has used since 3.12: the
  running error is kept beside the running sum and added at the end.
\<close>

fun neumaier :: "pyfloat \<Rightarrow> pyfloat \<Rightarrow> pyfloat list \<Rightarrow> pyfloat \<times> pyfloat" where
  "neumaier f c [] = (f, c)"
| "neumaier f c (x # xs) =
     (let t = fadd f x;
          e = (if fle (fabs x) (fabs f) then fadd (fsub f t) x else fadd (fsub x t) f)
      in neumaier t (fadd c e) xs)"

definition pysum :: "pyfloat list \<Rightarrow> pyfloat" where
  "pysum xs = (case xs of
       [] \<Rightarrow> Fin 0
     | x # ys \<Rightarrow>
         (case neumaier (fadd (Fin 0) x) (Fin 0) ys of
            (f, c) \<Rightarrow> if is_Fin c \<and> \<not> feq c (Fin 0) then fadd f c else f))"

lemma pysum_Nil [simp]: "pysum [] = Fin 0"
  by (simp add: pysum_def)

section \<open>The rounding contract\<close>

text \<open>What the components rely on of rounding; binary64's \<open>rnd\<close> provides it.\<close>

locale rounding =
  fixes rd :: "rat \<Rightarrow> pyfloat"
  assumes rd_mono: "q \<le> r \<Longrightarrow> fle (rd q) (rd r)"
    and rd_zero: "rd 0 = Fin 0"
    and rd_neg: "rd (- q) = fneg (rd q)"
    and rd_fixed: "rd q = Fin v \<Longrightarrow> rd v = Fin v"
begin

lemma rd_number: "rd q \<noteq> NaN"
  using rd_mono[of q q] by simp

lemma rd_nonneg: "0 \<le> q \<Longrightarrow> nonneg (rd q)"
  using rd_mono[of 0 q] by (simp add: rd_zero)

lemma rd_nonpos: "q \<le> 0 \<Longrightarrow> fle (rd q) (Fin 0)"
  using rd_mono[of q 0] by (simp add: rd_zero)

lemma rd_upper: "rd r = Fin r \<Longrightarrow> q \<le> r \<Longrightarrow> fle (rd q) (Fin r)"
  using rd_mono[of q r] by simp

lemma rd_lower: "rd r = Fin r \<Longrightarrow> r \<le> q \<Longrightarrow> fle (Fin r) (rd q)"
  using rd_mono[of r q] by simp

lemma rd_pos_arg: "positive (rd q) \<Longrightarrow> 0 < q"
  using rd_nonpos[of q] by (metis flt_asym linorder_not_less)

lemma rd_between:
  "rd a = Fin a \<Longrightarrow> rd b = Fin b \<Longrightarrow> a \<le> q \<Longrightarrow> q \<le> b \<Longrightarrow> \<exists>v. rd q = Fin v \<and> a \<le> v \<and> v \<le> b"
  using rd_lower[of a q] rd_upper[of b q] by (cases "rd q") auto

end

lemma rnd_uminus: "rnd (- q) = fneg (rnd q)"
  by (auto simp: rnd_def Let_def rq_uminus)

interpretation binary64: rounding rnd
proof unfold_locales
  fix q r :: rat
  assume "q \<le> r"
  then have "rq q \<le> rq r" by (rule rq_mono)
  then show "fle (rnd q) (rnd r)" by (auto simp: rnd_def Let_def)
next
  show "rnd 0 = Fin 0" by simp
next
  fix q show "rnd (- q) = fneg (rnd q)" by (rule rnd_uminus)
next
  fix q v assume "rnd q = Fin v"
  then show "rnd v = Fin v" by (auto simp: rnd_Fin_iff)
qed

lemma representable_upper: "representable r \<Longrightarrow> q \<le> r \<Longrightarrow> fle (rnd q) (Fin r)"
  unfolding representable_def by (rule binary64.rd_upper)

lemma representable_lower: "representable r \<Longrightarrow> r \<le> q \<Longrightarrow> fle (Fin r) (rnd q)"
  unfolding representable_def by (rule binary64.rd_lower)

section \<open>Signs and bounds of the operations\<close>

lemma fneg_fneg [simp]: "fneg (fneg x) = x"
  by (cases x) auto

lemma fneg_mono: "fle a b \<Longrightarrow> fle (fneg b) (fneg a)"
  by (cases a; cases b) auto

lemma fneg_NaN_iff [simp]: "fneg x = NaN \<longleftrightarrow> x = NaN"
  by (cases x) auto

lemma fabs_nonneg: "x \<noteq> NaN \<Longrightarrow> nonneg (fabs x)"
  by (cases x) auto

lemma fadd_nonneg: "nonneg a \<Longrightarrow> nonneg b \<Longrightarrow> nonneg (fadd a b)"
  by (auto simp: fle_Fin_cases[of 0 a] fle_Fin_cases[of 0 b] intro!: binary64.rd_nonneg)

lemma fmul_nonneg: "nonneg a \<Longrightarrow> nonneg b \<Longrightarrow> is_Fin a \<Longrightarrow> is_Fin b \<Longrightarrow> nonneg (fmul a b)"
  by (cases a; cases b) (auto intro: binary64.rd_nonneg)

lemma fdiv_nonneg: "nonneg a \<Longrightarrow> positive b \<Longrightarrow> is_Fin a \<or> is_Fin b \<Longrightarrow> nonneg (fdiv a b)"
  by (cases a; cases b) (auto simp: finf_def intro: binary64.rd_nonneg)

lemma fadd_mono_right: "fle b c \<Longrightarrow> fle (fadd (Fin a) b) (fadd (Fin a) c)"
  by (cases b; cases c) (auto intro: binary64.rd_mono simp: binary64.rd_number)

lemma fadd_commute: "fadd a b = fadd b a"
  by (cases a; cases b) (auto simp: add.commute)

lemma fmul_commute: "fmul a b = fmul b a"
  by (cases a; cases b) (auto simp: mult.commute)

lemma fadd_zero_left: "representable q \<Longrightarrow> fadd (Fin 0) (Fin q) = Fin q"
  by (simp add: representable_def)

lemma fsub_self: "is_Fin a \<Longrightarrow> fsub a a = Fin 0"
  by (cases a) (auto simp: fsub_def)

lemma fsub_Fin [simp]: "fsub (Fin a) (Fin b) = rnd (a - b)"
  by (simp add: fsub_def)

lemma fsub_zero: "representable q \<Longrightarrow> fsub (Fin q) (Fin 0) = Fin q"
  by (simp add: representable_def)

lemma fsub_nonneg: "fle b a \<Longrightarrow> is_Fin b \<Longrightarrow> nonneg (fsub a b)"
  by (cases a; cases b) (auto simp: fsub_def intro: binary64.rd_nonneg)

lemma fsub_le_left: "representable a \<Longrightarrow> nonneg b \<Longrightarrow> fle (fsub (Fin a) b) (Fin a)"
  by (cases b) (auto simp: fsub_def intro: representable_upper)

lemma fadd_ge_left: "representable a \<Longrightarrow> nonneg b \<Longrightarrow> fle (Fin a) (fadd (Fin a) b)"
  by (cases b) (auto intro: representable_lower)

lemma fdiv_le_one: "0 \<le> a \<Longrightarrow> a \<le> b \<Longrightarrow> 0 < b \<Longrightarrow> \<exists>v. fdiv (Fin a) (Fin b) = Fin v \<and> 0 \<le> v \<and> v \<le> 1"
  using binary64.rd_between[of 0 1 "a / b"] representable_one
  by (auto simp: representable_def)

lemma pdiv_Inr: "pdiv a b = Inr c \<longleftrightarrow> \<not> feq b (Fin 0) \<and> c = fdiv a b"
  by (auto simp: pdiv_def)

lemma pdiv_nonzero: "\<not> feq b (Fin 0) \<Longrightarrow> pdiv a b = Inr (fdiv a b)"
  by (simp add: pdiv_def)

lemma fint_numeral: "\<bar>n\<bar> \<le> 2 ^ 53 \<Longrightarrow> fint n = Fin (of_int n)"
  using representable_of_int[of n] by (simp add: fint_def representable_def)

section \<open>Values of the type\<close>

text \<open>
  The datatype admits every rational; \<open>float_value\<close> marks the binary64 values among them.
  Every operation returns one.
\<close>

fun float_value :: "pyfloat \<Rightarrow> bool" where
  "float_value (Fin q) = representable q"
| "float_value _ = True"

lemma float_value_rnd [simp]: "float_value (rnd q)"
  by (cases "rnd q") (auto intro: rnd_representable)

lemma float_value_finf [simp]: "float_value (finf q)"
  by (simp add: finf_def)

lemma float_value_ops [simp]:
  "float_value (fadd a b)" "float_value (fsub a b)" "float_value (fmul a b)" "float_value (fdiv a b)"
proof -
  have add: "float_value (fadd x y)" for x y by (cases x; cases y) auto
  show "float_value (fadd a b)" "float_value (fsub a b)" by (simp_all add: add fsub_def)
  show "float_value (fmul a b)" "float_value (fdiv a b)" by (cases a; cases b; simp)+
qed

lemma float_value_select [simp]:
  "float_value a \<Longrightarrow> float_value b \<Longrightarrow> float_value (fmax a b)"
  "float_value a \<Longrightarrow> float_value b \<Longrightarrow> float_value (fmin a b)"
  "float_value a \<Longrightarrow> float_value (fneg a)"
  by (auto simp: fmax_def fmin_def) (cases a; auto)

lemma fsub_le_self: "float_value a \<Longrightarrow> nonneg a \<Longrightarrow> nonneg b \<Longrightarrow> is_Fin b \<Longrightarrow> fle (fsub a b) a"
  by (cases a; cases b) (auto simp: fsub_def intro: representable_upper)

lemma fadd_ge_self: "float_value a \<Longrightarrow> nonneg a \<Longrightarrow> nonneg b \<Longrightarrow> fle a (fadd a b)"
  by (cases a; cases b) (auto intro: representable_lower)

section \<open>Rounding within a factor of two\<close>

text \<open>
  Enough accuracy to show that a chain of operations neither underflows nor overflows: in the
  normal range a rounded value lies between half and twice the exact one.
\<close>

lemma representable_power: "- 1074 \<le> k \<Longrightarrow> k < 1024 \<Longrightarrow> representable (2 powi k)"
proof -
  assume k: "- 1074 \<le> k" "k < 1024"
  have "rq (2 powi k) = 2 powi k" using rq_exact[of 1 k] k(1) by simp
  moreover have "(2 :: rat) powi k < 2 powi 1024" unfolding powi_2_less_iff by (rule k(2))
  moreover have "(2 :: rat) powi 1024 = 2 ^ 1024" by (metis power_int_numeral)
  ultimately show ?thesis by (simp only: representable_def rnd_Fin_iff abs_of_pos powi_2_pos)
qed

lemma rnd_finite: "\<bar>x\<bar> \<le> 2 powi k \<Longrightarrow> - 1074 \<le> k \<Longrightarrow> k < 1024 \<Longrightarrow> \<exists>v. rnd x = Fin v \<and> \<bar>v\<bar> \<le> 2 powi k"
proof -
  assume a: "\<bar>x\<bar> \<le> 2 powi k" "- 1074 \<le> k" "k < 1024"
  then have r: "rnd (2 powi k) = Fin (2 powi k)" "rnd (- (2 powi k)) = Fin (- (2 powi k))"
    using representable_power[OF a(2,3)] by (simp_all add: representable_def rnd_uminus)
  have "- (2 powi k) \<le> x" "x \<le> 2 powi k" using a(1) by auto
  then obtain v where "rnd x = Fin v" "- (2 powi k) \<le> v" "v \<le> 2 powi k"
    using binary64.rd_between[OF r(2) r(1)] by blast
  then show ?thesis by (intro exI[of _ v]) (simp add: abs_le_iff minus_le_iff)
qed

lemma rnd_ge_half:
  assumes "2 powi (- 1022) \<le> x"
  shows "fle (Fin (x / 2)) (rnd x)"
proof -
  have x: "0 < x" using assms powi_2_pos[of "- 1022"] by linarith
  note b = ilog2_bounds[OF x]
  have "- 1022 \<le> ilog2 x" using assms b(2) powi_2_less_iff[of "- 1022" "ilog2 x + 1"] by linarith
  then have "2 powi (ilog2 x) \<le> rq x" using b(1) x by (intro rq_ge_bound) (auto simp: ulp_exp_def)
  moreover have "x / 2 < 2 powi (ilog2 x)" using b(2) by (simp add: power_int_add)
  ultimately have "x / 2 \<le> rq x" by linarith
  moreover have "\<not> rq x \<le> - (2 ^ 1024)" using rq_nonneg[of x] x by (auto simp: not_le intro: less_le_trans[of _ 0])
  ultimately show ?thesis by (auto simp: rnd_def Let_def)
qed

lemma rnd_within:
  assumes "2 powi (- 1022) \<le> x" "x \<le> 2 powi 1022"
  shows "\<exists>v. rnd x = Fin v \<and> x / 2 \<le> v \<and> v \<le> 2 * x \<and> representable v"
proof -
  have x: "0 < x" using assms(1) powi_2_pos[of "- 1022"] by linarith
  note b = ilog2_bounds[OF x]
  obtain v where v: "rnd x = Fin v" using rnd_finite[of x 1022] assms(2) x by auto
  then have "x / 2 \<le> v" using rnd_ge_half[OF assms(1)] by simp
  have "- 1022 \<le> ilog2 x" using assms(1) b(2) powi_2_less_iff[of "- 1022" "ilog2 x + 1"] by linarith
  then have "rq x \<le> 2 powi (ilog2 x + 1)" using b(2) x by (intro rq_le_bound) (auto simp: ulp_exp_def)
  moreover have "2 powi (ilog2 x + 1) \<le> 2 * x" using b(1) by (simp add: power_int_add)
  moreover have "v = rq x" using v by (simp add: rnd_Fin_iff)
  ultimately show ?thesis using v \<open>x / 2 \<le> v\<close> rnd_representable by auto
qed

lemma fadd_NaN : "fadd x NaN = NaN" "fadd NaN x = NaN"
  by (cases x; simp)+

lemma fmul_NaN : "fmul x NaN = NaN" "fmul NaN x = NaN"
  by (cases x; simp)+

lemma fdiv_NaN : "fdiv x NaN = NaN" "fdiv NaN x = NaN"
  by (cases x; simp)+

end
