(* ===== verification/PyMath.thy ===== *)
theory PyMath
  imports PyFloat
begin

text \<open>
  The standard-library functions on floats that the program calls: \<open>math.sqrt\<close>,
  \<open>math.isfinite\<close>, and \<open>statistics.mean\<close>, \<open>median\<close>, \<open>stdev\<close>, \<open>pstdev\<close> as CPython 3.12
  computes them: sums are exact fractions, the square root of the variance is correctly
  rounded, and a sample with an infinity or a NaN makes the deviations raise
  (\<open>'float' object has no attribute 'numerator'\<close>).  The C library's \<open>pow\<close> and \<open>exp\<close> are
  not correctly rounded; they are parameters of the definitions that use them
  (\<open>pow_fn\<close>, \<open>exp_fn\<close>).
\<close>

section \<open>Square root\<close>

function isqrt :: "int \<Rightarrow> int" where
  "isqrt n = (if n < 1 then 0
              else let r = 2 * isqrt (n div 4) in if (r + 1) * (r + 1) \<le> n then r + 1 else r)"
  by pat_completeness auto
termination by (relation "measure nat") auto

declare isqrt.simps [simp del]

lemma isqrt_spec: "0 \<le> n \<Longrightarrow> 0 \<le> isqrt n \<and> isqrt n * isqrt n \<le> n \<and> n < (isqrt n + 1) * (isqrt n + 1)"
proof (induction n rule: isqrt.induct)
  case (1 n)
  show ?case
  proof (cases "n < 1")
    case True
    with 1 show ?thesis by (simp add: isqrt.simps[of n])
  next
    case False
    define k where "k = isqrt (n div 4)"
    have ih: "0 \<le> k" "k * k \<le> n div 4" "n div 4 < (k + 1) * (k + 1)"
      using 1 False by (auto simp: k_def)
    have "4 * (k * k) \<le> n" using ih(2) by linarith
    moreover have "n < 4 * ((k + 1) * (k + 1))" using ih(3) by linarith
    ultimately show ?thesis using ih(1) False
      by (auto simp: isqrt.simps[of n] Let_def k_def[symmetric] algebra_simps)
  qed
qed

definition sqrt_rnd :: "rat \<Rightarrow> pyfloat" where
  \<comment> \<open>the square root of a rational that is not negative, correctly rounded: 55 bits and a
     sticky half are enough to round to 53\<close>
  "sqrt_rnd q =
     (if q = 0 then Fin 0
      else let s = 56 - ilog2 q div 2;
               t = q * 4 powi s;
               r = isqrt (floor t)
           in rnd ((if of_int (r * r) = t then of_int r else of_int r + 1/2) / 2 powi s))"

fun math_sqrt :: "pyfloat \<Rightarrow> pyfloat result" where
  "math_sqrt (Fin q) = (if q < 0 then Inl (ValueError ''math domain error'') else Inr (sqrt_rnd q))"
| "math_sqrt PInf = Inr PInf"
| "math_sqrt NaN = Inr NaN"
| "math_sqrt NInf = Inl (ValueError ''math domain error'')"

lemma sqrt_rnd_nonneg: "0 \<le> q \<Longrightarrow> nonneg (sqrt_rnd q)"
proof -
  assume q: "0 \<le> q"
  have "0 \<le> isqrt (floor (q * 4 powi s))" for s
    using q isqrt_spec by (simp add: zero_le_power_int)
  then show ?thesis
    by (auto simp: sqrt_rnd_def Let_def intro!: binary64.rd_nonneg divide_nonneg_nonneg zero_le_power_int add_nonneg_nonneg)
qed

section \<open>Statistics\<close>

definition exact_sum :: "pyfloat list \<Rightarrow> rat" where
  "exact_sum xs = sum_list (map val xs)"

definition stat_mean :: "pyfloat list \<Rightarrow> pyfloat result" where
  "stat_mean xs =
     (if xs = [] then Inl StatisticsError
      else if list_all is_Fin xs then Inr (rnd (exact_sum xs / of_nat (length xs)))
      else Inr (foldl fadd (Fin 0) (filter (\<lambda>x. \<not> is_Fin x) xs)))"

definition sum_sq_dev :: "pyfloat list \<Rightarrow> rat" where
  \<comment> \<open>\<open>statistics._ss\<close>: the exact sum of squared deviations from the mean\<close>
  "sum_sq_dev xs =
     (let n = of_nat (length xs);
          sx = exact_sum xs;
          sxx = sum_list (map (\<lambda>x. val x * val x) xs)
      in (n * sxx - sx * sx) / n)"

definition stat_stdev :: "pyfloat list \<Rightarrow> pyfloat result" where
  "stat_stdev xs =
     (if length xs < 2 then Inl StatisticsError
      else if list_all is_Fin xs then Inr (sqrt_rnd (sum_sq_dev xs / of_nat (length xs - 1)))
      else Inl AttributeError)"

definition stat_pstdev :: "pyfloat list \<Rightarrow> pyfloat result" where
  "stat_pstdev xs =
     (if xs = [] then Inl StatisticsError
      else if list_all is_Fin xs then Inr (sqrt_rnd (sum_sq_dev xs / of_nat (length xs)))
      else Inl AttributeError)"

fun insert_sorted :: "pyfloat \<Rightarrow> pyfloat list \<Rightarrow> pyfloat list" where
  "insert_sorted x [] = [x]"
| "insert_sorted x (y # ys) = (if flt x y then x # y # ys else y # insert_sorted x ys)"

definition fsorted :: "pyfloat list \<Rightarrow> pyfloat list" where
  \<comment> \<open>\<open>sorted\<close> on floats without NaN: stable, ascending\<close>
  "fsorted xs = foldl (\<lambda>ys x. insert_sorted x ys) [] xs"

definition stat_median :: "pyfloat list \<Rightarrow> pyfloat result" where
  "stat_median xs =
     (let s = fsorted xs; n = length s in
      if n = 0 then Inl StatisticsError
      else if odd n then Inr (s ! (n div 2))
      else Inr (fdiv (fadd (s ! (n div 2 - 1)) (s ! (n div 2))) (Fin 2)))"

lemma sum_sq_dev_nonneg: "0 \<le> sum_sq_dev xs"
proof (cases "xs = []")
  case False
  let ?n = "of_nat (length xs) :: rat" and ?m = "exact_sum xs / of_nat (length xs)"
  have n: "0 < ?n" using False by simp
  have expand: "sum_list (map (\<lambda>x. (val x - m) * (val x - m)) ys) =
      sum_list (map (\<lambda>x. val x * val x) ys) - 2 * m * exact_sum ys + of_nat (length ys) * m * m"
    for m and ys :: "pyfloat list"
    by (induction ys) (auto simp: exact_sum_def algebra_simps)
  have "0 \<le> sum_list (map (\<lambda>x. (val x - ?m) * (val x - ?m)) xs)"
    by (rule sum_list_nonneg) auto
  also have "\<dots> = sum_list (map (\<lambda>x. val x * val x) xs) - exact_sum xs * exact_sum xs / ?n"
    unfolding expand using n by (simp add: field_simps)
  also have "\<dots> = sum_sq_dev xs" using n by (simp add: sum_sq_dev_def Let_def field_simps)
  finally show ?thesis .
qed (simp add: sum_sq_dev_def exact_sum_def)

lemma stat_stdev_nonneg: "stat_stdev xs = Inr s \<Longrightarrow> nonneg s"
  by (auto simp: stat_stdev_def sum_sq_dev_nonneg intro!: sqrt_rnd_nonneg split: if_splits)

lemma stat_pstdev_nonneg: "stat_pstdev xs = Inr s \<Longrightarrow> nonneg s"
  by (auto simp: stat_pstdev_def sum_sq_dev_nonneg intro!: sqrt_rnd_nonneg split: if_splits)

end
