(* ===== verification/Candles.thy ===== *)
theory Candles
  imports PyFloat
begin

text \<open>
  Candles and their timeframes (\<open>domain/market/candle.py\<close>), the stream events that carry
  them (\<open>domain/market/stream.py\<close>) and the dataset validation of
  \<open>application/services/validation.py\<close>.  \<open>make_candle\<close> is the constructor with its
  \<open>__post_init__\<close> checks; \<open>candle_ok\<close> is what those checks let through.
\<close>

section \<open>Timeframes\<close>

datatype timeframe = M15 | H1 | H4

fun tf_minutes :: "timeframe \<Rightarrow> int" where
  "tf_minutes M15 = 15"
| "tf_minutes H1 = 60"
| "tf_minutes H4 = 240"

fun tf_label :: "timeframe \<Rightarrow> string" where
  "tf_label M15 = ''15m''"
| "tf_label H1 = ''1h''"
| "tf_label H4 = ''4h''"

definition tf_members :: "timeframe list" where
  "tf_members = [M15, H1, H4]"

definition tf_from_label :: "string \<Rightarrow> timeframe result" where
  "tf_from_label l =
     (case find (\<lambda>m. tf_label m = l) tf_members of
        Some m \<Rightarrow> Inr m
      | None \<Rightarrow> Inl (ValueError ''timeframe desconocido''))"

lemma tf_label_inj: "tf_label a = tf_label b \<longleftrightarrow> a = b"
  by (cases a; cases b) auto

section \<open>Candles\<close>

record candle =
  timestamp_ms :: int
  c_open :: pyfloat
  c_high :: pyfloat
  c_low :: pyfloat
  c_close :: pyfloat
  c_volume :: pyfloat
  c_turnover :: pyfloat

definition candle_check :: "candle \<Rightarrow> unit result" where
  "candle_check c =
     (if flt (c_high c) (fmax (c_open c) (c_close c)) then Inl (ValueError ''high < max(open, close)'')
      else if flt (fmin (c_open c) (c_close c)) (c_low c) then Inl (ValueError ''low > min(open, close)'')
      else if flt (c_volume c) (Fin 0) then Inl (ValueError ''volume negativo'')
      else if flt (c_turnover c) (Fin 0) then Inl (ValueError ''turnover negativo'')
      else Inr ())"

definition make_candle ::
  "int \<Rightarrow> pyfloat \<Rightarrow> pyfloat \<Rightarrow> pyfloat \<Rightarrow> pyfloat \<Rightarrow> pyfloat \<Rightarrow> pyfloat \<Rightarrow> candle result" where
  "make_candle ts op hi lo cl vol tov =
     (let c = \<lparr>timestamp_ms = ts, c_open = op, c_high = hi, c_low = lo, c_close = cl,
              c_volume = vol, c_turnover = tov\<rparr>
      in bindE (candle_check c) (\<lambda>_. Inr c))"

definition candle_numbers :: "candle \<Rightarrow> bool" where
  \<comment> \<open>no field of the candle is NaN\<close>
  "candle_numbers c \<longleftrightarrow>
     NaN \<notin> {c_open c, c_high c, c_low c, c_close c, c_volume c, c_turnover c}"

lemma candle_check_bounds:
  assumes "candle_check c = Inr ()" "candle_numbers c"
  shows "fle (c_low c) (c_open c)" "fle (c_low c) (c_close c)"
    and "fle (c_open c) (c_high c)" "fle (c_close c) (c_high c)"
    and "nonneg (c_volume c)" "nonneg (c_turnover c)"
proof -
  have n: "c_open c \<noteq> NaN" "c_high c \<noteq> NaN" "c_low c \<noteq> NaN" "c_close c \<noteq> NaN"
    "c_volume c \<noteq> NaN" "c_turnover c \<noteq> NaN" using assms(2) by (auto simp: candle_numbers_def)
  have mx: "fmax (c_open c) (c_close c) \<noteq> NaN" "fmin (c_open c) (c_close c) \<noteq> NaN"
    using n by (auto simp: fmax_def fmin_def)
  have "fle (fmax (c_open c) (c_close c)) (c_high c)" "fle (c_low c) (fmin (c_open c) (c_close c))"
    "nonneg (c_volume c)" "nonneg (c_turnover c)"
    using assms(1) n mx by (auto simp: candle_check_def not_flt_iff split: if_splits)
  then show "fle (c_low c) (c_open c)" "fle (c_low c) (c_close c)"
    "fle (c_open c) (c_high c)" "fle (c_close c) (c_high c)"
    "nonneg (c_volume c)" "nonneg (c_turnover c)"
    by (blast intro: fle_trans[OF _ fmin_le1[OF n(1)]] fle_trans[OF _ fmin_le2[OF n(1) n(4)]]
        fle_trans[OF fmax_ge1[OF n(1)]] fle_trans[OF fmax_ge2[OF n(1) n(4)]])+
qed

section \<open>Stream events\<close>

record book_level =
  lv_price :: pyfloat
  lv_size :: pyfloat

record book_update =
  \<comment> \<open>the payload of \<open>OrderBookSnapshot\<close> and of \<open>OrderBookDelta\<close>\<close>
  bu_symbol :: string
  bu_bids :: "book_level list"
  bu_asks :: "book_level list"
  bu_update_id :: int
  bu_seq :: int

record kline_update =
  ku_symbol :: string
  ku_interval :: timeframe
  ku_start_ms :: int
  ku_open :: pyfloat
  ku_high :: pyfloat
  ku_low :: pyfloat
  ku_close :: pyfloat
  ku_volume :: pyfloat
  ku_turnover :: pyfloat
  ku_confirm :: bool

datatype stream_event =
    Snapshot book_update
  | Delta book_update
  | Kline kline_update

definition to_candle :: "kline_update \<Rightarrow> candle option result" where
  "to_candle k =
     (if \<not> ku_confirm k then Inr None
      else bindE (make_candle (ku_start_ms k) (ku_open k) (ku_high k) (ku_low k) (ku_close k)
                    (ku_volume k) (ku_turnover k))
             (\<lambda>c. Inr (Some c)))"

section \<open>Dataset validation\<close>

datatype validation_message =
    NotAligned nat int
  | Duplicated int
  | OutOfOrder int int
  | Gap int int int

definition step_ms :: "timeframe \<Rightarrow> int" where
  "step_ms tf = tf_minutes tf * 60000"

definition candle_errors :: "int \<Rightarrow> int list \<Rightarrow> nat \<Rightarrow> validation_message list" where
  \<comment> \<open>the errors the loop body appends at index \<open>i\<close>\<close>
  "candle_errors stp ts i =
     (if ts ! i mod stp \<noteq> 0 then [NotAligned i (ts ! i)] else []) @
     (if i = 0 then []
      else if ts ! i = ts ! (i - 1) then [Duplicated (ts ! i)]
      else if ts ! i < ts ! (i - 1) then [OutOfOrder (ts ! i) (ts ! (i - 1))]
      else [])"

definition candle_warnings :: "int \<Rightarrow> int list \<Rightarrow> nat \<Rightarrow> validation_message list" where
  "candle_warnings stp ts i =
     (if i = 0 then []
      else if ts ! i = ts ! (i - 1) then []
      else if ts ! i < ts ! (i - 1) then []
      else if stp < ts ! i - ts ! (i - 1) then [Gap (ts ! (i - 1)) (ts ! i) stp]
      else [])"

record validation_result =
  vr_errors :: "validation_message list"
  vr_warnings :: "validation_message list"

definition is_valid :: "validation_result \<Rightarrow> bool" where
  "is_valid r = (vr_errors r = [])"

definition validate_candles :: "candle list \<Rightarrow> timeframe \<Rightarrow> validation_result" where
  "validate_candles cs tf =
     (let ts = map timestamp_ms cs; stp = step_ms tf in
      \<lparr>vr_errors = concat (map (candle_errors stp ts) [0..<length ts]),
       vr_warnings = concat (map (candle_warnings stp ts) [0..<length ts])\<rparr>)"

lemma step_ms_pos: "0 < step_ms tf"
  by (cases tf) (simp_all add: step_ms_def)

lemma errors_empty_iff:
  "concat (map (candle_errors stp ts) [0..<length ts]) = [] \<longleftrightarrow>
     (\<forall>i < length ts. ts ! i mod stp = 0) \<and>
     (\<forall>i < length ts. 0 < i \<longrightarrow> ts ! (i - 1) < ts ! i)"
proof -
  have "candle_errors stp ts i = [] \<longleftrightarrow> ts ! i mod stp = 0 \<and> (0 < i \<longrightarrow> ts ! (i - 1) < ts ! i)" for i
    by (cases "i = 0"; cases "ts ! i" "ts ! (i - 1)" rule: linorder_cases)
       (simp_all add: candle_errors_def)
  then show ?thesis
    unfolding concat_eq_Nil_conv set_map ball_simps set_upt
    by (metis (no_types, lifting) atLeast0LessThan lessThan_iff)
qed

lemma steps_sorted_wrt:
  "(\<forall>i < length ts. 0 < i \<longrightarrow> ts ! (i - 1) < ts ! i) \<longleftrightarrow> sorted_wrt (<) (ts :: int list)"
proof -
  have "(\<forall>i < length ts. 0 < i \<longrightarrow> ts ! (i - 1) < ts ! i) \<longleftrightarrow>
        (\<forall>i. Suc i < length ts \<longrightarrow> ts ! i < ts ! Suc i)"
    by (metis Suc_pred diff_Suc_1 zero_less_Suc)
  then show ?thesis by (simp add: sorted_wrt_iff_nth_Suc_transp)
qed

text \<open>
  A dataset passes validation exactly when its timestamps are multiples of the
  timeframe and strictly increasing: no duplicate, no disorder, whatever the gaps.
\<close>

theorem validate_candles_iff:
  "is_valid (validate_candles cs tf) \<longleftrightarrow>
     list_all (\<lambda>c. timestamp_ms c mod (tf_minutes tf * 60000) = 0) cs \<and>
     sorted_wrt (\<lambda>a b. timestamp_ms a < timestamp_ms b) cs"
proof -
  have "is_valid (validate_candles cs tf) \<longleftrightarrow>
      (\<forall>i < length (map timestamp_ms cs). map timestamp_ms cs ! i mod step_ms tf = 0) \<and>
      sorted_wrt (<) (map timestamp_ms cs)"
    unfolding is_valid_def validate_candles_def Let_def steps_sorted_wrt[symmetric]
    by (simp only: validation_result.simps errors_empty_iff)
  then show ?thesis by (simp add: sorted_wrt_map list_all_length step_ms_def)
qed

text \<open>
  A valid dataset without warnings has no hole: consecutive candles are exactly one
  timeframe apart, so \<open>n\<close> candles span \<open>n - 1\<close> steps.
\<close>

theorem validate_candles_complete:
  assumes "is_valid (validate_candles cs tf)" "vr_warnings (validate_candles cs tf) = []"
    and "i < length cs"
  shows "timestamp_ms (cs ! i) = timestamp_ms (cs ! 0) + int i * (tf_minutes tf * 60000)"
  using assms(3)
proof (induction i)
  case 0
  show ?case by simp
next
  case (Suc i)
  let ?t = "\<lambda>j. timestamp_ms (cs ! j)" and ?s = "step_ms tf"
  let ?ts = "map timestamp_ms cs"
  have er: "\<forall>j < length ?ts. ?ts ! j mod ?s = 0" "\<forall>j < length ?ts. 0 < j \<longrightarrow> ?ts ! (j - 1) < ?ts ! j"
    using assms(1) errors_empty_iff[of ?s ?ts] by (simp_all add: is_valid_def validate_candles_def Let_def)
  have wa: "candle_warnings ?s ?ts (Suc i) = []"
    using assms(2) Suc.prems by (simp add: validate_candles_def Let_def)
  have lt: "?t i < ?t (Suc i)" using er(2) Suc.prems by (metis Suc_lessD diff_Suc_1 length_map nth_map zero_less_Suc)
  have le: "?t (Suc i) - ?t i \<le> ?s"
    using wa lt Suc.prems by (auto simp: candle_warnings_def split: if_splits)
  have "?t (Suc i) mod ?s = 0" "?t i mod ?s = 0" using er(1) Suc.prems by auto
  then have "?s dvd ?t (Suc i) - ?t i" by (metis dvd_diff mod_0_imp_dvd)
  then have "?s \<le> ?t (Suc i) - ?t i" using lt by (intro zdvd_imp_le) auto
  with le have "?t (Suc i) = ?t i + ?s" by simp
  moreover have "?t i = ?t 0 + int i * (tf_minutes tf * 60000)" using Suc by simp
  ultimately show ?case by (simp add: step_ms_def algebra_simps)
qed

definition example_candle :: "int \<Rightarrow> rat \<Rightarrow> candle" where
  "example_candle ts p =
     \<lparr>timestamp_ms = ts, c_open = Fin p, c_high = Fin (p + 1), c_low = Fin (p - 1),
      c_close = Fin p, c_volume = Fin 1, c_turnover = Fin p\<rparr>"

theorem validate_candles_complete_witness:
  "timestamp_ms ([example_candle 900000 5, example_candle 1800000 6] ! 1) =
   timestamp_ms ([example_candle 900000 5, example_candle 1800000 6] ! 0) + int 1 * (tf_minutes M15 * 60000)"
  by (rule validate_candles_complete)
     (simp_all add: is_valid_def validate_candles_def candle_errors_def candle_warnings_def
       step_ms_def example_candle_def upt_rec)

text \<open>
  A kline becomes a candle only when the exchange has confirmed it, and the candle it
  becomes carries the kline's own values, with low and high enclosing open and close.
\<close>

theorem to_candle_confirmed:
  assumes "to_candle k = Inr (Some c)" "candle_numbers c"
  shows "ku_confirm k \<and> timestamp_ms c = ku_start_ms k \<and> c_close c = ku_close k \<and>
    fle (c_low c) (c_close c) \<and> fle (c_close c) (c_high c) \<and> fle (c_low c) (c_open c) \<and>
    fle (c_open c) (c_high c) \<and> nonneg (c_volume c)"
proof -
  have c: "ku_confirm k" "candle_check c = Inr ()" "timestamp_ms c = ku_start_ms k" "c_close c = ku_close k"
    using assms(1) by (auto simp: to_candle_def make_candle_def Let_def bindE_eq_Inr split: if_splits)
  then show ?thesis using candle_check_bounds[OF c(2) assms(2)] by simp
qed

definition example_kline :: "bool \<Rightarrow> kline_update" where
  "example_kline conf =
     \<lparr>ku_symbol = ''ETHUSDT'', ku_interval = M15, ku_start_ms = 900000, ku_open = Fin 5,
      ku_high = Fin 6, ku_low = Fin 4, ku_close = Fin 5, ku_volume = Fin 1,
      ku_turnover = Fin 5, ku_confirm = conf\<rparr>"

theorem to_candle_confirmed_witness:
  "ku_confirm (example_kline True) \<and>
   timestamp_ms (example_candle 900000 5) = ku_start_ms (example_kline True) \<and>
   c_close (example_candle 900000 5) = ku_close (example_kline True) \<and>
   fle (c_low (example_candle 900000 5)) (c_close (example_candle 900000 5)) \<and>
   fle (c_close (example_candle 900000 5)) (c_high (example_candle 900000 5)) \<and>
   fle (c_low (example_candle 900000 5)) (c_open (example_candle 900000 5)) \<and>
   fle (c_open (example_candle 900000 5)) (c_high (example_candle 900000 5)) \<and>
   nonneg (c_volume (example_candle 900000 5))"
  by (rule to_candle_confirmed)
     (simp_all add: to_candle_def make_candle_def candle_check_def example_kline_def
       example_candle_def candle_numbers_def fmax_def fmin_def)

end
