(* ===== verification/Indicators.thy ===== *)
theory Indicators
  imports PyMath Candles
begin

text \<open>
  The technical indicators of \<open>domain/market/indicators.py\<close>.  A series is a list with one
  entry per bar, \<open>None\<close> during warmup.  A non-positive period raises.  Where the source
  fills a pre-allocated list by index, the model maps the index expression over the index
  range; where it carries a running value, the model is the recursion over the rest of the
  input.  \<open>pow_fn\<close> is the C library's \<open>pow\<close> behind \<open>**\<close>.

  Every indicator is an instance of \<open>causal_series\<close>: no value depends on a later bar.
  The incremental \<open>AtrTracker\<close> is an instance of \<open>streaming_series\<close>: it reproduces the
  batch series bit for bit.
\<close>

section \<open>Moving averages\<close>

definition require_positive_period :: "int \<Rightarrow> unit result" where
  "require_positive_period p = raise_if (p \<le> 0) (ValueError ''period debe ser > 0'')"

definition sma :: "pyfloat list \<Rightarrow> int \<Rightarrow> pyfloat option list result" where
  "sma values period =
     bindE (require_positive_period period) (\<lambda>_.
       let p = nat period in
       Inr (map (\<lambda>i. if i < p - 1 then None
                     else Some (fdiv (pysum (slice (i + 1 - p) (i + 1) values)) (fint period)))
                [0..<length values]))"

definition ema_alpha :: "int \<Rightarrow> pyfloat" where
  "ema_alpha period = fdiv (Fin 2) (fint (period + 1))"

definition ema_step :: "pyfloat \<Rightarrow> pyfloat \<Rightarrow> pyfloat \<Rightarrow> pyfloat" where
  "ema_step alpha prev v = fadd (fmul alpha v) (fmul (fsub (Fin 1) alpha) prev)"

fun ema_loop :: "pyfloat \<Rightarrow> pyfloat \<Rightarrow> pyfloat list \<Rightarrow> pyfloat list" where
  "ema_loop alpha prev [] = []"
| "ema_loop alpha prev (v # vs) =
     (let e = ema_step alpha prev v in e # ema_loop alpha e vs)"

definition ema_values :: "int \<Rightarrow> pyfloat list \<Rightarrow> pyfloat list" where
  \<comment> \<open>the EMA from index \<open>period - 1\<close> on: the SMA seed and the recurrence\<close>
  "ema_values period xs =
     (let p = nat period in
      if length xs < p then []
      else let seed = fdiv (pysum (take p xs)) (fint period)
           in seed # ema_loop (ema_alpha period) seed (drop p xs))"

definition ema :: "pyfloat list \<Rightarrow> int \<Rightarrow> pyfloat option list result" where
  "ema values period =
     bindE (require_positive_period period) (\<lambda>_.
       Inr (if length values < nat period then replicate (length values) None
            else replicate (nat period - 1) None @ map Some (ema_values period values)))"

section \<open>RSI\<close>

definition rsi_value :: "pyfloat \<Rightarrow> pyfloat \<Rightarrow> pyfloat result" where
  "rsi_value avg_gain avg_loss =
     (if feq avg_loss (Fin 0) then Inr (if flt (Fin 0) avg_gain then Fin 100 else Fin 50)
      else bindE (pdiv avg_gain avg_loss) (\<lambda>rs.
           bindE (pdiv (Fin 100) (fadd (Fin 1) rs)) (\<lambda>d.
           Inr (fsub (Fin 100) d))))"

definition wilder :: "int \<Rightarrow> pyfloat \<Rightarrow> pyfloat \<Rightarrow> pyfloat" where
  "wilder period avg x = fdiv (fadd (fmul avg (fint (period - 1))) x) (fint period)"

definition gain_at :: "pyfloat list \<Rightarrow> nat \<Rightarrow> pyfloat" where
  "gain_at values i =
     (if i = 0 then Fin 0
      else let change = fsub (values ! i) (values ! (i - 1))
           in if flt (Fin 0) change then change else Fin 0)"

definition loss_at :: "pyfloat list \<Rightarrow> nat \<Rightarrow> pyfloat" where
  "loss_at values i =
     (if i = 0 then Fin 0
      else let change = fsub (values ! i) (values ! (i - 1))
           in if flt (Fin 0) change then Fin 0 else fneg change)"

definition gains_of :: "pyfloat list \<Rightarrow> pyfloat list" where
  "gains_of values = map (gain_at values) [0..<length values]"

definition losses_of :: "pyfloat list \<Rightarrow> pyfloat list" where
  "losses_of values = map (loss_at values) [0..<length values]"

fun rsi_loop :: "int \<Rightarrow> pyfloat \<Rightarrow> pyfloat \<Rightarrow> (pyfloat \<times> pyfloat) list \<Rightarrow> pyfloat list result" where
  "rsi_loop period ag al [] = Inr []"
| "rsi_loop period ag al ((g, l) # rest) =
     (let ag' = wilder period ag g; al' = wilder period al l in
      bindE (rsi_value ag' al') (\<lambda>r.
      bindE (rsi_loop period ag' al' rest) (\<lambda>rs. Inr (r # rs))))"

definition rsi :: "pyfloat list \<Rightarrow> int \<Rightarrow> pyfloat option list result" where
  "rsi values period =
     bindE (require_positive_period period) (\<lambda>_.
       let p = nat period; n = length values in
       if n < p + 1 then Inr (replicate n None)
       else let gains = gains_of values;
                losses = losses_of values;
                ag = fdiv (pysum (slice 1 (p + 1) gains)) (fint period);
                al = fdiv (pysum (slice 1 (p + 1) losses)) (fint period)
            in bindE (rsi_value ag al) (\<lambda>r.
               bindE (rsi_loop period ag al (zip (drop (p + 1) gains) (drop (p + 1) losses))) (\<lambda>rs.
               Inr (replicate p None @ Some r # map Some rs))))"

section \<open>MACD\<close>

record macd_result =
  macd_line :: "pyfloat option list"
  macd_signal :: "pyfloat option list"
  macd_histogram :: "pyfloat option list"

definition opt_sub :: "pyfloat option \<Rightarrow> pyfloat option \<Rightarrow> pyfloat option" where
  "opt_sub a b = (case (a, b) of (Some x, Some y) \<Rightarrow> Some (fsub x y) | _ \<Rightarrow> None)"

definition defined_values :: "'a option list \<Rightarrow> 'a list" where
  "defined_values xs = map the (filter (\<lambda>v. v \<noteq> None) xs)"

definition defined_positions :: "'a option list \<Rightarrow> nat list" where
  "defined_positions xs = filter (\<lambda>i. xs ! i \<noteq> None) [0..<length xs]"

definition put_at :: "'a option list \<Rightarrow> nat \<times> 'a \<Rightarrow> 'a option list" where
  "put_at out iv = out[fst iv := Some (snd iv)]"

definition ema_defined :: "pyfloat option list \<Rightarrow> int \<Rightarrow> pyfloat option list" where
  "ema_defined values period =
     (let defined = defined_values values; p = nat period in
      if length defined < p then replicate (length values) None
      else foldl put_at (replicate (length values) None)
             (zip (drop (p - 1) (defined_positions values)) (ema_values period defined)))"

definition macd :: "pyfloat list \<Rightarrow> int \<Rightarrow> int \<Rightarrow> int \<Rightarrow> macd_result result" where
  "macd values fast slow sgnl =
     bindE (require_positive_period fast) (\<lambda>_.
     bindE (require_positive_period slow) (\<lambda>_.
     bindE (require_positive_period sgnl) (\<lambda>_.
     bindE (ema values fast) (\<lambda>ef.
     bindE (ema values slow) (\<lambda>es.
       let line = map2 opt_sub ef es;
           sig = ema_defined line sgnl
       in Inr \<lparr>macd_line = line, macd_signal = sig, macd_histogram = map2 opt_sub line sig\<rparr>)))))"

section \<open>ATR\<close>

definition true_range :: "pyfloat \<Rightarrow> candle \<Rightarrow> pyfloat" where
  "true_range prev_close c =
     fmax (fmax (fsub (c_high c) (c_low c)) (fabs (fsub (c_high c) prev_close)))
          (fabs (fsub (c_low c) prev_close))"

definition tr_at :: "candle list \<Rightarrow> nat \<Rightarrow> pyfloat" where
  "tr_at cs i = (if i = 0 then fsub (c_high (cs ! 0)) (c_low (cs ! 0))
                 else true_range (c_close (cs ! (i - 1))) (cs ! i))"

fun wilder_loop :: "int \<Rightarrow> pyfloat \<Rightarrow> pyfloat list \<Rightarrow> pyfloat list" where
  "wilder_loop period avg [] = []"
| "wilder_loop period avg (x # xs) =
     (let a = wilder period avg x in a # wilder_loop period a xs)"

definition true_ranges :: "candle list \<Rightarrow> pyfloat list" where
  "true_ranges cs = map (tr_at cs) [0..<length cs]"

definition atr :: "candle list \<Rightarrow> int \<Rightarrow> pyfloat option list result" where
  "atr cs period =
     bindE (require_positive_period period) (\<lambda>_.
       let p = nat period; n = length cs in
       if n < p + 1 then Inr (replicate n None)
       else let trs = true_ranges cs;
                avg = fdiv (pysum (slice 1 (p + 1) trs)) (fint period)
            in Inr (replicate p None @ Some avg # map Some (wilder_loop period avg (drop (p + 1) trs))))"

record atr_tracker =
  at_period :: int
  at_prev_close :: "pyfloat option"
  at_seed_trs :: "pyfloat list"
  at_value :: "pyfloat option"

definition atr_tracker_init :: "int \<Rightarrow> atr_tracker result" where
  "atr_tracker_init period =
     bindE (require_positive_period period) (\<lambda>_.
       Inr \<lparr>at_period = period, at_prev_close = None, at_seed_trs = [], at_value = None\<rparr>)"

definition atr_update :: "atr_tracker \<Rightarrow> candle \<Rightarrow> atr_tracker \<times> pyfloat option" where
  "atr_update t c =
     (case at_prev_close t of
        None \<Rightarrow> (t\<lparr>at_prev_close := Some (c_close c)\<rparr>, None)
      | Some pc \<Rightarrow>
          let tr = true_range pc c; t1 = t\<lparr>at_prev_close := Some (c_close c)\<rparr> in
          (case at_value t of
             Some v \<Rightarrow> let v' = wilder (at_period t) v tr in (t1\<lparr>at_value := Some v'\<rparr>, Some v')
           | None \<Rightarrow>
               let seeds = at_seed_trs t @ [tr] in
               if int (length seeds) < at_period t then (t1\<lparr>at_seed_trs := seeds\<rparr>, None)
               else let v = fdiv (pysum seeds) (fint (at_period t))
                    in (t1\<lparr>at_value := Some v, at_seed_trs := []\<rparr>, Some v)))"

section \<open>Volume, returns and volatility\<close>

fun vwap_loop :: "pyfloat \<Rightarrow> pyfloat \<Rightarrow> candle list \<Rightarrow> pyfloat option list" where
  "vwap_loop cum_pv cum_volume [] = []"
| "vwap_loop cum_pv cum_volume (c # cs) =
     (let typical = fdiv (fadd (fadd (c_high c) (c_low c)) (c_close c)) (Fin 3);
          pv = fadd cum_pv (fmul typical (c_volume c));
          vol = fadd cum_volume (c_volume c)
      in (if flt (Fin 0) vol then Some (fdiv pv vol) else None) # vwap_loop pv vol cs)"

definition vwap :: "candle list \<Rightarrow> pyfloat option list" where
  "vwap cs = vwap_loop (Fin 0) (Fin 0) cs"

definition return_at :: "pyfloat list \<Rightarrow> nat \<Rightarrow> pyfloat option" where
  "return_at values i =
     (if i = 0 then None
      else let prev = values ! (i - 1) in
           if feq prev (Fin 0) then None else Some (fdiv (fsub (values ! i) prev) prev))"

definition returns :: "pyfloat list \<Rightarrow> pyfloat option list" where
  "returns values = map (return_at values) [0..<length values]"

definition window_volatility ::
  "(pyfloat \<Rightarrow> pyfloat \<Rightarrow> pyfloat result) \<Rightarrow> pyfloat list \<Rightarrow> pyfloat option result" where
  "window_volatility pow_fn rets =
     (if length rets < 2 then Inr None
      else let mean = fdiv (pysum rets) (fint (int (length rets))) in
           bindE (mapE (\<lambda>r. pow_fn (fsub r mean) (Fin 2)) rets) (\<lambda>sqs.
           bindE (pow_fn (fdiv (pysum sqs) (fint (int (length rets) - 1))) (Fin (1/2))) (\<lambda>v.
           Inr (Some v))))"

definition realized_volatility ::
  "(pyfloat \<Rightarrow> pyfloat \<Rightarrow> pyfloat result) \<Rightarrow> pyfloat list \<Rightarrow> int \<Rightarrow> pyfloat option list result" where
  "realized_volatility pow_fn values window =
     bindE (require_positive_period window) (\<lambda>_.
       let rets = returns values in
       mapE (\<lambda>i. let start = max 1 (i + 1 - nat window) in
                 window_volatility pow_fn (defined_values (slice start (i + 1) rets)))
         [0..<length values])"

definition momentum :: "pyfloat list \<Rightarrow> int \<Rightarrow> pyfloat option list result" where
  "momentum values window =
     bindE (require_positive_period window) (\<lambda>_.
       let w = nat window in
       Inr (map (\<lambda>i. if i < w then None
                     else let base = values ! (i - w) in
                          if feq base (Fin 0) then None
                          else Some (fdiv (fsub (values ! i) base) base))
                [0..<length values]))"

definition relative_volume :: "candle list \<Rightarrow> int \<Rightarrow> pyfloat option list result" where
  "relative_volume cs window =
     bindE (require_positive_period window) (\<lambda>_.
       Inr (map (\<lambda>i. let start = i + 1 - nat window;
                         vols = map c_volume (slice start (i + 1) cs);
                         mean = fdiv (pysum vols) (fint (int (length vols)))
                     in if flt (Fin 0) mean then Some (fdiv (c_volume (cs ! i)) mean) else None)
                [0..<length cs]))"

section \<open>ADX\<close>

definition dm_at :: "candle list \<Rightarrow> nat \<Rightarrow> pyfloat \<times> pyfloat \<times> pyfloat" where
  \<comment> \<open>true range, +DM and -DM at index \<open>i\<close>\<close>
  "dm_at cs i =
     (if i = 0 then (Fin 0, Fin 0, Fin 0)
      else let prev = cs ! (i - 1); cur = cs ! i;
               up = fsub (c_high cur) (c_high prev);
               down = fsub (c_low prev) (c_low cur)
           in (true_range (c_close prev) cur,
               (if flt down up \<and> flt (Fin 0) up then up else Fin 0),
               (if flt down up \<and> flt (Fin 0) up then Fin 0
                else if flt up down \<and> flt (Fin 0) down then down else Fin 0)))"

definition dms_of :: "candle list \<Rightarrow> (pyfloat \<times> pyfloat \<times> pyfloat) list" where
  "dms_of cs = map (dm_at cs) [0..<length cs]"

definition adx_dx :: "pyfloat \<Rightarrow> pyfloat \<Rightarrow> pyfloat \<Rightarrow> pyfloat" where
  "adx_dx smooth_tr smooth_plus smooth_minus =
     (let plus_di = (if feq smooth_tr (Fin 0) then Fin 0 else fdiv (fmul (Fin 100) smooth_plus) smooth_tr);
          minus_di = (if feq smooth_tr (Fin 0) then Fin 0 else fdiv (fmul (Fin 100) smooth_minus) smooth_tr);
          denom = fadd plus_di minus_di
      in if feq denom (Fin 0) then Fin 0
         else fdiv (fmul (Fin 100) (fabs (fsub plus_di minus_di))) denom)"

record adx_state =
  dx_sum :: pyfloat
  dx_count :: int
  adx_value :: pyfloat

definition adx_emit :: "int \<Rightarrow> adx_state \<Rightarrow> pyfloat \<Rightarrow> adx_state \<times> pyfloat option" where
  "adx_emit period s dx =
     (if dx_count s < period then
        let sm = fadd (dx_sum s) dx; n = dx_count s + 1 in
        if n = period then
          let v = fdiv sm (fint period) in (\<lparr>dx_sum = sm, dx_count = n, adx_value = v\<rparr>, Some v)
        else (s\<lparr>dx_sum := sm, dx_count := n\<rparr>, None)
      else let v = wilder period (adx_value s) dx in (s\<lparr>adx_value := v\<rparr>, Some v))"

fun adx_loop ::
  "int \<Rightarrow> pyfloat \<times> pyfloat \<times> pyfloat \<Rightarrow> adx_state \<Rightarrow> (pyfloat \<times> pyfloat \<times> pyfloat) list \<Rightarrow>
   pyfloat option list" where
  "adx_loop period sm s [] = []"
| "adx_loop period (st, sp, sn) s ((tr, pl, mi) # rest) =
     (let st' = wilder period st tr; sp' = wilder period sp pl; sn' = wilder period sn mi
      in case adx_emit period s (adx_dx st' sp' sn') of
           (s', v) \<Rightarrow> v # adx_loop period (st', sp', sn') s' rest)"

definition adx :: "candle list \<Rightarrow> int \<Rightarrow> pyfloat option list result" where
  "adx cs period =
     bindE (require_positive_period period) (\<lambda>_.
       let p = nat period; n = length cs in
       if n < 2 * p then Inr (replicate n None)
       else let dms = dms_of cs;
                seed = slice 1 (p + 1) dms;
                mean = (\<lambda>xs. fdiv (pysum xs) (fint period));
                st = mean (map fst seed);
                sp = mean (map (fst \<circ> snd) seed);
                sn = mean (map (snd \<circ> snd) seed)
            in case adx_emit period \<lparr>dx_sum = Fin 0, dx_count = 0, adx_value = Fin 0\<rparr> (adx_dx st sp sn) of
                 (s, v) \<Rightarrow>
                   Inr (replicate p None @ v # adx_loop period (st, sp, sn) s (drop (p + 1) dms)))"

section \<open>Bollinger bands\<close>

record bollinger_bands =
  bb_middle :: pyfloat
  bb_upper :: pyfloat
  bb_lower :: pyfloat

definition bollinger :: "pyfloat list \<Rightarrow> int \<Rightarrow> pyfloat \<Rightarrow> bollinger_bands option list result" where
  "bollinger values period multiplier =
     bindE (require_positive_period period) (\<lambda>_.
     bindE (raise_if (\<not> is_Fin multiplier \<or> fle multiplier (Fin 0))
              (ValueError ''multiplier must be finite and > 0'')) (\<lambda>_.
       let p = nat period in
       mapE (\<lambda>i. if i < p - 1 then Inr None
                 else let window = slice (i + 1 - p) (i + 1) values;
                          middle = fdiv (pysum window) (fint period)
                      in bindE (stat_pstdev window) (\<lambda>std.
                         Inr (Some \<lparr>bb_middle = middle,
                                    bb_upper = fadd middle (fmul multiplier std),
                                    bb_lower = fsub middle (fmul multiplier std)\<rparr>)))
         [0..<length values]))"

section \<open>No indicator looks ahead\<close>

lemma gain_at_append: "i < length xs \<Longrightarrow> gain_at (xs @ ys) i = gain_at xs i"
  and loss_at_append: "i < length xs \<Longrightarrow> loss_at (xs @ ys) i = loss_at xs i"
  and return_at_append: "i < length xs \<Longrightarrow> return_at (xs @ ys) i = return_at xs i"
  by (auto simp: gain_at_def loss_at_def return_at_def nth_append Let_def)

lemma nth_le_append: "i < length cs \<Longrightarrow> j \<le> i \<Longrightarrow> (cs @ ds) ! j = cs ! j"
  by (simp add: nth_append)

lemma tr_at_append: "i < length cs \<Longrightarrow> tr_at (cs @ ds) i = tr_at cs i"
  and dm_at_append: "i < length cs \<Longrightarrow> dm_at (cs @ ds) i = dm_at cs i"
  by (simp_all only: tr_at_def dm_at_def nth_le_append diff_le_self le0 le_refl)

lemma map_upt_snoc:
  "(\<And>i. i < n \<Longrightarrow> F i = G i) \<Longrightarrow> map F [0..<Suc n] = map G [0..<n] @ [F n]"
  by simp

interpretation sma: causal_series "\<lambda>xs. sma xs period" for period
  unfolding sma_def Let_def
  by (intro causal_bindI causal_mapI) (simp add: slice_append)

interpretation momentum: causal_series "\<lambda>xs. momentum xs window" for window
  unfolding momentum_def Let_def
  by (intro causal_bindI causal_mapI) (auto simp: nth_append less_imp_diff_less)

interpretation relative_volume: causal_series "\<lambda>cs. relative_volume cs window" for window
  unfolding relative_volume_def Let_def
  by (intro causal_bindI causal_mapI) (simp add: nth_append slice_append)

lemma slice_returns_append:
  "i < length xs \<Longrightarrow> slice j (Suc i) (returns (xs @ ys)) = slice j (Suc i) (returns xs)"
proof -
  assume i: "i < length xs"
  have "take (Suc i) (returns (xs @ ys)) = take (Suc i) (returns xs)"
    unfolding returns_def take_map using i by (simp add: return_at_append take_upt)
  then show ?thesis by (simp add: slice_def)
qed

interpretation realized_volatility: causal_series "\<lambda>xs. realized_volatility pow_fn xs window"
  for pow_fn window
  unfolding realized_volatility_def Let_def
  by (intro causal_bindI causal_mapEI) (simp add: slice_returns_append)

interpretation bollinger: causal_series "\<lambda>xs. bollinger xs period multiplier"
  for period multiplier
  unfolding bollinger_def Let_def
  by (intro causal_bindI causal_mapEI) (simp add: slice_append)

lemma vwap_loop_snoc: "\<exists>y. vwap_loop pv vol (cs @ [c]) = vwap_loop pv vol cs @ [y]"
  by (induction cs arbitrary: pv vol) (auto simp: Let_def)

lemma vwap_length: "length (vwap cs) = length cs"
proof -
  have "length (vwap_loop pv vol cs) = length cs" for pv vol
    by (induction cs arbitrary: pv vol) (auto simp: Let_def)
  then show ?thesis by (simp add: vwap_def)
qed

interpretation vwap: causal_series "\<lambda>cs. Inr (vwap cs)"
proof (rule causal_pureI)
  fix cs c
  show "butlast (vwap (cs @ [c])) = vwap cs"
    using vwap_loop_snoc[of "Fin 0" "Fin 0" cs c] by (auto simp: vwap_def)
qed (rule vwap_length)

subsection \<open>EMA and MACD\<close>

lemma ema_loop_snoc:
  "ema_loop a s (xs @ [x]) = ema_loop a s xs @ [ema_step a (last (s # ema_loop a s xs)) x]"
  by (induction xs arbitrary: s) (auto simp: Let_def)

lemma ema_loop_length [simp]: "length (ema_loop a s xs) = length xs"
  by (induction xs arbitrary: s) (auto simp: Let_def)

lemma ema_values_length: "length (ema_values period xs) = length xs + 1 - nat period \<or> period \<le> 0"
  by (auto simp: ema_values_def Let_def)

lemma ema_values_snoc:
  assumes "nat period \<le> length xs"
  shows "ema_values period (xs @ [x]) =
    ema_values period xs @ [ema_step (ema_alpha period) (last (ema_values period xs)) x]"
  using assms by (simp add: ema_values_def Let_def ema_loop_snoc)

lemma ema_length: "ema xs period = Inr ys \<Longrightarrow> length ys = length xs"
  by (auto simp: ema_def ema_values_def Let_def bindE_eq_Inr require_positive_period_def split: if_splits)

lemma ema_snoc: "ema (xs @ [x]) period = Inr ys \<Longrightarrow> ema xs period = Inr (butlast ys)"
proof -
  assume a: "ema (xs @ [x]) period = Inr ys"
  then have p: "0 < period" by (auto simp: ema_def bindE_eq_Inr require_positive_period_def)
  consider "Suc (length xs) < nat period" | "Suc (length xs) = nat period" | "nat period \<le> length xs"
    by linarith
  then show ?thesis
  proof cases
    case 1
    with a p show ?thesis
      by (auto simp: ema_def bindE_eq_Inr require_positive_period_def butlast_replicate
          simp del: replicate_Suc)
  next
    case 2
    with a p show ?thesis
      by (auto simp: ema_def bindE_eq_Inr require_positive_period_def ema_values_def butlast_append Let_def)
  next
    case 3
    with a p show ?thesis
      by (auto simp: ema_def bindE_eq_Inr require_positive_period_def ema_values_snoc butlast_append)
  qed
qed

interpretation ema: causal_series "\<lambda>xs. ema xs period" for period
  by unfold_locales (auto dest: ema_length ema_snoc)

lemma defined_values_snoc:
  "defined_values (xs @ [v]) = defined_values xs @ (case v of None \<Rightarrow> [] | Some x \<Rightarrow> [x])"
  by (simp add: defined_values_def split: option.split)

lemma defined_positions_snoc:
  "defined_positions (xs @ [v]) = defined_positions xs @ (if v = None then [] else [length xs])"
proof -
  have "filter (\<lambda>i. (xs @ [v]) ! i \<noteq> None) [0..<length xs] = filter (\<lambda>i. xs ! i \<noteq> None) [0..<length xs]"
    by (rule filter_cong) (auto simp: nth_append)
  then show ?thesis by (auto simp: defined_positions_def)
qed

lemma length_defined_positions: "length (defined_positions xs) = length (defined_values xs)"
proof (induction xs rule: rev_induct)
  case Nil
  show ?case by (simp add: defined_values_def defined_positions_def)
next
  case (snoc x xs)
  then show ?case by (simp add: defined_values_snoc defined_positions_snoc split: option.split)
qed

lemma put_at_append:
  "\<forall>(i, x) \<in> set ps. i < length out \<Longrightarrow>
   foldl put_at (out @ [z]) ps = foldl put_at out ps @ [z] \<and> length (foldl put_at out ps) = length out"
  by (induction ps arbitrary: out) (auto simp: put_at_def list_update_append)

lemma ema_defined_length: "length (ema_defined xs period) = length xs"
proof -
  have "length (foldl put_at out ps) = length out" for out :: "pyfloat option list" and ps
    by (induction ps arbitrary: out) (auto simp: put_at_def)
  then show ?thesis by (simp add: ema_defined_def Let_def)
qed

lemma ema_defined_snoc:
  assumes p: "0 < period"
  shows "butlast (ema_defined (xs @ [v]) period) = ema_defined xs period"
proof -
  let ?p = "nat period" and ?n = "length xs" and ?d = "defined_values xs"
  let ?ps = "zip (drop (?p - 1) (defined_positions xs)) (ema_values period ?d)"
  have bound: "\<forall>(i, x) \<in> set ?ps. i < length (replicate ?n (None :: pyfloat option))"
    by (auto simp: defined_positions_def dest!: set_zip_leftD in_set_dropD)
  note grow = put_at_append[OF bound, THEN conjunct1]
  have rep: "replicate (Suc ?n) (None :: pyfloat option) = replicate ?n None @ [None]"
    by (simp add: replicate_append_same)
  have pl: "length (drop (?p - 1) (defined_positions xs)) = length (ema_values period ?d)"
    using p ema_values_length[of period ?d] by (simp add: length_defined_positions)
  show ?thesis
  proof (cases v)
    case None
    then show ?thesis
      by (auto simp: ema_defined_def Let_def defined_values_snoc defined_positions_snoc
          butlast_replicate rep grow simp del: replicate_Suc One_nat_def)
  next
    case (Some x)
    consider "Suc (length ?d) < ?p" | "Suc (length ?d) = ?p" | "?p \<le> length ?d" by linarith
    then show ?thesis
    proof cases
      case 1
      with Some show ?thesis
        by (simp add: ema_defined_def Let_def defined_values_snoc butlast_replicate del: replicate_Suc)
    next
      case 2
      let ?e = "fdiv (pysum (?d @ [x])) (fint period)"
      have "drop (?p - 1) (defined_positions xs @ [?n]) = [?n]"
        using 2 by (simp add: length_defined_positions)
      moreover have "ema_values period (?d @ [x]) = [?e]"
        using 2 by (simp add: ema_values_def Let_def)
      ultimately have "ema_defined (xs @ [v]) period = (replicate ?n None @ [None])[?n := Some ?e]"
        using Some 2 by (simp add: ema_defined_def Let_def defined_values_snoc defined_positions_snoc
            put_at_def rep del: replicate_Suc One_nat_def)
      then show ?thesis using 2 by (simp add: ema_defined_def Let_def list_update_append)
    next
      case 3
      define e where "e = ema_step (ema_alpha period) (last (ema_values period ?d)) x"
      have "zip (drop (?p - 1) (defined_positions xs @ [?n])) (ema_values period (?d @ [x])) =
          ?ps @ [(?n, e)]"
        using 3 pl by (simp add: ema_values_snoc e_def length_defined_positions)
      then have "ema_defined (xs @ [v]) period = put_at (foldl put_at (replicate ?n None) ?ps @ [None]) (?n, e)"
        using Some 3 by (simp add: ema_defined_def Let_def defined_values_snoc defined_positions_snoc
            rep grow del: replicate_Suc One_nat_def)
      moreover have "length (foldl put_at (replicate ?n None) ?ps) = ?n"
        using put_at_append[OF bound] by simp
      ultimately show ?thesis using 3
        by (simp add: ema_defined_def Let_def put_at_def list_update_append)
    qed
  qed
qed

lemma map2_butlast:
  "length xs = length ys \<Longrightarrow> butlast (map2 f xs ys) = map2 f (butlast xs) (butlast ys)"
  by (induction xs ys rule: list_induct2) auto

definition macd_rows ::
  "pyfloat list \<Rightarrow> int \<Rightarrow> int \<Rightarrow> int \<Rightarrow>
   (pyfloat option \<times> pyfloat option \<times> pyfloat option) list result" where
  \<comment> \<open>the three series of \<open>macd\<close> as one row per bar\<close>
  "macd_rows values fast slow sgnl =
     bindE (macd values fast slow sgnl) (\<lambda>m.
       Inr (zip (macd_line m) (zip (macd_signal m) (macd_histogram m))))"

lemma macd_Inr:
  "macd values fast slow sgnl = Inr m \<longleftrightarrow>
     0 < fast \<and> 0 < slow \<and> 0 < sgnl \<and>
     (\<exists>ef es. ema values fast = Inr ef \<and> ema values slow = Inr es \<and>
        m = \<lparr>macd_line = map2 opt_sub ef es, macd_signal = ema_defined (map2 opt_sub ef es) sgnl,
             macd_histogram = map2 opt_sub (map2 opt_sub ef es) (ema_defined (map2 opt_sub ef es) sgnl)\<rparr>)"
  by (auto simp: macd_def Let_def bindE_eq_Inr require_positive_period_def)

lemma zip_butlast: "length xs = length ys \<Longrightarrow> butlast (zip xs ys) = zip (butlast xs) (butlast ys)"
  by (induction xs ys rule: list_induct2) auto

interpretation macd: causal_series "\<lambda>xs. macd_rows xs fast slow sgnl" for fast slow sgnl
proof unfold_locales
  fix xs ys
  assume "macd_rows xs fast slow sgnl = Inr ys"
  then show "length ys = length xs"
    by (auto simp: macd_rows_def bindE_eq_Inr macd_Inr ema_defined_length dest!: ema_length)
next
  fix xs x ys
  assume "macd_rows (xs @ [x]) fast slow sgnl = Inr ys"
  then obtain ef es where e: "0 < fast" "0 < slow" "0 < sgnl"
    "ema (xs @ [x]) fast = Inr ef" "ema (xs @ [x]) slow = Inr es"
    and ys: "ys = (let l = map2 opt_sub ef es; s = ema_defined l sgnl in zip l (zip s (map2 opt_sub l s)))"
    by (auto simp: macd_rows_def bindE_eq_Inr macd_Inr Let_def)
  define l where "l = map2 opt_sub ef es"
  have len: "length ef = length es" "length es = Suc (length xs)"
    using ema_length[OF e(4)] ema_length[OF e(5)] by simp_all
  have bl: "butlast l = map2 opt_sub (butlast ef) (butlast es)"
    unfolding l_def using len by (intro map2_butlast) simp
  have "l \<noteq> []" using len by (auto simp: l_def)
  then have bs: "butlast (ema_defined l sgnl) = ema_defined (butlast l) sgnl"
    using ema_defined_snoc[OF e(3), of "butlast l" "last l"] by simp
  have "macd_rows xs fast slow sgnl =
      Inr (zip (butlast l) (zip (ema_defined (butlast l) sgnl)
            (map2 opt_sub (butlast l) (ema_defined (butlast l) sgnl))))"
    using ema_snoc[OF e(4)] ema_snoc[OF e(5)] e(1-3) bl
    by (simp add: macd_rows_def macd_def Let_def require_positive_period_def raise_if_def)
  also have "\<dots> = Inr (butlast ys)"
    unfolding ys l_def[symmetric] Let_def
    by (simp add: zip_butlast map2_butlast ema_defined_length bs)
  finally show "macd_rows xs fast slow sgnl = Inr (butlast ys)" .
qed

subsection \<open>RSI and ATR\<close>

lemma rsi_loop_length: "rsi_loop period ag al zs = Inr rs \<Longrightarrow> length rs = length zs"
  by (induction zs arbitrary: ag al rs) (auto simp: Let_def bindE_eq_Inr)

lemma rsi_loop_snoc:
  "rsi_loop period ag al (zs @ [z]) = Inr rs \<Longrightarrow> rsi_loop period ag al zs = Inr (butlast rs)"
proof (induction zs arbitrary: ag al rs)
  case Nil
  then show ?case by (cases z) (auto simp: Let_def bindE_eq_Inr)
next
  case (Cons y zs)
  obtain g l where y: "y = (g, l)" by (cases y)
  define ag' al' where w: "ag' = wilder period ag g" "al' = wilder period al l"
  from Cons.prems obtain r rs' where rs: "rsi_value ag' al' = Inr r"
    "rsi_loop period ag' al' (zs @ [z]) = Inr rs'" "rs = r # rs'"
    by (auto simp: y w Let_def bindE_eq_Inr)
  have "rs' \<noteq> []" using rsi_loop_length[OF rs(2)] by auto
  with Cons.IH[OF rs(2)] rs show ?case by (simp add: y Let_def flip: w)
qed

lemma gains_of_snoc: "gains_of (xs @ [x]) = gains_of xs @ [gain_at (xs @ [x]) (length xs)]"
  and losses_of_snoc: "losses_of (xs @ [x]) = losses_of xs @ [loss_at (xs @ [x]) (length xs)]"
  and true_ranges_snoc: "true_ranges (cs @ [c]) = true_ranges cs @ [tr_at (cs @ [c]) (length cs)]"
  and dms_of_snoc: "dms_of (cs @ [c]) = dms_of cs @ [dm_at (cs @ [c]) (length cs)]"
  by (simp_all add: gains_of_def losses_of_def true_ranges_def dms_of_def gain_at_append
      loss_at_append tr_at_append dm_at_append)

lemma length_per_bar [simp]:
  "length (gains_of xs) = length xs" "length (losses_of xs) = length xs"
  "length (true_ranges cs) = length cs" "length (dms_of cs) = length cs"
  by (simp_all add: gains_of_def losses_of_def true_ranges_def dms_of_def)

lemma rsi_length: "rsi xs period = Inr ys \<Longrightarrow> length ys = length xs"
  by (auto simp: rsi_def Let_def bindE_eq_Inr require_positive_period_def dest!: rsi_loop_length
      split: if_splits)

lemma rsi_snoc:
  assumes "rsi (xs @ [x]) period = Inr ys"
  shows "rsi xs period = Inr (butlast ys)"
proof -
  let ?p = "nat period" and ?n = "length xs"
  have p: "0 < period" using assms by (auto simp: rsi_def bindE_eq_Inr require_positive_period_def)
  note unf = rsi_def require_positive_period_def raise_if_def Let_def gains_of_snoc losses_of_snoc
  consider "?n < ?p" | "?n = ?p" | "?p < ?n" by linarith
  then show ?thesis
  proof cases
    case 1
    with assms p show ?thesis by (auto simp: unf butlast_replicate simp del: replicate_Suc)
  next
    case 2
    with assms p show ?thesis
      by (auto simp: unf bindE_eq_Inr butlast_append simp del: replicate_Suc)
  next
    case 3
    let ?ag = "fdiv (pysum (slice 1 (?p + 1) (gains_of xs))) (fint period)"
    let ?al = "fdiv (pysum (slice 1 (?p + 1) (losses_of xs))) (fint period)"
    let ?zs = "zip (drop (?p + 1) (gains_of xs)) (drop (?p + 1) (losses_of xs))"
    obtain r rs z where r: "rsi_value ?ag ?al = Inr r" "rsi_loop period ?ag ?al (?zs @ [z]) = Inr rs"
      and ys: "ys = replicate ?p None @ Some r # map Some rs"
      using assms p 3 by (auto simp: unf bindE_eq_Inr slice_append)
    have "rs \<noteq> []" using rsi_loop_length[OF r(2)] by auto
    with rsi_loop_snoc[OF r(2)] r(1) ys p 3 show ?thesis
      by (simp add: unf butlast_append map_butlast)
  qed
qed

interpretation rsi: causal_series "\<lambda>xs. rsi xs period" for period
  by unfold_locales (auto dest: rsi_length rsi_snoc)

lemma wilder_loop_snoc:
  "wilder_loop period a (xs @ [x]) = wilder_loop period a xs @ [wilder period (last (a # wilder_loop period a xs)) x]"
  by (induction xs arbitrary: a) (auto simp: Let_def)

lemma wilder_loop_length [simp]: "length (wilder_loop period a xs) = length xs"
  by (induction xs arbitrary: a) (auto simp: Let_def)

definition atr_values :: "candle list \<Rightarrow> int \<Rightarrow> pyfloat list" where
  \<comment> \<open>the ATR from index \<open>period\<close> on\<close>
  "atr_values cs period =
     (let avg = fdiv (pysum (slice 1 (nat period + 1) (true_ranges cs))) (fint period)
      in avg # wilder_loop period avg (drop (nat period + 1) (true_ranges cs)))"

lemma atr_eq:
  "atr cs period = Inr ys \<longleftrightarrow> 0 < period \<and>
     ys = (if length cs < nat period + 1 then replicate (length cs) None
           else replicate (nat period) None @ map Some (atr_values cs period))"
  by (auto simp: atr_def atr_values_def Let_def bindE_eq_Inr require_positive_period_def)

lemma atr_values_snoc:
  assumes "nat period < length cs"
  shows "atr_values (cs @ [c]) period =
    atr_values cs period @ [wilder period (last (atr_values cs period)) (tr_at (cs @ [c]) (length cs))]"
  using assms by (simp add: atr_values_def Let_def true_ranges_snoc slice_append wilder_loop_snoc)

lemma atr_values_length: "nat period < length cs \<Longrightarrow> length (atr_values cs period) = length cs - nat period"
  by (simp add: atr_values_def Let_def)

lemma atr_values_not_Nil [simp]: "atr_values cs period \<noteq> []"
  by (simp add: atr_values_def Let_def)

lemma atr_length: "atr cs period = Inr ys \<Longrightarrow> length ys = length cs"
  by (auto simp: atr_eq atr_values_length)

lemma atr_snoc: "atr (cs @ [c]) period = Inr ys \<Longrightarrow> atr cs period = Inr (butlast ys)"
proof -
  assume a: "atr (cs @ [c]) period = Inr ys"
  then have p: "0 < period" by (simp add: atr_eq)
  consider "length cs < nat period" | "length cs = nat period" | "nat period < length cs" by linarith
  then show ?thesis
  proof cases
    case 1 then show ?thesis using a p by (simp add: atr_eq butlast_replicate del: replicate_Suc)
  next
    case 2 then show ?thesis using a p
      by (simp add: atr_eq atr_values_def Let_def true_ranges_snoc butlast_append)
  next
    case 3 then show ?thesis using a p by (simp add: atr_eq atr_values_snoc butlast_append)
  qed
qed

interpretation atr: causal_series "\<lambda>cs. atr cs period" for period
  by unfold_locales (auto dest: atr_length atr_snoc)

subsection \<open>The ATR tracker is the ATR series\<close>

definition atr_stream :: "atr_tracker \<Rightarrow> candle \<Rightarrow> atr_tracker \<times> pyfloat option result" where
  "atr_stream t c = (case atr_update t c of (t', v) \<Rightarrow> (t', Inr v))"

definition atr_fresh :: "int \<Rightarrow> atr_tracker" where
  "atr_fresh period = \<lparr>at_period = period, at_prev_close = None, at_seed_trs = [], at_value = None\<rparr>"

definition atr_agrees :: "int \<Rightarrow> atr_tracker \<Rightarrow> candle list \<Rightarrow> bool" where
  \<comment> \<open>the tracker after the candles \<open>cs\<close>\<close>
  "atr_agrees period t cs \<longleftrightarrow>
     at_period t = period \<and>
     at_prev_close t = (if cs = [] then None else Some (c_close (last cs))) \<and>
     (if length cs \<le> nat period
      then at_value t = None \<and> at_seed_trs t = drop 1 (true_ranges cs)
      else at_value t = Some (last (atr_values cs period)))"

lemma atr_agrees_update:
  assumes "0 < period" "atr_agrees period t cs"
  shows "atr_agrees period (fst (atr_update t c)) (cs @ [c]) \<and>
    snd (atr_update t c) = (if length cs < nat period then None else Some (last (atr_values (cs @ [c]) period)))"
proof (cases "cs = []")
  case True
  with assms show ?thesis
    by (auto simp: atr_agrees_def atr_update_def true_ranges_def)
next
  case ne: False
  have tr: "tr_at (cs @ [c]) (length cs) = true_range (c_close (last cs)) c"
    using ne by (simp add: tr_at_def nth_append last_conv_nth)
  have dr: "drop 1 (true_ranges (cs @ [c])) = drop 1 (true_ranges cs) @ [true_range (c_close (last cs)) c]"
    using ne by (simp add: true_ranges_snoc tr Suc_le_eq)
  consider "length cs < nat period" | "length cs = nat period" | "nat period < length cs" by linarith
  then show ?thesis
  proof cases
    case 1
    then show ?thesis using assms ne dr by (auto simp: atr_agrees_def atr_update_def Let_def)
  next
    case 2
    have "atr_values (cs @ [c]) period =
        [fdiv (pysum (drop 1 (true_ranges cs) @ [true_range (c_close (last cs)) c])) (fint period)]"
      using 2 dr by (simp add: atr_values_def Let_def slice_def)
    then show ?thesis using 2 assms ne by (auto simp: atr_agrees_def atr_update_def Let_def)
  next
    case 3
    then show ?thesis using assms ne
      by (auto simp: atr_agrees_def atr_update_def Let_def atr_values_snoc tr)
  qed
qed

interpretation atr_tracker: streaming_series "\<lambda>cs. atr cs period" "atr_fresh period" atr_stream "atr_agrees period"
  for period
proof unfold_locales
  show "atr_agrees period (atr_fresh period) []"
    by (simp add: atr_agrees_def atr_fresh_def true_ranges_def)
next
  fix cs c ys t
  assume a: "atr (cs @ [c]) period = Inr ys" and t: "atr_agrees period t cs"
  have p: "0 < period" using a by (simp add: atr_eq)
  have "last ys = (if length cs < nat period then None else Some (last (atr_values (cs @ [c]) period)))"
    using a by (auto simp: atr_eq last_map simp flip: replicate_append_same)
  with atr_agrees_update[OF p t, of c]
  show "\<exists>t'. atr_stream t c = (t', Inr (last ys)) \<and> atr_agrees period t' (cs @ [c])"
    by (cases "atr_update t c") (simp add: atr_stream_def)
qed

subsection \<open>ADX\<close>

lemma adx_loop_snoc: "\<exists>y. adx_loop period sm s (zs @ [z]) = adx_loop period sm s zs @ [y]"
proof (induction zs arbitrary: sm s)
  case Nil
  show ?case by (cases sm; cases z) (simp add: Let_def split: prod.split)
next
  case (Cons w zs)
  show ?case by (cases sm; cases w) (simp add: Let_def Cons.IH split: prod.split)
qed

lemma adx_loop_length: "length (adx_loop period sm s zs) = length zs"
proof (induction zs arbitrary: sm s)
  case (Cons w zs)
  show ?case by (cases sm; cases w) (simp add: Let_def Cons.IH split: prod.split)
qed simp

lemma adx_loop_warmup:
  "dx_count s + int (length zs) < period \<Longrightarrow> adx_loop period sm s zs = replicate (length zs) None"
proof (induction zs arbitrary: sm s)
  case (Cons w zs)
  obtain s' v where e: "adx_emit period s (adx_dx (wilder period (fst sm) (fst w))
      (wilder period (fst (snd sm)) (fst (snd w))) (wilder period (snd (snd sm)) (snd (snd w)))) = (s', v)"
    by fastforce
  then have "v = None" "dx_count s' = dx_count s + 1"
    using Cons.prems by (auto simp: adx_emit_def Let_def split: if_splits)
  with e Cons show ?case by (cases sm; cases w) (simp add: Let_def)
qed simp

interpretation adx: causal_series "\<lambda>cs. adx cs period" for period
proof unfold_locales
  fix cs ys
  assume "adx cs period = Inr ys"
  then show "length ys = length cs"
    by (auto simp: adx_def Let_def bindE_eq_Inr require_positive_period_def adx_loop_length
        split: if_splits prod.splits)
next
  fix cs c ys
  assume a: "adx (cs @ [c]) period = Inr ys"
  let ?p = "nat period" and ?n = "length cs"
  have p: "0 < period" using a by (auto simp: adx_def bindE_eq_Inr require_positive_period_def)
  note unf = adx_def require_positive_period_def raise_if_def Let_def dms_of_snoc
  consider "Suc ?n < 2 * ?p" | "Suc ?n = 2 * ?p" | "2 * ?p \<le> ?n" by linarith
  then show "adx cs period = Inr (butlast ys)"
  proof cases
    case 1
    then show ?thesis using a p by (auto simp: unf butlast_replicate simp del: replicate_Suc)
  next
    case 3
    have sl: "slice 1 (?p + 1) (dms_of (cs @ [c])) = slice 1 (?p + 1) (dms_of cs)"
      using 3 p by (simp add: dms_of_snoc slice_append)
    let ?seed = "slice 1 (?p + 1) (dms_of cs)"
    let ?m = "\<lambda>f. fdiv (pysum (map f ?seed)) (fint period)"
    let ?s0 = "\<lparr>dx_sum = Fin 0, dx_count = 0, adx_value = Fin 0\<rparr>"
    obtain s v where e: "adx_emit period ?s0 (adx_dx (?m fst) (?m (fst \<circ> snd)) (?m (snd \<circ> snd))) = (s, v)"
      by fastforce
    let ?loop = "adx_loop period (?m fst, ?m (fst \<circ> snd), ?m (snd \<circ> snd)) s"
    have "ys = replicate ?p None @ v # ?loop (drop (?p + 1) (dms_of (cs @ [c])))"
      using a p 3 e sl by (simp add: adx_def require_positive_period_def raise_if_def Let_def)
    moreover have "drop (?p + 1) (dms_of (cs @ [c])) = drop (?p + 1) (dms_of cs) @ [dm_at (cs @ [c]) ?n]"
      using 3 p by (simp add: dms_of_snoc)
    ultimately have "butlast ys = replicate ?p None @ v # ?loop (drop (?p + 1) (dms_of cs))"
      using adx_loop_snoc by (metis append_Cons append_assoc butlast_snoc)
    then show ?thesis
      using p 3 e by (simp add: adx_def require_positive_period_def raise_if_def Let_def)
  next
    case 2
    let ?seed = "slice 1 (?p + 1) (dms_of (cs @ [c]))"
    let ?m = "\<lambda>f. fdiv (pysum (map f ?seed)) (fint period)"
    let ?s0 = "\<lparr>dx_sum = Fin 0, dx_count = 0, adx_value = Fin 0\<rparr>"
    let ?zs = "drop (?p + 1) (dms_of cs)"
    obtain s v where e: "adx_emit period ?s0 (adx_dx (?m fst) (?m (fst \<circ> snd)) (?m (snd \<circ> snd))) = (s, v)"
      by fastforce
    have ys: "ys = replicate ?p None @ v # adx_loop period (?m fst, ?m (fst \<circ> snd), ?m (snd \<circ> snd)) s
        (drop (?p + 1) (dms_of (cs @ [c])))"
      using a p 2 e by (simp add: adx_def require_positive_period_def raise_if_def Let_def)
    show ?thesis
    proof (cases "?p = 1")
      case True
      with 2 p ys show ?thesis by (simp add: unf butlast_append)
    next
      case False
      then have v: "v = None" "dx_count s = 1" using e p by (auto simp: adx_emit_def Let_def split: if_splits)
      have "drop (?p + 1) (dms_of (cs @ [c])) = ?zs @ [dm_at (cs @ [c]) ?n]"
        using 2 False p by (simp add: dms_of_snoc)
      moreover have "dx_count s + int (length ?zs) < period" using v 2 False p by auto
      ultimately obtain y where "ys = replicate ?p None @ None # replicate (length ?zs) None @ [y]"
        using ys v adx_loop_snoc adx_loop_warmup by metis
      then have "butlast ys = replicate (?p + Suc (length ?zs)) None"
        by (simp add: butlast_append replicate_add replicate_append_same)
      moreover have n: "?p + Suc (length ?zs) = ?n" using 2 False p by auto
      ultimately have "butlast ys = replicate ?n None" unfolding n by blast
      then show ?thesis using 2 p by (simp add: unf)
    qed
  qed
qed
section \<open>Properties\<close>

lemma atr_total: "0 < period \<Longrightarrow> \<exists>ys. atr cs period = Inr ys"
  by (simp add: atr_eq)

lemma atr_tracker_init_fresh: "atr_tracker_init period = Inr t \<Longrightarrow> 0 < period \<and> t = atr_fresh period"
  by (auto simp: atr_tracker_init_def atr_fresh_def bindE_eq_Inr require_positive_period_def)

text \<open>
  C14 No indicator looks ahead: on the first \<open>n\<close> bars alone, each of the batch indicators
  succeeds and gives the first \<open>n\<close> values of its series over all bars.
\<close>

theorem indicators_do_not_look_ahead:
  assumes "sma xs p = Inr a" "ema xs p = Inr b" "rsi xs p = Inr c" "momentum xs p = Inr d"
    and "bollinger xs p k = Inr e" "macd_rows xs fast slow sgnl = Inr f"
    and "realized_volatility pow_fn xs p = Inr v"
    and "atr cs p = Inr g" "adx cs p = Inr h" "relative_volume cs p = Inr r"
  shows "sma (take n xs) p = Inr (take n a) \<and> ema (take n xs) p = Inr (take n b) \<and>
    rsi (take n xs) p = Inr (take n c) \<and> momentum (take n xs) p = Inr (take n d) \<and>
    bollinger (take n xs) p k = Inr (take n e) \<and>
    macd_rows (take n xs) fast slow sgnl = Inr (take n f) \<and>
    realized_volatility pow_fn (take n xs) p = Inr (take n v) \<and>
    atr (take n cs) p = Inr (take n g) \<and> adx (take n cs) p = Inr (take n h) \<and>
    relative_volume (take n cs) p = Inr (take n r) \<and> vwap (take n cs) = take n (vwap cs)"
  using sma.ind_take[OF assms(1)] ema.ind_take[OF assms(2)] rsi.ind_take[OF assms(3)]
    momentum.ind_take[OF assms(4)] bollinger.ind_take[OF assms(5)] macd.ind_take[OF assms(6)]
    realized_volatility.ind_take[OF assms(7)] atr.ind_take[OF assms(8)] adx.ind_take[OF assms(9)]
    relative_volume.ind_take[OF assms(10)] vwap.ind_take[OF refl, of n cs]
  by simp

definition example_bars :: "candle list" where
  "example_bars = [example_candle 0 8, example_candle 900000 4, example_candle 1800000 8]"

theorem indicators_do_not_look_ahead_witness:
  "rsi (take 2 [Fin 8, Fin 4, Fin 16]) 1 = Inr (take 2 [None, Some (Fin 0), Some (Fin 100)]) \<and>
   adx (take 2 example_bars) 1 = Inr (take 2 [None, Some (Fin 100), Some (Fin 100)])"
proof -
  have "sma [Fin 8, Fin 4, Fin 16] 1 = Inr [Some (Fin 8), Some (Fin 4), Some (Fin 16)]" by code_simp
  moreover have "ema [Fin 8, Fin 4, Fin 16] 1 = Inr [Some (Fin 8), Some (Fin 4), Some (Fin 16)]" by code_simp
  moreover have "rsi [Fin 8, Fin 4, Fin 16] 1 = Inr [None, Some (Fin 0), Some (Fin 100)]" by code_simp
  moreover have "momentum [Fin 8, Fin 4, Fin 16] 1 = Inr [None, Some (Fin (- 1/2)), Some (Fin 3)]" by code_simp
  moreover have "bollinger [Fin 8, Fin 4, Fin 16] 1 (Fin 2) =
      Inr [Some \<lparr>bb_middle = Fin 8, bb_upper = Fin 8, bb_lower = Fin 8\<rparr>,
           Some \<lparr>bb_middle = Fin 4, bb_upper = Fin 4, bb_lower = Fin 4\<rparr>,
           Some \<lparr>bb_middle = Fin 16, bb_upper = Fin 16, bb_lower = Fin 16\<rparr>]" by code_simp
  moreover have "macd_rows [Fin 8, Fin 4, Fin 16] 1 1 1 =
      Inr [(Some (Fin 0), Some (Fin 0), Some (Fin 0)), (Some (Fin 0), Some (Fin 0), Some (Fin 0)),
           (Some (Fin 0), Some (Fin 0), Some (Fin 0))]" by code_simp
  moreover have "realized_volatility (\<lambda>_ _. Inr (Fin 1)) [Fin 8, Fin 4, Fin 16] 1 = Inr [None, None, None]"
    by code_simp
  moreover have "atr example_bars 1 = Inr [None, Some (Fin 5), Some (Fin 5)]" by code_simp
  moreover have "adx example_bars 1 = Inr [None, Some (Fin 100), Some (Fin 100)]" by code_simp
  moreover have "relative_volume example_bars 1 = Inr [Some (Fin 1), Some (Fin 1), Some (Fin 1)]" by code_simp
  ultimately show ?thesis by (blast dest: indicators_do_not_look_ahead)
qed

text \<open>
  The incremental ATR the paper engine keeps is the batch ATR: after any candles its
  stream of values is the series \<open>atr\<close> computes from scratch.
\<close>

theorem atr_tracker_is_atr:
  assumes "atr_tracker_init period = Inr t"
  shows "snd (run_tracker atr_stream t cs) = atr cs period"
  using atr_tracker_init_fresh[OF assms] atr_total[of period cs] atr_tracker.tracker_equals_batch by metis

theorem atr_tracker_is_atr_witness:
  "snd (run_tracker atr_stream (atr_fresh 2) example_bars) = atr example_bars 2"
  by (rule atr_tracker_is_atr) code_simp

end
