(* ===== verification/Trading.thy ===== *)
theory Trading
  imports PyFloat
begin

text \<open>
  The trading value objects of \<open>src/src/domain/trading\<close> and \<open>domain/time\<close>: actions, signals,
  decisions, the fee and slippage models, the simulated fills and the orders tracked
  against the exchange.  Floats are \<open>pyfloat\<close>, every division that can raise is
  \<open>pdiv\<close>, and default field values are the \<open>default_\<dots>\<close> definitions.
\<close>

section \<open>Signals and decisions\<close>

datatype action = BUY | SELL | HOLD

datatype intensity = LOW | MEDIUM | HIGH

record signal =
  sig_timestamp_ms :: int
  sig_action :: action
  sig_intensity :: intensity
  sig_reason :: string

record trading_decision =
  td_timestamp_ms :: int
  td_action :: action
  td_confidence :: pyfloat
  td_intensity :: intensity
  td_rationale_summary :: string
  td_supporting_factors :: "string list"
  td_risk_factors :: "string list"
  td_fallback_reason :: "string option"

definition is_fallback :: "trading_decision \<Rightarrow> bool" where
  "is_fallback d = (td_fallback_reason d \<noteq> None)"

definition decision_hold :: "int \<Rightarrow> string \<Rightarrow> trading_decision" where
  "decision_hold ts reason =
     \<lparr>td_timestamp_ms = ts, td_action = HOLD, td_confidence = Fin 0, td_intensity = MEDIUM,
      td_rationale_summary = [], td_supporting_factors = [], td_risk_factors = [],
      td_fallback_reason = Some reason\<rparr>"

record llm_context =
  cx_symbol :: string
  cx_timestamp_ms :: int
  cx_experiment_id :: string
  cx_prompt_version :: string
  cx_market_state_hash :: string

section \<open>Calendar days\<close>

definition MS_PER_DAY :: int where "MS_PER_DAY = 86400000"

definition utc_day_index :: "int \<Rightarrow> int" where
  "utc_day_index ts = ts div MS_PER_DAY"

lemma utc_day_index_mono: "s \<le> t \<Longrightarrow> utc_day_index s \<le> utc_day_index t"
  by (simp add: utc_day_index_def MS_PER_DAY_def zdiv_mono1)

section \<open>Costs\<close>

record fee_model =
  taker_bps :: pyfloat
  maker_bps :: pyfloat
  fee_version :: string

definition default_fees :: fee_model where
  "default_fees = \<lparr>taker_bps = Fin 10, maker_bps = Fin 10, fee_version = ''bybit-spot-v1''\<rparr>"

definition taker_rate :: "fee_model \<Rightarrow> pyfloat" where
  "taker_rate m = fdiv (taker_bps m) (Fin 10000)"

definition fee :: "fee_model \<Rightarrow> pyfloat \<Rightarrow> pyfloat" where
  "fee m notional = fmul notional (taker_rate m)"

record slippage_model =
  slip_bps :: pyfloat
  slip_version :: string

definition default_slippage :: slippage_model where
  "default_slippage = \<lparr>slip_bps = Fin 2, slip_version = ''conservative-v1''\<rparr>"

definition slippage_rate :: "slippage_model \<Rightarrow> pyfloat" where
  "slippage_rate m = fdiv (slip_bps m) (Fin 10000)"

definition slippage_cost :: "slippage_model \<Rightarrow> pyfloat \<Rightarrow> pyfloat" where
  "slippage_cost m notional = fmul notional (slippage_rate m)"

section \<open>Fills\<close>

record fill =
  fl_timestamp_ms :: int
  fl_action :: action
  fl_price :: pyfloat
  fl_exec_price :: pyfloat
  fl_quantity :: pyfloat
  fl_notional :: pyfloat
  fl_fee :: pyfloat
  fl_slippage_cost :: pyfloat

record fill_model =
  fm_fees :: fee_model
  fm_slippage :: slippage_model

definition default_fill_model :: fill_model where
  "default_fill_model = \<lparr>fm_fees = default_fees, fm_slippage = default_slippage\<rparr>"

definition empty_fill :: "int \<Rightarrow> action \<Rightarrow> pyfloat \<Rightarrow> fill" where
  "empty_fill ts a price =
     \<lparr>fl_timestamp_ms = ts, fl_action = a, fl_price = price, fl_exec_price = price,
      fl_quantity = Fin 0, fl_notional = Fin 0, fl_fee = Fin 0, fl_slippage_cost = Fin 0\<rparr>"

definition fill_buy :: "fill_model \<Rightarrow> int \<Rightarrow> pyfloat \<Rightarrow> pyfloat \<Rightarrow> fill result" where
  "fill_buy m ts price cash =
     (if fle cash (Fin 0) then Inr (empty_fill ts BUY price)
      else
        let exec_price = fmul price (fadd (Fin 1) (slippage_rate (fm_slippage m)));
            fee_rate = taker_rate (fm_fees m)
        in bindE (pdiv cash (fadd (Fin 1) fee_rate)) (\<lambda>max_notional.
           bindE (pdiv max_notional exec_price) (\<lambda>quantity.
           let notional = fmul quantity exec_price in
           Inr \<lparr>fl_timestamp_ms = ts, fl_action = BUY, fl_price = price,
                fl_exec_price = exec_price, fl_quantity = quantity, fl_notional = notional,
                fl_fee = fmul notional fee_rate,
                fl_slippage_cost = fmul quantity (fsub exec_price price)\<rparr>)))"

definition fill_sell :: "fill_model \<Rightarrow> int \<Rightarrow> pyfloat \<Rightarrow> pyfloat \<Rightarrow> fill" where
  "fill_sell m ts price quantity =
     (if fle quantity (Fin 0) then empty_fill ts SELL price
      else
        let exec_price = fmul price (fsub (Fin 1) (slippage_rate (fm_slippage m)));
            notional = fmul quantity exec_price
        in \<lparr>fl_timestamp_ms = ts, fl_action = SELL, fl_price = price,
            fl_exec_price = exec_price, fl_quantity = quantity, fl_notional = notional,
            fl_fee = fmul notional (taker_rate (fm_fees m)),
            fl_slippage_cost = fmul quantity (fsub price exec_price)\<rparr>)"

lemma fill_buy_Inr:
  assumes "fill_buy m ts price cash = Inr f" "\<not> fle cash (Fin 0)"
  shows "fl_exec_price f = fmul price (fadd (Fin 1) (slippage_rate (fm_slippage m)))"
    and "fl_notional f = fmul (fl_quantity f) (fl_exec_price f)"
    and "fl_fee f = fee (fm_fees m) (fl_notional f)"
    and "fl_price f = price" and "fl_timestamp_ms f = ts" and "fl_action f = BUY"
  using assms by (auto simp: fill_buy_def Let_def bindE_eq_Inr fee_def)

text \<open>The execution price of a simulated order is never better than the quoted one.\<close>

lemma marked_up_price:
  assumes "representable p" "0 \<le> p" "0 \<le> r" "r \<le> 1"
  shows "fle (Fin p) (fmul (Fin p) (fadd (Fin 1) (Fin r)))"
proof -
  obtain w where w: "rnd (1 + r) = Fin w" "1 \<le> w"
    using binary64.rd_between[of 1 2 "1 + r"] representable_numeral[of "num.Bit0 num.One"] assms
      representable_one by (auto simp: representable_def)
  have "p \<le> p * w" using w(2) assms(2) by (simp add: mult_le_cancel_left1)
  then show ?thesis using w assms(1) by (simp add: representable_lower)
qed

lemma marked_down_price:
  assumes "representable p" "0 \<le> p" "0 \<le> r" "r \<le> 1"
  shows "fle (fmul (Fin p) (fsub (Fin 1) (Fin r))) (Fin p)"
    and "nonneg (fmul (Fin p) (fsub (Fin 1) (Fin r)))"
proof -
  obtain w where w: "rnd (1 - r) = Fin w" "0 \<le> w" "w \<le> 1"
    using binary64.rd_between[of 0 1 "1 - r"] representable_one assms
    by (auto simp: representable_def)
  have "p * w \<le> p" using w assms(2) by (simp add: mult_left_le)
  then show "fle (fmul (Fin p) (fsub (Fin 1) (Fin r))) (Fin p)"
    using w assms(1) by (simp add: representable_upper)
  show "nonneg (fmul (Fin p) (fsub (Fin 1) (Fin r)))"
    using w assms(2) by (simp add: binary64.rd_nonneg)
qed

section \<open>Orders\<close>

datatype order_status = NEW | PARTIALLY_FILLED | FILLED | CANCELLED | REJECTED

definition terminal_states :: "order_status list" where
  "terminal_states = [FILLED, CANCELLED, REJECTED]"

fun status_value :: "order_status \<Rightarrow> string" where
  "status_value NEW = ''New''"
| "status_value PARTIALLY_FILLED = ''PartiallyFilled''"
| "status_value FILLED = ''Filled''"
| "status_value CANCELLED = ''Cancelled''"
| "status_value REJECTED = ''Rejected''"

record tracked_order =
  to_link_id :: string
  to_symbol :: string
  to_status :: order_status
  to_cumulative_qty :: pyfloat
  to_avg_price :: "pyfloat option"
  to_exchange_id :: string

definition is_terminal :: "tracked_order \<Rightarrow> bool" where
  "is_terminal t = List.member terminal_states (to_status t)"

definition order_update ::
  "tracked_order \<Rightarrow> order_status \<Rightarrow> pyfloat \<Rightarrow> pyfloat option \<Rightarrow> tracked_order \<times> unit result" where
  "order_update t st qty avg =
     (if is_terminal t then (t, Inl (ValueError ''orden terminal: no admite transiciones''))
      else (t\<lparr>to_status := st,
              to_cumulative_qty := fmax (to_cumulative_qty t) qty,
              to_avg_price := (case avg of None \<Rightarrow> to_avg_price t | Some p \<Rightarrow> Some p)\<rparr>, Inr ()))"

definition as_open_state :: "tracked_order \<Rightarrow> (string \<times> string) list" where
  "as_open_state t = [(''orderLinkId'', to_link_id t), (''status'', status_value (to_status t))]"

definition replace_status :: "tracked_order \<Rightarrow> order_status \<Rightarrow> tracked_order" where
  "replace_status t st = t\<lparr>to_status := st\<rparr>"

type_synonym order_event = "order_status \<times> pyfloat \<times> pyfloat option"

definition order_step :: "tracked_order \<Rightarrow> order_event \<Rightarrow> tracked_order" where
  \<comment> \<open>one update message applied to the tracked order, its exception caught\<close>
  "order_step t e = (case e of (st, qty, avg) \<Rightarrow> fst (order_update t st qty avg))"

definition order_wf :: "tracked_order \<Rightarrow> bool" where
  "order_wf t \<longleftrightarrow> to_cumulative_qty t \<noteq> NaN"

lemma order_step_qty: "order_wf t \<Longrightarrow> fle (to_cumulative_qty t) (to_cumulative_qty (order_step t e))"
  by (auto simp: order_step_def order_update_def order_wf_def fmax_ge1 split: prod.splits)

interpretation orders: latch_machine order_step order_wf "\<lambda>_. True" is_terminal "\<lambda>t. t" "\<lambda>_. False"
proof unfold_locales
  fix t e assume "order_wf t"
  then show "order_wf (order_step t e)"
    using order_step_qty[of t e] fle_not_NaN by (auto simp: order_wf_def)
next
  fix t e assume "is_terminal t"
  then show "is_terminal (order_step t e) \<and> order_step t e = t"
    by (cases e) (simp add: order_step_def order_update_def)
qed

section \<open>Properties\<close>

text \<open>
  An order the exchange has closed never changes again, whatever updates arrive, and
  its filled quantity only ever grows.
\<close>

theorem tracked_order_lifecycle:
  assumes "to_cumulative_qty t \<noteq> NaN"
  shows "fle (to_cumulative_qty t) (to_cumulative_qty (foldl order_step t es)) \<and>
    (if is_terminal t then foldl order_step t es = t
     else to_link_id (foldl order_step t es) = to_link_id t)"
proof -
  have wf: "order_wf t" using assms by (simp add: order_wf_def)
  have link: "to_link_id (order_step t e) = to_link_id t" for t e
    by (simp add: order_step_def order_update_def split: prod.split)
  have ok: "list_all (\<lambda>_. True) es" by (induction es) auto
  have "to_link_id (foldl order_step t es) = to_link_id t"
    using orders.run_relation[OF wf ok, of "\<lambda>a b. to_link_id b = to_link_id a"] link by simp
  moreover have "fle (to_cumulative_qty t) (to_cumulative_qty (foldl order_step t es))"
    using wf by (rule orders.run_relation[OF _ ok])
      (auto simp: order_wf_def intro: fle_trans order_step_qty[unfolded order_wf_def])
  moreover have "is_terminal t \<Longrightarrow> foldl order_step t es = t"
    using orders.latched_run[OF wf ok] by auto
  ultimately show ?thesis by simp
qed

definition example_order :: "order_status \<Rightarrow> tracked_order" where
  "example_order st =
     \<lparr>to_link_id = ''a1'', to_symbol = ''ETHUSDT'', to_status = st, to_cumulative_qty = Fin 1,
      to_avg_price = None, to_exchange_id = []\<rparr>"

theorem tracked_order_lifecycle_witness:
  "fle (to_cumulative_qty (example_order FILLED))
     (to_cumulative_qty (foldl order_step (example_order FILLED) [(NEW, Fin 7, None)])) \<and>
   (if is_terminal (example_order FILLED)
    then foldl order_step (example_order FILLED) [(NEW, Fin 7, None)] = example_order FILLED
    else to_link_id (foldl order_step (example_order FILLED) [(NEW, Fin 7, None)]) = to_link_id (example_order FILLED))"
  by (rule tracked_order_lifecycle) (simp add: example_order_def)

text \<open>
  Simulated executions are never better than the quote: a buy executes at or above the
  price, a sell at or below it and not below zero.
\<close>

theorem fills_are_adverse:
  assumes "slippage_rate (fm_slippage m) = Fin r" "0 \<le> r" "r \<le> 1"
    and "representable p" "0 \<le> p"
    and "fill_buy m ts (Fin p) cash = Inr b"
  shows "fle (Fin p) (fl_exec_price b) \<and>
    fle (fl_exec_price (fill_sell m ts (Fin p) qty)) (Fin p) \<and>
    nonneg (fl_exec_price (fill_sell m ts (Fin p) qty))"
proof -
  have "fle (Fin p) (fl_exec_price b)"
  proof (cases "fle cash (Fin 0)")
    case True
    with assms(6) show ?thesis by (auto simp: fill_buy_def empty_fill_def)
  next
    case False
    from fill_buy_Inr(1)[OF assms(6) False] show ?thesis
      using marked_up_price[OF assms(4,5,2,3)] assms(1) by simp
  qed
  then show ?thesis
    using marked_down_price[OF assms(4,5,2,3)] assms(1,5)
    by (auto simp: fill_sell_def empty_fill_def Let_def)
qed

definition example_model :: fill_model where
  \<comment> \<open>half the price of slippage, no fee\<close>
  "example_model =
     \<lparr>fm_fees = \<lparr>taker_bps = Fin 0, maker_bps = Fin 0, fee_version = []\<rparr>,
      fm_slippage = \<lparr>slip_bps = Fin 5000, slip_version = []\<rparr>\<rparr>"

definition example_fill :: fill where
  "example_fill =
     \<lparr>fl_timestamp_ms = 0, fl_action = BUY, fl_price = Fin 2000, fl_exec_price = Fin 3000,
      fl_quantity = Fin 2, fl_notional = Fin 6000, fl_fee = Fin 0, fl_slippage_cost = Fin 2000\<rparr>"

theorem fills_are_adverse_witness:
  "fle (Fin 2000) (fl_exec_price example_fill) \<and>
   fle (fl_exec_price (fill_sell example_model 0 (Fin 2000) (Fin 1))) (Fin 2000) \<and>
   nonneg (fl_exec_price (fill_sell example_model 0 (Fin 2000) (Fin 1)))"
proof (rule fills_are_adverse)
  show "slippage_rate (fm_slippage example_model) = Fin (1/2)" by code_simp
  show "representable 2000" by (rule representable_numeral) simp
  show "fill_buy example_model 0 (Fin 2000) (Fin 6000) = Inr example_fill" by code_simp
qed simp_all

end
