(* ===== verification/Strategy.thy ===== *)
theory Strategy
  imports Indicators Trading
begin

text \<open>
  The baseline strategy of \<open>domain/trading/strategy.py\<close>: the incremental EMA and RSI
  trackers, the crossing rules of \<open>EmaRsiBaseline.on_candle\<close> and the replayed action list of
  \<open>PrecomputedStrategy\<close>.  The trackers are mutable objects, so an update returns the new
  state beside its result.  The interpretations show that feeding the trackers bar by bar
  gives the batch series of \<open>Indicators\<close>, and that the strategy is the crossing rule
  applied to those series.
\<close>

section \<open>The incremental trackers\<close>

record ema_tracker =
  et_period :: int
  et_alpha :: pyfloat
  et_buffer :: "pyfloat list"
  et_prev :: "pyfloat option"
  et_current :: "pyfloat option"

definition ema_tracker_init :: "int \<Rightarrow> ema_tracker result" where
  "ema_tracker_init period =
     bindE (pdiv (Fin 2) (fint (period + 1))) (\<lambda>alpha.
       Inr \<lparr>et_period = period, et_alpha = alpha, et_buffer = [], et_prev = None, et_current = None\<rparr>)"

definition ema_update :: "ema_tracker \<Rightarrow> pyfloat \<Rightarrow> ema_tracker" where
  "ema_update t v =
     (case et_current t of
        None \<Rightarrow>
          let buf = et_buffer t @ [v]; t1 = t\<lparr>et_buffer := buf\<rparr> in
          if int (length buf) = et_period t
          then t1\<lparr>et_current := Some (fdiv (pysum buf) (fint (et_period t)))\<rparr>
          else t1
      | Some cur \<Rightarrow>
          t\<lparr>et_prev := Some cur, et_current := Some (ema_step (et_alpha t) cur v)\<rparr>)"

record rsi_tracker =
  rt_period :: int
  rt_changes :: "(pyfloat \<times> pyfloat) list"
  rt_prev_close :: "pyfloat option"
  rt_avg_gain :: "pyfloat option"
  rt_avg_loss :: "pyfloat option"
  rt_prev :: "pyfloat option"
  rt_current :: "pyfloat option"

definition rsi_tracker_init :: "int \<Rightarrow> rsi_tracker" where
  "rsi_tracker_init period =
     \<lparr>rt_period = period, rt_changes = [], rt_prev_close = None, rt_avg_gain = None,
      rt_avg_loss = None, rt_prev = None, rt_current = None\<rparr>"

definition rsi_set :: "rsi_tracker \<Rightarrow> pyfloat \<Rightarrow> pyfloat \<Rightarrow> rsi_tracker \<times> unit result" where
  \<comment> \<open>the averages are stored before \<open>_rsi_value\<close> is called\<close>
  "rsi_set t ag al =
     (let t1 = t\<lparr>rt_avg_gain := Some ag, rt_avg_loss := Some al\<rparr> in
      case rsi_value ag al of
        Inl e \<Rightarrow> (t1, Inl e)
      | Inr r \<Rightarrow> (t1\<lparr>rt_current := Some r\<rparr>, Inr ()))"

definition rsi_update :: "rsi_tracker \<Rightarrow> pyfloat \<Rightarrow> rsi_tracker \<times> unit result" where
  "rsi_update t close =
     (case rt_prev_close t of
        None \<Rightarrow> (t\<lparr>rt_prev_close := Some close\<rparr>, Inr ())
      | Some pc \<Rightarrow>
          let change = fsub close pc;
              t0 = t\<lparr>rt_prev_close := Some close\<rparr>;
              gain = fmax change (Fin 0);
              loss = fmax (fneg change) (Fin 0)
          in (case (rt_avg_gain t, rt_avg_loss t) of
                (Some ag, Some al) \<Rightarrow>
                  rsi_set (t0\<lparr>rt_prev := rt_current t\<rparr>)
                    (wilder (rt_period t) ag gain) (wilder (rt_period t) al loss)
              | _ \<Rightarrow>
                  let changes = rt_changes t @ [(gain, loss)]; t1 = t0\<lparr>rt_changes := changes\<rparr> in
                  if int (length changes) = rt_period t
                  then rsi_set t1 (fdiv (pysum (map fst changes)) (fint (rt_period t)))
                                  (fdiv (pysum (map snd changes)) (fint (rt_period t)))
                  else (t1, Inr ())))"

section \<open>EmaRsiBaseline\<close>

record ema_rsi_config =
  ec_fast :: int
  ec_slow :: int
  ec_rsi_period :: int
  ec_rsi_exit :: pyfloat

definition default_ema_rsi_config :: ema_rsi_config where
  "default_ema_rsi_config = \<lparr>ec_fast = 20, ec_slow = 50, ec_rsi_period = 14, ec_rsi_exit = Fin 80\<rparr>"

record ema_rsi_baseline =
  eb_config :: ema_rsi_config
  eb_fast :: ema_tracker
  eb_slow :: ema_tracker
  eb_rsi :: rsi_tracker

definition baseline_init :: "ema_rsi_config \<Rightarrow> ema_rsi_baseline result" where
  "baseline_init cfg =
     bindE (ema_tracker_init (ec_fast cfg)) (\<lambda>f.
     bindE (ema_tracker_init (ec_slow cfg)) (\<lambda>s.
       Inr \<lparr>eb_config = cfg, eb_fast = f, eb_slow = s, eb_rsi = rsi_tracker_init (ec_rsi_period cfg)\<rparr>))"

definition make_signal :: "int \<Rightarrow> action \<Rightarrow> string \<Rightarrow> signal" where
  \<comment> \<open>the default intensity is MEDIUM\<close>
  "make_signal ts a reason =
     \<lparr>sig_timestamp_ms = ts, sig_action = a, sig_intensity = MEDIUM, sig_reason = reason\<rparr>"

definition cross_signal ::
  "pyfloat \<Rightarrow> int \<Rightarrow> pyfloat option \<Rightarrow> pyfloat option \<Rightarrow> pyfloat option \<Rightarrow> pyfloat option \<Rightarrow>
   pyfloat option \<Rightarrow> signal" where
  "cross_signal rsi_exit ts f_prev f_cur s_prev s_cur rsi_now =
     (case (f_prev, f_cur, s_prev, s_cur, rsi_now) of
        (Some fp, Some fc, Some sp, Some sc, Some r) \<Rightarrow>
          if fle fp sp \<and> flt sc fc then make_signal ts BUY ''ema_cross_up''
          else if (fle sp fp \<and> flt fc sc) \<or> flt rsi_exit r
          then make_signal ts SELL ''ema_cross_down_or_rsi_exit''
          else make_signal ts HOLD []
      | _ \<Rightarrow> make_signal ts HOLD ''warmup'')"

definition on_candle :: "ema_rsi_baseline \<Rightarrow> candle \<Rightarrow> ema_rsi_baseline \<times> signal result" where
  "on_candle b c =
     (let f = ema_update (eb_fast b) (c_close c);
          s = ema_update (eb_slow b) (c_close c)
      in case rsi_update (eb_rsi b) (c_close c) of
           (r, Inl e) \<Rightarrow> (b\<lparr>eb_fast := f, eb_slow := s, eb_rsi := r\<rparr>, Inl e)
         | (r, Inr _) \<Rightarrow>
             (b\<lparr>eb_fast := f, eb_slow := s, eb_rsi := r\<rparr>,
              Inr (cross_signal (ec_rsi_exit (eb_config b)) (timestamp_ms c)
                     (et_prev f) (et_current f) (et_prev s) (et_current s) (rt_current r))))"

section \<open>PrecomputedStrategy\<close>

record precomputed =
  ps_actions :: "action list"
  ps_i :: nat

definition precomputed_on_candle :: "precomputed \<Rightarrow> candle \<Rightarrow> precomputed \<times> signal" where
  "precomputed_on_candle p c =
     (let a = (if ps_i p < length (ps_actions p) then ps_actions p ! ps_i p else HOLD)
      in (p\<lparr>ps_i := ps_i p + 1\<rparr>, make_signal (timestamp_ms c) a []))"

section \<open>The EMA tracker is the EMA series\<close>

definition ema_fresh :: "int \<Rightarrow> ema_tracker" where
  "ema_fresh period =
     \<lparr>et_period = period, et_alpha = ema_alpha period, et_buffer = [], et_prev = None, et_current = None\<rparr>"

lemma fint_pos: "0 < n \<Longrightarrow> n \<le> 2 ^ 53 \<Longrightarrow> fint n = Fin (of_int n)"
  by (simp add: fint_numeral)

lemma ema_tracker_init_fresh:
  "\<not> feq (fint (period + 1)) (Fin 0) \<Longrightarrow> ema_tracker_init period = Inr (ema_fresh period)"
  by (simp add: ema_tracker_init_def ema_fresh_def ema_alpha_def pdiv_nonzero)

definition ema_agrees :: "int \<Rightarrow> ema_tracker \<Rightarrow> pyfloat list \<Rightarrow> bool" where
  \<comment> \<open>the tracker after the values \<open>xs\<close>: the last two entries of the series\<close>
  "ema_agrees period t xs \<longleftrightarrow>
     et_period t = period \<and> et_alpha t = ema_alpha period \<and>
     (0 < period \<longrightarrow>
       (\<exists>ys. ema xs period = Inr ys \<and> et_current t = last_opt ys \<and> et_prev t = last_opt (butlast ys))) \<and>
     (length xs < nat period \<longrightarrow> et_buffer t = xs)"

definition ema_stream :: "ema_tracker \<Rightarrow> pyfloat \<Rightarrow> ema_tracker \<times> pyfloat option result" where
  "ema_stream t v = (let t' = ema_update t v in (t', Inr (et_current t')))"

lemma last_opt_snoc [simp]: "last_opt (xs @ [x]) = x"
  by (simp add: last_opt_def)

lemma last_opt_replicate [simp]: "last_opt (replicate n None) = None"
  by (cases n) (simp_all add: last_opt_def)

lemma ema_eq:
  "ema xs period = Inr ys \<longleftrightarrow> 0 < period \<and>
     ys = (if length xs < nat period then replicate (length xs) None
           else replicate (nat period - 1) None @ map Some (ema_values period xs))"
  by (auto simp: ema_def bindE_eq_Inr require_positive_period_def)

lemma ema_values_Cons: "nat period \<le> length xs \<Longrightarrow> \<exists>a as. ema_values period xs = a # as"
  by (simp add: ema_values_def Let_def)

lemma ema_agrees_update:
  assumes "0 < period" "ema_agrees period t xs"
  shows "ema_agrees period (ema_update t x) (xs @ [x])"
proof -
  obtain ys where t: "et_period t = period" "et_alpha t = ema_alpha period" "ema xs period = Inr ys"
    "et_current t = last_opt ys" "et_prev t = last_opt (butlast ys)"
    "length xs < nat period \<Longrightarrow> et_buffer t = xs"
    using assms by (auto simp: ema_agrees_def)
  consider "Suc (length xs) < nat period" | "Suc (length xs) = nat period" | "nat period \<le> length xs"
    by linarith
  then show ?thesis
  proof cases
    case 1
    then have "et_current t = None" "et_prev t = None" using t by (auto simp: ema_eq butlast_conv_take)
    with 1 t show ?thesis
      by (auto simp: ema_agrees_def ema_update_def Let_def ema_eq butlast_replicate simp del: replicate_Suc)
  next
    case 2
    then have c: "et_current t = None" "et_prev t = None" using t by (auto simp: ema_eq butlast_conv_take)
    have "ema_values period (xs @ [x]) = [fdiv (pysum (xs @ [x])) (fint period)]"
      using 2 by (simp add: ema_values_def Let_def)
    with 2 t c assms(1) show ?thesis
      by (auto simp: ema_agrees_def ema_update_def Let_def ema_eq)
  next
    case 3
    then obtain a as where v: "ema_values period xs = a # as" using ema_values_Cons by blast
    then have "et_current t = Some (last (a # as))" using t 3
      by (auto simp: ema_eq last_opt_def last_map)
    then show ?thesis using 3 t v
      by (auto simp: ema_agrees_def ema_update_def ema_eq ema_values_snoc last_opt_def butlast_append last_map)
  qed
qed

interpretation ema_tracker: streaming_series "\<lambda>xs. ema xs period" "ema_fresh period" ema_stream "ema_agrees period"
  for period
proof unfold_locales
  show "ema_agrees period (ema_fresh period) []"
    by (cases "0 < period") (auto simp: ema_agrees_def ema_fresh_def ema_eq last_opt_def)
next
  fix xs x ys t
  assume a: "ema (xs @ [x]) period = Inr ys" and t: "ema_agrees period t xs"
  then have "ema_agrees period (ema_update t x) (xs @ [x])" by (intro ema_agrees_update) (simp add: ema_eq)
  moreover from this have "et_current (ema_update t x) = last ys"
    using a ema_length[OF a] by (auto simp: ema_agrees_def last_opt_def ema_eq)
  ultimately show "\<exists>t'. ema_stream t x = (t', Inr (last ys)) \<and> ema_agrees period t' (xs @ [x])"
    by (auto simp: ema_stream_def Let_def)
qed

section \<open>The RSI tracker is the RSI series\<close>

text \<open>
  The tracker takes \<open>max(change, 0)\<close> where the batch code compares first, so a NaN change
  gives a NaN gain here and a zero gain there.  The losses agree and a NaN loss makes every
  later RSI NaN on both sides, which \<open>same_change\<close> records.
\<close>

definition same_change :: "pyfloat \<times> pyfloat \<Rightarrow> pyfloat \<times> pyfloat \<Rightarrow> bool" where
  "same_change a b \<longleftrightarrow> snd a = snd b \<and> (fst a = fst b \<or> snd a = NaN)"

lemma neumaier_NaN: "f = NaN \<or> NaN \<in> set xs \<Longrightarrow> fst (neumaier f c xs) = NaN"
proof (induction xs arbitrary: f c)
  case (Cons x xs)
  have "fadd f x = NaN \<or> NaN \<in> set xs" using Cons.prems by (cases f) auto
  then show ?case by (simp add: Let_def Cons.IH)
qed simp

declare fadd_NaN [simp] fmul_NaN [simp] fdiv_NaN [simp]

lemma pysum_NaN: "NaN \<in> set xs \<Longrightarrow> pysum xs = NaN"
proof (cases xs)
  case (Cons x ys)
  assume "NaN \<in> set xs"
  then have "fadd (Fin 0) x = NaN \<or> NaN \<in> set ys" using Cons by auto
  then have "fst (neumaier (fadd (Fin 0) x) (Fin 0) ys) = NaN" by (rule neumaier_NaN)
  then show ?thesis using Cons by (auto simp: pysum_def split: prod.split)
qed simp

lemma rsi_value_NaN: "rsi_value ag NaN = Inr NaN"
  by (simp add: rsi_value_def pdiv_def fsub_def)

lemma rsi_value_same: "same_change a b \<Longrightarrow> rsi_value (fst a) (snd a) = rsi_value (fst b) (snd b)"
  by (cases a; cases b) (auto simp: same_change_def rsi_value_NaN)

lemma same_change_wilder:
  "same_change (ag, al) (bg, bl) \<Longrightarrow> same_change (g, l) (g', l') \<Longrightarrow>
   same_change (wilder p ag g, wilder p al l) (wilder p bg g', wilder p bl l')"
  by (auto simp: same_change_def wilder_def)

lemma same_change_seed:
  "list_all2 same_change as bs \<Longrightarrow>
   same_change (fdiv (pysum (map fst as)) q, fdiv (pysum (map snd as)) q)
               (fdiv (pysum (map fst bs)) q, fdiv (pysum (map snd bs)) q)"
proof -
  assume a: "list_all2 same_change as bs"
  then have "map snd as = map snd bs \<and> (map fst as = map fst bs \<or> NaN \<in> set (map snd as))"
    by (induction rule: list_all2_induct) (auto simp: same_change_def simp del: set_map)
  then show ?thesis by (auto simp: same_change_def pysum_NaN simp del: set_map)
qed

lemma same_change_step:
  "0 < i \<Longrightarrow> same_change (fmax (fsub (xs ! i) (xs ! (i - 1))) (Fin 0),
                      fmax (fneg (fsub (xs ! i) (xs ! (i - 1)))) (Fin 0))
                     (gain_at xs i, loss_at xs i)"
  by (cases "fsub (xs ! i) (xs ! (i - 1))")
     (auto simp: same_change_def gain_at_def loss_at_def fmax_def Let_def)

definition change_pairs :: "pyfloat list \<Rightarrow> (pyfloat \<times> pyfloat) list" where
  "change_pairs xs = zip (drop 1 (gains_of xs)) (drop 1 (losses_of xs))"

definition rsi_averages :: "int \<Rightarrow> pyfloat list \<Rightarrow> pyfloat \<times> pyfloat" where
  \<comment> \<open>the batch averages after the last of more than \<open>period\<close> closes\<close>
  "rsi_averages period xs =
     (let p = nat period; ps = change_pairs xs in
      foldl (\<lambda>(ag, al) (g, l). (wilder period ag g, wilder period al l))
        (fdiv (pysum (map fst (take p ps))) (fint period), fdiv (pysum (map snd (take p ps))) (fint period))
        (drop p ps))"

lemma length_change_pairs [simp]: "length (change_pairs xs) = length xs - 1"
  by (simp add: change_pairs_def)

lemma change_pairs_snoc:
  "xs \<noteq> [] \<Longrightarrow> change_pairs (xs @ [x]) =
     change_pairs xs @ [(gain_at (xs @ [x]) (length xs), loss_at (xs @ [x]) (length xs))]"
  by (simp add: change_pairs_def gains_of_snoc losses_of_snoc Suc_le_eq)

lemma change_pairs_projections:
  "map fst (change_pairs xs) = drop 1 (gains_of xs)" "map snd (change_pairs xs) = drop 1 (losses_of xs)"
  by (simp_all add: change_pairs_def)

lemma rsi_loop_last:
  "rsi_loop period ag al zs = Inr rs \<Longrightarrow> rsi_value ag al = Inr r \<Longrightarrow>
   (case foldl (\<lambda>(ag, al) (g, l). (wilder period ag g, wilder period al l)) (ag, al) zs of
      (a, b) \<Rightarrow> rsi_value a b) = Inr (last (r # rs))"
proof (induction zs arbitrary: ag al r rs)
  case (Cons z zs)
  obtain g l where z: "z = (g, l)" by (cases z)
  from Cons.prems(1) obtain r' rs' where
    "rsi_value (wilder period ag g) (wilder period al l) = Inr r'"
    "rsi_loop period (wilder period ag g) (wilder period al l) zs = Inr rs'" "rs = r' # rs'"
    by (auto simp: z Let_def bindE_eq_Inr)
  with Cons.IH[of "wilder period ag g" "wilder period al l" rs' r'] show ?case by (simp add: z)
qed simp

lemma rsi_last:
  assumes "rsi xs period = Inr ys" "nat period < length xs"
  shows "\<exists>r. (case rsi_averages period xs of (a, b) \<Rightarrow> rsi_value a b) = Inr r \<and> last ys = Some r"
proof -
  let ?p = "nat period"
  have seeds: "slice 1 (?p + 1) (gains_of xs) = map fst (take ?p (change_pairs xs))"
    "slice 1 (?p + 1) (losses_of xs) = map snd (take ?p (change_pairs xs))"
    by (simp_all add: slice_def take_map[symmetric] change_pairs_projections drop_take)
  have rest: "zip (drop (?p + 1) (gains_of xs)) (drop (?p + 1) (losses_of xs)) = drop ?p (change_pairs xs)"
    by (simp add: change_pairs_def drop_zip)
  have run: "bindE (rsi_value (fdiv (pysum (map fst (take ?p (change_pairs xs)))) (fint period))
           (fdiv (pysum (map snd (take ?p (change_pairs xs)))) (fint period))) (\<lambda>r.
         bindE (rsi_loop period (fdiv (pysum (map fst (take ?p (change_pairs xs)))) (fint period))
           (fdiv (pysum (map snd (take ?p (change_pairs xs)))) (fint period)) (drop ?p (change_pairs xs)))
         (\<lambda>rs. Inr (replicate ?p None @ Some r # map Some rs))) = Inr ys"
    using assms by (auto simp: rsi_def Let_def require_positive_period_def raise_if_def
        seeds[simplified] rest[simplified] split: if_splits)
  then obtain r rs where r:
    "rsi_value (fdiv (pysum (map fst (take ?p (change_pairs xs)))) (fint period))
       (fdiv (pysum (map snd (take ?p (change_pairs xs)))) (fint period)) = Inr r"
    "rsi_loop period (fdiv (pysum (map fst (take ?p (change_pairs xs)))) (fint period))
       (fdiv (pysum (map snd (take ?p (change_pairs xs)))) (fint period)) (drop ?p (change_pairs xs)) = Inr rs"
    "ys = replicate ?p None @ Some r # map Some rs"
    by (auto simp: bindE_eq_Inr)
  have "(case rsi_averages period xs of (a, b) \<Rightarrow> rsi_value a b) = Inr (last (r # rs))"
    unfolding rsi_averages_def Let_def by (rule rsi_loop_last[OF r(2) r(1)])
  moreover have "last ys = Some (last (r # rs))" using r(3) by (simp add: last_map)
  ultimately show ?thesis by blast
qed

definition rsi_agrees :: "int \<Rightarrow> rsi_tracker \<Rightarrow> pyfloat list \<Rightarrow> bool" where
  "rsi_agrees period t xs \<longleftrightarrow>
     rt_period t = period \<and>
     rt_prev_close t = (if xs = [] then None else Some (last xs)) \<and>
     (if length xs \<le> nat period
      then rt_avg_gain t = None \<and> rt_avg_loss t = None \<and> rt_current t = None \<and>
           list_all2 same_change (rt_changes t) (change_pairs xs)
      else \<exists>ag al r. rt_avg_gain t = Some ag \<and> rt_avg_loss t = Some al \<and> rt_current t = Some r \<and>
             same_change (ag, al) (rsi_averages period xs))"

definition rsi_stream :: "rsi_tracker \<Rightarrow> pyfloat \<Rightarrow> rsi_tracker \<times> pyfloat option result" where
  "rsi_stream t v =
     (case rsi_update t v of (t', Inl e) \<Rightarrow> (t', Inl e) | (t', Inr _) \<Rightarrow> (t', Inr (rt_current t')))"

lemma rsi_averages_snoc:
  assumes "nat period < length xs"
  shows "rsi_averages period (xs @ [x]) =
    (case rsi_averages period xs of (ag, al) \<Rightarrow>
       (wilder period ag (gain_at (xs @ [x]) (length xs)), wilder period al (loss_at (xs @ [x]) (length xs))))"
proof -
  have "xs \<noteq> []" "nat period \<le> length xs - 1" using assms by auto
  then show ?thesis by (simp add: rsi_averages_def Let_def change_pairs_snoc split: prod.split)
qed

lemma rsi_set_same:
  assumes "same_change (ag, al) (a, b)" "rsi_value a b = Inr r"
  shows "rsi_set t ag al =
    (t\<lparr>rt_avg_gain := Some ag, rt_avg_loss := Some al, rt_current := Some r\<rparr>, Inr ())"
  using rsi_value_same[OF assms(1)] assms(2) by (simp add: rsi_set_def Let_def)

lemma rsi_eq_warmup:
  "rsi xs period = Inr ys \<Longrightarrow> length xs \<le> nat period \<Longrightarrow> ys = replicate (length xs) None"
  by (auto simp: rsi_def Let_def bindE_eq_Inr split: if_splits)

lemma rsi_agrees_seed:
  assumes "rsi (xs @ [x]) period = Inr ys" "rsi_agrees period t xs" "xs \<noteq> []" "length xs = nat period"
  shows "\<exists>t'. rsi_update t x = (t', Inr ()) \<and> rsi_agrees period t' (xs @ [x]) \<and> rt_current t' = last ys"
proof -
  let ?n = "length xs" and ?xs = "xs @ [x]"
  let ?b = "(gain_at ?xs ?n, loss_at ?xs ?n)"
  let ?a = "(fmax (fsub x (last xs)) (Fin 0), fmax (fneg (fsub x (last xs))) (Fin 0))"
  note ne = assms(3)
  have p: "0 < period" using assms(1) by (auto simp: rsi_def bindE_eq_Inr require_positive_period_def)
  have st: "same_change ?a ?b"
    using same_change_step[of ?n ?xs] ne by (simp add: nth_append last_conv_nth)
  have pc: "rt_prev_close t = Some (last xs)" "rt_period t = period"
    using assms(2) ne by (auto simp: rsi_agrees_def)
  have l2: "list_all2 same_change (rt_changes t) (change_pairs xs)"
    and none: "rt_avg_gain t = None" "rt_avg_loss t = None" "rt_current t = None"
    using assms(2) assms(4) by (auto simp: rsi_agrees_def)
  have all: "list_all2 same_change (rt_changes t @ [?a]) (change_pairs ?xs)"
    using l2 st ne by (simp add: change_pairs_snoc list_all2_appendI)
  have len: "int (length (rt_changes t @ [?a])) = period"
    using list_all2_lengthD[OF l2] assms(4) ne p by (simp add: Suc_le_eq of_nat_diff)
  have av: "rsi_averages period ?xs =
      (fdiv (pysum (map fst (change_pairs ?xs))) (fint period), fdiv (pysum (map snd (change_pairs ?xs))) (fint period))"
    using assms(4) ne by (simp add: rsi_averages_def Let_def)
  obtain r where r: "(case rsi_averages period ?xs of (a, b) \<Rightarrow> rsi_value a b) = Inr r" "last ys = Some r"
    using rsi_last[OF assms(1)] assms(4) by auto
  have "rsi_update t x =
      rsi_set (t\<lparr>rt_prev_close := Some x, rt_changes := rt_changes t @ [?a]\<rparr>)
        (fdiv (pysum (map fst (rt_changes t @ [?a]))) (fint period))
        (fdiv (pysum (map snd (rt_changes t @ [?a]))) (fint period))"
    using pc none len by (simp add: rsi_update_def Let_def)
  also have "\<dots> = (t\<lparr>rt_prev_close := Some x, rt_changes := rt_changes t @ [?a],
         rt_avg_gain := Some (fdiv (pysum (map fst (rt_changes t @ [?a]))) (fint period)),
         rt_avg_loss := Some (fdiv (pysum (map snd (rt_changes t @ [?a]))) (fint period)),
         rt_current := Some r\<rparr>, Inr ())"
    using rsi_set_same[OF same_change_seed[OF all]] r(1) av by simp
  finally show ?thesis using assms(4) ne pc r(2) same_change_seed[OF all, of "fint period"] av
    by (auto simp: rsi_agrees_def)
qed

lemma rsi_agrees_smooth:
  assumes "rsi (xs @ [x]) period = Inr ys" "rsi_agrees period t xs" "xs \<noteq> []" "nat period < length xs"
  shows "\<exists>t'. rsi_update t x = (t', Inr ()) \<and> rsi_agrees period t' (xs @ [x]) \<and> rt_current t' = last ys"
proof -
  let ?n = "length xs" and ?xs = "xs @ [x]"
  let ?b = "(gain_at ?xs ?n, loss_at ?xs ?n)"
  let ?a = "(fmax (fsub x (last xs)) (Fin 0), fmax (fneg (fsub x (last xs))) (Fin 0))"
  note ne = assms(3)
  have p: "0 < period" using assms(1) by (auto simp: rsi_def bindE_eq_Inr require_positive_period_def)
  have st: "same_change ?a ?b"
    using same_change_step[of ?n ?xs] ne by (simp add: nth_append last_conv_nth)
  have pc: "rt_prev_close t = Some (last xs)" "rt_period t = period"
    using assms(2) ne by (auto simp: rsi_agrees_def)
  obtain ag al where ag: "rt_avg_gain t = Some ag" "rt_avg_loss t = Some al"
    "same_change (ag, al) (rsi_averages period xs)"
    using assms(2) assms(4) by (auto simp: rsi_agrees_def)
  obtain bg bl where b: "rsi_averages period xs = (bg, bl)" by fastforce
  obtain r where r: "(case rsi_averages period ?xs of (a, b) \<Rightarrow> rsi_value a b) = Inr r" "last ys = Some r"
    using rsi_last[OF assms(1)] assms(4) by auto
  have w: "same_change (wilder period ag (fst ?a), wilder period al (snd ?a)) (rsi_averages period ?xs)"
    using same_change_wilder[OF ag(3)[unfolded b], of "fst ?a" "snd ?a"] st assms(4) b
    by (simp add: rsi_averages_snoc)
  then show ?thesis using assms(4) ne pc ag r rsi_set_same[of "wilder period ag (fst ?a)"
      "wilder period al (snd ?a)" "fst (rsi_averages period ?xs)" "snd (rsi_averages period ?xs)" r]
    by (auto simp: rsi_update_def Let_def rsi_agrees_def split: prod.splits)
qed

lemma rsi_agrees_update:
  assumes "rsi (xs @ [x]) period = Inr ys" "rsi_agrees period t xs"
  shows "\<exists>t'. rsi_update t x = (t', Inr ()) \<and> rsi_agrees period t' (xs @ [x]) \<and> rt_current t' = last ys"
proof (cases "xs = []")
  case True
  have p: "0 < period" using assms(1) by (auto simp: rsi_def bindE_eq_Inr require_positive_period_def)
  have "ys = [None]" using rsi_eq_warmup[OF assms(1)] True p by simp
  with True assms(2) p show ?thesis
    by (auto simp: rsi_agrees_def rsi_update_def change_pairs_def gains_of_def)
next
  case ne: False
  have p: "0 < period" using assms(1) by (auto simp: rsi_def bindE_eq_Inr require_positive_period_def)
  let ?n = "length xs" and ?xs = "xs @ [x]"
  let ?b = "(gain_at ?xs ?n, loss_at ?xs ?n)"
  let ?a = "(fmax (fsub x (last xs)) (Fin 0), fmax (fneg (fsub x (last xs))) (Fin 0))"
  have st: "same_change ?a ?b"
    using same_change_step[of ?n ?xs] ne by (simp add: nth_append last_conv_nth)
  have pc: "rt_prev_close t = Some (last xs)" "rt_period t = period"
    using assms(2) ne by (auto simp: rsi_agrees_def)
  consider "?n < nat period" | "?n = nat period" | "nat period < ?n" by linarith
  then show ?thesis
  proof cases
    case 1
    have l2: "list_all2 same_change (rt_changes t) (change_pairs xs)"
      and none: "rt_avg_gain t = None" "rt_avg_loss t = None" "rt_current t = None"
      using assms(2) 1 by (auto simp: rsi_agrees_def)
    have "list_all2 same_change (rt_changes t @ [?a]) (change_pairs ?xs)"
      using l2 st ne by (simp add: change_pairs_snoc list_all2_appendI)
    moreover have "length (rt_changes t) = ?n - 1" using list_all2_lengthD[OF l2] by simp
    moreover have "last ys = None" using rsi_eq_warmup[OF assms(1)] 1 by simp
    ultimately show ?thesis using 1 ne pc none
      by (auto simp: rsi_update_def Let_def rsi_agrees_def)
  next
    case 2
    with assms ne show ?thesis by (intro rsi_agrees_seed)
  next
    case 3
    with assms ne show ?thesis by (intro rsi_agrees_smooth)
  qed
qed

interpretation rsi_tracker: streaming_series "\<lambda>xs. rsi xs period" "rsi_tracker_init period" rsi_stream
  "rsi_agrees period" for period
proof unfold_locales
  show "rsi_agrees period (rsi_tracker_init period) []"
    by (simp add: rsi_agrees_def rsi_tracker_init_def change_pairs_def gains_of_def)
next
  fix xs x ys t
  assume "rsi (xs @ [x]) period = Inr ys" "rsi_agrees period t xs"
  from rsi_agrees_update[OF this]
  show "\<exists>t'. rsi_stream t x = (t', Inr (last ys)) \<and> rsi_agrees period t' (xs @ [x])"
    by (auto simp: rsi_stream_def)
qed
section \<open>The strategy is the crossing rule on the batch series\<close>

definition baseline_series :: "ema_rsi_config \<Rightarrow> candle list \<Rightarrow> signal list result" where
  \<comment> \<open>the signals the batch indicators give: bar \<open>i\<close> compares the averages at \<open>i - 1\<close> and \<open>i\<close>\<close>
  "baseline_series cfg cs =
     bindE (ema (map c_close cs) (ec_fast cfg)) (\<lambda>f.
     bindE (ema (map c_close cs) (ec_slow cfg)) (\<lambda>s.
     bindE (rsi (map c_close cs) (ec_rsi_period cfg)) (\<lambda>r.
       Inr (map (\<lambda>i. cross_signal (ec_rsi_exit cfg) (timestamp_ms (cs ! i))
                     (last_opt (take i f)) (f ! i) (last_opt (take i s)) (s ! i) (r ! i))
              [0..<length cs]))))"

definition baseline_agrees :: "ema_rsi_config \<Rightarrow> ema_rsi_baseline \<Rightarrow> candle list \<Rightarrow> bool" where
  "baseline_agrees cfg b cs \<longleftrightarrow>
     eb_config b = cfg \<and>
     ema_agrees (ec_fast cfg) (eb_fast b) (map c_close cs) \<and>
     ema_agrees (ec_slow cfg) (eb_slow b) (map c_close cs) \<and>
     rsi_agrees (ec_rsi_period cfg) (eb_rsi b) (map c_close cs)"

definition baseline_fresh :: "ema_rsi_config \<Rightarrow> ema_rsi_baseline" where
  "baseline_fresh cfg =
     \<lparr>eb_config = cfg, eb_fast = ema_fresh (ec_fast cfg), eb_slow = ema_fresh (ec_slow cfg),
      eb_rsi = rsi_tracker_init (ec_rsi_period cfg)\<rparr>"

lemma baseline_series_Inr:
  "baseline_series cfg cs = Inr ys \<longleftrightarrow>
     (\<exists>f s r. ema (map c_close cs) (ec_fast cfg) = Inr f \<and> ema (map c_close cs) (ec_slow cfg) = Inr s \<and>
        rsi (map c_close cs) (ec_rsi_period cfg) = Inr r \<and>
        ys = map (\<lambda>i. cross_signal (ec_rsi_exit cfg) (timestamp_ms (cs ! i))
                    (last_opt (take i f)) (f ! i) (last_opt (take i s)) (s ! i) (r ! i))
              [0..<length cs])"
  by (auto simp: baseline_series_def bindE_eq_Inr)

lemma last_take_butlast: "length ys = Suc n \<Longrightarrow> take n ys = butlast ys \<and> ys ! n = last ys \<and> last_opt ys = last ys"
  by (cases ys rule: rev_cases) (auto simp: last_opt_def)

interpretation baseline: streaming_series "baseline_series cfg" "baseline_fresh cfg" on_candle
  "baseline_agrees cfg" for cfg
proof unfold_locales
  fix cs ys
  assume "baseline_series cfg cs = Inr ys"
  then show "length ys = length cs" by (auto simp: baseline_series_Inr)
next
  fix cs c ys
  assume "baseline_series cfg (cs @ [c]) = Inr ys"
  then obtain f s r where i: "ema (map c_close cs @ [c_close c]) (ec_fast cfg) = Inr f"
    "ema (map c_close cs @ [c_close c]) (ec_slow cfg) = Inr s"
    "rsi (map c_close cs @ [c_close c]) (ec_rsi_period cfg) = Inr r"
    and ys: "ys = map (\<lambda>i. cross_signal (ec_rsi_exit cfg) (timestamp_ms ((cs @ [c]) ! i))
        (last_opt (take i f)) (f ! i) (last_opt (take i s)) (s ! i) (r ! i)) [0..<Suc (length cs)]"
    by (auto simp: baseline_series_Inr)
  have len: "length f = Suc (length cs)" "length s = Suc (length cs)" "length r = Suc (length cs)"
    using i by (auto dest!: ema_length rsi_length)
  have "butlast ys = map (\<lambda>i. cross_signal (ec_rsi_exit cfg) (timestamp_ms (cs ! i))
      (last_opt (take i (butlast f))) (butlast f ! i) (last_opt (take i (butlast s))) (butlast s ! i)
      (butlast r ! i)) [0..<length cs]"
    using len by (auto simp: ys nth_append nth_butlast take_butlast)
  then show "baseline_series cfg cs = Inr (butlast ys)"
    using ema_snoc[OF i(1)] ema_snoc[OF i(2)] rsi_snoc[OF i(3)] by (simp add: baseline_series_Inr)
next
  show "baseline_agrees cfg (baseline_fresh cfg) []"
    using ema_tracker.agrees_init rsi_tracker.agrees_init
    by (simp add: baseline_agrees_def baseline_fresh_def)
next
  fix cs c ys b
  assume a: "baseline_series cfg (cs @ [c]) = Inr ys" and b: "baseline_agrees cfg b cs"
  let ?v = "map c_close cs"
  from a obtain f s r where i: "ema (?v @ [c_close c]) (ec_fast cfg) = Inr f"
    "ema (?v @ [c_close c]) (ec_slow cfg) = Inr s" "rsi (?v @ [c_close c]) (ec_rsi_period cfg) = Inr r"
    and ys: "last ys = cross_signal (ec_rsi_exit cfg) (timestamp_ms c) (last_opt (take (length cs) f))
      (f ! length cs) (last_opt (take (length cs) s)) (s ! length cs) (r ! length cs)"
    by (auto simp: baseline_series_Inr)
  have len: "length f = Suc (length cs)" "length s = Suc (length cs)" "length r = Suc (length cs)"
    using i by (auto dest!: ema_length rsi_length)
  have p: "0 < ec_fast cfg" "0 < ec_slow cfg" using i by (auto simp: ema_eq)
  have ef: "ema_agrees (ec_fast cfg) (ema_update (eb_fast b) (c_close c)) (?v @ [c_close c])"
    and es: "ema_agrees (ec_slow cfg) (ema_update (eb_slow b) (c_close c)) (?v @ [c_close c])"
    using b p by (auto simp: baseline_agrees_def intro: ema_agrees_update)
  have rb: "rsi_agrees (ec_rsi_period cfg) (eb_rsi b) ?v" using b by (simp add: baseline_agrees_def)
  obtain r' where r': "rsi_update (eb_rsi b) (c_close c) = (r', Inr ())"
    "rsi_agrees (ec_rsi_period cfg) r' (?v @ [c_close c])" "rt_current r' = last r"
    using rsi_agrees_update[OF i(3) rb] by blast
  have cur: "et_current (ema_update (eb_fast b) (c_close c)) = last f"
    "et_prev (ema_update (eb_fast b) (c_close c)) = last_opt (butlast f)"
    "et_current (ema_update (eb_slow b) (c_close c)) = last s"
    "et_prev (ema_update (eb_slow b) (c_close c)) = last_opt (butlast s)"
    using ef es i p last_take_butlast[OF len(1)] last_take_butlast[OF len(2)] by (auto simp: ema_agrees_def)
  have l: "last ys = cross_signal (ec_rsi_exit cfg) (timestamp_ms c) (last_opt (butlast f)) (last f)
      (last_opt (butlast s)) (last s) (last r)"
    using ys last_take_butlast[OF len(1)] last_take_butlast[OF len(2)] last_take_butlast[OF len(3)] by simp
  have "eb_config b = cfg" using b by (simp add: baseline_agrees_def)
  then show "\<exists>b'. on_candle b c = (b', Inr (last ys)) \<and> baseline_agrees cfg b' (cs @ [c])"
    using r' ef es cur l by (simp add: on_candle_def Let_def baseline_agrees_def)
qed
lemma baseline_init_fresh: "baseline_init cfg = Inr b \<Longrightarrow> b = baseline_fresh cfg"
  by (auto simp: baseline_init_def baseline_fresh_def bindE_eq_Inr ema_tracker_init_def ema_fresh_def
      ema_alpha_def pdiv_Inr)

text \<open>
  C15 Feeding the baseline strategy candle by candle gives exactly the signals of the
  crossing rule evaluated on the batch EMA and RSI series, warm-up included, so a signal at
  a bar is a function of the candles up to that bar.
\<close>

theorem baseline_is_crossing_rule:
  assumes "baseline_init cfg = Inr b" "baseline_series cfg cs = Inr sigs"
  shows "snd (run_tracker on_candle b cs) = Inr sigs \<and>
    snd (run_tracker on_candle b (take n cs)) = Inr (take n sigs)"
  using baseline.tracker_equals_batch[OF assms(2)]
    baseline.tracker_equals_batch[OF baseline.ind_take[OF assms(2), of n]] baseline_init_fresh[OF assms(1)]
  by simp

definition example_config :: ema_rsi_config where
  "example_config = \<lparr>ec_fast = 1, ec_slow = 2, ec_rsi_period = 1, ec_rsi_exit = Fin 100\<rparr>"

definition example_candles :: "candle list" where
  "example_candles = [example_candle 0 8, example_candle 900000 4, example_candle 1800000 16]"

theorem baseline_is_crossing_rule_witness:
  "snd (run_tracker on_candle (baseline_fresh example_config) example_candles) =
     Inr [make_signal 0 HOLD ''warmup'', make_signal 900000 HOLD ''warmup'',
          make_signal 1800000 BUY ''ema_cross_up''] \<and>
   snd (run_tracker on_candle (baseline_fresh example_config) (take 2 example_candles)) =
     Inr (take 2 [make_signal 0 HOLD ''warmup'', make_signal 900000 HOLD ''warmup'',
          make_signal 1800000 BUY ''ema_cross_up''])"
proof (rule baseline_is_crossing_rule)
  show "baseline_init example_config = Inr (baseline_fresh example_config)" by code_simp
  show "baseline_series example_config example_candles =
     Inr [make_signal 0 HOLD ''warmup'', make_signal 900000 HOLD ''warmup'',
          make_signal 1800000 BUY ''ema_cross_up'']" by code_simp
qed

end
