(* ===== verification/Regime.thy ===== *)
theory Regime
  imports Indicators "HOL-Library.AList"
begin

text \<open>
  The market regime: the classifier of \<open>domain/market/regime.py\<close> and the confirmation
  tracker of \<open>application/services/regime_confirmation.py\<close>.  The evidence dict of the
  tracker is an association list in insertion order (\<open>AList.update\<close> replaces in place and
  appends a new key, as a Python dict does).
\<close>

section \<open>The classifier\<close>

datatype market_regime = TREND_UP | TREND_DOWN | SIDEWAYS | HIGH_VOLATILITY | LOW_VOLATILITY | BREAKOUT

fun regime_name :: "market_regime \<Rightarrow> string" where
  "regime_name TREND_UP = ''TREND_UP''"
| "regime_name TREND_DOWN = ''TREND_DOWN''"
| "regime_name SIDEWAYS = ''SIDEWAYS''"
| "regime_name HIGH_VOLATILITY = ''HIGH_VOLATILITY''"
| "regime_name LOW_VOLATILITY = ''LOW_VOLATILITY''"
| "regime_name BREAKOUT = ''BREAKOUT''"

lemma regime_name_inj [simp]: "regime_name r = regime_name s \<longleftrightarrow> r = s"
  by (cases r; cases s) auto

record regime_config =
  rg_ema_fast :: int
  rg_ema_slow :: int
  rg_vol_window :: int
  rg_vol_baseline :: int
  rg_breakout_lookback :: int
  rg_high_vol :: pyfloat
  rg_low_vol :: pyfloat
  rg_trend :: pyfloat

definition is_breakout :: "candle list \<Rightarrow> regime_config \<Rightarrow> bool result" where
  "is_breakout cs cfg =
     (let start = nat (max 0 (int (length cs) - rg_breakout_lookback cfg - 1));
          prior = slice start (length cs - 1) cs
      in if prior = [] then Inr False
         else bindE (fmax_list (map c_high prior)) (\<lambda>hi.
              bindE (fmin_list (map c_low prior)) (\<lambda>lo.
                Inr (flt hi (c_close (last cs)) \<or> flt (c_close (last cs)) lo))))"

definition volatility_ratio ::
  "(pyfloat \<Rightarrow> pyfloat \<Rightarrow> pyfloat result) \<Rightarrow> candle list \<Rightarrow> regime_config \<Rightarrow> pyfloat option result" where
  "volatility_ratio pow_fn cs cfg =
     bindE (realized_volatility pow_fn (map c_close cs) (rg_vol_window cfg)) (\<lambda>vol.
       case last_opt vol of
         None \<Rightarrow> Inr None
       | Some vol_now \<Rightarrow>
           let baseline_start = nat (max 0 (int (length cs) - rg_vol_baseline cfg));
               window = defined_values (slice baseline_start (length cs) vol)
           in if length window < 2 then Inr (Some (Fin 1))
              else let baseline = fdiv (pysum window) (fint (int (length window)))
                   in if feq baseline (Fin 0) then Inr (Some (Fin 1))
                      else bindE (pdiv vol_now baseline) (\<lambda>r. Inr (Some r)))"

definition regime_trend :: "candle list \<Rightarrow> regime_config \<Rightarrow> pyfloat option result" where
  "regime_trend cs cfg =
     bindE (ema (map c_close cs) (rg_ema_fast cfg)) (\<lambda>fs.
     bindE (ema (map c_close cs) (rg_ema_slow cfg)) (\<lambda>ss.
       case (last_opt fs, last_opt ss) of
         (Some fast, Some slow) \<Rightarrow>
           if feq slow (Fin 0) then Inr None
           else bindE (pdiv (fsub fast slow) slow) (\<lambda>t. Inr (Some t))
       | _ \<Rightarrow> Inr None))"

definition trend_regime :: "regime_config \<Rightarrow> pyfloat option \<Rightarrow> market_regime" where
  \<comment> \<open>the last part of \<open>classify\<close>\<close>
  "trend_regime cfg tr =
     (case tr of
        None \<Rightarrow> SIDEWAYS
      | Some t \<Rightarrow> if flt (rg_trend cfg) t then TREND_UP
                  else if flt t (fneg (rg_trend cfg)) then TREND_DOWN else SIDEWAYS)"

definition classify ::
  "(pyfloat \<Rightarrow> pyfloat \<Rightarrow> pyfloat result) \<Rightarrow> regime_config \<Rightarrow> candle list \<Rightarrow> market_regime option result" where
  "classify pow_fn cfg cs =
     (if length cs < 2 then Inr None
      else bindE (is_breakout cs cfg) (\<lambda>brk.
        if brk then Inr (Some BREAKOUT)
        else bindE (volatility_ratio pow_fn cs cfg) (\<lambda>vr.
          case vr of
            Some r \<Rightarrow>
              if fle (rg_high_vol cfg) r then Inr (Some HIGH_VOLATILITY)
              else if fle r (rg_low_vol cfg) then Inr (Some LOW_VOLATILITY)
              else bindE (regime_trend cs cfg) (\<lambda>t. Inr (Some (trend_regime cfg t)))
          | None \<Rightarrow> bindE (regime_trend cs cfg) (\<lambda>t. Inr (Some (trend_regime cfg t))))))"

section \<open>The confirmation tracker\<close>

record regime_evidence =
  re_name :: string
  re_symbol :: string
  re_timeframe :: string
  re_first_seen :: int
  re_confirmed :: int
  re_last_seen :: int
  re_classifier_version :: string
  re_confirmation_candles :: int

record regime_tracker =
  rc_symbol :: string
  rc_timeframe :: string
  rc_candles :: int
  rc_pending_name :: "string option"
  rc_pending_first :: "int option"
  rc_pending_count :: int
  rc_evidence :: "(string \<times> regime_evidence) list"
  rc_rejected :: int

definition regime_tracker_init :: "string \<Rightarrow> string \<Rightarrow> int \<Rightarrow> regime_tracker result" where
  "regime_tracker_init symbol tf n =
     (if n < 1 then Inl (ValueError ''confirmation_candles must be positive'')
      else Inr \<lparr>rc_symbol = symbol, rc_timeframe = tf, rc_candles = n, rc_pending_name = None,
                rc_pending_first = None, rc_pending_count = 0, rc_evidence = [], rc_rejected = 0\<rparr>)"

definition reset_pending :: "regime_tracker \<Rightarrow> bool \<Rightarrow> regime_tracker" where
  "reset_pending t rejected =
     t\<lparr>rc_rejected := rc_rejected t + (if rejected \<and> rc_pending_name t \<noteq> None then 1 else 0),
       rc_pending_name := None, rc_pending_first := None, rc_pending_count := 0\<rparr>"

definition int_or :: "int option \<Rightarrow> int \<Rightarrow> int" where
  \<comment> \<open>\<open>x or default\<close>: None and 0 are both false\<close>
  "int_or x d = (case x of None \<Rightarrow> d | Some n \<Rightarrow> if n = 0 then d else n)"

definition count_candidate :: "regime_tracker \<Rightarrow> string \<Rightarrow> int \<Rightarrow> regime_tracker" where
  "count_candidate t name ts =
     (if Some name \<noteq> rc_pending_name t then
        (reset_pending t (rc_pending_count t < rc_candles t))
          \<lparr>rc_pending_name := Some name, rc_pending_first := Some ts, rc_pending_count := 1\<rparr>
      else t\<lparr>rc_pending_count := rc_pending_count t + 1\<rparr>)"

definition confirm_candidate :: "regime_tracker \<Rightarrow> string \<Rightarrow> int \<Rightarrow> regime_tracker" where
  "confirm_candidate t name ts =
     (if rc_pending_count t < rc_candles t then t
      else case map_of (rc_evidence t) name of
        None \<Rightarrow> t\<lparr>rc_evidence := AList.update name
            \<lparr>re_name = name, re_symbol = rc_symbol t, re_timeframe = rc_timeframe t,
             re_first_seen = int_or (rc_pending_first t) ts, re_confirmed = ts, re_last_seen = ts,
             re_classifier_version = ''regime-v1'', re_confirmation_candles = rc_candles t\<rparr> (rc_evidence t)\<rparr>
      | Some ev \<Rightarrow> t\<lparr>rc_evidence := AList.update name (ev\<lparr>re_last_seen := ts\<rparr>) (rc_evidence t)\<rparr>)"

definition observe :: "regime_tracker \<Rightarrow> market_regime option \<times> int \<Rightarrow> regime_tracker" where
  "observe t o_ts =
     (case o_ts of
        (None, ts) \<Rightarrow> reset_pending t (rc_pending_count t < rc_candles t)
      | (Some r, ts) \<Rightarrow> confirm_candidate (count_candidate t (regime_name r) ts) (regime_name r) ts)"

definition evidence :: "regime_tracker \<Rightarrow> regime_evidence list" where
  "evidence t = map snd (rc_evidence t)"

section \<open>A regime is confirmed exactly by a run of observations\<close>

definition trailing :: "market_regime \<Rightarrow> (market_regime option \<times> int) list \<Rightarrow> nat" where
  "trailing r obs = length (takeWhile (\<lambda>x. fst x = Some r) (rev obs))"

lemma trailing_snoc: "trailing r (obs @ [x]) = (if fst x = Some r then Suc (trailing r obs) else 0)"
  by (simp add: trailing_def)

lemma trailing_Nil [simp]: "trailing r [] = 0"
  by (simp add: trailing_def)

lemma trailing_ge:
  "n \<le> trailing r obs \<longleftrightarrow>
     (\<exists>as bs. obs = as @ bs \<and> length bs = n \<and> list_all (\<lambda>x. fst x = Some r) bs)"
proof (induction obs arbitrary: n rule: rev_induct)
  case (snoc x xs)
  show ?case
  proof (cases n)
    case 0
    then show ?thesis by simp
  next
    case (Suc m)
    have "(\<exists>as bs. xs @ [x] = as @ bs \<and> length bs = Suc m \<and> list_all (\<lambda>x. fst x = Some r) bs) \<longleftrightarrow>
      fst x = Some r \<and> (\<exists>as bs. xs = as @ bs \<and> length bs = m \<and> list_all (\<lambda>x. fst x = Some r) bs)"
      (is "?L = ?R")
    proof
      assume ?L
      then obtain as bs where b: "xs @ [x] = as @ bs" "length bs = Suc m" "list_all (\<lambda>x. fst x = Some r) bs"
        by blast
      then obtain cs y where "bs = cs @ [y]" by (metis length_Suc_conv_rev)
      with b show ?R by auto
    next
      assume ?R
      then obtain as bs where "fst x = Some r" "xs = as @ bs" "length bs = m" "list_all (\<lambda>x. fst x = Some r) bs"
        by blast
      then have "xs @ [x] = as @ (bs @ [x]) \<and> length (bs @ [x]) = Suc m \<and> list_all (\<lambda>x. fst x = Some r) (bs @ [x])"
        by simp
      then show ?L by blast
    qed
    with Suc snoc.IH[of m] show ?thesis by (simp add: trailing_snoc)
  qed
qed simp

definition confirmed_in :: "int \<Rightarrow> market_regime \<Rightarrow> (market_regime option \<times> int) list \<Rightarrow> bool" where
  "confirmed_in n r obs \<longleftrightarrow> (\<exists>k \<le> length obs. n \<le> int (trailing r (take k obs)))"

lemma confirmed_in_snoc:
  "confirmed_in n r (obs @ [x]) \<longleftrightarrow> confirmed_in n r obs \<or> n \<le> int (trailing r (obs @ [x]))"
proof -
  have "confirmed_in n r (obs @ [x]) \<longleftrightarrow>
      (\<exists>k \<le> length obs. n \<le> int (trailing r (take k (obs @ [x])))) \<or>
      n \<le> int (trailing r (take (Suc (length obs)) (obs @ [x])))"
    unfolding confirmed_in_def by (auto simp: le_Suc_eq)
  also have "(\<exists>k \<le> length obs. n \<le> int (trailing r (take k (obs @ [x])))) \<longleftrightarrow> confirmed_in n r obs"
    unfolding confirmed_in_def by (auto cong: conj_cong)
  finally show ?thesis by simp
qed

definition tracks :: "int \<Rightarrow> regime_tracker \<Rightarrow> (market_regime option \<times> int) list \<Rightarrow> bool" where
  "tracks n t obs \<longleftrightarrow>
     rc_candles t = n \<and>
     (\<forall>r. rc_pending_name t = Some (regime_name r) \<longleftrightarrow> 0 < trailing r obs) \<and>
     (\<forall>r. 0 < trailing r obs \<longrightarrow> rc_pending_count t = int (trailing r obs)) \<and>
     (\<forall>r. map_of (rc_evidence t) (regime_name r) \<noteq> None \<longleftrightarrow> confirmed_in n r obs)"

lemma tracks_count:
  assumes "tracks n t obs"
  shows "rc_pending_name (count_candidate t (regime_name r) ts) = Some (regime_name r)"
    and "rc_pending_count (count_candidate t (regime_name r) ts) = int (trailing r (obs @ [(Some r, ts)]))"
    and "rc_evidence (count_candidate t (regime_name r) ts) = rc_evidence t"
    and "rc_candles (count_candidate t (regime_name r) ts) = n"
proof -
  have a: "rc_pending_name t = Some (regime_name r) \<longleftrightarrow> 0 < trailing r obs"
    "0 < trailing r obs \<Longrightarrow> rc_pending_count t = int (trailing r obs)" "rc_candles t = n"
    using assms by (auto simp: tracks_def)
  show "rc_pending_name (count_candidate t (regime_name r) ts) = Some (regime_name r)"
    "rc_evidence (count_candidate t (regime_name r) ts) = rc_evidence t"
    "rc_candles (count_candidate t (regime_name r) ts) = n"
    using a(3) by (auto simp: count_candidate_def reset_pending_def)
  show "rc_pending_count (count_candidate t (regime_name r) ts) = int (trailing r (obs @ [(Some r, ts)]))"
    using a by (cases "0 < trailing r obs") (auto simp: count_candidate_def trailing_snoc)
qed

lemma confirm_fields [simp]:
  "rc_pending_name (confirm_candidate t name ts) = rc_pending_name t"
  "rc_pending_count (confirm_candidate t name ts) = rc_pending_count t"
  "rc_candles (confirm_candidate t name ts) = rc_candles t"
  by (simp_all add: confirm_candidate_def split: option.split)

lemma confirm_evidence:
  "map_of (rc_evidence (confirm_candidate t name ts)) k \<noteq> None \<longleftrightarrow>
     map_of (rc_evidence t) k \<noteq> None \<or> (k = name \<and> rc_candles t \<le> rc_pending_count t)"
  by (auto simp: confirm_candidate_def update_conv' split: option.split)

lemma tracks_observe:
  assumes n: "1 \<le> n" and t: "tracks n t obs"
  shows "tracks n (observe t x) (obs @ [x])"
proof (cases x)
  case (Pair o_r ts)
  show ?thesis
  proof (cases o_r)
    case None
    have "\<not> n \<le> int (trailing r (obs @ [x]))" for r using n Pair None by (simp add: trailing_snoc)
    with t Pair None show ?thesis
      by (simp add: tracks_def confirmed_in_snoc observe_def reset_pending_def trailing_snoc)
  next
    case (Some r)
    let ?c = "count_candidate t (regime_name r) ts"
    have o: "observe t (Some r, ts) = confirm_candidate ?c (regime_name r) ts" by (simp add: observe_def)
    have x: "x = (Some r, ts)" using Pair Some by simp
    have other: "trailing s (obs @ [(Some r, ts)]) = 0" if "s \<noteq> r" for s
      using that by (simp add: trailing_snoc)
    have pos: "0 < trailing r (obs @ [(Some r, ts)])" by (simp add: trailing_snoc)
    have ev: "map_of (rc_evidence (observe t x)) (regime_name s) \<noteq> None \<longleftrightarrow>
        confirmed_in n s obs \<or> n \<le> int (trailing s (obs @ [x]))" for s
    proof -
      have "map_of (rc_evidence t) (regime_name s) \<noteq> None \<longleftrightarrow> confirmed_in n s obs"
        using t by (simp only: tracks_def)
      moreover have "regime_name s = regime_name r \<and> n \<le> int (trailing r (obs @ [(Some r, ts)])) \<longleftrightarrow>
          n \<le> int (trailing s (obs @ [x]))"
        unfolding x using n by (cases "s = r") (simp_all add: other)
      ultimately show ?thesis unfolding x o confirm_evidence tracks_count[OF t] by blast
    qed
    have "rc_pending_name (observe t x) = Some (regime_name s) \<longleftrightarrow> 0 < trailing s (obs @ [x])" for s
      unfolding o confirm_fields tracks_count(1)[OF t] x using pos by (cases "s = r") (simp_all add: other)
    moreover have "rc_pending_count (observe t x) = int (trailing s (obs @ [x]))"
      if "0 < trailing s (obs @ [x])" for s
      using that unfolding o confirm_fields tracks_count(2)[OF t] x by (cases "s = r") (simp_all add: other)
    moreover have "rc_candles (observe t x) = n"
      using tracks_count(4)[OF t] by (simp add: o x)
    ultimately show ?thesis using ev by (simp only: tracks_def confirmed_in_snoc) blast
  qed
qed

lemma tracks_init: "regime_tracker_init symbol tf n = Inr t \<Longrightarrow> 1 \<le> n \<and> tracks n t []"
  by (auto simp: regime_tracker_init_def tracks_def confirmed_in_def split: if_splits)

lemma tracks_run: "1 \<le> n \<Longrightarrow> tracks n t pre \<Longrightarrow> tracks n (foldl observe t obs) (pre @ obs)"
proof (induction obs arbitrary: t pre)
  case (Cons x xs)
  then have "tracks n (foldl observe (observe t x) xs) ((pre @ [x]) @ xs)" by (intro Cons.IH tracks_observe)
  then show ?case by simp
qed simp

text \<open>
  C39 The tracker holds evidence of a regime exactly when that regime was observed in
  \<open>confirmation_candles\<close> consecutive candles; an interrupted run never confirms it.
\<close>

theorem regime_confirmed_iff:
  assumes "regime_tracker_init symbol tf n = Inr t"
  shows "map_of (rc_evidence (foldl observe t obs)) (regime_name r) \<noteq> None \<longleftrightarrow>
    (\<exists>as bs cs. obs = as @ bs @ cs \<and> length bs = nat n \<and> list_all (\<lambda>x. fst x = Some r) bs)"
proof -
  have n: "1 \<le> n" and "tracks n (foldl observe t obs) obs"
    using tracks_init[OF assms] tracks_run[of n t "[]" obs] by auto
  then have "map_of (rc_evidence (foldl observe t obs)) (regime_name r) \<noteq> None \<longleftrightarrow>
      (\<exists>k \<le> length obs. nat n \<le> trailing r (take k obs))"
    by (simp add: tracks_def confirmed_in_def nat_le_iff)
  also have "\<dots> \<longleftrightarrow> (\<exists>as bs cs. obs = as @ bs @ cs \<and> length bs = nat n \<and> list_all (\<lambda>x. fst x = Some r) bs)"
    (is "?L \<longleftrightarrow> ?R")
  proof
    assume ?L
    then obtain k as bs where "take k obs = as @ bs" "length bs = nat n" "list_all (\<lambda>x. fst x = Some r) bs"
      by (auto simp: trailing_ge)
    then have "obs = as @ bs @ drop k obs \<and> length bs = nat n \<and> list_all (\<lambda>x. fst x = Some r) bs"
      by (metis append.assoc append_take_drop_id)
    then show ?R by blast
  next
    assume ?R
    then obtain as bs cs where o: "obs = as @ bs @ cs" "length bs = nat n" "list_all (\<lambda>x. fst x = Some r) bs"
      by blast
    then have "take (length as + length bs) obs = as @ bs" by simp
    moreover have "nat n \<le> trailing r (as @ bs)" using o by (auto simp: trailing_ge)
    ultimately show ?L using o by (intro exI[of _ "length as + length bs"]) auto
  qed
  finally show ?thesis .
qed

definition example_tracker :: regime_tracker where
  "example_tracker =
     \<lparr>rc_symbol = ''ETHUSDT'', rc_timeframe = ''15m'', rc_candles = 2, rc_pending_name = None,
      rc_pending_first = None, rc_pending_count = 0, rc_evidence = [], rc_rejected = 0\<rparr>"

theorem regime_confirmed_iff_witness:
  "map_of (rc_evidence (foldl observe example_tracker [(Some SIDEWAYS, 1), (Some SIDEWAYS, 2)]))
     (regime_name SIDEWAYS) \<noteq> None \<longleftrightarrow>
   (\<exists>as bs cs. [(Some SIDEWAYS, 1), (Some SIDEWAYS, 2 :: int)] = as @ bs @ cs \<and> length bs = nat 2 \<and>
      list_all (\<lambda>x. fst x = Some SIDEWAYS) bs)"
  by (rule regime_confirmed_iff) (simp add: regime_tracker_init_def example_tracker_def)

end
