(* ===== verification/Portfolio.thy ===== *)
theory Portfolio
  imports Trading
begin

text \<open>
  Spot accounting (\<open>domain/portfolio/portfolio.py\<close>).  The mutable \<open>Portfolio\<close> is a record;
  \<open>apply_buy\<close> returns the new state beside its result because it may raise, and the state is
  then the one at the raise.  \<open>x or 0.0\<close> on an optional float is \<open>float_or_zero\<close>: None and
  zero are false, every other value is kept.
\<close>

section \<open>State and operations\<close>

record trade =
  tr_entry_ts :: int
  tr_exit_ts :: int
  tr_entry_price :: pyfloat
  tr_exit_price :: pyfloat
  tr_quantity :: pyfloat
  tr_gross_pnl :: pyfloat
  tr_fees :: pyfloat
  tr_slippage :: pyfloat
  tr_net_pnl :: pyfloat

record portfolio =
  pf_initial_cash :: pyfloat
  pf_cash :: pyfloat
  pf_position :: pyfloat
  pf_avg_entry :: "pyfloat option"
  pf_entry_ts :: "int option"
  pf_realized_pnl :: pyfloat
  pf_total_fees :: pyfloat
  pf_total_slippage :: pyfloat
  pf_entry_fees :: pyfloat
  pf_entry_slippage :: pyfloat
  pf_trades :: "trade list"

definition new_portfolio :: "pyfloat \<Rightarrow> pyfloat \<Rightarrow> portfolio" where
  "new_portfolio initial cash =
     \<lparr>pf_initial_cash = initial, pf_cash = cash, pf_position = Fin 0, pf_avg_entry = None,
      pf_entry_ts = None, pf_realized_pnl = Fin 0, pf_total_fees = Fin 0,
      pf_total_slippage = Fin 0, pf_entry_fees = Fin 0, pf_entry_slippage = Fin 0, pf_trades = []\<rparr>"

definition float_or_zero :: "pyfloat option \<Rightarrow> pyfloat" where
  "float_or_zero x = (case x of None \<Rightarrow> Fin 0 | Some v \<Rightarrow> v)"

definition BUY_TOLERANCE :: pyfloat where
  "BUY_TOLERANCE = rnd (1 / 10 ^ 9)"

definition DUST :: pyfloat where
  "DUST = rnd (1 / 10 ^ 12)"

definition apply_buy :: "portfolio \<Rightarrow> fill \<Rightarrow> portfolio \<times> unit result" where
  "apply_buy p f =
     (if fle (fl_quantity f) (Fin 0) then (p, Inr ())
      else
        let total_cost = fadd (fl_notional f) (fl_fee f) in
        if flt (fadd (pf_cash p) BUY_TOLERANCE) total_cost
        then (p, Inl (ValueError ''buy excede el cash disponible''))
        else
          let entry =
            (if feq (pf_position p) (Fin 0)
             then Inr (p\<lparr>pf_avg_entry := Some (fl_exec_price f), pf_entry_ts := Some (fl_timestamp_ms f)\<rparr>)
             else bindE (pdiv (fadd (fmul (float_or_zero (pf_avg_entry p)) (pf_position p))
                                    (fmul (fl_exec_price f) (fl_quantity f)))
                              (fadd (pf_position p) (fl_quantity f)))
                    (\<lambda>avg. Inr (p\<lparr>pf_avg_entry := Some avg\<rparr>)))
          in (case entry of
                Inl e \<Rightarrow> (p, Inl e)
              | Inr p1 \<Rightarrow>
                  (p1\<lparr>pf_position := fadd (pf_position p) (fl_quantity f),
                      pf_cash := fsub (pf_cash p) total_cost,
                      pf_entry_fees := fadd (pf_entry_fees p) (fl_fee f),
                      pf_entry_slippage := fadd (pf_entry_slippage p) (fl_slippage_cost f),
                      pf_total_fees := fadd (pf_total_fees p) (fl_fee f),
                      pf_total_slippage := fadd (pf_total_slippage p) (fl_slippage_cost f)\<rparr>,
                   Inr ())))"

definition sell_trade :: "portfolio \<Rightarrow> fill \<Rightarrow> pyfloat \<Rightarrow> trade" where
  \<comment> \<open>the \<open>Trade\<close> a sell of \<open>quantity\<close> appends\<close>
  "sell_trade p f quantity =
     (let fraction = fdiv quantity (pf_position p);
          scale = (if flt (Fin 0) (fl_quantity f) then fdiv quantity (fl_quantity f) else Fin 0);
          gross_pnl = fmul (fsub (fl_exec_price f) (float_or_zero (pf_avg_entry p))) quantity;
          fees = fadd (fmul (pf_entry_fees p) fraction) (fmul (fl_fee f) scale)
      in \<lparr>tr_entry_ts = (case pf_entry_ts p of None \<Rightarrow> 0 | Some t \<Rightarrow> t),
          tr_exit_ts = fl_timestamp_ms f,
          tr_entry_price = float_or_zero (pf_avg_entry p),
          tr_exit_price = fl_exec_price f,
          tr_quantity = quantity,
          tr_gross_pnl = gross_pnl,
          tr_fees = fees,
          tr_slippage = fadd (fmul (pf_entry_slippage p) fraction) (fmul (fl_slippage_cost f) scale),
          tr_net_pnl = fsub gross_pnl fees\<rparr>)"

definition apply_sell :: "portfolio \<Rightarrow> fill \<Rightarrow> portfolio" where
  \<comment> \<open>both divisions have a divisor that the guard leaves above zero or NaN\<close>
  "apply_sell p f =
     (if fle (fl_quantity f) (Fin 0) \<or> fle (pf_position p) (Fin 0) then p
      else
        let quantity = fmin (fl_quantity f) (pf_position p);
            fraction = fdiv quantity (pf_position p);
            alloc_fees = fmul (pf_entry_fees p) fraction;
            alloc_slippage = fmul (pf_entry_slippage p) fraction;
            scale = (if flt (Fin 0) (fl_quantity f) then fdiv quantity (fl_quantity f) else Fin 0);
            exit_fee = fmul (fl_fee f) scale;
            exit_slippage = fmul (fl_slippage_cost f) scale;
            t = sell_trade p f quantity;
            p1 = p\<lparr>pf_cash := fadd (pf_cash p) (fsub (fmul (fl_notional f) scale) exit_fee),
                   pf_position := fsub (pf_position p) quantity,
                   pf_entry_fees := fsub (pf_entry_fees p) alloc_fees,
                   pf_entry_slippage := fsub (pf_entry_slippage p) alloc_slippage,
                   pf_realized_pnl := fadd (pf_realized_pnl p) (tr_net_pnl t),
                   pf_total_fees := fadd (pf_total_fees p) exit_fee,
                   pf_total_slippage := fadd (pf_total_slippage p) exit_slippage,
                   pf_trades := pf_trades p @ [t]\<rparr>
        in if fle (pf_position p1) DUST
           then p1\<lparr>pf_position := Fin 0, pf_avg_entry := None, pf_entry_ts := None\<rparr>
           else p1)"

definition equity :: "portfolio \<Rightarrow> pyfloat \<Rightarrow> pyfloat" where
  "equity p price = fadd (pf_cash p) (fmul (pf_position p) price)"

definition pf_step :: "portfolio \<Rightarrow> fill \<Rightarrow> portfolio" where
  \<comment> \<open>a fill booked by its action; a refused buy leaves the state\<close>
  "pf_step p f = (case fl_action f of
       BUY \<Rightarrow> fst (apply_buy p f) | SELL \<Rightarrow> apply_sell p f | HOLD \<Rightarrow> p)"

section \<open>The accounting invariant\<close>

definition portfolio_wf :: "portfolio \<Rightarrow> bool" where
  \<comment> \<open>long only, flat exactly when there is no entry, and an entry price has an entry time\<close>
  "portfolio_wf p \<longleftrightarrow>
     nonneg (pf_position p) \<and> float_value (pf_position p) \<and>
     (pf_position p = Fin 0 \<longleftrightarrow> pf_avg_entry p = None) \<and>
     (pf_avg_entry p = None \<longleftrightarrow> pf_entry_ts p = None)"

definition fill_ok :: "fill \<Rightarrow> bool" where
  \<comment> \<open>the quantity of a fill is a finite float\<close>
  "fill_ok f \<longleftrightarrow> (\<exists>q. fl_quantity f = Fin q \<and> representable q)"

lemma fadd_pos:
  assumes "nonneg a" "0 < q" "representable q"
  shows "positive (fadd a (Fin q))"
proof (cases a)
  case (Fin b)
  then have "fle (Fin q) (rnd (b + q))" using assms by (intro representable_lower) auto
  then show ?thesis using Fin assms(2) by (cases "rnd (b + q)") auto
qed (use assms in auto)

lemma apply_buy_wf:
  assumes "portfolio_wf p" "fill_ok f"
  shows "portfolio_wf (fst (apply_buy p f))"
proof -
  obtain q where q: "fl_quantity f = Fin q" "representable q" using assms(2) by (auto simp: fill_ok_def)
  show ?thesis
  proof (cases "0 < q")
    case True
    then have pos: "positive (fadd (pf_position p) (Fin q))"
      using assms(1) q by (intro fadd_pos) (auto simp: portfolio_wf_def)
    then have "nonneg (fadd (pf_position p) (Fin q))" "fadd (pf_position p) (Fin q) \<noteq> Fin 0"
      by (auto dest: flt_imp_fle)
    then show ?thesis using assms(1) q
      by (auto simp: apply_buy_def portfolio_wf_def Let_def bindE_def feq_def split: sum.split)
  next
    case False
    with assms(1) q show ?thesis by (simp add: apply_buy_def)
  qed
qed

lemma apply_sell_position:
  assumes "portfolio_wf p" "fill_ok f"
  shows "nonneg (pf_position (apply_sell p f)) \<and> fle (pf_position (apply_sell p f)) (pf_position p)"
proof (cases "fle (fl_quantity f) (Fin 0) \<or> fle (pf_position p) (Fin 0)")
  case True
  with assms(1) show ?thesis by (auto simp: apply_sell_def portfolio_wf_def dest: fle_not_NaN)
next
  case False
  obtain q where q: "fl_quantity f = Fin q" "0 < q" using False assms(2) by (auto simp: fill_ok_def)
  let ?d = "fsub (pf_position p) (fmin (fl_quantity f) (pf_position p))"
  have m: "nonneg (fmin (fl_quantity f) (pf_position p))" "is_Fin (fmin (fl_quantity f) (pf_position p))"
    "fle (fmin (fl_quantity f) (pf_position p)) (pf_position p)"
    using q assms(1) by (cases "pf_position p"; auto simp: portfolio_wf_def fmin_def)+
  then have "nonneg ?d \<and> fle ?d (pf_position p)"
    using assms(1) by (auto simp: portfolio_wf_def intro: fsub_nonneg fsub_le_self)
  moreover have "nonneg (pf_position p)" using assms(1) by (simp add: portfolio_wf_def)
  ultimately show ?thesis using False by (auto simp: apply_sell_def Let_def)
qed

lemma apply_sell_fields:
  assumes "\<not> fle (fl_quantity f) (Fin 0)" "\<not> fle (pf_position p) (Fin 0)"
    and "q = fmin (fl_quantity f) (pf_position p)" "d = fsub (pf_position p) q"
  shows "pf_position (apply_sell p f) = (if fle d DUST then Fin 0 else d)"
    and "pf_avg_entry (apply_sell p f) = (if fle d DUST then None else pf_avg_entry p)"
    and "pf_entry_ts (apply_sell p f) = (if fle d DUST then None else pf_entry_ts p)"
    and "pf_trades (apply_sell p f) = pf_trades p @ [sell_trade p f q]"
    and "pf_realized_pnl (apply_sell p f) = fadd (pf_realized_pnl p) (tr_net_pnl (sell_trade p f q))"
    and "pf_entry_fees (apply_sell p f) = fsub (pf_entry_fees p) (fmul (pf_entry_fees p) (fdiv q (pf_position p)))"
  using assms by (simp_all add: apply_sell_def Let_def)

lemma DUST_nonneg: "nonneg DUST"
  unfolding DUST_def by (rule binary64.rd_nonneg) simp

lemma apply_sell_wf:
  assumes "portfolio_wf p" "fill_ok f"
  shows "portfolio_wf (apply_sell p f)"
proof -
  have a: "nonneg (pf_position (apply_sell p f))" using apply_sell_position[OF assms] by simp
  show ?thesis
  proof (cases "fle (fl_quantity f) (Fin 0) \<or> fle (pf_position p) (Fin 0)")
    case True
    then have "apply_sell p f = p" by (simp add: apply_sell_def)
    with assms(1) show ?thesis by simp
  next
    case False
    define d where "d = fsub (pf_position p) (fmin (fl_quantity f) (pf_position p))"
    have fields: "pf_position (apply_sell p f) = (if fle d DUST then Fin 0 else d)"
      "pf_avg_entry (apply_sell p f) = (if fle d DUST then None else pf_avg_entry p)"
      "pf_entry_ts (apply_sell p f) = (if fle d DUST then None else pf_entry_ts p)"
      using False apply_sell_fields[OF _ _ refl d_def] by auto
    have "d \<noteq> Fin 0" if "\<not> fle d DUST" using that DUST_nonneg by auto
    moreover have "pf_position p \<noteq> Fin 0" using False by auto
    moreover have "float_value d" by (simp add: d_def)
    ultimately show ?thesis using a assms(1) by (auto simp: portfolio_wf_def fields)
  qed
qed

interpretation accounts: guarded_machine pf_step portfolio_wf fill_ok
  by unfold_locales (auto simp: pf_step_def intro: apply_buy_wf apply_sell_wf split: action.split)

lemma new_portfolio_wf: "portfolio_wf (new_portfolio initial cash)"
  by (simp add: portfolio_wf_def new_portfolio_def)

section \<open>Properties\<close>

text \<open>
  C28 Long-only spot accounting: whatever sequence of fills is booked, the position is never
  negative (a sell cannot go short), and the portfolio is flat exactly when it has no entry
  price and no entry time.
\<close>

theorem portfolio_is_long_only:
  assumes "list_all fill_ok fs"
  shows "nonneg (pf_position (foldl pf_step (new_portfolio initial cash) fs)) \<and>
    (pf_position (foldl pf_step (new_portfolio initial cash) fs) = Fin 0 \<longleftrightarrow>
       pf_avg_entry (foldl pf_step (new_portfolio initial cash) fs) = None) \<and>
    (pf_avg_entry (foldl pf_step (new_portfolio initial cash) fs) = None \<longleftrightarrow>
       pf_entry_ts (foldl pf_step (new_portfolio initial cash) fs) = None)"
  using accounts.run_inv[OF new_portfolio_wf assms, of initial cash] by (simp add: portfolio_wf_def)

definition simple_fill :: "action \<Rightarrow> int \<Rightarrow> rat \<Rightarrow> rat \<Rightarrow> fill" where
  "simple_fill a ts price q =
     \<lparr>fl_timestamp_ms = ts, fl_action = a, fl_price = Fin price, fl_exec_price = Fin price,
      fl_quantity = Fin q, fl_notional = Fin (price * q), fl_fee = Fin 1, fl_slippage_cost = Fin 0\<rparr>"

lemma representable_2: "representable 2"
  by (rule representable_numeral) simp

lemma simple_fill_ok: "representable q \<Longrightarrow> fill_ok (simple_fill a ts price q)"
  by (simp add: fill_ok_def simple_fill_def)

theorem portfolio_is_long_only_witness:
  "nonneg (pf_position (foldl pf_step (new_portfolio (Fin 1000) (Fin 1000))
     [simple_fill BUY 5 100 2, simple_fill SELL 6 110 1, simple_fill SELL 7 110 2])) \<and>
   (pf_position (foldl pf_step (new_portfolio (Fin 1000) (Fin 1000))
     [simple_fill BUY 5 100 2, simple_fill SELL 6 110 1, simple_fill SELL 7 110 2]) = Fin 0 \<longleftrightarrow>
    pf_avg_entry (foldl pf_step (new_portfolio (Fin 1000) (Fin 1000))
     [simple_fill BUY 5 100 2, simple_fill SELL 6 110 1, simple_fill SELL 7 110 2]) = None) \<and>
   (pf_avg_entry (foldl pf_step (new_portfolio (Fin 1000) (Fin 1000))
     [simple_fill BUY 5 100 2, simple_fill SELL 6 110 1, simple_fill SELL 7 110 2]) = None \<longleftrightarrow>
    pf_entry_ts (foldl pf_step (new_portfolio (Fin 1000) (Fin 1000))
     [simple_fill BUY 5 100 2, simple_fill SELL 6 110 1, simple_fill SELL 7 110 2]) = None)"
  by (rule portfolio_is_long_only) (simp add: simple_fill_ok representable_2)

lemma apply_buy_outcome:
  assumes "portfolio_wf p" "fl_quantity f = Fin q" "0 < q" "representable q"
  shows "case apply_buy p f of
      (p', Inl e) \<Rightarrow> p' = p \<and> e = ValueError ''buy excede el cash disponible'' \<and>
        flt (fadd (pf_cash p) BUY_TOLERANCE) (fadd (fl_notional f) (fl_fee f))
    | (p', Inr _) \<Rightarrow> \<not> flt (fadd (pf_cash p) BUY_TOLERANCE) (fadd (fl_notional f) (fl_fee f)) \<and>
        pf_cash p' = fsub (pf_cash p) (fadd (fl_notional f) (fl_fee f)) \<and>
        pf_position p' = fadd (pf_position p) (Fin q) \<and> pf_trades p' = pf_trades p"
proof -
  have "positive (fadd (pf_position p) (Fin q))"
    using assms by (intro fadd_pos) (auto simp: portfolio_wf_def)
  then have "\<not> feq (fadd (pf_position p) (Fin q)) (Fin 0)" by (auto simp: feq_def)
  then have "pdiv x (fadd (pf_position p) (Fin q)) = Inr (fdiv x (fadd (pf_position p) (Fin q)))" for x
    by (rule pdiv_nonzero)
  then show ?thesis using assms(2,3) by (simp add: apply_buy_def Let_def)
qed

text \<open>
  A buy is refused exactly when its cost exceeds the cash by more than the tolerance; a
  refused buy leaves the portfolio as it was, an accepted one takes the cost from the cash
  and adds the quantity.
\<close>

theorem buy_accepted_iff_affordable:
  assumes "portfolio_wf p" "fl_quantity f = Fin q" "0 < q" "representable q"
  shows "case apply_buy p f of
      (p', Inl e) \<Rightarrow> p' = p \<and> e = ValueError ''buy excede el cash disponible'' \<and>
        flt (fadd (pf_cash p) BUY_TOLERANCE) (fadd (fl_notional f) (fl_fee f))
    | (p', Inr _) \<Rightarrow> \<not> flt (fadd (pf_cash p) BUY_TOLERANCE) (fadd (fl_notional f) (fl_fee f)) \<and>
        pf_cash p' = fsub (pf_cash p) (fadd (fl_notional f) (fl_fee f)) \<and>
        pf_position p' = fadd (pf_position p) (Fin q) \<and> pf_trades p' = pf_trades p"
  using assms by (rule apply_buy_outcome)

theorem buy_accepted_iff_affordable_witness:
  "case apply_buy (new_portfolio (Fin 1000) (Fin 1000)) (simple_fill BUY 5 600 2) of
      (p', Inl e) \<Rightarrow> p' = new_portfolio (Fin 1000) (Fin 1000) \<and> e = ValueError ''buy excede el cash disponible'' \<and>
        flt (fadd (pf_cash (new_portfolio (Fin 1000) (Fin 1000))) BUY_TOLERANCE)
          (fadd (fl_notional (simple_fill BUY 5 600 2)) (fl_fee (simple_fill BUY 5 600 2)))
    | (p', Inr _) \<Rightarrow> \<not> flt (fadd (pf_cash (new_portfolio (Fin 1000) (Fin 1000))) BUY_TOLERANCE)
          (fadd (fl_notional (simple_fill BUY 5 600 2)) (fl_fee (simple_fill BUY 5 600 2))) \<and>
        pf_cash p' = fsub (pf_cash (new_portfolio (Fin 1000) (Fin 1000)))
          (fadd (fl_notional (simple_fill BUY 5 600 2)) (fl_fee (simple_fill BUY 5 600 2))) \<and>
        pf_position p' = fadd (pf_position (new_portfolio (Fin 1000) (Fin 1000))) (Fin 2) \<and>
        pf_trades p' = pf_trades (new_portfolio (Fin 1000) (Fin 1000))"
  by (rule buy_accepted_iff_affordable) (simp_all add: new_portfolio_wf simple_fill_def representable_2)

text \<open>
  Selling at least the whole position closes it: the portfolio is flat, the entry fees
  are fully allocated, and exactly one trade of the whole position is recorded, whose net
  result is what the realized result grows by.
\<close>

theorem full_sell_closes_position:
  assumes "pf_position p = Fin b" "0 < b" "fl_quantity f = Fin q" "b \<le> q"
    and "pf_entry_fees p = Fin e" "representable e"
  shows "\<exists>t. pf_trades (apply_sell p f) = pf_trades p @ [t] \<and> tr_quantity t = Fin b \<and>
      tr_net_pnl t = fsub (tr_gross_pnl t) (tr_fees t) \<and>
      tr_entry_price t = float_or_zero (pf_avg_entry p) \<and>
      pf_realized_pnl (apply_sell p f) = fadd (pf_realized_pnl p) (tr_net_pnl t) \<and>
      pf_position (apply_sell p f) = Fin 0 \<and> pf_avg_entry (apply_sell p f) = None \<and>
      pf_entry_ts (apply_sell p f) = None \<and> pf_entry_fees (apply_sell p f) = Fin 0"
proof -
  have m: "fmin (Fin q) (Fin b) = Fin b" using assms(4) by (simp add: min_absorb2)
  have one: "fdiv (Fin b) (Fin b) = Fin 1"
    using assms(2) representable_one by (simp add: representable_def)
  have alloc: "fsub (Fin e) (fmul (Fin e) (Fin 1)) = Fin 0" using assms(6) by (simp add: representable_def)
  have d: "fsub (Fin b) (Fin b) = Fin 0" by simp
  have g: "\<not> fle (fl_quantity f) (Fin 0)" "\<not> fle (pf_position p) (Fin 0)" using assms by auto
  note fields = apply_sell_fields[OF g refl refl, unfolded assms(1,3,5) m one alloc d if_P[OF DUST_nonneg]]
  show ?thesis
    using fields by (intro exI[of _ "sell_trade p f (Fin b)"]) (simp add: sell_trade_def Let_def)
qed

definition open_portfolio :: portfolio where
  "open_portfolio = fst (apply_buy (new_portfolio (Fin 1000) (Fin 1000)) (simple_fill BUY 5 100 2))"

theorem full_sell_closes_position_witness:
  "\<exists>t. pf_trades (apply_sell open_portfolio (simple_fill SELL 9 110 3)) = pf_trades open_portfolio @ [t] \<and>
      tr_quantity t = Fin 2 \<and> tr_net_pnl t = fsub (tr_gross_pnl t) (tr_fees t) \<and>
      tr_entry_price t = float_or_zero (pf_avg_entry open_portfolio) \<and>
      pf_realized_pnl (apply_sell open_portfolio (simple_fill SELL 9 110 3)) =
        fadd (pf_realized_pnl open_portfolio) (tr_net_pnl t) \<and>
      pf_position (apply_sell open_portfolio (simple_fill SELL 9 110 3)) = Fin 0 \<and>
      pf_avg_entry (apply_sell open_portfolio (simple_fill SELL 9 110 3)) = None \<and>
      pf_entry_ts (apply_sell open_portfolio (simple_fill SELL 9 110 3)) = None \<and>
      pf_entry_fees (apply_sell open_portfolio (simple_fill SELL 9 110 3)) = Fin 0"
proof (rule full_sell_closes_position)
  show "pf_position open_portfolio = Fin 2" by code_simp
  show "pf_entry_fees open_portfolio = Fin 1" by code_simp
  show "fl_quantity (simple_fill SELL 9 110 3) = Fin 3" by (simp add: simple_fill_def)
qed (simp_all)

end
