(* ===== verification/Risk.thy ===== *)
theory Risk
  imports Trading
begin

text \<open>
  The risk engine (\<open>src/src/domain/risk\<close>): the versioned configuration, position sizing,
  stops, the loss guards, the kill switch and \<open>RiskEngine.evaluate\<close>, the gate every order
  passes.  An intensity is the string the code lower-cases (\<open>intensity_value\<close> of the enum),
  so the neutral fallback for unknown values is part of the model.  Every division has a
  divisor its guard keeps from zero, hence \<open>fdiv\<close>.
\<close>

section \<open>Configuration\<close>

record risk_config =
  rk_capital :: pyfloat
  rk_max_position_allocation :: pyfloat
  rk_max_daily_loss :: pyfloat
  rk_max_drawdown :: pyfloat
  rk_max_open_positions :: int
  rk_leverage :: pyfloat
  rk_stop_loss_required :: bool
  rk_stop_atr_multiplier :: pyfloat
  rk_take_profit_r_multiple :: pyfloat
  rk_trailing_atr_multiplier :: pyfloat
  rk_low_risk_pct :: pyfloat
  rk_medium_risk_pct :: pyfloat
  rk_high_risk_pct :: pyfloat
  rk_version :: string

definition default_risk_config :: risk_config where
  "default_risk_config =
     \<lparr>rk_capital = Fin 1000, rk_max_position_allocation = rnd (2/100), rk_max_daily_loss = rnd (2/100),
      rk_max_drawdown = rnd (5/100), rk_max_open_positions = 1, rk_leverage = Fin 0,
      rk_stop_loss_required = True, rk_stop_atr_multiplier = Fin 2, rk_take_profit_r_multiple = Fin 2,
      rk_trailing_atr_multiplier = Fin 3, rk_low_risk_pct = rnd (5/1000),
      rk_medium_risk_pct = rnd (1/100), rk_high_risk_pct = rnd (2/100), rk_version = ''risk-v1''\<rparr>"

fun intensity_value :: "intensity \<Rightarrow> string" where
  "intensity_value LOW = ''low''"
| "intensity_value MEDIUM = ''medium''"
| "intensity_value HIGH = ''high''"

definition lower_char :: "char \<Rightarrow> char" where
  "lower_char c = (let n = of_char c :: nat in if 65 \<le> n \<and> n \<le> 90 then char_of (n + 32) else c)"

definition str_lower :: "string \<Rightarrow> string" where
  \<comment> \<open>\<open>str.lower\<close> on ASCII text\<close>
  "str_lower s = map lower_char s"

definition risk_budget_pct :: "risk_config \<Rightarrow> string \<Rightarrow> pyfloat" where
  "risk_budget_pct cfg intensity =
     (let key = str_lower intensity in
      if key = ''low'' then rk_low_risk_pct cfg
      else if key = ''high'' then rk_high_risk_pct cfg
      else rk_medium_risk_pct cfg)"

section \<open>Guards\<close>

definition daily_loss_exceeded :: "pyfloat \<Rightarrow> pyfloat \<Rightarrow> risk_config \<Rightarrow> bool" where
  "daily_loss_exceeded realized_pnl_today capital cfg \<longleftrightarrow>
     fle realized_pnl_today (fneg (fmul capital (rk_max_daily_loss cfg)))"

definition drawdown_exceeded :: "pyfloat \<Rightarrow> pyfloat \<Rightarrow> risk_config \<Rightarrow> bool" where
  "drawdown_exceeded peak eq cfg \<longleftrightarrow>
     (if fle peak (Fin 0) then False
      else if flt peak eq then False
      else fle (rk_max_drawdown cfg) (fdiv (fsub peak eq) peak))"

record kill_switch_state =
  ks_active :: bool
  ks_reason :: string
  ks_activated_at :: int

definition kill_switch_clear :: kill_switch_state where
  "kill_switch_clear = \<lparr>ks_active = False, ks_reason = [], ks_activated_at = 0\<rparr>"

text \<open>The persisted dict: each of its three keys may be missing.\<close>

record kill_switch_dict =
  kd_active :: "bool option"
  kd_reason :: "string option"
  kd_activated_at :: "int option"

definition ks_to_dict :: "kill_switch_state \<Rightarrow> kill_switch_dict" where
  "ks_to_dict s =
     \<lparr>kd_active = Some (ks_active s), kd_reason = Some (ks_reason s),
      kd_activated_at = Some (ks_activated_at s)\<rparr>"

definition get_or :: "'a option \<Rightarrow> 'a \<Rightarrow> 'a" where
  "get_or x d = (case x of None \<Rightarrow> d | Some v \<Rightarrow> v)"

definition ks_from_dict :: "kill_switch_dict \<Rightarrow> kill_switch_state" where
  "ks_from_dict d =
     \<lparr>ks_active = get_or (kd_active d) False, ks_reason = get_or (kd_reason d) [],
      ks_activated_at = get_or (kd_activated_at d) 0\<rparr>"

definition allows_trading :: "kill_switch_state \<Rightarrow> bool" where
  "allows_trading s \<longleftrightarrow> \<not> ks_active s"

definition ks_activate :: "kill_switch_state \<Rightarrow> string \<Rightarrow> int \<Rightarrow> kill_switch_state" where
  "ks_activate s reason ts =
     (if \<not> ks_active s then \<lparr>ks_active = True, ks_reason = reason, ks_activated_at = ts\<rparr> else s)"

definition ks_reset :: "kill_switch_state \<Rightarrow> string \<Rightarrow> string \<Rightarrow> kill_switch_state \<times> unit result" where
  "ks_reset s by_whom approval_id =
     (if by_whom \<noteq> ''human'' \<or> approval_id = []
      then (s, Inl (PermissionError ''el kill switch solo puede resetearse por aprobacion humana''))
      else (kill_switch_clear, Inr ()))"

section \<open>Sizing and stops\<close>

record position_size =
  sz_quantity :: pyfloat
  sz_notional :: pyfloat
  sz_stop_distance :: pyfloat
  sz_risk_amount :: pyfloat
  sz_capped :: bool

definition drawdown_scale :: "pyfloat \<Rightarrow> pyfloat \<Rightarrow> pyfloat" where
  "drawdown_scale current maximum =
     (if fle current (Fin 0) then Fin 1
      else if fle maximum current then Fin 0
      else fdiv (fsub maximum current) maximum)"

definition max_notional :: "risk_config \<Rightarrow> pyfloat" where
  "max_notional cfg =
     fmin (fmul (rk_max_position_allocation cfg) (rk_capital cfg))
          (fmul (rk_capital cfg) (fsub (Fin 1) (rk_leverage cfg)))"

definition compute_position_size ::
  "string \<Rightarrow> pyfloat \<Rightarrow> pyfloat \<Rightarrow> pyfloat \<Rightarrow> risk_config \<Rightarrow> position_size" where
  "compute_position_size intensity atr_now price current_drawdown cfg =
     (let budget_pct = risk_budget_pct cfg intensity;
          stop_distance = (if flt (Fin 0) atr_now then fmul (rk_stop_atr_multiplier cfg) atr_now else Fin 0)
      in if fle stop_distance (Fin 0) \<or> fle price (Fin 0)
         then \<lparr>sz_quantity = Fin 0, sz_notional = Fin 0, sz_stop_distance = Fin 0,
               sz_risk_amount = Fin 0, sz_capped = False\<rparr>
         else
           let scale = drawdown_scale current_drawdown (rk_max_drawdown cfg);
               risk_amount = fmul (fmul (rk_capital cfg) budget_pct) scale;
               quantity0 = fdiv risk_amount stop_distance;
               notional0 = fmul quantity0 price;
               capped = flt (max_notional cfg) notional0;
               quantity = (if capped then fdiv (max_notional cfg) price else quantity0);
               notional = (if capped then max_notional cfg else notional0)
           in \<lparr>sz_quantity = quantity, sz_notional = notional, sz_stop_distance = stop_distance,
               sz_risk_amount = fmul quantity stop_distance, sz_capped = capped\<rparr>)"

definition initial_stop :: "pyfloat \<Rightarrow> pyfloat \<Rightarrow> risk_config \<Rightarrow> pyfloat" where
  "initial_stop entry_price atr_now cfg = fsub entry_price (fmul (rk_stop_atr_multiplier cfg) atr_now)"

definition take_profit :: "pyfloat \<Rightarrow> pyfloat \<Rightarrow> risk_config \<Rightarrow> pyfloat" where
  "take_profit entry_price stop_loss cfg =
     fadd entry_price (fmul (rk_take_profit_r_multiple cfg) (fsub entry_price stop_loss))"

definition update_trailing :: "pyfloat \<Rightarrow> pyfloat \<Rightarrow> pyfloat \<Rightarrow> risk_config \<Rightarrow> pyfloat" where
  "update_trailing current_stop highest_price atr_now cfg =
     (if fle atr_now (Fin 0) \<or> fle highest_price (Fin 0) then current_stop
      else fmax current_stop (fsub highest_price (fmul (rk_trailing_atr_multiplier cfg) atr_now)))"

section \<open>The engine\<close>

record trade_proposal =
  tp_action :: action
  tp_intensity :: string
  tp_price :: pyfloat
  tp_atr :: "pyfloat option"
  tp_timestamp_ms :: int

record portfolio_risk_state =
  pr_open_positions :: int
  pr_realized_pnl_today :: pyfloat
  pr_peak_equity :: pyfloat
  pr_equity :: pyfloat
  pr_kill_switch :: kill_switch_state

record risk_verdict =
  rv_approved :: bool
  rv_reason :: string
  rv_size :: "position_size option"
  rv_stop_loss :: "pyfloat option"
  rv_take_profit :: "pyfloat option"

definition reject :: "string \<Rightarrow> risk_verdict" where
  "reject reason =
     \<lparr>rv_approved = False, rv_reason = reason, rv_size = None, rv_stop_loss = None, rv_take_profit = None\<rparr>"

definition approve :: "string \<Rightarrow> risk_verdict" where
  \<comment> \<open>an approval without a size\<close>
  "approve reason =
     \<lparr>rv_approved = True, rv_reason = reason, rv_size = None, rv_stop_loss = None, rv_take_profit = None\<rparr>"

definition current_drawdown :: "pyfloat \<Rightarrow> pyfloat \<Rightarrow> pyfloat" where
  "current_drawdown peak eq =
     (if fle peak (Fin 0) \<or> fle peak eq then Fin 0 else fdiv (fsub peak eq) peak)"

definition size_buy :: "risk_config \<Rightarrow> trade_proposal \<Rightarrow> portfolio_risk_state \<Rightarrow> risk_verdict" where
  \<comment> \<open>the part of \<open>evaluate\<close> after the portfolio restrictions\<close>
  "size_buy cfg p s =
     (let drawdown = current_drawdown (pr_peak_equity s) (pr_equity s);
          atr_now = (case tp_atr p of None \<Rightarrow> Fin 0 | Some a \<Rightarrow> a)
      in if fle atr_now (Fin 0) then
           let mx = max_notional cfg;
               quantity = (if flt (Fin 0) (tp_price p) then fdiv mx (tp_price p) else Fin 0)
           in if fle quantity (Fin 0) then reject ''zero_size''
              else \<lparr>rv_approved = True, rv_reason = ''ok_unstopped'',
                    rv_size = Some \<lparr>sz_quantity = quantity, sz_notional = mx, sz_stop_distance = Fin 0,
                                    sz_risk_amount = Fin 0, sz_capped = True\<rparr>,
                    rv_stop_loss = None, rv_take_profit = None\<rparr>
         else
           let size = compute_position_size (tp_intensity p) atr_now (tp_price p) drawdown cfg in
           if fle (sz_quantity size) (Fin 0) then reject ''zero_size''
           else let stop = initial_stop (tp_price p) atr_now cfg
                in \<lparr>rv_approved = True, rv_reason = ''ok'', rv_size = Some size,
                    rv_stop_loss = Some stop, rv_take_profit = Some (take_profit (tp_price p) stop cfg)\<rparr>)"

definition evaluate :: "risk_config \<Rightarrow> trade_proposal \<Rightarrow> portfolio_risk_state \<Rightarrow> risk_verdict" where
  "evaluate cfg p s =
     (if ks_active (pr_kill_switch s) then reject ''kill_switch''
      else if drawdown_exceeded (pr_peak_equity s) (pr_equity s) cfg then reject ''max_drawdown''
      else case tp_action p of
        HOLD \<Rightarrow> approve ''no_op''
      | SELL \<Rightarrow> if pr_open_positions s = 0 then reject ''no_position_to_reduce'' else approve ''reduce''
      | BUY \<Rightarrow>
          if daily_loss_exceeded (pr_realized_pnl_today s) (rk_capital cfg) cfg then reject ''max_daily_loss''
          else if rk_max_open_positions cfg \<le> pr_open_positions s then reject ''max_open_positions''
          else if rk_stop_loss_required cfg \<and>
                  (case tp_atr p of None \<Rightarrow> True | Some a \<Rightarrow> fle a (Fin 0)) then reject ''stop_unavailable''
          else size_buy cfg p s)"

section \<open>Bounds of the sizing\<close>

definition config_ok :: "risk_config \<Rightarrow> bool" where
  \<comment> \<open>a configuration of finite numbers: capital, allocation and budgets not negative,
     leverage between 0 and 1, and budgets whose product with the capital is finite\<close>
  "config_ok cfg \<longleftrightarrow>
     nonneg (rk_capital cfg) \<and> is_Fin (rk_capital cfg) \<and>
     nonneg (rk_max_position_allocation cfg) \<and> is_Fin (rk_max_position_allocation cfg) \<and>
     nonneg (rk_leverage cfg) \<and> fle (rk_leverage cfg) (Fin 1) \<and>
     is_Fin (rk_max_drawdown cfg) \<and> float_value (rk_max_drawdown cfg) \<and>
     list_all (\<lambda>pct. nonneg pct \<and> is_Fin pct \<and> is_Fin (fmul (rk_capital cfg) pct))
       [rk_low_risk_pct cfg, rk_medium_risk_pct cfg, rk_high_risk_pct cfg]"

lemma config_ok_budget:
  "config_ok cfg \<Longrightarrow> \<exists>b. fmul (rk_capital cfg) (risk_budget_pct cfg i) = Fin b \<and> 0 \<le> b"
proof -
  assume c: "config_ok cfg"
  then have "nonneg (risk_budget_pct cfg i)" "is_Fin (risk_budget_pct cfg i)"
    "is_Fin (fmul (rk_capital cfg) (risk_budget_pct cfg i))" "nonneg (rk_capital cfg)" "is_Fin (rk_capital cfg)"
    by (auto simp: config_ok_def risk_budget_pct_def Let_def)
  moreover from this have "nonneg (fmul (rk_capital cfg) (risk_budget_pct cfg i))" by (intro fmul_nonneg)
  ultimately show ?thesis by (cases "fmul (rk_capital cfg) (risk_budget_pct cfg i)") auto
qed

lemma max_notional_number: "config_ok cfg \<Longrightarrow> nonneg (max_notional cfg)"
proof -
  assume c: "config_ok cfg"
  then obtain k a l where k: "rk_capital cfg = Fin k" "0 \<le> k" "rk_max_position_allocation cfg = Fin a" "0 \<le> a"
    "rk_leverage cfg = Fin l" "0 \<le> l" "l \<le> 1"
    by (cases "rk_capital cfg"; cases "rk_max_position_allocation cfg"; cases "rk_leverage cfg")
       (auto simp: config_ok_def)
  then obtain w where "rnd (1 - l) = Fin w" "0 \<le> w"
    using binary64.rd_between[of 0 1 "1 - l"] representable_one by (auto simp: representable_def)
  with k show ?thesis
    by (auto simp: max_notional_def fmin_def intro!: binary64.rd_nonneg mult_nonneg_nonneg)
qed

lemma drawdown_scale_unit:
  assumes "representable m" "d \<noteq> NaN"
  shows "\<exists>v. drawdown_scale d (Fin m) = Fin v \<and> 0 \<le> v \<and> v \<le> 1"
proof (cases "fle d (Fin 0) \<or> fle (Fin m) d")
  case True
  then show ?thesis by (auto simp: drawdown_scale_def)
next
  case False
  then obtain x where x: "d = Fin x" "0 < x" "x < m" using assms(2) by (cases d) auto
  then have b: "nonneg (fsub (Fin m) d)" "fle (fsub (Fin m) d) (Fin m)"
    using assms(1) by (auto intro!: binary64.rd_nonneg representable_upper)
  then obtain w where w: "fsub (Fin m) d = Fin w" "0 \<le> w" "w \<le> m" by (cases "fsub (Fin m) d") auto
  have "drawdown_scale d (Fin m) = fdiv (Fin w) (Fin m)" using False w(1) by (simp add: drawdown_scale_def)
  then show ?thesis using fdiv_le_one[OF w(2,3)] x by auto
qed

lemma current_drawdown_number:
  "is_Fin peak \<Longrightarrow> is_Fin eq \<Longrightarrow> current_drawdown peak eq \<noteq> NaN"
proof -
  assume "is_Fin peak" "is_Fin eq"
  then obtain a b where [simp]: "peak = Fin a" "eq = Fin b" by (cases peak; cases eq) auto
  show ?thesis
  proof (cases "a \<le> 0 \<or> a \<le> b")
    case False
    then have "nonneg (rnd (a - b))" by (intro binary64.rd_nonneg) auto
    with False show ?thesis by (cases "rnd (a - b)") (auto simp: current_drawdown_def finf_def)
  qed (auto simp: current_drawdown_def)
qed

text \<open>A sized entry: what \<open>compute_position_size\<close> guarantees on finite inputs.\<close>

lemma position_size_bounds:
  assumes "config_ok cfg" "0 < q" "d \<noteq> NaN" "is_Fin (fmul (rk_stop_atr_multiplier cfg) (Fin a))"
    and s: "s = compute_position_size i (Fin a) (Fin q) d cfg" "\<not> fle (sz_quantity s) (Fin 0)"
  shows "positive (sz_quantity s)" "fle (sz_notional s) (max_notional cfg)"
    "positive (sz_stop_distance s)" "sz_stop_distance s = fmul (rk_stop_atr_multiplier cfg) (Fin a)" "0 < a"
proof -
  have a: "0 < a" using s by (cases "0 < a") (auto simp: compute_position_size_def Let_def)
  let ?st = "fmul (rk_stop_atr_multiplier cfg) (Fin a)" and ?mx = "max_notional cfg"
  have st: "\<not> fle ?st (Fin 0)" using s a by (auto simp: compute_position_size_def Let_def)
  then obtain st where st: "?st = Fin st" "0 < st" using assms(4) by (cases ?st) auto
  obtain m where m: "rk_max_drawdown cfg = Fin m" "representable m"
    using assms(1) by (cases "rk_max_drawdown cfg") (auto simp: config_ok_def)
  obtain v where v: "drawdown_scale d (Fin m) = Fin v" "0 \<le> v" "v \<le> 1"
    using drawdown_scale_unit[OF m(2) assms(3)] by blast
  obtain b where b: "fmul (rk_capital cfg) (risk_budget_pct cfg i) = Fin b" "0 \<le> b"
    using config_ok_budget[OF assms(1)] by blast
  define q0 where "q0 = fdiv (fmul (Fin b) (Fin v)) (Fin st)"
  have "nonneg (fmul (Fin b) (Fin v))" using b v by (intro fmul_nonneg) auto
  then have q0: "nonneg q0" unfolding q0_def using st by (intro fdiv_nonneg) auto
  have mx: "nonneg ?mx" using assms(1) by (rule max_notional_number)
  have fields: "sz_quantity s = (if flt ?mx (fmul q0 (Fin q)) then fdiv ?mx (Fin q) else q0)"
    "sz_notional s = (if flt ?mx (fmul q0 (Fin q)) then ?mx else fmul q0 (Fin q))"
    "sz_stop_distance s = ?st"
    using a st assms(2) m(1) v(1) b(1)
    by (simp_all add: s(1) compute_position_size_def Let_def q0_def)
  have "nonneg (fdiv ?mx (Fin q))" using mx assms(2) by (intro fdiv_nonneg) auto
  then have "nonneg (sz_quantity s)" using q0 fields(1) by simp
  then show "positive (sz_quantity s)" using s(2) by (cases "sz_quantity s") auto
  have "fmul q0 (Fin q) \<noteq> NaN" using q0 assms(2) by (cases q0) (auto simp: finf_def)
  then show "fle (sz_notional s) ?mx" using mx fields(2) by (auto simp: not_flt_iff dest: fle_not_NaN)
  show "positive (sz_stop_distance s)" "sz_stop_distance s = ?st" "0 < a" using fields(3) st a by auto
qed

lemma evaluate_buy:
  assumes "tp_action p = BUY" "rv_approved (evaluate cfg p s)"
  shows "evaluate cfg p s = size_buy cfg p s" "\<not> ks_active (pr_kill_switch s)"
    "\<not> drawdown_exceeded (pr_peak_equity s) (pr_equity s) cfg"
    "\<not> daily_loss_exceeded (pr_realized_pnl_today s) (rk_capital cfg) cfg"
    "pr_open_positions s < rk_max_open_positions cfg"
  using assms by (auto simp: evaluate_def reject_def split: if_splits)

section \<open>The kill switch as a latch\<close>

datatype ks_event = KsActivate string int | KsReset string string

definition ks_step :: "kill_switch_state \<Rightarrow> ks_event \<Rightarrow> kill_switch_state" where
  "ks_step s e = (case e of
       KsActivate reason ts \<Rightarrow> ks_activate s reason ts
     | KsReset by_whom approval_id \<Rightarrow> fst (ks_reset s by_whom approval_id))"

definition human_reset :: "ks_event \<Rightarrow> bool" where
  "human_reset e = (case e of KsActivate _ _ \<Rightarrow> False | KsReset by_whom approval_id \<Rightarrow> by_whom = ''human'' \<and> approval_id \<noteq> [])"

interpretation kill_switch: latch_machine ks_step "\<lambda>_. True" "\<lambda>_. True" ks_active "\<lambda>s. s" human_reset
  by unfold_locales
     (auto simp: ks_step_def ks_activate_def ks_reset_def human_reset_def split: ks_event.splits)

lemma ks_round_trip: "ks_from_dict (ks_to_dict s) = s"
  by (simp add: ks_from_dict_def ks_to_dict_def get_or_def)

section \<open>Properties\<close>

definition buy_quantity :: "risk_config \<Rightarrow> trade_proposal \<Rightarrow> portfolio_risk_state \<Rightarrow> pyfloat" where
  \<comment> \<open>the quantity an entry is sized to\<close>
  "buy_quantity cfg p s =
     (let a = (case tp_atr p of None \<Rightarrow> Fin 0 | Some a \<Rightarrow> a) in
      if fle a (Fin 0)
      then (if flt (Fin 0) (tp_price p) then fdiv (max_notional cfg) (tp_price p) else Fin 0)
      else sz_quantity (compute_position_size (tp_intensity p) a (tp_price p)
             (current_drawdown (pr_peak_equity s) (pr_equity s)) cfg))"

definition risk_rules :: "risk_config \<Rightarrow> trade_proposal \<Rightarrow> portfolio_risk_state \<Rightarrow> (bool \<times> string) list" where
  \<comment> \<open>the rejection rules in the order of priority the module documents\<close>
  "risk_rules cfg p s =
     [(ks_active (pr_kill_switch s), ''kill_switch''),
      (drawdown_exceeded (pr_peak_equity s) (pr_equity s) cfg, ''max_drawdown''),
      (tp_action p = SELL \<and> pr_open_positions s = 0, ''no_position_to_reduce''),
      (tp_action p = BUY \<and> daily_loss_exceeded (pr_realized_pnl_today s) (rk_capital cfg) cfg, ''max_daily_loss''),
      (tp_action p = BUY \<and> rk_max_open_positions cfg \<le> pr_open_positions s, ''max_open_positions''),
      (tp_action p = BUY \<and> rk_stop_loss_required cfg \<and>
         (case tp_atr p of None \<Rightarrow> True | Some a \<Rightarrow> fle a (Fin 0)), ''stop_unavailable''),
      (tp_action p = BUY \<and> fle (buy_quantity cfg p s) (Fin 0), ''zero_size'')]"

text \<open>
  C1 The risk engine decides by a fixed list of rules: the first rule that applies, in the
  documented order of priority, is the reason of the rejection, and a proposal is approved
  exactly when no rule applies.  In particular the kill switch and the drawdown limit reject
  every action, and the daily loss limit never blocks a sell.
\<close>

theorem evaluate_is_first_applicable_rule:
  "case find fst (risk_rules cfg p s) of
     Some (_, r) \<Rightarrow> evaluate cfg p s = reject r
   | None \<Rightarrow> rv_approved (evaluate cfg p s)"
  by (cases "tp_action p")
     (simp_all add: evaluate_def risk_rules_def size_buy_def buy_quantity_def approve_def Let_def)

lemma sized_distance_finite:
  assumes "config_ok cfg" "is_Fin (rk_stop_atr_multiplier cfg)" "d \<noteq> NaN" "a \<noteq> PInf"
    and s: "\<not> fle (sz_quantity (compute_position_size i a (Fin q) d cfg)) (Fin 0)"
  shows "\<exists>x. a = Fin x \<and> is_Fin (fmul (rk_stop_atr_multiplier cfg) (Fin x))"
proof -
  let ?st = "fmul (rk_stop_atr_multiplier cfg) a"
  have a: "flt (Fin 0) a" "\<not> fle ?st (Fin 0)" "0 < q"
    using s by (auto simp: compute_position_size_def Let_def split: if_splits)
  obtain k where k: "rk_stop_atr_multiplier cfg = Fin k" using assms(2) by (cases "rk_stop_atr_multiplier cfg") auto
  have "?st \<noteq> PInf"
  proof
    assume st: "?st = PInf"
    obtain m where m: "rk_max_drawdown cfg = Fin m" "representable m"
      using assms(1) by (cases "rk_max_drawdown cfg") (auto simp: config_ok_def)
    obtain v where v: "drawdown_scale d (Fin m) = Fin v" "0 \<le> v" "v \<le> 1"
      using drawdown_scale_unit[OF m(2) assms(3)] by blast
    obtain b where b: "fmul (rk_capital cfg) (risk_budget_pct cfg i) = Fin b" "0 \<le> b"
      using config_ok_budget[OF assms(1)] by blast
    have "representable b"
      using b(1) by (cases "rk_capital cfg"; cases "risk_budget_pct cfg i") (auto simp: finf_def dest: rnd_representable split: if_splits)
    moreover have "b * v \<le> b" using b(2) v(3) by (simp add: mult_left_le)
    ultimately have "fle (fmul (Fin b) (Fin v)) (Fin b)" by (simp add: representable_upper)
    moreover have "nonneg (fmul (Fin b) (Fin v))" using b v by (intro fmul_nonneg) auto
    ultimately obtain w where w: "fmul (Fin b) (Fin v) = Fin w" by (cases "fmul (Fin b) (Fin v)") auto
    have "\<not> flt (max_notional cfg) (Fin 0)" using max_notional_number[OF assms(1)] flt_asym by blast
    then have "sz_quantity (compute_position_size i a (Fin q) d cfg) = Fin 0"
      using a m(1) v(1) b(1) st w by (simp add: compute_position_size_def Let_def del: fmul.simps) simp
    with s show False by simp
  qed
  moreover have "?st \<noteq> NaN" using a(1) k assms(4) by (cases a) (auto simp: finf_def binary64.rd_number)
  ultimately have fin: "is_Fin ?st" using a(2) by (cases ?st) auto
  moreover obtain x where "a = Fin x" using a(1) assms(4) by (cases a) auto
  ultimately show ?thesis by simp
qed
text \<open>
  C3 An approved entry, with a stop or without, respects every limit: its quantity is positive,
  its notional is at most the allocation limit, the kill switch is off, neither loss limit is
  reached, and there is room for another position.  It goes without a stop only where the
  configuration requires none, and then its quantity is the notional over the price; otherwise
  its stop lies at a positive distance.  (A price or an equity that is no finite number is the
  caller's to exclude, as is an infinite ATR.)
\<close>

theorem approved_buy_is_bounded:
  assumes "config_ok cfg" "is_Fin (rk_stop_atr_multiplier cfg)" "tp_action p = BUY" "tp_price p = Fin q" "tp_atr p \<noteq> Some PInf"
    and "is_Fin (pr_peak_equity s)" "is_Fin (pr_equity s)" "rv_approved (evaluate cfg p s)"
  shows "\<exists>sz. rv_size (evaluate cfg p s) = Some sz \<and> positive (sz_quantity sz) \<and>
      fle (sz_notional sz) (max_notional cfg) \<and>
      (case rv_stop_loss (evaluate cfg p s) of
         None \<Rightarrow> \<not> rk_stop_loss_required cfg \<and> sz_quantity sz = fdiv (sz_notional sz) (tp_price p)
       | Some stop \<Rightarrow> positive (sz_stop_distance sz)) \<and>
      \<not> ks_active (pr_kill_switch s) \<and>
      \<not> drawdown_exceeded (pr_peak_equity s) (pr_equity s) cfg \<and>
      \<not> daily_loss_exceeded (pr_realized_pnl_today s) (rk_capital cfg) cfg \<and>
      pr_open_positions s < rk_max_open_positions cfg"
proof -
  note e = evaluate_buy[OF assms(3,8)]
  let ?d = "current_drawdown (pr_peak_equity s) (pr_equity s)"
  let ?a = "case tp_atr p of None \<Rightarrow> Fin 0 | Some a \<Rightarrow> a"
  have d: "?d \<noteq> NaN" using assms(6,7) by (rule current_drawdown_number)
  show ?thesis
  proof (cases "fle ?a (Fin 0)")
    case True
    have mx: "nonneg (max_notional cfg)" using assms(1) by (rule max_notional_number)
    from True assms(4,8) have v: "rv_size (evaluate cfg p s) = Some \<lparr>sz_quantity = fdiv (max_notional cfg) (Fin q),
        sz_notional = max_notional cfg, sz_stop_distance = Fin 0, sz_risk_amount = Fin 0, sz_capped = True\<rparr>"
      "0 < q" "\<not> fle (fdiv (max_notional cfg) (Fin q)) (Fin 0)" "rv_stop_loss (evaluate cfg p s) = None"
      unfolding e(1) by (auto simp: size_buy_def Let_def reject_def split: if_splits)
    have "nonneg (fdiv (max_notional cfg) (Fin q))" using mx v(2) by (intro fdiv_nonneg) auto
    then have "positive (fdiv (max_notional cfg) (Fin q))" using v(3) by (cases "fdiv (max_notional cfg) (Fin q)") auto
    moreover have "fle (max_notional cfg) (max_notional cfg)" using mx by (cases "max_notional cfg") auto
    moreover have "\<not> rk_stop_loss_required cfg"
      using True assms(3,8) e(2-5) by (auto simp: evaluate_def reject_def split: if_splits option.splits)
    ultimately show ?thesis using v(1,4) e(2-5) assms(4) by simp
  next
    case False
    define sz where "sz = compute_position_size (tp_intensity p) ?a (Fin q) ?d cfg"
    have sz: "rv_size (evaluate cfg p s) = Some sz" "\<not> fle (sz_quantity sz) (Fin 0)" "rv_stop_loss (evaluate cfg p s) \<noteq> None"
      using False assms(4,8) unfolding e(1)
      by (auto simp: size_buy_def Let_def reject_def sz_def split: if_splits)
    have "?a \<noteq> PInf" using assms(5) by (auto split: option.splits)
    from sized_distance_finite[OF assms(1,2) d this sz(2)[unfolded sz_def]] obtain x where
      x: "?a = Fin x" "is_Fin (fmul (rk_stop_atr_multiplier cfg) (Fin x))" by blast
    have "0 < q" using sz(2) by (auto simp: sz_def compute_position_size_def Let_def split: if_splits)
    from position_size_bounds[OF assms(1) this d x(2) sz_def[unfolded x(1)] sz(2)] sz(1,3) e(2-5) show ?thesis
      by (auto split: option.splits)
  qed
qed

definition example_proposal :: trade_proposal where
  "example_proposal =
     \<lparr>tp_action = BUY, tp_intensity = ''low'', tp_price = Fin 2000, tp_atr = Some (Fin 16), tp_timestamp_ms = 0\<rparr>"

definition example_risk_state :: portfolio_risk_state where
  "example_risk_state =
     \<lparr>pr_open_positions = 0, pr_realized_pnl_today = Fin 0, pr_peak_equity = Fin 1000,
      pr_equity = Fin 1000, pr_kill_switch = kill_switch_clear\<rparr>"

definition unstopped_config :: risk_config where
  "unstopped_config = default_risk_config\<lparr>rk_stop_loss_required := False\<rparr>"

definition unstopped_proposal :: trade_proposal where
  "unstopped_proposal = example_proposal\<lparr>tp_atr := None\<rparr>"

theorem approved_buy_is_bounded_witness:
  "rv_reason (evaluate unstopped_config unstopped_proposal example_risk_state) = ''ok_unstopped'' \<and>
   (\<exists>sz. rv_size (evaluate unstopped_config unstopped_proposal example_risk_state) = Some sz \<and>
      positive (sz_quantity sz) \<and> fle (sz_notional sz) (max_notional unstopped_config)) \<and>
   (\<exists>sz. rv_size (evaluate default_risk_config example_proposal example_risk_state) = Some sz \<and>
      positive (sz_quantity sz) \<and> fle (sz_notional sz) (max_notional default_risk_config))"
proof (intro conjI)
  show "rv_reason (evaluate unstopped_config unstopped_proposal example_risk_state) = ''ok_unstopped''" by code_simp
  have ok: "config_ok unstopped_config" "config_ok default_risk_config"
    "is_Fin (rk_stop_atr_multiplier unstopped_config)" "is_Fin (rk_stop_atr_multiplier default_risk_config)"
    "rv_approved (evaluate unstopped_config unstopped_proposal example_risk_state)"
    "rv_approved (evaluate default_risk_config example_proposal example_risk_state)"
    by code_simp+
  note b = approved_buy_is_bounded[OF ok(1,3) _ _ _ _ _ ok(5)] approved_buy_is_bounded[OF ok(2,4) _ _ _ _ _ ok(6)]
  show "\<exists>sz. rv_size (evaluate unstopped_config unstopped_proposal example_risk_state) = Some sz \<and>
      positive (sz_quantity sz) \<and> fle (sz_notional sz) (max_notional unstopped_config)"
    using b(1) by (auto simp: unstopped_proposal_def example_proposal_def example_risk_state_def)
  show "\<exists>sz. rv_size (evaluate default_risk_config example_proposal example_risk_state) = Some sz \<and>
      positive (sz_quantity sz) \<and> fle (sz_notional sz) (max_notional default_risk_config)"
    using b(2) by (auto simp: example_proposal_def example_risk_state_def)
qed

text \<open>
  The stop and the target of an approved entry bracket its price: the stop lies at or
  below it and the target at or above it.
\<close>

theorem approved_buy_brackets_price:
  assumes "config_ok cfg" "tp_action p = BUY" "tp_price p = Fin q" "representable q"
    and "tp_atr p = Some (Fin a)" "0 < a" "is_Fin (fmul (rk_stop_atr_multiplier cfg) (Fin a))"
    and "rk_take_profit_r_multiple cfg = Fin r" "0 < r"
    and "is_Fin (pr_peak_equity s)" "is_Fin (pr_equity s)" "rv_approved (evaluate cfg p s)"
  shows "\<exists>st tg. rv_stop_loss (evaluate cfg p s) = Some st \<and> rv_take_profit (evaluate cfg p s) = Some tg \<and>
      fle st (tp_price p) \<and> fle (tp_price p) tg"
proof -
  note e = evaluate_buy[OF assms(2,12)]
  let ?d = "current_drawdown (pr_peak_equity s) (pr_equity s)" and ?m = "fmul (rk_stop_atr_multiplier cfg) (Fin a)"
  define sz where "sz = compute_position_size (tp_intensity p) (Fin a) (Fin q) ?d cfg"
  have d: "?d \<noteq> NaN" using assms(10,11) by (rule current_drawdown_number)
  have sz: "\<not> fle (sz_quantity sz) (Fin 0)"
    and st: "rv_stop_loss (evaluate cfg p s) = Some (initial_stop (Fin q) (Fin a) cfg)"
    and tg: "rv_take_profit (evaluate cfg p s) = Some (take_profit (Fin q) (initial_stop (Fin q) (Fin a) cfg) cfg)"
    using assms(3,5,6,12) unfolding e(1)
    by (auto simp: size_buy_def Let_def reject_def sz_def split: if_splits)
  then have "0 < q" by (auto simp: sz_def compute_position_size_def Let_def split: if_splits)
  then have "positive ?m" using position_size_bounds(3,4)[OF assms(1) _ d assms(7) sz_def sz] by simp
  then obtain w where w: "?m = Fin w" "0 < w" using assms(7) by (cases ?m) auto
  then have s1: "fle (initial_stop (Fin q) (Fin a) cfg) (Fin q)"
    using assms(4) by (auto simp: initial_stop_def intro: representable_upper)
  have "nonneg (fsub (Fin q) (initial_stop (Fin q) (Fin a) cfg))"
    using s1 by (cases "initial_stop (Fin q) (Fin a) cfg") (auto simp: fsub_def intro: binary64.rd_nonneg)
  then have "nonneg (fmul (Fin r) (fsub (Fin q) (initial_stop (Fin q) (Fin a) cfg)))"
    using assms(9) by (cases "fsub (Fin q) (initial_stop (Fin q) (Fin a) cfg)")
      (auto simp: finf_def intro: binary64.rd_nonneg)
  then have "fle (Fin q) (take_profit (Fin q) (initial_stop (Fin q) (Fin a) cfg) cfg)"
    using assms(4,8) by (auto simp: take_profit_def intro: fadd_ge_left)
  with s1 st tg assms(3) show ?thesis by auto
qed

theorem approved_buy_brackets_price_witness:
  "\<exists>st tg. rv_stop_loss (evaluate default_risk_config example_proposal example_risk_state) = Some st \<and>
      rv_take_profit (evaluate default_risk_config example_proposal example_risk_state) = Some tg \<and>
      fle st (tp_price example_proposal) \<and> fle (tp_price example_proposal) tg"
proof (rule approved_buy_brackets_price)
  show "config_ok default_risk_config" by code_simp
  show "is_Fin (fmul (rk_stop_atr_multiplier default_risk_config) (Fin 16))" by code_simp
  show "rv_approved (evaluate default_risk_config example_proposal example_risk_state)" by code_simp
  show "representable 2000" by (rule representable_numeral) simp
  show "rk_take_profit_r_multiple default_risk_config = Fin 2" by (simp add: default_risk_config_def)
qed (simp_all add: example_proposal_def example_risk_state_def)

text \<open>
  A trailing stop never moves down, over any sequence of highs and ranges, whatever the
  numbers are.
\<close>

theorem trailing_stop_never_falls:
  assumes "stop \<noteq> NaN"
  shows "fle stop (foldl (\<lambda>st (high, a). update_trailing st high a cfg) stop moves)"
  using assms
proof (induction moves arbitrary: stop)
  case (Cons m ms)
  obtain h a where m: "m = (h, a)" by (cases m)
  have "fle stop (update_trailing stop h a cfg)"
    using Cons.prems by (auto simp: update_trailing_def fmax_ge1)
  then show ?case using Cons.IH[of "update_trailing stop h a cfg"] m
    by (auto dest: fle_not_NaN intro: fle_trans)
qed simp

theorem trailing_stop_never_falls_witness:
  "fle (Fin 90) (foldl (\<lambda>st (high, a). update_trailing st high a default_risk_config) (Fin 90)
     [(Fin 120, Fin 4), (Fin 100, Fin 50)])"
  by (rule trailing_stop_never_falls) simp

text \<open>
  C6 Once active, the kill switch stays active with its first reason and time, across
  activations, resets that are not a human's with an approval id, and a save and restore of
  its dict; until then every proposal is rejected.
\<close>

theorem kill_switch_holds_until_human_reset:
  assumes "ks_active k" "list_all (\<lambda>e. \<not> human_reset e) es"
  shows "foldl ks_step k es = k \<and>
    evaluate cfg p (s\<lparr>pr_kill_switch := ks_from_dict (ks_to_dict (foldl ks_step k es))\<rparr>) = reject ''kill_switch''"
proof -
  have "list_all (\<lambda>_. True) es" by (induction es) auto
  then have "foldl ks_step k es = k"
    using kill_switch.latched_run[of es k] assms by (auto simp: list_all_iff)
  then show ?thesis using assms(1) by (simp add: ks_round_trip evaluate_def)
qed

theorem kill_switch_holds_until_human_reset_witness:
  "foldl ks_step (ks_activate kill_switch_clear ''drawdown'' 7)
     [KsReset ''llm'' ''a1'', KsActivate ''other'' 9, KsReset ''human'' []] =
     ks_activate kill_switch_clear ''drawdown'' 7 \<and>
   evaluate default_risk_config example_proposal
     (example_risk_state\<lparr>pr_kill_switch := ks_from_dict (ks_to_dict
       (foldl ks_step (ks_activate kill_switch_clear ''drawdown'' 7)
          [KsReset ''llm'' ''a1'', KsActivate ''other'' 9, KsReset ''human'' []]))\<rparr>) = reject ''kill_switch''"
  by (rule kill_switch_holds_until_human_reset)
     (simp_all add: ks_activate_def kill_switch_clear_def human_reset_def)

text \<open>
  The drawdown guard and the drawdown used for sizing agree: with finite equity and a
  positive limit, the guard fires exactly when the drawdown has reached the limit, which is
  where the sizing scale is zero, and before that the scale lies between 0 and 1.
\<close>

theorem drawdown_guard_matches_scale:
  assumes "rk_max_drawdown cfg = Fin m" "representable m" "0 < m"
    and "peak = Fin a" "eq = Fin b"
  shows "(drawdown_exceeded peak eq cfg \<longleftrightarrow> fle (Fin m) (current_drawdown peak eq)) \<and>
    (if drawdown_exceeded peak eq cfg then drawdown_scale (current_drawdown peak eq) (Fin m) = Fin 0
     else nonneg (drawdown_scale (current_drawdown peak eq) (Fin m)) \<and>
          fle (drawdown_scale (current_drawdown peak eq) (Fin m)) (Fin 1))"
proof -
  have num: "current_drawdown peak eq \<noteq> NaN" using assms(4,5) by (intro current_drawdown_number) auto
  have "rnd ((a - a) / a) = Fin 0" by simp
  then have iff: "drawdown_exceeded peak eq cfg \<longleftrightarrow> fle (Fin m) (current_drawdown peak eq)"
    using assms by (auto simp: drawdown_exceeded_def current_drawdown_def)
  moreover have "drawdown_scale (current_drawdown peak eq) (Fin m) = Fin 0"
    if "fle (Fin m) (current_drawdown peak eq)"
    using that assms(3) by (cases "current_drawdown peak eq") (auto simp: drawdown_scale_def)
  ultimately show ?thesis using drawdown_scale_unit[OF assms(2) num] by auto
qed

theorem drawdown_guard_matches_scale_witness:
  "(drawdown_exceeded (Fin 1000) (Fin 960) (default_risk_config\<lparr>rk_max_drawdown := Fin (1/2)\<rparr>) \<longleftrightarrow>
      fle (Fin (1/2)) (current_drawdown (Fin 1000) (Fin 960))) \<and>
    (if drawdown_exceeded (Fin 1000) (Fin 960) (default_risk_config\<lparr>rk_max_drawdown := Fin (1/2)\<rparr>)
     then drawdown_scale (current_drawdown (Fin 1000) (Fin 960)) (Fin (1/2)) = Fin 0
     else nonneg (drawdown_scale (current_drawdown (Fin 1000) (Fin 960)) (Fin (1/2))) \<and>
          fle (drawdown_scale (current_drawdown (Fin 1000) (Fin 960)) (Fin (1/2))) (Fin 1))"
proof (rule drawdown_guard_matches_scale)
  show "representable (1/2)" unfolding representable_def by code_simp
qed simp_all

end
