(* ===== verification/Engine.thy ===== *)
theory Engine
  imports Portfolio Risk
begin

text \<open>
  The paper trading engine (\<open>application/services/paper_engine.py\<close>): one record for the
  object's state, one definition per method.  \<open>on_price\<close> returns the state beside the event
  or the exception, because the fields written before a raise keep their new values.  The
  day key the engine is built with is an argument (\<open>utc_day_index\<close> by default), and the
  kill switch object, which other services may hold too, is the field \<open>pe_kill_switch\<close>: what
  they do to it is a step that changes only that field.
\<close>

section \<open>State\<close>

record paper_position =
  pp_quantity :: pyfloat
  pp_entry_price :: pyfloat
  pp_stop_loss :: pyfloat
  pp_take_profit :: "pyfloat option"
  pp_highest_price :: pyfloat
  pp_entry_ts :: int

record paper_event =
  pv_filled :: bool
  pv_action :: action
  pv_exit_reason :: string
  pv_risk_reason :: string
  pv_fill :: "fill option"

record paper_engine =
  pe_config :: risk_config
  pe_fees :: fee_model
  pe_slippage :: slippage_model
  pe_portfolio :: portfolio
  pe_kill_switch :: kill_switch_state
  pe_position :: "paper_position option"
  pe_realized_today :: pyfloat
  pe_day :: "int option"
  pe_last_ts :: "int option"
  pe_peak :: pyfloat
  pe_last_price :: "pyfloat option"
  pe_last_atr :: pyfloat
  pe_rejected :: int
  pe_daily_triggered :: int
  pe_daily_cycles :: int

definition new_engine :: "risk_config \<Rightarrow> fee_model \<Rightarrow> slippage_model \<Rightarrow> paper_engine" where
  "new_engine cfg fees slip =
     \<lparr>pe_config = cfg, pe_fees = fees, pe_slippage = slip,
      pe_portfolio = new_portfolio (rk_capital cfg) (rk_capital cfg),
      pe_kill_switch = kill_switch_clear, pe_position = None, pe_realized_today = Fin 0,
      pe_day = None, pe_last_ts = None, pe_peak = rk_capital cfg, pe_last_price = None,
      pe_last_atr = Fin 0, pe_rejected = 0, pe_daily_triggered = 0, pe_daily_cycles = 0\<rparr>"

definition daily_loss_active :: "paper_engine \<Rightarrow> bool" where
  "daily_loss_active e =
     daily_loss_exceeded (pe_realized_today e) (rk_capital (pe_config e)) (pe_config e)"

definition peak_equity :: "paper_engine \<Rightarrow> pyfloat" where
  "peak_equity e = fmax (pe_peak e) (equity (pe_portfolio e) (float_or_zero (pe_last_price e)))"

definition attach_kill_switch :: "paper_engine \<Rightarrow> kill_switch_state \<Rightarrow> paper_engine" where
  "attach_kill_switch e k = e\<lparr>pe_kill_switch := k\<rparr>"

definition mark_to_market :: "paper_engine \<Rightarrow> pyfloat \<Rightarrow> paper_engine \<times> pyfloat" where
  "mark_to_market e price =
     (let eq = equity (pe_portfolio e) price
      in (if flt (pe_peak e) eq then e\<lparr>pe_peak := eq\<rparr> else e, eq))"

section \<open>Opening and closing\<close>

definition event :: "bool \<Rightarrow> action \<Rightarrow> paper_event" where
  "event filled a =
     \<lparr>pv_filled = filled, pv_action = a, pv_exit_reason = [], pv_risk_reason = [], pv_fill = None\<rparr>"

definition make_fill :: "paper_engine \<Rightarrow> action \<Rightarrow> pyfloat \<Rightarrow> pyfloat \<Rightarrow> int \<Rightarrow> fill" where
  "make_fill e a price quantity ts =
     (let rate = slippage_rate (pe_slippage e);
          sign = (if a = SELL then Fin (- 1) else Fin 1);
          exec_price = fmul price (fadd (Fin 1) (fmul sign rate));
          notional = fmul quantity exec_price
      in \<lparr>fl_timestamp_ms = ts, fl_action = a, fl_price = price, fl_exec_price = exec_price,
          fl_quantity = quantity, fl_notional = notional, fl_fee = fee (pe_fees e) notional,
          fl_slippage_cost = fmul quantity (fabs (fsub exec_price price))\<rparr>)"

definition mark_peak_if_needed :: "paper_engine \<Rightarrow> pyfloat \<Rightarrow> paper_engine" where
  "mark_peak_if_needed e price =
     (let eq = equity (pe_portfolio e) price in if flt (pe_peak e) eq then e\<lparr>pe_peak := eq\<rparr> else e)"

definition close_position :: "paper_engine \<Rightarrow> paper_position \<Rightarrow> pyfloat \<Rightarrow> int \<Rightarrow> string \<Rightarrow> paper_engine \<times> paper_event" where
  \<comment> \<open>\<open>pos\<close> is the open position the method asserts\<close>
  "close_position e pos price ts reason =
     (let f = make_fill e SELL price (pp_quantity pos) ts;
          before = pf_realized_pnl (pe_portfolio e);
          p = apply_sell (pe_portfolio e) f;
          e1 = e\<lparr>pe_portfolio := p,
                 pe_realized_today := fadd (pe_realized_today e) (fsub (pf_realized_pnl p) before)\<rparr>;
          e2 = mark_peak_if_needed e1 (fl_exec_price f)
      in (e2\<lparr>pe_position := None\<rparr>,
          (event True SELL)\<lparr>pv_exit_reason := reason, pv_fill := Some f\<rparr>))"

definition entry_fill ::
  "paper_engine \<Rightarrow> pyfloat \<Rightarrow> pyfloat \<Rightarrow> int \<Rightarrow> fill result" where
  \<comment> \<open>the fill \<open>_open_position\<close> books: the asked quantity, or what the cash buys\<close>
  "entry_fill e size_quantity price ts =
     (let exec_price = fmul price (fadd (Fin 1) (slippage_rate (pe_slippage e)));
          notional = fmul size_quantity exec_price;
          total_cost = fadd notional (fee (pe_fees e) notional);
          cash = pf_cash (pe_portfolio e)
      in bindE (if flt (fadd cash BUY_TOLERANCE) total_cost
                then bindE (pdiv cash (rnd (1001 / 1000))) (\<lambda>c. pdiv c exec_price)
                else Inr size_quantity)
         (\<lambda>quantity.
           let notional = fmul quantity exec_price
           in Inr \<lparr>fl_timestamp_ms = ts, fl_action = BUY, fl_price = price, fl_exec_price = exec_price,
                   fl_quantity = quantity, fl_notional = notional, fl_fee = fee (pe_fees e) notional,
                   fl_slippage_cost = fmul quantity (fsub exec_price price)\<rparr>))"

definition open_position ::
  "paper_engine \<Rightarrow> pyfloat \<Rightarrow> pyfloat \<Rightarrow> pyfloat \<Rightarrow> pyfloat option \<Rightarrow> int \<Rightarrow>
   paper_engine \<times> paper_event result" where
  "open_position e size_quantity price stop target ts =
     (case entry_fill e size_quantity price ts of
        Inl err \<Rightarrow> (e, Inl err)
      | Inr f \<Rightarrow>
          (case apply_buy (pe_portfolio e) f of
             (p, Inl err) \<Rightarrow> (e\<lparr>pe_portfolio := p\<rparr>, Inl err)
           | (p, Inr _) \<Rightarrow>
               let e1 = e\<lparr>pe_portfolio := p,
                          pe_position := Some
                            \<lparr>pp_quantity = fl_quantity f, pp_entry_price = fl_exec_price f,
                             pp_stop_loss = stop, pp_take_profit = target,
                             pp_highest_price = fl_exec_price f, pp_entry_ts = ts\<rparr>\<rparr>
               in (mark_peak_if_needed e1 (fl_exec_price f),
                   Inr ((event True BUY)\<lparr>pv_fill := Some f\<rparr>))))"

definition trail_position :: "paper_engine \<Rightarrow> paper_position \<Rightarrow> pyfloat \<Rightarrow> paper_position" where
  \<comment> \<open>the position with its high and its trailing stop brought up to the price\<close>
  "trail_position e pos price =
     (let highest = fmax (pp_highest_price pos) price
      in pos\<lparr>pp_stop_loss := update_trailing (pp_stop_loss pos) highest (pe_last_atr e) (pe_config e),
             pp_highest_price := highest\<rparr>)"

definition check_exits :: "paper_engine \<Rightarrow> pyfloat \<Rightarrow> int \<Rightarrow> paper_engine \<times> paper_event option" where
  "check_exits e price ts =
     (case pe_position e of
        None \<Rightarrow> (e, None)
      | Some old \<Rightarrow>
          let pos = trail_position e old price;
              e1 = e\<lparr>pe_position := Some pos\<rparr>
          in if fle price (pp_stop_loss pos) then
               (case close_position e1 pos price ts
                  (if flt (pp_entry_price pos) (pp_stop_loss pos) then ''trailing_stop'' else ''stop_loss'')
                of (e2, ev) \<Rightarrow> (e2, Some ev))
             else if (case pp_take_profit pos of None \<Rightarrow> False | Some t \<Rightarrow> fle t price) then
               (case close_position e1 pos price ts ''take_profit'' of (e2, ev) \<Rightarrow> (e2, Some ev))
             else (e1, None))"

section \<open>on_price\<close>

definition roll_day :: "(int \<Rightarrow> int) \<Rightarrow> paper_engine \<Rightarrow> int \<Rightarrow> paper_engine" where
  \<comment> \<open>the timestamp and day bookkeeping at the start of \<open>on_price\<close>\<close>
  "roll_day day_key e ts =
     (let day = day_key ts; e1 = e\<lparr>pe_last_ts := Some ts\<rparr>
      in case pe_day e of
           None \<Rightarrow> e1\<lparr>pe_day := Some day\<rparr>
         | Some d \<Rightarrow> if day \<noteq> d then e1\<lparr>pe_day := Some day, pe_realized_today := Fin 0\<rparr> else e1)"

definition float_or :: "pyfloat option \<Rightarrow> pyfloat \<Rightarrow> pyfloat" where
  \<comment> \<open>\<open>x or default\<close>: None and zero are false\<close>
  "float_or x d = (case x of None \<Rightarrow> d | Some v \<Rightarrow> if feq v (Fin 0) then d else v)"

definition verdict_on ::
  "paper_engine \<Rightarrow> trading_decision \<Rightarrow> pyfloat \<Rightarrow> pyfloat option \<Rightarrow> int \<Rightarrow> risk_verdict" where
  \<comment> \<open>the proposal and the risk state \<open>on_price\<close> builds, evaluated\<close>
  "verdict_on e d price atr_now ts =
     evaluate (pe_config e)
       \<lparr>tp_action = td_action d, tp_intensity = intensity_value (td_intensity d),
        tp_price = price, tp_atr = atr_now, tp_timestamp_ms = ts\<rparr>
       \<lparr>pr_open_positions = (if pe_position e \<noteq> None then 1 else 0),
        pr_realized_pnl_today = pe_realized_today e, pr_peak_equity = pe_peak e,
        pr_equity = equity (pe_portfolio e) price, pr_kill_switch = pe_kill_switch e\<rparr>"

definition decide ::
  "paper_engine \<Rightarrow> trading_decision \<Rightarrow> pyfloat \<Rightarrow> pyfloat option \<Rightarrow> int \<Rightarrow>
   paper_engine \<times> paper_event result" where
  \<comment> \<open>the second half of \<open>on_price\<close>: the decision goes through the risk engine\<close>
  "decide e d price atr_now ts =
     (let v = verdict_on e d price atr_now ts; e1 = fst (mark_to_market e price)
      in if \<not> rv_approved v then
           (if td_action d \<noteq> HOLD
            then e1\<lparr>pe_rejected := pe_rejected e1 + 1,
                    pe_daily_triggered := pe_daily_triggered e1 +
                      (if td_action d = BUY \<and> rv_reason v = ''max_daily_loss'' then 1 else 0)\<rparr>
            else e1,
            Inr ((event False (td_action d))\<lparr>pv_risk_reason := rv_reason v\<rparr>))
         else if td_action d = HOLD then
           (if daily_loss_active e1 then e1\<lparr>pe_daily_cycles := pe_daily_cycles e1 + 1\<rparr> else e1,
            Inr (event False HOLD))
         else case (td_action d, pe_position e1, rv_size v) of
           (SELL, Some pos, _) \<Rightarrow>
             (case close_position e1 pos price ts ''llm_sell'' of (e2, ev) \<Rightarrow> (e2, Inr ev))
         | (BUY, _, Some sz) \<Rightarrow>
             open_position e1 (sz_quantity sz) price
               (float_or (rv_stop_loss v) (fmul price (fsub (Fin 1) (rnd (1 / 10 ^ 9)))))
               (rv_take_profit v) ts
         | _ \<Rightarrow> (e1, Inr (event False (td_action d))))"

definition process_price ::
  "(int \<Rightarrow> int) \<Rightarrow> paper_engine \<Rightarrow> trading_decision \<Rightarrow> pyfloat \<Rightarrow> pyfloat option \<Rightarrow> int \<Rightarrow>
   paper_engine \<times> paper_event result" where
  \<comment> \<open>\<open>on_price\<close> after its timestamp check: exits first, then the decision\<close>
  "process_price day_key e d price atr_now ts =
     (let e1 = (roll_day day_key e ts)\<lparr>pe_last_price := Some price, pe_last_atr := float_or_zero atr_now\<rparr>
      in case check_exits e1 price ts of
           (e2, Some ev) \<Rightarrow> (e2, Inr ev)
         | (e2, None) \<Rightarrow> decide e2 d price atr_now ts)"

definition on_price ::
  "(int \<Rightarrow> int) \<Rightarrow> paper_engine \<Rightarrow> trading_decision \<Rightarrow> pyfloat \<Rightarrow> pyfloat option \<Rightarrow> int \<Rightarrow>
   paper_engine \<times> paper_event result" where
  "on_price day_key e d price atr_now ts =
     (case pe_last_ts e of
        Some l \<Rightarrow>
          if ts < l then (e, Inl (OutOfOrderTimestampError ts l))
          else process_price day_key e d price atr_now ts
      | None \<Rightarrow> process_price day_key e d price atr_now ts)"

section \<open>What the steps leave alone\<close>

definition frame :: "paper_engine \<Rightarrow> risk_config \<times> fee_model \<times> slippage_model \<times> kill_switch_state \<times> int option \<times> int option" where
  "frame e = (pe_config e, pe_fees e, pe_slippage e, pe_kill_switch e, pe_day e, pe_last_ts e)"

lemma frame_mark [simp]:
  "frame (fst (mark_to_market e price)) = frame e" "frame (mark_peak_if_needed e price) = frame e"
  by (auto simp: frame_def mark_to_market_def mark_peak_if_needed_def Let_def)

lemma mark_fields [simp]:
  "pe_portfolio (mark_peak_if_needed e x) = pe_portfolio e" "pe_position (mark_peak_if_needed e x) = pe_position e"
  "pe_realized_today (mark_peak_if_needed e x) = pe_realized_today e"
  "pe_portfolio (fst (mark_to_market e x)) = pe_portfolio e" "pe_position (fst (mark_to_market e x)) = pe_position e"
  "pe_realized_today (fst (mark_to_market e x)) = pe_realized_today e"
  "snd (mark_to_market e x) = equity (pe_portfolio e) x"
  by (auto simp: mark_to_market_def mark_peak_if_needed_def Let_def)

lemma frame_close [simp]: "frame (fst (close_position e pos price ts reason)) = frame e"
proof -
  have f: "frame (x\<lparr>pe_position := y\<rparr>) = frame x"
    "frame (x\<lparr>pe_portfolio := p, pe_realized_today := r\<rparr>) = frame x" for x y p r
    by (simp_all add: frame_def)
  show ?thesis by (simp add: close_position_def Let_def f)
qed

lemma close_fields [simp]:
  "pe_position (fst (close_position e pos price ts reason)) = None"
  "pe_portfolio (fst (close_position e pos price ts reason)) =
     apply_sell (pe_portfolio e) (make_fill e SELL price (pp_quantity pos) ts)"
  "pe_realized_today (fst (close_position e pos price ts reason)) =
     fadd (pe_realized_today e)
       (fsub (pf_realized_pnl (apply_sell (pe_portfolio e) (make_fill e SELL price (pp_quantity pos) ts)))
          (pf_realized_pnl (pe_portfolio e)))"
  "pv_filled (snd (close_position e pos price ts reason))"
  "pv_action (snd (close_position e pos price ts reason)) = SELL"
  "pv_exit_reason (snd (close_position e pos price ts reason)) = reason"
  by (simp_all add: close_position_def Let_def event_def)

lemma frame_open [simp]: "frame (fst (open_position e q price stop target ts)) = frame e"
proof -
  have "frame (x\<lparr>pe_portfolio := p\<rparr>) = frame x"
    "frame (x\<lparr>pe_portfolio := p, pe_position := y\<rparr>) = frame x" for x y p
    by (simp_all add: frame_def)
  then show ?thesis by (simp add: open_position_def Let_def split: sum.split prod.split)
qed

lemma frame_exits [simp]: "frame (fst (check_exits e price ts)) = frame e"
proof -
  have "frame (x\<lparr>pe_position := y\<rparr>) = frame x" for x y by (simp add: frame_def)
  then show ?thesis by (simp add: check_exits_def Let_def split_beta split: option.split)
qed

lemma frame_decide [simp]: "frame (fst (decide e d price a ts)) = frame e"
proof -
  have "frame (x\<lparr>pe_rejected := r, pe_daily_triggered := n\<rparr>) = frame x"
    "frame (x\<lparr>pe_daily_cycles := n\<rparr>) = frame x" for x r n
    by (simp_all add: frame_def)
  then show ?thesis
    by (simp add: decide_def Let_def split_beta split: option.split action.split)
qed

lemma process_frame:
  "frame (fst (process_price day_key e d price a ts)) =
     (pe_config e, pe_fees e, pe_slippage e, pe_kill_switch e, Some (day_key ts), Some ts)"
proof -
  have "frame ((roll_day day_key e ts)\<lparr>pe_last_price := Some price, pe_last_atr := float_or_zero a\<rparr>) =
      (pe_config e, pe_fees e, pe_slippage e, pe_kill_switch e, Some (day_key ts), Some ts)"
    by (auto simp: frame_def roll_day_def Let_def split: option.split)
  then show ?thesis by (simp add: process_price_def Let_def split_beta split: option.split)
qed

section \<open>Time\<close>

text \<open>
  Time never runs backwards in the engine: a price older than the last one is refused
  without touching any field, and any other price becomes the last one and moves the day.
\<close>

theorem on_price_refuses_the_past:
  "case pe_last_ts e of
     Some l \<Rightarrow> if ts < l then on_price day_key e d price a ts = (e, Inl (OutOfOrderTimestampError ts l))
               else pe_last_ts (fst (on_price day_key e d price a ts)) = Some ts \<and>
                    pe_day (fst (on_price day_key e d price a ts)) = Some (day_key ts)
   | None \<Rightarrow> pe_last_ts (fst (on_price day_key e d price a ts)) = Some ts \<and>
             pe_day (fst (on_price day_key e d price a ts)) = Some (day_key ts)"
  using process_frame[of day_key e d price a ts]
  by (auto simp: on_price_def frame_def split: option.split)

section \<open>Exits come first\<close>

definition exit_reasons :: "string list" where
  "exit_reasons = [''trailing_stop'', ''stop_loss'', ''take_profit'']"

lemma check_exits_event:
  assumes "check_exits e price ts = (e', Some ev)"
  shows "pv_filled ev \<and> pv_action ev = SELL \<and> pv_exit_reason ev \<in> set exit_reasons \<and> pe_position e' = None"
  using assms
  by (auto simp: check_exits_def Let_def split_beta exit_reasons_def split: option.splits if_splits)

lemma check_exits_none:
  "check_exits e price ts = (e', None) \<Longrightarrow>
   e' = e\<lparr>pe_position := map_option (\<lambda>pos. trail_position e pos price) (pe_position e)\<rparr>"
  by (auto simp: check_exits_def Let_def split_beta split: option.splits if_splits)

lemma check_exits_none_fields:
  assumes "check_exits e price ts = (e', None)"
  shows "pe_portfolio e' = pe_portfolio e" "pe_kill_switch e' = pe_kill_switch e" "pe_config e' = pe_config e"
    "pe_fees e' = pe_fees e" "pe_slippage e' = pe_slippage e" "pe_peak e' = pe_peak e"
    "pe_realized_today e' = pe_realized_today e"
    "pe_position e' = map_option (\<lambda>pos. trail_position e pos price) (pe_position e)"
  unfolding check_exits_none[OF assms] by simp_all

lemma frame_fields:
  "frame x = frame y \<Longrightarrow> pe_config x = pe_config y \<and> pe_kill_switch x = pe_kill_switch y \<and> pe_day x = pe_day y \<and>
     pe_last_ts x = pe_last_ts y \<and> pe_fees x = pe_fees y \<and> pe_slippage x = pe_slippage y"
  by (simp add: frame_def)

definition on_time :: "paper_engine \<Rightarrow> int \<Rightarrow> bool" where
  "on_time e ts = (case pe_last_ts e of None \<Rightarrow> True | Some l \<Rightarrow> l \<le> ts)"

lemma on_price_on_time: "on_time e ts \<Longrightarrow> on_price day_key e d price a ts = process_price day_key e d price a ts"
  by (auto simp: on_price_def on_time_def split: option.splits)

definition tick_state :: "(int \<Rightarrow> int) \<Rightarrow> paper_engine \<Rightarrow> pyfloat \<Rightarrow> pyfloat option \<Rightarrow> int \<Rightarrow> paper_engine" where
  \<comment> \<open>the state on which \<open>on_price\<close> checks the exits\<close>
  "tick_state day_key e price a ts =
     (roll_day day_key e ts)\<lparr>pe_last_price := Some price, pe_last_atr := float_or_zero a\<rparr>"

lemma tick_state_fields [simp]:
  "pe_config (tick_state day_key e price a ts) = pe_config e"
  "pe_fees (tick_state day_key e price a ts) = pe_fees e"
  "pe_slippage (tick_state day_key e price a ts) = pe_slippage e"
  "pe_kill_switch (tick_state day_key e price a ts) = pe_kill_switch e"
  "pe_position (tick_state day_key e price a ts) = pe_position e"
  "pe_portfolio (tick_state day_key e price a ts) = pe_portfolio e"
  "pe_peak (tick_state day_key e price a ts) = pe_peak e"
  "pe_last_atr (tick_state day_key e price a ts) = float_or_zero a"
  by (auto simp: tick_state_def roll_day_def Let_def split: option.split)

lemma process_price_split:
  "process_price day_key e d price a ts =
     (case check_exits (tick_state day_key e price a ts) price ts of
        (e2, Some ev) \<Rightarrow> (e2, Inr ev) | (e2, None) \<Rightarrow> decide e2 d price a ts)"
  by (simp add: process_price_def tick_state_def Let_def)

text \<open>
  C4 A stop is honoured before anything else: when the price is at or below the stop of the
  open position, the position is sold and closed, whatever the decision, the kill switch or
  the risk limits say.
\<close>

theorem stop_is_honoured_first:
  assumes "on_time e ts" "pe_position e = Some pos" "fle price (pp_stop_loss pos)"
  shows "\<exists>ev. snd (on_price day_key e d price a ts) = Inr ev \<and> pv_filled ev \<and> pv_action ev = SELL \<and>
      pv_exit_reason ev \<in> {''trailing_stop'', ''stop_loss''} \<and>
      pe_position (fst (on_price day_key e d price a ts)) = None"
proof -
  let ?e = "tick_state day_key e price a ts" and ?pos = "trail_position (tick_state day_key e price a ts) pos price"
  have "fle (pp_stop_loss pos) (pp_stop_loss ?pos)"
    using assms(3) by (auto simp: trail_position_def Let_def update_trailing_def fmax_ge1 dest: fle_not_NaN)
  then have "fle price (pp_stop_loss ?pos)" using assms(3) by (rule fle_trans[rotated])
  then show ?thesis using assms(2)
    by (auto simp: on_price_on_time[OF assms(1)] process_price_split check_exits_def Let_def split_beta)
qed

lemma decide_cases:
  assumes "decide e d price a ts = (e', r)"
  obtains (idle) ev where "r = Inr ev" "\<not> pv_filled ev" "pe_portfolio e' = pe_portfolio e"
      "pe_position e' = pe_position e" "pe_realized_today e' = pe_realized_today e"
      "pe_peak e' = pe_peak (fst (mark_to_market e price))"
    | (closed) pos where "td_action d = SELL" "pe_position e = Some pos" "rv_approved (verdict_on e d price a ts)"
      "e' = fst (close_position (fst (mark_to_market e price)) pos price ts ''llm_sell'')"
      "r = Inr (snd (close_position (fst (mark_to_market e price)) pos price ts ''llm_sell''))"
    | (opened) sz stop target where "td_action d = BUY" "rv_approved (verdict_on e d price a ts)"
      "rv_size (verdict_on e d price a ts) = Some sz"
      "(e', r) = open_position (fst (mark_to_market e price)) (sz_quantity sz) price stop target ts"
proof -
  let ?v = "verdict_on e d price a ts" and ?e = "fst (mark_to_market e price)"
  show thesis
  proof (cases "rv_approved ?v \<and> td_action d \<noteq> HOLD")
    case False
    with assms show thesis
      by (intro idle[of "if rv_approved ?v then event False HOLD
            else (event False (td_action d))\<lparr>pv_risk_reason := rv_reason ?v\<rparr>"])
        (auto simp: decide_def Let_def event_def split: if_splits)
  next
    case True
    show thesis
    proof (cases "td_action d")
      case SELL
      show thesis
      proof (cases "pe_position e")
        case None
        with SELL True assms show thesis
          by (intro idle[of "event False SELL"]) (auto simp: decide_def Let_def event_def)
      next
        case (Some pos)
        with SELL True assms show thesis
          by (intro closed[of pos]) (auto simp: decide_def Let_def split_beta)
      qed
    next
      case BUY
      show thesis
      proof (cases "rv_size ?v")
        case None
        with BUY True assms show thesis
          by (intro idle[of "event False BUY"]) (auto simp: decide_def Let_def event_def)
      next
        case (Some sz)
        with BUY True assms show thesis
          by (intro opened[of sz "float_or (rv_stop_loss ?v) (fmul price (fsub (Fin 1) (rnd (1 / 10 ^ 9))))"
              "rv_take_profit ?v"]) (auto simp: decide_def Let_def)
      qed
    qed (use True in simp)
  qed
qed

lemma decide_kill_switch:
  assumes "ks_active (pe_kill_switch e)" "decide e d price a ts = (e', r)"
  shows "(\<exists>ev. r = Inr ev \<and> \<not> pv_filled ev) \<and> pe_portfolio e' = pe_portfolio e \<and> pe_position e' = pe_position e"
proof -
  have "\<not> rv_approved (verdict_on e d price a ts)"
    using assms(1) by (simp add: verdict_on_def evaluate_def reject_def)
  with assms(2) show ?thesis by (auto elim: decide_cases)
qed

text \<open>
  C5 With the kill switch active no new exposure is taken and no decision is executed: the
  only fills are protective exits, and without one the portfolio does not change.
\<close>

theorem kill_switch_blocks_decisions:
  assumes "ks_active (pe_kill_switch e)" "on_time e ts"
  shows "case snd (on_price day_key e d price a ts) of
      Inl _ \<Rightarrow> False
    | Inr ev \<Rightarrow> if pv_filled ev
        then pv_action ev = SELL \<and> pv_exit_reason ev \<in> set exit_reasons
        else pe_portfolio (fst (on_price day_key e d price a ts)) = pe_portfolio e"
proof -
  obtain e2 x where c: "check_exits (tick_state day_key e price a ts) price ts = (e2, x)" by fastforce
  show ?thesis
  proof (cases x)
    case (Some ev)
    with c check_exits_event[of _ price ts e2 ev] show ?thesis
      by (simp add: on_price_on_time[OF assms(2)] process_price_split)
  next
    case None
    then have e2: "ks_active (pe_kill_switch e2)" "pe_portfolio e2 = pe_portfolio e"
      using check_exits_none_fields[OF c[unfolded None]] assms(1) by auto
    obtain e3 r where d: "decide e2 d price a ts = (e3, r)" by fastforce
    from decide_kill_switch[OF e2(1) d] c None e2(2) d show ?thesis
      by (auto simp: on_price_on_time[OF assms(2)] process_price_split)
  qed
qed

section \<open>Daily result and peak\<close>

lemma open_event:
  "open_position x q p s t u = (e', r) \<Longrightarrow>
   pe_realized_today e' = pe_realized_today x \<and> (\<forall>ev. r = Inr ev \<longrightarrow> pv_filled ev \<and> pv_action ev = BUY)"
  by (auto simp: open_position_def Let_def event_def split: sum.splits prod.splits)

definition realized_after :: "pyfloat \<Rightarrow> portfolio \<Rightarrow> portfolio \<Rightarrow> paper_event result \<Rightarrow> pyfloat" where
  \<comment> \<open>the day's result after a tick: grown by what a sell realized\<close>
  "realized_after today before after r =
     (case r of
        Inr ev \<Rightarrow> if pv_filled ev \<and> pv_action ev = SELL
                  then fadd today (fsub (pf_realized_pnl after) (pf_realized_pnl before)) else today
      | Inl _ \<Rightarrow> today)"

lemma decide_realized:
  assumes "decide e d price a ts = (e', r)"
  shows "pe_realized_today e' = realized_after (pe_realized_today e) (pe_portfolio e) (pe_portfolio e') r"
  using assms
proof (cases rule: decide_cases)
  case (opened sz stop target)
  from open_event[OF opened(4)[symmetric]] show ?thesis
    by (cases r) (auto simp: realized_after_def)
qed (auto simp: realized_after_def)

lemma check_exits_realized:
  "check_exits e price ts = (e', Some ev) \<Longrightarrow>
   pe_realized_today e' = realized_after (pe_realized_today e) (pe_portfolio e) (pe_portfolio e') (Inr ev)"
  by (auto simp: check_exits_def Let_def split_beta realized_after_def split: option.splits if_splits)

text \<open>
  The realized result of the day is the sum of what the sells of that day realized: a
  tick of a new UTC day starts it from zero, a sell adds the change of the portfolio's
  realized result, and nothing else moves it.
\<close>

theorem daily_result_follows_sells:
  assumes "on_time e ts"
  shows "pe_realized_today (fst (on_price day_key e d price a ts)) =
    realized_after
      (if pe_day e = Some (day_key ts) \<or> pe_day e = None then pe_realized_today e else Fin 0)
      (pe_portfolio e) (pe_portfolio (fst (on_price day_key e d price a ts)))
      (snd (on_price day_key e d price a ts))"
proof -
  let ?e = "tick_state day_key e price a ts"
  have today: "pe_realized_today ?e =
      (if pe_day e = Some (day_key ts) \<or> pe_day e = None then pe_realized_today e else Fin 0)"
    by (auto simp: tick_state_def roll_day_def Let_def split: option.split)
  obtain e2 x where c: "check_exits ?e price ts = (e2, x)" by fastforce
  show ?thesis
  proof (cases x)
    case (Some ev)
    with c check_exits_realized[of ?e price ts e2 ev] today show ?thesis
      by (simp add: on_price_on_time[OF assms] process_price_split)
  next
    case None
    obtain e3 r where d: "decide e2 d price a ts = (e3, r)" by fastforce
    from decide_realized[OF d] c None d today check_exits_none_fields[OF c[unfolded None]]
    show ?thesis by (simp add: on_price_on_time[OF assms] process_price_split)
  qed
qed

section \<open>Peak equity\<close>

lemma peak_mark:
  "pe_peak e \<noteq> NaN \<Longrightarrow> fle (pe_peak e) (pe_peak (mark_peak_if_needed e x))"
  "pe_peak e \<noteq> NaN \<Longrightarrow> fle (pe_peak e) (pe_peak (fst (mark_to_market e x)))"
  by (auto simp: mark_peak_if_needed_def mark_to_market_def Let_def intro: flt_imp_fle)

lemma peak_close: "pe_peak e \<noteq> NaN \<Longrightarrow> fle (pe_peak e) (pe_peak (fst (close_position e pos price ts reason)))"
  by (auto simp: close_position_def Let_def mark_peak_if_needed_def intro: flt_imp_fle)

lemma peak_open:
  "open_position e q p s t u = (e', r) \<Longrightarrow> pe_peak e \<noteq> NaN \<Longrightarrow> fle (pe_peak e) (pe_peak e')"
  by (auto simp: open_position_def Let_def mark_peak_if_needed_def intro: flt_imp_fle
      split: sum.splits prod.splits if_splits)

lemma peak_decide:
  assumes "decide e d price a ts = (e', r)" "pe_peak e \<noteq> NaN"
  shows "fle (pe_peak e) (pe_peak e')"
proof -
  note m = peak_mark(2)[OF assms(2), of price]
  then have n: "pe_peak (fst (mark_to_market e price)) \<noteq> NaN" by (auto dest: fle_not_NaN)
  from assms(1) show ?thesis
  proof (cases rule: decide_cases)
    case (opened sz stop target)
    from peak_open[OF opened(4)[symmetric] n] m show ?thesis by (rule fle_trans[rotated])
  qed (use m n fle_trans[OF m] peak_close[OF n] in auto)
qed

lemma peak_on_price:
  assumes "pe_peak e \<noteq> NaN"
  shows "fle (pe_peak e) (pe_peak (fst (on_price day_key e d price a ts)))"
proof (cases "on_time e ts")
  case True
  let ?e = "tick_state day_key e price a ts"
  have n: "pe_peak ?e \<noteq> NaN" using assms by simp
  have ex: "fle (pe_peak ?e) (pe_peak (fst (check_exits ?e price ts)))"
    using assms peak_close[of "?e\<lparr>pe_position := y\<rparr>" for y]
    by (auto simp: check_exits_def Let_def split_beta split: option.split)
  obtain e2 x where c: "check_exits ?e price ts = (e2, x)" by fastforce
  show ?thesis
  proof (cases x)
    case None
    with c have "pe_peak e2 = pe_peak e" using check_exits_none_fields by fastforce
    then show ?thesis using peak_decide[of e2 d price a ts] assms c None
      by (cases "decide e2 d price a ts") (auto simp: on_price_on_time[OF True] process_price_split)
  qed (use c ex in \<open>auto simp: on_price_on_time[OF True] process_price_split\<close>)
next
  case False
  then show ?thesis using assms by (auto simp: on_price_def on_time_def split: option.splits)
qed

section \<open>Examples\<close>

definition decision_for :: "action \<Rightarrow> int \<Rightarrow> trading_decision" where
  "decision_for a ts = (decision_hold ts [])\<lparr>td_action := a, td_fallback_reason := None\<rparr>"

definition easy_config :: risk_config where
  \<comment> \<open>dyadic limits, so that examples evaluate exactly\<close>
  "easy_config =
     \<lparr>rk_capital = Fin 1024, rk_max_position_allocation = Fin (1/16), rk_max_daily_loss = Fin (1/32),
      rk_max_drawdown = Fin (1/4), rk_max_open_positions = 1, rk_leverage = Fin 0,
      rk_stop_loss_required = True, rk_stop_atr_multiplier = Fin 2, rk_take_profit_r_multiple = Fin 2,
      rk_trailing_atr_multiplier = Fin 4, rk_low_risk_pct = Fin (1/128),
      rk_medium_risk_pct = Fin (1/64), rk_high_risk_pct = Fin (1/32), rk_version = []\<rparr>"

definition easy_engine :: paper_engine where
  "easy_engine = new_engine easy_config
     \<lparr>taker_bps = Fin 0, maker_bps = Fin 0, fee_version = []\<rparr> \<lparr>slip_bps = Fin 0, slip_version = []\<rparr>"

definition easy_ticks :: "(trading_decision \<times> pyfloat \<times> pyfloat option \<times> int) list" where
  "easy_ticks =
     [(decision_for BUY 1000, Fin 64, Some (Fin 4), 1000), (decision_for HOLD 2000, Fin 32, Some (Fin 4), 2000)]"

definition opened_engine :: paper_engine where
  \<comment> \<open>one unit bought at 64, stop at 56\<close>
  "opened_engine = fst (on_price utc_day_index easy_engine (decision_for BUY 1000) (Fin 64) (Some (Fin 4)) 1000)"

definition opened_position :: paper_position where
  "opened_position =
     \<lparr>pp_quantity = Fin 1, pp_entry_price = Fin 64, pp_stop_loss = Fin 56, pp_take_profit = Some (Fin 80),
      pp_highest_price = Fin 64, pp_entry_ts = 1000\<rparr>"

theorem stop_is_honoured_first_witness:
  "\<exists>ev. snd (on_price utc_day_index opened_engine (decision_for BUY 2000) (Fin 32) None 2000) = Inr ev \<and>
      pv_filled ev \<and> pv_action ev = SELL \<and> pv_exit_reason ev \<in> {''trailing_stop'', ''stop_loss''} \<and>
      pe_position (fst (on_price utc_day_index opened_engine (decision_for BUY 2000) (Fin 32) None 2000)) = None"
proof (rule stop_is_honoured_first)
  show "on_time opened_engine 2000" by code_simp
  show "pe_position opened_engine = Some opened_position" by code_simp
qed (simp add: opened_position_def)

theorem kill_switch_blocks_decisions_witness:
  "case snd (on_price utc_day_index
       (attach_kill_switch easy_engine (ks_activate kill_switch_clear ''manual'' 5))
       (decision_for BUY 1000) (Fin 64) (Some (Fin 4)) 1000) of
      Inl _ \<Rightarrow> False
    | Inr ev \<Rightarrow> if pv_filled ev
        then pv_action ev = SELL \<and> pv_exit_reason ev \<in> set exit_reasons
        else pe_portfolio (fst (on_price utc_day_index
               (attach_kill_switch easy_engine (ks_activate kill_switch_clear ''manual'' 5))
               (decision_for BUY 1000) (Fin 64) (Some (Fin 4)) 1000)) =
             pe_portfolio (attach_kill_switch easy_engine (ks_activate kill_switch_clear ''manual'' 5))"
  by (rule kill_switch_blocks_decisions)
     (simp_all add: attach_kill_switch_def ks_activate_def kill_switch_clear_def on_time_def
       easy_engine_def new_engine_def)

theorem daily_result_follows_sells_witness:
  "pe_realized_today (fst (on_price utc_day_index opened_engine (decision_for HOLD 2000) (Fin 32) None 2000)) =
    realized_after
      (if pe_day opened_engine = Some (utc_day_index 2000) \<or> pe_day opened_engine = None
       then pe_realized_today opened_engine else Fin 0)
      (pe_portfolio opened_engine)
      (pe_portfolio (fst (on_price utc_day_index opened_engine (decision_for HOLD 2000) (Fin 32) None 2000)))
      (snd (on_price utc_day_index opened_engine (decision_for HOLD 2000) (Fin 32) None 2000))"
proof (rule daily_result_follows_sells)
  show "on_time opened_engine 2000" by code_simp
qed

end
