(* ===== verification/EngineSync.thy ===== *)
theory EngineSync
  imports Engine
begin

text \<open>
  The engine and its portfolio stay in step.  The engine keeps its own \<open>PaperPosition\<close> beside
  the portfolio's quantity; \<open>engine_inv\<close> says they describe the same holding, and the
  lemmas show that every tick keeps it as long as the numbers stay in a stated range: prices
  within a factor \<open>2^100\<close> of one, capital between 1 and \<open>2^100\<close>, equity at most \<open>2^200\<close>, and a
  drawdown limit of at most a quarter, so that an entry is never sized on exhausted cash.
\<close>

section \<open>Steps and runs\<close>

type_synonym tick = "trading_decision \<times> pyfloat \<times> pyfloat option \<times> int"

definition engine_step :: "(int \<Rightarrow> int) \<Rightarrow> paper_engine \<Rightarrow> tick \<Rightarrow> paper_engine" where
  \<comment> \<open>one call of \<open>on_price\<close>, its exception caught by the caller\<close>
  "engine_step day_key e t = (case t of (d, price, a, ts) \<Rightarrow> fst (on_price day_key e d price a ts))"

interpretation paper: guarded_machine "engine_step day_key" "\<lambda>e :: paper_engine. pe_peak e \<noteq> NaN"
    "\<lambda>_. True" for day_key
proof unfold_locales
  fix e :: paper_engine and t assume "pe_peak e \<noteq> NaN"
  then show "pe_peak (engine_step day_key e t) \<noteq> NaN"
    using fle_not_NaN[OF peak_on_price[of e day_key]] by (cases t) (simp add: engine_step_def)
qed

text \<open>
  The equity peak the drawdown is measured from never falls, over any run of ticks.
\<close>

theorem peak_equity_never_falls:
  assumes "pe_peak e \<noteq> NaN"
  shows "fle (pe_peak e) (pe_peak (foldl (engine_step day_key) e ticks))"
  using assms
proof (rule paper.run_relation)
  show "list_all (\<lambda>_. True) ticks" by (induction ticks) auto
qed (auto simp: engine_step_def intro: fle_trans peak_on_price)

section \<open>Sizes are positive finite floats\<close>

lemma in_range:
  assumes "1 / 2 ^ 1000 \<le> x" "x \<le> 2 ^ 1000"
  shows "\<exists>v. rnd x = Fin v \<and> x / 2 \<le> v \<and> v \<le> 2 * x \<and> representable v"
proof -
  have "(2 :: rat) powi (- 1022) \<le> 2 powi (- 1000)" "(2 :: rat) powi 1000 \<le> 2 powi 1022"
    by (rule powi_2_mono; simp)+
  moreover have "(2 :: rat) powi (- 1000) = 1 / 2 ^ 1000" "(2 :: rat) powi 1000 = 2 ^ 1000"
    by (metis power_int_minus power_int_numeral inverse_eq_divide) (metis power_int_numeral)
  ultimately show ?thesis using assms by (intro rnd_within) linarith+
qed

definition price_ok :: "pyfloat \<Rightarrow> bool" where
  "price_ok x \<longleftrightarrow> is_Fin x \<and> float_value x \<and> fle (Fin (1 / 2 ^ 100)) x \<and> fle x (Fin (2 ^ 100))"

definition setup_ok :: "paper_engine \<Rightarrow> bool" where
  "setup_ok e \<longleftrightarrow>
     config_ok (pe_config e) \<and> float_value (rk_capital (pe_config e)) \<and>
     fle (Fin 1) (rk_capital (pe_config e)) \<and> fle (rk_capital (pe_config e)) (Fin (2 ^ 100)) \<and>
     rk_max_open_positions (pe_config e) \<le> 1 \<and>
     fle (rk_max_drawdown (pe_config e)) (Fin (1 / 4)) \<and>
     nonneg (slippage_rate (pe_slippage e)) \<and> fle (slippage_rate (pe_slippage e)) (Fin (1 / 2))"

lemma max_notional_finite:
  assumes "config_ok cfg" "rk_capital cfg = Fin k" "representable k"
  shows "\<exists>m. max_notional cfg = Fin m \<and> 0 \<le> m \<and> m \<le> k"
proof -
  have n: "nonneg (max_notional cfg)" using assms(1) by (rule max_notional_number)
  obtain l where l: "rk_leverage cfg = Fin l" "0 \<le> l" "l \<le> 1" and k: "0 \<le> k"
    using assms(1,2) by (cases "rk_leverage cfg") (auto simp: config_ok_def)
  obtain w where w: "rnd (1 - l) = Fin w" "0 \<le> w" "w \<le> 1"
    using binary64.rd_between[of 0 1 "1 - l"] representable_one l by (auto simp: representable_def)
  have "k * w \<le> k" using w k by (simp add: mult_left_le)
  then have "fle (fmul (rk_capital cfg) (fsub (Fin 1) (rk_leverage cfg))) (Fin k)"
    using assms(2,3) l w by (auto intro: representable_upper)
  moreover have "fle (max_notional cfg) (fmul (rk_capital cfg) (fsub (Fin 1) (rk_leverage cfg)))"
  proof -
    obtain a where "rk_max_position_allocation cfg = Fin a"
      using assms(1) by (cases "rk_max_position_allocation cfg") (auto simp: config_ok_def)
    then show ?thesis unfolding max_notional_def using assms(2) l w by (intro fmin_le2) auto
  qed
  ultimately have "fle (max_notional cfg) (Fin k)" by (rule fle_trans[rotated])
  with n show ?thesis by (cases "max_notional cfg") auto
qed

lemma capped_quantity:
  assumes "0 \<le> m" "m \<le> 2 ^ 100" "1 / 2 ^ 100 \<le> q"
  shows "is_Fin (fdiv (Fin m) (Fin q))"
proof -
  have q: "0 < q" using assms(3) by (simp add: less_le_trans[of 0 "1 / 2 ^ 100"])
  have "m / q \<le> 2 ^ 100 / (1 / 2 ^ 100)" using assms q by (intro frac_le) auto
  then have "\<bar>m / q\<bar> \<le> 2 powi 200" using assms(1) q by (simp add: power_int_def)
  then obtain v where "rnd (m / q) = Fin v" using rnd_finite[of "m / q" 200] by auto
  then show ?thesis using q by simp
qed

lemma entry_size:
  assumes "setup_ok e" "price_ok price" "td_action d = BUY" "rv_approved (verdict_on e d price a ts)"
    and "is_Fin (pe_peak e)" "is_Fin (equity (pe_portfolio e) price)"
    and "\<And>x. a = Some x \<Longrightarrow> is_Fin x \<and> is_Fin (fmul (rk_stop_atr_multiplier (pe_config e)) x)"
    and "rv_size (verdict_on e d price a ts) = Some sz"
  shows "positive (sz_quantity sz) \<and> is_Fin (sz_quantity sz) \<and> float_value (sz_quantity sz)"
proof -
  let ?cfg = "pe_config e"
  define p where "p = \<lparr>tp_action = td_action d, tp_intensity = intensity_value (td_intensity d),
      tp_price = price, tp_atr = a, tp_timestamp_ms = ts\<rparr>"
  define s where "s = \<lparr>pr_open_positions = (if pe_position e \<noteq> None then 1 else 0),
      pr_realized_pnl_today = pe_realized_today e, pr_peak_equity = pe_peak e,
      pr_equity = equity (pe_portfolio e) price, pr_kill_switch = pe_kill_switch e\<rparr>"
  have v: "verdict_on e d price a ts = evaluate ?cfg p s" by (simp add: verdict_on_def p_def s_def)
  obtain q where q: "price = Fin q" "1 / 2 ^ 100 \<le> q" "0 < q" using assms(2)
    by (cases price) (auto simp: price_ok_def intro: less_le_trans[of 0 "1 / 2 ^ 100"])
  obtain k where k: "rk_capital ?cfg = Fin k" "representable k" "k \<le> 2 ^ 100"
    using assms(1) by (cases "rk_capital ?cfg") (auto simp: setup_ok_def)
  have cfg: "config_ok ?cfg" using assms(1) by (simp add: setup_ok_def)
  obtain m where m: "max_notional ?cfg = Fin m" "0 \<le> m" "m \<le> k"
    using max_notional_finite[OF cfg k(1,2)] by blast
  have cap: "is_Fin (fdiv (Fin m) (Fin q))" using m k q by (intro capped_quantity) auto
  have ap: "rv_approved (evaluate ?cfg p s)" using assms(4) v by simp
  have "tp_action p = BUY" using assms(3) by (simp add: p_def)
  from evaluate_buy(1)[OF this ap] have sb: "rv_size (size_buy ?cfg p s) = Some sz" "rv_approved (size_buy ?cfg p s)"
    using assms(8) v ap by simp_all
  show ?thesis
  proof (cases "fle (case a of None \<Rightarrow> Fin 0 | Some x \<Rightarrow> x) (Fin 0)")
    case True
    then have w: "sz_quantity sz = fdiv (Fin m) (Fin q)" "\<not> fle (sz_quantity sz) (Fin 0)"
      using sb q(1,3) m(1) by (auto simp: size_buy_def Let_def p_def reject_def simp del: fdiv.simps split: if_splits)
    have "is_Fin (sz_quantity sz)" "float_value (sz_quantity sz)" unfolding w(1) using cap by (simp_all del: fdiv.simps)
    with w(2) show ?thesis by (cases "sz_quantity sz") auto
  next
    case False
    then obtain x where x: "a = Some (Fin x)" "is_Fin (fmul (rk_stop_atr_multiplier ?cfg) (Fin x))"
      using assms(7) by (cases a) (auto simp: is_Fin_def)
    let ?d = "current_drawdown (pe_peak e) (equity (pe_portfolio e) price)"
    have d: "?d \<noteq> NaN" using assms(5,6) by (rule current_drawdown_number)
    have szd: "sz = compute_position_size (tp_intensity p) (Fin x) (Fin q) ?d ?cfg" "\<not> fle (sz_quantity sz) (Fin 0)"
      using sb False x q by (auto simp: size_buy_def Let_def p_def s_def reject_def split: if_splits)
    note b = position_size_bounds[OF cfg q(3) d x(2) szd]
    have fields: "sz_quantity sz = (if sz_capped sz then fdiv (Fin m) (Fin q) else sz_quantity sz)"
      "\<not> sz_capped sz \<Longrightarrow> sz_notional sz = fmul (sz_quantity sz) (Fin q)" "float_value (sz_quantity sz)"
      using szd b(5) m by (auto simp: compute_position_size_def Let_def split: if_splits)
    have "is_Fin (sz_quantity sz)"
    proof (cases "sz_capped sz")
      case True
      then show ?thesis using fields(1) cap by simp
    next
      case False
      then have "fle (fmul (sz_quantity sz) (Fin q)) (Fin m)" using b(2) fields(2) m(1) by simp
      then show ?thesis using b(1) q(3) by (cases "sz_quantity sz") (auto simp: finf_def)
    qed
    with b(1) fields(3) show ?thesis by simp
  qed
qed

section \<open>What the cash buys\<close>

lemma exec_price_range:
  assumes "1 / 2 ^ 100 \<le> q" "q \<le> 2 ^ 100" "0 \<le> r" "r \<le> 1 / 2"
  shows "\<exists>x. fmul (Fin q) (fadd (Fin 1) (Fin r)) = Fin x \<and> 1 / 2 ^ 101 \<le> x \<and> x \<le> 2 ^ 103"
proof -
  have "(1 :: rat) / 2 ^ 1000 \<le> 1" "(2 :: rat) \<le> 2 ^ 1000" by simp_all
  then obtain w where w: "rnd (1 + r) = Fin w" "1 \<le> w" "w \<le> 3"
    using in_range[of "1 + r"] representable_lower[OF representable_one, of "1 + r"] assms(3,4) by auto
  have q: "0 < q" using assms(1) by (simp add: less_le_trans[of 0 "1 / 2 ^ 100"])
  have "1 / 2 ^ 100 * 1 \<le> q * w" using assms(1) w q by (intro mult_mono) auto
  moreover have "q * w \<le> 2 ^ 100 * 3" using assms(2) w q by (intro mult_mono) auto
  moreover have "(1 :: rat) / 2 ^ 1000 \<le> 1 / 2 ^ 100" "(2 :: rat) ^ 100 * 3 \<le> 2 ^ 1000" by simp_all
  ultimately obtain x where x: "rnd (q * w) = Fin x" "q * w / 2 \<le> x" "x \<le> 2 * (q * w)"
    using in_range[of "q * w"] by (metis (no_types, lifting) mult.right_neutral order_trans)
  have "1 / 2 ^ 101 \<le> q * w / 2" using \<open>1 / 2 ^ 100 * 1 \<le> q * w\<close> by simp
  moreover have "2 * (q * w) \<le> 2 ^ 103" using \<open>q * w \<le> 2 ^ 100 * 3\<close> by simp
  ultimately show ?thesis using x w by auto
qed

lemma cash_quantity:
  assumes "1 / 2 \<le> c" "c \<le> 2 ^ 200" "1 / 2 ^ 101 \<le> x" "x \<le> 2 ^ 103"
  shows "\<exists>v. bindE (pdiv (Fin c) (rnd (1001 / 1000))) (\<lambda>n. pdiv n (Fin x)) = Inr (Fin v) \<and> 0 < v \<and> representable v"
proof -
  obtain t where t: "rnd (1001 / 1000) = Fin t" "1 \<le> t" "t \<le> 2"
    using binary64.rd_between[of 1 2 "1001 / 1000"] representable_one representable_numeral[of "num.Bit0 num.One"]
    by (auto simp: representable_def)
  have x0: "0 < x" using assms(3) by (simp add: less_le_trans[of 0 "1 / 2 ^ 101"])
  have a: "1 / 2 / 2 \<le> c / t" "c / t \<le> 2 ^ 200 / 1" using assms(1,2) t by (intro frac_le; simp)+
  have h: "(1 :: rat) / 2 ^ 1000 \<le> 1 / 2 / 2" "(2 :: rat) ^ 200 / 1 \<le> 2 ^ 1000"
    "(1 :: rat) / 2 ^ 1000 \<le> 1 / 8 / 2 ^ 103" "(2 :: rat) ^ 201 / (1 / 2 ^ 101) \<le> 2 ^ 1000" by simp_all
  obtain n where n: "rnd (c / t) = Fin n" "c / t / 2 \<le> n" "n \<le> 2 * (c / t)"
    using in_range[OF order_trans[OF h(1) a(1)] order_trans[OF a(2) h(2)]] by blast
  define y where "y = c / t"
  have "1 / 8 \<le> n" using a(1) n(2) unfolding y_def[symmetric] by linarith
  moreover have "n \<le> 2 ^ 201" using a(2) n(3) unfolding y_def[symmetric] by simp
  ultimately have n8: "1 / 8 \<le> n" "n \<le> 2 ^ 201" by blast+
  have b: "1 / 8 / 2 ^ 103 \<le> n / x" by (rule frac_le[OF _ n8(1) x0 assms(4)]) (use n8(1) in linarith)
  have "n / x \<le> 2 ^ 201 / (1 / 2 ^ 101)" by (rule frac_le[OF _ n8(2) _ assms(3)]) simp_all
  note b = b this
  obtain v where v: "rnd (n / x) = Fin v" "n / x / 2 \<le> v" "representable v"
    using in_range[OF order_trans[OF h(3) b(1)] order_trans[OF b(2) h(4)]] by blast
  have "0 < n / x" using b(1) by (simp add: less_le_trans[of 0 "1 / 8 / 2 ^ 103"])
  then show ?thesis using t n v x0 by (simp add: pdiv_def)
qed

text \<open>The drawdown guard keeps at least half the peak in a flat account.\<close>

lemma cash_behind_guard:
  assumes "\<not> drawdown_exceeded (Fin k) (Fin c) cfg" "rk_max_drawdown cfg = Fin m" "m \<le> 1 / 4" "1 \<le> k"
  shows "k / 2 \<le> c"
proof (rule ccontr)
  assume "\<not> k / 2 \<le> c"
  then have c: "c < k / 2" by simp
  have "(2 :: rat) powi (- 1022) \<le> 2 powi (- 1)" by (rule powi_2_mono) simp
  then have "(2 :: rat) powi (- 1022) \<le> k - c" using c assms(4) by (simp add: power_int_def)
  then have h: "fle (Fin ((k - c) / 2)) (rnd (k - c))" by (rule rnd_ge_half)
  have quarter: "representable (1 / 4)"
    using representable_power[of "- 2"] by (simp add: power_int_def power2_eq_square)
  have "fle (Fin m) (fdiv (rnd (k - c)) (Fin k))"
  proof (cases "rnd (k - c)")
    case (Fin w)
    then have "1 / 4 \<le> w / k" using h c assms(4) by (simp add: field_simps)
    then have "fle (Fin (1 / 4)) (rnd (w / k))" by (rule representable_lower[OF quarter])
    then have "fle (Fin m) (rnd (w / k))" using assms(3) by (auto intro: fle_trans[rotated])
    then show ?thesis using Fin assms(4) by simp
  qed (use h assms(4) in \<open>auto simp: finf_def\<close>)
  with assms(1,2,4) c show False by (simp add: drawdown_exceeded_def)
qed

section \<open>The invariant\<close>

definition same_holding :: "portfolio \<Rightarrow> paper_position option \<Rightarrow> bool" where
  \<comment> \<open>the engine's position is the portfolio's: none when flat, else its positive quantity\<close>
  "same_holding p pos \<longleftrightarrow>
     (case pos of
        None \<Rightarrow> pf_position p = Fin 0
      | Some x \<Rightarrow> pp_quantity x = pf_position p \<and> is_Fin (pf_position p) \<and> positive (pf_position p))"

definition engine_inv :: "paper_engine \<Rightarrow> bool" where
  "engine_inv e \<longleftrightarrow>
     portfolio_wf (pe_portfolio e) \<and> float_value (pf_cash (pe_portfolio e)) \<and>
     same_holding (pe_portfolio e) (pe_position e) \<and>
     fle (rk_capital (pe_config e)) (pe_peak e)"

definition tick_ok :: "paper_engine \<Rightarrow> pyfloat \<Rightarrow> pyfloat option \<Rightarrow> bool" where
  \<comment> \<open>the numbers of a tick: a price in range, a finite ATR, and a finite equity of at most \<open>2^200\<close>\<close>
  "tick_ok e price a \<longleftrightarrow>
     price_ok price \<and> is_Fin (pe_peak e) \<and>
     is_Fin (equity (pe_portfolio e) price) \<and> fle (equity (pe_portfolio e) price) (Fin (2 ^ 200)) \<and>
     (case a of None \<Rightarrow> True | Some x \<Rightarrow> is_Fin x \<and> is_Fin (fmul (rk_stop_atr_multiplier (pe_config e)) x))"

lemma apply_sell_cash: "float_value (pf_cash p) \<Longrightarrow> float_value (pf_cash (apply_sell p f))"
  by (simp add: apply_sell_def Let_def)

lemma apply_buy_cash: "float_value (pf_cash p) \<Longrightarrow> float_value (pf_cash (fst (apply_buy p f)))"
  by (auto simp: apply_buy_def Let_def bindE_def split: sum.split)

lemma close_flat:
  assumes "portfolio_wf p" "same_holding p (Some pos)" "fl_quantity f = pp_quantity pos"
  shows "portfolio_wf (apply_sell p f) \<and> pf_position (apply_sell p f) = Fin 0"
proof -
  obtain b where b: "pf_position p = Fin b" "0 < b" "pp_quantity pos = Fin b"
    using assms(2) by (cases "pf_position p") (auto simp: same_holding_def)
  have "representable b" using assms(1) b by (simp add: portfolio_wf_def)
  then have "fill_ok f" using assms(3) b by (simp add: fill_ok_def)
  moreover have "pf_position (apply_sell p f) = Fin 0"
    using apply_sell_fields(1)[OF _ _ refl refl, of f p] b assms(3) DUST_nonneg by simp
  ultimately show ?thesis using apply_sell_wf[OF assms(1)] by simp
qed

lemma close_inv:
  assumes "engine_inv e" "same_holding (pe_portfolio e) (Some pos)" "pe_peak e \<noteq> NaN"
  shows "engine_inv (fst (close_position e pos price ts reason))"
proof -
  have q: "fl_quantity (make_fill e SELL price (pp_quantity pos) ts) = pp_quantity pos"
    by (simp add: make_fill_def Let_def)
  have c: "pe_config (fst (close_position e pos price ts reason)) = pe_config e"
    using frame_fields[OF frame_close] by blast
  show ?thesis
    using assms close_flat[OF _ assms(2) q] apply_sell_cash fle_trans[OF _ peak_close[OF assms(3)]]
    by (auto simp: engine_inv_def c) (simp add: same_holding_def)
qed

lemma trail_inv:
  "same_holding p (Some pos) \<Longrightarrow> same_holding p (Some (trail_position e pos price))"
  by (simp add: same_holding_def trail_position_def Let_def)

lemma open_inv:
  assumes "engine_inv e" "setup_ok e" "price_ok price" "pe_position e = None" "pe_peak e \<noteq> NaN"
    and "\<exists>k c. pf_cash (pe_portfolio e) = Fin c \<and> 1 / 2 \<le> c \<and> c \<le> 2 ^ 200"
    and "positive q" "is_Fin q" "float_value q"
    and "open_position e q price stop target ts = (e', r)"
  shows "engine_inv e'"
proof -
  obtain c where c: "pf_cash (pe_portfolio e) = Fin c" "1 / 2 \<le> c" "c \<le> 2 ^ 200" using assms(6) by blast
  obtain p where p: "price = Fin p" "1 / 2 ^ 100 \<le> p" "p \<le> 2 ^ 100"
    using assms(3) by (cases price) (auto simp: price_ok_def)
  obtain rt where rt: "slippage_rate (pe_slippage e) = Fin rt" "0 \<le> rt" "rt \<le> 1 / 2"
    using assms(2) by (cases "slippage_rate (pe_slippage e)") (auto simp: setup_ok_def)
  obtain x where x: "fmul price (fadd (Fin 1) (slippage_rate (pe_slippage e))) = Fin x"
    "1 / 2 ^ 101 \<le> x" "x \<le> 2 ^ 103"
    using exec_price_range[OF p(2,3) rt(2,3)] p(1) rt(1) by auto
  obtain v where v: "bindE (pdiv (Fin c) (rnd (1001 / 1000))) (\<lambda>n. pdiv n (Fin x)) = Inr (Fin v)"
    "0 < v" "representable v"
    using cash_quantity[OF c(2,3) x(2,3)] by blast
  obtain w where w: "q = Fin w" "0 < w" "representable w" using assms(7-9) by (cases q) auto
  obtain f u where f: "entry_fill e q price ts = Inr f" "fl_quantity f = Fin u" "0 < u" "representable u"
  proof -
    have "\<exists>u. (if C then bindE (pdiv (Fin c) (rnd (1001 / 1000))) (\<lambda>n. pdiv n (Fin x)) else Inr q) = Inr (Fin u) \<and>
        0 < u \<and> representable u" for C
      using v w by (cases C) auto
    then obtain u where "(if flt (fadd (Fin c) BUY_TOLERANCE) (fadd (fmul q (Fin x)) (fee (pe_fees e) (fmul q (Fin x))))
        then bindE (pdiv (Fin c) (rnd (1001 / 1000))) (\<lambda>n. pdiv n (Fin x)) else Inr q) = Inr (Fin u)"
      "0 < u" "representable u" by blast
    then show thesis using that[of _ u] by (simp only: entry_fill_def Let_def x(1) c(1) bindE_simps fill.simps)
  qed
  have flat: "pf_position (pe_portfolio e) = Fin 0" "portfolio_wf (pe_portfolio e)"
    using assms(1,4) by (auto simp: engine_inv_def same_holding_def)
  have wf: "portfolio_wf (fst (apply_buy (pe_portfolio e) f))"
    using apply_buy_wf[OF flat(2), of f] f(2,4) by (simp add: fill_ok_def)
  have cash: "float_value (pf_cash (fst (apply_buy (pe_portfolio e) f)))"
    using assms(1) by (intro apply_buy_cash) (simp add: engine_inv_def)
  have buy: "case apply_buy (pe_portfolio e) f of (p', Inl _) \<Rightarrow> p' = pe_portfolio e | (p', Inr _) \<Rightarrow> pf_position p' = Fin u"
    using apply_buy_outcome[OF flat(2) f(2,3,4)] flat(1) f(4)
    by (auto simp: fadd_zero_left representable_def split: prod.splits sum.splits)
  have pk: "fle (pe_peak e) (pe_peak e')" using peak_open[OF assms(10,5)] .
  have cfg: "pe_config e' = pe_config e" using assms(10) frame_fields frame_open by (metis fst_conv)
  show ?thesis
  proof (cases "apply_buy (pe_portfolio e) f")
    case (Pair p' res)
    show ?thesis
    proof (cases res)
      case (Inl err)
      then have "e' = e\<lparr>pe_portfolio := p'\<rparr>" "p' = pe_portfolio e" using assms(10) f(1) Pair buy by (simp_all add: open_position_def)
      then have "e' = e" by simp
      with assms(1) show ?thesis by simp
    next
      case (Inr res')
      then have "pe_portfolio e' = p'" "map_option pp_quantity (pe_position e') = Some (Fin u)" "pf_position p' = Fin u"
        using assms(10) f(1,2) Pair buy by (auto simp: open_position_def Let_def)
      then have "same_holding p' (pe_position e')" using f(3) by (auto simp: same_holding_def)
      then show ?thesis using wf cash Pair \<open>pe_portfolio e' = p'\<close> cfg pk assms(1)
        by (auto simp: engine_inv_def intro: fle_trans)
    qed
  qed
qed

section \<open>One tick\<close>

lemma verdict_buy:
  assumes "td_action d = BUY" "rv_approved (verdict_on e d price a ts)"
  shows "\<not> drawdown_exceeded (pe_peak e) (equity (pe_portfolio e) price) (pe_config e)"
    "pe_position e \<noteq> None \<Longrightarrow> 1 < rk_max_open_positions (pe_config e)"
proof -
  have a: "tp_action \<lparr>tp_action = td_action d, tp_intensity = i, tp_price = price, tp_atr = a, tp_timestamp_ms = ts\<rparr> = BUY" for i
    using assms(1) by simp
  show "\<not> drawdown_exceeded (pe_peak e) (equity (pe_portfolio e) price) (pe_config e)"
    using evaluate_buy(3)[OF a assms(2)[unfolded verdict_on_def]] by simp
  show "pe_position e \<noteq> None \<Longrightarrow> 1 < rk_max_open_positions (pe_config e)"
    using evaluate_buy(5)[OF a assms(2)[unfolded verdict_on_def]] by simp
qed

lemma flat_cash:
  assumes "engine_inv e" "setup_ok e" "tick_ok e price a" "pe_position e = None"
    and "td_action d = BUY" "rv_approved (verdict_on e d price a ts)"
  shows "\<exists>k c. pf_cash (pe_portfolio e) = Fin c \<and> 1 / 2 \<le> c \<and> c \<le> 2 ^ 200"
proof -
  obtain p where p: "price = Fin p" using assms(3) by (cases price) (auto simp: tick_ok_def price_ok_def)
  have pos: "pf_position (pe_portfolio e) = Fin 0" using assms(1,4) by (simp add: engine_inv_def same_holding_def)
  obtain c where c: "pf_cash (pe_portfolio e) = Fin c" "equity (pe_portfolio e) price = Fin c"
    using assms(1,3) pos p
    by (cases "pf_cash (pe_portfolio e)") (auto simp: equity_def tick_ok_def engine_inv_def representable_def)
  obtain k where k: "pe_peak e = Fin k" "1 \<le> k"
    using assms(1-3) by (cases "pe_peak e"; cases "rk_capital (pe_config e)")
      (auto simp: tick_ok_def engine_inv_def setup_ok_def)
  obtain m where m: "rk_max_drawdown (pe_config e) = Fin m" "m \<le> 1 / 4"
    using assms(2) by (cases "rk_max_drawdown (pe_config e)") (auto simp: setup_ok_def config_ok_def)
  have "k / 2 \<le> c"
    using verdict_buy(1)[OF assms(5,6)] cash_behind_guard[OF _ m k(2)] k(1) c(2) by simp
  moreover have "c \<le> 2 ^ 200" using assms(3) c(2) by (simp add: tick_ok_def)
  ultimately show ?thesis using c(1) k(2) by auto
qed

lemma engine_inv_mark: "engine_inv e \<Longrightarrow> pe_peak e \<noteq> NaN \<Longrightarrow> engine_inv (fst (mark_to_market e price))"
  using peak_mark(2)[of e price] frame_fields[OF frame_mark(1)[of e price]]
  by (auto simp: engine_inv_def intro: fle_trans)

lemma setup_ok_frame: "frame e = frame e' \<Longrightarrow> setup_ok e \<longleftrightarrow> setup_ok e'"
  using frame_fields[of e e'] by (simp add: setup_ok_def)

lemma decide_inv:
  assumes "engine_inv e" "setup_ok e" "tick_ok e price a" "decide e d price a ts = (e', r)"
  shows "engine_inv e'"
proof -
  let ?m = "fst (mark_to_market e price)"
  have n: "pe_peak e \<noteq> NaN" using assms(3) by (auto simp: tick_ok_def)
  have im: "engine_inv ?m" using assms(1) n by (rule engine_inv_mark)
  have nm: "pe_peak ?m \<noteq> NaN" using peak_mark(2)[OF n] by (auto dest: fle_not_NaN)
  have cfg: "frame e' = frame e" using assms(4) frame_decide by (metis fst_conv)
  show ?thesis using assms(4)
  proof (cases rule: decide_cases)
    case (idle ev)
    then show ?thesis using im assms(1) frame_fields[OF cfg] frame_fields[OF frame_mark(1)[of e price]]
      by (simp add: engine_inv_def)
  next
    case (closed pos)
    then have "same_holding (pe_portfolio ?m) (Some pos)" using assms(1) by (simp add: engine_inv_def)
    with close_inv[OF im _ nm] closed show ?thesis by simp
  next
    case (opened sz stop target)
    have none: "pe_position e = None"
      using verdict_buy(2)[OF opened(1,2)] assms(2) by (fastforce simp: setup_ok_def)
    note cash = flat_cash[OF assms(1-3) none opened(1,2)]
    have "positive (sz_quantity sz) \<and> is_Fin (sz_quantity sz) \<and> float_value (sz_quantity sz)"
      using assms(2,3) opened by (intro entry_size[of e price d a ts]) (auto simp: tick_ok_def)
    moreover have "setup_ok ?m" using assms(2) setup_ok_frame[OF frame_mark(1)] by blast
    ultimately show ?thesis
      using open_inv[OF im _ _ _ nm _ _ _ _ opened(4)[symmetric]] assms(3) none cash
      by (simp add: tick_ok_def)
  qed
qed

lemma on_price_inv:
  assumes "engine_inv e" "setup_ok e" "tick_ok e price a"
  shows "engine_inv (fst (on_price day_key e d price a ts)) \<and> setup_ok (fst (on_price day_key e d price a ts))"
proof (cases "on_time e ts")
  case False
  then show ?thesis using assms by (auto simp: on_price_def on_time_def split: option.splits)
next
  case True
  let ?e = "tick_state day_key e price a ts"
  have i: "engine_inv ?e" "setup_ok ?e" "tick_ok ?e price a" "pe_peak ?e \<noteq> NaN"
    using assms by (auto simp: engine_inv_def setup_ok_def tick_ok_def split: option.splits)
  have sok: "setup_ok (fst (process_price day_key e d price a ts))"
    using assms(2) process_frame[of day_key e d price a ts] by (simp add: setup_ok_def frame_def)
  obtain e2 x where c: "check_exits ?e price ts = (e2, x)" by fastforce
  have "engine_inv (fst (process_price day_key e d price a ts))"
  proof (cases x)
    case (Some ev)
    then obtain old reason where o: "pe_position ?e = Some old"
      "e2 = fst (close_position (?e\<lparr>pe_position := Some (trail_position ?e old price)\<rparr>) (trail_position ?e old price) price ts reason)"
      using c by (auto simp: check_exits_def Let_def split_beta split: option.splits if_splits)
    have "same_holding (pe_portfolio ?e) (Some (trail_position ?e old price))"
      using i(1) o(1) by (intro trail_inv) (simp add: engine_inv_def)
    then have "engine_inv e2" using i(1,4) unfolding o(2) by (intro close_inv) (auto simp: engine_inv_def)
    with c Some show ?thesis by (simp add: process_price_split)
  next
    case None
    note f = check_exits_none_fields[OF c[unfolded None]]
    have "same_holding (pe_portfolio e2) (pe_position e2)"
      using i(1) trail_inv by (auto simp: engine_inv_def f same_holding_def trail_position_def Let_def split: option.splits)
    then have "engine_inv e2" "setup_ok e2" "tick_ok e2 price a"
      using i by (simp_all add: engine_inv_def setup_ok_def tick_ok_def f split: option.splits)
    with c None show ?thesis using decide_inv[of e2 price a d ts]
      by (cases "decide e2 d price a ts") (simp add: process_price_split)
  qed
  with sok show ?thesis by (simp add: on_price_on_time[OF True])
qed

section \<open>Runs\<close>

fun in_bounds :: "(int \<Rightarrow> int) \<Rightarrow> paper_engine \<Rightarrow> tick list \<Rightarrow> bool" where
  \<comment> \<open>every tick of the run meets \<open>tick_ok\<close> in the state it arrives in\<close>
  "in_bounds day_key e [] = True"
| "in_bounds day_key e (t # rest) =
     ((case t of (d, price, a, ts) \<Rightarrow> tick_ok e price a) \<and> in_bounds day_key (engine_step day_key e t) rest)"

lemma engine_run_inv:
  "engine_inv e \<Longrightarrow> setup_ok e \<Longrightarrow> in_bounds day_key e ticks \<Longrightarrow>
   engine_inv (foldl (engine_step day_key) e ticks) \<and> setup_ok (foldl (engine_step day_key) e ticks)"
proof (induction ticks arbitrary: e)
  case (Cons t ticks)
  obtain d price a ts where t: "t = (d, price, a, ts)" by (cases t)
  then have "engine_inv (engine_step day_key e t) \<and> setup_ok (engine_step day_key e t)"
    using on_price_inv[OF Cons.prems(1,2), of price a day_key d ts] Cons.prems(3) by (simp add: engine_step_def)
  then show ?case using Cons by simp
qed simp

lemma new_engine_inv:
  "float_value (rk_capital cfg) \<Longrightarrow> rk_capital cfg \<noteq> NaN \<Longrightarrow> engine_inv (new_engine cfg fees slip)"
  using new_portfolio_wf
  by (simp add: engine_inv_def new_engine_def same_holding_def) (simp add: new_portfolio_def)

text \<open>
  C2 The engine's open position and the portfolio's holding never diverge: from a fresh
  engine, after any run of ticks in bounds, exceptions included, either the engine has no
  position and the portfolio is flat, or the portfolio holds exactly the position's positive
  quantity; so no exit can leave a residue and no entry is booked twice.
\<close>

theorem engine_and_portfolio_agree:
  assumes "setup_ok (new_engine cfg fees slip)"
    and "in_bounds day_key (new_engine cfg fees slip) ticks"
  shows "case pe_position (foldl (engine_step day_key) (new_engine cfg fees slip) ticks) of
      None \<Rightarrow> pf_position (pe_portfolio (foldl (engine_step day_key) (new_engine cfg fees slip) ticks)) = Fin 0
    | Some pos \<Rightarrow>
        pp_quantity pos = pf_position (pe_portfolio (foldl (engine_step day_key) (new_engine cfg fees slip) ticks)) \<and>
        is_Fin (pp_quantity pos) \<and> positive (pp_quantity pos)"
proof -
  have "float_value (rk_capital cfg)" "rk_capital cfg \<noteq> NaN"
    using assms(1) by (auto simp: setup_ok_def new_engine_def)
  then have "engine_inv (foldl (engine_step day_key) (new_engine cfg fees slip) ticks)"
    using engine_run_inv[OF new_engine_inv assms] by simp
  then show ?thesis by (auto simp: engine_inv_def same_holding_def split: option.splits)
qed

theorem engine_and_portfolio_agree_witness:
  "case pe_position (foldl (engine_step utc_day_index) easy_engine easy_ticks) of
      None \<Rightarrow> pf_position (pe_portfolio (foldl (engine_step utc_day_index) easy_engine easy_ticks)) = Fin 0
    | Some pos \<Rightarrow>
        pp_quantity pos = pf_position (pe_portfolio (foldl (engine_step utc_day_index) easy_engine easy_ticks)) \<and>
        is_Fin (pp_quantity pos) \<and> positive (pp_quantity pos)"
  unfolding easy_engine_def
proof (rule engine_and_portfolio_agree)
  show "setup_ok (new_engine easy_config \<lparr>taker_bps = Fin 0, maker_bps = Fin 0, fee_version = []\<rparr>
      \<lparr>slip_bps = Fin 0, slip_version = []\<rparr>)" by code_simp
  show "in_bounds utc_day_index (new_engine easy_config \<lparr>taker_bps = Fin 0, maker_bps = Fin 0, fee_version = []\<rparr>
      \<lparr>slip_bps = Fin 0, slip_version = []\<rparr>) easy_ticks" by code_simp
qed

theorem peak_equity_never_falls_witness:
  "fle (pe_peak easy_engine) (pe_peak (foldl (engine_step utc_day_index) easy_engine easy_ticks))"
  by (rule peak_equity_never_falls) (simp add: easy_engine_def new_engine_def easy_config_def)

end
