(* ===== verification/OrderBook.thy ===== *)
theory OrderBook
  imports Candles PyMath "HOL-Library.AList"
begin

text \<open>
  The local order book (\<open>domain/market/orderbook.py\<close>) and the service that maintains it from
  the stream (\<open>application/services/market_data_service.py\<close>).  A book side is a Python dict:
  an association list in insertion order, updated with \<open>AList.update\<close> and \<open>AList.delete\<close>;
  prices are numbers, so that dict equality of keys is equality here.  The service's awaits
  on its ports (candle and feature repositories, stream, commit) are the \<open>effect\<close>s a step
  returns in order, and every reading of a clock is an argument.
\<close>

section \<open>The book\<close>

datatype market_health = HEALTHY | STALE

record order_book =
  ob_symbol :: string
  ob_bids :: "(pyfloat \<times> pyfloat) list"
  ob_asks :: "(pyfloat \<times> pyfloat) list"
  ob_update_id :: "int option"

definition new_book :: "string \<Rightarrow> order_book" where
  "new_book symbol = \<lparr>ob_symbol = symbol, ob_bids = [], ob_asks = [], ob_update_id = None\<rparr>"

definition levels_dict :: "book_level list \<Rightarrow> (pyfloat \<times> pyfloat) list" where
  \<comment> \<open>\<open>{lvl.price: lvl.size for lvl in levels if lvl.size > 0}\<close>\<close>
  "levels_dict levels =
     foldl (\<lambda>d l. AList.update (lv_price l) (lv_size l) d) [] (filter (\<lambda>l. flt (Fin 0) (lv_size l)) levels)"

definition apply_snapshot :: "order_book \<Rightarrow> book_level list \<Rightarrow> book_level list \<Rightarrow> int \<Rightarrow> order_book" where
  "apply_snapshot b bids asks update_id =
     b\<lparr>ob_bids := levels_dict bids, ob_asks := levels_dict asks, ob_update_id := Some update_id\<rparr>"

definition apply_level :: "(pyfloat \<times> pyfloat) list \<Rightarrow> book_level \<Rightarrow> (pyfloat \<times> pyfloat) list" where
  "apply_level d l =
     (if feq (lv_size l) (Fin 0) then AList.delete (lv_price l) d
      else AList.update (lv_price l) (lv_size l) d)"

definition apply_levels :: "(pyfloat \<times> pyfloat) list \<Rightarrow> book_level list \<Rightarrow> (pyfloat \<times> pyfloat) list" where
  "apply_levels d levels = foldl apply_level d levels"

definition write_levels :: "order_book \<Rightarrow> book_level list \<Rightarrow> book_level list \<Rightarrow> int \<Rightarrow> order_book" where
  "write_levels b bids asks update_id =
     b\<lparr>ob_bids := apply_levels (ob_bids b) bids, ob_asks := apply_levels (ob_asks b) asks,
       ob_update_id := Some update_id\<rparr>"

definition apply_delta ::
  "order_book \<Rightarrow> book_level list \<Rightarrow> book_level list \<Rightarrow> int \<Rightarrow> order_book \<times> unit result" where
  "apply_delta b bids asks update_id =
     (case ob_update_id b of
        None \<Rightarrow> (write_levels b bids asks update_id, Inr ())
      | Some u \<Rightarrow>
          if u + 1 < update_id then (b, Inl (OrderBookDesync (u + 1) update_id))
          else if update_id \<le> u then (b, Inr ())
          else (write_levels b bids asks update_id, Inr ()))"

definition fmax1 :: "pyfloat list \<Rightarrow> pyfloat" where
  \<comment> \<open>\<open>max\<close> of a non-empty sequence\<close>
  "fmax1 xs = foldl fmax (hd xs) (tl xs)"

definition fmin1 :: "pyfloat list \<Rightarrow> pyfloat" where
  "fmin1 xs = foldl fmin (hd xs) (tl xs)"

definition best_bid :: "order_book \<Rightarrow> pyfloat option" where
  "best_bid b = (if ob_bids b = [] then None else Some (fmax1 (map fst (ob_bids b))))"

definition best_ask :: "order_book \<Rightarrow> pyfloat option" where
  "best_ask b = (if ob_asks b = [] then None else Some (fmin1 (map fst (ob_asks b))))"

definition mid :: "order_book \<Rightarrow> pyfloat option" where
  "mid b = (case (best_bid b, best_ask b) of
       (Some x, Some y) \<Rightarrow> Some (fdiv (fadd x y) (Fin 2)) | _ \<Rightarrow> None)"

definition spread :: "order_book \<Rightarrow> pyfloat option" where
  "spread b = (case (best_bid b, best_ask b) of (Some x, Some y) \<Rightarrow> Some (fsub y x) | _ \<Rightarrow> None)"

definition spread_pct :: "order_book \<Rightarrow> pyfloat option" where
  "spread_pct b = (case (mid b, spread b) of
       (Some m, Some s) \<Rightarrow> if feq m (Fin 0) then None else Some (fdiv s m) | _ \<Rightarrow> None)"

definition take_int :: "int \<Rightarrow> 'a list \<Rightarrow> 'a list" where
  \<comment> \<open>\<open>xs[:n]\<close>: a negative bound counts from the end\<close>
  "take_int n xs = (if 0 \<le> n then take (nat n) xs else take (length xs - nat (- n)) xs)"

definition depth :: "order_book \<Rightarrow> string \<Rightarrow> int \<Rightarrow> pyfloat" where
  "depth b side levels =
     (let book = (if side = ''bids'' then ob_bids b else ob_asks b);
          sorted_prices = fsorted (map fst book);
          prices = take_int levels (if side = ''bids'' then rev sorted_prices else sorted_prices)
      in pysum (map (\<lambda>p. the (map_of book p)) prices))"

definition imbalance :: "order_book \<Rightarrow> pyfloat option" where
  "imbalance b =
     (let bid_depth = depth b ''bids'' 50; ask_depth = depth b ''asks'' 50;
          total = fadd bid_depth ask_depth
      in if feq total (Fin 0) then None else Some (fdiv bid_depth total))"

definition book_is_healthy :: "order_book \<Rightarrow> bool" where
  "book_is_healthy b \<longleftrightarrow> best_bid b \<noteq> None \<and> best_ask b \<noteq> None"

section \<open>The market data service\<close>

record feature_snapshot =
  fs_symbol :: string
  fs_window_start_ms :: int
  fs_window_end_ms :: int
  fs_best_bid :: "pyfloat option"
  fs_best_ask :: "pyfloat option"
  fs_spread :: "pyfloat option"
  fs_spread_pct :: "pyfloat option"
  fs_bid_depth :: pyfloat
  fs_ask_depth :: pyfloat
  fs_imbalance :: "pyfloat option"

record market_data_config =
  mc_stale_timeout :: pyfloat
  mc_feature_window :: int
  mc_depth :: int

record market_data =
  md_config :: market_data_config
  md_books :: "(string \<times> order_book) list"
  md_health :: market_health
  md_last_message_at :: "pyfloat option"

datatype effect =
    UpsertCandle string timeframe candle
  | InsertFeature feature_snapshot
  | SubscribeOrderbook string int
  | Commit

definition new_market_data :: "market_data_config \<Rightarrow> market_data" where
  "new_market_data cfg =
     \<lparr>md_config = cfg, md_books = [], md_health = STALE, md_last_message_at = None\<rparr>"

definition refresh_health :: "market_data \<Rightarrow> pyfloat \<Rightarrow> market_data" where
  \<comment> \<open>\<open>now\<close> is the clock reading\<close>
  "refresh_health s now =
     s\<lparr>md_health :=
        (if (case md_last_message_at s of
               None \<Rightarrow> True
             | Some t \<Rightarrow> flt (mc_stale_timeout (md_config s)) (fsub now t)) then STALE
         else if md_books s \<noteq> [] \<and> list_all (\<lambda>(_, b). book_is_healthy b) (md_books s) then HEALTHY
         else STALE)\<rparr>"

definition setdefault_book :: "market_data \<Rightarrow> string \<Rightarrow> order_book" where
  "setdefault_book s symbol =
     (case map_of (md_books s) symbol of None \<Rightarrow> new_book symbol | Some b \<Rightarrow> b)"

definition handle_snapshot :: "market_data \<Rightarrow> book_update \<Rightarrow> pyfloat \<Rightarrow> pyfloat \<Rightarrow> market_data" where
  "handle_snapshot s u now1 now2 =
     (let b = apply_snapshot (setdefault_book s (bu_symbol u)) (bu_bids u) (bu_asks u) (bu_update_id u)
      in refresh_health
           (s\<lparr>md_books := AList.update (bu_symbol u) b (md_books s), md_last_message_at := Some now1\<rparr>) now2)"

definition handle_delta :: "market_data \<Rightarrow> book_update \<Rightarrow> pyfloat \<Rightarrow> pyfloat \<Rightarrow> market_data \<times> bool" where
  "handle_delta s u now1 now2 =
     (let s1 = s\<lparr>md_last_message_at := Some now1\<rparr> in
      case map_of (md_books s) (bu_symbol u) of
        None \<Rightarrow> (s1\<lparr>md_health := STALE\<rparr>, True)
      | Some b \<Rightarrow>
          (case apply_delta b (bu_bids u) (bu_asks u) (bu_update_id u) of
             (b', Inl _) \<Rightarrow> (s1\<lparr>md_books := AList.update (bu_symbol u) b' (md_books s), md_health := STALE\<rparr>, True)
           | (b', Inr _) \<Rightarrow>
               (refresh_health (s1\<lparr>md_books := AList.update (bu_symbol u) b' (md_books s)\<rparr>) now2, False)))"

definition handle_kline :: "market_data \<Rightarrow> kline_update \<Rightarrow> pyfloat \<Rightarrow> market_data \<times> effect list \<times> candle option result" where
  "handle_kline s k now1 =
     (let s1 = s\<lparr>md_last_message_at := Some now1\<rparr> in
      case to_candle k of
        Inl e \<Rightarrow> (s1, [], Inl e)
      | Inr None \<Rightarrow> (s1, [], Inr None)
      | Inr (Some c) \<Rightarrow> (s1, [UpsertCandle (ku_symbol k) (ku_interval k) c], Inr (Some c)))"

definition book_features :: "market_data \<Rightarrow> int \<Rightarrow> int \<Rightarrow> string \<times> order_book \<Rightarrow> feature_snapshot" where
  "book_features s start_ms end_ms sb =
     (case sb of (symbol, b) \<Rightarrow>
       \<lparr>fs_symbol = symbol, fs_window_start_ms = start_ms, fs_window_end_ms = end_ms,
        fs_best_bid = best_bid b, fs_best_ask = best_ask b, fs_spread = spread b,
        fs_spread_pct = spread_pct b, fs_bid_depth = depth b ''bids'' (mc_depth (md_config s)),
        fs_ask_depth = depth b ''asks'' (mc_depth (md_config s)), fs_imbalance = imbalance b\<rparr>)"

definition aggregate_features :: "market_data \<Rightarrow> int \<Rightarrow> int \<Rightarrow> feature_snapshot list" where
  \<comment> \<open>each is inserted in the feature repository, in this order\<close>
  "aggregate_features s start_ms end_ms =
     map (book_features s start_ms end_ms) (filter (\<lambda>(_, b). book_is_healthy b) (md_books s))"

definition handle_event ::
  "market_data \<Rightarrow> stream_event \<Rightarrow> pyfloat \<Rightarrow> pyfloat \<Rightarrow> market_data \<times> effect list \<times> unit result" where
  "handle_event s e now1 now2 =
     (case e of
        Snapshot u \<Rightarrow> (handle_snapshot s u now1 now2, [], Inr ())
      | Delta u \<Rightarrow>
          (case handle_delta s u now1 now2 of
             (s', True) \<Rightarrow> (s', [SubscribeOrderbook (bu_symbol u) (mc_depth (md_config s'))], Inr ())
           | (s', False) \<Rightarrow> (s', [], Inr ()))
      | Kline k \<Rightarrow>
          (case handle_kline s k now1 of
             (s', fx, Inl err) \<Rightarrow> (s', fx, Inl err)
           | (s', fx, Inr _) \<Rightarrow> (s', fx, Inr ())))"

text \<open>
  One iteration of \<open>_consume_loop\<close>.  \<open>readings\<close> are the clock values it takes, in order:
  \<open>loop.time()\<close> at the receipt, the service clock at the message and at the health check, the
  window check, the aggregation, the next window, and the final health check.  \<open>int(\<dots>)\<close> of a
  finite float truncates towards zero.
\<close>

record readings =
  rd_recv :: pyfloat
  rd_message :: pyfloat
  rd_health :: pyfloat
  rd_window :: pyfloat
  rd_aggregate :: pyfloat
  rd_next :: pyfloat
  rd_refresh :: pyfloat

definition int_of_float :: "pyfloat \<Rightarrow> int result" where
  "int_of_float x = (case x of
       Fin q \<Rightarrow> Inr (if 0 \<le> q then floor q else - floor (- q))
     | NaN \<Rightarrow> Inl (ValueError ''cannot convert float NaN to integer'')
     | _ \<Rightarrow> Inl OverflowError)"

definition close_window ::
  "market_data \<Rightarrow> bool \<Rightarrow> readings \<Rightarrow> (effect list \<times> pyfloat) result" where
  \<comment> \<open>the aggregation block: its inserts, the optional commit, and the next window\<close>
  "close_window s has_commit r =
     bindE (int_of_float (fmul (rd_aggregate r) (Fin 1000))) (\<lambda>now_ms.
       Inr (map InsertFeature
              (aggregate_features s (now_ms - mc_feature_window (md_config s) * 1000) now_ms)
              @ (if has_commit then [Commit] else []),
            fadd (rd_next r) (fint (mc_feature_window (md_config s)))))"

definition consume_step ::
  "bool \<Rightarrow> market_data \<times> pyfloat \<Rightarrow> stream_event option \<Rightarrow> readings \<Rightarrow>
   (market_data \<times> pyfloat) \<times> effect list \<times> unit result" where
  "consume_step has_commit sn received r =
     (case sn of (s, next_window) \<Rightarrow>
        case received of
          None \<Rightarrow> ((s\<lparr>md_health := STALE\<rparr>, next_window), [], Inr ())
        | Some ev \<Rightarrow>
            (case handle_event (s\<lparr>md_last_message_at := Some (rd_recv r)\<rparr>) ev (rd_message r) (rd_health r) of
               (s1, fx, Inl err) \<Rightarrow> ((s1, next_window), fx, Inl err)
             | (s1, fx, Inr _) \<Rightarrow>
                 if fle next_window (rd_window r) then
                   (case close_window s1 has_commit r of
                      Inl err \<Rightarrow> ((s1, next_window), fx, Inl err)
                    | Inr (gx, next') \<Rightarrow> ((refresh_health s1 (rd_refresh r), next'), fx @ gx, Inr ()))
                 else ((refresh_health s1 (rd_refresh r), next_window), fx, Inr ())))"

section \<open>What a delta writes\<close>

definition last_level :: "book_level list \<Rightarrow> pyfloat \<Rightarrow> book_level option" where
  "last_level levels p = find (\<lambda>l. lv_price l = p) (rev levels)"

lemma find_append: "find P (xs @ ys) = (case find P xs of None \<Rightarrow> find P ys | Some x \<Rightarrow> Some x)"
  by (induction xs) auto

lemma last_level_snoc:
  "last_level (ls @ [l]) p = (if lv_price l = p then Some l else last_level ls p)"
  by (simp add: last_level_def)

definition written :: "(pyfloat \<times> pyfloat) list \<Rightarrow> book_level list \<Rightarrow> pyfloat \<Rightarrow> pyfloat option" where
  \<comment> \<open>the size a side holds at a price after the levels: the last level of that price decides,
     and a zero size removes it\<close>
  "written d levels p =
     (case last_level levels p of
        None \<Rightarrow> map_of d p
      | Some l \<Rightarrow> if feq (lv_size l) (Fin 0) then None else Some (lv_size l))"

lemma apply_levels_lookup: "map_of (apply_levels d levels) p = written d levels p"
proof (induction levels rule: rev_induct)
  case Nil
  show ?case by (simp add: apply_levels_def written_def last_level_def)
next
  case (snoc l ls)
  have "map_of (apply_levels d (ls @ [l])) p = map_of (apply_level (apply_levels d ls) l) p"
    by (simp add: apply_levels_def)
  then show ?case using snoc.IH
    by (auto simp: apply_level_def delete_conv' update_conv' written_def last_level_snoc)
qed

lemma levels_dict_lookup:
  "map_of (levels_dict levels) p = map_option lv_size (last_level (filter (\<lambda>l. flt (Fin 0) (lv_size l)) levels) p)"
proof (induction levels rule: rev_induct)
  case Nil
  show ?case by (simp add: levels_dict_def last_level_def)
next
  case (snoc l ls)
  then show ?case by (auto simp: levels_dict_def update_conv' last_level_snoc)
qed

section \<open>Properties\<close>

text \<open>
  A delta is refused on a gap in the sequence, ignored when it is old, and otherwise
  written: in the first two cases the book is untouched, in the last each side holds, at each
  price, what the last level of that price says, and the sequence number advances.
\<close>

theorem apply_delta_cases:
  "case ob_update_id b of
     None \<Rightarrow> apply_delta b bids asks i = (write_levels b bids asks i, Inr ())
   | Some u \<Rightarrow>
       if u + 1 < i then apply_delta b bids asks i = (b, Inl (OrderBookDesync (u + 1) i))
       else if i \<le> u then apply_delta b bids asks i = (b, Inr ())
       else snd (apply_delta b bids asks i) = Inr () \<and>
            ob_update_id (fst (apply_delta b bids asks i)) = Some (u + 1) \<and>
            map_of (ob_bids (fst (apply_delta b bids asks i))) p = written (ob_bids b) bids p \<and>
            map_of (ob_asks (fst (apply_delta b bids asks i))) p = written (ob_asks b) asks p"
  by (auto simp: apply_delta_def write_levels_def apply_levels_lookup split: option.split)

definition run_deltas :: "order_book \<Rightarrow> book_update list \<Rightarrow> order_book result" where
  \<comment> \<open>deltas applied one after the other, up to the first desynchronisation\<close>
  "run_deltas b us =
     foldE (\<lambda>b u. case apply_delta b (bu_bids u) (bu_asks u) (bu_update_id u) of
              (b', Inl e) \<Rightarrow> Inl e | (b', Inr _) \<Rightarrow> Inr b') b us"

text \<open>
  C32 No missing delta goes unnoticed: when a run of deltas ends without a
  desynchronisation, the book's sequence number has not gone back and every number it moved
  through belongs to a delta of the run, duplicates and old deltas among them doing no harm.
\<close>

theorem deltas_without_desync_are_complete:
  assumes "run_deltas b us = Inr b'" "ob_update_id b = Some u"
  shows "\<exists>v. ob_update_id b' = Some v \<and> u \<le> v \<and> {u<..v} \<subseteq> set (map bu_update_id us)"
  using assms
proof (induction us arbitrary: b u)
  case Nil
  then show ?case by (simp add: run_deltas_def)
next
  case (Cons d us)
  obtain b1 where b1: "apply_delta b (bu_bids d) (bu_asks d) (bu_update_id d) = (b1, Inr ())" "run_deltas b1 us = Inr b'"
    using Cons.prems(1) by (auto simp: run_deltas_def bindE_eq_Inr split: prod.splits sum.splits)
  consider "b1 = b" | "ob_update_id b1 = Some (u + 1)" "bu_update_id d = u + 1"
    using b1(1) Cons.prems(2) by (auto simp: apply_delta_def write_levels_def split: if_splits)
  then show ?case
  proof cases
    case 1
    with Cons.IH[OF b1(2)] Cons.prems(2) show ?thesis by auto
  next
    case 2
    from Cons.IH[OF b1(2) 2(1)] obtain v where
      v: "ob_update_id b' = Some v" "u + 1 \<le> v" "{u + 1<..v} \<subseteq> set (map bu_update_id us)" by blast
    have "{u<..v} = insert (u + 1) {u + 1<..v}" using v(2) by auto
    with v 2(2) show ?thesis by (intro exI[of _ v]) auto
  qed
qed

definition example_update :: "int \<Rightarrow> book_update" where
  "example_update i =
     \<lparr>bu_symbol = ''ETHUSDT'', bu_bids = [\<lparr>lv_price = Fin 9, lv_size = Fin 1\<rparr>],
      bu_asks = [\<lparr>lv_price = Fin 10, lv_size = Fin 2\<rparr>], bu_update_id = i, bu_seq = i\<rparr>"

definition example_book :: "int \<Rightarrow> order_book" where
  "example_book i = apply_snapshot (new_book ''ETHUSDT'') (bu_bids (example_update i)) (bu_asks (example_update i)) i"

theorem deltas_without_desync_are_complete_witness:
  "\<exists>v. ob_update_id (example_book 7) = Some v \<and> 5 \<le> v \<and>
     {5<..v} \<subseteq> set (map bu_update_id [example_update 6, example_update 4, example_update 7])"
proof (rule deltas_without_desync_are_complete)
  show "run_deltas (example_book 5) [example_update 6, example_update 4, example_update 7] = Inr (example_book 7)"
    by code_simp
  show "ob_update_id (example_book 5) = Some 5" by code_simp
qed

text \<open>
  The service asks for a new subscription exactly when a delta belongs to no known book
  or leaves a gap; it then reports stale data and leaves every book as it was, and any other
  delta asks for nothing.
\<close>

theorem gap_forces_resubscription:
  "case handle_event s (Delta u) now1 now2 of (s', fx, r) \<Rightarrow>
     r = Inr () \<and>
     (if (case map_of (md_books s) (bu_symbol u) of
            None \<Rightarrow> True
          | Some b \<Rightarrow> (case ob_update_id b of None \<Rightarrow> False | Some i \<Rightarrow> i + 1 < bu_update_id u))
      then fx = [SubscribeOrderbook (bu_symbol u) (mc_depth (md_config s))] \<and> md_health s' = STALE \<and>
           map_of (md_books s') = map_of (md_books s)
      else fx = [])"
proof (cases "map_of (md_books s) (bu_symbol u)")
  case None
  then show ?thesis by (simp add: handle_event_def handle_delta_def Let_def)
next
  case (Some b)
  then have same: "map_of (AList.update (bu_symbol u) b (md_books s)) = map_of (md_books s)"
    by (simp add: update_conv' fun_upd_idem)
  show ?thesis
    using Some same
    by (cases "ob_update_id b") (auto simp: handle_event_def handle_delta_def apply_delta_def Let_def)
qed

text \<open>
  The feed is reported healthy only on fresh and complete data: after an iteration of
  the consume loop, healthy means that there is a book, that every book has both sides, and
  that the last message is not older than the timeout at the loop's final clock reading.
\<close>

theorem healthy_means_fresh_and_complete:
  assumes "consume_step has_commit (s, nw) received r = ((s', nw'), fx, Inr ())" "md_health s' = HEALTHY"
  shows "md_books s' \<noteq> [] \<and> list_all (\<lambda>(_, b). best_bid b \<noteq> None \<and> best_ask b \<noteq> None) (md_books s') \<and>
    (\<exists>t. md_last_message_at s' = Some t \<and>
       \<not> flt (mc_stale_timeout (md_config s')) (fsub (rd_refresh r) t))"
proof -
  obtain s1 where "s' = refresh_health s1 (rd_refresh r)"
    using assms by (auto simp: consume_step_def split: option.splits prod.splits sum.splits if_splits)
  with assms(2) show ?thesis
    by (fastforce simp: refresh_health_def book_is_healthy_def list_all_iff split: option.splits if_splits)
qed

definition example_readings :: readings where
  "example_readings =
     \<lparr>rd_recv = Fin 1, rd_message = Fin 1, rd_health = Fin 1, rd_window = Fin 1, rd_aggregate = Fin 1,
      rd_next = Fin 1, rd_refresh = Fin 2\<rparr>"

definition example_service :: market_data where
  "example_service = new_market_data \<lparr>mc_stale_timeout = Fin 10, mc_feature_window = 5, mc_depth = 50\<rparr>"

definition served :: market_data where
  "served = fst (fst (consume_step False (example_service, Fin 5) (Some (Snapshot (example_update 5))) example_readings))"

theorem healthy_means_fresh_and_complete_witness:
  "md_books served \<noteq> [] \<and> list_all (\<lambda>(_, b). best_bid b \<noteq> None \<and> best_ask b \<noteq> None) (md_books served) \<and>
    (\<exists>t. md_last_message_at served = Some t \<and>
       \<not> flt (mc_stale_timeout (md_config served)) (fsub (rd_refresh example_readings) t))"
proof (rule healthy_means_fresh_and_complete)
  show "consume_step False (example_service, Fin 5) (Some (Snapshot (example_update 5))) example_readings =
      ((served, Fin 5), [], Inr ())" by code_simp
  show "md_health served = HEALTHY" by code_simp
qed

end
