(* ===== verification/FeatureEngine.thy ===== *)
theory FeatureEngine
  imports Regime OrderBook
begin

text \<open>
  The feature engine (\<open>domain/market/feature_engine.py\<close>), which assembles the structured
  market state (\<open>domain/market/state.py\<close>) from candles per timeframe, an order book snapshot
  and BTC candles.  The mapping of candles is an association list in the order it iterates;
  \<open>pow_fn\<close> is C's \<open>pow\<close>, which \<open>realized_volatility\<close> uses.
\<close>

section \<open>Market state\<close>

record timeframe_features =
  tf_timeframe :: timeframe
  tf_close :: "pyfloat option"
  tf_ema_fast :: "pyfloat option"
  tf_ema_slow :: "pyfloat option"
  tf_rsi :: "pyfloat option"
  tf_atr :: "pyfloat option"
  tf_vwap :: "pyfloat option"
  tf_macd :: "pyfloat option"
  tf_macd_signal :: "pyfloat option"
  tf_macd_histogram :: "pyfloat option"
  tf_momentum :: "pyfloat option"
  tf_realized_volatility :: "pyfloat option"
  tf_relative_volume :: "pyfloat option"

record btc_context =
  bc_symbol :: string
  bc_close :: "pyfloat option"
  bc_momentum :: "pyfloat option"
  bc_rsi :: "pyfloat option"

record market_state =
  ms_symbol :: string
  ms_timestamp_ms :: int
  ms_health :: market_health
  ms_regime :: "market_regime option"
  ms_timeframes :: "(timeframe \<times> timeframe_features) list"
  ms_orderbook :: "feature_snapshot option"
  ms_btc :: "btc_context option"

section \<open>The engine\<close>

record feature_config =
  fc_rsi_period :: int
  fc_ema_fast :: int
  fc_ema_slow :: int
  fc_macd_fast :: int
  fc_macd_slow :: int
  fc_macd_signal :: int
  fc_atr_period :: int
  fc_momentum_period :: int
  fc_realized_vol_window :: int
  fc_relative_volume_window :: int
  fc_regime_timeframe :: timeframe

definition default_feature_config :: feature_config where
  "default_feature_config =
     \<lparr>fc_rsi_period = 14, fc_ema_fast = 20, fc_ema_slow = 50, fc_macd_fast = 12, fc_macd_slow = 26,
      fc_macd_signal = 9, fc_atr_period = 14, fc_momentum_period = 20, fc_realized_vol_window = 20,
      fc_relative_volume_window = 20, fc_regime_timeframe = H1\<rparr>"

definition last_value :: "'a list \<Rightarrow> 'a option" where
  "last_value xs = (if xs = [] then None else Some (last xs))"

definition timeframe_features_of ::
  "(pyfloat \<Rightarrow> pyfloat \<Rightarrow> pyfloat result) \<Rightarrow> feature_config \<Rightarrow> timeframe \<Rightarrow> candle list \<Rightarrow> timeframe_features result" where
  "timeframe_features_of pow_fn cfg tf cs =
     (let closes = map c_close cs in
      bindE (ema closes (fc_ema_fast cfg)) (\<lambda>ema_fast.
      bindE (ema closes (fc_ema_slow cfg)) (\<lambda>ema_slow.
      bindE (macd closes (fc_macd_fast cfg) (fc_macd_slow cfg) (fc_macd_signal cfg)) (\<lambda>m.
      bindE (rsi closes (fc_rsi_period cfg)) (\<lambda>rsi_series.
      bindE (atr cs (fc_atr_period cfg)) (\<lambda>atr_series.
      bindE (momentum closes (fc_momentum_period cfg)) (\<lambda>momentum_series.
      bindE (realized_volatility pow_fn closes (fc_realized_vol_window cfg)) (\<lambda>vol_series.
      bindE (relative_volume cs (fc_relative_volume_window cfg)) (\<lambda>rel_vol_series.
        Inr \<lparr>tf_timeframe = tf, tf_close = last_value closes,
             tf_ema_fast = last_opt ema_fast, tf_ema_slow = last_opt ema_slow,
             tf_rsi = last_opt rsi_series, tf_atr = last_opt atr_series, tf_vwap = last_opt (vwap cs),
             tf_macd = last_opt (macd_line m), tf_macd_signal = last_opt (macd_signal m),
             tf_macd_histogram = last_opt (macd_histogram m), tf_momentum = last_opt momentum_series,
             tf_realized_volatility = last_opt vol_series,
             tf_relative_volume = last_opt rel_vol_series\<rparr>)))))))))"

fun longest_of :: "'a list \<Rightarrow> 'a list list \<Rightarrow> 'a list" where
  \<comment> \<open>\<open>max(xss, key=len)\<close> over a first candidate: the first of the longest\<close>
  "longest_of best [] = best"
| "longest_of best (x # xs) = longest_of (if length best < length x then x else best) xs"

definition classify_regime ::
  "(pyfloat \<Rightarrow> pyfloat \<Rightarrow> pyfloat result) \<Rightarrow> regime_config \<Rightarrow> feature_config \<Rightarrow>
   (timeframe \<times> candle list) list \<Rightarrow> market_regime option result" where
  "classify_regime pow_fn rcfg cfg by_tf =
     (case map_of by_tf (fc_regime_timeframe cfg) of
        Some (c # cs) \<Rightarrow> classify pow_fn rcfg (c # cs)
      | _ \<Rightarrow> (case by_tf of
           [] \<Rightarrow> Inr None
         | p # rest \<Rightarrow> classify pow_fn rcfg (longest_of (snd p) (map snd rest))))"

definition btc_context_of :: "candle list option \<Rightarrow> feature_config \<Rightarrow> btc_context option result" where
  "btc_context_of btc cfg =
     (case btc of
        Some (c # cs) \<Rightarrow>
          let closes = map c_close (c # cs) in
          bindE (rsi closes (fc_rsi_period cfg)) (\<lambda>rsi_series.
          bindE (momentum closes (fc_momentum_period cfg)) (\<lambda>momentum_series.
            Inr (Some \<lparr>bc_symbol = ''BTCUSDT'', bc_close = Some (last closes),
                       bc_momentum = last_opt momentum_series, bc_rsi = last_opt rsi_series\<rparr>)))
      | _ \<Rightarrow> Inr None)"

definition state_timestamp :: "(timeframe \<times> candle list) list \<Rightarrow> int" where
  "state_timestamp by_tf =
     (case map (\<lambda>(_, cs). timestamp_ms (last cs)) (filter (\<lambda>(_, cs). cs \<noteq> []) by_tf) of
        [] \<Rightarrow> 0
      | t # ts \<Rightarrow> foldl max t ts)"

definition compute_state ::
  "(pyfloat \<Rightarrow> pyfloat \<Rightarrow> pyfloat result) \<Rightarrow> regime_config \<Rightarrow> feature_config \<Rightarrow> string \<Rightarrow> market_health \<Rightarrow>
   (timeframe \<times> candle list) list \<Rightarrow> feature_snapshot option \<Rightarrow> candle list option \<Rightarrow> market_state result" where
  "compute_state pow_fn rcfg cfg symbol health by_tf book btc =
     bindE (mapE (\<lambda>(tf, cs). bindE (timeframe_features_of pow_fn cfg tf cs) (\<lambda>f. Inr (tf, f))) by_tf) (\<lambda>tfs.
     bindE (classify_regime pow_fn rcfg cfg by_tf) (\<lambda>regime.
     bindE (btc_context_of btc cfg) (\<lambda>b.
       Inr \<lparr>ms_symbol = symbol, ms_timestamp_ms = state_timestamp by_tf, ms_health = health,
            ms_regime = regime, ms_timeframes = tfs, ms_orderbook = book, ms_btc = b\<rparr>)))"

section \<open>Features are the series at their last bar\<close>

lemma last_opt_take: "length ys = length xs \<Longrightarrow> 0 < n \<Longrightarrow> n \<le> length xs \<Longrightarrow> last_opt (take n ys) = ys ! (n - 1)"
  by (auto simp: last_opt_def last_conv_nth)

text \<open>
  The features at a past instant are the ones a live run would have seen: on the first
  \<open>n\<close> candles, each feature is the value at bar \<open>n - 1\<close> of the series over all candles, later
  candles notwithstanding.
\<close>

theorem features_are_causal:
  assumes "timeframe_features_of pow_fn cfg tf cs = Inr full" "0 < n" "n \<le> length cs"
  shows "\<exists>f e r a m v.
    timeframe_features_of pow_fn cfg tf (take n cs) = Inr f \<and>
    ema (map c_close cs) (fc_ema_fast cfg) = Inr e \<and> tf_ema_fast f = e ! (n - 1) \<and>
    rsi (map c_close cs) (fc_rsi_period cfg) = Inr r \<and> tf_rsi f = r ! (n - 1) \<and>
    atr cs (fc_atr_period cfg) = Inr a \<and> tf_atr f = a ! (n - 1) \<and>
    momentum (map c_close cs) (fc_momentum_period cfg) = Inr m \<and> tf_momentum f = m ! (n - 1) \<and>
    realized_volatility pow_fn (map c_close cs) (fc_realized_vol_window cfg) = Inr v \<and>
    tf_realized_volatility f = v ! (n - 1) \<and>
    tf_close f = Some (c_close (cs ! (n - 1))) \<and> tf_vwap f = vwap cs ! (n - 1)"
proof -
  let ?x = "map c_close cs"
  obtain e es m r a mo v rv where s: "ema ?x (fc_ema_fast cfg) = Inr e" "ema ?x (fc_ema_slow cfg) = Inr es"
    "macd ?x (fc_macd_fast cfg) (fc_macd_slow cfg) (fc_macd_signal cfg) = Inr m"
    "rsi ?x (fc_rsi_period cfg) = Inr r" "atr cs (fc_atr_period cfg) = Inr a"
    "momentum ?x (fc_momentum_period cfg) = Inr mo"
    "realized_volatility pow_fn ?x (fc_realized_vol_window cfg) = Inr v"
    "relative_volume cs (fc_relative_volume_window cfg) = Inr rv"
    using assms(1) by (auto simp: timeframe_features_of_def Let_def bindE_eq_Inr)
  have t: "map c_close (take n cs) = take n ?x" by (simp add: take_map)
  obtain mm where "macd (take n ?x) (fc_macd_fast cfg) (fc_macd_slow cfg) (fc_macd_signal cfg) = Inr mm"
    using macd.ind_take[of ?x "fc_macd_fast cfg" "fc_macd_slow cfg" "fc_macd_signal cfg" _ n] s(3)
    by (auto simp: macd_rows_def bindE_eq_Inr)
  note tk = this ema.ind_take[OF s(1), of n] ema.ind_take[OF s(2), of n] rsi.ind_take[OF s(4), of n]
    atr.ind_take[OF s(5), of n] momentum.ind_take[OF s(6), of n] realized_volatility.ind_take[OF s(7), of n]
    relative_volume.ind_take[OF s(8), of n]
  have len: "length e = length cs" "length r = length cs" "length a = length cs" "length mo = length cs"
    "length v = length cs" "length (vwap cs) = length cs"
    using ema.ind_length[OF s(1)] rsi.ind_length[OF s(4)] atr.ind_length[OF s(5)]
      momentum.ind_length[OF s(6)] realized_volatility.ind_length[OF s(7)] vwap_length[of cs] by simp_all
  have vw: "vwap (take n cs) = take n (vwap cs)" using vwap.ind_take[OF refl, of n cs] by simp
  note at = last_opt_take[OF _ assms(2,3)]
  have cl: "last_value (take n ?x) = Some (c_close (cs ! (n - 1)))"
    using assms(2,3) by (auto simp: last_value_def last_conv_nth)
  show ?thesis
    unfolding timeframe_features_of_def Let_def t tk bindE_simps
    using s(1,4,5,6,7) len cl vw by (simp add: at)
qed

definition small_config :: feature_config where
  "small_config =
     \<lparr>fc_rsi_period = 1, fc_ema_fast = 1, fc_ema_slow = 2, fc_macd_fast = 1, fc_macd_slow = 1,
      fc_macd_signal = 1, fc_atr_period = 1, fc_momentum_period = 1, fc_realized_vol_window = 1,
      fc_relative_volume_window = 1, fc_regime_timeframe = H1\<rparr>"

definition no_pow :: "pyfloat \<Rightarrow> pyfloat \<Rightarrow> pyfloat result" where
  "no_pow _ _ = Inr (Fin 1)"

theorem features_are_causal_witness:
  "\<exists>f e r a m v.
    timeframe_features_of no_pow small_config M15 (take 2 example_bars) = Inr f \<and>
    ema (map c_close example_bars) (fc_ema_fast small_config) = Inr e \<and> tf_ema_fast f = e ! (2 - 1) \<and>
    rsi (map c_close example_bars) (fc_rsi_period small_config) = Inr r \<and> tf_rsi f = r ! (2 - 1) \<and>
    atr example_bars (fc_atr_period small_config) = Inr a \<and> tf_atr f = a ! (2 - 1) \<and>
    momentum (map c_close example_bars) (fc_momentum_period small_config) = Inr m \<and> tf_momentum f = m ! (2 - 1) \<and>
    realized_volatility no_pow (map c_close example_bars) (fc_realized_vol_window small_config) = Inr v \<and>
    tf_realized_volatility f = v ! (2 - 1) \<and>
    tf_close f = Some (c_close (example_bars ! (2 - 1))) \<and> tf_vwap f = vwap example_bars ! (2 - 1)"
proof (rule features_are_causal)
  have "\<exists>x. timeframe_features_of no_pow small_config M15 example_bars = Inr x"
    by (rule exI[of _ "case timeframe_features_of no_pow small_config M15 example_bars of Inr x \<Rightarrow> x | Inl _ \<Rightarrow> undefined"])
       code_simp
  then show "timeframe_features_of no_pow small_config M15 example_bars =
      Inr (case timeframe_features_of no_pow small_config M15 example_bars of Inr x \<Rightarrow> x | Inl _ \<Rightarrow> undefined)"
    by auto
qed (simp_all add: example_bars_def)

end
