(* ===== verification/Llm.thy ===== *)
theory Llm
  imports Trading Risk
begin

text \<open>
  The LLM decision path: budgets and their alert levels (\<open>domain/llm/budget.py\<close>), the cost of
  a call (\<open>cost.py\<close>), the cost monitor and the decision agent
  (\<open>application/services/cost_monitor.py\<close>, \<open>decision_agent.py\<close>), and the DeepSeek adapter
  (\<open>infrastructure/llm/deepseek.py\<close>, \<open>schemas.py\<close>).  The prompt store, the HTTP client, the JSON
  parser, pydantic's validation and SHA-256 are not code of the repository: they are
  function arguments, and clock readings are arguments too.  A parser or a validation returns a
  value, raises an exception of the class the adapter catches there, or raises one it does not
  catch, so the paths on which the adapter raises are paths of the model.
\<close>

section \<open>Budgets\<close>

datatype budget_level = OK | ALERT_50 | ALERT_75 | ALERT_90 | BLOCKED

fun severity :: "budget_level \<Rightarrow> nat" where
  "severity OK = 0" | "severity ALERT_50 = 1" | "severity ALERT_75 = 2"
| "severity ALERT_90 = 3" | "severity BLOCKED = 4"

instantiation budget_level :: linorder
begin

definition less_eq_budget_level :: "budget_level \<Rightarrow> budget_level \<Rightarrow> bool" where
  "less_eq_budget_level a b \<longleftrightarrow> severity a \<le> severity b"

definition less_budget_level :: "budget_level \<Rightarrow> budget_level \<Rightarrow> bool" where
  "less_budget_level a b \<longleftrightarrow> severity a < severity b"

instance
proof
  fix a b :: budget_level
  assume "a \<le> b" "b \<le> a"
  then show "a = b" by (cases a; cases b) (auto simp: less_eq_budget_level_def)
qed (auto simp: less_eq_budget_level_def less_budget_level_def)

end

record budget =
  bg_limit :: pyfloat
  bg_consumed :: pyfloat

definition budget_ratio :: "budget \<Rightarrow> pyfloat" where
  \<comment> \<open>the divisor is not zero: it is above zero or NaN\<close>
  "budget_ratio b = (if fle (bg_limit b) (Fin 0) then Fin 0 else fdiv (bg_consumed b) (bg_limit b))"

definition budget_level_of :: "budget \<Rightarrow> budget_level" where
  "budget_level_of b =
     (let ratio = budget_ratio b in
      if fle (Fin 1) ratio then BLOCKED
      else if fle (rnd (9/10)) ratio then ALERT_90
      else if fle (Fin (3/4)) ratio then ALERT_75
      else if fle (Fin (1/2)) ratio then ALERT_50
      else OK)"

definition budget_is_blocked :: "budget \<Rightarrow> bool" where
  "budget_is_blocked b \<longleftrightarrow> budget_level_of b = BLOCKED"

definition consume :: "budget \<Rightarrow> pyfloat \<Rightarrow> budget" where
  "consume b cost = \<lparr>bg_limit = bg_limit b, bg_consumed = fadd (bg_consumed b) cost\<rparr>"

record budget_state =
  bs_experiment :: budget
  bs_monthly :: budget

definition budget_record :: "budget_state \<Rightarrow> pyfloat \<Rightarrow> budget_state" where
  "budget_record s cost =
     \<lparr>bs_experiment = consume (bs_experiment s) cost, bs_monthly = consume (bs_monthly s) cost\<rparr>"

definition budgets_blocked :: "budget_state \<Rightarrow> bool" where
  "budgets_blocked s \<longleftrightarrow> budget_is_blocked (bs_experiment s) \<or> budget_is_blocked (bs_monthly s)"

definition max_level :: "budget_level \<Rightarrow> budget_level \<Rightarrow> budget_level" where
  "max_level a b = (if severity b \<le> severity a then a else b)"

section \<open>Calls, cost and the monitor\<close>

record llm_call =
  lc_provider :: string
  lc_requested_model :: string
  lc_reported_model :: string
  lc_request :: string
  lc_response :: string
  lc_prompt_hash :: string
  lc_market_state_hash :: string
  lc_temperature :: pyfloat
  lc_parameters :: "(string \<times> string) list"
  lc_timestamp_ms :: int
  lc_latency_ms :: int
  lc_input_tokens :: int
  lc_output_tokens :: int
  lc_cost_usd :: pyfloat
  lc_error :: string

definition true_div :: "int \<Rightarrow> int \<Rightarrow> pyfloat result" where
  \<comment> \<open>\<open>/\<close> of two ints, the second not 0: a quotient beyond the floats raises\<close>
  "true_div m n = (if is_Fin (idiv m n) then Inr (idiv m n) else Inl OverflowError)"

definition compute_cost :: "int \<Rightarrow> int \<Rightarrow> pyfloat \<Rightarrow> pyfloat \<Rightarrow> pyfloat result" where
  "compute_cost input_tokens output_tokens price_input price_output =
     bindE (true_div input_tokens 1000000) (\<lambda>a.
     bindE (true_div output_tokens 1000000) (\<lambda>b.
       Inr (fadd (fmul a price_input) (fmul b price_output))))"

record cost_monitor =
  cm_state :: budget_state
  cm_calls :: "llm_call list"

definition new_cost_monitor :: "pyfloat \<Rightarrow> pyfloat \<Rightarrow> cost_monitor" where
  "new_cost_monitor experiment monthly =
     \<lparr>cm_state = \<lparr>bs_experiment = \<lparr>bg_limit = experiment, bg_consumed = Fin 0\<rparr>,
                 bs_monthly = \<lparr>bg_limit = monthly, bg_consumed = Fin 0\<rparr>\<rparr>, cm_calls = []\<rparr>"

definition monitor_level :: "cost_monitor \<Rightarrow> budget_level" where
  "monitor_level m =
     max_level (budget_level_of (bs_experiment (cm_state m))) (budget_level_of (bs_monthly (cm_state m)))"

definition monitor_record :: "cost_monitor \<Rightarrow> llm_call \<Rightarrow> cost_monitor \<times> budget_level" where
  "monitor_record m c =
     (let m1 = \<lparr>cm_state = budget_record (cm_state m) (lc_cost_usd c), cm_calls = cm_calls m @ [c]\<rparr>
      in (m1, monitor_level m1))"

definition monitor_blocked :: "cost_monitor \<Rightarrow> bool" where
  "monitor_blocked m \<longleftrightarrow> budgets_blocked (cm_state m)"

definition total_cost_usd :: "cost_monitor \<Rightarrow> pyfloat" where
  "total_cost_usd m = bg_consumed (bs_monthly (cm_state m))"

section \<open>The decision agent\<close>

record prompt =
  pt_kind :: string
  pt_version :: string
  pt_text :: string

record decision_result =
  dr_decision :: trading_decision
  dr_call :: llm_call

record agent_config =
  ag_prompt_kind :: string
  ag_default_version :: string

fun exception_name :: "py_error \<Rightarrow> string" where
  "exception_name (ValueError _) = ''ValueError''"
| "exception_name (TypeError _) = ''TypeError''"
| "exception_name KeyError = ''KeyError''"
| "exception_name IndexError = ''IndexError''"
| "exception_name ZeroDivisionError = ''ZeroDivisionError''"
| "exception_name OverflowError = ''OverflowError''"
| "exception_name AssertionError = ''AssertionError''"
| "exception_name AttributeError = ''AttributeError''"
| "exception_name StatisticsError = ''StatisticsError''"
| "exception_name (PermissionError _) = ''PermissionError''"
| "exception_name (OutOfOrderTimestampError _ _) = ''OutOfOrderTimestampError''"
| "exception_name (OrderBookDesync _ _) = ''OrderBookDesync''"
| "exception_name (MemoryLeakageError _ _ _) = ''MemoryLeakageError''"
| "exception_name (UnsafePaperModeError _) = ''UnsafePaperModeError''"
| "exception_name (RecoveryGapError _ _ _) = ''RecoveryGapError''"
| "exception_name (RecoveryDivergenceError _ _ _) = ''RecoveryDivergenceError''"
| "exception_name (DuplicateCandleError _ _ _) = ''DuplicateCandleError''"
| "exception_name (PromotionRejected _) = ''PromotionRejected''"
| "exception_name (UnsupportedStateError _) = ''UnsupportedStateError''"
| "exception_name StateTamperedError = ''StateTamperedError''"
| "exception_name FileNotFoundError = ''FileNotFoundError''"
| "exception_name PromptNotFound = ''PromptNotFound''"
| "exception_name MissingMarkError = ''MissingMarkError''"
| "exception_name InvalidOperation = ''InvalidOperation''"
| "exception_name (ExternalError n) = n"
| "exception_name (NamedError n _) = n"

definition agent_decide ::
  "agent_config \<Rightarrow> (string \<Rightarrow> string \<Rightarrow> prompt result) \<Rightarrow> (prompt \<Rightarrow> decision_result result) \<Rightarrow>
   cost_monitor \<Rightarrow> llm_context \<Rightarrow> cost_monitor \<times> trading_decision" where
  \<comment> \<open>\<open>provider\<close> is the awaited call on the given market state, memories and context\<close>
  "agent_decide cfg load provider m cx =
     (if monitor_blocked m then (m, decision_hold (cx_timestamp_ms cx) ''budget_exhausted'')
      else
        let version = (if cx_prompt_version cx = [] then ag_default_version cfg else cx_prompt_version cx)
        in case bindE (load (ag_prompt_kind cfg) version) provider of
             Inl PromptNotFound \<Rightarrow> (m, decision_hold (cx_timestamp_ms cx) ''prompt_not_found'')
           | Inl e \<Rightarrow> (m, decision_hold (cx_timestamp_ms cx) (''provider_error:'' @ exception_name e))
           | Inr r \<Rightarrow> (fst (monitor_record m (dr_call r)), dr_decision r))"

section \<open>The DeepSeek adapter\<close>

record deepseek_config =
  dk_model :: string
  dk_temperature :: pyfloat
  dk_price_input :: pyfloat
  dk_price_output :: pyfloat
  dk_max_retries :: int

datatype http_reply = HttpError string | Response int string | Raised py_error

datatype http_outcome =
    Network string
  | BadStatus int string
  | Success string
  | Escaped py_error
  | NoAttempt

definition is_retryable :: "int \<Rightarrow> bool" where
  "is_retryable status \<longleftrightarrow> status = 429 \<or> 500 \<le> status"

definition backoff :: "nat \<Rightarrow> pyfloat result" where
  \<comment> \<open>\<open>0.5 * (2**attempt)\<close>: the int is converted to a float first\<close>
  "backoff attempt = (if 1024 \<le> attempt then Inl OverflowError else Inr (fmul (Fin (1/2)) (Fin (2 ^ attempt))))"

fun post_loop :: "(nat \<Rightarrow> http_reply) \<Rightarrow> nat \<Rightarrow> nat \<Rightarrow> nat \<times> pyfloat list \<times> http_outcome" where
  \<comment> \<open>attempt \<open>k\<close> with \<open>left\<close> iterations of the range left; the number of posts made, the seconds
     slept before each retry, and how the loop ended\<close>
  "post_loop post k 0 = (k, [], NoAttempt)"
| "post_loop post k (Suc left) =
     (case post k of
        HttpError s \<Rightarrow> (Suc k, [], Network s)
      | Raised e \<Rightarrow> (Suc k, [], Escaped e)
      | Response status txt \<Rightarrow>
          if status < 200 \<or> 300 \<le> status then
            (if is_retryable status \<and> 0 < left then
               (case backoff k of
                  Inl e \<Rightarrow> (Suc k, [], Escaped e)
                | Inr secs \<Rightarrow> (case post_loop post (Suc k) left of (n, sleeps, out) \<Rightarrow> (n, secs # sleeps, out)))
             else (Suc k, [], BadStatus status txt))
          else (Suc k, [], Success txt))"

text \<open>
  What a parser or a validation does: a value, an exception of a class that is caught where it is
  called (with its text), or another exception.  Of \<open>json.loads\<close> the adapter catches
  \<open>JSONDecodeError\<close> and \<open>TypeError\<close>; an int of more than 4300 digits raises a plain
  \<open>ValueError\<close>, and a text nested too deeply a \<open>RecursionError\<close>.
\<close>

datatype 'a parsed = Decoded 'a | Caught string | Uncaught py_error

record chat_reply =
  ch_model :: string
  ch_contents :: "string list"
  ch_prompt_tokens :: int
  ch_completion_tokens :: int

record decision_response =
  rs_decision :: action
  rs_confidence :: pyfloat
  rs_intensity :: intensity
  rs_rationale :: string
  rs_supporting :: "string list"
  rs_risk :: "string list"

definition to_decision :: "decision_response \<Rightarrow> int \<Rightarrow> trading_decision" where
  "to_decision r ts =
     \<lparr>td_timestamp_ms = ts, td_action = rs_decision r, td_confidence = rs_confidence r,
      td_intensity = rs_intensity r, td_rationale_summary = rs_rationale r,
      td_supporting_factors = rs_supporting r, td_risk_factors = rs_risk r, td_fallback_reason = None\<rparr>"

record call_inputs =
  \<comment> \<open>what the adapter reads before and around the request: the timestamp, the rendered request,
     the prompt hash and the latency\<close>
  ci_timestamp_ms :: int
  ci_request :: string
  ci_prompt_hash :: string
  ci_latency_ms :: int

definition record_call ::
  "deepseek_config \<Rightarrow> llm_context \<Rightarrow> call_inputs \<Rightarrow> string \<Rightarrow> string \<Rightarrow> int \<Rightarrow> int \<Rightarrow> pyfloat \<Rightarrow> string \<Rightarrow> llm_call" where
  "record_call cfg cx ci response reported tokens_in tokens_out cost err =
     \<lparr>lc_provider = ''deepseek'', lc_requested_model = dk_model cfg, lc_reported_model = reported,
      lc_request = ci_request ci, lc_response = response, lc_prompt_hash = ci_prompt_hash ci,
      lc_market_state_hash = cx_market_state_hash cx, lc_temperature = dk_temperature cfg,
      lc_parameters = [], lc_timestamp_ms = ci_timestamp_ms ci, lc_latency_ms = ci_latency_ms ci,
      lc_input_tokens = tokens_in, lc_output_tokens = tokens_out, lc_cost_usd = cost, lc_error = err\<rparr>"

definition hold_result ::
  "deepseek_config \<Rightarrow> llm_context \<Rightarrow> call_inputs \<Rightarrow> string \<Rightarrow> string \<Rightarrow> string \<Rightarrow> decision_result" where
  "hold_result cfg cx ci reason response err =
     \<lparr>dr_decision = decision_hold (ci_timestamp_ms ci) reason,
      dr_call = record_call cfg cx ci response [] 0 0 (Fin 0) err\<rparr>"

definition accept_chat ::
  "(string \<Rightarrow> 'j parsed) \<Rightarrow> ('j \<Rightarrow> decision_response parsed) \<Rightarrow> deepseek_config \<Rightarrow> llm_context \<Rightarrow>
   call_inputs \<Rightarrow> chat_reply \<Rightarrow> decision_result result" where
  \<comment> \<open>from the first choice to the result\<close>
  "accept_chat parse_json validate cfg cx ci chat =
     (case ch_contents chat of
        [] \<Rightarrow> Inr (hold_result cfg cx ci ''empty_choices'' [] ''sin choices en la respuesta'')
      | content # _ \<Rightarrow>
          (case parse_json content of
             Uncaught e \<Rightarrow> Inl e
           | Caught err \<Rightarrow> Inr (hold_result cfg cx ci ''invalid_json'' content err)
           | Decoded j \<Rightarrow>
               (case validate j of
                  Uncaught e \<Rightarrow> Inl e
                | Caught err \<Rightarrow> Inr (hold_result cfg cx ci ''invalid_schema'' content err)
                | Decoded r \<Rightarrow>
                    bindE (compute_cost (ch_prompt_tokens chat) (ch_completion_tokens chat)
                             (dk_price_input cfg) (dk_price_output cfg)) (\<lambda>cost.
                    Inr \<lparr>dr_decision = to_decision r (ci_timestamp_ms ci),
                         dr_call = record_call cfg cx ci content (ch_model chat)
                           (ch_prompt_tokens chat) (ch_completion_tokens chat) cost []\<rparr>))))"

definition deepseek_decide ::
  "(nat \<Rightarrow> http_reply) \<Rightarrow> (string \<Rightarrow> chat_reply parsed) \<Rightarrow> (string \<Rightarrow> 'j parsed) \<Rightarrow>
   ('j \<Rightarrow> decision_response parsed) \<Rightarrow> (int \<Rightarrow> string) \<Rightarrow> deepseek_config \<Rightarrow> llm_context \<Rightarrow>
   call_inputs \<Rightarrow> decision_result result" where
  \<comment> \<open>\<open>parse_chat\<close>: \<open>response.json()\<close> and its validation; \<open>status_text\<close> renders the HTTP status in
     the error message\<close>
  "deepseek_decide post parse_chat parse_json validate status_text cfg cx ci =
     (case snd (snd (post_loop post 0 (nat (dk_max_retries cfg + 1)))) of
        NoAttempt \<Rightarrow> Inl AssertionError
      | Escaped e \<Rightarrow> Inl e
      | Network err \<Rightarrow> Inr (hold_result cfg cx ci ''network_error'' [] err)
      | BadStatus status txt \<Rightarrow> Inr (hold_result cfg cx ci ''http_error'' txt (status_text status))
      | Success txt \<Rightarrow>
          (case parse_chat txt of
             Uncaught e \<Rightarrow> Inl e
           | Caught err \<Rightarrow> Inr (hold_result cfg cx ci ''invalid_json'' txt err)
           | Decoded chat \<Rightarrow> accept_chat parse_json validate cfg cx ci chat))"

section \<open>Alert levels only rise\<close>

definition ratio_level :: "pyfloat \<Rightarrow> budget_level" where
  "ratio_level ratio =
     (if fle (Fin 1) ratio then BLOCKED else if fle (rnd (9/10)) ratio then ALERT_90
      else if fle (Fin (3/4)) ratio then ALERT_75 else if fle (Fin (1/2)) ratio then ALERT_50 else OK)"

lemma budget_level_ratio: "budget_level_of b = ratio_level (budget_ratio b)"
  by (simp add: budget_level_of_def ratio_level_def Let_def)

lemma ratio_level_mono: "fle r s \<Longrightarrow> ratio_level r \<le> ratio_level s"
  using fle_trans[of _ r s] by (auto simp: ratio_level_def less_eq_budget_level_def)

lemma OK_least: "OK \<le> l"
  by (simp add: less_eq_budget_level_def)

lemma consume_level:
  assumes "nonneg (bg_consumed b)" "float_value (bg_consumed b)" "nonneg cost"
  shows "budget_level_of b \<le> budget_level_of (consume b cost)"
proof -
  have le: "fle (bg_consumed b) (fadd (bg_consumed b) cost)" using assms by (intro fadd_ge_self)
  have lim: "bg_limit (consume b cost) = bg_limit b" "bg_consumed (consume b cost) = fadd (bg_consumed b) cost"
    by (simp_all add: consume_def)
  show ?thesis
  proof (cases "bg_limit b")
    case (Fin q)
    have "fle (fdiv x (Fin q)) (fdiv y (Fin q))" if "fle x y" "0 < q" "nonneg x" for x y
      using that by (cases x; cases y) (auto simp: finf_def divide_right_mono intro!: binary64.rd_mono binary64.rd_number)
    then show ?thesis unfolding budget_level_ratio using Fin le assms(1)
      by (intro ratio_level_mono) (auto simp: budget_ratio_def lim)
  next
    case PInf
    then have "budget_ratio b = Fin 0 \<or> budget_ratio b = NaN"
      using assms(1) by (cases "bg_consumed b") (auto simp: budget_ratio_def)
    then have "budget_level_of b = OK"
      using flt_asym[of "Fin 0" "rnd (9/10)"] representable_lower[of "1/2" "9/10"] representable_power[of "- 1"]
      by (auto simp: budget_level_ratio ratio_level_def power_int_def dest: fle_trans)
    then show ?thesis by (simp add: OK_least)
  next
    case NInf
    then show ?thesis by (simp add: budget_level_ratio budget_ratio_def lim)
  next
    case NaN
    then show ?thesis by (simp add: budget_level_ratio budget_ratio_def lim fdiv_NaN)
  qed
qed

definition spent_ok :: "cost_monitor \<Rightarrow> bool" where
  "spent_ok m \<longleftrightarrow>
     nonneg (bg_consumed (bs_experiment (cm_state m))) \<and> float_value (bg_consumed (bs_experiment (cm_state m))) \<and>
     nonneg (bg_consumed (bs_monthly (cm_state m))) \<and> float_value (bg_consumed (bs_monthly (cm_state m)))"

definition monitor_step :: "cost_monitor \<Rightarrow> llm_call \<Rightarrow> cost_monitor" where
  "monitor_step m c = fst (monitor_record m c)"

interpretation monitor: guarded_machine monitor_step spent_ok "\<lambda>c. nonneg (lc_cost_usd c)"
  by unfold_locales
     (auto simp: monitor_step_def monitor_record_def Let_def spent_ok_def budget_record_def consume_def
       intro: fadd_nonneg)

lemma max_level_mono: "a \<le> c \<Longrightarrow> b \<le> d \<Longrightarrow> max_level a b \<le> max_level c d"
  by (auto simp: max_level_def less_eq_budget_level_def)

lemma monitor_step_level:
  assumes "spent_ok m" "nonneg (lc_cost_usd c)"
  shows "monitor_level m \<le> monitor_level (monitor_step m c)"
proof -
  have "monitor_level (monitor_step m c) =
      max_level (budget_level_of (consume (bs_experiment (cm_state m)) (lc_cost_usd c)))
        (budget_level_of (consume (bs_monthly (cm_state m)) (lc_cost_usd c)))"
    by (simp add: monitor_step_def monitor_record_def Let_def monitor_level_def budget_record_def)
  then show ?thesis using assms
    by (auto simp: monitor_level_def spent_ok_def intro!: max_level_mono consume_level)
qed

lemma blocked_iff_level: "monitor_blocked m \<longleftrightarrow> monitor_level m = BLOCKED"
  by (cases "budget_level_of (bs_experiment (cm_state m))"; cases "budget_level_of (bs_monthly (cm_state m))")
     (simp_all add: monitor_blocked_def budgets_blocked_def budget_is_blocked_def monitor_level_def max_level_def)

lemma BLOCKED_top: "BLOCKED \<le> l \<Longrightarrow> l = BLOCKED"
  by (cases l) (auto simp: less_eq_budget_level_def)

section \<open>Properties\<close>

text \<open>
  Spending only tightens the budget: over any calls of non-negative cost the alert level
  never goes down, and once a budget is exhausted it stays exhausted.
\<close>

theorem alert_level_never_falls:
  assumes "list_all (\<lambda>c. nonneg (lc_cost_usd c)) calls"
  shows "monitor_level (new_cost_monitor e mo) \<le> monitor_level (foldl monitor_step (new_cost_monitor e mo) calls) \<and>
    (if monitor_blocked (foldl monitor_step (new_cost_monitor e mo) (take n calls))
     then monitor_blocked (foldl monitor_step (new_cost_monitor e mo) calls) else True)"
proof -
  have ok: "spent_ok (new_cost_monitor e mo)" by (simp add: spent_ok_def new_cost_monitor_def)
  have rise: "monitor_level m \<le> monitor_level (foldl monitor_step m cs)"
    if "spent_ok m" "list_all (\<lambda>c. nonneg (lc_cost_usd c)) cs" for m cs
    using that
    by (rule monitor.run_relation[where R = "\<lambda>a b. monitor_level a \<le> monitor_level b"])
       (auto intro: monitor_step_level order_trans)
  have parts: "list_all (\<lambda>c. nonneg (lc_cost_usd c)) (take n calls)"
    "list_all (\<lambda>c. nonneg (lc_cost_usd c)) (drop n calls)"
    using assms by (auto simp: list_all_iff dest: in_set_takeD in_set_dropD)
  have split: "foldl monitor_step (new_cost_monitor e mo) calls =
      foldl monitor_step (foldl monitor_step (new_cost_monitor e mo) (take n calls)) (drop n calls)"
    by (metis append_take_drop_id foldl_append)
  have "monitor_level (foldl monitor_step (new_cost_monitor e mo) (take n calls)) \<le>
      monitor_level (foldl monitor_step (new_cost_monitor e mo) calls)"
    unfolding split by (intro rise monitor.run_inv ok parts)
  then show ?thesis using rise[OF ok assms] by (auto simp: blocked_iff_level dest: BLOCKED_top)
qed

definition example_context :: llm_context where
  "example_context =
     \<lparr>cx_symbol = ''ETHUSDT'', cx_timestamp_ms = 7, cx_experiment_id = ''e1'', cx_prompt_version = [],
      cx_market_state_hash = ''h''\<rparr>"

definition example_deepseek :: deepseek_config where
  "example_deepseek =
     \<lparr>dk_model = ''m'', dk_temperature = Fin 0, dk_price_input = Fin 1, dk_price_output = Fin 1, dk_max_retries = 2\<rparr>"

definition example_inputs :: call_inputs where
  "example_inputs = \<lparr>ci_timestamp_ms = 7, ci_request = ''r'', ci_prompt_hash = ''p'', ci_latency_ms = 3\<rparr>"

definition example_call :: llm_call where
  "example_call = record_call example_deepseek example_context example_inputs [] [] 0 0 (Fin 3) []"

theorem alert_level_never_falls_witness:
  "monitor_level (new_cost_monitor (Fin 4) (Fin 8)) \<le>
     monitor_level (foldl monitor_step (new_cost_monitor (Fin 4) (Fin 8)) [example_call, example_call, example_call]) \<and>
   (if monitor_blocked (foldl monitor_step (new_cost_monitor (Fin 4) (Fin 8)) (take 2 [example_call, example_call, example_call]))
    then monitor_blocked (foldl monitor_step (new_cost_monitor (Fin 4) (Fin 8)) [example_call, example_call, example_call])
    else True)"
  by (rule alert_level_never_falls) (simp add: example_call_def record_call_def)

text \<open>
  The decision agent is fail-safe: with the budget exhausted nothing is called or spent,
  a missing prompt or any exception of the provider gives a HOLD with its reason and leaves
  the monitor as it was, and only a returned result is passed on and charged.
\<close>

theorem agent_is_fail_safe:
  "case agent_decide cfg load provider m cx of (m', d) \<Rightarrow>
     if monitor_blocked m then m' = m \<and> d = decision_hold (cx_timestamp_ms cx) ''budget_exhausted''
     else case bindE (load (ag_prompt_kind cfg)
                 (if cx_prompt_version cx = [] then ag_default_version cfg else cx_prompt_version cx)) provider of
       Inl e \<Rightarrow> m' = m \<and> td_action d = HOLD \<and> is_fallback d \<and> td_timestamp_ms d = cx_timestamp_ms cx
     | Inr r \<Rightarrow> d = dr_decision r \<and> cm_calls m' = cm_calls m @ [dr_call r] \<and>
         total_cost_usd m' = fadd (total_cost_usd m) (lc_cost_usd (dr_call r))"
  by (auto simp: agent_decide_def Let_def decision_hold_def is_fallback_def monitor_record_def
      budget_record_def consume_def total_cost_usd_def split: sum.split py_error.split)

lemma true_div_Inl: "true_div m n = Inl e \<longleftrightarrow> e = OverflowError \<and> \<not> is_Fin (idiv m n)"
  by (auto simp: true_div_def)

lemma cost_overflows:
  "compute_cost m n p q = Inl e \<longleftrightarrow> e = OverflowError \<and> \<not> (is_Fin (idiv m 1000000) \<and> is_Fin (idiv n 1000000))"
  by (auto simp: compute_cost_def bindE_eq_Inl true_div_def split: if_splits)

text \<open>What the loop leaves: a reply of the adapter's range, an exception, or no attempt at all.\<close>

definition ends_well :: "(nat \<Rightarrow> http_reply) \<Rightarrow> nat \<Rightarrow> nat \<Rightarrow> http_outcome \<Rightarrow> bool" where
  "ends_well post k n out \<longleftrightarrow>
     (case out of
        NoAttempt \<Rightarrow> n \<le> k
      | Escaped e \<Rightarrow> (\<exists>i<n. post i = Raised e) \<or> e = OverflowError \<and> Suc 1024 < n
      | Success t \<Rightarrow> \<exists>i<n. \<exists>st. post i = Response st t \<and> 200 \<le> st \<and> st < 300
      | _ \<Rightarrow> True)"

lemma post_loop_ends:
  assumes "post_loop post k left = (posts, sleeps, out)"
  shows "posts \<le> k + left \<and> length sleeps \<le> left - 1 \<and> map Inr sleeps = map backoff [k..<k + length sleeps] \<and>
    ends_well post k (k + left) out"
  using assms
proof (induction post k left arbitrary: posts sleeps out rule: post_loop.induct)
  case (2 post k left)
  show ?case
  proof (cases "post k")
    case (Response st t)
    show ?thesis
    proof (cases "(st < 200 \<or> 300 \<le> st) \<and> is_retryable st \<and> 0 < left")
      case True
      show ?thesis
      proof (cases "backoff k")
        case (Inl e)
        with 2(2) Response True show ?thesis by (auto simp: ends_well_def backoff_def split: if_splits)
      next
        case (Inr secs)
        obtain n s o' where step: "post_loop post (Suc k) left = (n, s, o')" by (cases "post_loop post (Suc k) left")
        with 2(2) Response True Inr have h: "posts = n" "sleeps = secs # s" "out = o'" by (auto split: if_splits)
        have "map backoff [k..<k + Suc (length s)] = backoff k # map backoff [Suc k..<Suc k + length s]"
          by (simp add: upt_conv_Cons del: upt_Suc)
        with "2.IH"[OF Response _ _ Inr step] True Inr h show ?thesis
          by (auto simp: ends_well_def split: http_outcome.splits)
      qed
    next
      case False
      then consider "200 \<le> st" "st < 300" | "\<not> (200 \<le> st \<and> st < 300)" "\<not> (is_retryable st \<and> 0 < left)" by fastforce
      then show ?thesis using 2(2) Response by cases (auto simp: ends_well_def intro!: exI[of _ k])
    qed
  qed (use 2(2) in \<open>auto simp: ends_well_def\<close>)
qed (simp add: ends_well_def)

lemma hold_result_is_free:
  "td_fallback_reason (dr_decision (hold_result cfg cx ci reason resp err)) = Some reason"
  "td_action (dr_decision (hold_result cfg cx ci reason resp err)) = HOLD"
  "lc_cost_usd (dr_call (hold_result cfg cx ci reason resp err)) = Fin 0"
  by (simp_all add: hold_result_def decision_hold_def record_call_def)

definition answers :: "(string \<Rightarrow> chat_reply parsed) \<Rightarrow> (string \<Rightarrow> 'j parsed) \<Rightarrow> ('j \<Rightarrow> decision_response parsed) \<Rightarrow>
    string \<Rightarrow> chat_reply \<Rightarrow> decision_response \<Rightarrow> bool" where
  \<comment> \<open>the text of a reply holds a chat whose first choice holds a valid decision\<close>
  "answers parse_chat parse_json validate t chat d \<longleftrightarrow>
     parse_chat t = Decoded chat \<and>
     (\<exists>c cs j. ch_contents chat = c # cs \<and> parse_json c = Decoded j \<and> validate j = Decoded d)"

definition escapes :: "(string \<Rightarrow> chat_reply parsed) \<Rightarrow> (string \<Rightarrow> 'j parsed) \<Rightarrow> ('j \<Rightarrow> decision_response parsed) \<Rightarrow>
    string \<Rightarrow> py_error \<Rightarrow> bool" where
  \<comment> \<open>reading the text of a reply raises what nothing catches\<close>
  "escapes parse_chat parse_json validate t e \<longleftrightarrow>
     parse_chat t = Uncaught e \<or>
     (\<exists>chat c cs. parse_chat t = Decoded chat \<and> ch_contents chat = c # cs \<and>
        (parse_json c = Uncaught e \<or> (\<exists>j. parse_json c = Decoded j \<and> validate j = Uncaught e))) \<or>
     (\<exists>chat d. answers parse_chat parse_json validate t chat d \<and> e = OverflowError \<and>
        \<not> (is_Fin (idiv (ch_prompt_tokens chat) 1000000) \<and> is_Fin (idiv (ch_completion_tokens chat) 1000000)))"

definition FALLBACKS :: "string list" where
  "FALLBACKS = [''network_error'', ''http_error'', ''invalid_json'', ''empty_choices'', ''invalid_schema'']"

definition held_free :: "decision_result \<Rightarrow> bool" where
  "held_free r \<longleftrightarrow> td_action (dr_decision r) = HOLD \<and> lc_cost_usd (dr_call r) = Fin 0 \<and>
     (\<exists>reason. td_fallback_reason (dr_decision r) = Some reason \<and> List.member FALLBACKS reason)"

lemma held_result: "List.member FALLBACKS reason \<Longrightarrow> held_free (hold_result cfg cx ci reason resp err)"
  by (simp add: held_free_def hold_result_is_free)

lemma reply_cases:
  assumes "(case parse_chat t of
      Uncaught e \<Rightarrow> Inl e
    | Caught err \<Rightarrow> Inr (hold_result cfg cx ci ''invalid_json'' t err)
    | Decoded chat \<Rightarrow> accept_chat parse_json validate cfg cx ci chat) = out"
  shows "case out of
      Inl e \<Rightarrow> escapes parse_chat parse_json validate t e
    | Inr r \<Rightarrow> held_free r \<or>
        (\<exists>chat d. answers parse_chat parse_json validate t chat d \<and> dr_decision r = to_decision d (ci_timestamp_ms ci) \<and>
           compute_cost (ch_prompt_tokens chat) (ch_completion_tokens chat) (dk_price_input cfg) (dk_price_output cfg) =
             Inr (lc_cost_usd (dr_call r)) \<and> lc_error (dr_call r) = [])"
proof (cases "parse_chat t")
  case (Decoded chat)
  note chat = this
  show ?thesis
  proof (cases "ch_contents chat")
    case Nil
    with chat assms show ?thesis by (auto simp: accept_chat_def held_result FALLBACKS_def)
  next
    case (Cons c cs)
    note cont = this
    show ?thesis
    proof (cases "parse_json c")
      case (Decoded j)
      note js = this
      show ?thesis
      proof (cases "validate j")
        case (Decoded d)
        have a: "answers parse_chat parse_json validate t chat d" using chat cont js Decoded by (auto simp: answers_def)
        let ?cost = "compute_cost (ch_prompt_tokens chat) (ch_completion_tokens chat) (dk_price_input cfg) (dk_price_output cfg)"
        show ?thesis
        proof (cases ?cost)
          case (Inl e)
          with a have "escapes parse_chat parse_json validate t e" by (auto simp: escapes_def cost_overflows)
          with Inl assms chat cont js Decoded show ?thesis by (auto simp: accept_chat_def)
        next
          case (Inr cost)
          with a assms chat cont js Decoded show ?thesis by (auto simp: accept_chat_def record_call_def)
        qed
      qed (use assms chat cont js in \<open>auto simp: accept_chat_def escapes_def held_result FALLBACKS_def\<close>)
    qed (use assms chat cont in \<open>auto simp: accept_chat_def escapes_def held_result FALLBACKS_def\<close>)
  qed
qed (use assms in \<open>auto simp: escapes_def held_result FALLBACKS_def\<close>)

text \<open>
  C37 What the DeepSeek adapter does with every failure.  It makes at most
  \<open>max_retries + 1\<close> posts and sleeps 0.5, 1, 2, ... seconds between them.  When it returns, the result is a free HOLD
  with one of the five fallback reasons, or the decision a reply of status 2xx carries, validated
  (confidence between 0 and 1), with its cost and no error.  It raises only when the
  request raised what is not an HTTP error, when reading a 2xx reply raised what the
  adapter does not catch there (a token count beyond the floats included), when the back-off
  of more than 1024 retries leaves the floats, or when \<open>max_retries\<close> is negative.
\<close>

theorem deepseek_is_fail_safe:
  assumes "\<forall>j d. validate j = Decoded d \<longrightarrow> nonneg (rs_confidence d) \<and> fle (rs_confidence d) (Fin 1)"
    and "n = nat (dk_max_retries cfg + 1)" and "post_loop post 0 n = (posts, sleeps, out)"
  shows "posts \<le> n \<and> length sleeps \<le> n - 1 \<and> map Inr sleeps = map backoff [0..<length sleeps] \<and>
    (case deepseek_decide post parse_chat parse_json validate status_text cfg cx ci of
       Inr r \<Rightarrow> held_free r \<or>
         (\<exists>i st t chat d. i < n \<and> post i = Response st t \<and> 200 \<le> st \<and> st < 300 \<and>
            answers parse_chat parse_json validate t chat d \<and> dr_decision r = to_decision d (ci_timestamp_ms ci) \<and>
            nonneg (td_confidence (dr_decision r)) \<and> fle (td_confidence (dr_decision r)) (Fin 1) \<and>
            compute_cost (ch_prompt_tokens chat) (ch_completion_tokens chat) (dk_price_input cfg) (dk_price_output cfg) =
              Inr (lc_cost_usd (dr_call r)) \<and> lc_error (dr_call r) = [])
     | Inl e \<Rightarrow> (\<exists>i<n. post i = Raised e) \<or>
         (\<exists>i st t. i < n \<and> post i = Response st t \<and> 200 \<le> st \<and> st < 300 \<and> escapes parse_chat parse_json validate t e) \<or>
         e = OverflowError \<and> 1024 < dk_max_retries cfg \<or>
         e = AssertionError \<and> dk_max_retries cfg < 0)"
proof -
  have ends: "posts \<le> n" "length sleeps \<le> n - 1" "map Inr sleeps = map backoff [0..<length sleeps]" "ends_well post 0 n out"
    using post_loop_ends[OF assms(3)] by simp_all
  have out: "snd (snd (post_loop post 0 (nat (dk_max_retries cfg + 1)))) = out" using assms(2,3) by simp
  note d = deepseek_decide_def[of post parse_chat parse_json validate status_text cfg cx ci, unfolded out]
  show ?thesis
  proof (cases out)
    case (Success t)
    with ends(4) obtain i st where i: "i < n" "post i = Response st t" "200 \<le> st" "st < 300" by (auto simp: ends_well_def)
    let ?dec = "deepseek_decide post parse_chat parse_json validate status_text cfg cx ci"
    have cases: "case ?dec of
        Inl e \<Rightarrow> escapes parse_chat parse_json validate t e
      | Inr r \<Rightarrow> held_free r \<or>
          (\<exists>chat d. answers parse_chat parse_json validate t chat d \<and> dr_decision r = to_decision d (ci_timestamp_ms ci) \<and>
             compute_cost (ch_prompt_tokens chat) (ch_completion_tokens chat) (dk_price_input cfg) (dk_price_output cfg) =
               Inr (lc_cost_usd (dr_call r)) \<and> lc_error (dr_call r) = [])"
      by (rule reply_cases) (simp add: d Success)
    show ?thesis
    proof (cases ?dec)
      case (Inl e)
      with cases i ends(1-3) show ?thesis by (simp del: upt_Suc) blast
    next
      case (Inr r)
      have conf: "nonneg (td_confidence (dr_decision r)) \<and> fle (td_confidence (dr_decision r)) (Fin 1)"
        if "answers parse_chat parse_json validate t chat d" "dr_decision r = to_decision d (ci_timestamp_ms ci)" for chat d
        using that assms(1) by (auto simp: answers_def to_decision_def)
      from Inr cases consider "held_free r"
        | chat d where "answers parse_chat parse_json validate t chat d" "dr_decision r = to_decision d (ci_timestamp_ms ci)"
          "compute_cost (ch_prompt_tokens chat) (ch_completion_tokens chat) (dk_price_input cfg) (dk_price_output cfg) =
             Inr (lc_cost_usd (dr_call r))" "lc_error (dr_call r) = []" by auto
      then show ?thesis
      proof cases
        case (2 chat d)
        show ?thesis
          unfolding Inr sum.case
          by (intro conjI ends(1-3) disjI2 exI[of _ i] exI[of _ st] exI[of _ t] exI[of _ chat] exI[of _ d] i 2
              conjunct1[OF conf[OF 2(1,2)]] conjunct2[OF conf[OF 2(1,2)]])
      qed (use Inr ends(1-3) in simp)
    qed
  qed (use ends assms(2) held_result in \<open>auto simp: d ends_well_def FALLBACKS_def\<close>)
qed

definition example_reply :: "nat \<Rightarrow> http_reply" where
  "example_reply i = (if i = 0 then Response 503 ''busy'' else Response 200 ''ok'')"

definition example_validate :: "string \<Rightarrow> decision_response parsed" where
  "example_validate s =
     Decoded \<lparr>rs_decision = BUY, rs_confidence = Fin (1/2), rs_intensity = LOW, rs_rationale = [],
          rs_supporting = [], rs_risk = []\<rparr>"

definition example_chat :: "int \<Rightarrow> string \<Rightarrow> chat_reply parsed" where
  "example_chat tokens s = Decoded \<lparr>ch_model = ''m'', ch_contents = [s], ch_prompt_tokens = tokens, ch_completion_tokens = 5\<rparr>"

lemma example_posts: "post_loop example_reply 0 3 = (2, [Fin (1/2)], Success ''ok'')"
  by code_simp

lemma example_sleeps: "backoff 0 = Inr (Fin (1/2))"
  by code_simp

theorem deepseek_is_fail_safe_witness:
  "map Inr [Fin (1/2)] = map backoff [0] \<and>
   (case deepseek_decide example_reply (example_chat 5) Decoded example_validate (\<lambda>_. []) example_deepseek
        example_context example_inputs of
      Inr r \<Rightarrow> td_action (dr_decision r) = BUY \<and> nonneg (td_confidence (dr_decision r)) \<and>
        fle (td_confidence (dr_decision r)) (Fin 1)
    | Inl e \<Rightarrow> False)"
proof -
  have d: "map_sum (\<lambda>_. ()) (\<lambda>r. td_action (dr_decision r)) (deepseek_decide example_reply (example_chat 5) Decoded
      example_validate (\<lambda>_. []) example_deepseek example_context example_inputs) = Inr BUY"
    by code_simp
  show ?thesis
    using deepseek_is_fail_safe[where validate = example_validate and n = 3 and cfg = example_deepseek and post = example_reply
        and posts = 2 and sleeps = "[Fin (1/2)]" and out = "Success ''ok''" and parse_chat = "example_chat 5"
        and parse_json = Decoded and status_text = "\<lambda>_. []" and cx = example_context and ci = example_inputs] d
    by (auto simp: example_validate_def example_deepseek_def example_posts held_free_def split: sum.splits)
qed

text \<open>
  An escape that the adapter's documentation excludes: a valid decision in a reply that claims an
  absurd number of tokens raises out of the adapter while its cost is computed.
\<close>

lemma huge_token_count_escapes:
  "deepseek_decide example_reply (example_chat (1000000 * 2 ^ 1030)) Decoded example_validate (\<lambda>_. []) example_deepseek
     example_context example_inputs = Inl OverflowError"
  by code_simp

end
