(* ===== verification/Context.thy ===== *)
theory Context
  imports Regime Strategy
begin

text \<open>
  The versioned snapshot of what the strategy saw at a candle
  (\<open>application/services/decision_context.py\<close>): the context, its dict as the list of its
  JSON items, the checks of \<open>from_dict\<close> and the causal recomputation.  The values of the
  dict are the scalar JSON values; \<open>repr\<close> renders a value that is not text and \<open>parse\<close>
  reads a float from a text.
\<close>

section \<open>JSON scalars\<close>

datatype json = JNull | JBool bool | JInt int | JFloat pyfloat | JStr string

fun json_number :: "json \<Rightarrow> pyfloat option" where
  "json_number (JBool b) = Some (Fin (if b then 1 else 0))"
| "json_number (JInt n) = Some (Fin (of_int n))"
| "json_number (JFloat f) = Some f"
| "json_number _ = None"

fun json_eq :: "json \<Rightarrow> json \<Rightarrow> bool" where
  \<comment> \<open>Python's \<open>==\<close>: numbers compare by value across bool, int and float\<close>
  "json_eq (JStr a) (JStr b) = (a = b)"
| "json_eq JNull JNull = True"
| "json_eq a b = (case (json_number a, json_number b) of (Some x, Some y) \<Rightarrow> feq x y | _ \<Rightarrow> False)"

definition json_str :: "(json \<Rightarrow> string) \<Rightarrow> json \<Rightarrow> string" where
  \<comment> \<open>\<open>str(value)\<close>\<close>
  "json_str repr v = (case v of JStr s \<Rightarrow> s | _ \<Rightarrow> repr v)"

fun json_float :: "(string \<Rightarrow> pyfloat result) \<Rightarrow> json \<Rightarrow> pyfloat result" where
  \<comment> \<open>\<open>float(value)\<close>\<close>
  "json_float parse JNull = Inl (TypeError ''float() argument'')"
| "json_float parse (JStr s) = parse s"
| "json_float parse (JBool b) = Inr (Fin (if b then 1 else 0))"
| "json_float parse (JFloat f) = Inr f"
| "json_float parse (JInt n) = (if rnd (of_int n) \<in> {PInf, NInf} then Inl OverflowError else Inr (rnd (of_int n)))"

type_synonym json_dict = "(string \<times> json) list"

definition jget :: "json_dict \<Rightarrow> string \<Rightarrow> json" where
  \<comment> \<open>\<open>data.get(key)\<close>\<close>
  "jget d k = (case map_of d k of None \<Rightarrow> JNull | Some v \<Rightarrow> v)"

section \<open>Decision contexts\<close>

definition SCHEMA_VERSION :: int where "SCHEMA_VERSION = 1"

record decision_context =
  dc_schema_version :: int
  dc_signal_reason :: string
  dc_atr :: "pyfloat option"
  dc_ema_fast :: "pyfloat option"
  dc_ema_slow :: "pyfloat option"
  dc_rsi :: "pyfloat option"
  dc_regime :: "string option"

definition json_opt :: "('a \<Rightarrow> json) \<Rightarrow> 'a option \<Rightarrow> json" where
  "json_opt f x = (case x of None \<Rightarrow> JNull | Some v \<Rightarrow> f v)"

definition context_to_dict :: "decision_context \<Rightarrow> json_dict" where
  "context_to_dict c =
     [(''schema_version'', JInt (dc_schema_version c)),
      (''signal_reason'', JStr (dc_signal_reason c)),
      (''atr'', json_opt JFloat (dc_atr c)),
      (''ema_fast'', json_opt JFloat (dc_ema_fast c)),
      (''ema_slow'', json_opt JFloat (dc_ema_slow c)),
      (''rsi'', json_opt JFloat (dc_rsi c)),
      (''regime'', json_opt JStr (dc_regime c))]"

definition validate_decision_context :: "json_dict \<Rightarrow> unit result" where
  "validate_decision_context d =
     (if \<not> json_eq (jget d ''schema_version'') (JInt SCHEMA_VERSION)
      then Inl (ValueError ''decision_context schema_version'')
      else if map_of d ''signal_reason'' = None then Inl (ValueError ''decision_context sin signal_reason'')
      else Inr ())"

definition optional_float :: "(string \<Rightarrow> pyfloat result) \<Rightarrow> json \<Rightarrow> pyfloat option result" where
  "optional_float parse v = (if v = JNull then Inr None else bindE (json_float parse v) (\<lambda>f. Inr (Some f)))"

definition optional_str :: "(json \<Rightarrow> string) \<Rightarrow> json \<Rightarrow> string option" where
  "optional_str repr v = (if v = JNull then None else Some (json_str repr v))"

definition context_from_dict ::
  "(json \<Rightarrow> string) \<Rightarrow> (string \<Rightarrow> pyfloat result) \<Rightarrow> json_dict \<Rightarrow> decision_context result" where
  \<comment> \<open>\<open>int\<close> of a value equal to the version is the version\<close>
  "context_from_dict repr parse d =
     bindE (validate_decision_context d) (\<lambda>_.
     bindE (optional_float parse (jget d ''atr'')) (\<lambda>a.
     bindE (optional_float parse (jget d ''ema_fast'')) (\<lambda>f.
     bindE (optional_float parse (jget d ''ema_slow'')) (\<lambda>s.
     bindE (optional_float parse (jget d ''rsi'')) (\<lambda>r.
       Inr \<lparr>dc_schema_version = SCHEMA_VERSION,
            dc_signal_reason = json_str repr (jget d ''signal_reason''),
            dc_atr = a, dc_ema_fast = f, dc_ema_slow = s, dc_rsi = r,
            dc_regime = optional_str repr (jget d ''regime'')\<rparr>)))))"

section \<open>Recomputation\<close>

definition default_regime_config :: regime_config where
  "default_regime_config =
     \<lparr>rg_ema_fast = 20, rg_ema_slow = 50, rg_vol_window = 20, rg_vol_baseline = 100,
      rg_breakout_lookback = 20, rg_high_vol = Fin (3 / 2), rg_low_vol = Fin (1 / 2),
      rg_trend = rnd (5 / 1000)\<rparr>"

definition push_window :: "candle list \<Rightarrow> candle \<Rightarrow> candle list" where
  \<comment> \<open>\<open>append\<close> on a \<open>deque(maxlen=100)\<close>\<close>
  "push_window w c = (let w' = w @ [c] in drop (length w' - 100) w')"

record recompute_state =
  rs_strategy :: ema_rsi_baseline
  rs_atr :: atr_tracker
  rs_window :: "candle list"

definition context_of ::
  "ema_rsi_baseline \<Rightarrow> signal \<Rightarrow> pyfloat option \<Rightarrow> market_regime option \<Rightarrow> decision_context" where
  "context_of b sig atr_value regime =
     \<lparr>dc_schema_version = SCHEMA_VERSION, dc_signal_reason = sig_reason sig, dc_atr = atr_value,
      dc_ema_fast = et_current (eb_fast b), dc_ema_slow = et_current (eb_slow b),
      dc_rsi = rt_current (eb_rsi b), dc_regime = map_option regime_name regime\<rparr>"

definition recompute_step ::
  "(pyfloat \<Rightarrow> pyfloat \<Rightarrow> pyfloat result) \<Rightarrow> recompute_state \<Rightarrow> candle \<Rightarrow> recompute_state \<times> decision_context result" where
  \<comment> \<open>the body of the loop\<close>
  "recompute_step pow_fn s c =
     (let w = push_window (rs_window s) c; s1 = s\<lparr>rs_window := w\<rparr>
      in case classify pow_fn default_regime_config w of
           Inl e \<Rightarrow> (s1, Inl e)
         | Inr regime \<Rightarrow>
             (case on_candle (rs_strategy s) c of
                (b, Inl e) \<Rightarrow> (s1\<lparr>rs_strategy := b\<rparr>, Inl e)
              | (b, Inr sig) \<Rightarrow>
                  (case atr_update (rs_atr s) c of
                     (t, v) \<Rightarrow> (s1\<lparr>rs_strategy := b, rs_atr := t\<rparr>, Inr (context_of b sig v regime)))))"

definition recompute_init :: "recompute_state result" where
  "recompute_init =
     bindE (baseline_init default_ema_rsi_config) (\<lambda>b.
     bindE (atr_tracker_init 14) (\<lambda>t.
       Inr \<lparr>rs_strategy = b, rs_atr = t, rs_window = []\<rparr>))"

definition recompute_decision_contexts ::
  "(pyfloat \<Rightarrow> pyfloat \<Rightarrow> pyfloat result) \<Rightarrow> candle list \<Rightarrow> decision_context list result" where
  "recompute_decision_contexts pow_fn cs =
     bindE recompute_init (\<lambda>s. snd (run_tracker (recompute_step pow_fn) s cs))"

section \<open>Lemmas\<close>

lemma json_eq_refl: "json_number v \<noteq> Some NaN \<Longrightarrow> json_eq v v"
  by (cases v) auto

lemma float_json_opt [simp]: "optional_float parse (json_opt JFloat x) = Inr x"
  by (cases x) (simp_all add: optional_float_def json_opt_def)

lemma str_json_opt [simp]: "optional_str repr (json_opt JStr x) = x"
  by (cases x) (simp_all add: optional_str_def json_opt_def json_str_def)

lemma context_roundtrip:
  "dc_schema_version c = SCHEMA_VERSION \<Longrightarrow> context_from_dict repr parse (context_to_dict c) = Inr c"
  by (simp add: context_from_dict_def context_to_dict_def validate_decision_context_def jget_def json_str_def)

lemma run_tracker_causal: "causal_series (\<lambda>xs. snd (run_tracker upd s xs))"
proof unfold_locales
  fix xs ys assume "snd (run_tracker upd s xs) = Inr ys"
  then show "length ys = length xs"
    by (induction xs arbitrary: s ys) (auto split: prod.splits sum.splits, metis snd_conv)
next
  fix xs x ys assume "snd (run_tracker upd s (xs @ [x])) = Inr ys"
  then show "snd (run_tracker upd s xs) = Inr (butlast ys)"
  proof (induction xs arbitrary: s ys)
    case Nil
    then show ?case by (auto split: prod.splits sum.splits)
  next
    case (Cons z zs)
    obtain s' r where u: "upd s z = (s', r)" by fastforce
    obtain y where r: "r = Inr y" using Cons.prems u by (cases r) auto
    obtain t q where q: "run_tracker upd s' (zs @ [x]) = (t, q)" by fastforce
    then obtain zs' where z: "q = Inr zs'" "ys = y # zs'"
      using Cons.prems u r by (cases q) auto
    then have ih: "snd (run_tracker upd s' zs) = Inr (butlast zs')" using Cons.IH[of s' zs'] q by simp
    have "zs' \<noteq> []"
    proof
      assume "zs' = []"
      then have "snd (run_tracker upd s' (zs @ [x])) = Inr []" using q z by simp
      then show False by (cases zs) (auto split: prod.splits sum.splits)
    qed
    then show ?case using ih u r z by (cases "run_tracker upd s' zs") simp
  qed
qed

interpretation contexts: causal_series "recompute_decision_contexts pow_fn" for pow_fn
proof -
  have "causal_series (\<lambda>cs. bindE recompute_init (\<lambda>s. snd (run_tracker (recompute_step pow_fn) s cs)))"
  proof (cases recompute_init)
    case (Inr s)
    show ?thesis unfolding Inr bindE_simps by (rule run_tracker_causal)
  next
    case (Inl e)
    show ?thesis unfolding Inl bindE_simps by (simp add: causal_series_def)
  qed
  then show "causal_series (recompute_decision_contexts pow_fn)"
    by (simp add: recompute_decision_contexts_def[abs_def])
qed

end
