(* ===== verification/Store.thy ===== *)
theory Store
  imports Context Candles Risk
begin

text \<open>
  What a paper session persists (\<open>application/ports/paper_trading.py\<close>,
  \<open>application/ports/market_repositories.py\<close>) and the PostgreSQL adapters behind those ports
  (\<open>infrastructure/database/repositories.py\<close>).  A table is the list of its rows in insertion
  order; an insert with \<open>on_conflict_do_nothing\<close> skips a row whose key is taken, and a select
  filters and orders the rows.  The adapters insert in batches of 1000, each row of a batch
  under the same conflict clause, so a batch is the fold of its rows.  The interface
  \<open>session_log\<close> states what a recovering session relies on, and the tables provide it.
\<close>

section \<open>Rows\<close>

record paper_trade_event =
  pt_session_id :: string
  pt_strategy_version :: string
  pt_strategy_hash :: string
  pt_decision_source :: string
  pt_symbol :: string
  pt_timeframe :: string
  pt_timestamp_ms :: int
  pt_action :: string
  pt_filled :: bool
  pt_risk_reason :: string
  pt_exit_reason :: string
  pt_exec_price :: "pyfloat option"
  pt_quantity :: "pyfloat option"
  pt_fee :: pyfloat
  pt_slippage_cost :: pyfloat
  pt_equity :: pyfloat
  pt_kill_switch_active :: bool
  pt_decision_context :: "json_dict option"

record candle_row =
  cr_session :: "string option"
  cr_symbol :: string
  cr_timeframe :: string
  cr_source :: string
  cr_candle :: candle

record db =
  db_candles :: "candle_row list"
  db_events :: "paper_trade_event list"
  db_state :: "(string \<times> kill_switch_dict) list"
    \<comment> \<open>\<open>system_state\<close>, with the values of the kill switch key\<close>

definition empty_db :: db where
  "empty_db = \<lparr>db_candles = [], db_events = [], db_state = []\<rparr>"

section \<open>system_state\<close>

definition state_get :: "db \<Rightarrow> string \<Rightarrow> kill_switch_dict option" where
  "state_get d key = map_of (db_state d) key"

definition state_set :: "db \<Rightarrow> string \<Rightarrow> kill_switch_dict \<Rightarrow> db" where
  "state_set d key v = d\<lparr>db_state := AList.update key v (db_state d)\<rparr>"

section \<open>market_candles\<close>

definition same_download :: "candle_row \<Rightarrow> candle_row \<Rightarrow> bool" where
  \<comment> \<open>the partial unique index of the downloaded rows\<close>
  "same_download a b \<longleftrightarrow>
     cr_source a = ''download'' \<and> cr_source b = ''download'' \<and>
     cr_symbol a = cr_symbol b \<and> cr_timeframe a = cr_timeframe b \<and>
     timestamp_ms (cr_candle a) = timestamp_ms (cr_candle b)"

definition same_paper :: "candle_row \<Rightarrow> candle_row \<Rightarrow> bool" where
  \<comment> \<open>the partial unique index of the live rows\<close>
  "same_paper a b \<longleftrightarrow>
     cr_source a = ''paper-live'' \<and> cr_source b = ''paper-live'' \<and> cr_session a = cr_session b \<and>
     cr_symbol a = cr_symbol b \<and> cr_timeframe a = cr_timeframe b \<and>
     timestamp_ms (cr_candle a) = timestamp_ms (cr_candle b)"

definition insert_row :: "('r \<Rightarrow> 'r \<Rightarrow> bool) \<Rightarrow> 'r list \<times> nat \<Rightarrow> 'r \<Rightarrow> 'r list \<times> nat" where
  \<comment> \<open>the table and the rows inserted so far\<close>
  "insert_row same tn r = (if list_ex (same r) (fst tn) then tn else (fst tn @ [r], Suc (snd tn)))"

definition upsert :: "db \<Rightarrow> string \<Rightarrow> timeframe \<Rightarrow> candle list \<Rightarrow> db \<times> nat" where
  "upsert d symbol tf cs =
     (case foldl (insert_row same_download) (db_candles d, 0)
        (map (\<lambda>c. \<lparr>cr_session = None, cr_symbol = symbol, cr_timeframe = tf_label tf,
                    cr_source = ''download'', cr_candle = c\<rparr>) cs)
      of (rows, n) \<Rightarrow> (d\<lparr>db_candles := rows\<rparr>, n))"

definition paper_row :: "string \<Rightarrow> string \<Rightarrow> timeframe \<Rightarrow> candle \<Rightarrow> candle_row" where
  "paper_row session symbol tf c =
     \<lparr>cr_session = Some session, cr_symbol = symbol, cr_timeframe = tf_label tf,
      cr_source = ''paper-live'', cr_candle = c\<rparr>"

definition upsert_paper :: "db \<Rightarrow> string \<Rightarrow> string \<Rightarrow> timeframe \<Rightarrow> candle list \<Rightarrow> db \<times> nat" where
  "upsert_paper d session symbol tf cs =
     (case foldl (insert_row same_paper) (db_candles d, 0) (map (paper_row session symbol tf) cs)
      of (rows, n) \<Rightarrow> (d\<lparr>db_candles := rows\<rparr>, n))"

definition count_candles :: "db \<Rightarrow> string \<Rightarrow> timeframe \<Rightarrow> nat" where
  "count_candles d symbol tf =
     length (filter (\<lambda>r. cr_symbol r = symbol \<and> cr_timeframe r = tf_label tf) (db_candles d))"

definition by_time :: "candle list \<Rightarrow> candle list" where
  "by_time = sort_key timestamp_ms"

definition in_range :: "int \<Rightarrow> int \<Rightarrow> candle \<Rightarrow> bool" where
  "in_range lo hi c \<longleftrightarrow> lo \<le> timestamp_ms c \<and> timestamp_ms c \<le> hi"

definition to_domain :: "candle \<Rightarrow> candle result" where
  \<comment> \<open>the row read back through the constructor, with its checks\<close>
  "to_domain c =
     make_candle (timestamp_ms c) (c_open c) (c_high c) (c_low c) (c_close c) (c_volume c) (c_turnover c)"

definition candle_range :: "db \<Rightarrow> string \<Rightarrow> timeframe \<Rightarrow> int \<Rightarrow> int \<Rightarrow> candle list result" where
  "candle_range d symbol tf lo hi =
     mapE to_domain (by_time (filter (in_range lo hi)
       (map cr_candle (filter (\<lambda>r. cr_symbol r = symbol \<and> cr_timeframe r = tf_label tf) (db_candles d)))))"

definition of_session :: "string \<Rightarrow> string \<Rightarrow> timeframe \<Rightarrow> candle_row \<Rightarrow> bool" where
  "of_session session symbol tf r \<longleftrightarrow>
     cr_session r = Some session \<and> cr_symbol r = symbol \<and> cr_timeframe r = tf_label tf \<and>
     cr_source r = ''paper-live''"

definition session_range ::
  "db \<Rightarrow> string \<Rightarrow> string \<Rightarrow> timeframe \<Rightarrow> int \<Rightarrow> int \<Rightarrow> candle list result" where
  "session_range d session symbol tf lo hi =
     mapE to_domain (by_time (filter (in_range lo hi)
       (map cr_candle (filter (of_session session symbol tf) (db_candles d)))))"

definition last_persisted_ms :: "db \<Rightarrow> string \<Rightarrow> string \<Rightarrow> timeframe \<Rightarrow> int option" where
  "last_persisted_ms d session symbol tf =
     (case map (timestamp_ms \<circ> cr_candle) (filter (of_session session symbol tf) (db_candles d)) of
        [] \<Rightarrow> None
      | t # ts \<Rightarrow> Some (foldl max t ts))"

section \<open>paper_trade_events\<close>

definition same_event :: "paper_trade_event \<Rightarrow> paper_trade_event \<Rightarrow> bool" where
  "same_event a b \<longleftrightarrow>
     pt_session_id a = pt_session_id b \<and> pt_symbol a = pt_symbol b \<and>
     pt_timeframe a = pt_timeframe b \<and> pt_timestamp_ms a = pt_timestamp_ms b"

definition add_event :: "db \<Rightarrow> paper_trade_event \<Rightarrow> db" where
  "add_event d e = d\<lparr>db_events := fst (insert_row same_event (db_events d, 0) e)\<rparr>"

definition list_session :: "db \<Rightarrow> string \<Rightarrow> paper_trade_event list" where
  \<comment> \<open>ordered by timestamp, then by the serial id, the insertion order\<close>
  "list_session d session =
     sort_key pt_timestamp_ms (filter (\<lambda>e. pt_session_id e = session) (db_events d))"

section \<open>The log of a session\<close>

text \<open>
  \<open>logged d ws\<close>: the store holds the session's candles and events, in order.  A store that
  appends under these laws gives a recovering session back what was written.
\<close>

locale session_log =
  fixes put :: "'d \<Rightarrow> candle \<times> paper_trade_event \<Rightarrow> 'd"
    and logged :: "'d \<Rightarrow> (candle \<times> paper_trade_event) list \<Rightarrow> bool"
    and valid :: "candle \<times> paper_trade_event \<Rightarrow> bool"
    and later :: "candle \<times> paper_trade_event \<Rightarrow> candle \<times> paper_trade_event \<Rightarrow> bool"
    and read_candles :: "'d \<Rightarrow> candle list result"
    and read_events :: "'d \<Rightarrow> paper_trade_event list"
  assumes logged_put: "logged d ws \<Longrightarrow> valid w \<Longrightarrow> \<forall>v \<in> set ws. later v w \<Longrightarrow> logged (put d w) (ws @ [w])"
    and logged_read: "logged d ws \<Longrightarrow> read_candles d = Inr (map fst ws) \<and> read_events d = map snd ws"
begin

lemma logged_run:
  "logged d vs \<Longrightarrow> list_all valid ws \<Longrightarrow> sorted_wrt later (vs @ ws) \<Longrightarrow> logged (foldl put d ws) (vs @ ws)"
proof (induction ws arbitrary: d vs)
  case (Cons w ws)
  have "logged (put d w) (vs @ [w])"
    using Cons.prems by (intro logged_put) (auto simp: sorted_wrt_append)
  then show ?case using Cons.IH[of "put d w" "vs @ [w]"] Cons.prems(2,3) by simp
qed simp

end

definition session_put ::
  "string \<Rightarrow> string \<Rightarrow> timeframe \<Rightarrow> db \<Rightarrow> candle \<times> paper_trade_event \<Rightarrow> db" where
  \<comment> \<open>the two writes of a processed candle\<close>
  "session_put session symbol tf d w =
     add_event (fst (upsert_paper d session symbol tf [fst w])) (snd w)"

definition valid_write :: "string \<Rightarrow> string \<Rightarrow> timeframe \<Rightarrow> int \<Rightarrow> int \<Rightarrow> candle \<times> paper_trade_event \<Rightarrow> bool" where
  "valid_write session symbol tf lo hi w \<longleftrightarrow>
     candle_check (fst w) = Inr () \<and> in_range lo hi (fst w) \<and>
     pt_session_id (snd w) = session \<and> pt_symbol (snd w) = symbol \<and>
     pt_timeframe (snd w) = tf_label tf \<and> pt_timestamp_ms (snd w) = timestamp_ms (fst w)"

definition earlier :: "candle \<times> paper_trade_event \<Rightarrow> candle \<times> paper_trade_event \<Rightarrow> bool" where
  "earlier v w \<longleftrightarrow> timestamp_ms (fst v) < timestamp_ms (fst w)"

definition session_logged ::
  "string \<Rightarrow> string \<Rightarrow> timeframe \<Rightarrow> int \<Rightarrow> int \<Rightarrow> db \<Rightarrow> (candle \<times> paper_trade_event) list \<Rightarrow> bool" where
  "session_logged session symbol tf lo hi d ws \<longleftrightarrow>
     map cr_candle (filter (of_session session symbol tf) (db_candles d)) = map fst ws \<and>
     filter (\<lambda>e. pt_session_id e = session) (db_events d) = map snd ws \<and>
     list_all (valid_write session symbol tf lo hi) ws \<and> sorted_wrt earlier ws"

lemma to_domain_id: "candle_check c = Inr () \<Longrightarrow> to_domain c = Inr c"
  by (cases c) (simp add: to_domain_def make_candle_def)

lemma mapE_id: "list_all (\<lambda>x. f x = Inr x) xs \<Longrightarrow> mapE f xs = Inr xs"
  by (induction xs) auto

lemma sort_key_sorted: "sorted_wrt (\<lambda>x y. f x < f y) xs \<Longrightarrow> sort_key (f :: 'a \<Rightarrow> int) xs = xs"
  by (induction xs) (auto simp: insort_is_Cons less_imp_le)

lemma session_read:
  assumes "session_logged session symbol tf lo hi d ws"
  shows "session_range d session symbol tf lo hi = Inr (map fst ws)" "list_session d session = map snd ws"
proof -
  have s: "sorted_wrt earlier ws" and v: "list_all (valid_write session symbol tf lo hi) ws"
    and c: "map cr_candle (filter (of_session session symbol tf) (db_candles d)) = map fst ws"
    and e: "filter (\<lambda>e. pt_session_id e = session) (db_events d) = map snd ws"
    using assms by (simp_all add: session_logged_def)
  have "sorted_wrt (\<lambda>x y. timestamp_ms x < timestamp_ms y) (map fst ws)"
    using s by (simp add: sorted_wrt_map earlier_def[abs_def])
  then have "by_time (map fst ws) = map fst ws" by (simp add: by_time_def sort_key_sorted)
  moreover have "filter (in_range lo hi) (map fst ws) = map fst ws"
    using v by (auto simp: filter_id_conv list_all_iff valid_write_def)
  moreover have "mapE to_domain (map fst ws) = Inr (map fst ws)"
    using v by (intro mapE_id) (auto simp: list_all_iff valid_write_def to_domain_id)
  ultimately show "session_range d session symbol tf lo hi = Inr (map fst ws)"
    unfolding session_range_def c by simp
  have "sorted_wrt (\<lambda>x y. pt_timestamp_ms x < pt_timestamp_ms y) (map snd ws)"
    unfolding sorted_wrt_map
    by (rule sorted_wrt_mono_rel[OF _ s]) (use v in \<open>simp add: earlier_def list_all_iff valid_write_def\<close>)
  then show "list_session d session = map snd ws" unfolding list_session_def e by (rule sort_key_sorted)
qed

lemma insert_row_new: "\<forall>x \<in> set t. \<not> same r x \<Longrightarrow> insert_row same (t, n) r = (t @ [r], Suc n)"
  by (auto simp: insert_row_def list_ex_iff)

interpretation session_store: session_log "session_put session symbol tf"
  "session_logged session symbol tf lo hi" "valid_write session symbol tf lo hi" earlier
  "\<lambda>d. session_range d session symbol tf lo hi" "\<lambda>d. list_session d session"
  for session symbol tf lo hi
proof unfold_locales
  fix d ws w
  assume a: "session_logged session symbol tf lo hi d ws" "valid_write session symbol tf lo hi w"
    "\<forall>v \<in> set ws. earlier v w"
  have c: "map cr_candle (filter (of_session session symbol tf) (db_candles d)) = map fst ws"
    and e: "filter (\<lambda>e. pt_session_id e = session) (db_events d) = map snd ws"
    and v: "list_all (valid_write session symbol tf lo hi) ws"
    using a(1) by (simp_all add: session_logged_def)
  have "timestamp_ms x < timestamp_ms (fst w)" if "x \<in> set (map fst ws)" for x
    using that a(3) by (auto simp: earlier_def)
  then have "timestamp_ms (cr_candle r) < timestamp_ms (fst w)"
    if "r \<in> set (db_candles d)" "of_session session symbol tf r" for r
    using that unfolding c[symmetric] by auto
  then have "\<forall>r \<in> set (db_candles d). \<not> same_paper (paper_row session symbol tf (fst w)) r"
    by (fastforce simp: same_paper_def paper_row_def of_session_def)
  then have put_c: "db_candles (fst (upsert_paper d session symbol tf [fst w])) =
      db_candles d @ [paper_row session symbol tf (fst w)]"
    "db_events (fst (upsert_paper d session symbol tf [fst w])) = db_events d"
    by (simp_all add: upsert_paper_def insert_row_new)
  have "pt_timestamp_ms x < pt_timestamp_ms (snd w)" if "x \<in> set (map snd ws)" for x
    using that a(2,3) v by (auto simp: earlier_def list_all_iff valid_write_def) force
  then have "pt_timestamp_ms r < pt_timestamp_ms (snd w)"
    if "r \<in> set (db_events d)" "pt_session_id r = session" for r
    using that unfolding e[symmetric] by auto
  then have "\<forall>r \<in> set (db_events d). \<not> same_event (snd w) r"
    using a(2) by (fastforce simp: same_event_def valid_write_def)
  then have "db_events (session_put session symbol tf d w) = db_events d @ [snd w]"
    "db_candles (session_put session symbol tf d w) = db_candles d @ [paper_row session symbol tf (fst w)]"
    by (simp_all add: session_put_def add_event_def put_c insert_row_new)
  then show "session_logged session symbol tf lo hi (session_put session symbol tf d w) (ws @ [w])"
    using a v c e
    by (auto simp: session_logged_def of_session_def paper_row_def valid_write_def sorted_wrt_append)
next
  fix d ws assume "session_logged session symbol tf lo hi d ws"
  then show "session_range d session symbol tf lo hi = Inr (map fst ws) \<and> list_session d session = map snd ws"
    by (simp add: session_read)
qed

end
