(* ===== verification/Runner.thy ===== *)
theory Runner
  imports Store EngineSync
begin

text \<open>
  The paper runner (\<open>application/services/paper_runner.py\<close>), its recovery by replay
  (\<open>application/services/recovery.py\<close>) and the backfill of missed candles
  (\<open>application/services/backfill.py\<close>).  A runner is the record of the objects it holds; a
  method returns the runner beside its result, and the store of \<open>Store\<close> is threaded through
  the operations that persist.  \<open>runner_env\<close> holds what the code takes from the platform: C's
  \<open>pow\<close>, SHA-256 and the day key of the engine.
\<close>

section \<open>Comparing events\<close>

record runner_env =
  en_pow :: "pyfloat \<Rightarrow> pyfloat \<Rightarrow> pyfloat result"
  en_sha256 :: "string \<Rightarrow> string"
  en_day_key :: "int \<Rightarrow> int"

definition tolerance :: pyfloat where
  "tolerance = rnd (1 / 10 ^ 9)"

definition scale_of :: "pyfloat \<Rightarrow> pyfloat \<Rightarrow> pyfloat" where
  \<comment> \<open>\<open>max(1.0, abs(a), abs(b))\<close>\<close>
  "scale_of a b = fmax (fmax (Fin 1) (fabs a)) (fabs b)"

definition floats_close :: "pyfloat option \<Rightarrow> pyfloat option \<Rightarrow> pyfloat \<Rightarrow> bool" where
  "floats_close a b tol =
     (case (a, b) of
        (Some x, Some y) \<Rightarrow> fle (fabs (fsub x y)) (fmul tol (scale_of x y))
      | (None, None) \<Rightarrow> True
      | _ \<Rightarrow> False)"

definition value_close :: "(string \<Rightarrow> pyfloat result) \<Rightarrow> pyfloat \<Rightarrow> json \<Rightarrow> json \<Rightarrow> bool result" where
  \<comment> \<open>one key of the second loop of \<open>_contexts_equivalent\<close>\<close>
  "value_close parse tol av bv =
     (if (av = JNull) \<noteq> (bv = JNull) then Inr False
      else if av = JNull then Inr True
      else bindE (json_float parse av) (\<lambda>x. bindE (json_float parse bv) (\<lambda>y.
        Inr (\<not> flt (fmul tol (scale_of x y)) (fabs (fsub x y))))))"

fun all_close :: "(string \<Rightarrow> pyfloat result) \<Rightarrow> pyfloat \<Rightarrow> json_dict \<Rightarrow> json_dict \<Rightarrow> string list \<Rightarrow> bool result" where
  "all_close parse tol a b [] = Inr True"
| "all_close parse tol a b (k # ks) =
     bindE (value_close parse tol (jget a k) (jget b k))
       (\<lambda>ok. if ok then all_close parse tol a b ks else Inr False)"

definition contexts_equivalent ::
  "(string \<Rightarrow> pyfloat result) \<Rightarrow> json_dict option \<Rightarrow> json_dict option \<Rightarrow> pyfloat \<Rightarrow> bool result" where
  "contexts_equivalent parse a b tol =
     (case (a, b) of
        (Some da, Some db) \<Rightarrow>
          if list_all (\<lambda>k. json_eq (jget da k) (jget db k)) [''signal_reason'', ''regime'']
          then all_close parse tol da db [''atr'', ''ema_fast'', ''ema_slow'', ''rsi'']
          else Inr False
      | (None, None) \<Rightarrow> Inr True
      | _ \<Rightarrow> Inr False)"

definition events_equivalent ::
  "(string \<Rightarrow> pyfloat result) \<Rightarrow> paper_trade_event \<Rightarrow> paper_trade_event \<Rightarrow> bool result" where
  \<comment> \<open>the \<open>and\<close> chain stops at its first false operand; only its last one can raise\<close>
  "events_equivalent parse a b =
     (if pt_action a = pt_action b \<and> pt_filled a = pt_filled b \<and>
         pt_risk_reason a = pt_risk_reason b \<and> pt_exit_reason a = pt_exit_reason b \<and>
         pt_kill_switch_active a = pt_kill_switch_active b \<and>
         floats_close (pt_exec_price a) (pt_exec_price b) tolerance \<and>
         floats_close (pt_quantity a) (pt_quantity b) tolerance \<and>
         floats_close (Some (pt_fee a)) (Some (pt_fee b)) tolerance \<and>
         floats_close (Some (pt_slippage_cost a)) (Some (pt_slippage_cost b)) tolerance \<and>
         floats_close (Some (pt_equity a)) (Some (pt_equity b)) tolerance
      then contexts_equivalent parse (pt_decision_context a) (pt_decision_context b) tolerance
      else Inr False)"

section \<open>The runner\<close>

record paper_runner_config =
  pc_trading_mode :: string
  pc_live_trading_enabled :: bool
  pc_symbols :: "string list"
  pc_timeframe :: string
  pc_session_id :: string
  pc_decision_source :: string
  pc_report_interval_seconds :: int
  pc_max_runtime_seconds :: "int option"

definition validate_safe :: "paper_runner_config \<Rightarrow> unit result" where
  "validate_safe c =
     (if pc_trading_mode c \<noteq> ''paper'' then Inl (UnsafePaperModeError ''TRADING_MODE must be paper for paper-runner'')
      else if pc_live_trading_enabled c
      then Inl (UnsafePaperModeError ''LIVE_TRADING_ENABLED must be false for paper-runner'')
      else if pc_decision_source c \<noteq> ''baseline''
      then Inl (UnsafePaperModeError ''baseline paper-runner only supports decision_source=baseline'')
      else if pc_symbols c = [] then Inl (UnsafePaperModeError ''at least one symbol is required'')
      else Inr ())"

definition BASELINE_VERSION :: string where
  "BASELINE_VERSION = ''baseline-v1''"

definition strategy_hash :: "runner_env \<Rightarrow> string \<Rightarrow> string \<Rightarrow> string" where
  "strategy_hash env version source = en_sha256 env (source @ '':'' @ version)"

record paper_runner =
  rn_config :: paper_runner_config
  rn_strategy :: ema_rsi_baseline
  rn_engine :: paper_engine
  rn_strategy_hash :: string
  rn_classifier :: regime_config
  rn_candles :: "string \<Rightarrow> candle list"
    \<comment> \<open>the defaultdict of windows\<close>
  rn_atr :: "(string \<times> atr_tracker) list"
  rn_regimes :: "(string \<times> regime_tracker) list"
  rn_last :: "string \<times> string \<Rightarrow> candle option"

definition dict_of :: "('k \<Rightarrow> 'v result) \<Rightarrow> 'k list \<Rightarrow> ('k \<times> 'v) list result" where
  \<comment> \<open>\<open>{k: f(k) for k in keys}\<close>; a repeated key keeps its place\<close>
  "dict_of f keys = foldE (\<lambda>d k. bindE (f k) (\<lambda>v. Inr (AList.update k v d))) [] keys"

definition new_runner ::
  "runner_env \<Rightarrow> paper_runner_config \<Rightarrow> paper_engine option \<Rightarrow> ema_rsi_baseline option \<Rightarrow>
   regime_config option \<Rightarrow> kill_switch_state option \<Rightarrow> paper_runner result" where
  "new_runner env cfg engine strategy classifier ks =
     bindE (validate_safe cfg) (\<lambda>_.
     bindE (case strategy of None \<Rightarrow> baseline_init default_ema_rsi_config | Some s \<Rightarrow> Inr s) (\<lambda>s.
       let e = (case engine of
                  None \<Rightarrow> new_engine default_risk_config default_fees default_slippage | Some e \<Rightarrow> e);
           e1 = (case ks of None \<Rightarrow> e | Some k \<Rightarrow> attach_kill_switch e k)
       in bindE (dict_of (\<lambda>_. atr_tracker_init 14) (pc_symbols cfg)) (\<lambda>atrs.
          bindE (dict_of (\<lambda>sym. regime_tracker_init sym (pc_timeframe cfg) 3) (pc_symbols cfg)) (\<lambda>regs.
            Inr \<lparr>rn_config = cfg, rn_strategy = s, rn_engine = e1,
                 rn_strategy_hash = strategy_hash env BASELINE_VERSION (pc_decision_source cfg),
                 rn_classifier = get_or classifier default_regime_config,
                 rn_candles = (\<lambda>_. []), rn_atr = atrs, rn_regimes = regs, rn_last = (\<lambda>_. None)\<rparr>))))"

definition rejected_regime_candidates :: "paper_runner \<Rightarrow> int" where
  "rejected_regime_candidates r = sum_list (map (rc_rejected \<circ> snd) (rn_regimes r))"

definition atr_ready :: "paper_runner \<Rightarrow> bool" where
  "atr_ready r \<longleftrightarrow> rn_atr r \<noteq> [] \<and> list_all (\<lambda>p. at_value (snd p) \<noteq> None) (rn_atr r)"

definition runner_regime_evidence :: "paper_runner \<Rightarrow> regime_evidence list" where
  "runner_regime_evidence r = concat (map (evidence \<circ> snd) (rn_regimes r))"

fun action_name :: "action \<Rightarrow> string" where
  "action_name BUY = ''BUY''"
| "action_name SELL = ''SELL''"
| "action_name HOLD = ''HOLD''"

definition trade_event ::
  "paper_runner \<Rightarrow> string \<Rightarrow> string \<Rightarrow> candle \<Rightarrow> paper_event \<Rightarrow> pyfloat \<Rightarrow> decision_context \<Rightarrow> paper_trade_event" where
  \<comment> \<open>the event \<open>_process\<close> returns, with \<open>eq\<close> the marked equity\<close>
  "trade_event r symbol tf c pe eq ctx =
     \<lparr>pt_session_id = pc_session_id (rn_config r), pt_strategy_version = BASELINE_VERSION,
      pt_strategy_hash = rn_strategy_hash r, pt_decision_source = pc_decision_source (rn_config r),
      pt_symbol = symbol, pt_timeframe = tf, pt_timestamp_ms = timestamp_ms c,
      pt_action = action_name (pv_action pe), pt_filled = pv_filled pe,
      pt_risk_reason = pv_risk_reason pe, pt_exit_reason = pv_exit_reason pe,
      pt_exec_price = map_option fl_exec_price (pv_fill pe),
      pt_quantity = map_option fl_quantity (pv_fill pe),
      pt_fee = (case pv_fill pe of None \<Rightarrow> Fin 0 | Some f \<Rightarrow> fl_fee f),
      pt_slippage_cost = (case pv_fill pe of None \<Rightarrow> Fin 0 | Some f \<Rightarrow> fl_slippage_cost f),
      pt_equity = eq, pt_kill_switch_active = ks_active (pe_kill_switch (rn_engine r)),
      pt_decision_context = Some (context_to_dict ctx)\<rparr>"

definition baseline_decision :: "int \<Rightarrow> signal \<Rightarrow> trading_decision" where
  "baseline_decision ts sig =
     \<lparr>td_timestamp_ms = ts, td_action = sig_action sig, td_confidence = Fin 1, td_intensity = MEDIUM,
      td_rationale_summary = sig_reason sig, td_supporting_factors = [], td_risk_factors = [],
      td_fallback_reason = None\<rparr>"

definition execute_signal ::
  "runner_env \<Rightarrow> paper_runner \<Rightarrow> string \<Rightarrow> string \<Rightarrow> candle \<Rightarrow> market_regime option \<Rightarrow> signal \<Rightarrow> pyfloat option \<Rightarrow>
   paper_runner \<times> paper_trade_event result" where
  \<comment> \<open>the second half of \<open>_process\<close>: the decision, the engine and the event\<close>
  "execute_signal env r symbol tf c regime sig atr_value =
     (case on_price (en_day_key env) (rn_engine r) (baseline_decision (timestamp_ms c) sig)
             (c_close c) atr_value (timestamp_ms c) of
        (e, Inl err) \<Rightarrow> (r\<lparr>rn_engine := e\<rparr>, Inl err)
      | (e, Inr pe) \<Rightarrow>
          (case mark_to_market e (c_close c) of
             (e', eq) \<Rightarrow>
               let r' = r\<lparr>rn_engine := e'\<rparr>
               in (r', Inr (trade_event r' symbol tf c pe eq
                              (context_of (rn_strategy r) sig atr_value regime)))))"

definition process ::
  "runner_env \<Rightarrow> paper_runner \<Rightarrow> string \<Rightarrow> string \<Rightarrow> candle \<Rightarrow> paper_runner \<times> paper_trade_event result" where
  "process env r symbol tf c =
     (let w = push_window (rn_candles r symbol) c; r1 = r\<lparr>rn_candles := (rn_candles r)(symbol := w)\<rparr>
      in case classify (en_pow env) (rn_classifier r) w of
        Inl e \<Rightarrow> (r1, Inl e)
      | Inr regime \<Rightarrow>
          (case map_of (rn_regimes r) symbol of
             None \<Rightarrow> (r1, Inl KeyError)
           | Some tracker \<Rightarrow>
               let r2 = r1\<lparr>rn_regimes := AList.update symbol (observe tracker (regime, timestamp_ms c)) (rn_regimes r)\<rparr>
               in case on_candle (rn_strategy r) c of
                 (s, Inl e) \<Rightarrow> (r2\<lparr>rn_strategy := s\<rparr>, Inl e)
               | (s, Inr sig) \<Rightarrow>
                   (case map_of (rn_atr r) symbol of
                      None \<Rightarrow> (r2\<lparr>rn_strategy := s\<rparr>, Inl KeyError)
                    | Some t \<Rightarrow>
                        (case atr_update t c of
                           (t', v) \<Rightarrow>
                             execute_signal env (r2\<lparr>rn_strategy := s, rn_atr := AList.update symbol t' (rn_atr r)\<rparr>)
                               symbol tf c regime sig v))))"

section \<open>Handling candles\<close>

definition set_last :: "paper_runner \<Rightarrow> string \<Rightarrow> string \<Rightarrow> candle \<Rightarrow> paper_runner" where
  "set_last r symbol tf c = r\<lparr>rn_last := (rn_last r)((symbol, tf) := Some c)\<rparr>"

definition candle_eq :: "candle \<Rightarrow> candle \<Rightarrow> bool" where
  \<comment> \<open>the dataclass \<open>==\<close> of two different objects, field by field\<close>
  "candle_eq a b \<longleftrightarrow>
     timestamp_ms a = timestamp_ms b \<and> feq (c_open a) (c_open b) \<and> feq (c_high a) (c_high b) \<and>
     feq (c_low a) (c_low b) \<and> feq (c_close a) (c_close b) \<and> feq (c_volume a) (c_volume b) \<and>
     feq (c_turnover a) (c_turnover b)"

definition process_and_store ::
  "runner_env \<Rightarrow> bool \<Rightarrow> paper_runner \<Rightarrow> db \<Rightarrow> string \<Rightarrow> timeframe \<Rightarrow> candle \<Rightarrow>
   (paper_runner \<times> db) \<times> paper_trade_event option result" where
  "process_and_store env has_candles r d symbol tf c =
     (case process env (set_last r symbol (tf_label tf) c) symbol (tf_label tf) c of
        (r', Inl e) \<Rightarrow> ((r', d), Inl e)
      | (r', Inr ev) \<Rightarrow>
          let d1 = (if has_candles
                    then fst (upsert_paper d (pc_session_id (rn_config r)) symbol tf [c]) else d)
          in ((r', add_event d1 ev), Inr (Some ev)))"

definition handle_candle ::
  "runner_env \<Rightarrow> bool \<Rightarrow> paper_runner \<Rightarrow> db \<Rightarrow> string \<Rightarrow> timeframe \<Rightarrow> candle \<Rightarrow>
   (paper_runner \<times> db) \<times> paper_trade_event option result" where
  \<comment> \<open>\<open>has_candles\<close>: a candle repository was given\<close>
  "handle_candle env has_candles r d symbol tf c =
     (case rn_last r (symbol, tf_label tf) of
        None \<Rightarrow> process_and_store env has_candles r d symbol tf c
      | Some p \<Rightarrow>
          if timestamp_ms c < timestamp_ms p
          then ((r, d), Inl (OutOfOrderTimestampError (timestamp_ms c) (timestamp_ms p)))
          else if timestamp_ms c = timestamp_ms p
          then (if candle_eq c p then ((r, d), Inr None)
                else ((r, d), Inl (DuplicateCandleError symbol (tf_label tf) (timestamp_ms c))))
          else process_and_store env has_candles r d symbol tf c)"

definition runner_kline ::
  "runner_env \<Rightarrow> bool \<Rightarrow> paper_runner \<Rightarrow> db \<Rightarrow> kline_update \<Rightarrow>
   (paper_runner \<times> db) \<times> paper_trade_event option result" where
  "runner_kline env has_candles r d k =
     (case to_candle k of
        Inl e \<Rightarrow> ((r, d), Inl e)
      | Inr None \<Rightarrow> ((r, d), Inr None)
      | Inr (Some c) \<Rightarrow> handle_candle env has_candles r d (ku_symbol k) (ku_interval k) c)"

section \<open>Replay, recovery and backfill\<close>

definition replay_step ::
  "runner_env \<Rightarrow> (string \<Rightarrow> pyfloat result) \<Rightarrow> (string \<times> string \<times> int \<Rightarrow> paper_trade_event option) \<Rightarrow>
   paper_runner \<Rightarrow> string \<times> string \<times> candle \<Rightarrow> paper_runner \<times> unit result" where
  \<comment> \<open>the body of the loop\<close>
  "replay_step env parse persisted r k =
     (case k of (symbol, tf, c) \<Rightarrow>
        (case process env r symbol tf c of
           (r', Inl e) \<Rightarrow> (r', Inl e)
         | (r', Inr ev) \<Rightarrow>
             (set_last r' symbol tf c,
              case persisted (symbol, tf, timestamp_ms c) of
                None \<Rightarrow> Inl (RecoveryGapError symbol tf (timestamp_ms c))
              | Some expected \<Rightarrow>
                  bindE (events_equivalent parse ev expected) (\<lambda>ok.
                    if ok then Inr () else Inl (RecoveryDivergenceError symbol tf (timestamp_ms c))))))"

definition replay ::
  "runner_env \<Rightarrow> (string \<Rightarrow> pyfloat result) \<Rightarrow> (string \<times> string \<times> int \<Rightarrow> paper_trade_event option) \<Rightarrow>
   paper_runner \<Rightarrow> (string \<times> string \<times> candle) list \<Rightarrow> paper_runner \<times> unit list result" where
  "replay env parse persisted = run_tracker (replay_step env parse persisted)"

definition event_index :: "paper_trade_event list \<Rightarrow> string \<times> string \<times> int \<Rightarrow> paper_trade_event option" where
  \<comment> \<open>\<open>{(e.symbol, e.timeframe, e.timestamp_ms): e for e in events}\<close>\<close>
  "event_index evs =
     map_of (rev (map (\<lambda>e. ((pt_symbol e, pt_timeframe e, pt_timestamp_ms e), e)) evs))"

definition MAX_TS :: int where "MAX_TS = 2 ^ 63 - 1"

definition dict_is_empty :: "kill_switch_dict \<Rightarrow> bool" where
  "dict_is_empty k \<longleftrightarrow> kd_active k = None \<and> kd_reason k = None \<and> kd_activated_at k = None"

definition restored_kill_switch :: "db \<Rightarrow> kill_switch_state" where
  "restored_kill_switch d =
     (case state_get d ''kill_switch'' of
        Some k \<Rightarrow> if dict_is_empty k then kill_switch_clear else ks_from_dict k
      | None \<Rightarrow> kill_switch_clear)"

definition restore_runner ::
  "runner_env \<Rightarrow> (string \<Rightarrow> pyfloat result) \<Rightarrow> paper_runner_config \<Rightarrow> db \<Rightarrow> string \<Rightarrow> timeframe \<Rightarrow> paper_runner result" where
  "restore_runner env parse cfg d symbol tf =
     bindE (session_range d (pc_session_id cfg) symbol tf 0 MAX_TS) (\<lambda>cs.
     bindE (new_runner env cfg None None None (Some (restored_kill_switch d))) (\<lambda>r.
       (case replay env parse (event_index (list_session d (pc_session_id cfg))) r
               (map (\<lambda>c. (symbol, tf_label tf, c)) cs) of
          (r', Inl e) \<Rightarrow> Inl e
        | (r', Inr _) \<Rightarrow> Inr r')))"

definition candle_close_ms :: "int \<Rightarrow> timeframe \<Rightarrow> int" where
  "candle_close_ms ts tf = ts + tf_minutes tf * 60000"

record backfill_result =
  bf_recovered :: nat
  bf_skipped_partial :: nat

fun backfill_loop ::
  "runner_env \<Rightarrow> string \<Rightarrow> timeframe \<Rightarrow> int \<Rightarrow> candle list \<Rightarrow> paper_runner \<times> db \<Rightarrow> backfill_result \<Rightarrow>
   (paper_runner \<times> db) \<times> backfill_result result" where
  "backfill_loop env symbol tf cutoff [] s n = (s, Inr n)"
| "backfill_loop env symbol tf cutoff (c # cs) s n =
     (if cutoff < candle_close_ms (timestamp_ms c) tf
      then backfill_loop env symbol tf cutoff cs s (n\<lparr>bf_skipped_partial := Suc (bf_skipped_partial n)\<rparr>)
      else case handle_candle env True (fst s) (snd s) symbol tf c of
        (s', Inl e) \<Rightarrow> (s', Inl e)
      | (s', Inr _) \<Rightarrow> backfill_loop env symbol tf cutoff cs s' (n\<lparr>bf_recovered := Suc (bf_recovered n)\<rparr>))"

definition backfill ::
  "runner_env \<Rightarrow> (string \<Rightarrow> timeframe \<Rightarrow> int \<Rightarrow> int \<Rightarrow> candle list result) \<Rightarrow> string \<Rightarrow> string \<Rightarrow> timeframe \<Rightarrow> int \<Rightarrow>
   paper_runner \<times> db \<Rightarrow> (paper_runner \<times> db) \<times> backfill_result result" where
  \<comment> \<open>\<open>fetch\<close> is the REST client, and the runner writes to the same store\<close>
  "backfill env fetch session symbol tf cutoff s =
     (case last_persisted_ms (snd s) session symbol tf of
        None \<Rightarrow> (s, Inr \<lparr>bf_recovered = 0, bf_skipped_partial = 0\<rparr>)
      | Some l \<Rightarrow>
          (case fetch symbol tf (l + tf_minutes tf * 60000) cutoff of
             Inl e \<Rightarrow> (s, Inl e)
           | Inr cs \<Rightarrow> backfill_loop env symbol tf cutoff cs s \<lparr>bf_recovered = 0, bf_skipped_partial = 0\<rparr>))"

definition recover_and_handoff ::
  "(int \<Rightarrow> 's \<Rightarrow> 's \<times> unit result) \<Rightarrow> ('s \<Rightarrow> 's \<times> unit result) \<Rightarrow> int \<Rightarrow> int \<Rightarrow> 's \<Rightarrow> 's \<times> unit result" where
  \<comment> \<open>\<open>t0\<close> and \<open>t1\<close> are the two readings of the clock\<close>
  "recover_and_handoff backfill_fn subscribe t0 t1 s =
     (case backfill_fn t0 s of
        (s1, Inl e) \<Rightarrow> (s1, Inl e)
      | (s1, Inr _) \<Rightarrow>
          (case subscribe s1 of (s2, Inl e) \<Rightarrow> (s2, Inl e) | (s2, Inr _) \<Rightarrow> backfill_fn t1 s2))"

section \<open>What processing a candle leaves alone\<close>

lemma execute_signal_last:
  "execute_signal env (r\<lparr>rn_last := l\<rparr>) symbol tf c regime sig v =
     map_prod (\<lambda>x. x\<lparr>rn_last := l\<rparr>) id (execute_signal env r symbol tf c regime sig v)"
  by (simp add: execute_signal_def trade_event_def Let_def split: prod.split sum.split)

lemma process_last:
  "process env (r\<lparr>rn_last := l\<rparr>) symbol tf c = map_prod (\<lambda>x. x\<lparr>rn_last := l\<rparr>) id (process env r symbol tf c)"
proof -
  have u: "r\<lparr>rn_last := l, rn_candles := a\<rparr> = r\<lparr>rn_candles := a\<rparr>\<lparr>rn_last := l\<rparr>"
    "s\<lparr>rn_last := l, rn_regimes := b\<rparr> = s\<lparr>rn_regimes := b\<rparr>\<lparr>rn_last := l\<rparr>"
    "s\<lparr>rn_last := l, rn_strategy := e\<rparr> = s\<lparr>rn_strategy := e\<rparr>\<lparr>rn_last := l\<rparr>"
    "s\<lparr>rn_last := l, rn_atr := f\<rparr> = s\<lparr>rn_atr := f\<rparr>\<lparr>rn_last := l\<rparr>" for a b e f and s :: paper_runner
    by simp_all
  show ?thesis
    unfolding process_def Let_def
    by (simp only: u execute_signal_last paper_runner.select_convs paper_runner.simps)
       (simp add: execute_signal_last split: sum.split option.split prod.split)
qed

lemma execute_signal_frame:
  "rn_last (fst (execute_signal env r symbol tf c regime sig v)) = rn_last r"
  "rn_config (fst (execute_signal env r symbol tf c regime sig v)) = rn_config r"
  by (simp_all add: execute_signal_def Let_def split: prod.split sum.split)

lemma runner_frame [simp]:
  "rn_last (fst (process env r symbol tf c)) = rn_last r"
  "rn_config (fst (process env r symbol tf c)) = rn_config r"
  by (auto simp: process_def Let_def execute_signal_frame split: sum.split option.split prod.split)

lemma process_event:
  assumes "process env r symbol tf c = (r', Inr ev)"
  shows "pt_session_id ev = pc_session_id (rn_config r)" "pt_symbol ev = symbol" "pt_timeframe ev = tf"
    and "pt_timestamp_ms ev = timestamp_ms c" "\<exists>ctx. pt_decision_context ev = Some (context_to_dict ctx)"
proof -
  have e: "pt_session_id ev = pc_session_id (rn_config s) \<and> pt_symbol ev = symbol \<and> pt_timeframe ev = tf \<and>
      pt_timestamp_ms ev = timestamp_ms c \<and> (\<exists>ctx. pt_decision_context ev = Some (context_to_dict ctx))"
    if "execute_signal env s symbol tf c regime sig v = (r', Inr ev)" for s regime sig v
    using that by (auto simp: execute_signal_def trade_event_def Let_def split: prod.splits sum.splits)
  obtain s regime sig v where "execute_signal env s symbol tf c regime sig v = (r', Inr ev)" "rn_config s = rn_config r"
    using assms by (auto simp: process_def Let_def split: sum.splits option.splits prod.splits)
  with e[OF this(1)] show "pt_session_id ev = pc_session_id (rn_config r)" "pt_symbol ev = symbol"
    "pt_timeframe ev = tf" "pt_timestamp_ms ev = timestamp_ms c"
    "\<exists>ctx. pt_decision_context ev = Some (context_to_dict ctx)" by auto
qed

section \<open>An event is equivalent to itself\<close>

definition fin_opt :: "pyfloat option \<Rightarrow> bool" where
  "fin_opt x = (case x of None \<Rightarrow> True | Some v \<Rightarrow> is_Fin v)"

definition event_finite :: "paper_trade_event \<Rightarrow> bool" where
  "event_finite e \<longleftrightarrow>
     is_Fin (pt_fee e) \<and> is_Fin (pt_slippage_cost e) \<and> is_Fin (pt_equity e) \<and>
     fin_opt (pt_exec_price e) \<and> fin_opt (pt_quantity e)"

lemma tolerance_fin: "\<exists>v. tolerance = Fin v \<and> 0 \<le> v"
  using binary64.rd_between[of 0 1 "1 / 10 ^ 9"] representable_one
  by (auto simp: tolerance_def representable_def)

lemma floats_close_refl: "fin_opt x \<Longrightarrow> floats_close x x tolerance"
proof (cases x)
  case (Some y)
  assume "fin_opt x"
  then obtain q where "y = Fin q" using Some by (cases y) (auto simp: fin_opt_def)
  moreover have "nonneg (fmul tolerance (Fin (max 1 \<bar>q\<bar>)))"
  proof -
    obtain v where v: "tolerance = Fin v" "0 \<le> v" using tolerance_fin by blast
    show ?thesis unfolding v(1) using v(2) by (simp add: binary64.rd_nonneg)
  qed
  ultimately show ?thesis using Some by (simp add: floats_close_def scale_of_def)
qed (simp add: floats_close_def)

lemma value_close_refl: "value_close parse tolerance (json_opt JFloat x) (json_opt JFloat x) = Inr True"
proof (cases x)
  case (Some y)
  have "\<not> flt (fmul tolerance (scale_of y y)) (fabs (fsub y y))"
  proof (cases y)
    case (Fin q)
    then have "floats_close (Some y) (Some y) tolerance" by (intro floats_close_refl) (simp add: fin_opt_def)
    then show ?thesis by (auto simp: floats_close_def dest: flt_asym)
  qed (auto simp: fsub_def elim: flt.elims)
  then show ?thesis using Some by (simp add: value_close_def json_opt_def)
qed (simp add: value_close_def json_opt_def)

lemma events_equivalent_refl:
  assumes "event_finite e" "pt_decision_context e = Some (context_to_dict ctx)"
  shows "events_equivalent parse e e = Inr True"
proof -
  have "all_close parse tolerance (context_to_dict ctx) (context_to_dict ctx)
      [''atr'', ''ema_fast'', ''ema_slow'', ''rsi''] = Inr True"
    by (simp add: context_to_dict_def jget_def value_close_refl)
  moreover have "json_eq (json_opt JStr z) (json_opt JStr z)" for z
    by (cases z) (auto simp: json_opt_def)
  ultimately have "contexts_equivalent parse (Some (context_to_dict ctx)) (Some (context_to_dict ctx)) tolerance = Inr True"
    by (simp add: contexts_equivalent_def) (simp add: context_to_dict_def jget_def)
  then show ?thesis using assms by (simp add: events_equivalent_def event_finite_def floats_close_refl fin_opt_def)
qed

section \<open>Recovery is exact\<close>

lemma replay_cong:
  "(\<And>symbol tf c. (symbol, tf, c) \<in> set ks \<Longrightarrow> P (symbol, tf, timestamp_ms c) = Q (symbol, tf, timestamp_ms c)) \<Longrightarrow>
   replay env parse P r ks = replay env parse Q r ks"
proof (induction ks arbitrary: r)
  case (Cons k ks)
  obtain symbol tf c where k: "k = (symbol, tf, c)" by (cases k)
  have "replay_step env parse P r k = replay_step env parse Q r k"
    using Cons.prems[of symbol tf c] by (simp add: replay_step_def k)
  moreover have "replay env parse P s ks = replay env parse Q s ks" for s
    using Cons.prems by (intro Cons.IH) auto
  ultimately show ?case by (simp add: replay_def)
qed (simp add: replay_def)

lemma replay_frame:
  "replay env parse P r (map (\<lambda>c. (symbol, tf, c)) cs) = (r', Inr us) \<Longrightarrow>
   rn_config r' = rn_config r \<and>
   rn_last r' = (if cs = [] then rn_last r else (rn_last r)((symbol, tf) := Some (last cs)))"
proof (induction cs arbitrary: r us)
  case (Cons c cs)
  obtain s x where s: "process env r symbol tf c = (s, x)" by fastforce
  then have f: "rn_last s = rn_last r" "rn_config s = rn_config r"
    using runner_frame[of env r symbol tf c] by simp_all
  obtain vs where "replay env parse P (set_last s symbol tf c) (map (\<lambda>c. (symbol, tf, c)) cs) = (r', Inr vs)"
    using Cons.prems s by (auto simp: replay_def replay_step_def split: sum.splits prod.splits)
  from Cons.IH[OF this] show ?case using f by (cases "cs = []") (simp_all add: set_last_def)
qed (simp add: replay_def)

definition reproduces ::
  "runner_env \<Rightarrow> (string \<Rightarrow> pyfloat result) \<Rightarrow> paper_runner \<Rightarrow> string \<Rightarrow> string \<Rightarrow> paper_runner \<Rightarrow>
   (candle \<times> paper_trade_event) list \<Rightarrow> bool" where
  \<comment> \<open>replaying the candles of \<open>ws\<close> against their events leads from \<open>r0\<close> to \<open>r\<close>\<close>
  "reproduces env parse r0 symbol tf r ws \<longleftrightarrow>
     (\<forall>P. (\<forall>w \<in> set ws. P (symbol, tf, timestamp_ms (fst w)) = Some (snd w)) \<longrightarrow>
        (\<exists>us. replay env parse P r0 (map (\<lambda>c. (symbol, tf, c)) (map fst ws)) = (r, Inr us)))"

lemma reproduces_snoc:
  assumes "reproduces env parse r0 symbol tf r ws" "process env (set_last r symbol tf c) symbol tf c = (r', Inr ev)"
    and "event_finite ev"
  shows "reproduces env parse r0 symbol tf r' (ws @ [(c, ev)])"
  unfolding reproduces_def
proof (intro allI impI)
  fix P assume P: "\<forall>w \<in> set (ws @ [(c, ev)]). P (symbol, tf, timestamp_ms (fst w)) = Some (snd w)"
  then obtain us where us: "replay env parse P r0 (map (\<lambda>c. (symbol, tf, c)) (map fst ws)) = (r, Inr us)"
    using assms(1) by (auto simp: reproduces_def)
  obtain s x where s: "process env r symbol tf c = (s, x)" by fastforce
  then have x: "x = Inr ev" "r' = s\<lparr>rn_last := (rn_last r)((symbol, tf) := Some c)\<rparr>"
    using assms(2) process_last[of env _ r symbol tf c] by (simp_all add: set_last_def)
  have "rn_last s = rn_last r" using runner_frame(1)[of env r symbol tf c] s by simp
  then have r': "r' = set_last s symbol tf c" using x(2) by (simp add: set_last_def)
  obtain ctx where "pt_decision_context ev = Some (context_to_dict ctx)"
    using process_event(5)[OF assms(2)] by blast
  then have "events_equivalent parse ev ev = Inr True" by (rule events_equivalent_refl[OF assms(3)])
  then have "replay_step env parse P r (symbol, tf, c) = (r', Inr ())"
    using s x(1) r' P by (simp add: replay_step_def)
  from run_tracker_snoc[OF us[unfolded replay_def] this]
  show "\<exists>us. replay env parse P r0 (map (\<lambda>c. (symbol, tf, c)) (map fst (ws @ [(c, ev)]))) = (r', Inr us)"
    by (auto simp: replay_def)
qed

lemma index_lookup:
  assumes "list_all (valid_write session symbol tf lo hi) ws" "sorted_wrt earlier ws" "w \<in> set ws"
  shows "event_index (map snd ws) (symbol, tf_label tf, timestamp_ms (fst w)) = Some (snd w)"
proof -
  let ?f = "\<lambda>v. ((symbol, tf_label tf, timestamp_ms (fst v)), snd v)"
  have k: "map (\<lambda>e. ((pt_symbol e, pt_timeframe e, pt_timestamp_ms e), e)) (map snd ws) = map ?f ws"
    unfolding map_map by (rule map_cong) (use assms(1) in \<open>simp_all add: list_all_iff valid_write_def\<close>)
  have "distinct (map (timestamp_ms \<circ> fst) ws)"
    using assms(2) by (induction ws) (auto simp: earlier_def)
  then have "distinct (map fst (map ?f ws))"
    by (simp add: distinct_map comp_def inj_on_def)
  then have "distinct (map fst (rev (map ?f ws)))" unfolding rev_map[symmetric] distinct_rev .
  moreover have "?f w \<in> set (rev (map ?f ws))" using assms(3) by simp
  ultimately show ?thesis unfolding event_index_def k by (rule map_of_is_SomeI)
qed

fun feed ::
  "runner_env \<Rightarrow> paper_runner \<times> db \<Rightarrow> string \<Rightarrow> timeframe \<Rightarrow> candle list \<Rightarrow>
   (paper_runner \<times> db) \<times> paper_trade_event list result" where
  \<comment> \<open>candles handled one after the other, up to the first exception\<close>
  "feed env s symbol tf [] = (s, Inr [])"
| "feed env s symbol tf (c # cs) =
     (case handle_candle env True (fst s) (snd s) symbol tf c of
        (s', Inl e) \<Rightarrow> (s', Inl e)
      | (s', Inr ev) \<Rightarrow>
          (case feed env s' symbol tf cs of
             (t, Inl e) \<Rightarrow> (t, Inl e)
           | (t, Inr evs) \<Rightarrow> (t, Inr (case ev of None \<Rightarrow> evs | Some x \<Rightarrow> x # evs))))"

lemma processed_step:
  assumes "process_and_store env True r d symbol tf c = ((r', d'), Inr ev)"
  shows "\<exists>e. ev = Some e \<and> process env (set_last r symbol (tf_label tf) c) symbol (tf_label tf) c = (r', Inr e) \<and>
    d' = session_put (pc_session_id (rn_config r)) symbol tf d (c, e)"
  using assms by (auto simp: process_and_store_def session_put_def Let_def split: prod.splits sum.splits)

lemma handle_cases:
  assumes "handle_candle env True r d symbol tf c = ((r', d'), Inr ev)"
  obtains (skipped) "r' = r" "d' = d" "ev = None"
  | (processed) "process_and_store env True r d symbol tf c = ((r', d'), Inr ev)"
      "\<And>p. rn_last r (symbol, tf_label tf) = Some p \<Longrightarrow> timestamp_ms p < timestamp_ms c"
  using assms by (auto simp: handle_candle_def split: option.splits if_splits)

definition in_session ::
  "runner_env \<Rightarrow> (string \<Rightarrow> pyfloat result) \<Rightarrow> paper_runner_config \<Rightarrow> paper_runner \<Rightarrow> string \<Rightarrow> timeframe \<Rightarrow>
   paper_runner \<Rightarrow> db \<Rightarrow> (candle \<times> paper_trade_event) list \<Rightarrow> bool" where
  \<comment> \<open>\<open>r\<close> is the runner of a session whose log is \<open>ws\<close>\<close>
  "in_session env parse cfg r0 symbol tf r d ws \<longleftrightarrow>
     session_logged (pc_session_id cfg) symbol tf 0 MAX_TS d ws \<and>
     reproduces env parse r0 symbol (tf_label tf) r ws \<and> rn_config r = cfg \<and>
     rn_last r (symbol, tf_label tf) = (if ws = [] then None else Some (fst (last ws)))"

lemma handle_in_session:
  assumes "in_session env parse cfg r0 symbol tf r d ws"
    and "handle_candle env True r d symbol tf c = ((r', d'), Inr ev)"
    and "candle_check c = Inr ()" "in_range 0 MAX_TS c" "pred_option event_finite ev"
  shows "\<exists>new. in_session env parse cfg r0 symbol tf r' d' (ws @ new) \<and>
    map snd new = (case ev of None \<Rightarrow> [] | Some e \<Rightarrow> [e]) \<and> db_state d' = db_state d"
  using assms(2)
proof (cases rule: handle_cases)
  case skipped
  then show ?thesis using assms(1) by (intro exI[of _ "[]"]) simp
next
  case processed
  let ?c = "set_last r symbol (tf_label tf) c"
  have r: "rn_config r = cfg" "session_logged (pc_session_id cfg) symbol tf 0 MAX_TS d ws"
    "rn_last r (symbol, tf_label tf) = (if ws = [] then None else Some (fst (last ws)))"
    using assms(1) by (simp_all add: in_session_def)
  obtain e where e: "ev = Some e" "process env ?c symbol (tf_label tf) c = (r', Inr e)"
    "d' = session_put (pc_session_id cfg) symbol tf d (c, e)"
    using processed_step[OF processed(1)] r(1) by auto
  have v: "valid_write (pc_session_id cfg) symbol tf 0 MAX_TS (c, e)"
    using process_event[OF e(2)] assms(3,4) r(1) by (simp add: valid_write_def set_last_def)
  have "earlier w (c, e)" if "w \<in> set ws" for w
  proof -
    have "ws \<noteq> []" using that by auto
    then have l: "timestamp_ms (fst (last ws)) < timestamp_ms c" using processed(2) r(3) by simp
    have "sorted_wrt earlier ws" using r(2) by (simp add: session_logged_def)
    then have "timestamp_ms (fst w) \<le> timestamp_ms (fst (last ws))"
      using that by (induction ws) (auto simp: earlier_def less_imp_le)
    with l show ?thesis by (simp add: earlier_def)
  qed
  then have "session_logged (pc_session_id cfg) symbol tf 0 MAX_TS d' (ws @ [(c, e)])"
    unfolding e(3) using r(2) v by (intro session_store.logged_put) auto
  moreover have "reproduces env parse r0 symbol (tf_label tf) r' (ws @ [(c, e)])"
    using assms(1,5) e(1,2) by (intro reproduces_snoc) (auto simp: in_session_def)
  moreover have "rn_last r' = rn_last ?c" "rn_config r' = rn_config ?c"
    using runner_frame[of env ?c symbol "tf_label tf" c] e(2) by simp_all
  ultimately have "in_session env parse cfg r0 symbol tf r' d' (ws @ [(c, e)])"
    using r(1) by (simp add: in_session_def set_last_def)
  moreover have "db_state d' = db_state d"
    by (simp add: e(3) session_put_def add_event_def upsert_paper_def split: prod.split)
  ultimately show ?thesis using e(1) by (intro exI[of _ "[(c, e)]"]) simp
qed

lemma feed_in_session:
  "in_session env parse cfg r0 symbol tf r d ws \<Longrightarrow> feed env (r, d) symbol tf cs = ((r', d'), Inr evs) \<Longrightarrow>
   list_all (\<lambda>c. candle_check c = Inr () \<and> in_range 0 MAX_TS c) cs \<Longrightarrow> list_all event_finite evs \<Longrightarrow>
   \<exists>new. in_session env parse cfg r0 symbol tf r' d' (ws @ new) \<and> map snd new = evs \<and> db_state d' = db_state d"
proof (induction cs arbitrary: r d ws evs)
  case Nil
  then show ?case by (intro exI[of _ "[]"]) simp
next
  case (Cons c cs)
  obtain r1 d1 ev evs1 where h: "handle_candle env True r d symbol tf c = ((r1, d1), Inr ev)"
    "feed env (r1, d1) symbol tf cs = ((r', d'), Inr evs1)" "evs = (case ev of None \<Rightarrow> evs1 | Some x \<Rightarrow> x # evs1)"
    using Cons.prems(2) by (auto split: prod.splits sum.splits)
  have fin: "pred_option event_finite ev" "list_all event_finite evs1"
    using Cons.prems(4) h(3) by (auto split: option.splits)
  obtain new where n: "in_session env parse cfg r0 symbol tf r1 d1 (ws @ new)"
    "map snd new = (case ev of None \<Rightarrow> [] | Some e \<Rightarrow> [e])" "db_state d1 = db_state d"
    using handle_in_session[OF Cons.prems(1) h(1) _ _ fin(1)] Cons.prems(3) by auto
  obtain more where "in_session env parse cfg r0 symbol tf r' d' ((ws @ new) @ more)" "map snd more = evs1"
    "db_state d' = db_state d1"
    using Cons.IH[OF n(1) h(2) _ fin(2)] Cons.prems(3) by auto
  then show ?case using n(2,3) h(3) by (intro exI[of _ "new @ more"]) (simp split: option.split)
qed

lemma restore_in_session:
  assumes "session_logged (pc_session_id cfg) symbol tf 0 MAX_TS d ws"
    and "new_runner env cfg None None None (Some (restored_kill_switch d)) = Inr r0"
    and "reproduces env parse r0 symbol (tf_label tf) r ws"
  shows "restore_runner env parse cfg d symbol tf = Inr r"
proof -
  have v: "list_all (valid_write (pc_session_id cfg) symbol tf 0 MAX_TS) ws" "sorted_wrt earlier ws"
    using assms(1) by (simp_all add: session_logged_def)
  then obtain us where "replay env parse (event_index (map snd ws)) r0
      (map (\<lambda>c. (symbol, tf_label tf, c)) (map fst ws)) = (r, Inr us)"
    using assms(3) index_lookup[OF v] unfolding reproduces_def by blast
  then show ?thesis using assms(2) session_read[OF assms(1)] by (simp add: restore_runner_def)
qed

lemma new_runner_fresh:
  "new_runner env cfg e s c k = Inr r \<Longrightarrow>
   rn_config r = cfg \<and> rn_last r = (\<lambda>_. None) \<and> rn_candles r = (\<lambda>_. []) \<and> rn_classifier r = get_or c default_regime_config"
  by (auto simp: new_runner_def bindE_eq_Inr Let_def)

lemma restore_replays:
  assumes "restore_runner env parse cfg d symbol tf = Inr r"
    and "session_logged (pc_session_id cfg) symbol tf 0 MAX_TS d ws"
  obtains r0 us where "new_runner env cfg None None None (Some (restored_kill_switch d)) = Inr r0"
    "replay env parse (event_index (map snd ws)) r0 (map (\<lambda>c. (symbol, tf_label tf, c)) (map fst ws)) = (r, Inr us)"
proof -
  let ?k = "map (\<lambda>c. (symbol, tf_label tf, c)) (map fst ws)"
  have "bindE (new_runner env cfg None None None (Some (restored_kill_switch d)))
      (\<lambda>r0. case replay env parse (event_index (map snd ws)) r0 ?k of
         (r', Inl e) \<Rightarrow> Inl e | (r', Inr _) \<Rightarrow> Inr r') = Inr r"
    using assms(1) session_read[OF assms(2)] unfolding restore_runner_def by simp
  then obtain r0 where r0: "new_runner env cfg None None None (Some (restored_kill_switch d)) = Inr r0"
    "(case replay env parse (event_index (map snd ws)) r0 ?k of
         (r', Inl e) \<Rightarrow> Inl e | (r', Inr _) \<Rightarrow> Inr r') = Inr r"
    unfolding bindE_eq_Inr by blast
  obtain s x where s: "replay env parse (event_index (map snd ws)) r0 ?k = (s, x)" by fastforce
  with r0(2) have "s = r" "\<exists>us. x = Inr us" by (auto split: sum.splits)
  then show thesis using that[OF r0(1)] s by blast
qed

lemma restore_reproduces:
  assumes "restore_runner env parse cfg d symbol tf = Inr r"
    and "session_logged (pc_session_id cfg) symbol tf 0 MAX_TS d ws"
  shows "\<exists>r0. new_runner env cfg None None None (Some (restored_kill_switch d)) = Inr r0 \<and>
    in_session env parse cfg r0 symbol tf r d ws"
proof -
  have v: "list_all (valid_write (pc_session_id cfg) symbol tf 0 MAX_TS) ws" "sorted_wrt earlier ws"
    using assms(2) by (simp_all add: session_logged_def)
  obtain r0 us where r0: "new_runner env cfg None None None (Some (restored_kill_switch d)) = Inr r0"
    "replay env parse (event_index (map snd ws)) r0 (map (\<lambda>c. (symbol, tf_label tf, c)) (map fst ws)) = (r, Inr us)"
    using assms(1,2) by (rule restore_replays)
  have "reproduces env parse r0 symbol (tf_label tf) r ws"
    unfolding reproduces_def
  proof (intro allI impI)
    fix P assume "\<forall>w \<in> set ws. P (symbol, tf_label tf, timestamp_ms (fst w)) = Some (snd w)"
    then have "replay env parse P r0 (map (\<lambda>c. (symbol, tf_label tf, c)) (map fst ws)) =
        replay env parse (event_index (map snd ws)) r0 (map (\<lambda>c. (symbol, tf_label tf, c)) (map fst ws))"
      using index_lookup[OF v] by (intro replay_cong) fastforce
    then show "\<exists>us. replay env parse P r0 (map (\<lambda>c. (symbol, tf_label tf, c)) (map fst ws)) = (r, Inr us)"
      using r0(2) by simp
  qed
  moreover have "rn_config r = cfg" "rn_last r (symbol, tf_label tf) = (if ws = [] then None else Some (fst (last ws)))"
    using replay_frame[OF r0(2)] new_runner_fresh[OF r0(1)] by (simp_all add: last_map)
  ultimately show ?thesis using r0(1) assms(2) by (auto simp: in_session_def)
qed

lemma recovery_exact:
  assumes "restore_runner env parse cfg d symbol tf = Inr r"
    and "session_logged (pc_session_id cfg) symbol tf 0 MAX_TS d ws"
    and "feed env (r, d) symbol tf cs = ((r', d'), Inr evs)"
    and "list_all (\<lambda>c. candle_check c = Inr () \<and> in_range 0 MAX_TS c) cs" "list_all event_finite evs"
  shows "restore_runner env parse cfg d' symbol tf = Inr r' \<and>
    (\<exists>new. session_logged (pc_session_id cfg) symbol tf 0 MAX_TS d' (ws @ new) \<and> map snd new = evs)"
proof -
  obtain r0 where r0: "new_runner env cfg None None None (Some (restored_kill_switch d)) = Inr r0"
    "in_session env parse cfg r0 symbol tf r d ws"
    using restore_reproduces[OF assms(1,2)] by blast
  obtain new where n: "in_session env parse cfg r0 symbol tf r' d' (ws @ new)" "map snd new = evs" "db_state d' = db_state d"
    using feed_in_session[OF r0(2) assms(3-5)] by blast
  have "restored_kill_switch d' = restored_kill_switch d"
    using n(3) by (simp add: restored_kill_switch_def state_get_def)
  then have "restore_runner env parse cfg d' symbol tf = Inr r'"
    using n(1) r0(1) by (intro restore_in_session[of cfg symbol tf d' "ws @ new"]) (auto simp: in_session_def)
  then show ?thesis using n by (auto simp: in_session_def)
qed

text \<open>
  C7 Recovery is exact: a session restored from its store and then fed any candles, repeated
  deliveries included, keeps a log from which \<open>restore_runner\<close> rebuilds the very state of the
  live runner (engine, portfolio, trackers and windows), at any point and after any number of
  restarts.
\<close>

theorem recovery_reproduces_live_run:
  assumes "restore_runner env parse cfg d symbol tf = Inr r"
    and "session_logged (pc_session_id cfg) symbol tf 0 MAX_TS d ws"
    and "feed env (r, d) symbol tf cs = ((r', d'), Inr evs)"
    and "list_all (\<lambda>c. candle_check c = Inr () \<and> in_range 0 MAX_TS c) cs" "list_all event_finite evs"
  shows "restore_runner env parse cfg d' symbol tf = Inr r' \<and>
    (\<exists>new. session_logged (pc_session_id cfg) symbol tf 0 MAX_TS d' (ws @ new) \<and> map snd new = evs)"
  using assms by (rule recovery_exact)

section \<open>Recovery with the kill switch on\<close>

lemma on_price_kill_switch: "pe_kill_switch (fst (on_price day_key e d price a ts)) = pe_kill_switch e"
proof -
  have "pe_kill_switch (fst (process_price day_key e d price a ts)) = pe_kill_switch e"
    using process_frame[of day_key e d price a ts] by (simp add: frame_def)
  then show ?thesis by (simp add: on_price_def split: option.split)
qed

lemma execute_signal_kill:
  assumes "execute_signal env r symbol tf c regime sig v = (r', x)"
  shows "pe_kill_switch (rn_engine r') = pe_kill_switch (rn_engine r) \<and>
    (case x of Inl _ \<Rightarrow> True | Inr ev \<Rightarrow> pt_kill_switch_active ev = ks_active (pe_kill_switch (rn_engine r)))"
proof -
  obtain e y where p: "on_price (en_day_key env) (rn_engine r) (baseline_decision (timestamp_ms c) sig)
      (c_close c) v (timestamp_ms c) = (e, y)" by fastforce
  then have "pe_kill_switch e = pe_kill_switch (rn_engine r)" using on_price_kill_switch by (metis fst_conv)
  moreover have "pe_kill_switch (fst (mark_to_market e (c_close c))) = pe_kill_switch e"
    using frame_fields[OF frame_mark(1)[of e "c_close c"]] by simp
  ultimately show ?thesis using assms p
    by (auto simp: execute_signal_def trade_event_def Let_def split: sum.splits prod.splits)
qed

lemma process_kill:
  assumes "process env r symbol tf c = (r', Inr ev)"
  shows "pe_kill_switch (rn_engine r') = pe_kill_switch (rn_engine r)"
    and "pt_kill_switch_active ev = ks_active (pe_kill_switch (rn_engine r))"
proof -
  obtain s regime sig v where "execute_signal env s symbol tf c regime sig v = (r', Inr ev)" "rn_engine s = rn_engine r"
    using assms by (auto simp: process_def Let_def split: sum.splits option.splits prod.splits)
  with execute_signal_kill[OF this(1)] show "pe_kill_switch (rn_engine r') = pe_kill_switch (rn_engine r)"
    "pt_kill_switch_active ev = ks_active (pe_kill_switch (rn_engine r))" by auto
qed

lemma replay_kill:
  "replay env parse P r (map (\<lambda>c. (symbol, tf, c)) cs) = (r', Inr us) \<Longrightarrow> c \<in> set cs \<Longrightarrow>
   \<exists>e. P (symbol, tf, timestamp_ms c) = Some e \<and> pt_kill_switch_active e = ks_active (pe_kill_switch (rn_engine r))"
proof (induction cs arbitrary: r us)
  case (Cons a cs)
  obtain s ev e vs where s: "process env r symbol tf a = (s, Inr ev)" "P (symbol, tf, timestamp_ms a) = Some e"
    "events_equivalent parse ev e = Inr True"
    "replay env parse P (set_last s symbol tf a) (map (\<lambda>c. (symbol, tf, c)) cs) = (r', Inr vs)"
    using Cons.prems(1)
    by (auto simp: replay_def replay_step_def bindE_eq_Inr split: sum.splits prod.splits option.splits if_splits)
  have k: "pt_kill_switch_active e = ks_active (pe_kill_switch (rn_engine r))"
    using s(3) process_kill(2)[OF s(1)] by (auto simp: events_equivalent_def split: if_splits)
  show ?case
  proof (cases "c = a")
    case True
    then show ?thesis using s(2) k by simp
  next
    case False
    then show ?thesis using Cons.IH[OF s(4)] Cons.prems(2) process_kill(1)[OF s(1)] by (simp add: set_last_def)
  qed
qed simp

lemma new_runner_kill:
  "new_runner env cfg None None None (Some k) = Inr r \<Longrightarrow> pe_kill_switch (rn_engine r) = k"
  by (auto simp: new_runner_def bindE_eq_Inr Let_def attach_kill_switch_def)

text \<open>
  Recovery is fail-closed about the kill switch: a runner is restored only if every
  logged event carries the kill switch state that is stored now.  So a session that traded
  before its kill switch was activated cannot be restored while the switch is on, although
  the switch itself is read back correctly.
\<close>

theorem recovery_needs_constant_kill_switch:
  assumes "restore_runner env parse cfg d symbol tf = Inr r"
    and "session_logged (pc_session_id cfg) symbol tf 0 MAX_TS d ws" "w \<in> set ws"
  shows "pt_kill_switch_active (snd w) = ks_active (restored_kill_switch d)"
proof -
  have v: "list_all (valid_write (pc_session_id cfg) symbol tf 0 MAX_TS) ws" "sorted_wrt earlier ws"
    using assms(2) by (simp_all add: session_logged_def)
  obtain r0 us where r0: "new_runner env cfg None None None (Some (restored_kill_switch d)) = Inr r0"
    "replay env parse (event_index (map snd ws)) r0 (map (\<lambda>c. (symbol, tf_label tf, c)) (map fst ws)) = (r, Inr us)"
    using assms(1,2) by (rule restore_replays)
  show ?thesis
    using replay_kill[OF r0(2), of "fst w"] index_lookup[OF v assms(3)] new_runner_kill[OF r0(1)] assms(3) by auto
qed

section \<open>The recorded contexts are the recomputed ones\<close>

definition mirrors :: "string \<Rightarrow> paper_runner \<Rightarrow> recompute_state \<Rightarrow> bool" where
  "mirrors symbol r s \<longleftrightarrow>
     rn_candles r symbol = rs_window s \<and> rn_strategy r = rs_strategy s \<and>
     map_of (rn_atr r) symbol = Some (rs_atr s) \<and> rn_classifier r = default_regime_config"

lemma execute_signal_context:
  assumes "execute_signal env r symbol tf c regime sig v = (r', Inr ev)"
  shows "pt_decision_context ev = Some (context_to_dict (context_of (rn_strategy r) sig v regime))"
    "rn_candles r' = rn_candles r" "rn_strategy r' = rn_strategy r" "rn_atr r' = rn_atr r"
    "rn_classifier r' = rn_classifier r"
  using assms by (auto simp: execute_signal_def trade_event_def Let_def split: prod.splits sum.splits)

lemma process_recompute:
  assumes "mirrors symbol r s" "process env r symbol tf c = (r', Inr ev)"
  shows "\<exists>s' ctx. recompute_step (en_pow env) s c = (s', Inr ctx) \<and> mirrors symbol r' s' \<and>
    pt_decision_context ev = Some (context_to_dict ctx)"
proof -
  let ?w = "push_window (rs_window s) c"
  obtain regime tracker b sig t v where p: "classify (en_pow env) default_regime_config ?w = Inr regime"
    "map_of (rn_regimes r) symbol = Some tracker" "on_candle (rs_strategy s) c = (b, Inr sig)"
    "atr_update (rs_atr s) c = (t, v)"
    "execute_signal env (r\<lparr>rn_candles := (rn_candles r)(symbol := ?w),
       rn_regimes := AList.update symbol (observe tracker (regime, timestamp_ms c)) (rn_regimes r),
       rn_strategy := b, rn_atr := AList.update symbol t (rn_atr r)\<rparr>) symbol tf c regime sig v = (r', Inr ev)"
    using assms by (auto simp: process_def mirrors_def Let_def split: sum.splits option.splits prod.splits)
  then have "recompute_step (en_pow env) s c =
      (s\<lparr>rs_window := ?w, rs_strategy := b, rs_atr := t\<rparr>, Inr (context_of b sig v regime))"
    by (simp add: recompute_step_def Let_def)
  with execute_signal_context[OF p(5)] assms(1) show ?thesis
    by (auto simp: mirrors_def update_conv')
qed

lemma processed_recompute:
  "mirrors symbol r s \<Longrightarrow> run_tracker (\<lambda>r c. process env r symbol tf c) r cs = (r', Inr evs) \<Longrightarrow>
   \<exists>s' ctxs. run_tracker (recompute_step (en_pow env)) s cs = (s', Inr ctxs) \<and>
     map pt_decision_context evs = map (\<lambda>x. Some (context_to_dict x)) ctxs"
proof (induction cs arbitrary: r s evs)
  case (Cons c cs)
  obtain r1 ev evs1 where h: "process env r symbol tf c = (r1, Inr ev)"
    "run_tracker (\<lambda>r c. process env r symbol tf c) r1 cs = (r', Inr evs1)" "evs = ev # evs1"
    using Cons.prems(2) by (auto split: prod.splits sum.splits)
  obtain s1 ctx where s1: "recompute_step (en_pow env) s c = (s1, Inr ctx)" "mirrors symbol r1 s1"
    "pt_decision_context ev = Some (context_to_dict ctx)"
    using process_recompute[OF Cons.prems(1) h(1)] by blast
  obtain s' ctxs where "run_tracker (recompute_step (en_pow env)) s1 cs = (s', Inr ctxs)"
    "map pt_decision_context evs1 = map (\<lambda>x. Some (context_to_dict x)) ctxs"
    using Cons.IH[OF s1(2) h(2)] by blast
  then show ?case using s1 h(3) by auto
qed auto

lemma dict_of_const:
  "dict_of (\<lambda>_. Inr v) keys = Inr d \<Longrightarrow> k \<in> set keys \<Longrightarrow> map_of d k = Some v"
proof -
  have "foldE (\<lambda>d k. bindE (Inr v) (\<lambda>v. Inr (AList.update k v d))) d0 keys = Inr d \<Longrightarrow>
      map_of d k = (if k \<in> set keys then Some v else map_of d0 k)" for d0
    by (induction keys arbitrary: d0) (auto simp: update_conv')
  then show "dict_of (\<lambda>_. Inr v) keys = Inr d \<Longrightarrow> k \<in> set keys \<Longrightarrow> map_of d k = Some v"
    unfolding dict_of_def by simp
qed

text \<open>
  The context persisted with each event is the one recomputed from the candles alone: a
  fresh default runner that processes a symbol's candles records, candle by candle, the
  contexts of \<open>recompute_decision_contexts\<close>; and that series does not look ahead, so the
  context of a candle is decided by the candles up to it.
\<close>

theorem recorded_contexts_are_causal:
  assumes "new_runner env cfg None None None ks = Inr r" "symbol \<in> set (pc_symbols cfg)"
    and "run_tracker (\<lambda>r c. process env r symbol tf c) r cs = (r', Inr evs)"
  shows "\<exists>ctxs. recompute_decision_contexts (en_pow env) cs = Inr ctxs \<and>
      map pt_decision_context evs = map (\<lambda>x. Some (context_to_dict x)) ctxs \<and>
      recompute_decision_contexts (en_pow env) (take n cs) = Inr (take n ctxs)"
proof -
  obtain t where t: "atr_tracker_init 14 = Inr t"
    by (simp add: atr_tracker_init_def require_positive_period_def raise_if_def)
  obtain b atrs where r: "baseline_init default_ema_rsi_config = Inr b" "rn_strategy r = b"
    "dict_of (\<lambda>_. Inr t) (pc_symbols cfg) = Inr atrs" "rn_atr r = atrs" "rn_candles r = (\<lambda>_. [])"
    "rn_classifier r = default_regime_config"
    using assms(1) by (auto simp: new_runner_def bindE_eq_Inr Let_def t get_or_def split: option.splits)
  let ?s = "\<lparr>rs_strategy = b, rs_atr = t, rs_window = []\<rparr>"
  have "mirrors symbol r ?s" using r dict_of_const[OF r(3) assms(2)] by (simp add: mirrors_def)
  then obtain s' ctxs where s': "run_tracker (recompute_step (en_pow env)) ?s cs = (s', Inr ctxs)"
    "map pt_decision_context evs = map (\<lambda>x. Some (context_to_dict x)) ctxs"
    using processed_recompute assms(3) by blast
  then have "recompute_decision_contexts (en_pow env) cs = Inr ctxs"
    by (simp add: recompute_decision_contexts_def recompute_init_def r(1) t)
  with contexts.ind_take[OF this, of n] s'(2) show ?thesis by blast
qed

section \<open>Witnesses\<close>

definition example_env :: runner_env where
  "example_env = \<lparr>en_pow = (\<lambda>_ _. Inr (Fin 1)), en_sha256 = (\<lambda>s. s), en_day_key = utc_day_index\<rparr>"

definition example_run_config :: paper_runner_config where
  "example_run_config =
     \<lparr>pc_trading_mode = ''paper'', pc_live_trading_enabled = False, pc_symbols = [''ETHUSDT''],
      pc_timeframe = ''15m'', pc_session_id = ''s1'', pc_decision_source = ''baseline'',
      pc_report_interval_seconds = 86400, pc_max_runtime_seconds = None\<rparr>"

definition no_parse :: "string \<Rightarrow> pyfloat result" where
  "no_parse s = Inl (ValueError s)"

definition example_runner :: paper_runner where
  "example_runner = projr (new_runner example_env example_run_config None None None (Some kill_switch_clear))"

definition example_feed :: "(paper_runner \<times> db) \<times> paper_trade_event list result" where
  \<comment> \<open>two candles, the first delivered twice\<close>
  "example_feed = feed example_env (example_runner, empty_db) ''ETHUSDT'' M15
     [example_candle 900000 5, example_candle 900000 5, example_candle 1800000 6]"

lemma example_runner_new:
  "new_runner example_env example_run_config None None None (Some kill_switch_clear) = Inr example_runner"
proof -
  have "\<not> isl (new_runner example_env example_run_config None None None (Some kill_switch_clear))"
    by code_simp
  then show ?thesis by (simp add: example_runner_def)
qed

lemma empty_logged: "session_logged session symbol tf lo hi empty_db []"
  by (simp add: session_logged_def empty_db_def)

lemma example_restored: "restore_runner example_env no_parse example_run_config empty_db ''ETHUSDT'' M15 = Inr example_runner"
  using example_runner_new session_read[OF empty_logged]
  by (simp add: restore_runner_def restored_kill_switch_def state_get_def empty_db_def replay_def)

lemma example_fed: "\<not> isl (snd example_feed)" "list_all event_finite (projr (snd example_feed))"
  by code_simp+

lemma example_fed_run:
  "feed example_env (example_runner, empty_db) ''ETHUSDT'' M15
     [example_candle 900000 5, example_candle 900000 5, example_candle 1800000 6] =
   ((fst (fst example_feed), snd (fst example_feed)), Inr (projr (snd example_feed)))"
  unfolding example_feed_def[symmetric] using example_fed(1) by (metis prod.collapse sum.collapse(2))

theorem recovery_reproduces_live_run_witness:
  "restore_runner example_env no_parse example_run_config (snd (fst example_feed)) ''ETHUSDT'' M15 = Inr (fst (fst example_feed)) \<and>
   (\<exists>new. session_logged (pc_session_id example_run_config) ''ETHUSDT'' M15 0 MAX_TS (snd (fst example_feed)) ([] @ new) \<and>
      map snd new = projr (snd example_feed))"
proof (rule recovery_reproduces_live_run[OF example_restored empty_logged])
  show "feed example_env (example_runner, empty_db) ''ETHUSDT'' M15
      [example_candle 900000 5, example_candle 900000 5, example_candle 1800000 6] =
    ((fst (fst example_feed), snd (fst example_feed)), Inr (projr (snd example_feed)))"
    by (rule example_fed_run)
  show "list_all (\<lambda>c. candle_check c = Inr () \<and> in_range 0 MAX_TS c)
      [example_candle 900000 5, example_candle 900000 5, example_candle 1800000 6]"
    by (simp add: candle_check_def example_candle_def in_range_def MAX_TS_def)
  show "list_all event_finite (projr (snd example_feed))" by (rule example_fed(2))
qed

definition example_log :: "(candle \<times> paper_trade_event) list" where
  "example_log = zip [example_candle 900000 5, example_candle 1800000 6] (projr (snd example_feed))"

lemma example_logged:
  "session_logged (pc_session_id example_run_config) ''ETHUSDT'' M15 0 MAX_TS (snd (fst example_feed)) example_log"
  by code_simp

lemma example_restored_again:
  "restore_runner example_env no_parse example_run_config (snd (fst example_feed)) ''ETHUSDT'' M15 =
     Inr (fst (fst example_feed))"
  using recovery_exact[OF example_restored empty_logged example_fed_run _ example_fed(2)]
  by (simp add: candle_check_def example_candle_def in_range_def MAX_TS_def)

theorem recovery_needs_constant_kill_switch_witness:
  "pt_kill_switch_active (snd (hd example_log)) = ks_active (restored_kill_switch (snd (fst example_feed)))"
proof (rule recovery_needs_constant_kill_switch[OF example_restored_again example_logged])
  have "example_log \<noteq> []" by code_simp
  then show "hd example_log \<in> set example_log" by simp
qed

definition example_processed :: "paper_runner \<times> paper_trade_event list result" where
  "example_processed = run_tracker (\<lambda>r c. process example_env r ''ETHUSDT'' ''15m'' c) example_runner
     [example_candle 900000 5, example_candle 1800000 6]"

theorem recorded_contexts_are_causal_witness:
  "\<exists>ctxs. recompute_decision_contexts (en_pow example_env) [example_candle 900000 5, example_candle 1800000 6] = Inr ctxs \<and>
      map pt_decision_context (projr (snd example_processed)) = map (\<lambda>x. Some (context_to_dict x)) ctxs \<and>
      recompute_decision_contexts (en_pow example_env) (take 1 [example_candle 900000 5, example_candle 1800000 6]) =
        Inr (take 1 ctxs)"
proof (rule recorded_contexts_are_causal[OF example_runner_new])
  show "''ETHUSDT'' \<in> set (pc_symbols example_run_config)" by (simp add: example_run_config_def)
  have "\<not> isl (snd example_processed)" by code_simp
  then show "run_tracker (\<lambda>r c. process example_env r ''ETHUSDT'' ''15m'' c) example_runner
      [example_candle 900000 5, example_candle 1800000 6] = (fst example_processed, Inr (projr (snd example_processed)))"
    unfolding example_processed_def[symmetric] by (metis prod.collapse sum.collapse(2))
qed

end
