(* ===== verification/PyDecimal.thy ===== *)
theory PyDecimal
  imports PyFloat
begin

text \<open>
  The part of Python's \<open>decimal\<close> the accounting uses: \<open>Decimal(str(x))\<close> of a float,
  \<open>float\<close> of a Decimal, subtraction and absolute value under the default context (28
  significant digits, ties to even, InvalidOperation raised) and the comparisons.
  \<open>str(x)\<close> is the shortest decimal that reads back as \<open>x\<close>: the least number of digits, at
  most 17, for which one of the two neighbours of \<open>x\<close> rounds to it, the closer one first.
\<close>

datatype decimal = Dec (dec_val: rat) | DInf | DNegInf | DNaN

section \<open>Decimal digits\<close>

function digits :: "int \<Rightarrow> int" where
  \<comment> \<open>the number of decimal digits of a positive integer\<close>
  "digits n = (if n < 10 then 1 else 1 + digits (n div 10))"
  by auto
termination by (relation "measure nat") auto

declare digits.simps [simp del]

definition ilog10 :: "rat \<Rightarrow> int" where
  \<comment> \<open>the exponent of the leading digit of a positive rational\<close>
  "ilog10 q =
     (if 1 \<le> q then digits \<lfloor>q\<rfloor> - 1 else - digits (\<lceil>1 / q\<rceil> - 1))"

definition digit_unit :: "nat \<Rightarrow> rat \<Rightarrow> rat" where
  \<comment> \<open>the unit of the last of \<open>n\<close> significant digits\<close>
  "digit_unit n q = 10 powi (ilog10 q - int n + 1)"

definition neighbours :: "nat \<Rightarrow> rat \<Rightarrow> rat list" where
  \<comment> \<open>the decimals of \<open>n\<close> digits around a positive rational, the closer one first\<close>
  "neighbours n q =
     (let u = digit_unit n q; lo = of_int \<lfloor>q / u\<rfloor> * u; hi = lo + u
      in if q - lo \<le> hi - q then [lo, hi] else [hi, lo])"

fun search_digits :: "rat \<Rightarrow> nat \<Rightarrow> nat \<Rightarrow> rat" where
  \<comment> \<open>from \<open>n\<close> digits on, \<open>k\<close> lengths; the exact value stands for "not found"\<close>
  "search_digits q n 0 = q"
| "search_digits q n (Suc k) =
     (case find (\<lambda>d. rnd d = rnd q) (neighbours n q) of
        Some d \<Rightarrow> d
      | None \<Rightarrow> search_digits q (Suc n) k)"

definition shortest :: "rat \<Rightarrow> rat" where
  \<comment> \<open>17 digits always suffice for a binary64 value\<close>
  "shortest q = search_digits q 1 17"

fun dec_of :: "pyfloat \<Rightarrow> decimal" where
  \<comment> \<open>\<open>Decimal(str(x))\<close>\<close>
  "dec_of (Fin q) = Dec (if q = 0 then 0 else if 0 < q then shortest q else - shortest (- q))"
| "dec_of PInf = DInf"
| "dec_of NInf = DNegInf"
| "dec_of NaN = DNaN"

fun dec_float :: "decimal \<Rightarrow> pyfloat" where
  "dec_float (Dec q) = rnd q"
| "dec_float DInf = PInf"
| "dec_float DNegInf = NInf"
| "dec_float DNaN = NaN"

section \<open>Context arithmetic\<close>

definition round28 :: "rat \<Rightarrow> rat" where
  "round28 q = (if q = 0 then 0 else let u = digit_unit 28 \<bar>q\<bar> in of_int (rne (q / u)) * u)"

fun dec_sub :: "decimal \<Rightarrow> decimal \<Rightarrow> decimal result" where
  "dec_sub (Dec a) (Dec b) = Inr (Dec (round28 (a - b)))"
| "dec_sub DNaN _ = Inr DNaN"
| "dec_sub _ DNaN = Inr DNaN"
| "dec_sub DInf DInf = Inl InvalidOperation"
| "dec_sub DNegInf DNegInf = Inl InvalidOperation"
| "dec_sub DInf _ = Inr DInf"
| "dec_sub DNegInf _ = Inr DNegInf"
| "dec_sub _ DInf = Inr DNegInf"
| "dec_sub _ DNegInf = Inr DInf"

fun dec_abs :: "decimal \<Rightarrow> decimal" where
  "dec_abs (Dec a) = Dec (round28 \<bar>a\<bar>)"
| "dec_abs DNaN = DNaN"
| "dec_abs _ = DInf"

fun dec_is_zero :: "decimal \<Rightarrow> bool" where
  \<comment> \<open>\<open>d == 0\<close>\<close>
  "dec_is_zero (Dec a) = (a = 0)"
| "dec_is_zero _ = False"

fun dec_less :: "decimal \<Rightarrow> decimal \<Rightarrow> bool result" where
  "dec_less DNaN _ = Inl InvalidOperation"
| "dec_less _ DNaN = Inl InvalidOperation"
| "dec_less (Dec a) (Dec b) = Inr (a < b)"
| "dec_less DInf _ = Inr False"
| "dec_less _ DNegInf = Inr False"
| "dec_less _ _ = Inr True"

fun dec_max :: "decimal \<Rightarrow> decimal list \<Rightarrow> decimal result" where
  \<comment> \<open>\<open>max\<close> of a first element and the rest\<close>
  "dec_max d [] = Inr d"
| "dec_max d (x # xs) = bindE (dec_less d x) (\<lambda>lt. dec_max (if lt then x else d) xs)"

section \<open>Reading back\<close>

lemma rnd_search: "rnd (search_digits q n k) = rnd q"
  by (induction q n k rule: search_digits.induct) (auto simp: find_Some_iff split: option.split)

lemma rnd_shortest: "rnd (shortest q) = rnd q"
  unfolding shortest_def by (rule rnd_search)

lemma dec_roundtrip: "float_value x \<Longrightarrow> dec_float (dec_of x) = x"
proof (cases x)
  case (Fin q)
  moreover assume "float_value x"
  ultimately have q: "rnd q = Fin q" by (simp add: representable_def)
  have "rnd (- shortest (- q)) = Fin q" using q by (simp add: rnd_uminus rnd_shortest)
  with q show ?thesis using Fin by (simp add: rnd_shortest)
qed simp_all

lemma dec_of_inj: "float_value x \<Longrightarrow> float_value y \<Longrightarrow> dec_of x = dec_of y \<longleftrightarrow> x = y"
  by (metis dec_roundtrip)

lemma digits_bounds:
  "0 < n \<Longrightarrow> 1 \<le> digits n \<and> (10 :: rat) powi (digits n - 1) \<le> of_int n \<and> of_int n + 1 \<le> (10 :: rat) powi digits n"
proof (induction n rule: digits.induct)
  case (1 n)
  show ?case
  proof (cases "n < 10")
    case True
    then have "rat_of_int (n + 1) \<le> rat_of_int 10" unfolding of_int_le_iff by simp
    then show ?thesis using True 1(2) by (simp add: digits.simps[of n])
  next
    case False
    let ?m = "n div 10"
    have ih: "1 \<le> digits ?m" "(10 :: rat) powi (digits ?m - 1) \<le> of_int ?m" "of_int ?m + 1 \<le> (10 :: rat) powi digits ?m"
      using 1(1)[OF False] False by auto
    have m: "10 * ?m \<le> n" "n + 1 \<le> 10 * (?m + 1)" by presburger+
    have d: "digits n = 1 + digits ?m" using False by (simp add: digits.simps[of n])
    have "(10 :: rat) powi digits ?m = 10 * 10 powi (digits ?m - 1)"
      by (simp add: power_int_diff)
    moreover have "(10 :: rat) powi digits n = 10 * 10 powi digits ?m" by (simp add: d power_int_add)
    moreover have "rat_of_int (10 * ?m) \<le> rat_of_int n" "rat_of_int (n + 1) \<le> rat_of_int (10 * (?m + 1))"
      unfolding of_int_le_iff by (fact m)+
    ultimately show ?thesis using ih d by simp
  qed
qed

lemma ilog10_le: "0 < q \<Longrightarrow> 10 powi ilog10 q \<le> q"
proof (cases "1 \<le> q")
  case True
  then have "0 < \<lfloor>q\<rfloor>" by simp
  then have "10 powi (digits \<lfloor>q\<rfloor> - 1) \<le> rat_of_int \<lfloor>q\<rfloor>" using digits_bounds by blast
  then show ?thesis using True of_int_floor_le[of q] by (auto simp: ilog10_def intro: order_trans)
next
  case False
  assume q: "0 < q"
  let ?m = "\<lceil>1 / q\<rceil> - 1"
  have "1 < 1 / q" using q False by simp
  then have "0 < ?m" by (simp add: less_ceiling_iff)
  then have "of_int \<lceil>1 / q\<rceil> \<le> (10 :: rat) powi digits ?m" using digits_bounds[of ?m] by simp
  then have "1 / q \<le> 10 powi digits ?m" using le_of_int_ceiling[of "1 / q"] by linarith
  then have "inverse (10 powi digits ?m) \<le> q"
    using q by (simp add: field_simps)
  then show ?thesis using False by (simp add: ilog10_def power_int_minus)
qed

lemma round28_zero_iff [simp]: "round28 q = 0 \<longleftrightarrow> q = 0"
proof (cases "q = 0")
  case False
  let ?u = "digit_unit 28 \<bar>q\<bar>"
  have u: "0 < ?u" by (simp add: digit_unit_def)
  have "?u \<le> 10 powi ilog10 \<bar>q\<bar>" unfolding digit_unit_def by (rule power_int_increasing) auto
  then have "?u \<le> \<bar>q\<bar>" using ilog10_le[of "\<bar>q\<bar>"] False by simp
  then have "1 \<le> \<bar>q / ?u\<bar>" using u by (simp add: le_divide_eq)
  then consider "1 \<le> q / ?u" | "q / ?u \<le> - 1" by linarith
  then have "rne (q / ?u) \<noteq> 0"
    using rne_mono[of 1 "q / ?u"] rne_mono[of "q / ?u" "- 1"] rne_of_int[of 1] rne_of_int[of "- 1"]
    by cases auto
  then show ?thesis using False u by (simp add: round28_def Let_def)
qed (simp add: round28_def)

lemma dec_delta_zero:
  "dec_sub a b = Inr d \<Longrightarrow> dec_is_zero (dec_abs d) \<longleftrightarrow> a = b \<and> (\<exists>q. a = Dec q)"
  by (cases a; cases b) auto

end
