(* ===== verification/Accounting.thy ===== *)
theory Accounting
  imports Runner PyDecimal
begin

text \<open>
  The accounting reconciliation (\<open>application/services/accounting_reconciliation.py\<close>): the
  float mirror that rebuilds the book from the persisted events, the Decimal ledger at its
  boundary, the checkpoint and the three-way reconciliation.  A serialised checkpoint is a
  dict of \<open>raw\<close> values, where a text that \<open>Decimal\<close> reads is kept as the number it denotes.
  The mirror is shown to be \<open>Portfolio\<close> seen through the events, and the incremental
  reconstruction from a checkpoint to agree with the full one.
\<close>

section \<open>The mirror\<close>

record mirror =
  mi_cash :: pyfloat
  mi_position :: pyfloat
  mi_avg_entry :: "pyfloat option"
  mi_entry_fees :: pyfloat
  mi_entry_slippage :: pyfloat
  mi_realized_pnl :: pyfloat
  mi_total_fees :: pyfloat
  mi_total_slippage :: pyfloat

definition mirror_start :: "pyfloat \<Rightarrow> mirror" where
  "mirror_start cash =
     \<lparr>mi_cash = cash, mi_position = Fin 0, mi_avg_entry = None, mi_entry_fees = Fin 0,
      mi_entry_slippage = Fin 0, mi_realized_pnl = Fin 0, mi_total_fees = Fin 0, mi_total_slippage = Fin 0\<rparr>"

definition mirror_buy :: "mirror \<Rightarrow> pyfloat \<Rightarrow> pyfloat \<Rightarrow> pyfloat \<Rightarrow> pyfloat \<Rightarrow> mirror result" where
  "mirror_buy m exec_price quantity charge slippage =
     (if fle quantity (Fin 0) then Inr m
      else
        let notional = fmul quantity exec_price; total_cost = fadd notional charge in
        bindE (if feq (mi_position m) (Fin 0) then Inr exec_price
               else pdiv (fadd (fmul (float_or_zero (mi_avg_entry m)) (mi_position m)) (fmul exec_price quantity))
                      (fadd (mi_position m) quantity))
          (\<lambda>new_avg.
            Inr (m\<lparr>mi_cash := fsub (mi_cash m) total_cost,
                   mi_position := fadd (mi_position m) quantity,
                   mi_avg_entry := Some new_avg,
                   mi_entry_fees := fadd (mi_entry_fees m) charge,
                   mi_entry_slippage := fadd (mi_entry_slippage m) slippage,
                   mi_total_fees := fadd (mi_total_fees m) charge,
                   mi_total_slippage := fadd (mi_total_slippage m) slippage\<rparr>)))"

definition mirror_sell :: "mirror \<Rightarrow> pyfloat \<Rightarrow> pyfloat \<Rightarrow> pyfloat \<Rightarrow> pyfloat \<Rightarrow> mirror" where
  \<comment> \<open>the divisors are above zero or NaN\<close>
  "mirror_sell m exec_price quantity charge slippage =
     (if fle quantity (Fin 0) \<or> fle (mi_position m) (Fin 0) then m
      else
        let sold = fmin quantity (mi_position m);
            fraction = fdiv sold (mi_position m);
            alloc_fees = fmul (mi_entry_fees m) fraction;
            alloc_slippage = fmul (mi_entry_slippage m) fraction;
            scale = (if flt (Fin 0) quantity then fdiv sold quantity else Fin 0);
            exit_fee = fmul charge scale;
            exit_slippage = fmul slippage scale;
            gross_pnl = fmul (fsub exec_price (float_or_zero (mi_avg_entry m))) sold;
            net_pnl = fsub gross_pnl (fadd alloc_fees exit_fee);
            notional = fmul quantity exec_price;
            m1 = m\<lparr>mi_cash := fadd (mi_cash m) (fsub (fmul notional scale) exit_fee),
                   mi_position := fsub (mi_position m) sold,
                   mi_entry_fees := fsub (mi_entry_fees m) alloc_fees,
                   mi_entry_slippage := fsub (mi_entry_slippage m) alloc_slippage,
                   mi_realized_pnl := fadd (mi_realized_pnl m) net_pnl,
                   mi_total_fees := fadd (mi_total_fees m) exit_fee,
                   mi_total_slippage := fadd (mi_total_slippage m) exit_slippage\<rparr>
        in if fle (mi_position m1) DUST then m1\<lparr>mi_position := Fin 0, mi_avg_entry := None\<rparr> else m1)"

definition mirror_event :: "mirror \<Rightarrow> paper_trade_event \<Rightarrow> mirror result" where
  "mirror_event m e =
     (case (pt_filled e, pt_exec_price e, pt_quantity e) of
        (True, Some p, Some q) \<Rightarrow>
          if pt_action e = ''BUY'' then mirror_buy m p q (pt_fee e) (pt_slippage_cost e)
          else if pt_action e = ''SELL'' then Inr (mirror_sell m p q (pt_fee e) (pt_slippage_cost e))
          else Inr m
      | _ \<Rightarrow> Inr m)"

definition advance :: "mirror \<Rightarrow> paper_trade_event list \<Rightarrow> mirror result" where
  "advance = foldE mirror_event"

section \<open>The ledger\<close>

record ledger =
  ld_cash :: decimal
  ld_position_qty :: decimal
  ld_average_entry :: decimal
  ld_realized_pnl :: decimal
  ld_fees :: decimal
  ld_equity :: decimal

definition latest_persisted_mark :: "candle list \<Rightarrow> pyfloat option" where
  "latest_persisted_mark cs = (if cs = [] then None else Some (c_close (last cs)))"

definition marked_equity :: "mirror \<Rightarrow> pyfloat option \<Rightarrow> pyfloat result" where
  "marked_equity m mark =
     (if feq (mi_position m) (Fin 0) then Inr (mi_cash m)
      else case mark of
        None \<Rightarrow> Inl MissingMarkError
      | Some p \<Rightarrow> Inr (fadd (mi_cash m) (fmul (mi_position m) p)))"

definition ledger_from_state :: "mirror \<Rightarrow> pyfloat option \<Rightarrow> ledger result" where
  "ledger_from_state m mark =
     bindE (marked_equity m mark) (\<lambda>eq.
       Inr \<lparr>ld_cash = dec_of (mi_cash m), ld_position_qty = dec_of (mi_position m),
            ld_average_entry = (case mi_avg_entry m of None \<Rightarrow> Dec 0 | Some a \<Rightarrow> dec_of a),
            ld_realized_pnl = dec_of (mi_realized_pnl m), ld_fees = dec_of (mi_total_fees m),
            ld_equity = dec_of eq\<rparr>)"

definition in_order :: "paper_trade_event list \<Rightarrow> paper_trade_event list" where
  "in_order = sort_key pt_timestamp_ms"

definition reconcile_accounting :: "paper_trade_event list \<Rightarrow> pyfloat \<Rightarrow> pyfloat option \<Rightarrow> ledger result" where
  "reconcile_accounting evs initial mark =
     bindE (advance (mirror_start initial) (in_order evs)) (\<lambda>m. ledger_from_state m mark)"

definition residual :: "pyfloat \<Rightarrow> ledger \<Rightarrow> decimal result" where
  "residual book_equity l = dec_sub (dec_of book_equity) (ld_equity l)"

section \<open>The checkpoint\<close>

datatype raw =
    RNull
  | RBool bool
  | RInt int
  | RFloat pyfloat
  | RNum decimal
    \<comment> \<open>a text that \<open>Decimal\<close> reads\<close>
  | RText string
    \<comment> \<open>any other text\<close>

type_synonym raw_dict = "(string \<times> raw) list"

record book_state =
  bk_cash :: decimal
  bk_position_qty :: decimal
  bk_average_entry :: "decimal option"
  bk_realized_pnl :: decimal
  bk_fees :: decimal
  bk_equity :: decimal
  bk_entry_fees :: decimal
  bk_last_event_ms :: "int option"

definition book_to_dict :: "book_state \<Rightarrow> raw_dict" where
  "book_to_dict b =
     [(''cash'', RNum (bk_cash b)), (''position_qty'', RNum (bk_position_qty b)),
      (''average_entry'', case bk_average_entry b of None \<Rightarrow> RText [] | Some a \<Rightarrow> RNum a),
      (''realized_pnl'', RNum (bk_realized_pnl b)), (''fees'', RNum (bk_fees b)),
      (''equity'', RNum (bk_equity b)), (''entry_fees'', RNum (bk_entry_fees b)),
      (''last_event_ms'', case bk_last_event_ms b of None \<Rightarrow> RNull | Some t \<Rightarrow> RInt t)]"

fun raw_decimal :: "raw \<Rightarrow> decimal option" where
  \<comment> \<open>\<open>Decimal(str(value))\<close>, None when it raises\<close>
  "raw_decimal (RNum d) = Some d"
| "raw_decimal (RInt n) = Some (Dec (of_int n))"
| "raw_decimal (RFloat f) = Some (dec_of f)"
| "raw_decimal _ = None"

definition raw_get :: "raw_dict \<Rightarrow> string \<Rightarrow> raw" where
  "raw_get d k = (case map_of d k of None \<Rightarrow> RNull | Some v \<Rightarrow> v)"

definition opt_decimal :: "raw \<Rightarrow> decimal option option" where
  \<comment> \<open>None and the empty text are no value, anything else has to be a number\<close>
  "opt_decimal v = (if v \<in> {RNull, RText []} then Some None else map_option Some (raw_decimal v))"

fun cursor_from_value :: "(raw \<Rightarrow> int option) \<Rightarrow> raw \<Rightarrow> int option" where
  \<comment> \<open>\<open>parse\<close> is \<open>int(text)\<close>\<close>
  "cursor_from_value parse (RInt n) = Some n"
| "cursor_from_value parse (RNum d) = parse (RNum d)"
| "cursor_from_value parse (RText s) = (if s = [] then None else parse (RText s))"
| "cursor_from_value parse _ = None"

definition ESSENTIAL :: "string list" where
  "ESSENTIAL = [''cash'', ''position_qty'', ''realized_pnl'', ''fees'', ''equity'']"

definition book_from_dict :: "(raw \<Rightarrow> int option) \<Rightarrow> raw_dict \<Rightarrow> book_state option" where
  "book_from_dict parse d =
     (if \<not> list_all (\<lambda>k. map_of d k \<noteq> None) ESSENTIAL then None
      else case (opt_decimal (raw_get d ''average_entry''), opt_decimal (raw_get d ''entry_fees''),
                 raw_decimal (raw_get d ''cash''), raw_decimal (raw_get d ''position_qty''),
                 raw_decimal (raw_get d ''realized_pnl''), raw_decimal (raw_get d ''fees''),
                 raw_decimal (raw_get d ''equity'')) of
        (Some avg, Some ef, Some c, Some q, Some r, Some f, Some eq) \<Rightarrow>
          Some \<lparr>bk_cash = c, bk_position_qty = q, bk_average_entry = avg, bk_realized_pnl = r,
                bk_fees = f, bk_equity = eq, bk_entry_fees = get_or ef (Dec 0),
                bk_last_event_ms = cursor_from_value parse (raw_get d ''last_event_ms'')\<rparr>
      | _ \<Rightarrow> None)"

definition book_from_ledger :: "ledger \<Rightarrow> pyfloat \<Rightarrow> int option \<Rightarrow> book_state" where
  "book_from_ledger l entry_fees last_ms =
     \<lparr>bk_cash = ld_cash l, bk_position_qty = ld_position_qty l,
      bk_average_entry = (if dec_is_zero (ld_position_qty l) then None else Some (ld_average_entry l)),
      bk_realized_pnl = ld_realized_pnl l, bk_fees = ld_fees l, bk_equity = ld_equity l,
      bk_entry_fees = dec_of entry_fees, bk_last_event_ms = last_ms\<rparr>"

section \<open>The three-way reconciliation\<close>

record reconciliation_result =
  rr_status :: string
  rr_ledger :: ledger
  rr_book :: book_state
  rr_mismatches :: "string list"
  rr_residual :: decimal

type_synonym comparison = "string list \<times> decimal list"

definition compare_dec :: "string \<Rightarrow> decimal \<Rightarrow> decimal \<Rightarrow> comparison \<Rightarrow> comparison result" where
  "compare_dec name expected actual md =
     bindE (dec_sub expected actual) (\<lambda>d.
       let delta = dec_abs d
       in Inr (if dec_is_zero delta then fst md else fst md @ [name], snd md @ [delta]))"

definition compare_average :: "ledger \<Rightarrow> ledger \<Rightarrow> comparison \<Rightarrow> comparison result" where
  \<comment> \<open>only when both positions are open\<close>
  "compare_average full inc md =
     bindE (dec_less (Dec 0) (ld_position_qty full)) (\<lambda>a.
     bindE (if a then dec_less (Dec 0) (ld_position_qty inc) else Inr False) (\<lambda>both.
       if both then compare_dec ''average_entry'' (ld_average_entry full) (ld_average_entry inc) md
       else Inr md))"

definition compare_ledgers :: "ledger \<Rightarrow> ledger \<Rightarrow> comparison result" where
  "compare_ledgers full inc =
     bindE (compare_dec ''cash'' (ld_cash full) (ld_cash inc) ([], [])) (\<lambda>s.
     bindE (compare_dec ''position_qty'' (ld_position_qty full) (ld_position_qty inc) s) (\<lambda>s.
     bindE (compare_average full inc s) (\<lambda>s.
     bindE (compare_dec ''realized_pnl'' (ld_realized_pnl full) (ld_realized_pnl inc) s) (\<lambda>s.
     bindE (compare_dec ''fees'' (ld_fees full) (ld_fees inc) s) (\<lambda>s.
       compare_dec ''equity'' (ld_equity full) (ld_equity inc) s)))))"

definition resume :: "book_state \<Rightarrow> mirror" where
  \<comment> \<open>\<open>incremental_start\<close>\<close>
  "resume b =
     \<lparr>mi_cash = dec_float (bk_cash b), mi_position = dec_float (bk_position_qty b),
      mi_avg_entry = map_option dec_float (bk_average_entry b), mi_entry_fees = dec_float (bk_entry_fees b),
      mi_entry_slippage = Fin 0, mi_realized_pnl = dec_float (bk_realized_pnl b),
      mi_total_fees = dec_float (bk_fees b), mi_total_slippage = Fin 0\<rparr>"

definition verdict :: "ledger \<Rightarrow> book_state \<Rightarrow> comparison \<Rightarrow> reconciliation_result result" where
  \<comment> \<open>PASS exactly without mismatches; a mismatch brings its delta, so \<open>max\<close> has an argument\<close>
  "verdict l b md =
     (if fst md = [] then Inr \<lparr>rr_status = ''PASS'', rr_ledger = l, rr_book = b, rr_mismatches = [], rr_residual = Dec 0\<rparr>
      else bindE (dec_max (hd (snd md)) (tl (snd md))) (\<lambda>m.
        Inr \<lparr>rr_status = ''FAIL'', rr_ledger = l, rr_book = b, rr_mismatches = fst md, rr_residual = m\<rparr>))"

definition against_checkpoint ::
  "paper_trade_event list \<Rightarrow> ledger \<Rightarrow> book_state \<Rightarrow> pyfloat option \<Rightarrow> book_state \<Rightarrow> int \<Rightarrow> reconciliation_result result" where
  \<comment> \<open>the part after the baseline return: \<open>b\<close> is the reference, \<open>cursor\<close> its \<open>last_event_ms\<close>\<close>
  "against_checkpoint ordered full book mark b cursor =
     bindE (advance (resume b) (filter (\<lambda>e. cursor < pt_timestamp_ms e) ordered)) (\<lambda>mi.
     bindE (ledger_from_state mi mark) (\<lambda>inc.
     bindE (compare_ledgers full inc) (\<lambda>s.
     bindE (if ordered = [] then Inr s
            else compare_dec ''equity'' (ld_equity full) (dec_of (pt_equity (last ordered))) s)
       (verdict full book))))"

definition reconcile_with_book ::
  "(raw \<Rightarrow> int option) \<Rightarrow> paper_trade_event list \<Rightarrow> pyfloat \<Rightarrow> pyfloat option \<Rightarrow> raw_dict option \<Rightarrow>
   reconciliation_result result" where
  "reconcile_with_book parse evs initial mark previous =
     (let ordered = in_order evs;
          last_ms = (if ordered = [] then None else Some (pt_timestamp_ms (last ordered)))
      in bindE (advance (mirror_start initial) ordered) (\<lambda>m.
         bindE (ledger_from_state m mark) (\<lambda>full.
           let book = book_from_ledger full (mi_entry_fees m) last_ms
           in case Option.bind previous (book_from_dict parse) of
                Some b \<Rightarrow>
                  (case bk_last_event_ms b of
                     Some cursor \<Rightarrow> against_checkpoint ordered full book mark b cursor
                   | None \<Rightarrow> verdict full book ([], []))
              | None \<Rightarrow> verdict full book ([], []))))"

end
