(* ===== verification/Books.thy ===== *)
theory Books
  imports Accounting
begin

text \<open>
  What the reconciliation of \<open>Accounting\<close> shows.  The mirror reproduces the engine's book from
  the events a runner persists (the interpretation \<open>book_mirror\<close>), so the rebuilt ledger is
  the live one and the residual is zero; and a checkpoint resumes the mirror without loss, so
  that the incremental reconstruction never disagrees with the full one on untouched events.
\<close>

section \<open>The mirror is the portfolio\<close>

definition mirror_of :: "portfolio \<Rightarrow> mirror" where
  "mirror_of p =
     \<lparr>mi_cash = pf_cash p, mi_position = pf_position p, mi_avg_entry = pf_avg_entry p,
      mi_entry_fees = pf_entry_fees p, mi_entry_slippage = pf_entry_slippage p,
      mi_realized_pnl = pf_realized_pnl p, mi_total_fees = pf_total_fees p,
      mi_total_slippage = pf_total_slippage p\<rparr>"

definition book_move :: "portfolio \<Rightarrow> paper_event \<Rightarrow> portfolio result" where
  \<comment> \<open>what an engine event did to the portfolio\<close>
  "book_move p pv =
     (case (pv_filled pv, pv_fill pv, pv_action pv) of
        (True, Some f, BUY) \<Rightarrow> (case apply_buy p f of (p', Inr _) \<Rightarrow> Inr p' | (_, Inl e) \<Rightarrow> Inl e)
      | (True, Some f, SELL) \<Rightarrow> Inr (apply_sell p f)
      | _ \<Rightarrow> Inr p)"

definition records :: "paper_event \<Rightarrow> paper_trade_event \<Rightarrow> bool" where
  \<comment> \<open>the persisted event carries the engine event\<close>
  "records pv e \<longleftrightarrow>
     pt_filled e = pv_filled pv \<and> pt_action e = action_name (pv_action pv) \<and>
     pt_exec_price e = map_option fl_exec_price (pv_fill pv) \<and>
     pt_quantity e = map_option fl_quantity (pv_fill pv) \<and>
     (\<forall>f. pv_fill pv = Some f \<longrightarrow> pt_fee e = fl_fee f \<and> pt_slippage_cost e = fl_slippage_cost f \<and>
        fl_notional f = fmul (fl_quantity f) (fl_exec_price f)) \<and>
     (pv_filled pv \<longrightarrow> pv_fill pv \<noteq> None)"

lemma mirror_buy_portfolio:
  assumes "apply_buy p f = (p', Inr u)" "fl_notional f = fmul (fl_quantity f) (fl_exec_price f)"
  shows "mirror_buy (mirror_of p) (fl_exec_price f) (fl_quantity f) (fl_fee f) (fl_slippage_cost f) = Inr (mirror_of p')"
  using assms
  by (auto simp: apply_buy_def mirror_buy_def mirror_of_def Let_def bindE_eq_Inr split: if_splits sum.splits)

lemma mirror_sell_portfolio:
  assumes "fl_notional f = fmul (fl_quantity f) (fl_exec_price f)"
  shows "mirror_sell (mirror_of p) (fl_exec_price f) (fl_quantity f) (fl_fee f) (fl_slippage_cost f) = mirror_of (apply_sell p f)"
  by (simp add: apply_sell_def sell_trade_def mirror_sell_def mirror_of_def Let_def assms)

interpretation book_mirror: mirrored_machine book_move mirror_event mirror_of records
proof unfold_locales
  fix p pv p' e assume a: "book_move p pv = Inr p'" "records pv e"
  show "mirror_event (mirror_of p) e = Inr (mirror_of p')"
  proof (cases "pv_filled pv")
    case True
    then obtain f where f: "pv_fill pv = Some f" using a(2) by (auto simp: records_def)
    then have e: "pt_filled e" "pt_exec_price e = Some (fl_exec_price f)" "pt_quantity e = Some (fl_quantity f)"
      "pt_fee e = fl_fee f" "pt_slippage_cost e = fl_slippage_cost f" "pt_action e = action_name (pv_action pv)"
      "fl_notional f = fmul (fl_quantity f) (fl_exec_price f)"
      using a(2) True by (auto simp: records_def)
    show ?thesis
    proof (cases "pv_action pv")
      case BUY
      then obtain u where "apply_buy p f = (p', Inr u)"
        using a(1) True f by (auto simp: book_move_def split: prod.splits sum.splits)
      from mirror_buy_portfolio[OF this e(7)] show ?thesis using e BUY by (simp add: mirror_event_def)
    next
      case SELL
      then show ?thesis using a(1) True f e mirror_sell_portfolio[OF e(7)]
        by (auto simp: book_move_def mirror_event_def)
    next
      case HOLD
      then show ?thesis using a(1) True f e by (auto simp: book_move_def mirror_event_def)
    qed
  next
    case False
    then show ?thesis using a by (auto simp: book_move_def mirror_event_def records_def)
  qed
qed

section \<open>The engine books what its events say\<close>

definition lawful :: "paper_event \<Rightarrow> bool" where
  "lawful pv \<longleftrightarrow>
     (\<forall>f. pv_fill pv = Some f \<longrightarrow> fl_notional f = fmul (fl_quantity f) (fl_exec_price f)) \<and>
     (pv_filled pv \<longrightarrow> pv_fill pv \<noteq> None)"

lemma close_books:
  "close_position e pos price ts reason = (e', pv) \<Longrightarrow> book_move (pe_portfolio e) pv = Inr (pe_portfolio e') \<and> lawful pv"
  by (auto simp: close_position_def make_fill_def book_move_def lawful_def event_def Let_def)

lemma open_books:
  assumes "open_position e q price stop target ts = (e', Inr pv)"
  shows "book_move (pe_portfolio e) pv = Inr (pe_portfolio e') \<and> lawful pv"
proof -
  obtain f p u where f: "entry_fill e q price ts = Inr f" "apply_buy (pe_portfolio e) f = (p, Inr u)"
    "pv = (event True BUY)\<lparr>pv_fill := Some f\<rparr>" "pe_portfolio e' = p"
    using assms by (auto simp: open_position_def Let_def split: sum.splits prod.splits)
  moreover have "fl_notional f = fmul (fl_quantity f) (fl_exec_price f)"
    using f(1) by (auto simp: entry_fill_def Let_def bindE_eq_Inr)
  ultimately show ?thesis by (simp add: book_move_def lawful_def event_def)
qed

lemma decide_books:
  assumes "decide e d price a ts = (e', Inr pv)"
  shows "book_move (pe_portfolio e) pv = Inr (pe_portfolio e') \<and> (pv_filled pv \<longrightarrow> lawful pv)"
  using assms
proof (cases rule: decide_cases)
  case (idle ev)
  then show ?thesis by (simp add: book_move_def)
next
  case (closed pos)
  then show ?thesis
    using close_books[of "fst (mark_to_market e price)" pos price ts "''llm_sell''" e' pv] by (simp add: prod_eq_iff)
next
  case (opened sz stop target)
  then show ?thesis using open_books[OF opened(4)[symmetric]] by simp
qed

lemma exits_book:
  "check_exits e price ts = (e', Some pv) \<Longrightarrow> book_move (pe_portfolio e) pv = Inr (pe_portfolio e') \<and> lawful pv"
  by (auto simp: check_exits_def Let_def split: option.splits if_splits prod.splits dest!: close_books)

lemma decide_unfilled: "decide e d price a ts = (e', Inr pv) \<Longrightarrow> \<not> pv_filled pv \<Longrightarrow> pv_fill pv = None"
  by (auto simp: decide_def Let_def event_def open_position_def close_position_def
      split: if_splits action.splits option.splits sum.splits prod.splits)

lemma on_price_books:
  assumes "on_price day_key e d price a ts = (e', Inr pv)"
  shows "book_move (pe_portfolio e) pv = Inr (pe_portfolio e') \<and> lawful pv"
proof -
  have pf: "pe_portfolio (tick_state day_key e price a ts) = pe_portfolio e"
    by (auto simp: tick_state_def roll_day_def Let_def split: option.split)
  have p: "process_price day_key e d price a ts = (e', Inr pv)"
    using assms by (auto simp: on_price_def split: option.splits if_splits)
  obtain e2 x where c: "check_exits (tick_state day_key e price a ts) price ts = (e2, x)" by fastforce
  show ?thesis
  proof (cases x)
    case (Some ev)
    then show ?thesis using exits_book[of "tick_state day_key e price a ts" price ts e2 ev] c p pf by (simp add: process_price_split)
  next
    case None
    then have d: "decide e2 d price a ts = (e', Inr pv)" using c p by (simp add: process_price_split)
    have "lawful pv" using decide_books[OF d] decide_unfilled[OF d] by (auto simp: lawful_def)
    then show ?thesis using decide_books[OF d] check_exits_none_fields(1)[OF c[unfolded None]] pf by simp
  qed
qed

lemma execute_books:
  assumes "execute_signal env r symbol tf c regime sig v = (r', Inr ev)"
  shows "\<exists>pv. book_move (pe_portfolio (rn_engine r)) pv = Inr (pe_portfolio (rn_engine r')) \<and> records pv ev \<and>
    pt_equity ev = equity (pe_portfolio (rn_engine r')) (c_close c) \<and>
    (\<forall>t. pe_last_ts (rn_engine r) = Some t \<longrightarrow> t \<le> timestamp_ms c) \<and> pe_last_ts (rn_engine r') = Some (timestamp_ms c)"
proof -
  obtain e pv where o: "on_price (en_day_key env) (rn_engine r) (baseline_decision (timestamp_ms c) sig)
      (c_close c) v (timestamp_ms c) = (e, Inr pv)"
    using assms by (auto simp: execute_signal_def split: sum.splits prod.splits)
  obtain e1 q where m: "mark_to_market e (c_close c) = (e1, q)" by fastforce
  then have mf: "q = equity (pe_portfolio e) (c_close c)" "pe_portfolio e1 = pe_portfolio e" "frame e1 = frame e"
    using mark_fields[of e "c_close c"] frame_mark(1)[of e "c_close c"] by simp_all
  have r': "r' = r\<lparr>rn_engine := e1\<rparr>"
    "ev = trade_event (r\<lparr>rn_engine := e1\<rparr>) symbol tf c pv q (context_of (rn_strategy r) sig v regime)"
    using assms o m by (auto simp: execute_signal_def Let_def)
  have b: "book_move (pe_portfolio (rn_engine r)) pv = Inr (pe_portfolio e)" "lawful pv"
    using on_price_books[OF o] by auto
  have t: "\<forall>t. pe_last_ts (rn_engine r) = Some t \<longrightarrow> t \<le> timestamp_ms c"
    using o by (auto simp: on_price_def split: if_splits option.splits)
  have p: "process_price (en_day_key env) (rn_engine r) (baseline_decision (timestamp_ms c) sig)
      (c_close c) v (timestamp_ms c) = (e, Inr pv)"
    using o by (auto simp: on_price_def split: option.splits if_splits)
  have "pe_last_ts e = Some (timestamp_ms c)"
    using process_frame[of "en_day_key env" "rn_engine r" "baseline_decision (timestamp_ms c) sig" "c_close c" v "timestamp_ms c"] p
    by (simp add: frame_def)
  then have "pe_last_ts e1 = Some (timestamp_ms c)" using frame_fields[OF mf(3)] by simp
  then show ?thesis using b t r' mf by (intro exI[of _ pv]) (auto simp: trade_event_def records_def lawful_def)
qed

lemma process_books:
  assumes "process env r symbol tf c = (r', Inr ev)"
  shows "\<exists>pv. book_move (pe_portfolio (rn_engine r)) pv = Inr (pe_portfolio (rn_engine r')) \<and> records pv ev \<and>
    pt_equity ev = equity (pe_portfolio (rn_engine r')) (c_close c) \<and> pt_timestamp_ms ev = timestamp_ms c \<and>
    (\<forall>t. pe_last_ts (rn_engine r) = Some t \<longrightarrow> t \<le> timestamp_ms c) \<and> pe_last_ts (rn_engine r') = Some (timestamp_ms c)"
proof -
  obtain s regime sig v where "execute_signal env s symbol tf c regime sig v = (r', Inr ev)" "rn_engine s = rn_engine r"
    using assms by (auto simp: process_def Let_def split: sum.splits option.splits prod.splits)
  with execute_books[OF this(1)] process_event(4)[OF assms] show ?thesis by simp
qed

definition process_one :: "runner_env \<Rightarrow> paper_runner \<Rightarrow> string \<times> string \<times> candle \<Rightarrow> paper_runner \<times> paper_trade_event result" where
  "process_one env r k = (case k of (symbol, tf, c) \<Rightarrow> process env r symbol tf c)"

lemma process_one_simp [simp]: "process_one env r (symbol, tf, c) = process env r symbol tf c"
  by (simp add: process_one_def)

lemma run_books:
  "run_tracker (process_one env) r ks = (r', Inr evs) \<Longrightarrow>
   \<exists>pvs. foldE book_move (pe_portfolio (rn_engine r)) pvs = Inr (pe_portfolio (rn_engine r')) \<and>
     list_all2 records pvs evs \<and> map pt_timestamp_ms evs = map (\<lambda>(s, t, c). timestamp_ms c) ks \<and>
     sorted (map pt_timestamp_ms evs) \<and>
     (\<forall>t. pe_last_ts (rn_engine r) = Some t \<longrightarrow> (\<forall>e \<in> set evs. t \<le> pt_timestamp_ms e)) \<and>
     (evs \<noteq> [] \<longrightarrow> pt_equity (last evs) = equity (pe_portfolio (rn_engine r')) (c_close (snd (snd (last ks)))))"
proof (induction ks arbitrary: r evs)
  case Nil
  then show ?case by auto
next
  case (Cons k ks)
  obtain symbol tf c where k: "k = (symbol, tf, c)" by (cases k)
  obtain r1 ev evs1 where h: "process env r symbol tf c = (r1, Inr ev)"
    "run_tracker (process_one env) r1 ks = (r', Inr evs1)" "evs = ev # evs1"
    using Cons.prems k by (auto split: prod.splits sum.splits)
  obtain pv where pv: "book_move (pe_portfolio (rn_engine r)) pv = Inr (pe_portfolio (rn_engine r1))" "records pv ev"
    "pt_equity ev = equity (pe_portfolio (rn_engine r1)) (c_close c)" "pt_timestamp_ms ev = timestamp_ms c"
    "\<forall>t. pe_last_ts (rn_engine r) = Some t \<longrightarrow> t \<le> timestamp_ms c" "pe_last_ts (rn_engine r1) = Some (timestamp_ms c)"
    using process_books[OF h(1)] by blast
  obtain pvs where ih: "foldE book_move (pe_portfolio (rn_engine r1)) pvs = Inr (pe_portfolio (rn_engine r'))"
    "list_all2 records pvs evs1" "map pt_timestamp_ms evs1 = map (\<lambda>(s, t, c). timestamp_ms c) ks"
    "sorted (map pt_timestamp_ms evs1)" "\<forall>e \<in> set evs1. timestamp_ms c \<le> pt_timestamp_ms e"
    "evs1 \<noteq> [] \<longrightarrow> pt_equity (last evs1) = equity (pe_portfolio (rn_engine r')) (c_close (snd (snd (last ks))))"
    using Cons.IH[OF h(2)] pv(6) by blast
  have l: "length evs1 = length ks" using ih(3) by (metis length_map)
  have "r' = r1" if "evs1 = []" using that h(2) l by simp
  then have last: "pt_equity (last evs) = equity (pe_portfolio (rn_engine r')) (c_close (snd (snd (last (k # ks)))))"
    using ih(6) pv(3) h(3) k l by (cases "evs1 = []") auto
  show ?case
  proof (intro exI[of _ "pv # pvs"] conjI)
    show "foldE book_move (pe_portfolio (rn_engine r)) (pv # pvs) = Inr (pe_portfolio (rn_engine r'))"
      using pv(1) ih(1) by simp
    show "list_all2 records (pv # pvs) evs" using pv(2) ih(2) h(3) by simp
    show "map pt_timestamp_ms evs = map (\<lambda>(s, t, c). timestamp_ms c) (k # ks)" using pv(4) ih(3) h(3) k by simp
    show "sorted (map pt_timestamp_ms evs)" using pv(4) ih(4,5) h(3) by simp
    show "\<forall>t. pe_last_ts (rn_engine r) = Some t \<longrightarrow> (\<forall>e \<in> set evs. t \<le> pt_timestamp_ms e)"
      using pv(4,5) ih(5) h(3) by (auto intro: order_trans)
    show "evs \<noteq> [] \<longrightarrow> pt_equity (last evs) = equity (pe_portfolio (rn_engine r')) (c_close (snd (snd (last (k # ks)))))"
      using last by blast
  qed
qed

section \<open>The residual of an untouched session is zero\<close>

definition cash_float :: "portfolio \<Rightarrow> bool" where
  "cash_float p \<longleftrightarrow> float_value (pf_cash p)"

lemma book_move_float: "book_move p pv = Inr p' \<Longrightarrow> cash_float p \<Longrightarrow> cash_float p'"
  by (auto simp: book_move_def cash_float_def apply_buy_def apply_sell_def Let_def bindE_eq_Inr
      split: option.splits action.splits bool.splits prod.splits sum.splits if_splits)

lemma equity_marked:
  assumes "cash_float p" "is_Fin price"
  shows "marked_equity (mirror_of p) (Some price) = Inr (equity p price)"
proof (cases "feq (pf_position p) (Fin 0)")
  case True
  then have "pf_position p = Fin 0" by (cases "pf_position p") (auto simp: feq_def)
  moreover have "fadd (pf_cash p) (Fin 0) = pf_cash p"
    using assms(1) by (cases "pf_cash p") (auto simp: cash_float_def representable_def)
  ultimately show ?thesis using assms(2) True by (cases price) (auto simp: marked_equity_def mirror_of_def equity_def)
qed (simp add: marked_equity_def mirror_of_def equity_def)

definition ledger_of :: "portfolio \<Rightarrow> pyfloat \<Rightarrow> ledger" where
  "ledger_of p price =
     \<lparr>ld_cash = dec_of (pf_cash p), ld_position_qty = dec_of (pf_position p),
      ld_average_entry = (case pf_avg_entry p of None \<Rightarrow> Dec 0 | Some a \<Rightarrow> dec_of a),
      ld_realized_pnl = dec_of (pf_realized_pnl p), ld_fees = dec_of (pf_total_fees p),
      ld_equity = dec_of (equity p price)\<rparr>"

lemma mirror_new: "mirror_of (new_portfolio cash cash) = mirror_start cash"
  by (simp add: mirror_of_def new_portfolio_def mirror_start_def)

text \<open>
  C8 The reconciliation reproduces the live book: from the events a fresh runner returned
  for any candles, \<open>reconcile_accounting\<close> rebuilds exactly the engine's cash, position,
  average entry, realized result and fees, and its equity marked at the last close is the
  equity of the last event, bit for bit, so the residual is zero.
\<close>

theorem reconciliation_matches_live_book:
  assumes "pe_portfolio (rn_engine r) = new_portfolio cash cash" "float_value cash"
    and "run_tracker (process_one env) r ks = (r', Inr evs)" "evs \<noteq> []"
    and "mark = c_close (snd (snd (last ks)))" "is_Fin mark" "is_Fin (pt_equity (last evs))"
  shows "reconcile_accounting evs cash (Some mark) = Inr (ledger_of (pe_portfolio (rn_engine r')) mark) \<and>
    residual (pt_equity (last evs)) (ledger_of (pe_portfolio (rn_engine r')) mark) = Inr (Dec 0)"
proof -
  let ?p = "pe_portfolio (rn_engine r')"
  obtain pvs where b: "foldE book_move (new_portfolio cash cash) pvs = Inr ?p" "list_all2 records pvs evs"
    "sorted (map pt_timestamp_ms evs)" "pt_equity (last evs) = equity ?p mark"
    using run_books[OF assms(3)] assms(1,4,5) by auto
  have "cash_float ?p"
    by (rule foldE_invariant[OF b(1), where P = cash_float])
       (use assms(2) in \<open>auto simp: cash_float_def new_portfolio_def dest: book_move_float[unfolded cash_float_def]\<close>)
  moreover have "advance (mirror_start cash) evs = Inr (mirror_of ?p)"
    unfolding advance_def mirror_new[symmetric] by (rule book_mirror.mirror_run[OF b(1,2)])
  moreover have "in_order evs = evs" unfolding in_order_def using b(3) by (rule sort_key_id_if_sorted)
  ultimately have "reconcile_accounting evs cash (Some mark) = Inr (ledger_of ?p mark)"
    using equity_marked[of ?p mark] assms(6)
    by (simp add: reconcile_accounting_def ledger_from_state_def ledger_of_def) (simp add: mirror_of_def)
  moreover have "dec_sub (dec_of x) (dec_of x) = Inr (Dec 0)" if "is_Fin x" for x
    using that by (cases x) auto
  ultimately show ?thesis using b(4) assms(7) by (simp add: residual_def ledger_of_def)
qed

section \<open>When the three-way reconciliation passes\<close>

definition agree :: "decimal \<Rightarrow> decimal \<Rightarrow> bool" where
  "agree a b \<longleftrightarrow> a = b \<and> (\<exists>q. a = Dec q)"

lemma compare_dec_cases:
  assumes "compare_dec name a b (ns, ds) = Inr (ns', ds')"
  shows "ns' = [] \<longleftrightarrow> ns = [] \<and> agree a b"
  using assms dec_delta_zero[of a b] by (auto simp: compare_dec_def bindE_eq_Inr Let_def agree_def split: if_splits)

definition open_both :: "ledger \<Rightarrow> ledger \<Rightarrow> bool" where
  "open_both a b \<longleftrightarrow>
     dec_less (Dec 0) (ld_position_qty a) = Inr True \<and> dec_less (Dec 0) (ld_position_qty b) = Inr True"

lemma compare_average_cases:
  assumes "compare_average a b (ns, ds) = Inr (ns', ds')"
  shows "ns' = [] \<longleftrightarrow> ns = [] \<and> (open_both a b \<longrightarrow> agree (ld_average_entry a) (ld_average_entry b))"
  using assms by (auto simp: compare_average_def open_both_def bindE_eq_Inr split: if_splits dest: compare_dec_cases)

definition ledgers_agree :: "ledger \<Rightarrow> ledger \<Rightarrow> bool" where
  "ledgers_agree a b \<longleftrightarrow>
     agree (ld_cash a) (ld_cash b) \<and> agree (ld_position_qty a) (ld_position_qty b) \<and>
     (open_both a b \<longrightarrow> agree (ld_average_entry a) (ld_average_entry b)) \<and>
     agree (ld_realized_pnl a) (ld_realized_pnl b) \<and> agree (ld_fees a) (ld_fees b) \<and>
     agree (ld_equity a) (ld_equity b)"

lemma compare_ledgers_cases:
  assumes "compare_ledgers a b = Inr (ns, ds)"
  shows "ns = [] \<longleftrightarrow> ledgers_agree a b"
proof -
  obtain n1 d1 n2 d2 n3 d3 n4 d4 n5 d5 where c:
    "compare_dec ''cash'' (ld_cash a) (ld_cash b) ([], []) = Inr (n1, d1)"
    "compare_dec ''position_qty'' (ld_position_qty a) (ld_position_qty b) (n1, d1) = Inr (n2, d2)"
    "compare_average a b (n2, d2) = Inr (n3, d3)"
    "compare_dec ''realized_pnl'' (ld_realized_pnl a) (ld_realized_pnl b) (n3, d3) = Inr (n4, d4)"
    "compare_dec ''fees'' (ld_fees a) (ld_fees b) (n4, d4) = Inr (n5, d5)"
    "compare_dec ''equity'' (ld_equity a) (ld_equity b) (n5, d5) = Inr (ns, ds)"
    using assms by (auto simp: compare_ledgers_def bindE_eq_Inr)
  show ?thesis
    using compare_dec_cases[OF c(1)] compare_dec_cases[OF c(2)] compare_average_cases[OF c(3)]
      compare_dec_cases[OF c(4)] compare_dec_cases[OF c(5)] compare_dec_cases[OF c(6)]
    by (simp add: ledgers_agree_def)
qed

lemma verdict_status: "verdict l b md = Inr r \<Longrightarrow> rr_status r = ''PASS'' \<longleftrightarrow> fst md = []"
  by (auto simp: verdict_def bindE_eq_Inr split: if_splits)

lemma checkpoint_passes_iff:
  assumes "against_checkpoint ordered full book mark b cursor = Inr r"
    and "advance (resume b) (filter (\<lambda>e. cursor < pt_timestamp_ms e) ordered) = Inr mi"
    and "ledger_from_state mi mark = Inr inc"
  shows "rr_status r = ''PASS'' \<longleftrightarrow> ledgers_agree full inc \<and>
    (ordered \<noteq> [] \<longrightarrow> agree (ld_equity full) (dec_of (pt_equity (last ordered))))"
proof -
  obtain s s' where s: "compare_ledgers full inc = Inr s"
    "(if ordered = [] then Inr s else compare_dec ''equity'' (ld_equity full) (dec_of (pt_equity (last ordered))) s) = Inr s'"
    "verdict full book s' = Inr r"
    using assms by (auto simp: against_checkpoint_def bindE_eq_Inr)
  obtain ns ds ns' ds' where n: "s = (ns, ds)" "s' = (ns', ds')" by fastforce
  have "ns' = [] \<longleftrightarrow> ns = [] \<and> (ordered \<noteq> [] \<longrightarrow> agree (ld_equity full) (dec_of (pt_equity (last ordered))))"
    using s(2) n by (auto split: if_splits dest: compare_dec_cases)
  then show ?thesis using verdict_status[OF s(3)] compare_ledgers_cases s(1) n by auto
qed

section \<open>Resuming from a checkpoint loses nothing\<close>

definition same_book :: "mirror \<Rightarrow> mirror \<Rightarrow> bool" where
  \<comment> \<open>equal but for the slippage totals, and for the entry price of a flat book\<close>
  "same_book m n \<longleftrightarrow>
     mi_cash m = mi_cash n \<and> mi_position m = mi_position n \<and> mi_entry_fees m = mi_entry_fees n \<and>
     mi_realized_pnl m = mi_realized_pnl n \<and> mi_total_fees m = mi_total_fees n \<and>
     (feq (mi_position m) (Fin 0) \<or> float_or_zero (mi_avg_entry m) = float_or_zero (mi_avg_entry n))"

lemma feq_zero_fle: "feq x (Fin 0) \<Longrightarrow> fle x (Fin 0)"
  by (simp add: feq_fle)

lemma mirror_event_same:
  assumes "same_book m n" "mirror_event m e = Inr m'"
  shows "\<exists>n'. mirror_event n e = Inr n' \<and> same_book m' n'"
proof -
  have buy: "\<exists>n'. mirror_buy n p q f s = Inr n' \<and> same_book m' n'" if "mirror_buy m p q f s = Inr m'" for p q f s
    using that assms(1)
    by (cases "feq (mi_position m) (Fin 0)") (auto simp: mirror_buy_def same_book_def Let_def bindE_eq_Inr float_or_zero_def split: if_splits)
  have sell: "same_book (mirror_sell m p q f s) (mirror_sell n p q f s)" for p q f s
  proof (cases "fle q (Fin 0) \<or> fle (mi_position m) (Fin 0)")
    case False
    then have "float_or_zero (mi_avg_entry m) = float_or_zero (mi_avg_entry n)"
      using assms(1) by (auto simp: same_book_def dest: feq_zero_fle)
    then show ?thesis using assms(1) False by (simp add: mirror_sell_def same_book_def Let_def)
  qed (use assms(1) in \<open>auto simp: mirror_sell_def same_book_def\<close>)
  show ?thesis using assms buy sell
    by (auto simp: mirror_event_def split: bool.splits option.splits if_splits)
qed

lemma advance_same:
  "same_book m n \<Longrightarrow> advance m es = Inr m' \<Longrightarrow> \<exists>n'. advance n es = Inr n' \<and> same_book m' n'"
proof (induction es arbitrary: m n)
  case (Cons e es)
  then obtain m1 where "mirror_event m e = Inr m1" "advance m1 es = Inr m'"
    by (auto simp: advance_def bindE_eq_Inr)
  moreover from mirror_event_same[OF Cons.prems(1) this(1)] obtain n1 where
    "mirror_event n e = Inr n1" "same_book m1 n1" by blast
  ultimately show ?case using Cons.IH by (fastforce simp: advance_def)
qed (simp add: advance_def)

definition mirror_floats :: "mirror \<Rightarrow> bool" where
  "mirror_floats m \<longleftrightarrow>
     float_value (mi_cash m) \<and> float_value (mi_position m) \<and> pred_option float_value (mi_avg_entry m) \<and>
     float_value (mi_entry_fees m) \<and> float_value (mi_realized_pnl m) \<and> float_value (mi_total_fees m)"

lemma float_value_pdiv: "pdiv a b = Inr c \<Longrightarrow> float_value c"
  by (auto simp: pdiv_Inr)

lemma float_zero [simp]: "float_value (Fin 0)"
  by (simp add: representable_def)

lemma mirror_event_floats:
  assumes "mirror_event m e = Inr m'" "mirror_floats m" "pred_option float_value (pt_exec_price e)"
  shows "mirror_floats m'"
proof -
  have "mirror_floats m'" if "mirror_buy m p q f s = Inr m'" "float_value p" for p q f s
    using that assms(2)
    by (auto simp: mirror_buy_def mirror_floats_def Let_def bindE_eq_Inr float_value_pdiv split: if_splits)
  moreover have "mirror_floats (mirror_sell m p q f s)" for p q f s
    using assms(2) by (simp add: mirror_sell_def mirror_floats_def Let_def)
  ultimately show ?thesis using assms
    by (auto simp: mirror_event_def split: bool.splits option.splits if_splits)
qed

lemma dec_zero_iff: "float_value x \<Longrightarrow> dec_is_zero (dec_of x) \<longleftrightarrow> x = Fin 0"
proof -
  assume "float_value x"
  then have "dec_of x = dec_of (Fin 0) \<longleftrightarrow> x = Fin 0" by (simp add: dec_of_inj del: dec_of.simps)
  moreover have "dec_is_zero d \<longleftrightarrow> d = Dec 0" for d by (cases d) auto
  ultimately show ?thesis by simp
qed

lemma resume_same:
  assumes "mirror_floats m" "ledger_from_state m mark = Inr l"
  shows "same_book m (resume (book_from_ledger l (mi_entry_fees m) t))"
proof -
  have l: "ld_cash l = dec_of (mi_cash m)" "ld_position_qty l = dec_of (mi_position m)"
    "ld_average_entry l = (case mi_avg_entry m of None \<Rightarrow> Dec 0 | Some a \<Rightarrow> dec_of a)"
    "ld_realized_pnl l = dec_of (mi_realized_pnl m)" "ld_fees l = dec_of (mi_total_fees m)"
    using assms(2) by (auto simp: ledger_from_state_def bindE_eq_Inr)
  show ?thesis using assms(1)
    by (auto simp: same_book_def resume_def book_from_ledger_def l dec_roundtrip dec_zero_iff mirror_floats_def
        float_or_zero_def split: option.split)
qed

lemma book_roundtrip: "book_from_dict parse (book_to_dict b) = Some b"
  by (cases "bk_average_entry b"; cases "bk_last_event_ms b")
     (simp_all add: book_from_dict_def book_to_dict_def ESSENTIAL_def raw_get_def opt_decimal_def get_or_def)

lemma advance_floats:
  "advance m es = Inr m' \<Longrightarrow> mirror_floats m \<Longrightarrow> list_all (\<lambda>e. pred_option float_value (pt_exec_price e)) es \<Longrightarrow>
   mirror_floats m'"
  unfolding advance_def
  by (rule foldE_invariant[where P = mirror_floats]) (auto intro: mirror_event_floats simp: list_all_iff)

lemma insort_before:
  "\<forall>b \<in> set ys. f x < (f b :: int) \<Longrightarrow> insort_key f x (as @ ys) = insort_key f x as @ ys"
  by (induction as) (auto simp: insort_is_Cons less_imp_le)

lemma in_order_append:
  assumes "\<forall>a \<in> set xs. \<forall>b \<in> set ys. pt_timestamp_ms a < pt_timestamp_ms b"
  shows "in_order (xs @ ys) = in_order xs @ in_order ys"
  unfolding in_order_def using assms by (induction xs) (simp_all add: insort_before)

lemma in_order_last: "a \<in> set xs \<Longrightarrow> pt_timestamp_ms a \<le> pt_timestamp_ms (last (in_order xs))"
proof -
  assume "a \<in> set xs"
  then have "a \<in> set (in_order xs)" by (simp add: in_order_def)
  moreover have "sorted (map pt_timestamp_ms (in_order xs))" by (simp add: in_order_def)
  ultimately show ?thesis
    by (induction "in_order xs" rule: rev_induct) (auto simp: sorted_append dest!: sym[of "_ @ _"])
qed

section \<open>Finite books compare without an exception\<close>

definition ledger_finite :: "ledger \<Rightarrow> bool" where
  "ledger_finite l \<longleftrightarrow>
     is_Dec (ld_cash l) \<and> is_Dec (ld_position_qty l) \<and> is_Dec (ld_realized_pnl l) \<and>
     is_Dec (ld_fees l) \<and> is_Dec (ld_equity l) \<and>
     (dec_less (Dec 0) (ld_position_qty l) = Inr True \<longrightarrow> is_Dec (ld_average_entry l))"

definition cmp_ok :: "comparison \<Rightarrow> bool" where
  "cmp_ok md \<longleftrightarrow> list_all is_Dec (snd md) \<and> (fst md \<noteq> [] \<longrightarrow> snd md \<noteq> [])"

lemma compare_dec_total:
  assumes "is_Dec a" "is_Dec b" "cmp_ok md"
  shows "\<exists>md'. compare_dec name a b md = Inr md' \<and> cmp_ok md'"
  using assms by (cases a; cases b) (auto simp: compare_dec_def cmp_ok_def)

lemma compare_average_total:
  assumes "ledger_finite a" "ledger_finite b" "cmp_ok md"
  shows "\<exists>md'. compare_average a b md = Inr md' \<and> cmp_ok md'"
proof -
  obtain p q where q: "ld_position_qty a = Dec p" "ld_position_qty b = Dec q"
    using assms(1,2) by (cases "ld_position_qty a"; cases "ld_position_qty b") (auto simp: ledger_finite_def)
  show ?thesis
  proof (cases "0 < p \<and> 0 < q")
    case True
    then have "is_Dec (ld_average_entry a)" "is_Dec (ld_average_entry b)"
      using assms(1,2) q by (auto simp: ledger_finite_def)
    from compare_dec_total[OF this assms(3)] show ?thesis using True q by (simp add: compare_average_def)
  qed (use q assms(3) in \<open>cases md; auto simp: compare_average_def\<close>)
qed

lemma compare_ledgers_total:
  assumes "ledger_finite a" "ledger_finite b"
  shows "\<exists>md. compare_ledgers a b = Inr md \<and> cmp_ok md"
proof -
  have s0: "cmp_ok ([], [])" by (simp add: cmp_ok_def)
  have f: "is_Dec (ld_cash a)" "is_Dec (ld_position_qty a)" "is_Dec (ld_realized_pnl a)" "is_Dec (ld_fees a)"
      "is_Dec (ld_equity a)" "is_Dec (ld_cash b)" "is_Dec (ld_position_qty b)" "is_Dec (ld_realized_pnl b)"
      "is_Dec (ld_fees b)" "is_Dec (ld_equity b)"
    using assms by (simp_all add: ledger_finite_def)
  from compare_dec_total[OF f(1,6) s0, of "''cash''"] obtain s1 where
    s1: "compare_dec ''cash'' (ld_cash a) (ld_cash b) ([], []) = Inr s1" "cmp_ok s1" by blast
  from compare_dec_total[OF f(2,7) s1(2), of "''position_qty''"] obtain s2 where
    s2: "compare_dec ''position_qty'' (ld_position_qty a) (ld_position_qty b) s1 = Inr s2" "cmp_ok s2" by blast
  from compare_average_total[OF assms s2(2)] obtain s3 where s3: "compare_average a b s2 = Inr s3" "cmp_ok s3" by blast
  from compare_dec_total[OF f(3,8) s3(2), of "''realized_pnl''"] obtain s4 where
    s4: "compare_dec ''realized_pnl'' (ld_realized_pnl a) (ld_realized_pnl b) s3 = Inr s4" "cmp_ok s4" by blast
  from compare_dec_total[OF f(4,9) s4(2), of "''fees''"] obtain s5 where
    s5: "compare_dec ''fees'' (ld_fees a) (ld_fees b) s4 = Inr s5" "cmp_ok s5" by blast
  from compare_dec_total[OF f(5,10) s5(2), of "''equity''"] show ?thesis
    by (simp add: compare_ledgers_def s1(1) s2(1) s3(1) s4(1) s5(1))
qed

lemma dec_max_total: "is_Dec d \<Longrightarrow> list_all is_Dec ds \<Longrightarrow> \<exists>m. dec_max d ds = Inr m"
proof (induction ds arbitrary: d)
  case (Cons x ds)
  then obtain p q where "d = Dec p" "x = Dec q" by (cases d; cases x) auto
  then show ?case using Cons by simp
qed simp

lemma verdict_total: "cmp_ok md \<Longrightarrow> \<exists>r. verdict l b md = Inr r \<and> rr_ledger r = l"
proof (cases "fst md")
  case (Cons n ns)
  assume "cmp_ok md"
  then have "is_Dec (hd (snd md))" "list_all is_Dec (tl (snd md))"
    using Cons by (cases "snd md"; simp add: cmp_ok_def)+
  from dec_max_total[OF this] show ?thesis using Cons by (auto simp: verdict_def)
qed (simp add: verdict_def)

lemma verdict_book: "verdict l b md = Inr r \<Longrightarrow> rr_book r = b"
  by (auto simp: verdict_def bindE_eq_Inr split: if_splits)

lemma against_checkpoint_book: "against_checkpoint evs full book mark b cursor = Inr r \<Longrightarrow> rr_book r = book"
  unfolding against_checkpoint_def bindE_eq_Inr by (blast dest: verdict_book)

lemma reconcile_book:
  assumes "reconcile_with_book parse evs initial mark previous = Inr r" "in_order evs \<noteq> []"
  shows "\<exists>m l. advance (mirror_start initial) (in_order evs) = Inr m \<and> ledger_from_state m mark = Inr l \<and>
    rr_book r = book_from_ledger l (mi_entry_fees m) (Some (pt_timestamp_ms (last (in_order evs))))"
proof -
  obtain m l where m: "advance (mirror_start initial) (in_order evs) = Inr m" "ledger_from_state m mark = Inr l"
    using assms(1) unfolding reconcile_with_book_def Let_def bindE_eq_Inr by blast
  have "rr_book r = book_from_ledger l (mi_entry_fees m) (Some (pt_timestamp_ms (last (in_order evs))))"
    using assms m by (simp add: reconcile_with_book_def Let_def split: option.splits)
      (blast dest: verdict_book against_checkpoint_book)+
  then show ?thesis using m by blast
qed

lemma ledger_average:
  "ledger_from_state m mark = Inr l \<Longrightarrow> ld_average_entry l = dec_of (float_or_zero (mi_avg_entry m))"
  by (auto simp: ledger_from_state_def bindE_eq_Inr float_or_zero_def split: option.split)

lemma same_ledger:
  assumes "same_book m n" "ledger_from_state m mark = Inr full" "ledger_finite full"
  shows "\<exists>inc. ledger_from_state n mark = Inr inc \<and> ledgers_agree full inc \<and> ledger_finite inc"
proof -
  have s: "mi_cash n = mi_cash m" "mi_position n = mi_position m" "mi_realized_pnl n = mi_realized_pnl m"
    "mi_total_fees n = mi_total_fees m"
    "feq (mi_position m) (Fin 0) \<or> float_or_zero (mi_avg_entry n) = float_or_zero (mi_avg_entry m)"
    using assms(1) by (auto simp: same_book_def)
  obtain eq where e: "marked_equity m mark = Inr eq" using assms(2) by (auto simp: ledger_from_state_def bindE_eq_Inr)
  then have "marked_equity n mark = Inr eq" unfolding marked_equity_def s(1,2) .
  then obtain inc where inc: "ledger_from_state n mark = Inr inc" by (simp add: ledger_from_state_def)
  have same: "ld_cash inc = ld_cash full" "ld_position_qty inc = ld_position_qty full"
    "ld_realized_pnl inc = ld_realized_pnl full" "ld_fees inc = ld_fees full" "ld_equity inc = ld_equity full"
    "ld_position_qty full = dec_of (mi_position m)"
    using inc assms(2) \<open>marked_equity n mark = Inr eq\<close> e s by (auto simp: ledger_from_state_def)
  have avg: "ld_average_entry inc = ld_average_entry full" if "dec_less (Dec 0) (ld_position_qty full) = Inr True"
  proof -
    have "\<not> feq (mi_position m) (Fin 0)" using that same(6) by (auto simp: feq_def)
    then show ?thesis using s(5) ledger_average[OF inc] ledger_average[OF assms(2)] by simp
  qed
  have "agree x x" if "is_Dec x" for x using that by (cases x) (auto simp: agree_def)
  then show ?thesis using inc same(1-5) avg assms(3) by (auto simp: ledgers_agree_def ledger_finite_def open_both_def)
qed

lemma later_events:
  assumes "in_order old \<noteq> []" "\<forall>a \<in> set old. \<forall>b \<in> set new. pt_timestamp_ms a < pt_timestamp_ms b"
  shows "filter (\<lambda>e. pt_timestamp_ms (last (in_order old)) < pt_timestamp_ms e) (in_order (old @ new)) = in_order new"
proof -
  let ?t = "pt_timestamp_ms (last (in_order old))"
  have "last (in_order old) \<in> set old" using assms(1) by (metis in_order_def last_in_set set_sort)
  then have "filter (\<lambda>e. ?t < pt_timestamp_ms e) (in_order new) = in_order new"
    using assms(2) by (auto simp: in_order_def filter_id_conv)
  moreover have "filter (\<lambda>e. ?t < pt_timestamp_ms e) (in_order old) = []"
    using in_order_last[of _ old] by (auto simp: filter_empty_conv in_order_def not_less)
  ultimately show ?thesis by (simp add: in_order_append[OF assms(2)])
qed

text \<open>
  C9 A checkpoint loses nothing.  Take the checkpoint a reconciliation returned for the
  events so far, serialise it and read it back, and let only later events arrive: then the
  next reconciliation returns, its incremental reconstruction agrees with the full one, and it
  passes exactly when the equity the engine persisted with the last event is the rebuilt one.
\<close>

theorem checkpoint_loses_nothing:
  assumes "reconcile_with_book parse old initial mark0 previous = Inr r0" "old \<noteq> []"
    and "\<forall>a \<in> set old. \<forall>b \<in> set new. pt_timestamp_ms a < pt_timestamp_ms b"
    and "float_value initial" "list_all (\<lambda>e. pred_option float_value (pt_exec_price e)) old"
    and "reconcile_accounting (old @ new) initial mark = Inr full" "ledger_finite full"
    and "is_Fin (pt_equity (last (in_order (old @ new))))"
  shows "\<exists>r. reconcile_with_book parse (old @ new) initial mark (Some (book_to_dict (rr_book r0))) = Inr r \<and>
    rr_ledger r = full \<and>
    (rr_status r = ''PASS'' \<longleftrightarrow> dec_of (pt_equity (last (in_order (old @ new)))) = ld_equity full)"
proof -
  let ?t = "pt_timestamp_ms (last (in_order old))" and ?all = "in_order (old @ new)"
  have ne: "in_order old \<noteq> []" using assms(2) by (metis in_order_def set_empty set_sort)
  obtain m l where m: "advance (mirror_start initial) (in_order old) = Inr m" "ledger_from_state m mark0 = Inr l"
    "rr_book r0 = book_from_ledger l (mi_entry_fees m) (Some ?t)"
    using reconcile_book[OF assms(1) ne] by blast
  have all: "?all = in_order old @ in_order new" using assms(3) by (rule in_order_append)
  note later = later_events[OF ne assms(3)]
  obtain mf where mf: "advance (mirror_start initial) ?all = Inr mf" "ledger_from_state mf mark = Inr full"
    using assms(6) by (auto simp: reconcile_accounting_def bindE_eq_Inr)
  then have mf': "advance m (in_order new) = Inr mf" using m(1) by (simp add: all advance_def foldE_append)
  have "mirror_floats (mirror_start initial)" using assms(4) by (simp add: mirror_floats_def mirror_start_def)
  then have "mirror_floats m"
    using assms(5) by (rule_tac advance_floats[OF m(1)]) (auto simp: in_order_def list_all_iff)
  then have "same_book m (resume (rr_book r0))" unfolding m(3) by (rule resume_same[OF _ m(2)])
  from advance_same[OF this mf'] obtain mi where mi: "advance (resume (rr_book r0)) (in_order new) = Inr mi" "same_book mf mi"
    by blast
  obtain inc where inc: "ledger_from_state mi mark = Inr inc" "ledgers_agree full inc" "ledger_finite inc"
    using same_ledger[OF mi(2) mf(2) assms(7)] by blast
  let ?book = "book_from_ledger full (mi_entry_fees mf) (Some (pt_timestamp_ms (last ?all)))"
  have run: "reconcile_with_book parse (old @ new) initial mark (Some (book_to_dict (rr_book r0))) =
      against_checkpoint ?all full ?book mark (rr_book r0) ?t"
    using mf ne by (simp add: reconcile_with_book_def book_roundtrip Let_def all m(3)) (simp add: book_from_ledger_def)
  obtain s where s: "compare_ledgers full inc = Inr s" "cmp_ok s"
    using compare_ledgers_total[OF assms(7) inc(3)] by blast
  obtain s' where s': "compare_dec ''equity'' (ld_equity full) (dec_of (pt_equity (last ?all))) s = Inr s'" "cmp_ok s'"
    using compare_dec_total[OF _ _ s(2)] assms(7,8) by (metis decimal.disc(1) dec_of.simps(1) ledger_finite_def pyfloat.collapse)
  obtain r where r: "verdict full ?book s' = Inr r" "rr_ledger r = full" using verdict_total[OF s'(2)] by blast
  have a: "against_checkpoint ?all full ?book mark (rr_book r0) ?t = Inr r"
    using mi(1) inc(1) s(1) s'(1) r(1) ne by (simp add: against_checkpoint_def later) (simp add: all)
  have "rr_status r = ''PASS'' \<longleftrightarrow> agree (ld_equity full) (dec_of (pt_equity (last ?all)))"
    using checkpoint_passes_iff[OF a _ inc(1)] mi(1) inc(2) ne by (simp add: later) (simp add: all)
  moreover have "is_Dec (ld_equity full)" using assms(7) by (simp add: ledger_finite_def)
  ultimately show ?thesis using run a r(2) by (intro exI[of _ r]) (auto simp: agree_def is_Dec_def)
qed

text \<open>
  A pass means agreement: against a checkpoint with a cursor, the status is PASS exactly
  when the full and the incremental reconstruction agree in every component, all of them
  finite, and the last persisted equity is the rebuilt one.
\<close>

theorem pass_is_three_way_agreement:
  assumes "reconcile_with_book parse evs initial mark (Some previous) = Inr r"
    and "book_from_dict parse previous = Some b" "bk_last_event_ms b = Some cursor"
    and "advance (resume b) (filter (\<lambda>e. cursor < pt_timestamp_ms e) (in_order evs)) = Inr mi"
    and "ledger_from_state mi mark = Inr inc"
  shows "rr_status r = ''PASS'' \<longleftrightarrow>
    (\<exists>full. reconcile_accounting evs initial mark = Inr full \<and> ledgers_agree full inc \<and>
       (evs \<noteq> [] \<longrightarrow> agree (ld_equity full) (dec_of (pt_equity (last (in_order evs))))))"
proof -
  obtain m full where f: "advance (mirror_start initial) (in_order evs) = Inr m" "ledger_from_state m mark = Inr full"
    "against_checkpoint (in_order evs) full (book_from_ledger full (mi_entry_fees m)
       (if in_order evs = [] then None else Some (pt_timestamp_ms (last (in_order evs))))) mark b cursor = Inr r"
    using assms(1-3) by (auto simp: reconcile_with_book_def bindE_eq_Inr Let_def)
  have "in_order evs = [] \<longleftrightarrow> evs = []" by (metis in_order_def set_empty set_sort)
  then show ?thesis using checkpoint_passes_iff[OF f(3) assms(4,5)] f(1,2)
    by (simp add: reconcile_accounting_def)
qed

section \<open>Witnesses\<close>

definition book_event :: "int \<Rightarrow> string \<Rightarrow> int \<Rightarrow> int \<Rightarrow> paper_trade_event" where
  \<comment> \<open>a fill of one unit with a fee of one\<close>
  "book_event ts action price eq =
     \<lparr>pt_session_id = ''s1'', pt_strategy_version = [], pt_strategy_hash = [], pt_decision_source = ''baseline'',
      pt_symbol = ''ETHUSDT'', pt_timeframe = ''15m'', pt_timestamp_ms = ts, pt_action = action, pt_filled = True,
      pt_risk_reason = [], pt_exit_reason = [], pt_exec_price = Some (Fin (of_int price)), pt_quantity = Some (Fin 1),
      pt_fee = Fin 1, pt_slippage_cost = Fin 0, pt_equity = Fin (of_int eq), pt_kill_switch_active = False,
      pt_decision_context = None\<rparr>"

definition example_old :: "paper_trade_event list" where
  "example_old = [book_event 1000 ''BUY'' 100 999]"

definition example_new :: "paper_trade_event list" where
  "example_new = [book_event 2000 ''SELL'' 110 1008]"

definition no_cursor :: "raw \<Rightarrow> int option" where
  "no_cursor v = None"

definition example_checkpoint :: reconciliation_result where
  "example_checkpoint = projr (reconcile_with_book no_cursor example_old (Fin 1000) (Some (Fin 100)) None)"

definition example_rebuilt :: ledger where
  "example_rebuilt = projr (reconcile_accounting (example_old @ example_new) (Fin 1000) (Some (Fin 110)))"

lemma example_checkpoint:
  "reconcile_with_book no_cursor example_old (Fin 1000) (Some (Fin 100)) None = Inr example_checkpoint"
proof -
  have "\<not> isl (reconcile_with_book no_cursor example_old (Fin 1000) (Some (Fin 100)) None)" by code_simp
  then show ?thesis by (simp add: example_checkpoint_def)
qed

lemma example_rebuilt:
  "reconcile_accounting (example_old @ example_new) (Fin 1000) (Some (Fin 110)) = Inr example_rebuilt"
proof -
  have "\<not> isl (reconcile_accounting (example_old @ example_new) (Fin 1000) (Some (Fin 110)))" by code_simp
  then show ?thesis by (simp add: example_rebuilt_def)
qed

lemma example_events:
  "\<forall>a \<in> set example_old. \<forall>b \<in> set example_new. pt_timestamp_ms a < pt_timestamp_ms b"
  "is_Fin (pt_equity (last (in_order (example_old @ example_new))))"
  "list_all (\<lambda>e. pred_option float_value (pt_exec_price e)) example_old"
  by (simp_all add: example_old_def example_new_def book_event_def in_order_def representable_numeral)

lemma example_ledger_finite: "ledger_finite example_rebuilt"
  unfolding ledger_finite_def by (intro conjI; code_simp)

theorem checkpoint_loses_nothing_witness:
  "\<exists>r. reconcile_with_book no_cursor (example_old @ example_new) (Fin 1000) (Some (Fin 110))
      (Some (book_to_dict (rr_book example_checkpoint))) = Inr r \<and>
    rr_ledger r = example_rebuilt \<and>
    (rr_status r = ''PASS'' \<longleftrightarrow>
      dec_of (pt_equity (last (in_order (example_old @ example_new)))) = ld_equity example_rebuilt)"
  by (rule checkpoint_loses_nothing[OF example_checkpoint _ example_events(1) _ example_events(3) example_rebuilt
        example_ledger_finite example_events(2)])
     (simp_all add: example_old_def representable_numeral)

abbreviation example_evs :: "paper_trade_event list" where
  "example_evs \<equiv> example_old @ example_new"

abbreviation example_book :: book_state where
  "example_book \<equiv> rr_book example_checkpoint"

definition example_resumed :: mirror where
  "example_resumed = projr (advance (resume example_book) (filter (\<lambda>e. 1000 < pt_timestamp_ms e) (in_order example_evs)))"

definition example_incremental :: ledger where
  "example_incremental = projr (ledger_from_state example_resumed (Some (Fin 110)))"

definition example_result :: reconciliation_result where
  "example_result = projr (reconcile_with_book no_cursor example_evs (Fin 1000) (Some (Fin 110)) (Some (book_to_dict example_book)))"

lemma example_resume:
  "reconcile_with_book no_cursor example_evs (Fin 1000) (Some (Fin 110)) (Some (book_to_dict example_book)) = Inr example_result"
  "bk_last_event_ms example_book = Some 1000"
  "advance (resume example_book) (filter (\<lambda>e. 1000 < pt_timestamp_ms e) (in_order example_evs)) = Inr example_resumed"
  "ledger_from_state example_resumed (Some (Fin 110)) = Inr example_incremental"
proof -
  have "\<not> isl (reconcile_with_book no_cursor example_evs (Fin 1000) (Some (Fin 110)) (Some (book_to_dict example_book)))"
    by code_simp
  then show "reconcile_with_book no_cursor example_evs (Fin 1000) (Some (Fin 110)) (Some (book_to_dict example_book)) =
      Inr example_result"
    by (simp add: example_result_def)
  show "bk_last_event_ms example_book = Some 1000" by code_simp
  have "\<not> isl (advance (resume example_book) (filter (\<lambda>e. 1000 < pt_timestamp_ms e) (in_order example_evs)))" by code_simp
  then show "advance (resume example_book) (filter (\<lambda>e. 1000 < pt_timestamp_ms e) (in_order example_evs)) = Inr example_resumed"
    by (simp add: example_resumed_def)
  have "\<not> isl (ledger_from_state example_resumed (Some (Fin 110)))" by code_simp
  then show "ledger_from_state example_resumed (Some (Fin 110)) = Inr example_incremental" by (simp add: example_incremental_def)
qed

theorem pass_is_three_way_agreement_witness:
  "rr_status example_result = ''PASS'' \<longleftrightarrow>
    (\<exists>full. reconcile_accounting example_evs (Fin 1000) (Some (Fin 110)) = Inr full \<and>
       ledgers_agree full example_incremental \<and>
       (example_evs \<noteq> [] \<longrightarrow> agree (ld_equity full) (dec_of (pt_equity (last (in_order example_evs))))))"
  by (rule pass_is_three_way_agreement[OF example_resume(1) book_roundtrip example_resume(2-4)])

abbreviation example_ticks :: "(string \<times> string \<times> candle) list" where
  "example_ticks \<equiv> [(''ETHUSDT'', ''15m'', example_candle 900000 5), (''ETHUSDT'', ''15m'', example_candle 1800000 6)]"

definition example_lived :: "paper_runner \<times> paper_trade_event list result" where
  "example_lived = run_tracker (process_one example_env) example_runner example_ticks"

lemma example_lived:
  "run_tracker (process_one example_env) example_runner example_ticks = (fst example_lived, Inr (projr (snd example_lived)))"
proof -
  have "\<not> isl (snd example_lived)" by code_simp
  then show ?thesis unfolding example_lived_def[symmetric] by (metis prod.collapse sum.collapse(2))
qed

theorem reconciliation_matches_live_book_witness:
  "reconcile_accounting (projr (snd example_lived)) (Fin 1000) (Some (Fin 6)) =
     Inr (ledger_of (pe_portfolio (rn_engine (fst example_lived))) (Fin 6)) \<and>
   residual (pt_equity (last (projr (snd example_lived))))
     (ledger_of (pe_portfolio (rn_engine (fst example_lived))) (Fin 6)) = Inr (Dec 0)"
proof (rule reconciliation_matches_live_book[OF _ _ example_lived])
  show "pe_portfolio (rn_engine example_runner) = new_portfolio (Fin 1000) (Fin 1000)" by code_simp
  show "projr (snd example_lived) \<noteq> []" by code_simp
  show "is_Fin (pt_equity (last (projr (snd example_lived))))" by code_simp
qed (simp_all add: example_candle_def representable_numeral)

end
