(* ===== verification/Approval.thy ===== *)
theory Approval
  imports Prelude "HOL-Library.AList"
begin

text \<open>
  The human gate of improvements (\<open>domain/experiments/improvement.py\<close>,
  \<open>application/services/approval_workflow.py\<close>) and the audit log
  (\<open>application/services/audit_log.py\<close>).  The register is a dict, kept as an association
  list in insertion order; the analysis and the change a proposal carries are never looked
  into, so their type is a parameter.  \<open>reachable\<close> is the closure of the calls a client can
  make, failed ones included, and the properties are rule inductions over it.
\<close>

section \<open>Proposals\<close>

datatype proposal_status = PENDING | APPROVED | REJECTED

fun proposal_status_value :: "proposal_status \<Rightarrow> string" where
  "proposal_status_value PENDING = ''pending''"
| "proposal_status_value APPROVED = ''approved''"
| "proposal_status_value REJECTED = ''rejected''"

record 'a improvement_proposal =
  ip_id :: string
  ip_title :: string
  ip_analysis :: string
  ip_proposed_change :: 'a
  ip_evidence :: 'a
  ip_status :: proposal_status
  ip_approval_id :: string
  ip_rejection_reason :: string

definition with_status :: "'a improvement_proposal \<Rightarrow> proposal_status \<Rightarrow> string \<Rightarrow> string \<Rightarrow> 'a improvement_proposal" where
  "with_status p status approval_id rejection_reason =
     p\<lparr>ip_status := status, ip_approval_id := approval_id, ip_rejection_reason := rejection_reason\<rparr>"

section \<open>The register\<close>

type_synonym 'a approval_workflow = "(string \<times> 'a improvement_proposal) list"

definition new_workflow :: "'a approval_workflow" where
  "new_workflow = []"

definition submit :: "'a approval_workflow \<Rightarrow> 'a improvement_proposal \<Rightarrow> 'a approval_workflow \<times> unit result" where
  "submit w p =
     (if ip_status p \<noteq> PENDING then (w, Inl (ValueError ''una propuesta nueva debe nacer PENDING''))
      else (AList.update (ip_id p) p w, Inr ()))"

definition get_proposal :: "'a approval_workflow \<Rightarrow> string \<Rightarrow> 'a improvement_proposal result" where
  "get_proposal w i = (case map_of w i of None \<Rightarrow> Inl KeyError | Some p \<Rightarrow> Inr p)"

definition list_pending :: "'a approval_workflow \<Rightarrow> 'a improvement_proposal list" where
  "list_pending w = filter (\<lambda>p. ip_status p = PENDING) (map snd w)"

definition decide_proposal ::
  "'a approval_workflow \<Rightarrow> string \<Rightarrow> string \<Rightarrow> string \<Rightarrow> string \<Rightarrow> proposal_status \<Rightarrow> 'a approval_workflow \<times> unit result" where
  "decide_proposal w i by_whom approval_id rejection_reason target =
     (if by_whom \<noteq> ''human'' \<or> approval_id = []
      then (w, Inl (PermissionError ''solo una aprobacion humana puede decidir mejoras''))
      else case get_proposal w i of
        Inl e \<Rightarrow> (w, Inl e)
      | Inr p \<Rightarrow>
          if ip_status p \<noteq> PENDING then (w, Inl (ValueError ''propuesta ya decidida''))
          else (AList.update i (with_status p target approval_id rejection_reason) w, Inr ()))"

definition approve_proposal ::
  "'a approval_workflow \<Rightarrow> string \<Rightarrow> string \<Rightarrow> string \<Rightarrow> 'a approval_workflow \<times> unit result" where
  "approve_proposal w i by_whom approval_id = decide_proposal w i by_whom approval_id [] APPROVED"

definition reject_proposal ::
  "'a approval_workflow \<Rightarrow> string \<Rightarrow> string \<Rightarrow> string \<Rightarrow> string \<Rightarrow> 'a approval_workflow \<times> unit result" where
  "reject_proposal w i by_whom approval_id reason = decide_proposal w i by_whom approval_id reason REJECTED"

section \<open>Runs of the register\<close>

datatype 'a workflow_call =
    Submit "'a improvement_proposal"
  | Approve string string string
  | Reject string string string string

fun workflow_step :: "'a approval_workflow \<Rightarrow> 'a workflow_call \<Rightarrow> 'a approval_workflow" where
  "workflow_step w (Submit p) = fst (submit w p)"
| "workflow_step w (Approve i by_whom a) = fst (approve_proposal w i by_whom a)"
| "workflow_step w (Reject i by_whom a r) = fst (reject_proposal w i by_whom a r)"

inductive reachable :: "'a workflow_call list \<Rightarrow> 'a approval_workflow \<Rightarrow> bool" where
  start: "reachable [] new_workflow"
| call: "reachable cs w \<Longrightarrow> reachable (cs @ [c]) (workflow_step w c)"

code_pred reachable .

inductive_cases reachable_snocE: "reachable (cs @ [c]) w"

definition authorises :: "'a workflow_call \<Rightarrow> string \<Rightarrow> string \<Rightarrow> proposal_status \<Rightarrow> bool" where
  \<comment> \<open>a human decision on proposal \<open>i\<close> under approval \<open>a\<close>, with the status it leads to\<close>
  "authorises c i a st \<longleftrightarrow>
     a \<noteq> [] \<and> (c = Approve i ''human'' a \<and> st = APPROVED \<or> (\<exists>r. c = Reject i ''human'' a r) \<and> st = REJECTED)"

lemma step_proposal:
  assumes "map_of (workflow_step w c) i = Some p"
  shows "map_of w i = Some p \<or> c = Submit p \<and> ip_id p = i \<and> ip_status p = PENDING \<or>
    (\<exists>q. map_of w i = Some q \<and> ip_status q = PENDING \<and> authorises c i (ip_approval_id p) (ip_status p) \<and>
       p = with_status q (ip_status p) (ip_approval_id p) (ip_rejection_reason p))"
  using assms
  by (cases c)
     (auto simp: submit_def approve_proposal_def reject_proposal_def decide_proposal_def get_proposal_def update_conv'
        with_status_def authorises_def split: if_splits option.splits)

lemma step_keeps:
  assumes "map_of w i = Some p" "ip_status p \<noteq> PENDING" "\<forall>q. c = Submit q \<longrightarrow> ip_id q \<noteq> i"
  shows "map_of (workflow_step w c) i = Some p"
  using assms
  by (cases c)
     (auto simp: submit_def approve_proposal_def reject_proposal_def decide_proposal_def get_proposal_def update_conv'
        split: if_splits option.splits)

lemma reachable_keys: "reachable cs w \<Longrightarrow> distinct (map fst w) \<and> (\<forall>i p. map_of w i = Some p \<longrightarrow> ip_id p = i)"
proof (induction rule: reachable.induct)
  case (call cs w c)
  have "distinct (map fst (workflow_step w c))"
    using call.IH
    by (cases c)
       (auto simp: submit_def approve_proposal_def reject_proposal_def decide_proposal_def distinct_update split: if_splits sum.splits)
  moreover have "ip_id p = i" if "map_of (workflow_step w c) i = Some p" for i p
    using step_proposal[OF that] call.IH by (auto simp: with_status_def) (metis improvement_proposal.select_convs(1) improvement_proposal.surjective improvement_proposal.update_convs(6,7,8))
  ultimately show ?case by blast
qed (simp add: new_workflow_def)

text \<open>Who decided: the last call that decided a proposal was a human's.\<close>

lemma decided_by_human:
  "reachable cs w \<Longrightarrow> map_of w i = Some p \<Longrightarrow> ip_status p \<noteq> PENDING \<Longrightarrow>
   \<exists>c \<in> set cs. authorises c i (ip_approval_id p) (ip_status p)"
proof (induction arbitrary: p rule: reachable.induct)
  case (call cs w c)
  then show ?case using step_proposal[OF call.prems(1)] by auto
qed (simp add: new_workflow_def)

text \<open>A decision is final until the same id is submitted again, which the register allows.\<close>

interpretation proposal: latch_machine "workflow_step :: 'a approval_workflow \<Rightarrow> _" "\<lambda>_. True" "\<lambda>_. True"
  "\<lambda>w. \<exists>p. map_of w i = Some p \<and> ip_status p \<noteq> PENDING" "\<lambda>w. map_of w i"
  "\<lambda>c. \<exists>q. c = Submit q \<and> ip_id q = i" for i
proof unfold_locales
  fix i and w :: "'a approval_workflow" and c :: "'a workflow_call"
  assume "\<exists>p. map_of w i = Some p \<and> ip_status p \<noteq> PENDING" "\<not> (\<exists>q. c = Submit q \<and> ip_id q = i)"
  then show "(\<exists>p. map_of (workflow_step w c) i = Some p \<and> ip_status p \<noteq> PENDING) \<and>
      map_of (workflow_step w c) i = map_of w i"
    by (metis step_keeps)
qed simp_all

lemma pending_listed:
  assumes "reachable cs w"
  shows "p \<in> set (list_pending w) \<longleftrightarrow> map_of w (ip_id p) = Some p \<and> ip_status p = PENDING"
proof -
  have w: "(i, q) \<in> set w \<longleftrightarrow> map_of w i = Some q" "map_of w i = Some q \<Longrightarrow> ip_id q = i" for i q
    using reachable_keys[OF assms] by (simp_all add: map_of_eq_Some_iff)
  have "p \<in> snd ` set w \<longleftrightarrow> (\<exists>i. (i, p) \<in> set w)" by force
  also have "\<dots> \<longleftrightarrow> map_of w (ip_id p) = Some p" unfolding w(1) using w(2) by blast
  finally show ?thesis by (simp add: list_pending_def)
qed

text \<open>
  C34 Only humans decide.  In every register a client can reach, a proposal that is no longer
  pending was approved or rejected by a call a human made under the approval id it carries,
  with that outcome; the decision stands through any further calls that do not submit the same
  id again; and \<open>list_pending\<close> lists exactly the undecided proposals.
\<close>

theorem only_humans_decide:
  assumes "reachable cs w" "map_of w i = Some p" "ip_status p \<noteq> PENDING"
    and "\<forall>c \<in> set further. \<forall>q. c = Submit q \<longrightarrow> ip_id q \<noteq> i"
  shows "(\<exists>c \<in> set cs. authorises c i (ip_approval_id p) (ip_status p)) \<and>
    map_of (foldl workflow_step w further) i = Some p \<and>
    set (list_pending w) = {q. map_of w (ip_id q) = Some q \<and> ip_status q = PENDING}"
proof (intro conjI)
  show "\<exists>c \<in> set cs. authorises c i (ip_approval_id p) (ip_status p)"
    using decided_by_human[OF assms(1-3)] .
  show "map_of (foldl workflow_step w further) i = Some p"
    using proposal.latched_run[where s = w and es = further and i = i] assms(2-4) by (auto simp: list_all_iff)
  show "set (list_pending w) = {q. map_of w (ip_id q) = Some q \<and> ip_status q = PENDING}"
    using pending_listed[OF assms(1)] by blast
qed

lemma reachable_run: "reachable cs (foldl workflow_step new_workflow cs)"
  by (induction cs rule: rev_induct) (auto intro: reachable.intros)

definition example_proposal :: "string improvement_proposal" where
  "example_proposal =
     \<lparr>ip_id = ''p1'', ip_title = ''t'', ip_analysis = [], ip_proposed_change = [], ip_evidence = [],
      ip_status = PENDING, ip_approval_id = [], ip_rejection_reason = []\<rparr>"

definition example_calls :: "string workflow_call list" where
  \<comment> \<open>the model tries first and is refused\<close>
  "example_calls = [Submit example_proposal, Approve ''p1'' ''llm'' ''a0'', Approve ''p1'' ''human'' ''a1'']"

abbreviation example_register :: "string approval_workflow" where
  "example_register \<equiv> foldl workflow_step new_workflow example_calls"

abbreviation example_approved :: "string improvement_proposal" where
  "example_approved \<equiv> with_status example_proposal APPROVED ''a1'' []"

lemma example_register: "map_of example_register ''p1'' = Some example_approved"
  by code_simp

theorem only_humans_decide_witness:
  "(\<exists>c \<in> set example_calls. authorises c ''p1'' (ip_approval_id example_approved) (ip_status example_approved)) \<and>
   map_of (foldl workflow_step example_register [Reject ''p1'' ''human'' ''a2'' ''no'']) ''p1'' = Some example_approved \<and>
   set (list_pending example_register) = {q. map_of example_register (ip_id q) = Some q \<and> ip_status q = PENDING}"
  by (rule only_humans_decide[OF reachable_run example_register]) (simp_all add: with_status_def)

section \<open>The audit log\<close>

record 'a audit_event =
  ae_ts_ms :: int
  ae_kind :: string
  ae_payload :: 'a

definition audit_now :: "int \<Rightarrow> string \<Rightarrow> 'a \<Rightarrow> 'a audit_event" where
  \<comment> \<open>\<open>clock\<close> is \<open>int(time.time() * 1000)\<close>\<close>
  "audit_now clock kind payload = \<lparr>ae_ts_ms = clock, ae_kind = kind, ae_payload = payload\<rparr>"

record 'a audit_log =
  al_maxlen :: nat
  al_events :: "'a audit_event list"

definition new_audit_log :: "int \<Rightarrow> 'a audit_log result" where
  \<comment> \<open>\<open>deque(maxlen)\<close> refuses a negative bound\<close>
  "new_audit_log maxlen =
     (if maxlen < 0 then Inl (ValueError ''maxlen must be non-negative'')
      else Inr \<lparr>al_maxlen = nat maxlen, al_events = []\<rparr>)"

definition audit_append :: "'a audit_log \<Rightarrow> 'a audit_event \<Rightarrow> 'a audit_log" where
  "audit_append l e =
     (let es = al_events l @ [e] in l\<lparr>al_events := drop (length es - al_maxlen l) es\<rparr>)"

definition audit_tail :: "'a audit_log \<Rightarrow> int \<Rightarrow> 'a audit_event list" where
  \<comment> \<open>\<open>items[-n:]\<close>: from the end for \<open>n > 0\<close>, the whole list for 0, from the front below\<close>
  "audit_tail l n =
     (let items = al_events l
      in rev (if 0 < n then drop (length items - nat n) items else drop (nat (- n)) items))"

definition audit_len :: "'a audit_log \<Rightarrow> nat" where
  "audit_len l = length (al_events l)"

lemma audit_appends:
  "length (al_events l) \<le> al_maxlen l \<Longrightarrow>
   al_events (foldl audit_append l es) =
     drop (length (al_events l) + length es - al_maxlen l) (al_events l @ es) \<and>
   al_maxlen (foldl audit_append l es) = al_maxlen l"
proof (induction es arbitrary: l)
  case (Cons e es)
  let ?m = "al_maxlen l" and ?l = "audit_append l e"
  have l: "al_events ?l = drop (length (al_events l) + 1 - ?m) (al_events l @ [e])" "al_maxlen ?l = ?m"
    by (simp_all add: audit_append_def Let_def)
  then have "length (al_events ?l) \<le> al_maxlen ?l" by simp
  note ih = Cons.IH[OF this]
  have "length (al_events l) = ?m \<or> length (al_events l) + 1 \<le> ?m" using Cons.prems by linarith
  then show ?case
  proof
    assume full: "length (al_events l) = ?m"
    then have "al_events ?l = drop 1 (al_events l @ [e])" using l(1) by simp
    then show ?thesis using ih full l(2) by (cases "al_events l") (auto simp: drop_Cons' full[symmetric])
  next
    assume "length (al_events l) + 1 \<le> ?m"
    then have "al_events ?l = al_events l @ [e]" using l(1) by simp
    then show ?thesis using ih l(2) by simp
  qed
qed simp

text \<open>
  The audit log is a bounded window: after any events it holds the newest \<open>maxlen\<close> of
  them, and a tail of \<open>n > 0\<close> lists the newest \<open>n\<close> of those, the latest first.
\<close>

theorem audit_log_is_newest_window:
  assumes "new_audit_log maxlen = Inr l" "0 < n"
  shows "audit_tail (foldl audit_append l es) n = take (nat n) (take (nat maxlen) (rev es)) \<and>
    audit_len (foldl audit_append l es) = min (nat maxlen) (length es)"
proof -
  have l: "al_events l = []" "al_maxlen l = nat maxlen" using assms(1) by (auto simp: new_audit_log_def split: if_splits)
  then have e: "al_events (foldl audit_append l es) = drop (length es - nat maxlen) es"
    using audit_appends[of l es] by simp
  have "rev (drop (length xs - k) xs) = take k (rev xs)" for k and xs :: "'a audit_event list"
    by (cases "k \<le> length xs") (simp_all add: rev_drop)
  then show ?thesis using assms(2) by (simp add: audit_tail_def audit_len_def Let_def e min_def)
qed

abbreviation example_audit :: "nat audit_log" where
  "example_audit \<equiv> \<lparr>al_maxlen = 2, al_events = []\<rparr>"

theorem audit_log_is_newest_window_witness:
  "audit_tail (foldl audit_append example_audit [audit_now 1 ''a'' 0, audit_now 2 ''b'' 0, audit_now 3 ''c'' 0]) 1 =
     take (nat 1) (take (nat 2) (rev [audit_now 1 ''a'' 0, audit_now 2 ''b'' 0, audit_now 3 ''c'' 0])) \<and>
   audit_len (foldl audit_append example_audit [audit_now 1 ''a'' 0, audit_now 2 ''b'' 0, audit_now 3 ''c'' 0]) =
     min (nat 2) (length [audit_now 1 ''a'' (0::nat), audit_now 2 ''b'' 0, audit_now 3 ''c'' 0])"
  by (rule audit_log_is_newest_window) (simp_all add: new_audit_log_def)

lemma audit_tail_zero: "audit_tail l 0 = rev (al_events l)"
  by (simp add: audit_tail_def)

end
