(* ===== verification/Exchange.thy ===== *)
theory Exchange
  imports Trading "HOL-Library.List_Lexorder" "HOL-Library.Char_ord"
begin

text \<open>
  The edge to the exchange: the reconciliation of local and remote orders
  (\<open>application/services/reconciliation.py\<close>), the connection supervisor
  (\<open>application/services/connection_supervisor.py\<close>) and the bounded retries, the error
  handling and the idempotent cancel of the trading client (\<open>infrastructure/bybit/trade_client.py\<close>).
  The network is a function from the number of the attempt to what it gives; random jitter,
  \<open>float\<close> of a header and the JSON text are arguments.  Both loops are interpretations of
  \<open>retry_loop\<close>.
\<close>

section \<open>Order reconciliation\<close>

record remote_order =
  ro_order_link_id :: string
  ro_exchange_order_id :: string
  ro_status :: order_status
  ro_cumulative_qty :: pyfloat
  ro_avg_price :: "pyfloat option"

record reconciliation_report =
  rp_unknown_remote :: "string list"
  rp_stale_local :: "string list"
  rp_status_diffs :: "(string \<times> order_status \<times> order_status) list"

definition is_consistent :: "reconciliation_report \<Rightarrow> bool" where
  "is_consistent r \<longleftrightarrow> \<not> (rp_unknown_remote r \<noteq> [] \<or> rp_stale_local r \<noteq> [] \<or> rp_status_diffs r \<noteq> [])"

definition remote_by_id :: "remote_order list \<Rightarrow> string \<Rightarrow> remote_order option" where
  \<comment> \<open>of two orders with one id the dict keeps the last\<close>
  "remote_by_id remote = map_of (rev (map (\<lambda>r. (ro_order_link_id r, r)) remote))"

definition remote_ids :: "remote_order list \<Rightarrow> string set" where
  "remote_ids remote = set (map ro_order_link_id remote)"

definition remote_open :: "remote_order list \<Rightarrow> string \<Rightarrow> bool" where
  "remote_open remote i =
     (case remote_by_id remote i of None \<Rightarrow> False | Some r \<Rightarrow> \<not> List.member terminal_states (ro_status r))"

definition status_diff ::
  "remote_order list \<Rightarrow> (string \<Rightarrow> order_status option) \<Rightarrow> string \<Rightarrow> (string \<times> order_status \<times> order_status) option" where
  "status_diff remote local_status_of i =
     (case (local_status_of i, remote_by_id remote i) of
        (Some mine, Some r) \<Rightarrow>
          if mine \<noteq> ro_status r \<and> \<not> List.member terminal_states (ro_status r)
          then Some (i, mine, ro_status r) else None
      | _ \<Rightarrow> None)"

definition reconcile_orders ::
  "string set \<Rightarrow> remote_order list \<Rightarrow> (string \<Rightarrow> order_status option) option \<Rightarrow> reconciliation_report" where
  "reconcile_orders local remote local_status_of =
     \<lparr>rp_unknown_remote = sorted_list_of_set (remote_ids remote - local),
      rp_stale_local = sorted_list_of_set (local - Set.filter (remote_open remote) (remote_ids remote)),
      rp_status_diffs =
        (case local_status_of of
           None \<Rightarrow> []
         | Some f \<Rightarrow> List.map_filter (status_diff remote f) (sorted_list_of_set (local \<inter> remote_ids remote)))\<rparr>"

lemma remote_by_id_dom: "i \<in> remote_ids remote \<longleftrightarrow> (\<exists>r. remote_by_id remote i = Some r)"
proof -
  have "dom (remote_by_id remote) = remote_ids remote"
    by (simp add: remote_by_id_def remote_ids_def dom_map_of_conv_image_fst image_image)
  then show ?thesis by blast
qed

lemma finite_remote_ids [simp]: "finite (remote_ids remote)"
  by (simp add: remote_ids_def)

lemma open_known: "remote_open remote i \<Longrightarrow> i \<in> remote_ids remote"
  by (auto simp: remote_open_def remote_by_id_dom split: option.splits)

lemma map_filter_Nil: "List.map_filter f xs = [] \<longleftrightarrow> (\<forall>x \<in> set xs. f x = None)"
  by (induction xs) (auto simp: List.map_filter_simps split: option.splits)

text \<open>
  What the reconciliation reports: the unknown orders are the remote ids the agent does
  not hold, the stale ones its ids that are not open at the exchange, and the report is
  consistent exactly when the agent's open orders are the exchange's, every remote id among
  them, and no status the agent knows differs.
\<close>

theorem reconciliation_is_set_difference:
  assumes "finite local" "rep = reconcile_orders local remote (Some f)"
  shows "set (rp_unknown_remote rep) = remote_ids remote - local \<and>
    set (rp_stale_local rep) = {i \<in> local. \<not> remote_open remote i} \<and>
    (is_consistent rep \<longleftrightarrow>
       remote_ids remote = local \<and> local = {i. remote_open remote i} \<and>
       (\<forall>i \<in> local. \<forall>s. f i = Some s \<longrightarrow> map_option ro_status (remote_by_id remote i) = Some s))"
proof (intro conjI)
  show u: "set (rp_unknown_remote rep) = remote_ids remote - local" by (simp add: assms(2) reconcile_orders_def)
  show s: "set (rp_stale_local rep) = {i \<in> local. \<not> remote_open remote i}"
    using assms(1) open_known by (auto simp: assms(2) reconcile_orders_def)
  have d: "rp_status_diffs rep = [] \<longleftrightarrow> (\<forall>i \<in> local \<inter> remote_ids remote. status_diff remote f i = None)"
    using assms(1) by (simp add: assms(2) reconcile_orders_def map_filter_Nil)
  have diff: "status_diff remote f i = None \<longleftrightarrow> (\<forall>s. f i = Some s \<longrightarrow> map_option ro_status (remote_by_id remote i) = Some s)"
    if "remote_open remote i" for i
    using that by (auto simp: status_diff_def remote_open_def split: option.splits)
  have "is_consistent rep \<longleftrightarrow> remote_ids remote - local = {} \<and> {i \<in> local. \<not> remote_open remote i} = {} \<and>
      rp_status_diffs rep = []"
    unfolding is_consistent_def u[symmetric] s[symmetric] by auto
  also have "\<dots> \<longleftrightarrow> remote_ids remote = local \<and> local = {i. remote_open remote i} \<and> rp_status_diffs rep = []"
    using open_known by blast
  also have "\<dots> \<longleftrightarrow> remote_ids remote = local \<and> local = {i. remote_open remote i} \<and>
      (\<forall>i \<in> local. \<forall>s. f i = Some s \<longrightarrow> map_option ro_status (remote_by_id remote i) = Some s)"
    using d diff by auto
  finally show "is_consistent rep \<longleftrightarrow> remote_ids remote = local \<and> local = {i. remote_open remote i} \<and>
      (\<forall>i \<in> local. \<forall>s. f i = Some s \<longrightarrow> map_option ro_status (remote_by_id remote i) = Some s)" .
qed

definition example_remote :: "remote_order list" where
  "example_remote =
     [\<lparr>ro_order_link_id = ''a'', ro_exchange_order_id = ''1'', ro_status = NEW, ro_cumulative_qty = Fin 0, ro_avg_price = None\<rparr>]"

definition example_report :: reconciliation_report where
  "example_report = reconcile_orders {''a'', ''b''} example_remote (Some (\<lambda>_. Some NEW))"

theorem reconciliation_is_set_difference_witness:
  "set (rp_unknown_remote example_report) = remote_ids example_remote - {''a'', ''b''} \<and>
   set (rp_stale_local example_report) = {i \<in> {''a'', ''b''}. \<not> remote_open example_remote i} \<and>
   (is_consistent example_report \<longleftrightarrow>
      remote_ids example_remote = {''a'', ''b''} \<and> {''a'', ''b''} = {i. remote_open example_remote i} \<and>
      (\<forall>i \<in> {''a'', ''b''}. \<forall>s. Some NEW = Some s \<longrightarrow> map_option ro_status (remote_by_id example_remote i) = Some s))"
  by (rule reconciliation_is_set_difference) (simp_all add: example_report_def)

section \<open>The connection supervisor\<close>

record supervisor_config =
  sv_max_attempts :: int
  sv_initial_backoff :: pyfloat
  sv_max_backoff :: pyfloat

definition float_of_int :: "int \<Rightarrow> pyfloat result" where
  \<comment> \<open>the conversion of an int operand, which raises above the float range\<close>
  "float_of_int n = (if is_Fin (fint n) then Inr (fint n) else Inl OverflowError)"

definition delay_for :: "(nat \<Rightarrow> pyfloat \<Rightarrow> pyfloat) \<Rightarrow> supervisor_config \<Rightarrow> nat \<Rightarrow> pyfloat result" where
  \<comment> \<open>\<open>uniform i hi\<close> is what \<open>random.uniform(0, hi)\<close> gives the \<open>i\<close>-th time\<close>
  "delay_for uniform cfg i =
     bindE (float_of_int (2 ^ i)) (\<lambda>factor.
       let raw = fmin (fmul (sv_initial_backoff cfg) factor) (sv_max_backoff cfg)
       in Inr (fmin (fadd raw (uniform i (fmul raw (rnd (1/10))))) (sv_max_backoff cfg)))"

record supervised =
  sp_attempts :: nat
    \<comment> \<open>the attribute \<open>attempts\<close>\<close>
  sp_sleeps :: "pyfloat list"
  sp_reconnects :: nat
    \<comment> \<open>calls of \<open>on_reconnect\<close>\<close>
  sp_result :: "unit result"

definition connected :: "unit result option \<Rightarrow> nat \<Rightarrow> supervised" where
  \<comment> \<open>attempt \<open>i\<close> succeeded: an earlier failure fires the hook\<close>
  "connected on_reconnect i =
     (case (0 < i, on_reconnect) of
        (True, Some h) \<Rightarrow> \<lparr>sp_attempts = i + 1, sp_sleeps = [], sp_reconnects = 1, sp_result = h\<rparr>
      | _ \<Rightarrow> \<lparr>sp_attempts = i + 1, sp_sleeps = [], sp_reconnects = 0, sp_result = Inr ()\<rparr>)"

definition sleep_then :: "pyfloat result \<Rightarrow> nat \<Rightarrow> supervised \<Rightarrow> supervised" where
  "sleep_then delay i rest =
     (case delay of
        Inl e \<Rightarrow> \<lparr>sp_attempts = i + 1, sp_sleeps = [], sp_reconnects = 0, sp_result = Inl e\<rparr>
      | Inr d \<Rightarrow> rest\<lparr>sp_sleeps := d # sp_sleeps rest\<rparr>)"

fun supervise ::
  "(nat \<Rightarrow> unit result) \<Rightarrow> unit result option \<Rightarrow> (nat \<Rightarrow> pyfloat result) \<Rightarrow> nat \<Rightarrow> nat \<Rightarrow> supervised" where
  \<comment> \<open>attempt \<open>i\<close> with \<open>n\<close> iterations of the range left; an empty range fails the assertion\<close>
  "supervise connect hook delay 0 i = \<lparr>sp_attempts = 0, sp_sleeps = [], sp_reconnects = 0, sp_result = Inl AssertionError\<rparr>"
| "supervise connect hook delay (Suc n) i =
     (case connect i of
        Inr _ \<Rightarrow> connected hook i
      | Inl e \<Rightarrow>
          if n = 0 then \<lparr>sp_attempts = i + 1, sp_sleeps = [], sp_reconnects = 0, sp_result = Inl e\<rparr>
          else sleep_then (delay i) i (supervise connect hook delay n (Suc i)))"

definition run_once_until_connected ::
  "supervisor_config \<Rightarrow> (nat \<Rightarrow> unit result) \<Rightarrow> unit result option \<Rightarrow> (nat \<Rightarrow> pyfloat \<Rightarrow> pyfloat) \<Rightarrow> supervised" where
  "run_once_until_connected cfg connect hook uniform =
     supervise connect hook (delay_for uniform cfg) (nat (sv_max_attempts cfg)) 0"

definition failed :: "(nat \<Rightarrow> unit result) \<Rightarrow> nat \<Rightarrow> supervised" where
  "failed connect i =
     \<lparr>sp_attempts = i + 1, sp_sleeps = [], sp_reconnects = 0,
      sp_result = (case connect i of Inl e \<Rightarrow> Inl e | Inr _ \<Rightarrow> Inr ())\<rparr>"

interpretation supervisor: retry_loop "supervise connect hook delay" "\<lambda>i. isl (connect i)"
  "connected hook" "failed connect" "\<lambda>i. sleep_then (delay i) i" for connect hook delay
  by unfold_locales (auto simp: failed_def split: sum.splits)

lemma sleeps_run:
  assumes "\<forall>i \<in> set is. \<exists>d. delay i = Inr d"
  shows "foldr (\<lambda>i. sleep_then (delay i) i) is o1 = o1\<lparr>sp_sleeps := map (\<lambda>i. projr (delay i)) is @ sp_sleeps o1\<rparr>"
  using assms by (induction "is") (auto simp: sleep_then_def)

lemma delay_bounded:
  assumes "delay_for uniform cfg i = Inr d" "sv_max_backoff cfg \<noteq> NaN" "d \<noteq> NaN"
  shows "fle d (sv_max_backoff cfg)"
proof -
  have "fle (fmin x y) y" if "y \<noteq> NaN" "fmin x y \<noteq> NaN" for x y
    using that not_flt_iff[of y x] by (cases "flt y x") (auto simp: fmin_def)
  then show ?thesis using assms by (auto simp: delay_for_def bindE_eq_Inr Let_def)
qed

text \<open>
  C38 The supervisor ends after at most \<open>max_attempts\<close> attempts: either the first success
  ends it, with the hook fired exactly when something failed before, or every attempt fails
  and the last error is raised; between attempts it sleeps the backoff of each failed one.
\<close>

theorem supervisor_is_bounded:
  assumes "sv_max_attempts cfg = int (Suc n)" "\<forall>i < n. \<exists>d. delay_for uniform cfg i = Inr d"
    and "out = run_once_until_connected cfg connect hook uniform"
  shows "(\<exists>k \<le> n. \<not> isl (connect k) \<and> (\<forall>j < k. isl (connect j)) \<and> sp_attempts out = k + 1 \<and>
        sp_sleeps out = map (\<lambda>i. projr (delay_for uniform cfg i)) [0..<k] \<and>
        sp_reconnects out = (if 0 < k \<and> hook \<noteq> None then 1 else 0) \<and>
        sp_result out = (if 0 < k then case hook of None \<Rightarrow> Inr () | Some h \<Rightarrow> h else Inr ())) \<or>
    (\<forall>j \<le> n. isl (connect j)) \<and> sp_attempts out = n + 1 \<and>
        sp_sleeps out = map (\<lambda>i. projr (delay_for uniform cfg i)) [0..<n] \<and>
        sp_reconnects out = 0 \<and> sp_result out = connect n"
proof -
  let ?d = "delay_for uniform cfg"
  have sleeps: "foldr (\<lambda>i. sleep_then (?d i) i) [0..<k] s = s\<lparr>sp_sleeps := map (\<lambda>i. projr (?d i)) [0..<k] @ sp_sleeps s\<rparr>"
    if "k \<le> n" for k s
    using that assms(2) by (intro sleeps_run) auto
  have out: "out = supervise connect hook ?d (Suc n) 0" using assms(1,3) by (simp add: run_once_until_connected_def nat_add_distrib)
  consider (connected) k where "k \<le> n" "\<not> isl (connect k)" "\<forall>j < k. isl (connect j)"
      "out = foldr (\<lambda>i. sleep_then (?d i) i) [0..<k] (connected hook k)"
    | (failed) "\<forall>j \<le> n. isl (connect j)" "out = foldr (\<lambda>i. sleep_then (?d i) i) [0..<n] (failed connect n)"
    using supervisor.loop_cases[where connect = connect and n = n and i = 0 and hook = hook and delay = ?d] out by (auto simp: less_Suc_eq_le)
  then show ?thesis
  proof cases
    case connected
    then show ?thesis using sleeps[of k] by (intro disjI1 exI[of _ k]) (auto simp: connected_def split: option.splits)
  next
    case failed
    then show ?thesis using sleeps[of n] by (intro disjI2) (auto simp: failed_def split: sum.splits)
  qed
qed

definition example_supervisor :: supervisor_config where
  "example_supervisor = \<lparr>sv_max_attempts = 2, sv_initial_backoff = Fin 1, sv_max_backoff = Fin 30\<rparr>"

definition example_supervised :: supervised where
  "example_supervised = run_once_until_connected example_supervisor (\<lambda>_. Inl OverflowError) None (\<lambda>_ _. Fin 0)"

theorem supervisor_is_bounded_witness:
  "sp_attempts example_supervised = 2 \<and> sp_result example_supervised = Inl OverflowError"
proof -
  have "\<not> isl (delay_for (\<lambda>_ _. Fin 0) example_supervisor 0)" by code_simp
  then have d: "\<forall>i < 1. \<exists>d. delay_for (\<lambda>_ _. Fin 0) example_supervisor i = Inr d"
    by (metis less_one sum.collapse(2))
  have m: "sv_max_attempts example_supervisor = int (Suc 1)" by (simp add: example_supervisor_def)
  from supervisor_is_bounded[OF m d example_supervised_def] show ?thesis by simp
qed

section \<open>The trading client\<close>

record 'b http_response =
  hr_status :: int
  hr_retry_after :: "string option"
  hr_body :: 'b

record 'r api_reply =
  \<comment> \<open>the JSON object of a body\<close>
  ar_ret_code :: "int option"
  ar_ret_msg :: string
  ar_result :: "'r option"
    \<comment> \<open>None unless it is an object\<close>

record 'o attempts =
  at_sends :: nat
  at_sleeps :: "pyfloat list"
  at_result :: "'o result"

definition MAX_RETRIES :: nat where
  "MAX_RETRIES = 3"

definition must_retry :: "'b http_response result \<Rightarrow> bool" where
  "must_retry r = (case r of Inl _ \<Rightarrow> False | Inr h \<Rightarrow> hr_status h = 429 \<or> 500 \<le> hr_status h)"

definition retry_delay ::
  "(string \<Rightarrow> pyfloat result) \<Rightarrow> (nat \<Rightarrow> pyfloat) \<Rightarrow> 'b http_response result \<Rightarrow> nat \<Rightarrow> pyfloat result" where
  \<comment> \<open>\<open>Retry-After\<close> if the header is there and not empty, else \<open>min(2**attempt, 8)\<close>, and jitter\<close>
  "retry_delay parse jitter r i =
     bindE (case r of
              Inl e \<Rightarrow> Inl e
            | Inr h \<Rightarrow> (case hr_retry_after h of
                Some s \<Rightarrow> if s = [] then Inr (fint (min (2 ^ i) 8)) else parse s
              | None \<Rightarrow> Inr (fint (min (2 ^ i) 8))))
       (\<lambda>d. Inr (fadd d (jitter i)))"

definition pause_send :: "pyfloat result \<Rightarrow> nat \<Rightarrow> 'o attempts \<Rightarrow> 'o attempts" where
  "pause_send delay i rest =
     (case delay of
        Inl e \<Rightarrow> \<lparr>at_sends = i + 1, at_sleeps = [], at_result = Inl e\<rparr>
      | Inr d \<Rightarrow> rest\<lparr>at_sleeps := d # at_sleeps rest\<rparr>)"

definition give_up :: "pyfloat result \<Rightarrow> nat \<Rightarrow> 'b http_response attempts" where
  \<comment> \<open>the delay is computed before the loop looks whether an attempt is left\<close>
  "give_up delay i =
     \<lparr>at_sends = i + 1, at_sleeps = [],
      at_result = (case delay of Inl e \<Rightarrow> Inl e | Inr _ \<Rightarrow> Inl (NamedError ''BybitTradeError'' ''HTTP''))\<rparr>"

fun send_loop ::
  "(nat \<Rightarrow> 'b http_response result) \<Rightarrow> (nat \<Rightarrow> pyfloat result) \<Rightarrow> nat \<Rightarrow> nat \<Rightarrow> 'b http_response attempts" where
  \<comment> \<open>attempt \<open>i\<close> with \<open>n\<close> iterations of the range left\<close>
  "send_loop send delay 0 i =
     \<lparr>at_sends = i, at_sleeps = [], at_result = Inl (NamedError ''BybitTradeError'' ''HTTP'')\<rparr>"
| "send_loop send delay (Suc n) i =
     (if must_retry (send i)
      then if 0 < n then pause_send (delay i) i (send_loop send delay n (Suc i)) else give_up (delay i) i
      else \<lparr>at_sends = i + 1, at_sleeps = [], at_result = send i\<rparr>)"

definition send_with_retry ::
  "(nat \<Rightarrow> 'b http_response result) \<Rightarrow> (string \<Rightarrow> pyfloat result) \<Rightarrow> (nat \<Rightarrow> pyfloat) \<Rightarrow> 'b http_response attempts" where
  "send_with_retry send parse jitter =
     send_loop send (\<lambda>i. retry_delay parse jitter (send i) i) (MAX_RETRIES + 1) 0"

definition unwrap :: "(int option \<Rightarrow> string) \<Rightarrow> 'r \<Rightarrow> ('b \<Rightarrow> 'r api_reply result) \<Rightarrow> 'b http_response \<Rightarrow> 'r result" where
  \<comment> \<open>\<open>text\<close> renders the code in the message and \<open>nothing\<close> is the empty dict; \<open>json\<close> reads the body\<close>
  "unwrap text nothing json h =
     bindE (json (hr_body h)) (\<lambda>raw.
       if ar_ret_code raw \<noteq> Some 0
       then Inl (NamedError ''BybitTradeError'' (''retCode='' @ text (ar_ret_code raw) @ '': '' @ ar_ret_msg raw))
       else Inr (case ar_result raw of None \<Rightarrow> nothing | Some r \<Rightarrow> r))"

interpretation sender: retry_loop "send_loop send delay" "\<lambda>i. must_retry (send i)"
  "\<lambda>i. \<lparr>at_sends = i + 1, at_sleeps = [], at_result = send i\<rparr>" "\<lambda>i. give_up (delay i) i"
  "\<lambda>i. pause_send (delay i) i" for send delay
  by unfold_locales auto

section \<open>Cancelling\<close>

definition contains :: "string \<Rightarrow> string \<Rightarrow> bool" where
  \<comment> \<open>\<open>s in t\<close>\<close>
  "contains s t = list_ex (\<lambda>i. take (length s) (drop i t) = s) [0..<length t + 1]"

definition cancel_order :: "'r result \<Rightarrow> bool result" where
  \<comment> \<open>\<open>r\<close> is what \<open>_post\<close> gives for the cancel request\<close>
  "cancel_order r =
     (case r of
        Inr _ \<Rightarrow> Inr True
      | Inl (NamedError cls msg) \<Rightarrow>
          if cls = ''BybitTradeError'' \<and> contains ''110001'' msg then Inr False else Inl (NamedError cls msg)
      | Inl e \<Rightarrow> Inl e)"

definition post ::
  "(int option \<Rightarrow> string) \<Rightarrow> 'r \<Rightarrow> ('b \<Rightarrow> 'r api_reply result) \<Rightarrow> (nat \<Rightarrow> 'b http_response result) \<Rightarrow>
   (string \<Rightarrow> pyfloat result) \<Rightarrow> (nat \<Rightarrow> pyfloat) \<Rightarrow> 'r attempts" where
  \<comment> \<open>\<open>_post\<close> and \<open>_get\<close>: the request is signed once, so every attempt sends the same\<close>
  "post text nothing json send parse jitter =
     (let a = send_with_retry send parse jitter
      in \<lparr>at_sends = at_sends a, at_sleeps = at_sleeps a,
          at_result = bindE (at_result a) (unwrap text nothing json)\<rparr>)"

lemma pauses_bounded:
  "\<forall>i \<in> set is. i < m \<Longrightarrow>
   at_sends (foldr (\<lambda>i. pause_send (delay i) i) is o1) \<le> max m (at_sends o1) \<and>
   length (at_sleeps (foldr (\<lambda>i. pause_send (delay i) i) is o1)) \<le> length is + length (at_sleeps o1)"
  by (induction "is") (auto simp: pause_send_def split: sum.splits)

lemma pauses_Inr:
  "at_result (foldr (\<lambda>i. pause_send (delay i) i) is o1) = Inr r \<Longrightarrow>
   at_result o1 = Inr r \<and> at_sends (foldr (\<lambda>i. pause_send (delay i) i) is o1) = at_sends o1"
  by (induction "is") (auto simp: pause_send_def split: sum.splits)

lemma send_loop_cases:
  fixes send :: "nat \<Rightarrow> 'b http_response result"
  assumes "a = send_loop send delay (Suc n) 0"
  shows "at_sends a \<le> Suc n \<and> length (at_sleeps a) \<le> n \<and>
    (\<forall>h. at_result a = Inr h \<longrightarrow>
      (\<exists>k \<le> n. at_sends a = k + 1 \<and> send k = Inr h \<and> \<not> must_retry (Inr h) \<and> (\<forall>j < k. must_retry (send j))))"
proof -
  consider (final) k where "k \<le> n" "\<not> must_retry (send k)" "\<forall>j < k. must_retry (send j)"
      "a = foldr (\<lambda>i. pause_send (delay i) i) [0..<k] \<lparr>at_sends = k + 1, at_sleeps = [], at_result = send k\<rparr>"
    | (exhausted) "a = foldr (\<lambda>i. pause_send (delay i) i) [0..<n] (give_up (delay n) n)"
    using sender.loop_cases[where send = send and delay = delay and n = n and i = 0] assms by (auto simp: less_Suc_eq_le)
  then show ?thesis
  proof cases
    case final
    define o1 where "o1 = \<lparr>at_sends = k + 1, at_sleeps = [], at_result = send k\<rparr>"
    then have o1: "at_sends o1 = k + 1" "at_sleeps o1 = []" "at_result o1 = send k" by simp_all
    note a = final(4)[folded o1_def]
    have "at_sends a \<le> max k (k + 1) \<and> length (at_sleeps a) \<le> length [0..<k] + 0"
      using pauses_bounded[of "[0..<k]" k delay o1] a o1 by simp
    moreover have "send k = Inr h \<and> at_sends a = k + 1" if "at_result a = Inr h" for h
      using pauses_Inr[of delay "[0..<k]" o1 h] that a o1 by simp
    ultimately show ?thesis using final(1-3) by fastforce
  next
    case exhausted
    let ?o = "give_up (delay n) n :: 'b http_response attempts"
    have "at_sends a \<le> max n (n + 1) \<and> length (at_sleeps a) \<le> length [0..<n] + 0"
      using pauses_bounded[of "[0..<n]" n delay ?o] exhausted by (simp add: give_up_def)
    moreover have "at_result a \<noteq> Inr h" for h
      using pauses_Inr[of delay "[0..<n]" ?o h] exhausted by (auto simp: give_up_def split: sum.splits)
    ultimately show ?thesis by simp
  qed
qed

text \<open>
  The client sends a bounded number of times: whatever the network does, at most four
  requests go out and at most three sleeps pass, and a result is the unwrapped first response
  that need not be retried.
\<close>

theorem sends_are_bounded:
  "at_sends (post text nothing json send parse jitter) \<le> 4 \<and>
   length (at_sleeps (post text nothing json send parse jitter)) \<le> 3 \<and>
   (\<forall>r. at_result (post text nothing json send parse jitter) = Inr r \<longrightarrow>
     (\<exists>k \<le> 3. \<exists>h. at_sends (post text nothing json send parse jitter) = k + 1 \<and> send k = Inr h \<and>
        \<not> must_retry (Inr h) \<and> (\<forall>j < k. must_retry (send j)) \<and> unwrap text nothing json h = Inr r))"
proof -
  have "send_with_retry send parse jitter = send_loop send (\<lambda>i. retry_delay parse jitter (send i) i) (Suc 3) 0"
    by (simp add: send_with_retry_def MAX_RETRIES_def)
  from send_loop_cases[OF this] show ?thesis
    by (simp add: post_def Let_def bindE_eq_Inr) blast
qed

definition example_send :: "nat \<Rightarrow> int http_response result" where
  "example_send i = Inr \<lparr>hr_status = (if i = 0 then 503 else 200), hr_retry_after = None, hr_body = 7\<rparr>"

abbreviation example_post :: "int attempts" where
  "example_post \<equiv> post (\<lambda>_. []) 0 (\<lambda>b. Inr \<lparr>ar_ret_code = Some 0, ar_ret_msg = [], ar_result = Some b\<rparr>)
     example_send (\<lambda>_. Inl KeyError) (\<lambda>_. Fin 0)"

theorem sends_are_bounded_witness:
  "at_result example_post = Inr 7 \<and>
   (\<exists>k \<le> 3. \<exists>h. at_sends example_post = k + 1 \<and> example_send k = Inr h)"
proof -
  have "MAX_RETRIES + 1 = Suc (Suc (Suc (Suc 0)))" by (simp add: MAX_RETRIES_def)
  note four = send_with_retry_def[unfolded this]
  have r: "at_result example_post = Inr 7"
    by (simp add: post_def four example_send_def must_retry_def retry_delay_def pause_send_def unwrap_def)
  then show ?thesis
    using sends_are_bounded[of "\<lambda>_. []" 0 "\<lambda>b. Inr \<lparr>ar_ret_code = Some 0, ar_ret_msg = [], ar_result = Some b\<rparr>"
      example_send "\<lambda>_. Inl KeyError" "\<lambda>_. Fin 0"] by blast
qed

end
