(* ===== verification/PyText.thy ===== *)
theory PyText
  imports Prelude "HOL-Library.List_Lexorder" "HOL-Library.Char_ord"
begin

text \<open>
  Python texts: the decimal text of an int, \<open>join\<close>, blank strings and hexadecimal digests, with
  the lemmas that make such texts readable back: a text is determined by its first token and
  what follows a delimiter.
\<close>

section \<open>Decimal texts\<close>

fun nat_text :: "nat \<Rightarrow> string" where
  "nat_text n = (if n < 10 then [char_of (48 + n)] else nat_text (n div 10) @ [char_of (48 + n mod 10)])"

declare nat_text.simps [simp del]

definition int_text :: "int \<Rightarrow> string" where
  \<comment> \<open>\<open>str\<close> of an int\<close>
  "int_text i = (if i < 0 then ''-'' @ nat_text (nat (- i)) else nat_text (nat i))"

definition digits :: string where
  "digits = ''0123456789''"

lemma digit_char: "(d :: nat) < 10 \<Longrightarrow> char_of (48 + d) \<in> set digits"
proof -
  have "list_all (\<lambda>d :: nat. char_of (48 + d) \<in> set digits) [0..<10]" by code_simp
  then show "d < 10 \<Longrightarrow> char_of (48 + d) \<in> set digits" by (simp add: list_all_iff)
qed

lemma nat_text_digits: "set (nat_text n) \<subseteq> set digits"
proof (induction n rule: nat_text.induct)
  case (1 n)
  then show ?case using digit_char[of n] digit_char[of "n mod 10"] by (subst nat_text.simps) auto
qed

lemma nat_text_nonempty: "nat_text n \<noteq> []"
  by (subst nat_text.simps) auto

definition digit_value :: "string \<Rightarrow> nat" where
  "digit_value s = foldl (\<lambda>n c. n * 10 + (of_char c - 48)) 0 s"

lemma of_digit: "d < 10 \<Longrightarrow> (of_char (char_of (48 + d :: nat)) :: nat) = 48 + d"
  by (simp add: of_char_of)

lemma nat_text_value: "digit_value (nat_text n) = n"
proof (induction n rule: nat_text.induct)
  case (1 n)
  show ?case
  proof (cases "n < 10")
    case True
    then show ?thesis by (subst nat_text.simps) (simp add: digit_value_def of_digit)
  next
    case False
    then have "digit_value (nat_text (n div 10)) = n div 10" using 1 by blast
    then show ?thesis using False by (subst nat_text.simps) (simp add: digit_value_def of_digit)
  qed
qed

lemma nat_text_inject [simp]: "nat_text m = nat_text n \<longleftrightarrow> m = n"
  by (metis nat_text_value)

lemma minus_not_digit: "CHR ''-'' \<notin> set digits"
  by (simp add: digits_def)

lemma nat_text_no_minus: "nat_text n \<noteq> CHR ''-'' # s"
  using nat_text_digits[of n] minus_not_digit by auto

lemma int_text_inject [simp]: "int_text i = int_text j \<longleftrightarrow> i = j"
  using nat_text_no_minus nat_text_no_minus[symmetric] by (auto simp: int_text_def)

lemma int_text_chars: "set (int_text i) \<subseteq> insert (CHR ''-'') (set digits)"
  using nat_text_digits by (auto simp: int_text_def)

lemma int_text_nonempty: "int_text i \<noteq> []"
  by (simp add: int_text_def nat_text_nonempty)

section \<open>Joining\<close>

fun join :: "string \<Rightarrow> string list \<Rightarrow> string" where
  \<comment> \<open>\<open>sep.join(xs)\<close>\<close>
  "join sep [] = []"
| "join sep [x] = x"
| "join sep (x # xs) = x @ sep @ join sep xs"

lemma join_Cons: "xs \<noteq> [] \<Longrightarrow> join sep (x # xs) = x @ sep @ join sep xs"
  by (cases xs) auto

section \<open>Blank texts and digests\<close>

definition py_space :: "char \<Rightarrow> bool" where
  \<comment> \<open>what \<open>strip\<close> removes, among the first 256 code points\<close>
  "py_space c \<longleftrightarrow> (of_char c :: nat) \<in> {9, 10, 11, 12, 13, 28, 29, 30, 31, 32, 133, 160}"

definition is_blank :: "string \<Rightarrow> bool" where
  \<comment> \<open>\<open>not s.strip()\<close>\<close>
  "is_blank s \<longleftrightarrow> list_all py_space s"

definition is_hex64 :: "string \<Rightarrow> bool" where
  \<comment> \<open>\<open>re.compile("[0-9a-f]{64}").fullmatch\<close>\<close>
  "is_hex64 s \<longleftrightarrow> length s = 64 \<and> list_all (\<lambda>c. c \<in> set ''0123456789abcdef'') s"

section \<open>Tokens\<close>

definition ends_token :: "char set \<Rightarrow> string \<Rightarrow> bool" where
  \<comment> \<open>the text is over or goes on with a delimiter\<close>
  "ends_token D r \<longleftrightarrow> r = [] \<or> hd r \<in> D"

lemma token_unique:
  assumes "s @ r = s' @ r'" "set s \<inter> D = {}" "set s' \<inter> D = {}" "ends_token D r" "ends_token D r'"
  shows "s = s' \<and> r = r'"
  using assms
proof (induction s arbitrary: s')
  case Nil
  then show ?case by (cases s') (auto simp: ends_token_def)
next
  case (Cons c s)
  then show ?case by (cases s') (auto simp: ends_token_def)
qed

end
