(* ===== verification/Memory.thy ===== *)
theory Memory
  imports Llm FeatureEngine Portfolio PyText "HOL-Library.AList"
begin

text \<open>
  The trading memory: outcomes of closed trades (\<open>domain/evaluation/outcome.py\<close>), reflections
  (\<open>application/services/reflection_engine.py\<close>), their persistence
  (\<open>memory_writer.py\<close>, \<open>infrastructure/database/memory_repository.py\<close>), the leakage guards
  (\<open>domain/memory/guards.py\<close>) and the two-armed comparison (\<open>memory_comparison.py\<close>).
  The embedding model, SHA-256, the \<open>:g\<close> rendering of floats and the vector index (distances
  and their order) are arguments.  Accents are dropped from message texts.
\<close>

section \<open>Outcomes\<close>

datatype trade_result = WIN | LOSS | BREAKEVEN

record trade_outcome =
  oc_trade :: trade
  oc_result :: trade_result
  oc_mfe :: pyfloat
  oc_mae :: pyfloat
  oc_r_multiple :: "pyfloat option"

definition evaluate_outcome :: "trade \<Rightarrow> pyfloat list \<Rightarrow> pyfloat list \<Rightarrow> pyfloat option \<Rightarrow> trade_outcome result" where
  \<comment> \<open>the divisor of \<open>r_multiple\<close> is above zero\<close>
  "evaluate_outcome t highest lowest stop =
     (let entry = tr_entry_price t in
      bindE (if highest = [] then Inr entry else fmax_list highest) (\<lambda>top.
      bindE (if lowest = [] then Inr entry else fmin_list lowest) (\<lambda>bottom.
        let mfe = fmax (fsub top entry) (Fin 0);
            mae = fmax (fsub entry bottom) (Fin 0);
            result = (if flt (Fin 0) (tr_net_pnl t) then WIN
                      else if flt (tr_net_pnl t) (Fin 0) then LOSS else BREAKEVEN);
            r = (case stop of
                   None \<Rightarrow> None
                 | Some s \<Rightarrow>
                     let risk = fsub entry s
                     in if flt (Fin 0) risk then Some (fdiv (tr_net_pnl t) risk) else None)
        in Inr \<lparr>oc_trade = t, oc_result = result, oc_mfe = mfe, oc_mae = mae, oc_r_multiple = r\<rparr>)))"

section \<open>Reflections\<close>

datatype reflection_result = Win | Loss | Breakeven

record reflection =
  rf_id :: string
  rf_outcome_closed_at_ms :: int
  rf_result :: reflection_result
  rf_primary_error :: string
  rf_lesson :: string
  rf_future_condition :: string

record reflection_engine =
  re_mae_counter_trend_atr :: pyfloat
  re_premature_capture_ratio :: pyfloat

definition classify_outcome ::
  "reflection_engine \<Rightarrow> trade_outcome \<Rightarrow> pyfloat option \<Rightarrow> pyfloat option \<Rightarrow> string \<times> string \<times> string" where
  "classify_outcome en oc atr_at_entry captured_pnl =
     (if oc_result oc = LOSS \<and>
         (case atr_at_entry of None \<Rightarrow> False
          | Some a \<Rightarrow> flt (Fin 0) a \<and> fle (fmul a (re_mae_counter_trend_atr en)) (oc_mae oc))
      then (''COUNTER_TREND_ENTRY'',
            ''La entrada fue contra la tendencia dominante y el precio se alejo mas de lo tolerable antes del stop.'',
            ''Reducir confianza en senales contra el regimen vigente.'')
      else if oc_result oc = WIN \<and>
         (case captured_pnl of None \<Rightarrow> False
          | Some c \<Rightarrow> flt (Fin 0) (oc_mfe oc) \<and> flt c (fmul (oc_mfe oc) (re_premature_capture_ratio en)))
      then (''PREMATURE_EXIT'',
            ''El trade alcanzo una excursion favorable muy superior a la ganancia capturada antes de la salida.'',
            ''Evaluar trailing mas laxo cuando el regimen acompana.'')
      else if oc_result oc = BREAKEVEN
      then (''NO_EDGE'', ''El trade cerro sin ventaja clara: la senal no aporto movimiento suficiente.'',
            ''Exigir confirmacion adicional antes de entrar en condiciones similares.'')
      else if oc_result oc = WIN
      then ([], ''Trade dentro de parametros: entrada, gestion y salida correctas.'', [])
      else (''STOP_HIT_NORMAL'', ''Perdida contenida por el stop: riesgo funcionando segun diseno.'', []))"

definition reflection_identity :: "(string \<Rightarrow> string) \<Rightarrow> trade_outcome \<Rightarrow> int \<Rightarrow> string" where
  "reflection_identity sha256 oc closed_at_ms =
     take 16 (sha256 (int_text (tr_entry_ts (oc_trade oc)) @ ''|'' @ int_text (tr_exit_ts (oc_trade oc)) @
       ''|'' @ int_text closed_at_ms))"

fun map_result :: "trade_result \<Rightarrow> reflection_result" where
  "map_result WIN = Win"
| "map_result LOSS = Loss"
| "map_result BREAKEVEN = Breakeven"

definition reflect ::
  "(string \<Rightarrow> string) \<Rightarrow> reflection_engine \<Rightarrow> trade_outcome \<Rightarrow> int \<Rightarrow> pyfloat option \<Rightarrow> pyfloat option \<Rightarrow> reflection" where
  "reflect sha256 en oc closed_at_ms atr_at_entry captured_pnl =
     (case classify_outcome en oc atr_at_entry captured_pnl of
        (primary_error, lesson, future_condition) \<Rightarrow>
          \<lparr>rf_id = reflection_identity sha256 oc closed_at_ms, rf_outcome_closed_at_ms = closed_at_ms,
           rf_result = map_result (oc_result oc), rf_primary_error = primary_error, rf_lesson = lesson,
           rf_future_condition = future_condition\<rparr>)"

section \<open>Memories and the guards\<close>

record trading_memory =
  tm_id :: string
  tm_text :: string
  tm_outcome_timestamp_ms :: int
  tm_symbol :: string
  tm_action :: string
  tm_result :: string
  tm_pnl :: pyfloat
  tm_mfe :: pyfloat
  tm_mae :: pyfloat
  tm_fees :: pyfloat
  tm_slippage :: pyfloat
  tm_reflection :: string
  tm_strategy_version :: string
  tm_prompt_version :: string
  tm_llm_model :: string
  tm_experiment_id :: string
  tm_embedding_space :: string
  tm_embedding :: "pyfloat list"

definition build_embedding_space :: "string \<Rightarrow> string \<Rightarrow> int \<Rightarrow> string" where
  "build_embedding_space provider_name model_name dimension =
     provider_name @ ''|'' @ model_name @ ''|'' @ int_text dimension"

definition filter_leakage :: "trading_memory list \<Rightarrow> int \<Rightarrow> trading_memory list" where
  "filter_leakage items decision_ts = filter (\<lambda>m. tm_outcome_timestamp_ms m < decision_ts) items"

fun assert_no_leakage :: "trading_memory list \<Rightarrow> int \<Rightarrow> unit result" where
  "assert_no_leakage [] decision_ts = Inr ()"
| "assert_no_leakage (m # ms) decision_ts =
     (if decision_ts \<le> tm_outcome_timestamp_ms m
      then Inl (MemoryLeakageError (tm_id m) (tm_outcome_timestamp_ms m) decision_ts)
      else assert_no_leakage ms decision_ts)"

lemma assert_no_leakage_iff:
  "assert_no_leakage ms t = Inr () \<longleftrightarrow> (\<forall>m \<in> set ms. tm_outcome_timestamp_ms m < t)"
  by (induction ms) auto

lemma assert_no_leakage_error:
  "assert_no_leakage ms t = Inl e \<Longrightarrow>
   \<exists>m \<in> set ms. e = MemoryLeakageError (tm_id m) (tm_outcome_timestamp_ms m) t \<and> t \<le> tm_outcome_timestamp_ms m"
  by (induction ms) (auto split: if_splits)

section \<open>The repository\<close>

record memory_db =
  md_memories :: "(string \<times> trading_memory) list"
  md_reflections :: "(string \<times> reflection) list"

definition save_memory :: "memory_db \<Rightarrow> trading_memory \<Rightarrow> memory_db \<times> unit result" where
  "save_memory d m =
     (if tm_embedding m = [] \<or> tm_embedding_space m = []
      then (d, Inl (ValueError ''memoria sin embedding o sin espacio versionado''))
      else (d\<lparr>md_memories := AList.update (tm_id m) m (md_memories d)\<rparr>, Inr ()))"

definition save_reflection :: "memory_db \<Rightarrow> reflection \<Rightarrow> memory_db" where
  "save_reflection d r = d\<lparr>md_reflections := AList.update (rf_id r) r (md_reflections d)\<rparr>"

record scored_memory =
  sm_memory :: trading_memory
  sm_similarity :: pyfloat

definition search_similar ::
  "(pyfloat list \<Rightarrow> pyfloat list \<Rightarrow> pyfloat) \<Rightarrow> ((trading_memory \<times> pyfloat) list \<Rightarrow> (trading_memory \<times> pyfloat) list) \<Rightarrow>
   memory_db \<Rightarrow> pyfloat list \<Rightarrow> nat \<Rightarrow> int \<Rightarrow> string \<Rightarrow> scored_memory list result" where
  \<comment> \<open>\<open>distance\<close> and \<open>rank\<close> are the cosine distance of the index and its ordering by distance\<close>
  "search_similar distance rank d query k decision_ts space =
     (let hits = filter (\<lambda>m. tm_outcome_timestamp_ms m < decision_ts \<and> tm_embedding_space m = space)
                   (map snd (md_memories d));
          rows = take k (rank (map (\<lambda>m. (m, distance (tm_embedding m) query)) hits));
          scored = map (\<lambda>(m, x). \<lparr>sm_memory = m, sm_similarity = fsub (Fin 1) x\<rparr>) rows
      in bindE (assert_no_leakage (map sm_memory scored) decision_ts) (\<lambda>_. Inr scored))"

definition count_memories :: "memory_db \<Rightarrow> nat" where
  "count_memories d = length (md_memories d)"

section \<open>The writer\<close>

record memory_writer =
  mw_space :: string
  mw_strategy_version :: string
  mw_prompt_version :: string
  mw_llm_model :: string
  mw_experiment_id :: string

fun result_value :: "trade_result \<Rightarrow> string" where
  "result_value WIN = ''WIN''"
| "result_value LOSS = ''LOSS''"
| "result_value BREAKEVEN = ''BREAKEVEN''"

fun reflection_value_upper :: "reflection_result \<Rightarrow> string" where
  \<comment> \<open>\<open>result.value.upper()\<close>\<close>
  "reflection_value_upper Win = ''WIN''"
| "reflection_value_upper Loss = ''LOSS''"
| "reflection_value_upper Breakeven = ''BREAKEVEN''"

definition or_na :: "string \<Rightarrow> string" where
  "or_na s = (if s = [] then ''n/a'' else s)"

definition memory_text :: "(pyfloat \<Rightarrow> string) \<Rightarrow> reflection \<Rightarrow> trade_outcome \<Rightarrow> string" where
  \<comment> \<open>\<open>g\<close> is the \<open>:g\<close> format; the text starts with a letter and ends with a full stop, so
     \<open>strip\<close> keeps it\<close>
  "memory_text g r oc =
     reflection_value_upper (rf_result r) @ '' '' @ g (tr_entry_price (oc_trade oc)) @ ''->'' @
     g (tr_exit_price (oc_trade oc)) @ '' mfe='' @ g (oc_mfe oc) @ '' mae='' @ g (oc_mae oc) @
     ''. Leccion: '' @ or_na (rf_lesson r) @ '' Condicion futura: '' @ or_na (rf_future_condition r) @ ''.''"

definition memory_of ::
  "memory_writer \<Rightarrow> string \<Rightarrow> pyfloat list \<Rightarrow> reflection \<Rightarrow> trade_outcome \<Rightarrow> trading_memory" where
  "memory_of w text vector r oc =
     \<lparr>tm_id = rf_id r, tm_text = text, tm_outcome_timestamp_ms = rf_outcome_closed_at_ms r,
      tm_symbol = [], tm_action = [], tm_result = result_value (oc_result oc), tm_pnl = tr_net_pnl (oc_trade oc),
      tm_mfe = oc_mfe oc, tm_mae = oc_mae oc, tm_fees = tr_fees (oc_trade oc),
      tm_slippage = tr_slippage (oc_trade oc), tm_reflection = rf_lesson r,
      tm_strategy_version = mw_strategy_version w, tm_prompt_version = mw_prompt_version w,
      tm_llm_model = mw_llm_model w, tm_experiment_id = mw_experiment_id w,
      tm_embedding_space = mw_space w, tm_embedding = vector\<rparr>"

definition persist ::
  "(pyfloat \<Rightarrow> string) \<Rightarrow> (string list \<Rightarrow> pyfloat list list result) \<Rightarrow> memory_writer \<Rightarrow> memory_db \<Rightarrow> reflection \<Rightarrow>
   trade_outcome \<Rightarrow> int option \<Rightarrow> memory_db \<times> trading_memory result" where
  "persist g emb w d r oc decision_ts =
     (if rf_outcome_closed_at_ms r < tr_exit_ts (oc_trade oc)
      then (d, Inl (ValueError ''reflexion de trade no cerrado: outcome posterior a la reflexion''))
      else
        let text = memory_text g r oc
        in case emb [text] of
             Inl e \<Rightarrow> (d, Inl e)
           | Inr [] \<Rightarrow> (d, Inl IndexError)
           | Inr (vector # _) \<Rightarrow>
               let m = memory_of w text vector r oc
               in case (case decision_ts of None \<Rightarrow> Inr () | Some t \<Rightarrow> assert_no_leakage [m] t) of
                    Inl e \<Rightarrow> (d, Inl e)
                  | Inr _ \<Rightarrow>
                      (case save_memory (save_reflection d r) m of
                         (d', Inl e) \<Rightarrow> (d', Inl e)
                       | (d', Inr _) \<Rightarrow> (d', Inr m)))"

section \<open>The comparison\<close>

record paired_decision =
  pd_timestamp_ms :: int
  pd_without :: trading_decision
  pd_with :: trading_decision

record comparison_result =
  cr_pairs :: "paired_decision list"
  cr_leakage_errors :: "py_error list"

definition guarded_retrieve :: "(market_state \<Rightarrow> trading_memory list result) \<Rightarrow> market_state \<Rightarrow> trading_memory list result" where
  \<comment> \<open>the body of the \<open>try\<close>\<close>
  "guarded_retrieve retrieve s =
     bindE (retrieve s) (\<lambda>ms. bindE (assert_no_leakage ms (ms_timestamp_ms s)) (\<lambda>_. Inr ms))"

fun is_leakage :: "py_error \<Rightarrow> bool" where
  "is_leakage (MemoryLeakageError _ _ _) = True"
| "is_leakage _ = False"

definition state_context :: "market_state \<Rightarrow> llm_context" where
  "state_context s =
     \<lparr>cx_symbol = ms_symbol s, cx_timestamp_ms = ms_timestamp_ms s, cx_experiment_id = [], cx_prompt_version = [],
      cx_market_state_hash = []\<rparr>"

type_synonym arm = "cost_monitor \<Rightarrow> market_state \<Rightarrow> trading_memory list \<Rightarrow> llm_context \<Rightarrow> cost_monitor \<times> trading_decision"

definition agent_arm ::
  "agent_config \<Rightarrow> (string \<Rightarrow> string \<Rightarrow> prompt result) \<Rightarrow>
   (market_state \<Rightarrow> trading_memory list \<Rightarrow> llm_context \<Rightarrow> prompt \<Rightarrow> decision_result result) \<Rightarrow> arm" where
  "agent_arm cfg load provider m s memories cx = agent_decide cfg load (provider s memories cx) m cx"

definition compare_state ::
  "arm \<Rightarrow> (market_state \<Rightarrow> trading_memory list result) \<Rightarrow> cost_monitor \<Rightarrow> market_state \<Rightarrow>
   cost_monitor \<times> (paired_decision \<times> py_error list) result" where
  \<comment> \<open>one iteration: both arms, the plain one first\<close>
  "compare_state decide retrieve m s =
     (case (case guarded_retrieve retrieve s of
              Inr ms \<Rightarrow> Inr (ms, [])
            | Inl e \<Rightarrow> if is_leakage e then Inr ([], [e]) else Inl e) of
        Inl e \<Rightarrow> (m, Inl e)
      | Inr (memories, errs) \<Rightarrow>
          (case decide m s [] (state_context s) of
             (m1, d0) \<Rightarrow>
               (case decide m1 s memories (state_context s) of
                  (m2, d1) \<Rightarrow>
                    (m2, Inr (\<lparr>pd_timestamp_ms = ms_timestamp_ms s, pd_without = d0, pd_with = d1\<rparr>, errs)))))"

definition run_comparison ::
  "arm \<Rightarrow> (market_state \<Rightarrow> trading_memory list result) \<Rightarrow> cost_monitor \<Rightarrow> market_state list \<Rightarrow>
   cost_monitor \<times> comparison_result result" where
  "run_comparison decide retrieve m states =
     (case run_tracker (compare_state decide retrieve) m states of
        (m', Inl e) \<Rightarrow> (m', Inl e)
      | (m', Inr rows) \<Rightarrow> (m', Inr \<lparr>cr_pairs = map fst rows, cr_leakage_errors = concat (map snd rows)\<rparr>))"

fun action_value :: "action \<Rightarrow> string" where
  "action_value BUY = ''buy''"
| "action_value SELL = ''sell''"
| "action_value HOLD = ''hold''"

definition decision_counts :: "trading_decision list \<Rightarrow> (string \<times> nat) list" where
  \<comment> \<open>\<open>_counts\<close>: the dict sorted by key\<close>
  "decision_counts ds =
     (let keys = map (action_value \<circ> td_action) ds
      in map (\<lambda>k. (k, count_list keys k)) (sorted_list_of_set (set keys)))"

definition without_memory_counts :: "comparison_result \<Rightarrow> (string \<times> nat) list" where
  "without_memory_counts r = decision_counts (map pd_without (cr_pairs r))"

definition with_memory_counts :: "comparison_result \<Rightarrow> (string \<times> nat) list" where
  "with_memory_counts r = decision_counts (map pd_with (cr_pairs r))"

section \<open>No decision sees the future\<close>

definition memory_ok :: "trading_memory \<Rightarrow> bool" where
  "memory_ok m \<longleftrightarrow> tm_embedding m \<noteq> [] \<and> tm_embedding_space m \<noteq> []"

definition memory_db_wf :: "memory_db \<Rightarrow> bool" where
  "memory_db_wf d \<longleftrightarrow> (\<forall>m \<in> set (map snd (md_memories d)). memory_ok m)"

lemma update_values: "set (map snd (AList.update k v al)) \<subseteq> insert v (set (map snd al))"
  by (induction al) auto

lemma persist_stores:
  assumes "persist g emb w d r oc ts = (d', Inr m)"
  shows "md_memories d' = AList.update (rf_id r) m (md_memories d) \<and> memory_ok m \<and>
    tm_outcome_timestamp_ms m = rf_outcome_closed_at_ms r \<and> tr_exit_ts (oc_trade oc) \<le> tm_outcome_timestamp_ms m \<and>
    tm_embedding_space m = mw_space w"
  using assms
  by (auto simp: persist_def Let_def save_memory_def save_reflection_def memory_of_def memory_ok_def
      split: if_splits sum.splits list.splits prod.splits)

lemma persist_error:
  assumes "persist g emb w d r oc ts = (d', Inl e)"
  shows "md_memories d' = md_memories d"
  using assms
  by (auto simp: persist_def Let_def save_memory_def save_reflection_def
      split: if_splits sum.splits list.splits prod.splits)

type_synonym memory_write = "memory_writer \<times> reflection \<times> trade_outcome \<times> int option"

definition memory_step ::
  "(pyfloat \<Rightarrow> string) \<Rightarrow> (string list \<Rightarrow> pyfloat list list result) \<Rightarrow> memory_db \<Rightarrow> memory_write \<Rightarrow> memory_db" where
  "memory_step g emb d x = (case x of (w, r, oc, ts) \<Rightarrow> fst (persist g emb w d r oc ts))"

lemma memory_step_new:
  assumes "m \<in> set (map snd (md_memories (memory_step g emb d (w, r, oc, ts))))"
  shows "m \<in> set (map snd (md_memories d)) \<or>
    memory_ok m \<and> tm_outcome_timestamp_ms m = rf_outcome_closed_at_ms r \<and> tr_exit_ts (oc_trade oc) \<le> tm_outcome_timestamp_ms m"
proof (cases "persist g emb w d r oc ts")
  case (Pair d' res)
  show ?thesis
  proof (cases res)
    case (Inl e)
    then show ?thesis using assms persist_error[of g emb w d r oc ts d' e] Pair by (simp add: memory_step_def)
  next
    case (Inr n)
    then have "md_memories d' = AList.update (rf_id r) n (md_memories d)" "memory_ok n"
      "tm_outcome_timestamp_ms n = rf_outcome_closed_at_ms r" "tr_exit_ts (oc_trade oc) \<le> tm_outcome_timestamp_ms n"
      using persist_stores[of g emb w d r oc ts d' n] Pair by auto
    moreover have "m \<in> insert n (set (map snd (md_memories d)))"
      using assms calculation(1) Pair update_values[of "rf_id r" n "md_memories d"] by (auto simp: memory_step_def)
    ultimately show ?thesis by auto
  qed
qed

interpretation memories: guarded_machine "memory_step g emb" memory_db_wf "\<lambda>_. True" for g emb
proof unfold_locales
  fix d and x :: memory_write
  assume wf: "memory_db_wf d"
  obtain w r oc ts where x: "x = (w, r, oc, ts)" by (cases x)
  show "memory_db_wf (memory_step g emb d x)" unfolding memory_db_wf_def x
  proof
    fix m assume "m \<in> set (map snd (md_memories (memory_step g emb d (w, r, oc, ts))))"
    from memory_step_new[OF this] show "memory_ok m" using wf unfolding memory_db_wf_def by blast
  qed
qed

definition empty_memory :: memory_db where
  "empty_memory = \<lparr>md_memories = [], md_reflections = []\<rparr>"

lemma memory_run_source:
  "m \<in> set (map snd (md_memories (foldl (memory_step g emb) d xs))) \<Longrightarrow> m \<notin> set (map snd (md_memories d)) \<Longrightarrow>
   \<exists>(w, r, oc, ts) \<in> set xs. tm_outcome_timestamp_ms m = rf_outcome_closed_at_ms r \<and> tr_exit_ts (oc_trade oc) \<le> tm_outcome_timestamp_ms m"
proof (induction xs arbitrary: d)
  case (Cons x xs)
  obtain w r oc ts where x: "x = (w, r, oc, ts)" by (cases x)
  show ?case
  proof (cases "m \<in> set (map snd (md_memories (memory_step g emb d x)))")
    case True
    then show ?thesis using memory_step_new[of m g emb d w r oc ts] x Cons.prems(2) by auto
  next
    case False
    then show ?thesis using Cons.IH[of "memory_step g emb d x"] Cons.prems(1) by auto
  qed
qed simp

lemma search_hits:
  assumes "\<And>ys. set (rank ys) \<subseteq> set ys"
  shows "\<exists>scored. search_similar distance rank d query k t space = Inr scored \<and> length scored \<le> k \<and>
    (\<forall>s \<in> set scored. sm_memory s \<in> set (map snd (md_memories d)) \<and>
       tm_outcome_timestamp_ms (sm_memory s) < t \<and> tm_embedding_space (sm_memory s) = space)"
proof -
  let ?hits = "filter (\<lambda>m. tm_outcome_timestamp_ms m < t \<and> tm_embedding_space m = space) (map snd (md_memories d))"
  let ?rows = "take k (rank (map (\<lambda>m. (m, distance (tm_embedding m) query)) ?hits))"
  let ?scored = "map (\<lambda>(m, x). \<lparr>sm_memory = m, sm_similarity = fsub (Fin 1) x\<rparr>) ?rows"
  have "set ?rows \<subseteq> set (map (\<lambda>m. (m, distance (tm_embedding m) query)) ?hits)"
    using assms set_take_subset by fastforce
  then have hit: "\<forall>s \<in> set ?scored. sm_memory s \<in> set ?hits" by fastforce
  then have "assert_no_leakage (map sm_memory ?scored) t = Inr ()" by (auto simp: assert_no_leakage_iff)
  then have "search_similar distance rank d query k t space = Inr ?scored"
    by (simp add: search_similar_def Let_def)
  then show ?thesis using hit by (intro exI[of _ ?scored]) auto
qed

text \<open>
  C35 No look-ahead through memory: whatever was persisted, a search at a decision time
  returns, without raising, at most \<open>k\<close> stored memories of its embedding space, each from a
  reflection on a trade that had ended strictly before the decision.
\<close>

theorem retrieved_trades_have_ended:
  assumes "\<And>ys. set (rank ys) \<subseteq> set ys"
  shows "\<exists>scored. search_similar distance rank (foldl (memory_step g emb) empty_memory writes) query k t space = Inr scored \<and>
    length scored \<le> k \<and>
    (\<forall>s \<in> set scored. tm_embedding_space (sm_memory s) = space \<and> tm_embedding (sm_memory s) \<noteq> [] \<and>
       (\<exists>(w, r, oc, ts) \<in> set writes. tm_outcome_timestamp_ms (sm_memory s) = rf_outcome_closed_at_ms r \<and>
          tr_exit_ts (oc_trade oc) < t))"
proof -
  let ?d = "foldl (memory_step g emb) empty_memory writes"
  have wf: "memory_db_wf ?d" by (rule memories.run_inv) (simp_all add: memory_db_wf_def empty_memory_def list_all_iff)
  have src: "\<exists>(w, r, oc, ts) \<in> set writes. tm_outcome_timestamp_ms m = rf_outcome_closed_at_ms r \<and> tr_exit_ts (oc_trade oc) < t"
    if "m \<in> set (map snd (md_memories ?d))" "tm_outcome_timestamp_ms m < t" for m
  proof -
    have "m \<notin> set (map snd (md_memories empty_memory))" by (simp add: empty_memory_def)
    from memory_run_source[OF that(1) this] obtain w r oc ts where
      "(w, r, oc, ts) \<in> set writes" "tm_outcome_timestamp_ms m = rf_outcome_closed_at_ms r"
      "tr_exit_ts (oc_trade oc) \<le> tm_outcome_timestamp_ms m" by blast
    then show ?thesis using that(2) by (intro bexI[of _ "(w, r, oc, ts)"]) auto
  qed
  obtain scored where "search_similar distance rank ?d query k t space = Inr scored" "length scored \<le> k"
    "\<forall>s \<in> set scored. sm_memory s \<in> set (map snd (md_memories ?d)) \<and> tm_outcome_timestamp_ms (sm_memory s) < t \<and>
       tm_embedding_space (sm_memory s) = space"
    using search_hits[OF assms, of distance ?d query k t space] by blast
  moreover have "tm_embedding m \<noteq> []" if "m \<in> set (map snd (md_memories ?d))" for m
    using wf that unfolding memory_db_wf_def memory_ok_def by blast
  ultimately show ?thesis using src by (intro exI[of _ scored]) blast
qed

section \<open>The comparison is fair and does not leak\<close>

definition usable :: "(market_state \<Rightarrow> trading_memory list result) \<Rightarrow> market_state \<Rightarrow> trading_memory list" where
  "usable retrieve s =
     (case retrieve s of
        Inl _ \<Rightarrow> []
      | Inr ms \<Rightarrow> if \<forall>x \<in> set ms. tm_outcome_timestamp_ms x < ms_timestamp_ms s then ms else [])"

definition fair_pair :: "arm \<Rightarrow> (market_state \<Rightarrow> trading_memory list result) \<Rightarrow> market_state \<Rightarrow> paired_decision \<Rightarrow> bool" where
  \<comment> \<open>both arms decided the same state, one after the other, the plain one without memories\<close>
  "fair_pair decide retrieve s p \<longleftrightarrow>
     pd_timestamp_ms p = ms_timestamp_ms s \<and>
     (\<exists>m. pd_without p = snd (decide m s [] (state_context s)) \<and>
        pd_with p = snd (decide (fst (decide m s [] (state_context s))) s (usable retrieve s) (state_context s)))"

lemma guarded_retrieve_cases:
  "(case guarded_retrieve retrieve s of
      Inr ms \<Rightarrow> Inr (ms, [])
    | Inl e \<Rightarrow> if is_leakage e then Inr ([], [e]) else Inl e) = Inr (ms, errs) \<Longrightarrow>
   ms = usable retrieve s \<and> (\<forall>e \<in> set errs. is_leakage e)"
proof (cases "retrieve s")
  case (Inr xs)
  then show "(case guarded_retrieve retrieve s of
      Inr ms \<Rightarrow> Inr (ms, [])
    | Inl e \<Rightarrow> if is_leakage e then Inr ([], [e]) else Inl e) = Inr (ms, errs) \<Longrightarrow> ?thesis"
    using assert_no_leakage_iff[of xs "ms_timestamp_ms s"]
    by (cases "assert_no_leakage xs (ms_timestamp_ms s)") (auto simp: guarded_retrieve_def usable_def split: if_splits)
qed (auto simp: guarded_retrieve_def usable_def split: if_splits)

lemma compare_state_fair:
  assumes "compare_state decide retrieve m s = (m', Inr (p, errs))"
  shows "fair_pair decide retrieve s p \<and> (\<forall>e \<in> set errs. is_leakage e)"
proof -
  obtain ms where ms: "(case guarded_retrieve retrieve s of
      Inr ms \<Rightarrow> Inr (ms, [])
    | Inl e \<Rightarrow> if is_leakage e then Inr ([], [e]) else Inl e) = Inr (ms, errs)"
    "p = \<lparr>pd_timestamp_ms = ms_timestamp_ms s, pd_without = snd (decide m s [] (state_context s)),
        pd_with = snd (decide (fst (decide m s [] (state_context s))) s ms (state_context s))\<rparr>"
    using assms by (auto simp: compare_state_def split: sum.splits prod.splits if_splits)
  then show ?thesis using guarded_retrieve_cases[OF ms(1)] by (auto simp: fair_pair_def)
qed

lemma run_tracker_all2:
  assumes "run_tracker upd s xs = (t, Inr ys)" "\<And>s x t y. upd s x = (t, Inr y) \<Longrightarrow> Q x y"
  shows "list_all2 Q xs ys"
  using assms(1)
proof (induction xs arbitrary: s ys)
  case (Cons x xs)
  then show ?case using assms(2) by (fastforce split: prod.splits sum.splits)
qed simp

text \<open>
  The comparison is fair: it pairs one decision of each arm per state, in order; the plain
  arm sees no memory, the other exactly what was retrieved, or nothing when any of it closed
  at or after the state's time; and what it logs are such leaks alone.
\<close>

theorem comparison_never_leaks:
  assumes "run_comparison decide retrieve m states = (m', Inr res)"
  shows "list_all2 (fair_pair decide retrieve) states (cr_pairs res) \<and>
    (\<forall>s. \<forall>x \<in> set (usable retrieve s). tm_outcome_timestamp_ms x < ms_timestamp_ms s) \<and>
    (\<forall>e \<in> set (cr_leakage_errors res). \<exists>i a b. e = MemoryLeakageError i a b)"
proof -
  obtain rows where r: "run_tracker (compare_state decide retrieve) m states = (m', Inr rows)"
    "res = \<lparr>cr_pairs = map fst rows, cr_leakage_errors = concat (map snd rows)\<rparr>"
    using assms by (auto simp: run_comparison_def split: prod.splits sum.splits)
  have "list_all2 (\<lambda>s r. fair_pair decide retrieve s (fst r) \<and> (\<forall>e \<in> set (snd r). is_leakage e)) states rows"
    by (rule run_tracker_all2[OF r(1)]) (metis compare_state_fair prod.collapse)
  then have "list_all2 (fair_pair decide retrieve) states (map fst rows) \<and> (\<forall>r \<in> set rows. \<forall>e \<in> set (snd r). is_leakage e)"
    by (induction rule: list_all2_induct) auto
  moreover have "\<exists>i a b. e = MemoryLeakageError i a b" if "is_leakage e" for e using that by (cases e) auto
  moreover have "\<forall>x \<in> set (usable retrieve s). tm_outcome_timestamp_ms x < ms_timestamp_ms s" for s
    by (auto simp: usable_def split: sum.splits)
  ultimately show ?thesis using r(2) by auto
qed

definition example_outcome :: trade_outcome where
  "example_outcome =
     \<lparr>oc_trade = \<lparr>tr_entry_ts = 1, tr_exit_ts = 5, tr_entry_price = Fin 100, tr_exit_price = Fin 110, tr_quantity = Fin 1,
        tr_gross_pnl = Fin 10, tr_fees = Fin 1, tr_slippage = Fin 0, tr_net_pnl = Fin 9\<rparr>,
      oc_result = WIN, oc_mfe = Fin 10, oc_mae = Fin 0, oc_r_multiple = None\<rparr>"

definition example_writer :: memory_writer where
  "example_writer =
     \<lparr>mw_space = ''p|m|1'', mw_strategy_version = [], mw_prompt_version = [], mw_llm_model = [], mw_experiment_id = []\<rparr>"

definition example_write :: memory_write where
  "example_write =
     (example_writer,
      reflect (\<lambda>s. s) \<lparr>re_mae_counter_trend_atr = Fin 2, re_premature_capture_ratio = Fin 1\<rparr> example_outcome 6 None None,
      example_outcome, None)"

theorem retrieved_trades_have_ended_witness:
  "\<exists>scored. search_similar (\<lambda>_ _. Fin 0) (\<lambda>ys. ys)
      (foldl (memory_step (\<lambda>_. []) (\<lambda>_. Inr [[Fin 1]])) empty_memory [example_write]) [Fin 1] 3 7 ''p|m|1'' = Inr scored \<and>
    length scored \<le> 3"
proof -
  note ended = retrieved_trades_have_ended[of "\<lambda>ys. ys", OF subset_refl]
  show ?thesis using ended by blast
qed

definition example_state :: market_state where
  "example_state =
     \<lparr>ms_symbol = ''ETHUSDT'', ms_timestamp_ms = 5, ms_health = HEALTHY, ms_regime = None, ms_timeframes = [],
      ms_orderbook = None, ms_btc = None\<rparr>"

abbreviation example_arm :: arm where
  "example_arm \<equiv> \<lambda>m s ms cx. (m, decision_hold (cx_timestamp_ms cx) ''x'')"

abbreviation example_retrieve :: "market_state \<Rightarrow> trading_memory list result" where
  \<comment> \<open>a memory that closed after the state\<close>
  "example_retrieve \<equiv> \<lambda>s. Inr [memory_of example_writer [] [Fin 1] (fst (snd example_write)) example_outcome]"

definition example_comparison :: comparison_result where
  "example_comparison =
     projr (snd (run_comparison example_arm example_retrieve (new_cost_monitor (Fin 1) (Fin 1)) [example_state]))"

theorem comparison_never_leaks_witness:
  "list_all2 (fair_pair example_arm example_retrieve) [example_state] (cr_pairs example_comparison)"
proof (rule conjunct1[OF comparison_never_leaks])
  let ?r = "run_comparison example_arm example_retrieve (new_cost_monitor (Fin 1) (Fin 1)) [example_state]"
  have "\<not> isl (snd ?r)" by code_simp
  then show "?r = (fst ?r, Inr example_comparison)"
    unfolding example_comparison_def by (metis prod.collapse sum.collapse(2))
qed

end
