(* ===== verification/Metrics.thy ===== *)
theory Metrics
  imports PyMath Portfolio Candles "HOL-Library.Multiset"
begin

text \<open>
  The evaluation of a strategy (\<open>domain/evaluation/\<close>): performance metrics
  (\<open>metrics.py\<close>), buy and hold (\<open>buy_hold.py\<close>), baselines and degradation
  (\<open>comparison.py\<close>), cost, parameter and regime sensitivity (\<open>sensitivity.py\<close>), bootstrap and
  Monte Carlo (\<open>bootstrap.py\<close>).  The random generator is an argument: \<open>draw b i\<close> is the
  \<open>i\<close>-th index of resample \<open>b\<close>, \<open>shuffle b\<close> the permutation of simulation \<open>b\<close>; \<open>pow_fn\<close> is
  the power function of the C library.
\<close>

section \<open>Performance metrics\<close>

record performance_metrics =
  pm_gross_pnl :: pyfloat
  pm_net_pnl :: pyfloat
  pm_fully_loaded_pnl :: pyfloat
  pm_fees :: pyfloat
  pm_slippage :: pyfloat
  pm_llm_cost :: pyfloat
  pm_trades :: nat
  pm_win_rate :: "pyfloat option"
  pm_loss_rate :: "pyfloat option"
  pm_profit_factor :: "pyfloat option"
  pm_sharpe :: "pyfloat option"
  pm_sortino :: "pyfloat option"
  pm_max_drawdown :: pyfloat
  pm_expectancy :: "pyfloat option"
  pm_avg_winner :: "pyfloat option"
  pm_avg_loser :: "pyfloat option"
  pm_risk_reward :: "pyfloat option"
  pm_avg_holding_bars :: pyfloat
  pm_exposure :: pyfloat

definition equity_returns :: "pyfloat list \<Rightarrow> pyfloat list" where
  "equity_returns eq =
     map (\<lambda>i. fdiv (fsub (eq ! i) (eq ! (i - 1))) (eq ! (i - 1)))
       (filter (\<lambda>i. \<not> feq (eq ! (i - 1)) (Fin 0)) [1..<length eq])"

definition sharpe :: "pyfloat list \<Rightarrow> pyfloat \<Rightarrow> pyfloat option result" where
  "sharpe rets periods_per_year =
     (if length rets < 2 then Inr None
      else bindE (stat_stdev rets) (\<lambda>std.
        if feq std (Fin 0) then Inr None
        else bindE (stat_mean rets) (\<lambda>m.
             bindE (math_sqrt periods_per_year) (\<lambda>root. Inr (Some (fmul (fdiv m std) root))))))"

definition sortino :: "pyfloat list \<Rightarrow> pyfloat \<Rightarrow> pyfloat option result" where
  "sortino rets periods_per_year =
     (if length rets < 2 then Inr None
      else let downside = filter (\<lambda>r. flt r (Fin 0)) rets
        in if downside = [] then Inr None
           else bindE (math_sqrt (fdiv (pysum (map (\<lambda>r. fmul r r) downside)) (fint (int (length rets))))) (\<lambda>dev.
                bindE (stat_mean rets) (\<lambda>m.
                bindE (pdiv m dev) (\<lambda>q.
                bindE (math_sqrt periods_per_year) (\<lambda>root. Inr (Some (fmul q root)))))))"

fun drawdown_step :: "pyfloat \<times> pyfloat \<Rightarrow> pyfloat \<Rightarrow> pyfloat \<times> pyfloat" where
  \<comment> \<open>the peak and the drawdown so far\<close>
  "drawdown_step (peak, dd) eq =
     (let peak = fmax peak eq
      in (peak, if flt (Fin 0) peak then fmax dd (fdiv (fsub peak eq) peak) else dd))"

definition max_drawdown :: "pyfloat list \<Rightarrow> pyfloat" where
  "max_drawdown eq = (if eq = [] then Fin 0 else snd (foldl drawdown_step (hd eq, Fin 0) eq))"

definition opt_mean :: "pyfloat list \<Rightarrow> pyfloat option result" where
  \<comment> \<open>\<open>statistics.mean(xs) if xs else None\<close>\<close>
  "opt_mean xs = (if xs = [] then Inr None else bindE (stat_mean xs) (\<lambda>m. Inr (Some m)))"

definition profit_factor :: "trade list \<Rightarrow> pyfloat \<Rightarrow> pyfloat \<Rightarrow> pyfloat option" where
  \<comment> \<open>gross profit and loss; the division has a nonzero divisor\<close>
  "profit_factor ts gross_profit gross_loss =
     (if ts = [] then None
      else if feq gross_loss (Fin 0) then (if flt (Fin 0) gross_profit then Some PInf else None)
      else Some (fdiv gross_profit gross_loss))"

definition compute_metrics ::
  "trade list \<Rightarrow> pyfloat list \<Rightarrow> pyfloat \<Rightarrow> pyfloat \<Rightarrow> pyfloat \<Rightarrow> pyfloat \<Rightarrow> performance_metrics result" where
  "compute_metrics ts equity_curve periods_per_year llm_cost exposure avg_holding_bars =
     (let gross = pysum (map tr_gross_pnl ts);
          fees = pysum (map tr_fees ts);
          slippage = pysum (map tr_slippage ts);
          net = fsub gross fees;
          winners = filter (\<lambda>x. flt (Fin 0) x) (map tr_net_pnl ts);
          losers = filter (\<lambda>x. flt x (Fin 0)) (map tr_net_pnl ts);
          win_rate = (if ts = [] then None else Some (idiv (int (length winners)) (int (length ts))));
          loss_rate = map_option (fsub (Fin 1)) win_rate;
          rets = equity_returns equity_curve
      in bindE (sharpe rets periods_per_year) (\<lambda>sh.
         bindE (sortino rets periods_per_year) (\<lambda>so.
         bindE (opt_mean (map tr_net_pnl ts)) (\<lambda>expectancy.
         bindE (opt_mean winners) (\<lambda>avg_winner.
         bindE (opt_mean losers) (\<lambda>avg_loser.
           Inr \<lparr>pm_gross_pnl = gross, pm_net_pnl = net, pm_fully_loaded_pnl = fsub net llm_cost,
                pm_fees = fees, pm_slippage = slippage, pm_llm_cost = llm_cost, pm_trades = length ts,
                pm_win_rate = win_rate, pm_loss_rate = loss_rate,
                pm_profit_factor = profit_factor ts (pysum winners) (fneg (pysum losers)),
                pm_sharpe = sh, pm_sortino = so, pm_max_drawdown = max_drawdown equity_curve,
                pm_expectancy = expectancy, pm_avg_winner = avg_winner, pm_avg_loser = avg_loser,
                pm_risk_reward =
                  (case (avg_winner, avg_loser) of
                     (Some w, Some l) \<Rightarrow> if feq l (Fin 0) then None else Some (fdiv w (fabs l))
                   | _ \<Rightarrow> None),
                pm_avg_holding_bars = avg_holding_bars, pm_exposure = exposure\<rparr>))))))"

section \<open>Buy and hold\<close>

definition run_buy_and_hold ::
  "candle list \<Rightarrow> fill_model \<Rightarrow> pyfloat \<Rightarrow> pyfloat \<Rightarrow> performance_metrics result" where
  "run_buy_and_hold cs model initial_cash periods_per_year =
     (if cs = [] then compute_metrics [] [] periods_per_year (Fin 0) (Fin 0) (Fin 0)
      else
        let p0 = new_portfolio initial_cash initial_cash
        in bindE (fill_buy model (timestamp_ms (hd cs)) (c_open (hd cs)) (pf_cash p0)) (\<lambda>f.
           case apply_buy p0 f of
             (_, Inl e) \<Rightarrow> Inl e
           | (p1, Inr _) \<Rightarrow>
               let eq = map (\<lambda>c. equity p1 (c_close c)) cs;
                   p2 = apply_sell p1 (fill_sell model (timestamp_ms (last cs)) (c_close (last cs)) (pf_position p1));
                   eq2 = butlast eq @ [equity p2 (c_close (last cs))]
               in compute_metrics (pf_trades p2) eq2 periods_per_year (Fin 0) (Fin 1) (fint (int (length cs) - 1))))"

section \<open>Comparison with baselines\<close>

record baseline_comparison =
  bc_strategy_net :: pyfloat
  bc_deterministic_net :: pyfloat
  bc_ml_net :: pyfloat
  bc_buy_hold_net :: pyfloat
  bc_beats_deterministic :: bool
  bc_beats_ml :: bool
  bc_beats_buy_hold :: bool
  bc_verdict :: string

definition compare_baselines :: "pyfloat \<Rightarrow> pyfloat \<Rightarrow> pyfloat \<Rightarrow> pyfloat \<Rightarrow> baseline_comparison" where
  "compare_baselines strategy_net deterministic_net ml_net buy_hold_net =
     (let det = flt deterministic_net strategy_net; ml = flt ml_net strategy_net; bh = flt buy_hold_net strategy_net
      in \<lparr>bc_strategy_net = strategy_net, bc_deterministic_net = deterministic_net, bc_ml_net = ml_net,
          bc_buy_hold_net = buy_hold_net, bc_beats_deterministic = det, bc_beats_ml = ml,
          bc_beats_buy_hold = bh, bc_verdict = (if det \<and> ml \<and> bh then ''PASS'' else ''FAIL'')\<rparr>)"

record degradation_report =
  dg_train_metric :: pyfloat
  dg_validation_metric :: pyfloat
  dg_holdout_metric :: pyfloat
  dg_holdout_retention :: pyfloat
  dg_holdout_negative :: bool
  dg_is_overfit :: bool

definition degradation_train_val_holdout :: "pyfloat \<Rightarrow> pyfloat \<Rightarrow> pyfloat \<Rightarrow> pyfloat \<Rightarrow> degradation_report" where
  "degradation_train_val_holdout train validation holdout min_retention =
     (let retention = (if flt (Fin 0) train then fmax (Fin 0) (fmin (fdiv holdout train) (Fin 1)) else Fin 0);
          overfit = (fle holdout (Fin 0) \<or> flt retention min_retention \<or>
                     flt (Fin 0) train \<and> fle validation (Fin 0))
      in \<lparr>dg_train_metric = train, dg_validation_metric = validation, dg_holdout_metric = holdout,
          dg_holdout_retention = retention, dg_holdout_negative = fle holdout (Fin 0), dg_is_overfit = overfit\<rparr>)"

section \<open>Sensitivity\<close>

record sensitivity_point =
  sn_bps :: pyfloat
  sn_total_net_pnl :: pyfloat
  sn_extra_cost_usd :: pyfloat
  sn_survives :: bool

definition trade_notional :: "trade \<Rightarrow> pyfloat" where
  "trade_notional t = fmul (tr_quantity t) (fadd (tr_entry_price t) (tr_exit_price t))"

definition cost_sensitivity :: "trade list \<Rightarrow> pyfloat list \<Rightarrow> sensitivity_point list" where
  "cost_sensitivity ts bps_range =
     (let baseline = pysum (map tr_net_pnl ts)
      in map (\<lambda>bps.
           let extra = pysum (map (\<lambda>t. fmul (trade_notional t) (fdiv bps (Fin 10000))) ts);
               net = fsub baseline extra
           in \<lparr>sn_bps = bps, sn_total_net_pnl = net, sn_extra_cost_usd = extra, sn_survives = flt (Fin 0) net\<rparr>)
         bps_range)"

definition fee_sensitivity :: "trade list \<Rightarrow> pyfloat list \<Rightarrow> sensitivity_point list" where
  "fee_sensitivity ts bps_range = cost_sensitivity ts bps_range"

definition slippage_sensitivity :: "trade list \<Rightarrow> pyfloat list \<Rightarrow> sensitivity_point list" where
  "slippage_sensitivity ts bps_range = cost_sensitivity ts bps_range"

record parameter_report =
  pr_best_params :: "pyfloat list"
  pr_best_net_pnl :: pyfloat
  pr_neighbor_ratio :: pyfloat
  pr_is_robust :: bool

fun best_entry :: "pyfloat list \<times> pyfloat \<Rightarrow> (pyfloat list \<times> pyfloat) list \<Rightarrow> pyfloat list \<times> pyfloat" where
  \<comment> \<open>\<open>max\<close> with a key: the first entry unless a later one is greater\<close>
  "best_entry b [] = b"
| "best_entry b (x # xs) = best_entry (if flt (snd b) (snd x) then x else b) xs"

definition lookup_params :: "(pyfloat list \<times> pyfloat) list \<Rightarrow> pyfloat list \<Rightarrow> pyfloat option" where
  \<comment> \<open>in the dict with float keys, where the last of equal keys wins; NaN is not a parameter\<close>
  "lookup_params grid key = map_of (rev grid) key"

definition probes :: "pyfloat list \<Rightarrow> pyfloat list list" where
  \<comment> \<open>one step down and up on each axis\<close>
  "probes best = concat (map (\<lambda>axis. map (\<lambda>delta. best[axis := fadd (best ! axis) delta]) [Fin (- 1), Fin 1]) [0..<length best])"

definition parameter_sensitivity :: "(pyfloat list \<times> pyfloat) list \<Rightarrow> pyfloat \<Rightarrow> parameter_report result" where
  \<comment> \<open>the grid with its keys already \<open>float\<close>\<close>
  "parameter_sensitivity grid min_neighbor_ratio =
     (if grid = [] then Inl (ValueError ''grid vacio'')
      else
        let best = best_entry (hd grid) (tl grid);
            neighbors = List.map_filter (lookup_params grid) (probes (fst best));
            ratio = (if neighbors = [] then Fin 0
                     else idiv (int (length (filter (\<lambda>v. flt (Fin 0) v) neighbors))) (int (length neighbors)))
        in Inr \<lparr>pr_best_params = fst best, pr_best_net_pnl = snd best, pr_neighbor_ratio = ratio,
                pr_is_robust = (flt (Fin 0) (snd best) \<and> fle min_neighbor_ratio ratio)\<rparr>)"

record regime_stats =
  rs_regime :: string
  rs_n_trades :: nat
  rs_net_pnl :: pyfloat
  rs_win_rate :: pyfloat
  rs_profitable :: bool

record regime_report =
  rr_per_regime :: "regime_stats list"
  rr_profitable_regimes :: nat
  rr_meets_two_regime_rule :: bool

definition regime_stats_of :: "string \<times> trade list \<Rightarrow> regime_stats option" where
  "regime_stats_of x =
     (case x of (regime, ts) \<Rightarrow>
        if ts = [] then None
        else let net = pysum (map tr_net_pnl ts)
          in Some \<lparr>rs_regime = regime, rs_n_trades = length ts, rs_net_pnl = net,
                   rs_win_rate = idiv (int (length (filter (\<lambda>t. flt (Fin 0) (tr_net_pnl t)) ts))) (int (length ts)),
                   rs_profitable = flt (Fin 0) net\<rparr>)"

definition analyze_regimes :: "(string \<times> trade list) list \<Rightarrow> regime_report" where
  "analyze_regimes by_regime =
     (let stats = List.map_filter regime_stats_of by_regime;
          profitable = length (filter rs_profitable stats)
      in \<lparr>rr_per_regime = stats, rr_profitable_regimes = profitable, rr_meets_two_regime_rule = 2 \<le> profitable\<rparr>)"

section \<open>Bootstrap and Monte Carlo\<close>

record confidence_interval =
  ci_point :: pyfloat
  ci_low :: pyfloat
  ci_high :: pyfloat
  ci_n_samples :: nat
  ci_n_bootstraps :: nat
  ci_method :: string

fun py_int :: "pyfloat \<Rightarrow> int result" where
  \<comment> \<open>\<open>int(x)\<close>: towards zero\<close>
  "py_int (Fin q) = Inr (if 0 \<le> q then \<lfloor>q\<rfloor> else \<lceil>q\<rceil>)"
| "py_int NaN = Inl (ValueError ''cannot convert float NaN to integer'')"
| "py_int _ = Inl OverflowError"

definition py_nth :: "'a list \<Rightarrow> int \<Rightarrow> 'a result" where
  \<comment> \<open>\<open>xs[i]\<close>, from the end for a negative index\<close>
  "py_nth xs i =
     (if 0 \<le> i \<and> i < int (length xs) then Inr (xs ! nat i)
      else if i < 0 \<and> 0 \<le> int (length xs) + i then Inr (xs ! nat (int (length xs) + i))
      else Inl IndexError)"

definition percentile :: "pyfloat list \<Rightarrow> pyfloat \<Rightarrow> pyfloat result" where
  "percentile sorted_values q =
     (let n = int (length sorted_values) in
      bindE (py_int (fadd (fmul q (fint (n - 1))) (Fin (1/2)))) (\<lambda>k.
        py_nth sorted_values (min k (n - 1))))"

definition resample :: "(nat \<Rightarrow> nat \<Rightarrow> nat) \<Rightarrow> pyfloat list \<Rightarrow> nat \<Rightarrow> pyfloat list" where
  \<comment> \<open>\<open>draw b i\<close> is what \<open>rng.randrange(n)\<close> gives, below \<open>n\<close>\<close>
  "resample draw values b = map (\<lambda>i. values ! draw b i) [0..<length values]"

definition bootstrap_ci ::
  "(nat \<Rightarrow> nat \<Rightarrow> nat) \<Rightarrow> (pyfloat list \<Rightarrow> pyfloat result) \<Rightarrow> pyfloat list \<Rightarrow> nat \<Rightarrow> pyfloat \<Rightarrow>
   confidence_interval result" where
  "bootstrap_ci draw statistic values n_bootstraps ci_level =
     (if values = [] then Inl (ValueError ''muestra vacia'')
      else bindE (statistic values) (\<lambda>point.
           bindE (mapE (\<lambda>b. statistic (resample draw values b)) [0..<n_bootstraps]) (\<lambda>stats.
             let sorted = fsorted stats; alpha = fdiv (fsub (Fin 1) ci_level) (Fin 2)
             in bindE (percentile sorted alpha) (\<lambda>low.
                bindE (percentile sorted (fsub (Fin 1) alpha)) (\<lambda>high.
                  Inr \<lparr>ci_point = point, ci_low = low, ci_high = high, ci_n_samples = length values,
                       ci_n_bootstraps = n_bootstraps, ci_method = ''percentile-bootstrap''\<rparr>)))))"

definition sharpe_of :: "(pyfloat \<Rightarrow> pyfloat \<Rightarrow> pyfloat result) \<Rightarrow> pyfloat list \<Rightarrow> pyfloat \<Rightarrow> pyfloat option result" where
  "sharpe_of pow_fn rets periods_per_year =
     (if length rets < 2 then Inr None
      else bindE (stat_stdev rets) (\<lambda>sd.
        if feq sd (Fin 0) then Inr None
        else bindE (stat_mean rets) (\<lambda>m.
             bindE (pow_fn periods_per_year (Fin (1/2))) (\<lambda>root. Inr (Some (fmul (fdiv m sd) root))))))"

record monte_carlo_report =
  mc_p50_drawdown :: pyfloat
  mc_p95_drawdown :: pyfloat
  mc_p99_drawdown :: pyfloat
  mc_ruin_probability :: pyfloat
  mc_n_sims :: nat

fun simulate :: "pyfloat \<Rightarrow> pyfloat \<Rightarrow> pyfloat \<Rightarrow> pyfloat \<Rightarrow> pyfloat list \<Rightarrow> bool \<times> pyfloat" where
  \<comment> \<open>the inner loop from equity, peak and drawdown; ruin ends it\<close>
  "simulate limit eq peak max_dd [] = (False, max_dd)"
| "simulate limit eq peak max_dd (pnl # pnls) =
     (let eq = fadd eq pnl;
          peak = (if flt peak eq then eq else peak);
          dd = (if flt (Fin 0) peak then fdiv (fsub peak eq) peak else Fin 0);
          max_dd = (if flt max_dd dd then dd else max_dd)
      in if fle eq limit then (True, max_dd) else simulate limit eq peak max_dd pnls)"

definition monte_carlo_drawdown ::
  "(nat \<Rightarrow> pyfloat list \<Rightarrow> pyfloat list) \<Rightarrow> pyfloat list \<Rightarrow> pyfloat \<Rightarrow> nat \<Rightarrow> pyfloat \<Rightarrow> monte_carlo_report result" where
  "monte_carlo_drawdown shuffle net_pnls initial_capital n_sims ruin_threshold =
     (if net_pnls = [] \<or> fle initial_capital (Fin 0)
      then Inl (ValueError ''se requieren trades y capital positivo'')
      else
        let limit = fmul initial_capital (fsub (Fin 1) ruin_threshold);
            sims = map (\<lambda>b. simulate limit initial_capital initial_capital (Fin 0) (shuffle b net_pnls)) [0..<n_sims];
            ruined = length (filter fst sims);
            max_dds = fsorted (map snd sims)
        in bindE (percentile max_dds (Fin (1/2))) (\<lambda>p50.
           bindE (percentile max_dds (rnd (95/100))) (\<lambda>p95.
           bindE (percentile max_dds (rnd (99/100))) (\<lambda>p99.
           if n_sims = 0 then Inl ZeroDivisionError
           else Inr \<lparr>mc_p50_drawdown = p50, mc_p95_drawdown = p95, mc_p99_drawdown = p99,
                     mc_ruin_probability = idiv (int ruined) (int n_sims), mc_n_sims = n_sims\<rparr>))))"

section \<open>The maximum drawdown\<close>

definition peak_at :: "pyfloat \<Rightarrow> pyfloat list \<Rightarrow> nat \<Rightarrow> pyfloat" where
  "peak_at h eq j = foldl fmax h (take (Suc j) eq)"

definition loss_at :: "pyfloat \<Rightarrow> pyfloat list \<Rightarrow> nat \<Rightarrow> pyfloat" where
  "loss_at h eq j = fdiv (fsub (peak_at h eq j) (eq ! j)) (peak_at h eq j)"

definition amount :: "pyfloat \<Rightarrow> bool" where
  "amount x \<longleftrightarrow> (\<exists>q. x = Fin q \<and> 0 \<le> q \<and> representable q)"

lemma amount_fmax: "amount a \<Longrightarrow> amount b \<Longrightarrow> amount (fmax a b) \<and> fle b (fmax a b)"
  by (auto simp: amount_def max_def)

lemma loss_between: "amount p \<Longrightarrow> amount e \<Longrightarrow> fle e p \<Longrightarrow> positive p \<Longrightarrow>
  nonneg (fdiv (fsub p e) p) \<and> fle (fdiv (fsub p e) p) (Fin 1)"
proof -
  assume a: "amount p" "amount e" "fle e p" "positive p"
  then obtain q r where q: "p = Fin q" "0 < q" "representable q" "e = Fin r" "0 \<le> r" "r \<le> q" by (auto simp: amount_def)
  obtain d where d: "rnd (q - r) = Fin d" "0 \<le> d" "d \<le> q"
    using binary64.rd_between[of 0 q "q - r"] q by (auto simp: representable_def)
  show ?thesis using fdiv_le_one[OF d(2,3) q(2)] d(1) q(1,4) by auto
qed

lemma drawdown_run:
  assumes "amount h" "list_all amount eq"
  shows "\<exists>p d. foldl drawdown_step (h, Fin 0) eq = (p, d) \<and> p = foldl fmax h eq \<and> amount p \<and>
    nonneg d \<and> fle d (Fin 1) \<and>
    (\<forall>j < length eq. positive (peak_at h eq j) \<longrightarrow> fle (loss_at h eq j) d) \<and>
    (d = Fin 0 \<or> (\<exists>j < length eq. positive (peak_at h eq j) \<and> d = loss_at h eq j))"
  using assms(2)
proof (induction eq rule: rev_induct)
  case Nil
  then show ?case using assms(1) by simp
next
  case (snoc e eq)
  then obtain p d where i: "foldl drawdown_step (h, Fin 0) eq = (p, d)" "p = foldl fmax h eq" "amount p"
    "nonneg d" "fle d (Fin 1)"
    "\<forall>j < length eq. positive (peak_at h eq j) \<longrightarrow> fle (loss_at h eq j) d"
    "d = Fin 0 \<or> (\<exists>j < length eq. positive (peak_at h eq j) \<and> d = loss_at h eq j)" by auto
  let ?p = "fmax p e" and ?n = "length eq"
  have e: "amount e" using snoc.prems by simp
  have p: "amount ?p" "fle e ?p" using amount_fmax[OF i(3) e] by auto
  have old: "peak_at h (eq @ [e]) j = peak_at h eq j" "loss_at h (eq @ [e]) j = loss_at h eq j" if "j < ?n" for j
    using that by (simp_all add: peak_at_def loss_at_def nth_append)
  have new: "peak_at h (eq @ [e]) ?n = ?p" "loss_at h (eq @ [e]) ?n = fdiv (fsub ?p e) ?p"
    using i(2) by (simp_all add: peak_at_def loss_at_def)
  have split: "(\<forall>j < Suc ?n. P j) \<longleftrightarrow> (\<forall>j < ?n. P j) \<and> P ?n" "(\<exists>j < Suc ?n. P j) \<longleftrightarrow> (\<exists>j < ?n. P j) \<or> P ?n" for P
    by (auto simp: less_Suc_eq)
  define d' where "d' = (if flt (Fin 0) ?p then fmax d (fdiv (fsub ?p e) ?p) else d)"
  have run: "foldl drawdown_step (h, Fin 0) (eq @ [e]) = (?p, d')" using i(1) by (simp add: d'_def Let_def)
  have keep: "(\<forall>j < ?n. positive (peak_at h (eq @ [e]) j) \<longrightarrow> fle (loss_at h (eq @ [e]) j) d)"
    "d = Fin 0 \<or> (\<exists>j < ?n. positive (peak_at h (eq @ [e]) j) \<and> d = loss_at h (eq @ [e]) j)"
    using i(6,7) old by auto
  have "d \<noteq> NaN" using i(4) by auto
  have "nonneg d' \<and> fle d' (Fin 1) \<and> (\<forall>j < ?n. positive (peak_at h (eq @ [e]) j) \<longrightarrow> fle (loss_at h (eq @ [e]) j) d') \<and>
    (positive ?p \<longrightarrow> fle (fdiv (fsub ?p e) ?p) d') \<and>
    (d' = d \<or> positive ?p \<and> d' = fdiv (fsub ?p e) ?p)"
  proof (cases "positive ?p")
    case True
    let ?l = "fdiv (fsub ?p e) ?p"
    have l: "nonneg ?l" "fle ?l (Fin 1)" using loss_between[OF p(1) e p(2) True] by auto
    then have "?l \<noteq> NaN" by auto
    have d': "d' = fmax d ?l" using True by (simp add: d'_def)
    have "fle d d'" "fle ?l d'" using \<open>d \<noteq> NaN\<close> \<open>?l \<noteq> NaN\<close> d' by (simp_all add: fmax_ge1 fmax_ge2)
    moreover have "d' = d \<or> d' = ?l" by (simp add: d' fmax_def)
    ultimately show ?thesis using i(4,5) l True keep(1) by (auto intro: fle_trans)
  next
    case False
    then have "d' = d" by (simp add: d'_def)
    then show ?thesis using i(4,5) keep(1) False by simp
  qed
  then show ?case using run p(1) i(2) keep(2) by (auto simp: split new)
qed

text \<open>
  The maximum drawdown of an equity curve of finite amounts lies between 0 and 1, bounds
  the relative loss from the running peak at every bar, and is the loss of one of the bars, or 0.
\<close>

theorem max_drawdown_is_worst_loss:
  assumes "list_all amount eq" "eq \<noteq> []"
  shows "nonneg (max_drawdown eq) \<and> fle (max_drawdown eq) (Fin 1) \<and>
    (\<forall>j < length eq. positive (peak_at (hd eq) eq j) \<longrightarrow> fle (loss_at (hd eq) eq j) (max_drawdown eq)) \<and>
    (max_drawdown eq = Fin 0 \<or>
      (\<exists>j < length eq. positive (peak_at (hd eq) eq j) \<and> max_drawdown eq = loss_at (hd eq) eq j))"
proof -
  have "amount (hd eq)" using assms by (cases eq) auto
  from drawdown_run[OF this assms(1)] show ?thesis using assms(2) by (auto simp: max_drawdown_def)
qed

section \<open>The Monte Carlo report\<close>

lemma insert_sorted_mset: "mset (insert_sorted x ys) = add_mset x (mset ys)"
  by (induction ys) auto

lemma fsorted_mset: "mset (fsorted xs) = mset xs"
proof -
  have "mset (foldl (\<lambda>ys x. insert_sorted x ys) ys xs) = mset ys + mset xs" for ys
    by (induction xs arbitrary: ys) (auto simp: insert_sorted_mset)
  from this[of "[]"] show ?thesis by (simp add: fsorted_def)
qed

lemma fsorted_set [simp]: "set (fsorted xs) = set xs"
  using fsorted_mset[of xs] by (metis set_mset_mset)

lemma insert_sorted_sorted:
  "sorted_wrt fle ys \<Longrightarrow> x \<noteq> NaN \<Longrightarrow> NaN \<notin> set ys \<Longrightarrow> sorted_wrt fle (insert_sorted x ys)"
proof (induction ys)
  case (Cons y ys)
  have s: "set (insert_sorted x zs) = insert x (set zs)" for zs
    using insert_sorted_mset[of x zs] by (metis set_mset_add_mset_insert set_mset_mset)
  show ?case
  proof (cases "flt x y")
    case True
    then show ?thesis using Cons.prems by (auto intro: flt_imp_fle fle_trans)
  next
    case False
    then have "fle y x" using Cons.prems not_flt_iff[of x y] by auto
    then show ?thesis using Cons False by (auto simp: s)
  qed
qed simp

lemma fsorted_sorted: "NaN \<notin> set xs \<Longrightarrow> sorted_wrt fle (fsorted xs)"
proof -
  have "sorted_wrt fle ys \<Longrightarrow> NaN \<notin> set ys \<Longrightarrow> NaN \<notin> set xs \<Longrightarrow>
      sorted_wrt fle (foldl (\<lambda>ys x. insert_sorted x ys) ys xs)" for ys
  proof (induction xs arbitrary: ys)
    case (Cons x xs)
    have "set (insert_sorted x ys) = insert x (set ys)"
      using insert_sorted_mset[of x ys] by (metis set_mset_add_mset_insert set_mset_mset)
    then show ?case using Cons insert_sorted_sorted[of ys x] by auto
  qed simp
  then show "NaN \<notin> set xs \<Longrightarrow> ?thesis" by (simp add: fsorted_def)
qed

lemma percentile_index:
  assumes "percentile xs q = Inr a" "nonneg q"
  shows "\<exists>m p. fint (int (length xs) - 1) = Fin m \<and> 0 \<le> m \<and> xs \<noteq> [] \<and> fadd (rnd (val q * m)) (Fin (1/2)) = Fin p \<and> is_Fin q \<and> 0 \<le> p \<and>
    a = xs ! nat (min \<lfloor>p\<rfloor> (int (length xs) - 1))"
proof -
  have ne: "xs \<noteq> []"
    using assms(1) by (auto simp: percentile_def py_nth_def Let_def bindE_eq_Inr split: if_splits)
  then have "0 < length xs" by simp
  then have "0 \<le> int (length xs) - 1" by linarith
  then have "nonneg (fint (int (length xs) - 1))" unfolding fint_def by (intro binary64.rd_nonneg) (simp only: of_int_0_le_iff)
  moreover obtain k where k: "py_int (fadd (fmul q (fint (int (length xs) - 1))) (Fin (1/2))) = Inr k"
    "py_nth xs (min k (int (length xs) - 1)) = Inr a"
    using assms(1) by (auto simp: percentile_def Let_def bindE_eq_Inr)
  ultimately obtain m where m: "fint (int (length xs) - 1) = Fin m" "0 \<le> m"
    using assms(2) by (cases "fint (int (length xs) - 1)"; cases q) (auto simp: finf_def split: if_splits)
  then have "is_Fin q" using k(1) assms(2) by (cases q) (auto simp: finf_def split: if_splits)
  then obtain v where v: "q = Fin v" "0 \<le> v" using assms(2) by (cases q) auto
  then have f: "py_int (fadd (rnd (v * m)) (Fin (1/2))) = Inr k" using k(1) m(1) by simp
  then obtain p where p: "fadd (rnd (v * m)) (Fin (1/2)) = Fin p" by (cases "fadd (rnd (v * m)) (Fin (1/2))") auto
  have "nonneg (rnd (v * m))" using v m by (intro binary64.rd_nonneg) simp
  then have "nonneg (Fin p)" unfolding p[symmetric] by (intro fadd_nonneg) auto
  then have "0 \<le> p" by simp
  then have "k = \<lfloor>p\<rfloor>" using f p by simp
  moreover from this have "0 \<le> k" using \<open>0 \<le> p\<close> by simp
  ultimately have "a = xs ! nat (min \<lfloor>p\<rfloor> (int (length xs) - 1))"
    using k(2) \<open>0 \<le> int (length xs) - 1\<close> by (auto simp: py_nth_def split: if_splits)
  then show ?thesis using m ne p v \<open>0 \<le> p\<close> by auto
qed

lemma percentile_mono:
  assumes "percentile xs q = Inr a" "percentile xs r = Inr b" "nonneg q" "fle q r" "sorted_wrt fle xs"
    and "NaN \<notin> set xs"
  shows "fle a b"
proof -
  have "nonneg r" using assms(3,4) by (rule fle_trans)
  obtain m p where p: "fint (int (length xs) - 1) = Fin m" "0 \<le> m" "xs \<noteq> []"
    "fadd (rnd (val q * m)) (Fin (1/2)) = Fin p" "is_Fin q" "0 \<le> p" "a = xs ! nat (min \<lfloor>p\<rfloor> (int (length xs) - 1))"
    using percentile_index[OF assms(1,3)] by blast
  obtain p' where p': "fadd (rnd (val r * m)) (Fin (1/2)) = Fin p'" "is_Fin r" "b = xs ! nat (min \<lfloor>p'\<rfloor> (int (length xs) - 1))"
    using percentile_index[OF assms(2) \<open>nonneg r\<close>] p(1) by auto
  have "val q \<le> val r" using assms(4) p(5) p'(2) by (cases q; cases r) auto
  then have "fle (rnd (val q * m)) (rnd (val r * m))" using p(2) by (intro binary64.rd_mono mult_right_mono)
  then have "fle (fadd (Fin (1/2)) (rnd (val q * m))) (fadd (Fin (1/2)) (rnd (val r * m)))" by (rule fadd_mono_right)
  then have "p \<le> p'" using p(4) p'(1) by (simp add: fadd_commute)
  then have "\<lfloor>p\<rfloor> \<le> \<lfloor>p'\<rfloor>" by (rule floor_mono)
  moreover have "0 \<le> \<lfloor>p\<rfloor>" using p(6) by simp
  moreover have "0 < length xs" using p(3) by simp
  ultimately have i: "nat (min \<lfloor>p\<rfloor> (int (length xs) - 1)) \<le> nat (min \<lfloor>p'\<rfloor> (int (length xs) - 1))"
    "nat (min \<lfloor>p'\<rfloor> (int (length xs) - 1)) < length xs" by linarith+
  show ?thesis
  proof (cases "nat (min \<lfloor>p\<rfloor> (int (length xs) - 1)) = nat (min \<lfloor>p'\<rfloor> (int (length xs) - 1))")
    case True
    moreover have "b \<in> set xs" unfolding p'(3) using i(2) by (rule nth_mem)
    ultimately show ?thesis using p(7) p'(3) assms(6) by auto
  next
    case False
    from le_neq_implies_less[OF i(1) this]
    have "nat (min \<lfloor>p\<rfloor> (int (length xs) - 1)) < nat (min \<lfloor>p'\<rfloor> (int (length xs) - 1))" .
    from sorted_wrt_nth_less[OF assms(5) this i(2)] show ?thesis using p(7) p'(3) by simp
  qed
qed

lemma percentile_in: "percentile xs q = Inr a \<Longrightarrow> nonneg q \<Longrightarrow> a \<in> set xs"
proof -
  assume a: "percentile xs q = Inr a" "nonneg q"
  obtain m p where p: "fint (int (length xs) - 1) = Fin m" "0 \<le> m" "xs \<noteq> []"
    "fadd (rnd (val q * m)) (Fin (1/2)) = Fin p" "is_Fin q" "0 \<le> p" "a = xs ! nat (min \<lfloor>p\<rfloor> (int (length xs) - 1))"
    using percentile_index[OF a] by blast
  then have "0 < length xs" by simp
  then have "nat (min \<lfloor>p\<rfloor> (int (length xs) - 1)) < length xs" by linarith
  then show "a \<in> set xs" unfolding p(7) by (rule nth_mem)
qed

lemma simulate_drawdown: "nonneg d \<Longrightarrow> nonneg (snd (simulate limit eq peak d pnls))"
proof (induction pnls arbitrary: eq peak d)
  case (Cons x pnls)
  have "nonneg (if flt d l then l else d)" for l using Cons.prems by (auto dest: flt_imp_fle intro: fle_trans)
  then show ?case using Cons.IH by (simp add: Let_def)
qed simp

lemma simulate_ruin:
  "fst (simulate limit eq peak d pnls) \<longleftrightarrow> (\<exists>k < length pnls. fle (foldl fadd eq (take (Suc k) pnls)) limit)"
proof (induction pnls arbitrary: eq peak d)
  case (Cons x pnls)
  have "(\<exists>k < length (x # pnls). fle (foldl fadd eq (take (Suc k) (x # pnls))) limit) \<longleftrightarrow>
      fle (fadd eq x) limit \<or> (\<exists>k < length pnls. fle (foldl fadd (fadd eq x) (take (Suc k) pnls)) limit)"
    by (auto simp: less_Suc_eq_0_disj)
  then show ?case using Cons.IH by (simp add: Let_def)
qed simp

text \<open>
  The Monte Carlo report is consistent: the drawdown percentiles are ordered and not
  negative, and the ruin probability is the share, between 0 and 1, of the simulations whose
  running capital reached the ruin limit at some trade.
\<close>

theorem monte_carlo_report_is_ordered:
  assumes "monte_carlo_drawdown shuffle pnls capital n threshold = Inr r"
  shows "nonneg (mc_p50_drawdown r) \<and> fle (mc_p50_drawdown r) (mc_p95_drawdown r) \<and>
    fle (mc_p95_drawdown r) (mc_p99_drawdown r) \<and>
    mc_ruin_probability r = idiv (int (length (filter (\<lambda>b. \<exists>k < length (shuffle b pnls).
       fle (foldl fadd capital (take (Suc k) (shuffle b pnls))) (fmul capital (fsub (Fin 1) threshold))) [0..<n]))) (int n) \<and>
    nonneg (mc_ruin_probability r) \<and> fle (mc_ruin_probability r) (Fin 1)"
proof -
  let ?sims = "map (\<lambda>b. simulate (fmul capital (fsub (Fin 1) threshold)) capital capital (Fin 0) (shuffle b pnls)) [0..<n]"
  let ?dds = "fsorted (map snd ?sims)"
  have dds: "\<forall>d \<in> set ?dds. nonneg d" by (auto intro: simulate_drawdown)
  then have nan: "NaN \<notin> set ?dds" by auto
  then have sorted: "sorted_wrt fle ?dds" by (intro fsorted_sorted) simp
  have c: "percentile ?dds (Fin (1/2)) = Inr (mc_p50_drawdown r)" "percentile ?dds (rnd (95/100)) = Inr (mc_p95_drawdown r)"
    "percentile ?dds (rnd (99/100)) = Inr (mc_p99_drawdown r)" "0 < n"
    "mc_ruin_probability r = idiv (int (length (filter fst ?sims))) (int n)"
    using assms by (auto simp: monte_carlo_drawdown_def Let_def bindE_eq_Inr split: if_splits)
  have half: "rnd (1/2) = Fin (1/2)" by code_simp
  have q: "nonneg (rnd (95/100))" "fle (Fin (1/2)) (rnd (95/100))" "fle (rnd (95/100)) (rnd (99/100))"
    using binary64.rd_nonneg[of "95/100"] binary64.rd_lower[OF half, of "95/100"] binary64.rd_mono[of "95/100" "99/100"]
    by simp_all
  have "length (filter fst ?sims) \<le> n" by (metis length_filter_le length_map length_upt minus_nat.diff_0)
  then have "0 \<le> (of_nat (length (filter fst ?sims)) :: rat) / of_nat n" "(of_nat (length (filter fst ?sims)) :: rat) / of_nat n \<le> 1"
    using c(4) by simp_all
  from binary64.rd_nonneg[OF this(1)] representable_upper[OF representable_one this(2)]
  have "nonneg (mc_ruin_probability r) \<and> fle (mc_ruin_probability r) (Fin 1)" unfolding c(5) idiv_def by simp
  moreover have "mc_ruin_probability r = idiv (int (length (filter (\<lambda>b. \<exists>k < length (shuffle b pnls).
       fle (foldl fadd capital (take (Suc k) (shuffle b pnls))) (fmul capital (fsub (Fin 1) threshold))) [0..<n]))) (int n)"
    unfolding c(5) by (simp add: filter_map comp_def simulate_ruin)
  moreover have "nonneg (mc_p50_drawdown r)" using percentile_in[OF c(1)] bspec[OF dds] by simp
  moreover have "fle (mc_p50_drawdown r) (mc_p95_drawdown r)"
    using percentile_mono[OF c(1,2) _ q(2) sorted nan] by simp
  moreover have "fle (mc_p95_drawdown r) (mc_p99_drawdown r)"
    using percentile_mono[OF c(2,3) q(1,3) sorted nan] .
  ultimately show ?thesis by blast
qed

section \<open>Witnesses\<close>

definition example_curve :: "pyfloat list" where
  "example_curve = [Fin 100, Fin 120, Fin 90]"

theorem max_drawdown_is_worst_loss_witness:
  "nonneg (max_drawdown example_curve) \<and> fle (max_drawdown example_curve) (Fin 1)"
proof -
  have "list_all amount example_curve" "example_curve \<noteq> []"
    by (simp_all add: example_curve_def amount_def representable_numeral)
  from max_drawdown_is_worst_loss[OF this] show ?thesis by blast
qed

definition example_shuffle :: "nat \<Rightarrow> pyfloat list \<Rightarrow> pyfloat list" where
  "example_shuffle b xs = (if odd b then rev xs else xs)"

definition example_mc :: monte_carlo_report where
  "example_mc = projr (monte_carlo_drawdown example_shuffle [Fin 10, Fin (- 60)] (Fin 100) 2 (Fin (1/2)))"

theorem monte_carlo_report_is_ordered_witness:
  "nonneg (mc_p50_drawdown example_mc) \<and> fle (mc_p50_drawdown example_mc) (mc_p95_drawdown example_mc) \<and>
    fle (mc_p95_drawdown example_mc) (mc_p99_drawdown example_mc) \<and>
    mc_ruin_probability example_mc = idiv (int (length (filter (\<lambda>b. \<exists>k < length (example_shuffle b [Fin 10, Fin (- 60)]).
       fle (foldl fadd (Fin 100) (take (Suc k) (example_shuffle b [Fin 10, Fin (- 60)])))
         (fmul (Fin 100) (fsub (Fin 1) (Fin (1/2))))) [0..<2]))) (int 2) \<and>
    nonneg (mc_ruin_probability example_mc) \<and> fle (mc_ruin_probability example_mc) (Fin 1)"
proof (rule monte_carlo_report_is_ordered)
  let ?r = "monte_carlo_drawdown example_shuffle [Fin 10, Fin (- 60)] (Fin 100) 2 (Fin (1/2))"
  have "\<not> isl ?r" by code_simp
  then show "?r = Inr example_mc" by (simp add: example_mc_def)
qed

end
