(* ===== verification/Backtest.thy ===== *)
theory Backtest
  imports Metrics Strategy
begin

text \<open>
  The backtesting engine (\<open>application/services/backtest_engine.py\<close>).  A strategy is its
  step function, as the protocol of the code demands no more.  The loop is one step per
  candle; what it says of a bar depends on the bars up to it, which is stated by
  interpreting \<open>causal_series\<close>, and orders decided at a close are filled at the next open.
\<close>

section \<open>The loop\<close>

record 's backtest =
  bt_strategy :: 's
  bt_portfolio :: portfolio
  bt_pending :: "signal option"
  bt_signals :: nat
  bt_open_bars :: nat
  bt_holding_bars :: "int list"
  bt_entry_bar :: "int option"
  bt_bar :: int

definition backtest_start :: "'s \<Rightarrow> pyfloat \<Rightarrow> 's backtest" where
  "backtest_start s initial_cash =
     \<lparr>bt_strategy = s, bt_portfolio = new_portfolio initial_cash initial_cash, bt_pending = None, bt_signals = 0,
      bt_open_bars = 0, bt_holding_bars = [], bt_entry_bar = None, bt_bar = 0\<rparr>"

definition execute :: "fill_model \<Rightarrow> signal \<Rightarrow> pyfloat \<Rightarrow> int \<Rightarrow> portfolio \<Rightarrow> portfolio result" where
  "execute model sig price ts p =
     (case sig_action sig of
        BUY \<Rightarrow> bindE (fill_buy model ts price (pf_cash p)) (\<lambda>f.
                 case apply_buy p f of (p', Inr _) \<Rightarrow> Inr p' | (_, Inl e) \<Rightarrow> Inl e)
      | SELL \<Rightarrow> if flt (Fin 0) (pf_position p) then Inr (apply_sell p (fill_sell model ts price (pf_position p)))
                else Inr p
      | HOLD \<Rightarrow> Inr p)"

definition run_pending :: "fill_model \<Rightarrow> candle \<Rightarrow> 's backtest \<Rightarrow> 's backtest result" where
  \<comment> \<open>the order of the previous bar, at this open\<close>
  "run_pending model c b =
     (case bt_pending b of
        None \<Rightarrow> Inr b
      | Some sig \<Rightarrow>
          let before = pf_position (bt_portfolio b)
          in bindE (execute model sig (c_open c) (timestamp_ms c) (bt_portfolio b)) (\<lambda>p.
             let opened = (sig_action sig = BUY \<and> feq before (Fin 0) \<and> flt (Fin 0) (pf_position p));
                 closed = (sig_action sig = SELL \<and> feq (pf_position p) (Fin 0) \<and> flt (Fin 0) before)
             in Inr (b\<lparr>bt_portfolio := p, bt_pending := None,
                   bt_entry_bar := (if opened then Some (bt_bar b) else if closed then None else bt_entry_bar b),
                   bt_holding_bars := (if closed
                      then bt_holding_bars b @ [bt_bar b - (case bt_entry_bar b of None \<Rightarrow> bt_bar b | Some e \<Rightarrow> e)]
                      else bt_holding_bars b)\<rparr>)))"

definition backtest_step ::
  "('s \<Rightarrow> candle \<Rightarrow> 's \<times> signal result) \<Rightarrow> fill_model \<Rightarrow> 's backtest \<Rightarrow> candle \<Rightarrow> 's backtest \<times> pyfloat result" where
  \<comment> \<open>one candle; the output is the point of the equity curve\<close>
  "backtest_step on model b c =
     (case run_pending model c b of
        Inl e \<Rightarrow> (b, Inl e)
      | Inr b1 \<Rightarrow>
          (case on (bt_strategy b1) c of
             (s, Inl e) \<Rightarrow> (b1\<lparr>bt_strategy := s\<rparr>, Inl e)
           | (s, Inr sig) \<Rightarrow>
               (b1\<lparr>bt_strategy := s, bt_pending := Some sig,
                  bt_signals := (if sig_action sig \<noteq> HOLD then bt_signals b1 + 1 else bt_signals b1),
                  bt_open_bars := (if flt (Fin 0) (pf_position (bt_portfolio b1)) then bt_open_bars b1 + 1 else bt_open_bars b1),
                  bt_bar := bt_bar b1 + 1\<rparr>,
                Inr (equity (bt_portfolio b1) (c_close c)))))"

record backtest_result =
  br_portfolio :: portfolio
  br_trades :: "trade list"
  br_equity_curve :: "pyfloat list"
  br_metrics :: performance_metrics
  br_signals :: nat

definition run_backtest ::
  "('s \<Rightarrow> candle \<Rightarrow> 's \<times> signal result) \<Rightarrow> fill_model \<Rightarrow> pyfloat \<Rightarrow> pyfloat \<Rightarrow> 's \<Rightarrow> candle list \<Rightarrow>
   backtest_result result" where
  "run_backtest on model initial_cash periods_per_year s cs =
     (case run_tracker (backtest_step on model) (backtest_start s initial_cash) cs of
        (_, Inl e) \<Rightarrow> Inl e
      | (b, Inr eq) \<Rightarrow>
          let p = bt_portfolio b;
              exposure = (if cs = [] then Fin 0 else idiv (int (bt_open_bars b)) (int (length cs)));
              holding = (if bt_holding_bars b = [] then Fin 0
                         else idiv (sum_list (bt_holding_bars b)) (int (length (bt_holding_bars b))))
          in bindE (compute_metrics (pf_trades p) eq periods_per_year (Fin 0) exposure holding) (\<lambda>m.
               Inr \<lparr>br_portfolio = p, br_trades = pf_trades p, br_equity_curve = eq, br_metrics = m,
                    br_signals = bt_signals b\<rparr>))"

section \<open>No look-ahead\<close>

lemma run_tracker_take:
  "run_tracker upd s xs = (t, Inr ys) \<Longrightarrow> \<exists>u. run_tracker upd s (take n xs) = (u, Inr (take n ys))"
proof (induction xs arbitrary: s ys n)
  case (Cons x xs)
  then obtain s1 y zs where "upd s x = (s1, Inr y)" "run_tracker upd s1 xs = (t, Inr zs)" "ys = y # zs"
    by (auto split: prod.splits sum.splits)
  then show ?case using Cons.IH[of s1 zs "n - 1"] by (cases n) auto
qed simp

lemma run_tracker_length: "run_tracker upd s xs = (t, Inr ys) \<Longrightarrow> length ys = length xs"
  by (induction xs arbitrary: s ys) (auto split: prod.splits sum.splits)

interpretation backtest: causal_series "\<lambda>cs. snd (run_tracker (backtest_step on model) b cs)" for on model b
proof unfold_locales
  fix cs ys assume "snd (run_tracker (backtest_step on model) b cs) = Inr ys"
  then show "length ys = length cs"
    using run_tracker_length[of "backtest_step on model" b cs] by (metis prod.collapse)
next
  fix cs c ys assume "snd (run_tracker (backtest_step on model) b (cs @ [c])) = Inr ys"
  then obtain t where t: "run_tracker (backtest_step on model) b (cs @ [c]) = (t, Inr ys)" by (metis prod.collapse)
  from run_tracker_take[OF this, of "length cs"] run_tracker_length[OF t]
  show "snd (run_tracker (backtest_step on model) b cs) = Inr (butlast ys)"
    by (auto simp: butlast_conv_take)
qed

lemma backtest_curve:
  assumes "run_backtest on model cash periods s cs = Inr r"
  shows "snd (run_tracker (backtest_step on model) (backtest_start s cash) cs) = Inr (br_equity_curve r)"
  using assms by (auto simp: run_backtest_def Let_def bindE_eq_Inr split: prod.splits sum.splits)

section \<open>Orders are filled at the next open\<close>

lemma run_tracker_snocD:
  "run_tracker upd s (xs @ [x]) = (t, Inr ys) \<Longrightarrow>
   \<exists>u zs y. run_tracker upd s xs = (u, Inr zs) \<and> upd u x = (t, Inr y) \<and> ys = zs @ [y]"
  by (induction xs arbitrary: s ys) (fastforce split: prod.splits sum.splits)+

definition fill_next :: "fill_model \<Rightarrow> portfolio \<Rightarrow> signal \<times> candle \<Rightarrow> portfolio result" where
  "fill_next model p x = (case x of (sig, c) \<Rightarrow> execute model sig (c_open c) (timestamp_ms c) p)"

lemma zip_next:
  assumes "length sigs = length cs" "cs \<noteq> []"
  shows "zip sigs (tl (cs @ [c])) = zip sigs (tl cs) @ [(last sigs, c)]"
proof -
  have "sigs \<noteq> []" using assms by auto
  then have s: "sigs = butlast sigs @ [last sigs]" by simp
  have l: "length (butlast sigs) = length (tl cs)" using assms by simp
  have "zip (butlast sigs @ [last sigs]) (tl cs) = zip (butlast sigs) (tl cs)" unfolding zip_append1 l by simp
  then have "zip sigs (tl cs) = zip (butlast sigs) (tl cs)" using s by simp
  moreover have "zip (butlast sigs @ [last sigs]) (tl cs @ [c]) = zip (butlast sigs) (tl cs) @ zip [last sigs] [c]"
    using l by (rule zip_append)
  then have "zip sigs (tl cs @ [c]) = zip (butlast sigs) (tl cs) @ [(last sigs, c)]" using s by simp
  ultimately show ?thesis using assms(2) by simp
qed

lemma run_pending_Inr:
  assumes "run_pending model c b = Inr b1"
  shows "bt_strategy b1 = bt_strategy b \<and> bt_signals b1 = bt_signals b \<and>
    (case bt_pending b of
       None \<Rightarrow> bt_portfolio b1 = bt_portfolio b
     | Some sig \<Rightarrow> fill_next model (bt_portfolio b) (sig, c) = Inr (bt_portfolio b1))"
  using assms by (auto simp: run_pending_def fill_next_def Let_def bindE_eq_Inr split: option.splits)

lemma backtest_run:
  "run_tracker (backtest_step on model) (backtest_start s cash) cs = (b, Inr eq) \<Longrightarrow>
   \<exists>sigs. run_tracker on s cs = (bt_strategy b, Inr sigs) \<and>
     foldE (fill_next model) (new_portfolio cash cash) (zip sigs (tl cs)) = Inr (bt_portfolio b) \<and>
     bt_pending b = (if sigs = [] then None else Some (last sigs)) \<and>
     bt_signals b = length (filter (\<lambda>x. sig_action x \<noteq> HOLD) sigs)"
proof (induction cs arbitrary: b eq rule: rev_induct)
  case Nil
  then show ?case by (auto simp: backtest_start_def)
next
  case (snoc c cs)
  obtain u zs y where u: "run_tracker (backtest_step on model) (backtest_start s cash) cs = (u, Inr zs)"
    "backtest_step on model u c = (b, Inr y)"
    using run_tracker_snocD[OF snoc.prems] by blast
  obtain sigs where i: "run_tracker on s cs = (bt_strategy u, Inr sigs)"
    "foldE (fill_next model) (new_portfolio cash cash) (zip sigs (tl cs)) = Inr (bt_portfolio u)"
    "bt_pending u = (if sigs = [] then None else Some (last sigs))"
    "bt_signals u = length (filter (\<lambda>x. sig_action x \<noteq> HOLD) sigs)"
    using snoc.IH[OF u(1)] by blast
  obtain b1 st sig where b1: "run_pending model c u = Inr b1" "on (bt_strategy b1) c = (st, Inr sig)"
    "bt_strategy b = st" "bt_pending b = Some sig" "bt_portfolio b = bt_portfolio b1"
    "bt_signals b = (if sig_action sig \<noteq> HOLD then bt_signals b1 + 1 else bt_signals b1)"
    using u(2) by (auto simp: backtest_step_def split: sum.splits prod.splits)
  note p = run_pending_Inr[OF b1(1)]
  have len: "length sigs = length cs" using run_tracker_length[OF i(1)] .
  have run: "run_tracker on s (cs @ [c]) = (st, Inr (sigs @ [sig]))"
    using run_tracker_snoc[OF i(1), of c st sig] b1(2) p by simp
  have "foldE (fill_next model) (new_portfolio cash cash) (zip (sigs @ [sig]) (tl (cs @ [c]))) = Inr (bt_portfolio b)"
  proof (cases "cs = []")
    case True
    then show ?thesis using len i(2,3) p b1(5) by simp
  next
    case False
    have l: "length sigs = length (tl (cs @ [c]))" using len by simp
    have "zip (sigs @ [sig]) (tl (cs @ [c])) = zip sigs (tl (cs @ [c]))" unfolding zip_append1 l by simp
    moreover have "sigs \<noteq> []" using len False by auto
    ultimately show ?thesis using zip_next[OF len False] i(2,3) p b1(5) by (simp add: foldE_append)
  qed
  then show ?case using run b1 i(4) p by auto
qed

text \<open>
  C13 The engine is the strategy composed with delayed execution: the signal of each close is
  executed at the open of the next candle and nowhere else, so the final portfolio is the fold
  of the fills over the signals paired with the following candles, the last signal is never
  executed, and the signals reported are the ones that are not HOLD.
\<close>

theorem orders_fill_at_next_open:
  assumes "run_backtest on model cash periods s cs = Inr r"
  shows "\<exists>sigs. snd (run_tracker on s cs) = Inr sigs \<and>
    foldE (fill_next model) (new_portfolio cash cash) (zip sigs (tl cs)) = Inr (br_portfolio r) \<and>
    br_trades r = pf_trades (br_portfolio r) \<and>
    br_signals r = length (filter (\<lambda>x. sig_action x \<noteq> HOLD) sigs)"
proof -
  obtain b eq where b: "run_tracker (backtest_step on model) (backtest_start s cash) cs = (b, Inr eq)"
    "br_portfolio r = bt_portfolio b" "br_trades r = pf_trades (bt_portfolio b)" "br_signals r = bt_signals b"
    using assms by (auto simp: run_backtest_def Let_def bindE_eq_Inr split: prod.splits sum.splits)
  from backtest_run[OF b(1)] show ?thesis using b(2-4) by auto
qed

section \<open>What a bar can change\<close>

definition portfolio_at ::
  "('s \<Rightarrow> candle \<Rightarrow> 's \<times> signal result) \<Rightarrow> fill_model \<Rightarrow> pyfloat \<Rightarrow> 's \<Rightarrow> candle list \<Rightarrow> nat \<Rightarrow> portfolio" where
  \<comment> \<open>what the engine holds, and has traded, when it marks bar \<open>n\<close>\<close>
  "portfolio_at on model cash s cs n =
     bt_portfolio (fst (run_tracker (backtest_step on model) (backtest_start s cash) (take (Suc n) cs)))"

lemma run_pending_opening:
  "c_open c = c_open c' \<Longrightarrow> timestamp_ms c = timestamp_ms c' \<Longrightarrow> run_pending model c b = run_pending model c' b"
  by (cases "bt_pending b") (simp_all add: run_pending_def)

lemma backtest_bar:
  assumes "run_backtest on model cash periods s cs = Inr r" "n < length cs"
  obtains u b1 where "fst (run_tracker (backtest_step on model) (backtest_start s cash) (take n cs)) = u"
    "run_pending model (cs ! n) u = Inr b1" "portfolio_at on model cash s cs n = bt_portfolio b1"
    "br_equity_curve r ! n = equity (bt_portfolio b1) (c_close (cs ! n))"
proof -
  let ?run = "run_tracker (backtest_step on model) (backtest_start s cash)"
  obtain t where t: "?run cs = (t, Inr (br_equity_curve r))" using backtest_curve[OF assms(1)] by (metis prod.collapse)
  have len: "length (br_equity_curve r) = length cs" using run_tracker_length[OF t] .
  obtain v where v: "?run (take n cs @ [cs ! n]) = (v, Inr (take (Suc n) (br_equity_curve r)))"
    using run_tracker_take[OF t, of "Suc n"] assms(2) by (auto simp: take_Suc_conv_app_nth)
  obtain u zs y where u: "?run (take n cs) = (u, Inr zs)" "backtest_step on model u (cs ! n) = (v, Inr y)"
    "take (Suc n) (br_equity_curve r) = zs @ [y]" using run_tracker_snocD[OF v] by blast
  obtain b1 where b1: "run_pending model (cs ! n) u = Inr b1" "bt_portfolio v = bt_portfolio b1"
    "y = equity (bt_portfolio b1) (c_close (cs ! n))"
    using u(2) by (auto simp: backtest_step_def split: sum.splits prod.splits)
  have "y = br_equity_curve r ! n" using u(3) assms(2) len by (simp add: take_Suc_conv_app_nth)
  moreover have "portfolio_at on model cash s cs n = bt_portfolio b1"
    using v b1(2) assms(2) by (simp add: portfolio_at_def take_Suc_conv_app_nth)
  ultimately show thesis using that[of u b1] u(1) b1 by simp
qed

text \<open>
  C12 A bar decides nothing about itself: of two candle histories that agree before bar \<open>n\<close> and
  on its opening (time and open price), whatever its high, low, close and volume and all later
  bars are and whatever the strategy makes of them, the engine holds the same portfolio with the
  same trades when it marks bar \<open>n\<close>, the equity before that bar is the same, and the equity at
  the bar is that portfolio at the bar's close.
\<close>

theorem backtest_does_not_look_ahead:
  assumes "run_backtest on model cash periods s cs = Inr r" "run_backtest on model cash periods s cs' = Inr r'"
    and "take n cs = take n cs'" "n < length cs" "n < length cs'"
    and "c_open (cs ! n) = c_open (cs' ! n)" "timestamp_ms (cs ! n) = timestamp_ms (cs' ! n)"
  shows "portfolio_at on model cash s cs n = portfolio_at on model cash s cs' n \<and>
    take n (br_equity_curve r) = take n (br_equity_curve r') \<and>
    br_equity_curve r ! n = equity (portfolio_at on model cash s cs n) (c_close (cs ! n)) \<and>
    br_equity_curve r' ! n = equity (portfolio_at on model cash s cs n) (c_close (cs' ! n))"
proof -
  from assms(1,4) obtain u b1 where u: "fst (run_tracker (backtest_step on model) (backtest_start s cash) (take n cs)) = u"
    "run_pending model (cs ! n) u = Inr b1" "portfolio_at on model cash s cs n = bt_portfolio b1"
    "br_equity_curve r ! n = equity (bt_portfolio b1) (c_close (cs ! n))" by (rule backtest_bar)
  from assms(2,5) obtain v b2 where v: "fst (run_tracker (backtest_step on model) (backtest_start s cash) (take n cs')) = v"
    "run_pending model (cs' ! n) v = Inr b2" "portfolio_at on model cash s cs' n = bt_portfolio b2"
    "br_equity_curve r' ! n = equity (bt_portfolio b2) (c_close (cs' ! n))" by (rule backtest_bar)
  have "u = v" using u(1) v(1) assms(3) by simp
  then have "Inr b1 = (Inr b2 :: 'a backtest result)"
    unfolding u(2)[symmetric] v(2)[symmetric] by (simp add: run_pending_opening[OF assms(6,7)])
  then have "b1 = b2" by simp
  then show ?thesis
    using u v backtest.no_lookahead[OF backtest_curve[OF assms(1)] backtest_curve[OF assms(2)] assms(3)] by simp
qed

section \<open>Witnesses\<close>

definition example_strategy :: "nat \<Rightarrow> candle \<Rightarrow> nat \<times> signal result" where
  \<comment> \<open>buys at the first close, sells at the second\<close>
  "example_strategy n c =
     (n + 1, Inr (make_signal (timestamp_ms c) (if n = 0 then BUY else if n = 1 then SELL else HOLD) ''x''))"

definition backtest_bars :: "candle list" where
  "backtest_bars = take 2 example_candles"

definition example_backtest :: backtest_result where
  "example_backtest =
     projr (run_backtest example_strategy default_fill_model (Fin 1000) (Fin 4) 0 backtest_bars)"

lemma example_backtest:
  "run_backtest example_strategy default_fill_model (Fin 1000) (Fin 4) 0 backtest_bars = Inr example_backtest"
proof -
  have "\<not> isl (run_backtest example_strategy default_fill_model (Fin 1000) (Fin 4) 0 backtest_bars)" by code_simp
  then show ?thesis by (simp add: example_backtest_def)
qed

definition close_strategy :: "nat \<Rightarrow> candle \<Rightarrow> nat \<times> signal result" where
  \<comment> \<open>buys at the first close, then sells at a close below 4\<close>
  "close_strategy n c =
     (n + 1, Inr (make_signal (timestamp_ms c) (if n = 0 then BUY else if flt (c_close c) (Fin 4) then SELL else HOLD) ''x''))"

definition calm_bars :: "candle list" where
  "calm_bars = [example_candle 0 8, example_candle 900000 4]"

definition falling_bars :: "candle list" where
  "falling_bars = [example_candle 0 8, (example_candle 900000 4)\<lparr>c_low := Fin 2, c_close := Fin 2\<rparr>]"

lemma calm_run: "\<not> isl (run_backtest close_strategy default_fill_model (Fin 1000) (Fin 4) 0 calm_bars)"
  by code_simp

lemma falling_run: "\<not> isl (run_backtest close_strategy default_fill_model (Fin 1000) (Fin 4) 0 falling_bars)"
  by code_simp

theorem backtest_does_not_look_ahead_witness:
  "portfolio_at close_strategy default_fill_model (Fin 1000) 0 calm_bars 1 =
     portfolio_at close_strategy default_fill_model (Fin 1000) 0 falling_bars 1"
proof -
  obtain r r' where r: "run_backtest close_strategy default_fill_model (Fin 1000) (Fin 4) 0 calm_bars = Inr r"
    "run_backtest close_strategy default_fill_model (Fin 1000) (Fin 4) 0 falling_bars = Inr r'" 
    using calm_run falling_run by (metis sum.collapse(2))
  show ?thesis
    using backtest_does_not_look_ahead[OF r, of 1] by (simp add: calm_bars_def falling_bars_def example_candle_def)
qed

theorem orders_fill_at_next_open_witness:
  "\<exists>sigs. snd (run_tracker example_strategy 0 backtest_bars) = Inr sigs \<and>
    foldE (fill_next default_fill_model) (new_portfolio (Fin 1000) (Fin 1000)) (zip sigs (tl backtest_bars)) =
      Inr (br_portfolio example_backtest) \<and>
    br_trades example_backtest = pf_trades (br_portfolio example_backtest) \<and>
    br_signals example_backtest = length (filter (\<lambda>x. sig_action x \<noteq> HOLD) sigs)"
  by (rule orders_fill_at_next_open[OF example_backtest])

end
