(* ===== verification/Learning.thy ===== *)
theory Learning
  imports Backtest PyText
begin

text \<open>
  The machine-learning baseline: walk-forward windows (\<open>domain/experiments/walk_forward.py\<close>),
  causal features (\<open>features.py\<close>), logistic regression (\<open>logistic_regression.py\<close>), the
  pipeline (\<open>application/services/ml_pipeline.py\<close>) and experiment ids (\<open>experiment.py\<close>).
  \<open>exp_fn\<close> and \<open>pow_fn\<close> are the C library's functions, SHA-256 and \<open>repr\<close> are arguments.
  The main result is that a prediction at a bar uses nothing after the bar's close.
\<close>

section \<open>Walk-forward windows\<close>

record walk_forward_config =
  wf_initial_train :: int
  wf_val_size :: int
  wf_step :: int
  wf_holdout_size :: int

definition new_splitter :: "walk_forward_config \<Rightarrow> walk_forward_config result" where
  "new_splitter cfg =
     (if wf_initial_train cfg \<le> 0 \<or> wf_val_size cfg \<le> 0 \<or> wf_step cfg \<le> 0
      then Inl (ValueError ''initial_train, val_size y step deben ser > 0'')
      else if wf_holdout_size cfg < 0 then Inl (ValueError ''holdout_size debe ser >= 0'')
      else Inr cfg)"

function windows_from :: "walk_forward_config \<Rightarrow> int \<Rightarrow> int \<Rightarrow> (int \<times> int) list" where
  \<comment> \<open>the loop; the constructor has refused a step that is not positive\<close>
  "windows_from cfg limit val_start =
     (if 0 < wf_step cfg \<and> val_start + wf_val_size cfg \<le> limit
      then (val_start, val_start + wf_val_size cfg) # windows_from cfg limit (val_start + wf_step cfg)
      else [])"
  by auto
termination by (relation "measure (\<lambda>(cfg, limit, s). nat (limit - wf_val_size cfg - s + wf_step cfg))") auto

declare windows_from.simps [simp del]

definition windows :: "walk_forward_config \<Rightarrow> int \<Rightarrow> (int \<times> int) list" where
  "windows cfg n = windows_from cfg (n - wf_holdout_size cfg) (wf_initial_train cfg)"

lemma windows_from_closed:
  assumes "0 < wf_step cfg"
  shows "windows_from cfg limit s =
    map (\<lambda>k. (s + int k * wf_step cfg, s + int k * wf_step cfg + wf_val_size cfg))
      [0..<nat ((limit - wf_val_size cfg - s) div wf_step cfg + 1)]"
  using assms
proof (induction cfg limit s rule: windows_from.induct)
  case (1 cfg limit s)
  let ?d = "wf_step cfg" and ?v = "wf_val_size cfg"
  show ?case
  proof (cases "0 < ?d \<and> s + ?v \<le> limit")
    case True
    have "(limit - ?v - s) div ?d = (limit - ?v - (s + ?d)) div ?d + 1"
      using True div_add_self2[of ?d "limit - ?v - (s + ?d)"] by (simp add: algebra_simps)
    moreover have "0 \<le> (limit - ?v - s) div ?d" using True by (simp add: pos_imp_zdiv_nonneg_iff)
    ultimately have n: "nat ((limit - ?v - s) div ?d + 1) = Suc (nat ((limit - ?v - (s + ?d)) div ?d + 1))" by simp
    have shift: "map f [0..<Suc m] = f 0 # map (\<lambda>k. f (Suc k)) [0..<m]" for f :: "nat \<Rightarrow> int \<times> int" and m
      by (simp add: upt_conv_Cons map_Suc_upt[symmetric] del: upt_Suc)
    show ?thesis unfolding n shift using 1(1)[OF True 1(2)] True
      by (simp add: windows_from.simps[of cfg limit s] algebra_simps)
  next
    case False
    then have "(limit - ?v - s) div ?d < 0" using 1(2) by (intro div_neg_pos_less0) auto
    then show ?thesis using False by (auto simp: windows_from.simps[of cfg limit s])
  qed
qed

lemma windows_exact:
  assumes "new_splitter cfg = Inr cfg'"
  shows "windows cfg' n = map (\<lambda>k. (wf_initial_train cfg + int k * wf_step cfg,
        wf_initial_train cfg + int k * wf_step cfg + wf_val_size cfg))
      [0..<nat ((n - wf_holdout_size cfg - wf_val_size cfg - wf_initial_train cfg) div wf_step cfg + 1)] \<and>
    (\<forall>(a, b) \<in> set (windows cfg' n). 0 < a \<and> b = a + wf_val_size cfg \<and> a < b \<and> b \<le> n - wf_holdout_size cfg)"
proof -
  have c: "cfg' = cfg" "0 < wf_step cfg" "0 < wf_initial_train cfg" "0 < wf_val_size cfg"
    using assms by (auto simp: new_splitter_def split: if_splits)
  have "(\<forall>(a, b) \<in> set (windows_from cfg l s). s \<le> a \<and> b = a + wf_val_size cfg \<and> b \<le> l)" for l s
  proof (induction cfg l s rule: windows_from.induct)
    case (1 cfg l s)
    then show ?case by (subst windows_from.simps) fastforce
  qed
  from this[of "n - wf_holdout_size cfg" "wf_initial_train cfg"] show ?thesis
    using c windows_from_closed[OF c(2)] by (fastforce simp: windows_def)
qed

text \<open>
  The validation windows: the loop ends and yields exactly the windows
  \<open>[initial_train + k step, initial_train + k step + val_size)\<close> that fit below the holdout, in
  order; every window has the validation size, is preceded by a training set that is not
  empty, and stays out of the holdout.
\<close>

theorem windows_are_exact:
  assumes "new_splitter cfg = Inr cfg'"
  shows "windows cfg' n = map (\<lambda>k. (wf_initial_train cfg + int k * wf_step cfg,
        wf_initial_train cfg + int k * wf_step cfg + wf_val_size cfg))
      [0..<nat ((n - wf_holdout_size cfg - wf_val_size cfg - wf_initial_train cfg) div wf_step cfg + 1)] \<and>
    (\<forall>(a, b) \<in> set (windows cfg' n). 0 < a \<and> b = a + wf_val_size cfg \<and> a < b \<and> b \<le> n - wf_holdout_size cfg)"
  using assms by (rule windows_exact)

definition example_windows :: walk_forward_config where
  "example_windows = \<lparr>wf_initial_train = 4, wf_val_size = 2, wf_step = 2, wf_holdout_size = 1\<rparr>"

theorem windows_are_exact_witness:
  "windows example_windows 10 = map (\<lambda>k. (wf_initial_train example_windows + int k * wf_step example_windows,
        wf_initial_train example_windows + int k * wf_step example_windows + wf_val_size example_windows))
      [0..<nat ((10 - wf_holdout_size example_windows - wf_val_size example_windows - wf_initial_train example_windows)
         div wf_step example_windows + 1)]"
  by (rule conjunct1[OF windows_are_exact]) (simp add: new_splitter_def example_windows_def)

section \<open>Features\<close>

record feature_matrix =
  fx_indices :: "nat list"
  fx_features :: "pyfloat list list"
  fx_labels :: "nat list"

definition feature_row ::
  "pyfloat list \<Rightarrow> pyfloat option list \<Rightarrow> pyfloat option list \<Rightarrow> pyfloat option list \<Rightarrow> pyfloat option list \<Rightarrow> nat \<Rightarrow>
   (nat \<times> pyfloat list \<times> nat) option" where
  "feature_row closes rets rsis moms vols t =
     (case (rets ! t, rsis ! t, moms ! t, vols ! t) of
        (Some r, Some s, Some m, Some v) \<Rightarrow>
          Some (t, [r, fsub (fdiv s (Fin 50)) (Fin 1), m, v], if flt (closes ! t) (closes ! (t + 1)) then 1 else 0)
      | _ \<Rightarrow> None)"

definition feature_rows ::
  "(pyfloat \<Rightarrow> pyfloat \<Rightarrow> pyfloat result) \<Rightarrow> candle list \<Rightarrow> (nat \<times> pyfloat list \<times> nat) list result" where
  \<comment> \<open>RSI_PERIOD 14, MOMENTUM_PERIOD 10, VOL_WINDOW 20; the last bar has no label\<close>
  "feature_rows pow_fn cs =
     (let closes = map c_close cs in
      bindE (rsi closes 14) (\<lambda>rsis.
      bindE (momentum closes 10) (\<lambda>moms.
      bindE (realized_volatility pow_fn closes 20) (\<lambda>vols.
        Inr (List.map_filter (feature_row closes (returns closes) rsis moms vols) [0..<length cs - 1])))))"

definition build_features :: "(pyfloat \<Rightarrow> pyfloat \<Rightarrow> pyfloat result) \<Rightarrow> candle list \<Rightarrow> feature_matrix result" where
  "build_features pow_fn cs =
     bindE (feature_rows pow_fn cs) (\<lambda>rows.
       Inr \<lparr>fx_indices = map fst rows, fx_features = map (fst \<circ> snd) rows, fx_labels = map (snd \<circ> snd) rows\<rparr>)"

section \<open>Logistic regression\<close>

record logistic_regression =
  lr_learning_rate :: pyfloat
  lr_max_iter :: int
  lr_l2 :: pyfloat
  lr_tol :: pyfloat
  lr_weights :: "pyfloat list"
  lr_bias :: pyfloat

definition new_regression :: "pyfloat \<Rightarrow> int \<Rightarrow> pyfloat \<Rightarrow> pyfloat \<Rightarrow> logistic_regression" where
  "new_regression rate iters l2 tol =
     \<lparr>lr_learning_rate = rate, lr_max_iter = iters, lr_l2 = l2, lr_tol = tol, lr_weights = [], lr_bias = Fin 0\<rparr>"

definition sigmoid :: "(pyfloat \<Rightarrow> pyfloat result) \<Rightarrow> pyfloat \<Rightarrow> pyfloat result" where
  "sigmoid exp_fn z =
     (let z = fmax (Fin (- 30)) (fmin (Fin 30) z)
      in bindE (exp_fn (fneg z)) (\<lambda>e. pdiv (Fin 1) (fadd (Fin 1) e)))"

definition dot :: "pyfloat list \<Rightarrow> pyfloat list \<Rightarrow> pyfloat result" where
  \<comment> \<open>\<open>zip(strict=True)\<close>\<close>
  "dot a b =
     (if length a \<noteq> length b then Inl (ValueError ''zip() arguments differ in length'')
      else Inr (pysum (map2 fmul a b)))"

definition gradient_row ::
  "(pyfloat \<Rightarrow> pyfloat result) \<Rightarrow> pyfloat list \<Rightarrow> pyfloat \<Rightarrow> pyfloat list \<times> pyfloat \<Rightarrow> pyfloat list \<times> nat \<Rightarrow>
   (pyfloat list \<times> pyfloat) result" where
  "gradient_row exp_fn w b g row =
     (case (g, row) of ((gw, gb), (xi, yi)) \<Rightarrow>
        bindE (dot w xi) (\<lambda>d.
        bindE (sigmoid exp_fn (fadd d b)) (\<lambda>p.
          let err = fsub p (fint (int yi))
          in Inr (map2 (\<lambda>a x. fadd a (fmul err x)) gw xi, fadd gb err))))"

definition gradient ::
  "(pyfloat \<Rightarrow> pyfloat result) \<Rightarrow> pyfloat list \<Rightarrow> pyfloat \<Rightarrow> pyfloat list list \<Rightarrow> nat list \<Rightarrow> (pyfloat list \<times> pyfloat) result" where
  \<comment> \<open>the loop over \<open>zip(X, y, strict=True)\<close>, which raises at the end of the shorter one\<close>
  "gradient exp_fn w b X y =
     bindE (foldE (gradient_row exp_fn w b) (replicate (length w) (Fin 0), Fin 0) (zip X y)) (\<lambda>g.
       if length X \<noteq> length y then Inl (ValueError ''zip() arguments differ in length'') else Inr g)"

fun descend ::
  "(pyfloat \<Rightarrow> pyfloat result) \<Rightarrow> logistic_regression \<Rightarrow> pyfloat list list \<Rightarrow> nat list \<Rightarrow> nat \<Rightarrow> pyfloat list \<Rightarrow> pyfloat \<Rightarrow>
   (pyfloat list \<times> pyfloat) result" where
  \<comment> \<open>the epochs left, the weights and the bias\<close>
  "descend exp_fn m X y 0 w b = Inr (w, b)"
| "descend exp_fn m X y (Suc k) w b =
     bindE (gradient exp_fn w b X y) (\<lambda>(gw0, gb0).
       let n = fint (int (length X));
           rate = lr_learning_rate m;
           gw = map2 (\<lambda>g wj. fadd (fdiv g n) (fmul (lr_l2 m) wj)) gw0 w;
           gb = fdiv gb0 n
       in bindE (fmax_list (map (\<lambda>g. fabs (fmul rate g)) gw @ [fabs (fmul rate gb)])) (\<lambda>max_update.
          let w' = map2 (\<lambda>wj g. fsub wj (fmul rate g)) w gw;
              b' = fsub b (fmul rate gb)
          in if flt max_update (lr_tol m) then Inr (w', b') else descend exp_fn m X y k w' b'))"

definition fit ::
  "(pyfloat \<Rightarrow> pyfloat result) \<Rightarrow> logistic_regression \<Rightarrow> pyfloat list list \<Rightarrow> nat list \<Rightarrow> logistic_regression result" where
  "fit exp_fn m X y =
     (let w0 = replicate (if X = [] then 0 else length (hd X)) (Fin 0)
      in if X = [] then Inr (m\<lparr>lr_weights := w0, lr_bias := Fin 0\<rparr>)
         else bindE (descend exp_fn m X y (nat (lr_max_iter m)) w0 (Fin 0)) (\<lambda>(w, b).
                Inr (m\<lparr>lr_weights := w, lr_bias := b\<rparr>)))"

definition predict_row :: "(pyfloat \<Rightarrow> pyfloat result) \<Rightarrow> logistic_regression \<Rightarrow> pyfloat list \<Rightarrow> pyfloat result" where
  "predict_row exp_fn m xi =
     (if lr_weights m = [] then sigmoid exp_fn (lr_bias m)
      else bindE (dot (lr_weights m) xi) (\<lambda>d. sigmoid exp_fn (fadd d (lr_bias m))))"

definition predict_proba :: "(pyfloat \<Rightarrow> pyfloat result) \<Rightarrow> logistic_regression \<Rightarrow> pyfloat list list \<Rightarrow> pyfloat list result" where
  "predict_proba exp_fn m X = mapE (predict_row exp_fn m) X"

definition predict :: "(pyfloat \<Rightarrow> pyfloat result) \<Rightarrow> logistic_regression \<Rightarrow> pyfloat list list \<Rightarrow> pyfloat \<Rightarrow> nat list result" where
  "predict exp_fn m X threshold =
     bindE (predict_proba exp_fn m X) (\<lambda>ps. Inr (map (\<lambda>p. if fle threshold p then 1 else 0) ps))"

section \<open>The pipeline\<close>

record ml_config =
  ml_initial_train :: int
  ml_val_size :: int
  ml_step :: int
  ml_holdout_size :: int
  ml_buy_threshold :: pyfloat
  ml_sell_threshold :: pyfloat
  ml_learning_rate :: pyfloat
  ml_max_iter :: int
  ml_l2 :: pyfloat
  ml_feature_config_version :: string

record ml_state =
  mx_probs :: "pyfloat option list"
  mx_true :: "nat list"
  mx_pred :: "nat list"

definition train_window ::
  "(pyfloat \<Rightarrow> pyfloat result) \<Rightarrow> ml_config \<Rightarrow> feature_matrix \<Rightarrow> nat \<Rightarrow> nat \<Rightarrow> pyfloat list result" where
  \<comment> \<open>\<open>LogisticRegression\<close> with its default tolerance, trained before the window\<close>
  "train_window exp_fn cfg fm val_start val_end =
     bindE (fit exp_fn (new_regression (ml_learning_rate cfg) (ml_max_iter cfg) (ml_l2 cfg) (rnd (1/1000000)))
              (take val_start (fx_features fm)) (take val_start (fx_labels fm))) (\<lambda>model.
       predict_proba exp_fn model (slice val_start val_end (fx_features fm)))"

definition note_row ::
  "feature_matrix \<Rightarrow> nat \<Rightarrow> pyfloat list \<Rightarrow> ml_state \<Rightarrow> nat \<Rightarrow> ml_state" where
  \<comment> \<open>the body of the loop over the rows of a window\<close>
  "note_row fm val_start val_probs st row =
     (let p = val_probs ! (row - val_start)
      in st\<lparr>mx_probs := (mx_probs st)[fx_indices fm ! row := Some p],
            mx_true := mx_true st @ [fx_labels fm ! row],
            mx_pred := mx_pred st @ [if fle (Fin (1/2)) p then 1 else 0]\<rparr>)"

definition ml_window ::
  "(pyfloat \<Rightarrow> pyfloat result) \<Rightarrow> ml_config \<Rightarrow> feature_matrix \<Rightarrow> ml_state \<Rightarrow> int \<times> int \<Rightarrow> ml_state result" where
  "ml_window exp_fn cfg fm st w =
     (let vs = nat (fst w); ve = nat (snd w)
      in bindE (train_window exp_fn cfg fm vs ve) (\<lambda>ps. Inr (foldl (note_row fm vs ps) st [vs..<ve])))"

definition ml_predictions ::
  "(pyfloat \<Rightarrow> pyfloat result) \<Rightarrow> ml_config \<Rightarrow> feature_matrix \<Rightarrow> nat \<Rightarrow> ml_state result" where
  "ml_predictions exp_fn cfg fm n_bars =
     bindE (new_splitter \<lparr>wf_initial_train = ml_initial_train cfg, wf_val_size = ml_val_size cfg,
              wf_step = ml_step cfg, wf_holdout_size = ml_holdout_size cfg\<rparr>) (\<lambda>sp.
       foldE (ml_window exp_fn cfg fm) \<lparr>mx_probs = replicate n_bars None, mx_true = [], mx_pred = []\<rparr>
         (windows sp (int (length (fx_indices fm)))))"

definition ml_action :: "ml_config \<Rightarrow> pyfloat option \<Rightarrow> action" where
  "ml_action cfg prob =
     (case prob of
        None \<Rightarrow> HOLD
      | Some p \<Rightarrow> if fle (ml_buy_threshold cfg) p then BUY else if fle p (ml_sell_threshold cfg) then SELL else HOLD)"

record classification_metrics =
  cl_n :: nat
  cl_accuracy :: "pyfloat option"
  cl_precision :: "pyfloat option"
  cl_recall :: "pyfloat option"

definition count_pairs :: "nat \<Rightarrow> nat \<Rightarrow> nat list \<Rightarrow> nat list \<Rightarrow> int" where
  "count_pairs a b ts ps = int (length (filter (\<lambda>x. x = (a, b)) (zip ts ps)))"

definition classification :: "nat list \<Rightarrow> nat list \<Rightarrow> classification_metrics result" where
  "classification y_true y_pred =
     (if y_true = [] then Inr \<lparr>cl_n = 0, cl_accuracy = None, cl_precision = None, cl_recall = None\<rparr>
      else if length y_true \<noteq> length y_pred then Inl (ValueError ''zip() arguments differ in length'')
      else
        let n = int (length y_true);
            tp = count_pairs 1 1 y_true y_pred;
            fp = count_pairs 0 1 y_true y_pred;
            fn = count_pairs 1 0 y_true y_pred;
            wrong = int (length (filter (\<lambda>(t, p). t \<noteq> p) (zip y_true y_pred)))
        in Inr \<lparr>cl_n = length y_true, cl_accuracy = Some (idiv (n - wrong) n),
                cl_precision = (if 0 < tp + fp then Some (idiv tp (tp + fp)) else None),
                cl_recall = (if 0 < tp + fn then Some (idiv tp (tp + fn)) else None)\<rparr>)"

record experiment_metadata =
  em_git_commit :: string
  em_dataset_version :: string
  em_strategy_version :: string
  em_feature_config_version :: string
  em_fees_model_version :: string
  em_slippage_model_version :: string
  em_prompt_version :: string
  em_llm_provider :: string
  em_llm_model :: string
  em_embedding_provider :: string
  em_embedding_model :: string
  em_risk_config_version :: string
  em_random_seed :: int
  em_params :: "(string \<times> string) list"
  em_started_at :: string
  em_finished_at :: string

definition identity_fields ::
  "(int \<Rightarrow> string) \<Rightarrow> ((string \<times> string) list \<Rightarrow> string) \<Rightarrow> experiment_metadata \<Rightarrow> string list" where
  \<comment> \<open>\<open>text\<close> is \<open>str\<close> of an int, \<open>repr_sorted\<close> renders the sorted parameters\<close>
  "identity_fields str_int repr_sorted m =
     [em_git_commit m, em_dataset_version m, em_strategy_version m, em_prompt_version m, em_llm_provider m,
      em_llm_model m, em_embedding_provider m, em_embedding_model m, em_risk_config_version m,
      em_feature_config_version m, em_fees_model_version m, em_slippage_model_version m,
      str_int (em_random_seed m), repr_sorted (em_params m)]"

definition build_experiment_id ::
  "(string \<Rightarrow> string) \<Rightarrow> (int \<Rightarrow> string) \<Rightarrow> ((string \<times> string) list \<Rightarrow> string) \<Rightarrow> experiment_metadata \<Rightarrow> string" where
  "build_experiment_id sha256 str_int repr_sorted m = take 16 (sha256 (join ''|'' (identity_fields str_int repr_sorted m)))"

record ml_env =
  me_pow :: "pyfloat \<Rightarrow> pyfloat \<Rightarrow> pyfloat result"
  me_exp :: "pyfloat \<Rightarrow> pyfloat result"
  me_sha256 :: "string \<Rightarrow> string"
  me_str :: "int \<Rightarrow> string"
  me_repr :: "pyfloat \<Rightarrow> string"
  me_repr_sorted :: "(string \<times> string) list \<Rightarrow> string"

definition ml_experiment_id :: "ml_env \<Rightarrow> ml_config \<Rightarrow> string \<Rightarrow> string \<Rightarrow> string" where
  "ml_experiment_id env cfg dataset_version git_commit =
     build_experiment_id (me_sha256 env) (me_str env) (me_repr_sorted env)
       \<lparr>em_git_commit = git_commit, em_dataset_version = dataset_version, em_strategy_version = ''ml-logistic-v1'',
        em_feature_config_version = ml_feature_config_version cfg, em_fees_model_version = ''bybit-spot-v1'',
        em_slippage_model_version = ''conservative-v1'', em_prompt_version = [], em_llm_provider = [],
        em_llm_model = [], em_embedding_provider = [], em_embedding_model = [], em_risk_config_version = [],
        em_random_seed = 0,
        em_params =
          [(''initial_train'', me_str env (ml_initial_train cfg)), (''val_size'', me_str env (ml_val_size cfg)),
           (''step'', me_str env (ml_step cfg)), (''holdout_size'', me_str env (ml_holdout_size cfg)),
           (''buy_threshold'', me_repr env (ml_buy_threshold cfg)), (''sell_threshold'', me_repr env (ml_sell_threshold cfg)),
           (''learning_rate'', me_repr env (ml_learning_rate cfg)), (''max_iter'', me_str env (ml_max_iter cfg)),
           (''l2'', me_repr env (ml_l2 cfg))],
        em_started_at = [], em_finished_at = []\<rparr>"

record ml_result =
  mr_metrics :: performance_metrics
  mr_classification :: classification_metrics
  mr_experiment_id :: string
  mr_equity_curve :: "pyfloat list"

definition precomputed_step :: "precomputed \<Rightarrow> candle \<Rightarrow> precomputed \<times> signal result" where
  "precomputed_step p c = (case precomputed_on_candle p c of (p', s) \<Rightarrow> (p', Inr s))"

definition run_ml_baseline ::
  "ml_env \<Rightarrow> candle list \<Rightarrow> ml_config \<Rightarrow> string \<Rightarrow> string \<Rightarrow> pyfloat \<Rightarrow> pyfloat \<Rightarrow> ml_result result" where
  "run_ml_baseline env cs cfg dataset_version git_commit initial_cash periods_per_year =
     bindE (build_features (me_pow env) cs) (\<lambda>fm.
     bindE (ml_predictions (me_exp env) cfg fm (length cs)) (\<lambda>st.
     bindE (run_backtest precomputed_step default_fill_model initial_cash periods_per_year
              \<lparr>ps_actions = map (ml_action cfg) (mx_probs st), ps_i = 0\<rparr> cs) (\<lambda>bt.
     bindE (classification (mx_true st) (mx_pred st)) (\<lambda>cl.
       Inr \<lparr>mr_metrics = br_metrics bt, mr_classification = cl,
            mr_experiment_id = ml_experiment_id env cfg dataset_version git_commit,
            mr_equity_curve = br_equity_curve bt\<rparr>))))"

section \<open>Features are causal, labels see one bar ahead\<close>

lemma feature_row_fst: "feature_row cl r s m v t = Some x \<Longrightarrow> fst x = t"
  by (auto simp: feature_row_def split: option.splits)

lemma map_filter_snoc: "List.map_filter f (xs @ [x]) = List.map_filter f xs @ (case f x of None \<Rightarrow> [] | Some y \<Rightarrow> [y])"
  by (simp add: List.map_filter_def split: option.split)

lemma map_filter_keys:
  "(\<And>t x. f t = Some x \<Longrightarrow> fst x = t) \<Longrightarrow>
   sorted_wrt (<) (map fst (List.map_filter f [0..<n])) \<and> (\<forall>x \<in> set (List.map_filter f [0..<n]). fst x < n \<and> f (fst x) = Some x)"
proof (induction n)
  case (Suc n)
  then have i: "sorted_wrt (<) (map fst (List.map_filter f [0..<n]))"
    "\<forall>x \<in> set (List.map_filter f [0..<n]). fst x < n \<and> f (fst x) = Some x" by auto
  show ?case
  proof (cases "f n")
    case None
    then show ?thesis using i by (simp add: map_filter_snoc) (use less_SucI in blast)
  next
    case (Some x)
    then have "fst x = n" using Suc.prems by simp
    then show ?thesis using i Some by (auto simp: map_filter_snoc sorted_wrt_append less_SucI)
  qed
qed (simp add: List.map_filter_def)

definition agree_at :: "(nat \<times> pyfloat list \<times> nat) list \<Rightarrow> (nat \<times> pyfloat list \<times> nat) list \<Rightarrow> nat \<Rightarrow> bool" where
  \<comment> \<open>rows of bars up to \<open>b\<close> have the same features, rows of bars before \<open>b\<close> the same labels\<close>
  "agree_at rows rows' b \<longleftrightarrow>
     (\<forall>r < length rows. fst (rows ! r) \<le> b \<longrightarrow> fst (snd (rows ! r)) = fst (snd (rows' ! r))) \<and>
     (\<forall>r < length rows. fst (rows ! r) < b \<longrightarrow> snd (snd (rows ! r)) = snd (snd (rows' ! r)))"

lemma take_nth: "take n xs = take n ys \<Longrightarrow> i < n \<Longrightarrow> xs ! i = ys ! i"
  by (metis nth_take)

lemma returns_prefix: "take n xs = take n ys \<Longrightarrow> take n (returns xs) = take n (returns ys)"
proof -
  have "take n (returns zs) = returns (take n zs)" for zs
    by (auto simp: returns_def take_map return_at_def Let_def min_def intro!: nth_equalityI)
  then show "take n xs = take n ys \<Longrightarrow> ?thesis" by metis
qed

lemma feature_row_agree:
  assumes "feature_row cl rs ss ms vs t = Some x" "feature_row cl' rs' ss' ms' vs' t = Some x'"
    and "rs ! t = rs' ! t" "ss ! t = ss' ! t" "ms ! t = ms' ! t" "vs ! t = vs' ! t"
  shows "fst (snd x) = fst (snd x')" "cl ! t = cl' ! t \<Longrightarrow> cl ! (t + 1) = cl' ! (t + 1) \<Longrightarrow> x = x'"
  using assms by (auto simp: feature_row_def split: option.splits)

lemma feature_rows_agree:
  assumes "feature_rows pow_fn cs = Inr rows" "feature_rows pow_fn cs' = Inr rows'"
    and "map fst rows = map fst rows'" "take (b + 1) cs = take (b + 1) cs'"
  shows "agree_at rows rows' b"
proof -
  let ?c = "map c_close cs" and ?c' = "map c_close cs'"
  obtain s m v where f: "rsi ?c 14 = Inr s" "momentum ?c 10 = Inr m" "realized_volatility pow_fn ?c 20 = Inr v"
    "rows = List.map_filter (feature_row ?c (returns ?c) s m v) [0..<length cs - 1]"
    using assms(1) by (auto simp: feature_rows_def Let_def bindE_eq_Inr)
  obtain s' m' v' where f': "rsi ?c' 14 = Inr s'" "momentum ?c' 10 = Inr m'" "realized_volatility pow_fn ?c' 20 = Inr v'"
    "rows' = List.map_filter (feature_row ?c' (returns ?c') s' m' v') [0..<length cs' - 1]"
    using assms(2) by (auto simp: feature_rows_def Let_def bindE_eq_Inr)
  have c: "take (b + 1) ?c = take (b + 1) ?c'" using assms(4) by (metis take_map)
  note same = rsi.no_lookahead[OF f(1) f'(1) c] momentum.no_lookahead[OF f(2) f'(2) c]
    realized_volatility.no_lookahead[OF f(3) f'(3) c]
  note rets = returns_prefix[OF c]
  have keys: "fst (rows ! r) < length cs - 1 \<and> feature_row ?c (returns ?c) s m v (fst (rows ! r)) = Some (rows ! r)"
    if "r < length rows" for r
  proof -
    have "rows ! r \<in> set rows" using that by (rule nth_mem)
    then show ?thesis unfolding f(4)
      using map_filter_keys[of "feature_row ?c (returns ?c) s m v" "length cs - 1"] feature_row_fst by blast
  qed
  have keys': "feature_row ?c' (returns ?c') s' m' v' (fst (rows' ! r)) = Some (rows' ! r)"
    if "r < length rows'" for r
  proof -
    have "rows' ! r \<in> set rows'" using that by (rule nth_mem)
    then show ?thesis unfolding f'(4)
      using map_filter_keys[of "feature_row ?c' (returns ?c') s' m' v'" "length cs' - 1"] feature_row_fst by blast
  qed
  have len: "length rows = length rows'" using assms(3) by (metis length_map)
  have t: "fst (rows ! r) = fst (rows' ! r)" if "r < length rows" for r
    using that len assms(3) by (metis nth_map)
  show ?thesis unfolding agree_at_def
  proof (intro conjI allI impI)
    fix r assume r: "r < length rows" "fst (rows ! r) \<le> b"
    then have "fst (rows ! r) < b + 1" by simp
    note eqs = take_nth[OF rets this] take_nth[OF same(1) this] take_nth[OF same(2) this] take_nth[OF same(3) this]
    have k': "feature_row ?c' (returns ?c') s' m' v' (fst (rows ! r)) = Some (rows' ! r)"
      using keys'[of r] t[OF r(1)] len r(1) by simp
    show "fst (snd (rows ! r)) = fst (snd (rows' ! r))"
      by (rule feature_row_agree(1)[OF conjunct2[OF keys[OF r(1)]] k' eqs])
  next
    fix r assume r: "r < length rows" "fst (rows ! r) < b"
    then have lt: "fst (rows ! r) < b + 1" "fst (rows ! r) + 1 < b + 1" by simp_all
    note eqs = take_nth[OF rets lt(1)] take_nth[OF same(1) lt(1)] take_nth[OF same(2) lt(1)] take_nth[OF same(3) lt(1)]
    have k': "feature_row ?c' (returns ?c') s' m' v' (fst (rows ! r)) = Some (rows' ! r)"
      using keys'[of r] t[OF r(1)] len r(1) by simp
    have "rows ! r = rows' ! r"
      by (rule feature_row_agree(2)[OF conjunct2[OF keys[OF r(1)]] k' eqs take_nth[OF c lt(1)] take_nth[OF c lt(2)]])
    then show "snd (snd (rows ! r)) = snd (snd (rows' ! r))" by simp
  qed
qed

section \<open>Predictions do not look ahead\<close>

definition fm_of :: "(nat \<times> pyfloat list \<times> nat) list \<Rightarrow> feature_matrix" where
  "fm_of rows = \<lparr>fx_indices = map fst rows, fx_features = map (fst \<circ> snd) rows, fx_labels = map (snd \<circ> snd) rows\<rparr>"

lemma build_features_rows:
  "build_features pow_fn cs = Inr fm \<longleftrightarrow> (\<exists>rows. feature_rows pow_fn cs = Inr rows \<and> fm = fm_of rows)"
  by (auto simp: build_features_def bindE_eq_Inr fm_of_def)

lemma feature_rows_sorted: "feature_rows pow_fn cs = Inr rows \<Longrightarrow> sorted_wrt (<) (map fst rows)"
  by (auto simp: feature_rows_def Let_def bindE_eq_Inr map_filter_keys feature_row_fst)

lemma train_agree:
  assumes "agree_at rows rows' b" "sorted_wrt (<) (map fst rows)" "length rows = length rows'"
    and "vs < length rows" "fst (rows ! vs) \<le> b"
    and "train_window exp_fn cfg (fm_of rows) vs ve = Inr ps" "train_window exp_fn cfg (fm_of rows') vs ve = Inr ps'"
    and "vs \<le> r" "r < ve" "ve \<le> length rows" "fst (rows ! r) \<le> b"
  shows "ps ! (r - vs) = ps' ! (r - vs)"
proof -
  have before: "fst (rows ! j) < fst (rows ! vs)" if "j < vs" for j
    using sorted_wrt_nth_less[OF assms(2), of j vs] that assms(4) by simp
  have row: "fst (snd (rows ! i)) = fst (snd (rows' ! i))" "snd (snd (rows ! i)) = snd (snd (rows' ! i))" "i < length rows'"
    if "i < vs" for i
    using before[OF that] assms(1,3,4,5) that by (auto simp: agree_at_def)
  have "take vs (fx_features (fm_of rows)) = take vs (fx_features (fm_of rows'))"
    by (rule nth_equalityI) (simp_all add: fm_of_def assms(3) row)
  moreover have "take vs (fx_labels (fm_of rows)) = take vs (fx_labels (fm_of rows'))"
    by (rule nth_equalityI) (simp_all add: fm_of_def assms(3) row)
  ultimately obtain model where m: "predict_proba exp_fn model (slice vs ve (fx_features (fm_of rows))) = Inr ps"
    "predict_proba exp_fn model (slice vs ve (fx_features (fm_of rows'))) = Inr ps'"
    using assms(6,7) by (auto simp: train_window_def bindE_eq_Inr)
  have k: "r - vs < length (slice vs ve (fx_features (fm_of rows)))" "r - vs < length (slice vs ve (fx_features (fm_of rows')))"
    using assms(3,8,9,10) by (auto simp: length_slice fm_of_def)
  have "slice vs ve (fx_features (fm_of rows)) ! (r - vs) = slice vs ve (fx_features (fm_of rows')) ! (r - vs)"
    using assms(1,3,8-11) by (auto simp: slice_def fm_of_def agree_at_def)
  then show ?thesis
    using mapE_nth[OF m(1)[unfolded predict_proba_def] k(1)] mapE_nth[OF m(2)[unfolded predict_proba_def] k(2)] by simp
qed

lemma nth_update: "(xs[j := v]) ! i = (if i = j \<and> j < length xs then v else xs ! i)"
  by (cases "j < length xs") (auto simp: nth_list_update list_update_beyond)

lemma note_rows_agree:
  assumes "\<forall>row \<in> set rs. fx_indices fm ! row \<le> b \<longrightarrow> ps ! (row - vs) = ps' ! (row - vs)"
    and "fx_indices fm = fx_indices fm'" "length (mx_probs st) = length (mx_probs st')"
    and "\<forall>i \<le> b. mx_probs st ! i = mx_probs st' ! i"
  shows "length (mx_probs (foldl (note_row fm vs ps) st rs)) = length (mx_probs (foldl (note_row fm' vs ps') st' rs)) \<and>
    (\<forall>i \<le> b. mx_probs (foldl (note_row fm vs ps) st rs) ! i = mx_probs (foldl (note_row fm' vs ps') st' rs) ! i)"
  using assms
proof (induction rs arbitrary: st st')
  case (Cons r rs)
  have "mx_probs (note_row fm vs ps st r) ! i = mx_probs (note_row fm' vs ps' st' r) ! i" if "i \<le> b" for i
    using Cons.prems that by (auto simp: note_row_def Let_def nth_update)
  moreover have "length (mx_probs (note_row fm vs ps st r)) = length (mx_probs (note_row fm' vs ps' st' r))"
    using Cons.prems(3) by (simp add: note_row_def Let_def)
  ultimately show ?case using Cons.IH Cons.prems(1,2) by simp
qed simp

lemma ml_window_Inr:
  "ml_window exp_fn cfg fm st (a, c) = Inr s \<longleftrightarrow>
     (\<exists>ps. train_window exp_fn cfg fm (nat a) (nat c) = Inr ps \<and> s = foldl (note_row fm (nat a) ps) st [nat a..<nat c])"
  by (auto simp: ml_window_def Let_def bindE_eq_Inr)

lemma ml_windows_agree:
  assumes "agree_at rows rows' b" "sorted_wrt (<) (map fst rows)" "map fst rows = map fst rows'"
    and "\<forall>(a, c) \<in> set ws. 0 < a \<and> a < c \<and> c \<le> int (length rows)"
    and "foldE (ml_window exp_fn cfg (fm_of rows)) st ws = Inr t" "foldE (ml_window exp_fn cfg (fm_of rows')) st' ws = Inr t'"
    and "length (mx_probs st) = length (mx_probs st')" "\<forall>i \<le> b. mx_probs st ! i = mx_probs st' ! i"
  shows "length (mx_probs t) = length (mx_probs t') \<and> (\<forall>i \<le> b. mx_probs t ! i = mx_probs t' ! i)"
  using assms(4-)
proof (induction ws arbitrary: st st')
  case (Cons w ws)
  obtain a c where w: "w = (a, c)" by (cases w)
  let ?vs = "nat a" and ?ve = "nat c"
  have len: "length rows = length rows'" using assms(3) by (metis length_map)
  have bounds: "?vs < length rows" "?ve \<le> length rows" using Cons.prems(1) w by auto
  obtain ps where ps: "train_window exp_fn cfg (fm_of rows) ?vs ?ve = Inr ps"
    "foldE (ml_window exp_fn cfg (fm_of rows)) (foldl (note_row (fm_of rows) ?vs ps) st [?vs..<?ve]) ws = Inr t"
    using Cons.prems(2) w by (auto simp: ml_window_Inr bindE_eq_Inr)
  obtain ps' where ps': "train_window exp_fn cfg (fm_of rows') ?vs ?ve = Inr ps'"
    "foldE (ml_window exp_fn cfg (fm_of rows')) (foldl (note_row (fm_of rows') ?vs ps') st' [?vs..<?ve]) ws = Inr t'"
    using Cons.prems(3) w by (auto simp: ml_window_Inr bindE_eq_Inr)
  have "ps ! (r - ?vs) = ps' ! (r - ?vs)" if "r \<in> set [?vs..<?ve]" "fx_indices (fm_of rows) ! r \<le> b" for r
  proof -
    have r: "?vs \<le> r" "r < ?ve" "r < length rows" using that(1) bounds by auto
    then have "fst (rows ! r) \<le> b" using that(2) by (simp add: fm_of_def)
    moreover have "fst (rows ! ?vs) \<le> fst (rows ! r)"
      using sorted_wrt_nth_less[OF assms(2), of ?vs r] r bounds by (cases "?vs = r") auto
    ultimately show ?thesis
      using train_agree[OF assms(1,2) len bounds(1) _ ps(1) ps'(1) r(1,2) bounds(2)] by simp
  qed
  then have step: "length (mx_probs (foldl (note_row (fm_of rows) ?vs ps) st [?vs..<?ve])) =
      length (mx_probs (foldl (note_row (fm_of rows') ?vs ps') st' [?vs..<?ve])) \<and>
    (\<forall>i \<le> b. mx_probs (foldl (note_row (fm_of rows) ?vs ps) st [?vs..<?ve]) ! i =
      mx_probs (foldl (note_row (fm_of rows') ?vs ps') st' [?vs..<?ve]) ! i)"
    using Cons.prems(4,5) assms(3) by (intro note_rows_agree) (auto simp: fm_of_def)
  show ?case by (rule Cons.IH[OF _ ps(2) ps'(2)]) (use Cons.prems(1) step in auto)
qed simp

text \<open>
  C36 The learned predictions do not look ahead: over two candle histories that agree up to and
  including bar \<open>b\<close>, however they differ later, the walk-forward probabilities of the bars up
  to \<open>b\<close> are the same, and so are the actions they lead to.  (Which bars have features has
  to be the same, and the histories equally long, since the windows depend on how many there are.)
\<close>

theorem predictions_do_not_look_ahead:
  assumes "build_features pow_fn cs = Inr fm" "build_features pow_fn cs' = Inr fm'"
    and "fx_indices fm = fx_indices fm'" "length cs = length cs'" "take (b + 1) cs = take (b + 1) cs'"
    and "ml_predictions exp_fn cfg fm (length cs) = Inr st" "ml_predictions exp_fn cfg fm' (length cs') = Inr st'"
    and "i \<le> b"
  shows "mx_probs st ! i = mx_probs st' ! i \<and>
    ml_action cfg (mx_probs st ! i) = ml_action cfg (mx_probs st' ! i)"
proof -
  obtain rows rows' where r: "feature_rows pow_fn cs = Inr rows" "fm = fm_of rows"
    "feature_rows pow_fn cs' = Inr rows'" "fm' = fm_of rows'"
    using assms(1,2) by (auto simp: build_features_rows)
  have ind: "map fst rows = map fst rows'" using assms(3) r(2,4) by (simp add: fm_of_def)
  obtain sp where sp: "new_splitter \<lparr>wf_initial_train = ml_initial_train cfg, wf_val_size = ml_val_size cfg,
      wf_step = ml_step cfg, wf_holdout_size = ml_holdout_size cfg\<rparr> = Inr sp"
    "foldE (ml_window exp_fn cfg (fm_of rows)) \<lparr>mx_probs = replicate (length cs) None, mx_true = [], mx_pred = []\<rparr>
       (windows sp (int (length rows))) = Inr st"
    "foldE (ml_window exp_fn cfg (fm_of rows')) \<lparr>mx_probs = replicate (length cs) None, mx_true = [], mx_pred = []\<rparr>
       (windows sp (int (length rows))) = Inr st'"
    using assms(4,6,7) r(2,4) ind by (auto simp: ml_predictions_def bindE_eq_Inr fm_of_def dest: arg_cong[of _ _ length])
  have "0 \<le> ml_holdout_size cfg" using sp(1) by (auto simp: new_splitter_def split: if_splits)
  then have "\<forall>(a, c) \<in> set (windows sp (int (length rows))). 0 < a \<and> a < c \<and> c \<le> int (length rows)"
    using windows_exact[OF sp(1), of "int (length rows)"] by fastforce
  from ml_windows_agree[OF feature_rows_agree[OF r(1,3) ind assms(5)] feature_rows_sorted[OF r(1)] ind this sp(2,3)]
  show ?thesis using assms(8) by simp
qed

definition learning_config :: ml_config where
  "learning_config =
     \<lparr>ml_initial_train = 1, ml_val_size = 1, ml_step = 1, ml_holdout_size = 0, ml_buy_threshold = Fin (1/2),
      ml_sell_threshold = Fin (1/4), ml_learning_rate = Fin 1, ml_max_iter = 2, ml_l2 = Fin 0,
      ml_feature_config_version = ''v1''\<rparr>"

definition learning_bars :: "rat \<Rightarrow> candle list" where
  "learning_bars p = [example_candle 0 8, example_candle 900000 4, example_candle 1800000 p]"

definition learning_features :: "rat \<Rightarrow> feature_matrix" where
  "learning_features p = projr (build_features (\<lambda>_ _. Inr (Fin 1)) (learning_bars p))"

definition learning_state :: "rat \<Rightarrow> ml_state" where
  "learning_state p = projr (ml_predictions (\<lambda>_. Inr (Fin 1)) learning_config (learning_features p) (length (learning_bars p)))"

theorem predictions_do_not_look_ahead_witness:
  "mx_probs (learning_state 16) ! 1 = mx_probs (learning_state 2) ! 1 \<and>
   ml_action learning_config (mx_probs (learning_state 16) ! 1) = ml_action learning_config (mx_probs (learning_state 2) ! 1)"
proof (rule predictions_do_not_look_ahead[where b = 1])
  have "\<not> isl (build_features (\<lambda>_ _. Inr (Fin 1)) (learning_bars 16))" by code_simp
  then show "build_features (\<lambda>_ _. Inr (Fin 1)) (learning_bars 16) = Inr (learning_features 16)"
    by (simp add: learning_features_def)
  have "\<not> isl (build_features (\<lambda>_ _. Inr (Fin 1)) (learning_bars 2))" by code_simp
  then show "build_features (\<lambda>_ _. Inr (Fin 1)) (learning_bars 2) = Inr (learning_features 2)"
    by (simp add: learning_features_def)
  have "\<not> isl (ml_predictions (\<lambda>_. Inr (Fin 1)) learning_config (learning_features 16) (length (learning_bars 16)))"
    by code_simp
  then show "ml_predictions (\<lambda>_. Inr (Fin 1)) learning_config (learning_features 16) (length (learning_bars 16)) =
      Inr (learning_state 16)"
    by (simp add: learning_state_def)
  have "\<not> isl (ml_predictions (\<lambda>_. Inr (Fin 1)) learning_config (learning_features 2) (length (learning_bars 2)))"
    by code_simp
  then show "ml_predictions (\<lambda>_. Inr (Fin 1)) learning_config (learning_features 2) (length (learning_bars 2)) =
      Inr (learning_state 2)"
    by (simp add: learning_state_def)
  show "fx_indices (learning_features 16) = fx_indices (learning_features 2)" by code_simp
qed (simp_all add: learning_bars_def)

end
