(* ===== verification/Holdout.thy ===== *)
theory Holdout
  imports Candles
begin

text \<open>
  The protection of unseen data: the frozen split (\<open>lab/splits.py\<close>), the validated dataset
  adapter (\<open>lab/frozen_dataset.py\<close>), the viability gate in front of the walk-forward range
  (\<open>lab/viability.py\<close>), the walk-forward windows (\<open>lab/walk_forward.py\<close>) and the day guard of
  the ingestion (\<open>infrastructure/medallion/split_guard.py\<close>).  The file system, SHA-256, the
  JSON and CSV parsers are arguments; opening an adapter returns the files it read beside its
  result, so that \<open>nothing was read\<close> is a statement.  Dates are ordered by year, month, day.
\<close>

section \<open>The split\<close>

definition TOTAL_ROWS :: int where "TOTAL_ROWS = 103680"
definition DEVELOPMENT_START :: int where "DEVELOPMENT_START = 0"
definition DEVELOPMENT_END :: int where "DEVELOPMENT_END = 62208"
definition WALK_FORWARD_START :: int where "WALK_FORWARD_START = 62208"
definition WALK_FORWARD_END :: int where "WALK_FORWARD_END = 88128"
definition FINAL_HOLDOUT_START :: int where "FINAL_HOLDOUT_START = 88128"
definition FINAL_HOLDOUT_END :: int where "FINAL_HOLDOUT_END = 103680"

lemmas split_defs = TOTAL_ROWS_def DEVELOPMENT_START_def DEVELOPMENT_END_def WALK_FORWARD_START_def
  WALK_FORWARD_END_def FINAL_HOLDOUT_START_def FINAL_HOLDOUT_END_def

datatype bound = IntBound int | BoolBound bool | OtherBound
  \<comment> \<open>what a caller may pass as a bound\<close>

fun int_bounds :: "bound \<Rightarrow> bound \<Rightarrow> (int \<times> int) result" where
  \<comment> \<open>the \<open>isinstance\<close> checks\<close>
  "int_bounds (IntBound a) (IntBound b) = Inr (a, b)"
| "int_bounds _ _ = Inl (ValueError ''range bounds must be integers'')"

definition is_holdout_range :: "bound \<Rightarrow> bound \<Rightarrow> bool result" where
  "is_holdout_range start stop =
     bindE (int_bounds start stop) (\<lambda>(a, b).
       if a < 0 \<or> TOTAL_ROWS < b \<or> b \<le> a then Inl (ValueError ''invalid range'')
       else Inr (a < FINAL_HOLDOUT_END \<and> FINAL_HOLDOUT_START < b))"

section \<open>The adapter\<close>

definition intersects_walk_forward :: "int \<Rightarrow> int \<Rightarrow> bool" where
  "intersects_walk_forward a b \<longleftrightarrow> a < WALK_FORWARD_END \<and> WALK_FORWARD_START < b"

definition validate_range :: "bound \<Rightarrow> bound \<Rightarrow> bool \<Rightarrow> unit result" where
  \<comment> \<open>\<open>token\<close>: the caller holds the walk-forward token\<close>
  "validate_range start stop token =
     bindE (int_bounds start stop) (\<lambda>(a, b).
       if a < 0 \<or> b \<le> a then Inl (ValueError ''invalid range'')
       else bindE (is_holdout_range start stop) (\<lambda>holdout.
         if holdout then Inl (ValueError ''range intersects FINAL_HOLDOUT: access denied'')
         else if intersects_walk_forward a b \<and> \<not> token
         then Inl (ValueError ''range intersects WALK_FORWARD: access denied'')
         else Inr ()))"

record manifest_entry =
  mn_symbol :: string
  mn_timeframe :: string
  mn_sha256 :: string
  mn_row_count :: nat

record manifest =
  mn_dataset_version :: "string option"
  mn_files :: "manifest_entry list option"
    \<comment> \<open>None unless it is a list\<close>

record split_file =
  sf_dataset_id :: string
  sf_manifest_sha :: string

record frozen_range =
  fr_dataset_id :: string
  fr_symbol :: string
  fr_timeframe :: string
  fr_row_start :: int
  fr_row_end :: int
  fr_manifest_sha :: string
  fr_csv_sha :: string

record adapter =
  ad_range :: frozen_range
  ad_candles :: "candle list"

record 'row files =
  fs_read :: "string \<Rightarrow> string option"
    \<comment> \<open>the content of a path, None unless it is a file\<close>
  fs_sha256 :: "string \<Rightarrow> string"
  fs_split :: "string \<Rightarrow> split_file result"
  fs_manifest :: "string \<Rightarrow> manifest result"
  fs_rows :: "string \<Rightarrow> 'row list"
  fs_candle :: "'row \<Rightarrow> candle result"
    \<comment> \<open>the constructor on the parsed fields\<close>

definition find_entry :: "manifest \<Rightarrow> string \<Rightarrow> string \<Rightarrow> manifest_entry result" where
  "find_entry m symbol tf =
     (case mn_files m of
        None \<Rightarrow> Inl (ValueError ''manifest has no files section'')
      | Some es \<Rightarrow> (case find (\<lambda>e. mn_symbol e = symbol \<and> mn_timeframe e = tf) es of
          None \<Rightarrow> Inl (ValueError ''no manifest entry'')
        | Some e \<Rightarrow> Inr e))"

fun check_order :: "candle list \<Rightarrow> unit result" where
  "check_order (p # n # cs) =
     (if timestamp_ms n \<le> timestamp_ms p then Inl (ValueError ''timestamps out-of-order: frozen dataset corrupted'')
      else check_order (n # cs))"
| "check_order _ = Inr ()"

type_synonym 'a reading = "string list \<times> 'a result"
  \<comment> \<open>the files read, in order, and the outcome\<close>

definition bindR :: "'a reading \<Rightarrow> ('a \<Rightarrow> 'b reading) \<Rightarrow> 'b reading" where
  "bindR m f = (case m of (rs, Inl e) \<Rightarrow> (rs, Inl e) | (rs, Inr a) \<Rightarrow> (case f a of (rs', r) \<Rightarrow> (rs @ rs', r)))"

definition pureR :: "'a result \<Rightarrow> 'a reading" where
  "pureR r = ([], r)"

definition read_file :: "'row files \<Rightarrow> string \<Rightarrow> string \<Rightarrow> string reading" where
  \<comment> \<open>\<open>is_file\<close> and \<open>read_bytes\<close>\<close>
  "read_file fs path msg =
     (case fs_read fs path of None \<Rightarrow> ([], Inl (ValueError msg)) | Some content \<Rightarrow> ([path], Inr content))"

definition rows_of :: "'row files \<Rightarrow> string \<Rightarrow> int \<Rightarrow> int \<Rightarrow> candle list result" where
  "rows_of fs content a b = mapE (fs_candle fs) (slice (nat a) (nat b) (fs_rows fs content))"

definition open_adapter ::
  "'row files \<Rightarrow> string \<Rightarrow> string \<Rightarrow> string \<Rightarrow> string \<Rightarrow> string \<Rightarrow> string \<Rightarrow> bound \<Rightarrow> bound \<Rightarrow> bool \<Rightarrow> adapter reading" where
  \<comment> \<open>\<open>FrozenDatasetAdapter.__init__\<close>\<close>
  "open_adapter fs dataset_id symbol tf manifest_path csv_path expected_sha start stop token =
     bindR (pureR (validate_range start stop token)) (\<lambda>_.
     bindR (read_file fs manifest_path ''manifest not found'') (\<lambda>mtext.
     bindR (pureR (raise_if (fs_sha256 fs mtext \<noteq> expected_sha) (ValueError ''manifest SHA mismatch''))) (\<lambda>_.
     bindR (pureR (fs_manifest fs mtext)) (\<lambda>m.
     bindR (pureR (raise_if (mn_dataset_version m \<noteq> Some dataset_id) (ValueError ''dataset_id mismatch''))) (\<lambda>_.
     bindR (pureR (find_entry m symbol tf)) (\<lambda>entry.
     bindR (read_file fs csv_path ''csv not found'') (\<lambda>ctext.
     bindR (pureR (raise_if (fs_sha256 fs ctext \<noteq> mn_sha256 entry) (ValueError ''csv SHA mismatch''))) (\<lambda>_.
     bindR (pureR (raise_if (length (fs_rows fs ctext) \<noteq> mn_row_count entry) (ValueError ''csv row count mismatch''))) (\<lambda>_.
     bindR (pureR (int_bounds start stop)) (\<lambda>(a, b).
     bindR (pureR (raise_if (int (length (fs_rows fs ctext)) < b) (ValueError ''range end beyond dataset rows''))) (\<lambda>_.
     bindR (pureR (rows_of fs ctext a b)) (\<lambda>cs.
     bindR (pureR (check_order cs)) (\<lambda>_.
       pureR (Inr \<lparr>ad_range = \<lparr>fr_dataset_id = dataset_id, fr_symbol = mn_symbol entry, fr_timeframe = mn_timeframe entry,
           fr_row_start = a, fr_row_end = b, fr_manifest_sha = fs_sha256 fs mtext, fr_csv_sha = fs_sha256 fs ctext\<rparr>,
         ad_candles = cs\<rparr>))))))))))))))"

definition MANIFEST_REL :: string where "MANIFEST_REL = ''docs/datasets/BYBIT_ETHBTC_V001.manifest.json''"
definition SPLIT_V1_REL :: string where "SPLIT_V1_REL = ''splits/v1.json''"

definition csv_path :: "string \<Rightarrow> string \<Rightarrow> string" where
  "csv_path symbol tf = ''datasets/BYBIT_ETHBTC_V001/'' @ symbol @ ''_'' @ tf @ ''.csv''"

definition from_repo :: "'row files \<Rightarrow> string \<Rightarrow> string \<Rightarrow> bound \<Rightarrow> bound \<Rightarrow> bool \<Rightarrow> adapter reading" where
  \<comment> \<open>\<open>_from_repo\<close>: the range is checked before the split file is read\<close>
  "from_repo fs symbol tf start stop token =
     bindR (pureR (validate_range start stop token)) (\<lambda>_.
     bindR (read_file fs SPLIT_V1_REL ''FileNotFoundError'') (\<lambda>stext.
     bindR (pureR (fs_split fs stext)) (\<lambda>sp.
       open_adapter fs (sf_dataset_id sp) symbol tf MANIFEST_REL
         (csv_path symbol tf) (sf_manifest_sha sp) start stop token)))"

definition public_from_repo :: "'row files \<Rightarrow> string \<Rightarrow> string \<Rightarrow> bound \<Rightarrow> bound \<Rightarrow> adapter reading" where
  "public_from_repo fs symbol tf start stop = from_repo fs symbol tf start stop False"

definition from_repo_authorized_walk_forward :: "'row files \<Rightarrow> string \<Rightarrow> string \<Rightarrow> bound \<Rightarrow> bound \<Rightarrow> adapter reading" where
  "from_repo_authorized_walk_forward fs symbol tf start stop = from_repo fs symbol tf start stop True"

section \<open>Viability\<close>

datatype metric = NumMetric pyfloat | OtherMetric
  \<comment> \<open>an int or float, or a value that is neither, bools included\<close>

fun as_optional_float :: "metric option \<Rightarrow> pyfloat option" where
  "as_optional_float (Some (NumMetric x)) = Some x"
| "as_optional_float _ = None"

definition is_finite_positive :: "pyfloat option \<Rightarrow> bool" where
  "is_finite_positive v = (case v of None \<Rightarrow> False | Some x \<Rightarrow> is_Fin x \<and> flt (Fin 0) x)"

definition is_finite_above_one :: "pyfloat option \<Rightarrow> bool" where
  "is_finite_above_one v = (case v of None \<Rightarrow> False | Some x \<Rightarrow> is_Fin x \<and> flt (Fin 1) x)"

record viability_evidence =
  ve_net_pnl :: "pyfloat option"
  ve_expectancy :: "pyfloat option"
  ve_profit_factor :: "pyfloat option"

definition viability_passed :: "viability_evidence \<Rightarrow> bool" where
  "viability_passed e \<longleftrightarrow>
     is_finite_positive (ve_net_pnl e) \<and> is_finite_positive (ve_expectancy e) \<and> is_finite_above_one (ve_profit_factor e)"

definition viability_from_metrics :: "(string \<Rightarrow> metric option) \<Rightarrow> viability_evidence" where
  "viability_from_metrics m =
     \<lparr>ve_net_pnl = as_optional_float (m ''net_pnl''), ve_expectancy = as_optional_float (m ''expectancy''),
      ve_profit_factor = as_optional_float (m ''profit_factor'')\<rparr>"

definition walk_forward_eligible :: "string \<Rightarrow> viability_evidence \<Rightarrow> bool" where
  "walk_forward_eligible development_result e \<longleftrightarrow> development_result = ''IMPROVED'' \<and> viability_passed e"

definition guarded_walk_forward_open ::
  "string \<Rightarrow> viability_evidence \<Rightarrow> bool \<Rightarrow> 'row files \<Rightarrow> string \<Rightarrow> string \<Rightarrow> bound \<Rightarrow> bound \<Rightarrow> adapter option reading" where
  "guarded_walk_forward_open development_result e human_authorized fs symbol tf start stop =
     (if \<not> walk_forward_eligible development_result e then ([], Inr None)
      else if \<not> human_authorized then ([], Inr None)
      else bindR (from_repo_authorized_walk_forward fs symbol tf start stop) (\<lambda>a. pureR (Inr (Some a))))"

section \<open>The walk-forward windows\<close>

record window_spec =
  ws_index :: int
  ws_row_start :: int
  ws_row_end :: int

fun window_specs :: "nat \<Rightarrow> int \<Rightarrow> int \<Rightarrow> int \<Rightarrow> int \<Rightarrow> window_spec list" where
  \<comment> \<open>the loop over the remaining indices\<close>
  "window_specs 0 index start base extra = []"
| "window_specs (Suc k) index start base extra =
     (let size = base + (if index < extra then 1 else 0) in
      \<lparr>ws_index = index, ws_row_start = start, ws_row_end = start + size\<rparr>
        # window_specs k (index + 1) (start + size) base extra)"

definition walk_forward_windows :: "bound \<Rightarrow> window_spec list result" where
  "walk_forward_windows n_windows =
     (let total = WALK_FORWARD_END - WALK_FORWARD_START in
      case n_windows of
        IntBound n \<Rightarrow>
          (if n < 1 \<or> total < n then Inl (ValueError ''n_windows out of range'')
           else Inr (window_specs (nat n) 0 WALK_FORWARD_START (total div n) (total mod n)))
      | _ \<Rightarrow> Inl (ValueError ''n_windows must be an integer''))"

section \<open>The day guard\<close>

datatype date = Date (date_year: int) (date_month: int) (date_day: int)

instantiation date :: linorder
begin

definition less_eq_date :: "date \<Rightarrow> date \<Rightarrow> bool" where
  "a \<le> b \<longleftrightarrow> date_year a < date_year b \<or> date_year a = date_year b \<and>
     (date_month a < date_month b \<or> date_month a = date_month b \<and> date_day a \<le> date_day b)"

definition less_date :: "date \<Rightarrow> date \<Rightarrow> bool" where
  "a < b \<longleftrightarrow> a \<le> b \<and> a \<noteq> (b :: date)"

instance
proof
  fix x y z :: date
  show "(x < y) = (x \<le> y \<and> \<not> y \<le> x)"
    by (cases x; cases y) (auto simp: less_date_def less_eq_date_def)
  show "x \<le> x" by (simp add: less_eq_date_def)
  show "x \<le> y \<Longrightarrow> y \<le> z \<Longrightarrow> x \<le> z" by (auto simp: less_eq_date_def)
  show "x \<le> y \<Longrightarrow> y \<le> x \<Longrightarrow> x = y" by (cases x; cases y) (auto simp: less_eq_date_def)
  show "x \<le> y \<or> y \<le> x" by (auto simp: less_eq_date_def)
qed

end

definition DEVELOPMENT_FIRST_DAY :: date where "DEVELOPMENT_FIRST_DAY = Date 2023 9 9"
definition DEVELOPMENT_LAST_DAY :: date where "DEVELOPMENT_LAST_DAY = Date 2025 6 16"
definition WALK_FORWARD_FIRST_DAY :: date where "WALK_FORWARD_FIRST_DAY = Date 2025 6 17"
definition FINAL_HOLDOUT_FIRST_DAY :: date where "FINAL_HOLDOUT_FIRST_DAY = Date 2026 3 14"
definition FINAL_HOLDOUT_LAST_DAY :: date where "FINAL_HOLDOUT_LAST_DAY = Date 2026 8 23"
definition FUTURE_COLLECTION_FIRST_DAY :: date where "FUTURE_COLLECTION_FIRST_DAY = Date 2026 8 24"

lemmas day_defs = DEVELOPMENT_FIRST_DAY_def DEVELOPMENT_LAST_DAY_def WALK_FORWARD_FIRST_DAY_def
  FINAL_HOLDOUT_FIRST_DAY_def FINAL_HOLDOUT_LAST_DAY_def FUTURE_COLLECTION_FIRST_DAY_def

datatype ingest_class = DEVELOPMENT | WALK_FORWARD | FINAL_HOLDOUT | FUTURE_COLLECTION | OUT_OF_RANGE

datatype ingest_scope = DEVELOPMENT_ONLY | DEVELOPMENT_AND_FUTURE_COLLECTION

definition DEFAULT_INGEST_SCOPE :: ingest_scope where "DEFAULT_INGEST_SCOPE = DEVELOPMENT_ONLY"

datatype day_arg = Day date | NotADay
  \<comment> \<open>what a caller may pass as a day\<close>

datatype scope_arg = Scope ingest_scope | NotAScope

definition split_guard_error :: "string \<Rightarrow> py_error" where
  "split_guard_error msg = NamedError ''SplitGuardError'' msg"

fun require_day :: "day_arg \<Rightarrow> date result" where
  "require_day (Day d) = Inr d"
| "require_day NotADay = Inl (split_guard_error ''day must be a datetime.date'')"

definition classify_ingest_day :: "day_arg \<Rightarrow> ingest_class result" where
  "classify_ingest_day day = bindE (require_day day) (\<lambda>d. Inr (
     if DEVELOPMENT_FIRST_DAY \<le> d \<and> d \<le> DEVELOPMENT_LAST_DAY then DEVELOPMENT
     else if WALK_FORWARD_FIRST_DAY \<le> d \<and> d < FINAL_HOLDOUT_FIRST_DAY then WALK_FORWARD
     else if FINAL_HOLDOUT_FIRST_DAY \<le> d \<and> d \<le> FINAL_HOLDOUT_LAST_DAY then FINAL_HOLDOUT
     else if FUTURE_COLLECTION_FIRST_DAY \<le> d then FUTURE_COLLECTION
     else OUT_OF_RANGE))"

definition is_development_day :: "day_arg \<Rightarrow> bool result" where
  "is_development_day day = bindE (classify_ingest_day day) (\<lambda>c. Inr (c = DEVELOPMENT))"

definition ensure_ingest_allowed :: "day_arg \<Rightarrow> scope_arg \<Rightarrow> ingest_class result" where
  "ensure_ingest_allowed day scope =
     bindE (require_day day) (\<lambda>_.
     case scope of
       NotAScope \<Rightarrow> Inl (split_guard_error ''scope must be an IngestScope (not a bool/str)'')
     | Scope sc \<Rightarrow>
         bindE (classify_ingest_day day) (\<lambda>access.
         if access = DEVELOPMENT then Inr access
         else if access = FUTURE_COLLECTION \<and> sc = DEVELOPMENT_AND_FUTURE_COLLECTION then Inr access
         else Inl (split_guard_error ''bloqueado para ingesta'')))"

definition ensure_development_day :: "day_arg \<Rightarrow> unit result" where
  "ensure_development_day day = 
     bindE (ensure_ingest_allowed day (Scope DEFAULT_INGEST_SCOPE)) (\<lambda>_. Inr ())"

section \<open>What the guards guarantee\<close>

lemma bindR_Inr: "bindR m f = (rs, Inr b) \<longleftrightarrow> (\<exists>rs1 a rs2. m = (rs1, Inr a) \<and> f a = (rs2, Inr b) \<and> rs = rs1 @ rs2)"
  by (auto simp: bindR_def split: prod.splits sum.splits)

lemma pureR_Inr [simp]: "pureR r = (rs, Inr a) \<longleftrightarrow> rs = [] \<and> r = Inr a"
  by (auto simp: pureR_def)

lemma bindR_fail: "m = (rs, Inl e) \<Longrightarrow> bindR m f = (rs, Inl e)"
  by (simp add: bindR_def)

lemma int_bounds_Inr: "int_bounds s e = Inr (a, b) \<longleftrightarrow> s = IntBound a \<and> e = IntBound b"
  by (cases s; cases e) auto

lemma validate_range_ok:
  "validate_range s e token = Inr () \<longleftrightarrow>
     (\<exists>a b. s = IntBound a \<and> e = IntBound b \<and> 0 \<le> a \<and> a < b \<and> b \<le> FINAL_HOLDOUT_START \<and>
        (token \<or> b \<le> WALK_FORWARD_START))"
  by (cases s; cases e)
     (auto simp: validate_range_def is_holdout_range_def intersects_walk_forward_def split_defs)

lemma check_order_iff: "check_order cs = Inr () \<longleftrightarrow> sorted_wrt (<) (map timestamp_ms cs)"
proof (induction cs rule: check_order.induct)
  case (1 p n cs)
  then show ?case by (auto intro: less_trans)
qed simp_all

lemma open_adapter_rows:
  assumes "open_adapter fs dataset_id symbol tf mp cp sha s e token = (rs, Inr ad)"
  shows "validate_range s e token = Inr () \<and>
    (\<exists>a b mtext ctext m entry. s = IntBound a \<and> e = IntBound b \<and>
       fs_read fs mp = Some mtext \<and> fs_sha256 fs mtext = sha \<and> fs_manifest fs mtext = Inr m \<and>
       mn_dataset_version m = Some dataset_id \<and> find_entry m symbol tf = Inr entry \<and>
       fs_read fs cp = Some ctext \<and> fs_sha256 fs ctext = mn_sha256 entry \<and>
       length (fs_rows fs ctext) = mn_row_count entry \<and> b \<le> int (length (fs_rows fs ctext)) \<and>
       rows_of fs ctext a b = Inr (ad_candles ad) \<and> sorted_wrt (<) (map timestamp_ms (ad_candles ad)))"
  using assms
  by (auto simp: open_adapter_def bindR_Inr read_file_def check_order_iff int_bounds_Inr split: option.splits)

lemma open_adapter_invalid:
  assumes "validate_range s e token = Inl err"
  shows "open_adapter fs dataset_id symbol tf mp cp sha s e token = ([], Inl err)"
  using assms by (simp add: open_adapter_def bindR_def pureR_def)

lemma from_repo_invalid: "validate_range s e token = Inl err \<Longrightarrow> from_repo fs symbol tf s e token = ([], Inl err)"
  by (simp add: from_repo_def bindR_def pureR_def)

lemma from_repo_rows:
  assumes "from_repo fs symbol tf s e token = (rs, Inr ad)"
  shows "validate_range s e token = Inr () \<and>
    (\<exists>a b ctext. s = IntBound a \<and> e = IntBound b \<and>
       fs_read fs (csv_path symbol tf) = Some ctext \<and>
       rows_of fs ctext a b = Inr (ad_candles ad) \<and> sorted_wrt (<) (map timestamp_ms (ad_candles ad)))"
proof -
  obtain sp :: split_file and rs' where "open_adapter fs (sf_dataset_id sp) symbol tf MANIFEST_REL
      (csv_path symbol tf) (sf_manifest_sha sp) s e token = (rs', Inr ad)"
    using assms unfolding from_repo_def bindR_Inr pureR_Inr by blast
  from open_adapter_rows[OF this] show ?thesis by blast
qed

lemma validate_range_cases: "validate_range s e token = Inr () \<or> (\<exists>err. validate_range s e token = Inl err)"
  by (cases "validate_range s e token") auto

lemma from_repo_error: "validate_range s e token \<noteq> Inr () \<Longrightarrow> \<exists>err. from_repo fs symbol tf s e token = ([], Inl err)"
  using validate_range_cases[of s e token] from_repo_invalid[of s e token _ fs symbol tf] by auto

text \<open>C10. Whatever the files hold: a public request that opens an adapter names integer bounds
  inside DEVELOPMENT and serves exactly those rows of the symbol's file, strictly increasing in
  time; a request that touches WALK_FORWARD or FINAL_HOLDOUT, or is not a range, fails before any
  file is read; and the private path opens no range that touches FINAL_HOLDOUT either.\<close>

theorem unseen_rows_are_never_served:
  "(\<forall>rs ad. public_from_repo fs symbol tf s e = (rs, Inr ad) \<longrightarrow>
      (\<exists>a b ctext. s = IntBound a \<and> e = IntBound b \<and> DEVELOPMENT_START \<le> a \<and> a < b \<and> b \<le> DEVELOPMENT_END \<and>
         fs_read fs (csv_path symbol tf) = Some ctext \<and>
         rows_of fs ctext a b = Inr (ad_candles ad) \<and> sorted_wrt (<) (map timestamp_ms (ad_candles ad)))) \<and>
   (\<not> (\<exists>a b. s = IntBound a \<and> e = IntBound b \<and> 0 \<le> a \<and> a < b \<and> b \<le> DEVELOPMENT_END) \<longrightarrow>
      (\<exists>err. public_from_repo fs symbol tf s e = ([], Inl err))) \<and>
   (\<forall>a b. s = IntBound a \<and> e = IntBound b \<and> FINAL_HOLDOUT_START < b \<longrightarrow>
      (\<exists>err. from_repo_authorized_walk_forward fs symbol tf s e = ([], Inl err)))"
proof (intro conjI allI impI)
  fix rs ad assume "public_from_repo fs symbol tf s e = (rs, Inr ad)"
  from from_repo_rows[OF this[unfolded public_from_repo_def]]
  show "\<exists>a b ctext. s = IntBound a \<and> e = IntBound b \<and> DEVELOPMENT_START \<le> a \<and> a < b \<and> b \<le> DEVELOPMENT_END \<and>
         fs_read fs (csv_path symbol tf) = Some ctext \<and>
         rows_of fs ctext a b = Inr (ad_candles ad) \<and> sorted_wrt (<) (map timestamp_ms (ad_candles ad))"
    by (auto simp: validate_range_ok split_defs)
next
  assume "\<not> (\<exists>a b. s = IntBound a \<and> e = IntBound b \<and> 0 \<le> a \<and> a < b \<and> b \<le> DEVELOPMENT_END)"
  then have "validate_range s e False \<noteq> Inr ()" by (auto simp: validate_range_ok split_defs)
  then show "\<exists>err. public_from_repo fs symbol tf s e = ([], Inl err)"
    unfolding public_from_repo_def by (rule from_repo_error)
next
  fix a b assume "s = IntBound a \<and> e = IntBound b \<and> FINAL_HOLDOUT_START < b"
  then have "validate_range s e True \<noteq> Inr ()" by (auto simp: validate_range_ok split_defs)
  then show "\<exists>err. from_repo_authorized_walk_forward fs symbol tf s e = ([], Inl err)"
    unfolding from_repo_authorized_walk_forward_def by (rule from_repo_error)
qed

definition demo_candle :: "int \<Rightarrow> candle result" where
  "demo_candle t = Inr \<lparr>timestamp_ms = t, c_open = Fin 1, c_high = Fin 1, c_low = Fin 1, c_close = Fin 1,
     c_volume = Fin 1, c_turnover = Fin 1\<rparr>"

definition demo_files :: "int files" where
  \<comment> \<open>a repository whose only data file has three rows, with the identity as its hash\<close>
  "demo_files =
     \<lparr>fs_read = Some, fs_sha256 = id, fs_split = (\<lambda>_. Inr \<lparr>sf_dataset_id = ''V1'', sf_manifest_sha = MANIFEST_REL\<rparr>),
      fs_manifest = (\<lambda>_. Inr \<lparr>mn_dataset_version = Some ''V1'', mn_files =
        Some [\<lparr>mn_symbol = ''BTC'', mn_timeframe = ''15'', mn_sha256 = csv_path ''BTC'' ''15'', mn_row_count = 3\<rparr>]\<rparr>),
      fs_rows = (\<lambda>_. [10, 20, 30]), fs_candle = demo_candle\<rparr>"

lemma demo_opens:
  "\<exists>rs ad. public_from_repo demo_files ''BTC'' ''15'' (IntBound 0) (IntBound 2) = (rs, Inr ad) \<and>
     map timestamp_ms (ad_candles ad) = [10, 20]"
  by (simp add: public_from_repo_def from_repo_def open_adapter_def demo_files_def read_file_def bindR_def pureR_def
    validate_range_def is_holdout_range_def intersects_walk_forward_def find_entry_def rows_of_def slice_def
    demo_candle_def raise_if_def split_defs)

theorem unseen_rows_are_never_served_witness:
  "(\<exists>rs ad. public_from_repo demo_files ''BTC'' ''15'' (IntBound 0) (IntBound 2) = (rs, Inr ad) \<and>
      sorted_wrt (<) (map timestamp_ms (ad_candles ad))) \<and>
   (\<exists>err. public_from_repo demo_files ''BTC'' ''15'' (IntBound 62207) (IntBound 62209) = ([], Inl err)) \<and>
   (\<exists>err. from_repo_authorized_walk_forward demo_files ''BTC'' ''15'' (IntBound 88127) (IntBound 88129) = ([], Inl err))"
proof (intro conjI)
  show "\<exists>rs ad. public_from_repo demo_files ''BTC'' ''15'' (IntBound 0) (IntBound 2) = (rs, Inr ad) \<and>
      sorted_wrt (<) (map timestamp_ms (ad_candles ad))"
    using demo_opens unseen_rows_are_never_served[of demo_files "''BTC''" "''15''" "IntBound 0" "IntBound 2"] by blast
  show "\<exists>err. public_from_repo demo_files ''BTC'' ''15'' (IntBound 62207) (IntBound 62209) = ([], Inl err)"
    using unseen_rows_are_never_served[of demo_files "''BTC''" "''15''" "IntBound 62207" "IntBound 62209"]
    by (simp add: split_defs)
  show "\<exists>err. from_repo_authorized_walk_forward demo_files ''BTC'' ''15'' (IntBound 88127) (IntBound 88129) = ([], Inl err)"
    using unseen_rows_are_never_served[of demo_files "''BTC''" "''15''" "IntBound 88127" "IntBound 88129"]
    by (simp add: split_defs)
qed

subsection \<open>The viability gate\<close>

lemma finite_positive_iff: "is_finite_positive v \<longleftrightarrow> (\<exists>x. v = Some (Fin x) \<and> 0 < x)"
  by (cases v) (auto simp: is_finite_positive_def is_Fin_def)

lemma finite_above_one_iff: "is_finite_above_one v \<longleftrightarrow> (\<exists>x. v = Some (Fin x) \<and> 1 < x)"
  by (cases v) (auto simp: is_finite_above_one_def is_Fin_def)

lemma viability_passed_iff:
  "viability_passed e \<longleftrightarrow> (\<exists>p x f. e = \<lparr>ve_net_pnl = Some (Fin p), ve_expectancy = Some (Fin x), ve_profit_factor = Some (Fin f)\<rparr> \<and>
     0 < p \<and> 0 < x \<and> 1 < f)"
  by (cases e) (auto simp: viability_passed_def finite_positive_iff finite_above_one_iff)

text \<open>C33. The walk-forward range is opened only for a candidate whose relative result is
  IMPROVED, whose three development metrics are real numbers with a positive profit and
  expectancy and a profit factor above one (none missing, NaN or infinite), and which a human
  authorised, and the rows opened then end before the holdout; in every other case the answer is
  None and no file has been read.\<close>

theorem walk_forward_needs_viability_and_a_human:
  assumes "guarded_walk_forward_open development_result (viability_from_metrics metrics) authorized fs symbol tf s e = (rs, out)"
  shows "(\<exists>p x f. development_result = ''IMPROVED'' \<and> authorized \<and>
            metrics ''net_pnl'' = Some (NumMetric (Fin p)) \<and> 0 < p \<and>
            metrics ''expectancy'' = Some (NumMetric (Fin x)) \<and> 0 < x \<and>
            metrics ''profit_factor'' = Some (NumMetric (Fin f)) \<and> 1 < f \<and>
            (\<forall>ad. out = Inr (Some ad) \<longrightarrow> (\<exists>a b. s = IntBound a \<and> e = IntBound b \<and> 0 \<le> a \<and> a < b \<and> b \<le> FINAL_HOLDOUT_START))) \<or>
         rs = [] \<and> out = Inr None"
proof (cases "walk_forward_eligible development_result (viability_from_metrics metrics) \<and> authorized")
  case True
  then obtain p x f where m: "development_result = ''IMPROVED''" "authorized" "0 < p" "0 < x" "1 < f"
    "as_optional_float (metrics ''net_pnl'') = Some (Fin p)" "as_optional_float (metrics ''expectancy'') = Some (Fin x)"
    "as_optional_float (metrics ''profit_factor'') = Some (Fin f)"
    by (auto simp: walk_forward_eligible_def viability_passed_iff viability_from_metrics_def)
  have num: "as_optional_float v = Some y \<Longrightarrow> v = Some (NumMetric y)" for v y
    by (cases v rule: as_optional_float.cases) auto
  have "\<exists>a b. s = IntBound a \<and> e = IntBound b \<and> 0 \<le> a \<and> a < b \<and> b \<le> FINAL_HOLDOUT_START" if "out = Inr (Some ad)" for ad
  proof -
    have "validate_range s e True = Inr ()"
      using assms True that from_repo_rows[of fs symbol tf s e True]
      by (auto simp: guarded_walk_forward_open_def bindR_Inr from_repo_authorized_walk_forward_def)
    then show ?thesis by (auto simp: validate_range_ok)
  qed
  then show ?thesis using m num[OF m(6)] num[OF m(7)] num[OF m(8)] by blast
next
  case False
  then show ?thesis using assms by (auto simp: guarded_walk_forward_open_def split: if_splits)
qed

definition demo_metrics :: "string \<Rightarrow> metric option" where
  "demo_metrics k = (if k = ''net_pnl'' then Some (NumMetric (Fin 5)) else if k = ''expectancy'' then Some (NumMetric (Fin 1))
     else if k = ''profit_factor'' then Some (NumMetric (Fin 2)) else None)"

theorem walk_forward_needs_viability_and_a_human_witness:
  "\<exists>rs ad. guarded_walk_forward_open ''IMPROVED'' (viability_from_metrics demo_metrics) True demo_files ''BTC'' ''15''
      (IntBound 0) (IntBound 2) = (rs, Inr (Some ad)) \<and> (\<exists>p. demo_metrics ''net_pnl'' = Some (NumMetric (Fin p)) \<and> 0 < p)"
proof -
  obtain rs ad where g: "guarded_walk_forward_open ''IMPROVED'' (viability_from_metrics demo_metrics) True demo_files ''BTC'' ''15''
      (IntBound 0) (IntBound 2) = (rs, Inr (Some ad))"
    by (simp add: guarded_walk_forward_open_def walk_forward_eligible_def viability_passed_iff viability_from_metrics_def
      demo_metrics_def from_repo_authorized_walk_forward_def from_repo_def open_adapter_def demo_files_def read_file_def
      bindR_def pureR_def validate_range_def is_holdout_range_def intersects_walk_forward_def find_entry_def rows_of_def
      slice_def demo_candle_def raise_if_def split_defs)
  then show ?thesis using walk_forward_needs_viability_and_a_human[OF g] by auto
qed

subsection \<open>The windows\<close>

lemma upto_append: "i \<le> j \<Longrightarrow> j \<le> k + 1 \<Longrightarrow> [i..j - 1] @ [j..k] = [i..k :: int]"
  by (cases "j = k + 1") (auto simp: upto_split1)

definition window_rows :: "window_spec \<Rightarrow> int list" where
  "window_rows w = [ws_row_start w..ws_row_end w - 1]"

lemma window_rows_make: "window_rows \<lparr>ws_index = i, ws_row_start = a, ws_row_end = b\<rparr> = [a..b - 1]"
  by (simp add: window_rows_def)

lemma window_specs_cover:
  assumes "0 \<le> base"
  shows "concat (map window_rows (window_specs k index start base extra)) =
    [start..start + int k * base + max 0 (min (extra - index) (int k)) - 1]"
  using assms
proof (induction k arbitrary: index start)
  case (Suc k)
  define size where "size = base + (if index < extra then 1 else 0)"
  define rest where "rest = int k * base + max 0 (min (extra - (index + 1)) (int k))"
  have "int (Suc k) * base + max 0 (min (extra - index) (int (Suc k))) = size + rest"
    by (auto simp: size_def rest_def algebra_simps max_def min_def)
  moreover have "0 \<le> size" "0 \<le> rest" using Suc.prems by (auto simp: size_def rest_def)
  ultimately have "[start..start + int (Suc k) * base + max 0 (min (extra - index) (int (Suc k))) - 1] =
      [start..start + size - 1] @ [start + size..start + size + rest - 1]"
    using upto_append[of start "start + size" "start + size + rest - 1"] by (simp add: add.assoc)
  moreover have "concat (map window_rows (window_specs k (index + 1) (start + size) base extra)) =
      [start + size..start + size + rest - 1]"
    using Suc by (simp add: rest_def add.assoc)
  ultimately show ?case by (simp add: Let_def window_rows_make flip: size_def)
qed simp

lemma window_specs_sizes:
  "w \<in> set (window_specs k index start base extra) \<Longrightarrow> ws_row_end w - ws_row_start w \<in> {base, base + 1}"
  by (induction k arbitrary: index start) (auto simp: Let_def split: if_splits)

lemma window_specs_length: "length (window_specs k index start base extra) = k"
  by (induction k arbitrary: index start) (auto simp: Let_def)

text \<open>For every admissible number of windows the walk-forward range is cut into that many
  non-empty windows that follow each other without gap or overlap and cover it exactly, whose
  sizes differ by at most one; every window opens on the authorised path and none on the public
  one.\<close>

theorem windows_partition_walk_forward:
  assumes "1 \<le> n" "n \<le> WALK_FORWARD_END - WALK_FORWARD_START"
  shows "\<exists>ws. walk_forward_windows (IntBound n) = Inr ws \<and> length ws = nat n \<and>
    concat (map window_rows ws) = [WALK_FORWARD_START..WALK_FORWARD_END - 1] \<and>
    (\<forall>w\<in>set ws. ws_row_start w < ws_row_end w \<and>
       ws_row_end w - ws_row_start w - (WALK_FORWARD_END - WALK_FORWARD_START) div n \<in> {0, 1} \<and>
       validate_range (IntBound (ws_row_start w)) (IntBound (ws_row_end w)) True = Inr () \<and>
       validate_range (IntBound (ws_row_start w)) (IntBound (ws_row_end w)) False \<noteq> Inr ())"
proof -
  let ?t = "WALK_FORWARD_END - WALK_FORWARD_START"
  let ?ws = "window_specs (nat n) 0 WALK_FORWARD_START (?t div n) (?t mod n)"
  have b: "1 \<le> ?t div n" using assms by (simp add: pos_imp_zdiv_pos_iff int_one_le_iff_zero_less)
  have m: "0 \<le> ?t mod n" "?t mod n < n" using assms by auto
  have cover: "concat (map window_rows ?ws) = [WALK_FORWARD_START..WALK_FORWARD_END - 1]"
    using window_specs_cover[of "?t div n" "nat n" 0 WALK_FORWARD_START "?t mod n"] b m assms
    by (simp add: algebra_simps)
  have "ws_row_start w < ws_row_end w \<and> ws_row_end w - ws_row_start w - ?t div n \<in> {0, 1} \<and>
      WALK_FORWARD_START \<le> ws_row_start w \<and> ws_row_end w \<le> WALK_FORWARD_END" if w: "w \<in> set ?ws" for w
  proof -
    have size: "ws_row_end w - ws_row_start w \<in> {?t div n, ?t div n + 1}" by (rule window_specs_sizes[OF w])
    have "set (window_rows w) \<subseteq> set [WALK_FORWARD_START..WALK_FORWARD_END - 1]"
      unfolding cover[symmetric] using w by auto
    then have "{ws_row_start w..ws_row_end w - 1} \<subseteq> {WALK_FORWARD_START..WALK_FORWARD_END - 1}"
      by (simp add: window_rows_def)
    then show ?thesis using size b by auto
  qed
  moreover have "0 \<le> WALK_FORWARD_START" "WALK_FORWARD_END \<le> FINAL_HOLDOUT_START" by (simp_all add: split_defs)
  moreover have "walk_forward_windows (IntBound n) = Inr ?ws"
    using assms by (simp add: walk_forward_windows_def Let_def)
  ultimately show ?thesis
    using assms cover by (intro exI[of _ ?ws]) (fastforce simp: window_specs_length validate_range_ok)
qed

theorem windows_partition_walk_forward_witness:
  "\<exists>ws. walk_forward_windows (IntBound 3) = Inr ws \<and> length ws = 3"
proof -
  have "(3::int) \<le> WALK_FORWARD_END - WALK_FORWARD_START" by (simp add: split_defs)
  then show ?thesis using windows_partition_walk_forward[of 3] by auto
qed

subsection \<open>The day guard\<close>

lemma development_days: "classify_ingest_day (Day d) = Inr DEVELOPMENT \<longleftrightarrow> DEVELOPMENT_FIRST_DAY \<le> d \<and> d \<le> DEVELOPMENT_LAST_DAY"
  by (auto simp: classify_ingest_day_def)

lemma day_order:
  "DEVELOPMENT_FIRST_DAY < DEVELOPMENT_LAST_DAY" "DEVELOPMENT_LAST_DAY < WALK_FORWARD_FIRST_DAY"
  "WALK_FORWARD_FIRST_DAY < FINAL_HOLDOUT_FIRST_DAY" "FINAL_HOLDOUT_FIRST_DAY < FINAL_HOLDOUT_LAST_DAY"
  "FINAL_HOLDOUT_LAST_DAY < FUTURE_COLLECTION_FIRST_DAY"
  by (simp_all add: day_defs less_eq_date_def less_date_def)

lemma future_days: "classify_ingest_day (Day d) = Inr FUTURE_COLLECTION \<longleftrightarrow> FUTURE_COLLECTION_FIRST_DAY \<le> d"
proof
  assume "FUTURE_COLLECTION_FIRST_DAY \<le> d"
  moreover from this have "DEVELOPMENT_LAST_DAY < d" "FINAL_HOLDOUT_FIRST_DAY < d" "FINAL_HOLDOUT_LAST_DAY < d"
    using day_order by (meson less_le_trans less_trans)+
  ultimately show "classify_ingest_day (Day d) = Inr FUTURE_COLLECTION"
    by (auto simp: classify_ingest_day_def)
qed (auto simp: classify_ingest_day_def split: if_splits)

lemma ingest_allowed_iff:
  "ensure_ingest_allowed day scope = Inr cl \<longleftrightarrow>
     (\<exists>sc. scope = Scope sc \<and> classify_ingest_day day = Inr cl \<and>
        (cl = DEVELOPMENT \<or> cl = FUTURE_COLLECTION \<and> sc = DEVELOPMENT_AND_FUTURE_COLLECTION))"
  by (cases day; cases scope) (auto simp: ensure_ingest_allowed_def classify_ingest_day_def)

text \<open>Under no scope is a day between the first walk-forward day and the last holdout day
  ever ingested; by default exactly the development days are; an explicit scope adds the days
  after the holdout and nothing else; a value that is not a day or not a scope is refused.\<close>

theorem embargoed_days_are_never_ingested:
  "(\<forall>d scope. WALK_FORWARD_FIRST_DAY \<le> d \<and> d \<le> FINAL_HOLDOUT_LAST_DAY \<longrightarrow>
      \<not> (\<exists>cl. ensure_ingest_allowed (Day d) scope = Inr cl)) \<and>
   ((\<exists>cl. ensure_ingest_allowed day scope = Inr cl) \<longleftrightarrow>
     (\<exists>d sc. day = Day d \<and> scope = Scope sc \<and>
        (DEVELOPMENT_FIRST_DAY \<le> d \<and> d \<le> DEVELOPMENT_LAST_DAY \<or>
         sc = DEVELOPMENT_AND_FUTURE_COLLECTION \<and> FUTURE_COLLECTION_FIRST_DAY \<le> d)))"
proof (intro conjI allI impI)
  fix d scope assume "WALK_FORWARD_FIRST_DAY \<le> d \<and> d \<le> FINAL_HOLDOUT_LAST_DAY"
  then have "\<not> d \<le> DEVELOPMENT_LAST_DAY" "\<not> FUTURE_COLLECTION_FIRST_DAY \<le> d"
    using day_order by (meson leD less_le_trans le_less_trans)+
  then show "\<not> (\<exists>cl. ensure_ingest_allowed (Day d) scope = Inr cl)"
    by (auto simp: ingest_allowed_iff development_days future_days)
next
  have "day = NotADay \<Longrightarrow> classify_ingest_day day \<noteq> Inr cl" for cl by (simp add: classify_ingest_day_def)
  then show "(\<exists>cl. ensure_ingest_allowed day scope = Inr cl) \<longleftrightarrow>
     (\<exists>d sc. day = Day d \<and> scope = Scope sc \<and>
        (DEVELOPMENT_FIRST_DAY \<le> d \<and> d \<le> DEVELOPMENT_LAST_DAY \<or>
         sc = DEVELOPMENT_AND_FUTURE_COLLECTION \<and> FUTURE_COLLECTION_FIRST_DAY \<le> d))"
    using development_days future_days by (cases day) (simp_all add: ingest_allowed_iff, blast)
qed

theorem embargoed_days_are_never_ingested_witness:
  "\<not> (\<exists>cl. ensure_ingest_allowed (Day (Date 2026 1 1)) (Scope DEVELOPMENT_AND_FUTURE_COLLECTION) = Inr cl)"
proof -
  have "WALK_FORWARD_FIRST_DAY \<le> Date 2026 1 1 \<and> Date 2026 1 1 \<le> FINAL_HOLDOUT_LAST_DAY"
    by (simp add: day_defs less_eq_date_def)
  then show ?thesis using embargoed_days_are_never_ingested[of "Day (Date 2026 1 1)"] by blast
qed

end
