(* ===== verification/Canonical.thy ===== *)
theory Canonical
  imports PyText
begin

text \<open>
  The canonical form of experiment inputs (\<open>lab/experiment_spec.py\<close>): what a value may hold,
  its normal form, the text \<open>json.dumps\<close> gives with sorted keys, and freezing.  A float is seen
  only through \<open>math.isfinite\<close> and \<open>repr\<close>, so its type is a parameter and \<open>repr\<close> an argument;
  texts are over the first 256 code points.  A mapping keeps its insertion order.
  Python refuses to write an int of more than 4300 digits; the text of an int has no such limit
  here, so the statements about texts are about values without such ints.
\<close>

section \<open>Values\<close>

datatype enum_base = PlainEnum | StrEnum string | IntEnum int
  \<comment> \<open>the other class a member belongs to\<close>

datatype 'f py_value =
    PNone
  | PBool bool
  | PInt int
  | PFloat 'f
  | PStr string
  | PList "'f py_value list"
  | PTuple "'f py_value list"
  | PDict "('f py_value \<times> 'f py_value) list"
  | PProxy "('f py_value \<times> 'f py_value) list"
    \<comment> \<open>a \<open>MappingProxyType\<close>\<close>
  | PEnum enum_base
  | PDatetime
  | PDecimal
  | PPath
  | PBytes
  | PSet
  | POther

datatype 'f json =
    JNull
  | JBool bool
  | JInt int
  | JFloat 'f
  | JStr string
  | JList "'f json list"
  | JDict "(string \<times> 'f json) list"
    \<comment> \<open>what \<open>_normalize\<close> returns: plain dicts with text keys, and lists\<close>

fun str_key :: "'f py_value \<Rightarrow> string result" where
  "str_key (PStr s) = Inr s"
| "str_key _ = Inl (TypeError ''non-string mapping key not canonical'')"

fun normalize :: "('f \<Rightarrow> bool) \<Rightarrow> 'f py_value \<Rightarrow> 'f json result" where
  "normalize fin (PEnum _) = Inl (TypeError ''Enum values must use .value explicitly'')"
| "normalize fin PNone = Inr JNull"
| "normalize fin (PStr s) = Inr (JStr s)"
| "normalize fin (PBool b) = Inr (JBool b)"
| "normalize fin (PInt i) = Inr (JInt i)"
| "normalize fin PDatetime = Inl (TypeError ''datetime must be ISO-8601 str at the boundary'')"
| "normalize fin PDecimal = Inl (TypeError ''Decimal must be converted explicitly'')"
| "normalize fin PPath = Inl (TypeError ''Path must be str at the boundary'')"
| "normalize fin PBytes = Inl (TypeError ''bytes must be encoded explicitly (e.g. hex)'')"
| "normalize fin (PFloat x) = (if fin x then Inr (JFloat x) else Inl (ValueError ''non-finite float not canonical''))"
| "normalize fin (PList xs) = bindE (mapE (normalize fin) xs) (\<lambda>js. Inr (JList js))"
| "normalize fin (PTuple xs) = bindE (mapE (normalize fin) xs) (\<lambda>js. Inr (JList js))"
| "normalize fin PSet = Inl (TypeError ''unordered set not canonical'')"
| "normalize fin (PDict kvs) =
     bindE (mapE (\<lambda>(k, v). bindE (str_key k) (\<lambda>s. bindE (normalize fin v) (\<lambda>j. Inr (s, j)))) kvs) (\<lambda>js. Inr (JDict js))"
| "normalize fin (PProxy kvs) =
     bindE (mapE (\<lambda>(k, v). bindE (str_key k) (\<lambda>s. bindE (normalize fin v) (\<lambda>j. Inr (s, j)))) kvs) (\<lambda>js. Inr (JDict js))"
| "normalize fin POther = Inl (TypeError ''unsupported canonical type'')"

section \<open>The text\<close>

definition hex_digit :: "nat \<Rightarrow> char" where
  "hex_digit n = ''0123456789abcdef'' ! n"

definition escape_char :: "char \<Rightarrow> string" where
  \<comment> \<open>\<open>ensure_ascii\<close>\<close>
  "escape_char c =
     (let n = of_char c :: nat in
      if n = 34 then [CHR 0x5C, CHR 0x22]
      else if n = 92 then [CHR 0x5C, CHR 0x5C]
      else if n = 10 then [CHR 0x5C, CHR ''n'']
      else if n = 13 then [CHR 0x5C, CHR ''r'']
      else if n = 9 then [CHR 0x5C, CHR ''t'']
      else if n = 12 then [CHR 0x5C, CHR ''f'']
      else if n = 8 then [CHR 0x5C, CHR ''b'']
      else if 32 \<le> n \<and> n < 127 then [c]
      else [CHR 0x5C, CHR ''u'', CHR ''0'', CHR ''0'', hex_digit (n div 16), hex_digit (n mod 16)])"

definition quote :: "string \<Rightarrow> string" where
  "quote s = [CHR 0x22] @ concat (map escape_char s) @ [CHR 0x22]"

fun dumps :: "('f \<Rightarrow> string) \<Rightarrow> 'f json \<Rightarrow> string" where
  "dumps frepr JNull = ''null''"
| "dumps frepr (JBool b) = (if b then ''true'' else ''false'')"
| "dumps frepr (JInt i) = int_text i"
| "dumps frepr (JFloat x) = frepr x"
| "dumps frepr (JStr s) = quote s"
| "dumps frepr (JList js) = ''['' @ join '','' (map (dumps frepr) js) @ '']''"
| "dumps frepr (JDict kvs) =
     ''{'' @ join '','' (map (\<lambda>(k, t). quote k @ '':'' @ t) (sort_key fst (map (\<lambda>(k, j). (k, dumps frepr j)) kvs))) @ ''}''"

definition canonical_json :: "('f \<Rightarrow> bool) \<Rightarrow> ('f \<Rightarrow> string) \<Rightarrow> 'f py_value \<Rightarrow> string result" where
  \<comment> \<open>the UTF-8 bytes of an ASCII text are the text\<close>
  "canonical_json fin frepr v = bindE (normalize fin v) (\<lambda>j. Inr (dumps frepr j))"

definition canonical_hash :: "(string \<Rightarrow> string) \<Rightarrow> ('f \<Rightarrow> bool) \<Rightarrow> ('f \<Rightarrow> string) \<Rightarrow> 'f py_value \<Rightarrow> string result" where
  \<comment> \<open>\<open>sha256_hex(canonical_bytes(value))\<close>\<close>
  "canonical_hash sha256 fin frepr v = bindE (canonical_json fin frepr v) (\<lambda>s. Inr (sha256 s))"

section \<open>Freezing\<close>

fun of_json :: "'f json \<Rightarrow> 'f py_value" where
  \<comment> \<open>the Python value a normal form is\<close>
  "of_json JNull = PNone"
| "of_json (JBool b) = PBool b"
| "of_json (JInt i) = PInt i"
| "of_json (JFloat x) = PFloat x"
| "of_json (JStr s) = PStr s"
| "of_json (JList js) = PList (map of_json js)"
| "of_json (JDict kvs) = PDict (map (\<lambda>(k, j). (PStr k, of_json j)) kvs)"

fun freeze :: "'f py_value \<Rightarrow> 'f py_value" where
  "freeze (PDict kvs) = PProxy (map (\<lambda>(k, v). (k, freeze v)) kvs)"
| "freeze (PProxy kvs) = PProxy (map (\<lambda>(k, v). (k, freeze v)) kvs)"
| "freeze (PList xs) = PTuple (map freeze xs)"
| "freeze v = v"

fun is_mapping :: "'f py_value \<Rightarrow> bool" where
  "is_mapping (PDict _) = True"
| "is_mapping (PProxy _) = True"
| "is_mapping _ = False"

definition section_of :: "('f \<Rightarrow> bool) \<Rightarrow> 'f py_value \<Rightarrow> 'f py_value result" where
  "section_of fin v =
     (if \<not> is_mapping v then Inl (TypeError ''must be a mapping'')
      else bindE (normalize fin v) (\<lambda>j. Inr (freeze (of_json j))))"

section \<open>Which values are accepted\<close>

fun canonical_type :: "('f \<Rightarrow> bool) \<Rightarrow> 'f py_value \<Rightarrow> bool" where
  \<comment> \<open>the documented contract: None, bool, int, finite float, str, list, tuple, mapping with text keys\<close>
  "canonical_type fin (PFloat x) = fin x"
| "canonical_type fin (PList xs) = list_all (canonical_type fin) xs"
| "canonical_type fin (PTuple xs) = list_all (canonical_type fin) xs"
| "canonical_type fin (PDict kvs) = list_all (\<lambda>(k, v). (\<exists>s. k = PStr s) \<and> canonical_type fin v) kvs"
| "canonical_type fin (PProxy kvs) = list_all (\<lambda>(k, v). (\<exists>s. k = PStr s) \<and> canonical_type fin v) kvs"
| "canonical_type fin v = (case v of PNone \<Rightarrow> True | PBool _ \<Rightarrow> True | PInt _ \<Rightarrow> True | PStr _ \<Rightarrow> True | _ \<Rightarrow> False)"

lemma mapE_accepts: "(\<exists>ys. mapE f xs = Inr ys) \<longleftrightarrow> list_all (\<lambda>x. \<exists>y. f x = Inr y) xs"
  by (induction xs) (auto simp: bindE_eq_Inr)

lemma str_key_Inr [simp]: "str_key k = Inr s \<longleftrightarrow> k = PStr s"
  by (cases k) auto

lemma normalize_accepts: "(\<exists>j. normalize fin v = Inr j) \<longleftrightarrow> canonical_type fin v"
proof (induction v)
  case (PDict kvs)
  then show ?case
    using mapE_accepts[of "\<lambda>(k, v). bindE (str_key k) (\<lambda>s. bindE (normalize fin v) (\<lambda>j. Inr (s, j)))" kvs]
    by (fastforce simp: bindE_eq_Inr list_all_iff)
next
  case (PProxy kvs)
  then show ?case
    using mapE_accepts[of "\<lambda>(k, v). bindE (str_key k) (\<lambda>s. bindE (normalize fin v) (\<lambda>j. Inr (s, j)))" kvs]
    by (fastforce simp: bindE_eq_Inr list_all_iff)
next
  case (PList xs)
  then show ?case using mapE_accepts[of "normalize fin" xs] by (auto simp: bindE_eq_Inr list_all_iff)
next
  case (PTuple xs)
  then show ?case using mapE_accepts[of "normalize fin" xs] by (auto simp: bindE_eq_Inr list_all_iff)
qed auto

lemma mapE_freeze: "list_all (\<lambda>x. f (g x) = f x) xs \<Longrightarrow> mapE f (map g xs) = mapE f xs"
  by (induction xs) auto

lemma normalize_freeze: "normalize fin (freeze v) = normalize fin v"
proof (induction v)
  case (PDict kvs)
  let ?f = "\<lambda>(k, v). bindE (str_key k) (\<lambda>s. bindE (normalize fin v) (\<lambda>j. Inr (s, j)))"
  have "mapE ?f (map (\<lambda>(k, v). (k, freeze v)) kvs) = mapE ?f kvs"
    using PDict by (intro mapE_freeze) (fastforce simp: list_all_iff)
  then show ?case by simp
next
  case (PProxy kvs)
  let ?f = "\<lambda>(k, v). bindE (str_key k) (\<lambda>s. bindE (normalize fin v) (\<lambda>j. Inr (s, j)))"
  have "mapE ?f (map (\<lambda>(k, v). (k, freeze v)) kvs) = mapE ?f kvs"
    using PProxy by (intro mapE_freeze) (fastforce simp: list_all_iff)
  then show ?case by simp
next
  case (PList xs)
  then have "mapE (normalize fin) (map freeze xs) = mapE (normalize fin) xs"
    by (intro mapE_freeze) (simp add: list_all_iff)
  then show ?case by simp
qed auto

lemma mapE_section: "list_all (\<lambda>x. f (g x) = Inr x) xs \<Longrightarrow> mapE f (map g xs) = Inr xs"
  by (induction xs) auto

lemma normalize_of_json: "\<forall>x \<in> set_json j. fin x \<Longrightarrow> normalize fin (of_json j) = Inr j"
proof (induction j)
  case (JList js)
  then show ?case by (auto simp: list_all_iff mapE_section)
next
  case (JDict kvs)
  then have "mapE (\<lambda>(k, v). bindE (str_key k) (\<lambda>s. bindE (normalize fin v) (\<lambda>j. Inr (s, j))))
      (map (\<lambda>(k, j). (PStr k, of_json j)) kvs) = Inr kvs"
    by (intro mapE_section) (fastforce simp: list_all_iff)
  then show ?case unfolding of_json.simps normalize.simps by (rule HOL.trans[OF arg_cong]) simp
qed auto

lemma mapE_set: "mapE f xs = Inr ys \<Longrightarrow> y \<in> set ys \<Longrightarrow> \<exists>x \<in> set xs. f x = Inr y"
  by (induction xs arbitrary: ys) (auto simp: bindE_eq_Inr)

lemma normalize_finite: "normalize fin v = Inr j \<Longrightarrow> x \<in> set_json j \<Longrightarrow> fin x"
proof (induction v arbitrary: j)
  case (PList xs)
  then show ?case by (fastforce simp: bindE_eq_Inr dest: mapE_set)
next
  case (PTuple xs)
  then show ?case by (fastforce simp: bindE_eq_Inr dest: mapE_set)
next
  case (PDict kvs)
  then show ?case by (fastforce simp: bindE_eq_Inr dest: mapE_set)
next
  case (PProxy kvs)
  then show ?case by (fastforce simp: bindE_eq_Inr dest: mapE_set)
qed (auto split: if_splits)

text \<open>Deep immutability: nothing of a section can be assigned to.\<close>

fun immutable :: "'f py_value \<Rightarrow> bool" where
  "immutable (PDict _) = False"
| "immutable (PList _) = False"
| "immutable (PTuple xs) = list_all immutable xs"
| "immutable (PProxy kvs) = list_all (\<lambda>(k, v). immutable v) kvs"
| "immutable v = True"

lemma freeze_immutable: "immutable (freeze (of_json j))"
  by (induction j) (fastforce simp: list_all_iff)+

section \<open>The text determines the value\<close>

fun canon :: "'f json \<Rightarrow> 'f json" where
  \<comment> \<open>the same value with its keys in order\<close>
  "canon (JList js) = JList (map canon js)"
| "canon (JDict kvs) = JDict (sort_key fst (map (\<lambda>(k, j). (k, canon j)) kvs))"
| "canon j = j"

definition repr_ok :: "('f \<Rightarrow> bool) \<Rightarrow> ('f \<Rightarrow> string) \<Rightarrow> bool" where
  \<comment> \<open>what \<open>repr\<close> of a finite float promises: different texts for different floats, over the
     characters of a number, with a point or an exponent\<close>
  "repr_ok fin frepr \<longleftrightarrow> inj_on frepr (Collect fin) \<and>
     (\<forall>x. fin x \<longrightarrow> set (frepr x) \<subseteq> set ''0123456789.e+-'' \<and> (CHR ''.'' \<in> set (frepr x) \<or> CHR ''e'' \<in> set (frepr x)))"

subsection \<open>Texts of strings\<close>

fun hex_value :: "char \<Rightarrow> nat" where
  "hex_value c = (let n = of_char c :: nat in if n < 58 then n - 48 else n - 87)"

fun unescape :: "string \<Rightarrow> (char \<times> string) option" where
  \<comment> \<open>the first character of an escaped text and what follows it\<close>
  "unescape [] = None"
| "unescape (c # s) =
     (if c \<noteq> CHR 0x5C then Some (c, s)
      else case s of
        [] \<Rightarrow> None
      | d # s' \<Rightarrow>
          if d = CHR ''n'' then Some (CHR 0x0A, s') else if d = CHR ''r'' then Some (CHR 0x0D, s')
          else if d = CHR ''t'' then Some (CHR 0x09, s') else if d = CHR ''f'' then Some (CHR 0x0C, s')
          else if d = CHR ''b'' then Some (CHR 0x08, s')
          else if d = CHR ''u'' then
            (case s' of _ # _ # a # b # s'' \<Rightarrow> Some (char_of (16 * hex_value a + hex_value b), s'') | _ \<Rightarrow> None)
          else Some (d, s'))"

lemma unescape_prefix: "unescape p = Some (c, q) \<Longrightarrow> unescape (p @ x) = Some (c, q @ x)"
  by (cases p) (auto split: list.splits if_splits)

lemma char_codes:
  "of_char c = (34 :: nat) \<longleftrightarrow> c = CHR 0x22" "of_char c = (92 :: nat) \<longleftrightarrow> c = CHR 0x5C"
  "of_char c = (10 :: nat) \<longleftrightarrow> c = CHR 0x0A" "of_char c = (13 :: nat) \<longleftrightarrow> c = CHR 0x0D"
  "of_char c = (9 :: nat) \<longleftrightarrow> c = CHR 0x09" "of_char c = (12 :: nat) \<longleftrightarrow> c = CHR 0x0C"
  "of_char c = (8 :: nat) \<longleftrightarrow> c = CHR 0x08"
  using of_char_eq_iff[of c "CHR 0x22", where 'a = nat] of_char_eq_iff[of c "CHR 0x5C", where 'a = nat]
    of_char_eq_iff[of c "CHR 0x0A", where 'a = nat] of_char_eq_iff[of c "CHR 0x0D", where 'a = nat]
    of_char_eq_iff[of c "CHR 0x09", where 'a = nat] of_char_eq_iff[of c "CHR 0x0C", where 'a = nat]
    of_char_eq_iff[of c "CHR 0x08", where 'a = nat]
  by simp_all

lemma hex_table: "list_all (\<lambda>k :: nat. hex_value (hex_digit k) = k) [0..<16]"
  by code_simp

lemma hex_value_digit: "k < 16 \<Longrightarrow> hex_value (hex_digit k) = k"
  using hex_table by (simp add: list_all_iff del: hex_value.simps)

lemma escape_facts:
  "unescape (escape_char c) = Some (c, [])" "escape_char c \<noteq> []" "hd (escape_char c) \<noteq> CHR 0x22"
proof -
  have "of_char c < (256 :: nat)" by simp
  then have "(of_char c :: nat) div 16 < 16" by linarith
  moreover have "(of_char c :: nat) mod 16 < 16" by simp
  ultimately have "char_of (16 * hex_value (hex_digit (of_char c div 16)) + hex_value (hex_digit (of_char c mod 16))) = c"
    by (simp only: hex_value_digit mult_div_mod_eq char_of_char)
  then show "unescape (escape_char c) = Some (c, [])"
    by (auto simp: escape_char_def Let_def char_codes simp del: hex_value.simps)
  show "escape_char c \<noteq> []" by (simp add: escape_char_def Let_def)
  show "hd (escape_char c) \<noteq> CHR 0x22" by (auto simp: escape_char_def Let_def char_codes)
qed

lemma escape_inject:
  assumes "escape_char c @ x = escape_char d @ y"
  shows "c = d \<and> x = y"
proof -
  have "Some (c, [] @ x) = Some (d, [] @ y)"
    using unescape_prefix[OF escape_facts(1), of c x] unescape_prefix[OF escape_facts(1), of d y]
    unfolding assms by (rule HOL.trans[OF sym])
  then show ?thesis by simp
qed

lemma escaped_unique:
  "concat (map escape_char s) @ CHR 0x22 # r = concat (map escape_char t) @ CHR 0x22 # r' \<Longrightarrow> s = t \<and> r = r'"
proof (induction s arbitrary: t)
  case Nil
  then show ?case
  proof (cases t)
    case (Cons d t')
    then show ?thesis using Nil.prems escape_facts(2,3)[of d] by (cases "escape_char d") auto
  qed simp
next
  case (Cons c s)
  then show ?case
  proof (cases t)
    case Nil
    then show ?thesis using Cons.prems escape_facts(2,3)[of c] by (cases "escape_char c") auto
  next
    case (Cons d t')
    then show ?thesis using Cons.prems Cons.IH[of t'] escape_inject[of c _ d] by auto
  qed
qed

lemma quote_unique: "quote s @ r = quote t @ r' \<Longrightarrow> s = t \<and> r = r'"
  using escaped_unique[of s r t r'] by (simp add: quote_def)

subsection \<open>Texts of values\<close>

definition delims :: "char set" where
  "delims = {CHR '','', CHR '']'', CHR ''}''}"

lemma sort_key_map: "sort_key f (map g xs) = map g (sort_key (\<lambda>x. f (g x)) xs)"
proof -
  have ins: "insort_key f (g x) (map g ys) = map g (insort_key (\<lambda>x. f (g x)) x ys)" for x ys
    by (induction ys) auto
  show ?thesis by (induction xs) (auto simp: ins)
qed

definition entry_text :: "('f \<Rightarrow> string) \<Rightarrow> string \<times> 'f json \<Rightarrow> string" where
  "entry_text frepr = (\<lambda>(k, j). quote k @ '':'' @ dumps frepr j)"

definition canon_entry :: "string \<times> 'f json \<Rightarrow> string \<times> 'f json" where
  "canon_entry = (\<lambda>(k, j). (k, canon j))"

lemma dumps_dict: "dumps frepr (JDict kvs) = ''{'' @ join '','' (map (entry_text frepr) (sort_key fst kvs)) @ ''}''"
  by (simp add: sort_key_map entry_text_def case_prod_unfold comp_def)

lemma canon_dict: "canon (JDict kvs) = JDict (map canon_entry (sort_key fst kvs))"
  by (simp add: sort_key_map canon_entry_def case_prod_unfold)

fun tail_text :: "('a \<Rightarrow> string) \<Rightarrow> 'a list \<Rightarrow> string" where
  "tail_text t [] = []"
| "tail_text t (x # xs) = CHR '','' # t x @ tail_text t xs"

lemma join_tail: "join '','' (map t (x # xs)) = t x @ tail_text t xs"
  by (induction xs arbitrary: x) auto

definition reads_back :: "('a \<Rightarrow> string) \<Rightarrow> ('a \<Rightarrow> 'b) \<Rightarrow> 'a set \<Rightarrow> 'a \<Rightarrow> bool" where
  \<comment> \<open>the text of \<open>x\<close> before a delimiter determines \<open>c x\<close> among the values of \<open>Y\<close>\<close>
  "reads_back t c Y x \<longleftrightarrow> (\<forall>y \<in> Y. \<forall>r r'. t x @ r = t y @ r' \<longrightarrow> ends_token delims r \<longrightarrow> ends_token delims r' \<longrightarrow>
     c x = c y \<and> r = r')"

lemma tail_ends: "cl \<in> delims \<Longrightarrow> ends_token delims (tail_text t xs @ cl # r)"
  by (cases xs) (auto simp: ends_token_def delims_def)

lemma reads_backD:
  "reads_back t c Y x \<Longrightarrow> y \<in> Y \<Longrightarrow> t x @ r = t y @ r' \<Longrightarrow> ends_token delims r \<Longrightarrow> ends_token delims r' \<Longrightarrow>
   c x = c y \<and> r = r'"
  unfolding reads_back_def by blast

lemma reads_back_mono: "reads_back t c Y x \<Longrightarrow> Z \<subseteq> Y \<Longrightarrow> reads_back t c Z x"
  unfolding reads_back_def by blast

lemma tail_unique:
  assumes "\<And>x. x \<in> set xs \<Longrightarrow> reads_back t c Y x" "set ys \<subseteq> Y" "cl \<in> delims" "cl \<noteq> CHR '',''"
    and "tail_text t xs @ cl # r = tail_text t ys @ cl # r'"
  shows "map c xs = map c ys \<and> r = r'"
  using assms(1,2,5)
proof (induction xs arbitrary: ys)
  case Nil
  then show ?case using assms(4) by (cases ys) simp_all
next
  case (Cons x xs)
  show ?case
  proof (cases ys)
    case Nil
    then show ?thesis using Cons.prems(3) assms(4) by simp
  next
    case y: (Cons y ys')
    have e: "t x @ (tail_text t xs @ cl # r) = t y @ (tail_text t ys' @ cl # r')" using Cons.prems(3) y by simp
    have xy: "c x = c y \<and> tail_text t xs @ cl # r = tail_text t ys' @ cl # r'"
      using Cons.prems(2) y tail_ends[OF assms(3)] by (intro reads_backD[OF Cons.prems(1) _ e]) auto
    then have "map c xs = map c ys' \<and> r = r'"
      using Cons.prems(1,2) y by (intro Cons.IH) auto
    then show ?thesis using y xy by simp
  qed
qed

lemma join_starts:
  assumes "t x \<noteq> []" "hd (t x) \<notin> delims" "cl \<in> delims"
  shows "join '','' (map t (x # xs)) @ q \<noteq> cl # q'"
  unfolding join_tail using assms by (cases "t x") auto

lemma sequence_unique:
  assumes rb: "\<And>x. x \<in> set xs \<Longrightarrow> reads_back t c (set ys) x" and cl: "cl \<in> delims" "cl \<noteq> CHR '',''"
    and hd: "\<And>x. x \<in> set xs \<union> set ys \<Longrightarrow> t x \<noteq> [] \<and> hd (t x) \<notin> delims"
    and e: "join '','' (map t xs) @ cl # r = join '','' (map t ys) @ cl # r'"
  shows "map c xs = map c ys \<and> r = r'"
proof (cases xs)
  case Nil
  show ?thesis
  proof (cases ys)
    case (Cons y ys')
    then show ?thesis using e Nil join_starts[of t y cl ys' "cl # r'" r] hd cl by simp
  qed (use Nil e in simp)
next
  case x: (Cons x xs')
  show ?thesis
  proof (cases ys)
    case Nil
    then show ?thesis using e x join_starts[of t x cl xs' "cl # r" r'] hd cl by simp
  next
    case y: (Cons y ys')
    have e': "t x @ (tail_text t xs' @ cl # r) = t y @ (tail_text t ys' @ cl # r')"
      using e unfolding x y join_tail by simp
    have xy: "c x = c y \<and> tail_text t xs' @ cl # r = tail_text t ys' @ cl # r'"
      using x y tail_ends[OF cl(1)] by (intro reads_backD[OF rb _ e']) auto
    moreover have "map c xs' = map c ys' \<and> r = r'"
      using rb x y xy by (intro tail_unique[of xs' t c "set ys" ys' cl r r'] cl) auto
    ultimately show ?thesis using x y by simp
  qed
qed

fun is_atom :: "'f json \<Rightarrow> bool" where
  "is_atom (JStr _) = False"
| "is_atom (JList _) = False"
| "is_atom (JDict _) = False"
| "is_atom _ = True"

definition opens :: "char set" where
  "opens = {CHR 0x22, CHR ''['', CHR ''{''}"

definition atom_chars :: "char set" where
  "atom_chars = set ''0123456789.e+-nulltrfas''"

lemma char_sets: "atom_chars \<inter> (delims \<union> opens) = {}" "delims \<inter> opens = {}"
  by (auto simp: atom_chars_def delims_def opens_def)

lemma repr_chars: "repr_ok fin frepr \<Longrightarrow> fin x \<Longrightarrow> set (frepr x) \<subseteq> set ''0123456789.e+-''"
  by (simp add: repr_ok_def)

lemma repr_point: "repr_ok fin frepr \<Longrightarrow> fin x \<Longrightarrow> CHR ''.'' \<in> set (frepr x) \<or> CHR ''e'' \<in> set (frepr x)"
  by (simp add: repr_ok_def)

lemma number_chars: "set ''0123456789.e+-'' \<subseteq> atom_chars" "insert (CHR ''-'') (set digits) \<subseteq> atom_chars"
  by (simp_all add: atom_chars_def digits_def)

lemma word_chars: "set ''null'' \<subseteq> atom_chars" "set ''true'' \<subseteq> atom_chars" "set ''false'' \<subseteq> atom_chars"
  by (simp_all add: atom_chars_def)

lemma atom_text:
  assumes "repr_ok fin frepr" "\<forall>x \<in> set_json j. fin x" "is_atom j"
  shows "set (dumps frepr j) \<subseteq> atom_chars \<and> dumps frepr j \<noteq> []"
proof (cases j)
  case (JFloat x)
  then have "fin x" using assms(2) by simp
  then have "set (frepr x) \<subseteq> atom_chars" "set (frepr x) \<noteq> {}"
    using repr_chars[OF assms(1)] repr_point[OF assms(1)] number_chars(1) by (blast, metis empty_iff)
  then show ?thesis using JFloat by simp
next
  case (JInt i)
  then show ?thesis using int_text_chars[of i] number_chars(2) int_text_nonempty[of i] by (simp only: dumps.simps) blast
next
  case (JBool b)
  then show ?thesis using word_chars by simp
next
  case JNull
  then show ?thesis using word_chars by simp
qed (use assms(3) in simp_all)

lemma int_text_plain: "CHR ''.'' \<notin> set (int_text i)" "CHR ''e'' \<notin> set (int_text i)" "CHR ''l'' \<notin> set (int_text i)"
  using int_text_chars[of i] by (auto simp: digits_def)

lemma repr_not_word:
  assumes "repr_ok fin frepr" "fin x"
  shows "frepr x \<noteq> ''null''" "frepr x \<noteq> ''true''" "frepr x \<noteq> ''false''" "frepr x \<noteq> int_text i"
  using repr_chars[OF assms] repr_point[OF assms] int_text_plain[of i] by auto

lemma int_not_word: "int_text i \<noteq> ''null''" "int_text i \<noteq> ''true''" "int_text i \<noteq> ''false''"
  using int_text_plain[of i] by auto

lemma atom_inject:
  assumes ok: "repr_ok fin frepr" and fin: "\<forall>x \<in> set_json j. fin x" "\<forall>x \<in> set_json k. fin x"
    and "is_atom j" "is_atom k" and e: "dumps frepr j = dumps frepr k"
  shows "j = k"
proof -
  note f = repr_not_word[OF ok] not_sym[OF repr_not_word(1)[OF ok]] not_sym[OF repr_not_word(2)[OF ok]]
    not_sym[OF repr_not_word(3)[OF ok]] not_sym[OF repr_not_word(4)[OF ok]]
  note i = int_not_word int_not_word[THEN not_sym]
  have ff: "frepr x = frepr y \<longleftrightarrow> x = y" if "fin x" "fin y" for x y
    using ok that by (auto simp: repr_ok_def inj_on_def)
  show ?thesis
    using assms(2-6) by (cases j; cases k) (simp_all add: f i ff split: if_splits)
qed

lemma head_of_dumps:
  "hd (dumps frepr (JStr s)) = CHR 0x22" "hd (dumps frepr (JList js)) = CHR ''[''" "hd (dumps frepr (JDict kvs)) = CHR ''{''"
  "dumps frepr (JStr s) \<noteq> []" "dumps frepr (JList js) \<noteq> []" "dumps frepr (JDict kvs) \<noteq> []"
  by (simp_all add: quote_def)

lemma dumps_start:
  assumes "repr_ok fin frepr" "\<forall>x \<in> set_json j. fin x"
  shows "dumps frepr j \<noteq> []" "hd (dumps frepr j) \<notin> delims" "is_atom j \<longleftrightarrow> hd (dumps frepr j) \<notin> opens"
proof -
  have a: "dumps frepr j \<noteq> [] \<and> hd (dumps frepr j) \<in> atom_chars" if "is_atom j"
    using atom_text[OF assms that] hd_in_set by blast
  have "dumps frepr j \<noteq> [] \<and> (is_atom j \<or> hd (dumps frepr j) \<in> opens)"
    using a head_of_dumps[of frepr] by (cases j) (auto simp: opens_def simp del: dumps.simps)
  then show "dumps frepr j \<noteq> []" "hd (dumps frepr j) \<notin> delims" "is_atom j \<longleftrightarrow> hd (dumps frepr j) \<notin> opens"
    using a char_sets by auto
qed

lemma atom_reads_back:
  assumes ok: "repr_ok fin frepr" and fin: "\<forall>x \<in> set_json j. fin x" "\<forall>x \<in> set_json k. fin x" and atom: "is_atom j"
    and e: "dumps frepr j @ r = dumps frepr k @ r'" and ends: "ends_token delims r" "ends_token delims r'"
  shows "canon j = canon k \<and> r = r'"
proof -
  have "hd (dumps frepr k) = hd (dumps frepr j)"
    using arg_cong[OF e, of hd] dumps_start(1)[OF ok fin(1)] dumps_start(1)[OF ok fin(2)] by simp
  then have k: "is_atom k" using atom dumps_start(3)[OF ok fin(1)] dumps_start(3)[OF ok fin(2)] by simp
  have "set (dumps frepr j) \<inter> delims = {}" "set (dumps frepr k) \<inter> delims = {}"
    using atom_text[OF ok fin(1) atom] atom_text[OF ok fin(2) k] char_sets by blast+
  from token_unique[OF e this ends] have "dumps frepr j = dumps frepr k \<and> r = r'" .
  then show ?thesis using atom_inject[OF ok fin atom k] by simp
qed

lemma atom_reads:
  assumes "repr_ok fin frepr" "is_atom j" "\<forall>x \<in> set_json j. fin x"
  shows "reads_back (dumps frepr) canon {k. \<forall>x \<in> set_json k. fin x} j"
  unfolding reads_back_def using atom_reads_back[OF assms(1,3) _ assms(2)] by blast

lemma same_head:
  assumes ok: "repr_ok fin frepr" and fin: "\<forall>x \<in> set_json j. fin x" "\<forall>x \<in> set_json k. fin x"
    and e: "dumps frepr j @ r = dumps frepr k @ r'"
  shows "hd (dumps frepr j) = hd (dumps frepr k)"
  using arg_cong[OF e, of hd] dumps_start(1)[OF ok fin(1)] dumps_start(1)[OF ok fin(2)] by simp

lemma kind_of_head:
  assumes "repr_ok fin frepr" "\<forall>x \<in> set_json k. fin x"
  shows "hd (dumps frepr k) = CHR 0x22 \<Longrightarrow> \<exists>s. k = JStr s"
    "hd (dumps frepr k) = CHR ''['' \<Longrightarrow> \<exists>js. k = JList js"
    "hd (dumps frepr k) = CHR ''{'' \<Longrightarrow> \<exists>kvs. k = JDict kvs"
  using dumps_start(3)[OF assms] head_of_dumps[of frepr]
  by (cases k; simp add: opens_def del: dumps.simps)+

lemma entry_reads_back:
  assumes "reads_back (dumps frepr) canon (snd ` Y) (snd p)"
  shows "reads_back (entry_text frepr) canon_entry Y p"
  unfolding reads_back_def
proof (intro ballI allI impI)
  fix q r r' assume q: "q \<in> Y" and e: "entry_text frepr p @ r = entry_text frepr q @ r'"
    and ends: "ends_token delims r" "ends_token delims r'"
  have "quote (fst p) @ ('':'' @ dumps frepr (snd p) @ r) = quote (fst q) @ ('':'' @ dumps frepr (snd q) @ r')"
    using e by (simp add: entry_text_def case_prod_unfold)
  from quote_unique[OF this] have k: "fst p = fst q" "dumps frepr (snd p) @ r = dumps frepr (snd q) @ r'" by simp_all
  have "canon (snd p) = canon (snd q) \<and> r = r'"
    using q by (intro reads_backD[OF assms _ k(2) ends]) simp
  then show "canon_entry p = canon_entry q \<and> r = r'" using k(1) by (simp add: canon_entry_def case_prod_unfold)
qed

lemma entry_start: "entry_text frepr p \<noteq> [] \<and> hd (entry_text frepr p) \<notin> delims"
  by (simp add: entry_text_def case_prod_unfold quote_def delims_def)

lemma closers: "CHR '']'' \<in> delims" "CHR ''}'' \<in> delims" "CHR '']'' \<noteq> CHR '',''" "CHR ''}'' \<noteq> CHR '',''"
  by (simp_all add: delims_def)

lemma dumps_reads_back:
  assumes ok: "repr_ok fin frepr"
  shows "\<forall>x \<in> set_json j. fin x \<Longrightarrow> reads_back (dumps frepr) canon {k. \<forall>x \<in> set_json k. fin x} j"
proof (induction j)
  case (JStr s)
  show ?case unfolding reads_back_def
  proof (intro ballI allI impI)
    fix k r r' assume k: "k \<in> {k. \<forall>x \<in> set_json k. fin x}" and e: "dumps frepr (JStr s) @ r = dumps frepr k @ r'"
    then obtain t where t: "k = JStr t"
      using same_head[OF ok JStr _ e] kind_of_head(1)[OF ok] head_of_dumps(1) by (metis mem_Collect_eq)
    then show "canon (JStr s) = canon k \<and> r = r'" using e quote_unique[of s r t r'] by simp
  qed
next
  case (JList js)
  show ?case unfolding reads_back_def
  proof (intro ballI allI impI)
    fix k r r' assume k: "k \<in> {k. \<forall>x \<in> set_json k. fin x}" and e: "dumps frepr (JList js) @ r = dumps frepr k @ r'"
    then obtain ks where ks: "k = JList ks"
      using same_head[OF ok JList.prems _ e] kind_of_head(2)[OF ok] head_of_dumps(2) by (metis mem_Collect_eq)
    have e': "join '','' (map (dumps frepr) js) @ CHR '']'' # r = join '','' (map (dumps frepr) ks) @ CHR '']'' # r'"
      using e ks by simp
    have fin: "\<forall>x \<in> set_json y. fin x" if "y \<in> set js \<union> set ks" for y
      using that k JList.prems ks by auto
    have "map canon js = map canon ks \<and> r = r'"
    proof (rule sequence_unique[OF _ closers(1,3) _ e'])
      fix x assume x: "x \<in> set js"
      show "reads_back (dumps frepr) canon (set ks) x"
        using fin x by (intro reads_back_mono[OF JList.IH[OF x]]) auto
    next
      fix x assume "x \<in> set js \<union> set ks"
      then show "dumps frepr x \<noteq> [] \<and> hd (dumps frepr x) \<notin> delims" using dumps_start(1,2)[OF ok fin] by blast
    qed
    then show "canon (JList js) = canon k \<and> r = r'" using ks by simp
  qed
next
  case (JDict kvs)
  show ?case unfolding reads_back_def
  proof (intro ballI allI impI)
    fix k r r' assume k: "k \<in> {k. \<forall>x \<in> set_json k. fin x}" and e: "dumps frepr (JDict kvs) @ r = dumps frepr k @ r'"
    then obtain ks where ks: "k = JDict ks"
      using same_head[OF ok JDict.prems _ e] kind_of_head(3)[OF ok] head_of_dumps(3) by (metis mem_Collect_eq)
    let ?s = "sort_key fst kvs" and ?t = "sort_key fst ks"
    have e': "join '','' (map (entry_text frepr) ?s) @ CHR ''}'' # r = join '','' (map (entry_text frepr) ?t) @ CHR ''}'' # r'"
      using e unfolding ks dumps_dict by simp
    have fin: "\<forall>x \<in> set_json (snd y). fin x" if "y \<in> set kvs \<union> set ks" for y
      using that k JDict.prems ks by (cases y) (auto intro: prod_set_simps)
    have "map canon_entry ?s = map canon_entry ?t \<and> r = r'"
    proof (rule sequence_unique[OF _ closers(2,4) _ e'])
      fix x assume x: "x \<in> set ?s"
      have "reads_back (dumps frepr) canon {k. \<forall>x \<in> set_json k. fin x} (snd x)"
        using x fin by (intro JDict.IH[of x]) (cases x; auto)+
      then show "reads_back (entry_text frepr) canon_entry (set ?t) x"
        using fin by (intro entry_reads_back reads_back_mono[where Z = "snd ` set ?t"]) auto
    next
      fix x assume "x \<in> set ?s \<union> set ?t"
      then show "entry_text frepr x \<noteq> [] \<and> hd (entry_text frepr x) \<notin> delims" by (simp add: entry_start)
    qed
    then show "canon (JDict kvs) = canon k \<and> r = r'" unfolding ks canon_dict by simp
  qed
qed (auto intro!: atom_reads[OF ok])

lemma dumps_determines:
  assumes ok: "repr_ok fin frepr" and fin: "\<forall>x \<in> set_json j. fin x" "\<forall>x \<in> set_json k. fin x"
    and e: "dumps frepr j = dumps frepr k"
  shows "canon j = canon k"
  using reads_backD[OF dumps_reads_back[OF ok fin(1)], of k "[]" "[]"] fin(2) e by (simp add: ends_token_def)

lemma dumps_canon: "dumps frepr (canon j) = dumps frepr j"
proof (induction j)
  case (JDict kvs)
  have "map (\<lambda>(k, j). (k, dumps frepr j)) (map (\<lambda>(k, j). (k, canon j)) kvs) = map (\<lambda>(k, j). (k, dumps frepr j)) kvs"
    using JDict by (auto split: prod.splits)
  then have "sort_key fst (map (\<lambda>(k, j). (k, dumps frepr j)) (sort_key fst (map (\<lambda>(k, j). (k, canon j)) kvs))) =
      sort_key fst (map (\<lambda>(k, j). (k, dumps frepr j)) kvs)"
    by (simp add: sort_key_map case_prod_unfold comp_def sort_key_id_if_sorted)
  then show ?case by simp
next
  case (JList js)
  then show ?case by (simp cong: map_cong add: comp_def)
qed auto

section \<open>The contract\<close>

definition canonical_value :: "('f \<Rightarrow> bool) \<Rightarrow> 'f py_value \<Rightarrow> 'f json result" where
  \<comment> \<open>what a value says: its normal form with the keys in order\<close>
  "canonical_value fin v = bindE (normalize fin v) (\<lambda>j. Inr (canon j))"

lemma canonical_text_iff:
  assumes "repr_ok fin frepr" "canonical_json fin frepr v = Inr s" "canonical_json fin frepr w = Inr t"
  shows "s = t \<longleftrightarrow> canonical_value fin v = canonical_value fin w"
proof -
  obtain j k where j: "normalize fin v = Inr j" "s = dumps frepr j" and k: "normalize fin w = Inr k" "t = dumps frepr k"
    using assms(2,3) by (auto simp: canonical_json_def bindE_eq_Inr)
  have "dumps frepr j = dumps frepr k \<longleftrightarrow> canon j = canon k"
    using dumps_determines[OF assms(1)] normalize_finite[OF j(1)] normalize_finite[OF k(1)] dumps_canon[of frepr] by metis
  then show ?thesis using j k by (simp add: canonical_value_def)
qed

lemma section_facts:
  assumes "section_of fin v = Inr w"
  shows "immutable w" "normalize fin w = normalize fin v" "canonical_type fin w"
proof -
  obtain j where j: "normalize fin v = Inr j" "w = freeze (of_json j)"
    using assms by (auto simp: section_of_def bindE_eq_Inr split: if_splits)
  then show "immutable w" using freeze_immutable by simp
  show n: "normalize fin w = normalize fin v"
    using j normalize_freeze[of fin "of_json j"] normalize_of_json[of j fin] normalize_finite[OF j(1)] by simp
  show "canonical_type fin w" using n j(1) normalize_accepts by metis
qed

text \<open>C40. The typing of canonical values: a value has a canonical text exactly when it is built
  from None, bool, int, finite float, text, lists, tuples and mappings with text keys; a section
  of an experiment is such a value again, can nowhere be assigned to, and has the text of the
  value it was made from.\<close>

theorem canonical_values_are_typed:
  "((\<exists>s. canonical_json fin frepr v = Inr s) \<longleftrightarrow> canonical_type fin v) \<and>
   (\<forall>w. section_of fin v = Inr w \<longrightarrow>
      immutable w \<and> canonical_type fin w \<and> canonical_json fin frepr w = canonical_json fin frepr v)"
  using normalize_accepts[of fin v] section_facts[of fin v] by (auto simp: canonical_json_def bindE_eq_Inr)

definition example_value :: "nat py_value" where
  "example_value = PDict [(PStr ''b'', PList [PInt 1, PFloat 2]), (PStr ''a'', PTuple [PNone, PBool True])]"

theorem canonical_values_are_typed_witness:
  "\<exists>w. section_of (\<lambda>_. True) example_value = Inr w \<and> immutable w \<and> canonical_type (\<lambda>_. True) w"
proof -
  obtain w where "section_of (\<lambda>_. True) example_value = Inr w"
    by (simp add: section_of_def example_value_def)
  then show ?thesis using canonical_values_are_typed[of "\<lambda>_. True" int_text' example_value for int_text'] by blast
qed

text \<open>C30. The canonical text identifies the value: two values have the same text exactly when
  they hold the same things, up to the order of the keys of their mappings and the difference
  between lists and tuples; nothing else is lost, integers, floats and texts that print alike
  included.\<close>

theorem canonical_text_identifies_value:
  assumes "repr_ok fin frepr" "canonical_json fin frepr v = Inr s" "canonical_json fin frepr w = Inr t"
  shows "s = t \<longleftrightarrow> canonical_value fin v = canonical_value fin w"
  using canonical_text_iff[OF assms] .

definition example_repr :: "nat \<Rightarrow> string" where
  "example_repr n = nat_text n @ ''.0''"

lemma example_repr_ok: "repr_ok (\<lambda>_. True) example_repr"
proof -
  have d: "set digits \<subseteq> set ''0123456789.e+-''" "set ''.0'' \<subseteq> set ''0123456789.e+-''" by (simp_all add: digits_def)
  have "set (example_repr n) \<subseteq> set ''0123456789.e+-'' \<and> CHR ''.'' \<in> set (example_repr n)" for n
    unfolding example_repr_def set_append using d nat_text_digits[of n] by (intro conjI Un_least) auto
  moreover have "inj example_repr" by (simp add: example_repr_def inj_def)
  ultimately show ?thesis unfolding repr_ok_def by simp
qed

theorem canonical_text_identifies_value_witness:
  "canonical_value (\<lambda>_. True) (PList [PInt 1]) \<noteq> canonical_value (\<lambda>_. True) (PList [PFloat (1 :: nat)])"
proof -
  have n: "nat_text 1 = ''1''" by code_simp
  have "canonical_json (\<lambda>_. True) example_repr (PList [PInt 1]) = Inr ''[1]''"
    "canonical_json (\<lambda>_. True) example_repr (PList [PFloat 1]) = Inr ''[1.0]''"
    using n by (simp_all add: canonical_json_def int_text_def example_repr_def)
  from canonical_text_identifies_value[OF example_repr_ok this] show ?thesis by simp
qed

end
