(* ===== verification/Promotion.thy ===== *)
theory Promotion
  imports Canonical PyFloat
begin

text \<open>
  The promotion of a strategy up to HOLDOUT_READY (\<open>lab/promote.py\<close>): the state machine with its
  evidence, the files it is kept in and the seal that detects changed files.  The directory is a
  map from identities to the objects their files hold; a promotion object is a value of its own
  and may be older than its file.  \<open>reachable_promotion\<close> is the closure of all calls, through any
  number of such objects; SHA-256 and \<open>repr\<close> of a float are arguments.
\<close>

section \<open>Evidence\<close>

definition DRAFT :: string where "DRAFT = ''DRAFT''"
definition PARITY_PASSED :: string where "PARITY_PASSED = ''PARITY_PASSED''"
definition ROBUSTNESS_PASSED :: string where "ROBUSTNESS_PASSED = ''ROBUSTNESS_PASSED''"
definition HOLDOUT_READY :: string where "HOLDOUT_READY = ''HOLDOUT_READY''"

definition POST_MVP_A_STATES :: "string list" where
  "POST_MVP_A_STATES = [''HOLDOUT_PASSED'', ''RELEASE_CANDIDATE'', ''PAPER_APPROVED'']"

record parity_evidence =
  pe_runtime_parity :: bool
  pe_double_run_reproducibility :: bool

record robustness_evidence =
  re_profitable_windows :: int
  re_losing_windows :: int
  re_expectancy :: "pyfloat option"
  re_robustness_interpretation :: string
  re_edge_present :: bool
  re_promotable :: bool

record readiness_evidence =
  he_spec_id :: string
  he_strategy_identity :: string
  he_kernel_fingerprint :: string
  he_split_version :: int
  he_holdout_state :: string
  he_human_approved :: bool
  he_approver :: string

definition require_hex :: "string \<Rightarrow> string \<Rightarrow> unit result" where
  "require_hex name value = raise_if (\<not> is_hex64 value) (ValueError (name @ '' must be SHA-256 hex''))"

fun dumps_spaced :: "('f \<Rightarrow> string) \<Rightarrow> 'f json \<Rightarrow> string" where
  \<comment> \<open>\<open>json.dumps(x, sort_keys=True)\<close>, with the default separators\<close>
  "dumps_spaced frepr (JList js) = ''['' @ join '', '' (map (dumps_spaced frepr) js) @ '']''"
| "dumps_spaced frepr (JDict kvs) =
     ''{'' @ join '', '' (map (\<lambda>(k, t). quote k @ '': '' @ t) (sort_key fst (map (\<lambda>(k, j). (k, dumps_spaced frepr j)) kvs))) @ ''}''"
| "dumps_spaced frepr j = dumps frepr j"

definition parity_json :: "parity_evidence \<Rightarrow> pyfloat json" where
  "parity_json e = JDict [(''runtime_parity'', JBool (pe_runtime_parity e)),
     (''double_run_reproducibility'', JBool (pe_double_run_reproducibility e))]"

definition robustness_json :: "robustness_evidence \<Rightarrow> pyfloat json" where
  "robustness_json e = JDict [(''profitable_windows'', JInt (re_profitable_windows e)),
     (''losing_windows'', JInt (re_losing_windows e)),
     (''expectancy'', case re_expectancy e of None \<Rightarrow> JNull | Some x \<Rightarrow> JFloat x),
     (''robustness_interpretation'', JStr (re_robustness_interpretation e)),
     (''edge_present'', JBool (re_edge_present e)), (''promotable'', JBool (re_promotable e))]"

definition readiness_json :: "readiness_evidence \<Rightarrow> pyfloat json" where
  "readiness_json e = JDict [(''spec_id'', JStr (he_spec_id e)), (''strategy_identity'', JStr (he_strategy_identity e)),
     (''kernel_fingerprint'', JStr (he_kernel_fingerprint e)), (''split_version'', JInt (he_split_version e)),
     (''holdout_state'', JStr (he_holdout_state e)), (''human_approved'', JBool (he_human_approved e)),
     (''approver'', JStr (he_approver e))]"

section \<open>Promotions and their files\<close>

record history_entry =
  hi_origin :: string
  hi_target :: string
  hi_timestamp :: string
  hi_evidence :: string
  hi_reason :: string

record promotion =
  pm_strategy_identity :: string
  pm_spec_id :: string
  pm_state :: string
  pm_history :: "history_entry list"

record promotion_file =
  pf_body :: promotion
    \<comment> \<open>the four keys of the body\<close>
  pf_state_hash :: "string option"

type_synonym promotions = "string \<Rightarrow> promotion_file option"

record env =
  ev_sha256 :: "string \<Rightarrow> string"
  ev_repr :: "pyfloat \<Rightarrow> string"

definition entry_json :: "history_entry \<Rightarrow> pyfloat json" where
  "entry_json h = JDict [(''origin'', JStr (hi_origin h)), (''target'', JStr (hi_target h)),
     (''timestamp'', JStr (hi_timestamp h)), (''evidence'', JStr (hi_evidence h)), (''reason'', JStr (hi_reason h))]"

definition body_json :: "promotion \<Rightarrow> pyfloat json" where
  "body_json p = JDict [(''strategy_identity'', JStr (pm_strategy_identity p)), (''current_state'', JStr (pm_state p)),
     (''spec_id'', JStr (pm_spec_id p)), (''history'', JList (map entry_json (pm_history p)))]"

definition seal :: "env \<Rightarrow> promotion \<Rightarrow> string" where
  "seal env p = ev_sha256 env (dumps (ev_repr env) (body_json p))"

definition persist_promotion :: "env \<Rightarrow> promotions \<Rightarrow> promotion \<Rightarrow> promotions" where
  "persist_promotion env fs p = fs(pm_strategy_identity p \<mapsto> \<lparr>pf_body = p, pf_state_hash = Some (seal env p)\<rparr>)"

definition create_promotion :: "env \<Rightarrow> promotions \<Rightarrow> string \<Rightarrow> string \<Rightarrow> promotions \<times> promotion result" where
  "create_promotion env fs identity spec =
     (case bindE (require_hex ''strategy_identity'' identity) (\<lambda>_. bindE (require_hex ''spec_id'' spec) (\<lambda>_.
            raise_if (fs identity \<noteq> None) (PromotionRejected ''PROMOTION_EXISTS''))) of
        Inl e \<Rightarrow> (fs, Inl e)
      | Inr _ \<Rightarrow>
          (let p = \<lparr>pm_strategy_identity = identity, pm_spec_id = spec, pm_state = DRAFT, pm_history = []\<rparr>
           in (persist_promotion env fs p, Inr p)))"

definition load_promotion :: "env \<Rightarrow> promotions \<Rightarrow> string \<Rightarrow> promotion result" where
  "load_promotion env fs identity =
     bindE (require_hex ''strategy_identity'' identity) (\<lambda>_.
       case fs identity of
         None \<Rightarrow> Inl FileNotFoundError
       | Some f \<Rightarrow> if pf_state_hash f \<noteq> Some (seal env (pf_body f)) then Inl StateTamperedError else Inr (pf_body f))"

definition promotion_step ::
  "env \<Rightarrow> promotions \<Rightarrow> promotion \<Rightarrow> string \<Rightarrow> string \<Rightarrow> string \<Rightarrow> string \<Rightarrow> promotions \<times> promotion result" where
  "promotion_step env fs p target timestamp evidence reason =
     (let stepped = p\<lparr>pm_state := target, pm_history := pm_history p @
            [\<lparr>hi_origin = pm_state p, hi_target = target, hi_timestamp = timestamp, hi_evidence = evidence, hi_reason = reason\<rparr>]\<rparr>
      in (persist_promotion env fs stepped, Inr stepped))"

definition demand_state :: "promotion \<Rightarrow> string \<Rightarrow> unit result" where
  "demand_state p expected = raise_if (pm_state p \<noteq> expected) (PromotionRejected ''STATE_JUMP'')"

definition parity_checks :: "promotion \<Rightarrow> parity_evidence \<Rightarrow> unit result" where
  "parity_checks p e =
     bindE (demand_state p DRAFT) (\<lambda>_.
     raise_if (\<not> pe_runtime_parity e \<or> \<not> pe_double_run_reproducibility e) (PromotionRejected ''PARITY_EVIDENCE_INCOMPLETE''))"

definition robustness_checks :: "promotion \<Rightarrow> robustness_evidence \<Rightarrow> unit result" where
  "robustness_checks p e =
     bindE (demand_state p PARITY_PASSED) (\<lambda>_.
     bindE (raise_if (re_robustness_interpretation e = ''STABLE_NEGATIVE'') (PromotionRejected ''NEGATIVE_WALK_FORWARD: STABLE_NEGATIVE is rejection'')) (\<lambda>_.
     bindE (raise_if (\<not> re_edge_present e) (PromotionRejected ''NO_DEMONSTRATED_EDGE: edge_present is false'')) (\<lambda>_.
     bindE (raise_if (\<not> re_promotable e) (PromotionRejected ''NOT_PROMOTABLE: candidate flagged not promotable'')) (\<lambda>_.
     bindE (raise_if (re_profitable_windows e \<le> 0) (PromotionRejected ''NEGATIVE_WALK_FORWARD: no profitable windows'')) (\<lambda>_.
     raise_if (case re_expectancy e of None \<Rightarrow> True | Some x \<Rightarrow> fle x (Fin 0)) (PromotionRejected ''NEGATIVE_WALK_FORWARD: expectancy not positive''))))))"

definition readiness_checks :: "promotion \<Rightarrow> readiness_evidence \<Rightarrow> unit result" where
  "readiness_checks p e =
     bindE (demand_state p ROBUSTNESS_PASSED) (\<lambda>_.
     bindE (require_hex ''spec_id'' (he_spec_id e)) (\<lambda>_.
     bindE (require_hex ''strategy_identity'' (he_strategy_identity e)) (\<lambda>_.
     bindE (require_hex ''kernel_fingerprint'' (he_kernel_fingerprint e)) (\<lambda>_.
     bindE (raise_if (he_split_version e \<noteq> 1) (PromotionRejected ''SPLIT_MISMATCH'')) (\<lambda>_.
     bindE (raise_if (he_holdout_state e \<noteq> ''PRISTINE'') (PromotionRejected ''HOLDOUT_NOT_PRISTINE'')) (\<lambda>_.
     raise_if (\<not> he_human_approved e \<or> is_blank (he_approver e)) (PromotionRejected ''HUMAN_APPROVAL_REQUIRED'')))))))"

definition guarded_step ::
  "env \<Rightarrow> promotions \<Rightarrow> promotion \<Rightarrow> unit result \<Rightarrow> string \<Rightarrow> string \<Rightarrow> string \<Rightarrow> string \<Rightarrow> promotions \<times> promotion result" where
  "guarded_step env fs p checks target timestamp evidence reason =
     (case checks of Inl e \<Rightarrow> (fs, Inl e) | Inr _ \<Rightarrow> promotion_step env fs p target timestamp evidence reason)"

definition advance_to_parity ::
  "env \<Rightarrow> promotions \<Rightarrow> promotion \<Rightarrow> parity_evidence \<Rightarrow> string \<Rightarrow> promotions \<times> promotion result" where
  "advance_to_parity env fs p e timestamp =
     guarded_step env fs p (parity_checks p e) PARITY_PASSED timestamp (dumps_spaced (ev_repr env) (parity_json e)) ''parity evidence complete''"

definition advance_to_robustness ::
  "env \<Rightarrow> promotions \<Rightarrow> promotion \<Rightarrow> robustness_evidence \<Rightarrow> string \<Rightarrow> promotions \<times> promotion result" where
  "advance_to_robustness env fs p e timestamp =
     guarded_step env fs p (robustness_checks p e) ROBUSTNESS_PASSED timestamp (dumps_spaced (ev_repr env) (robustness_json e)) ''robustness evidence shows edge''"

definition advance_to_holdout_ready ::
  "env \<Rightarrow> promotions \<Rightarrow> promotion \<Rightarrow> readiness_evidence \<Rightarrow> string \<Rightarrow> promotions \<times> promotion result" where
  "advance_to_holdout_ready env fs p e timestamp =
     guarded_step env fs p (readiness_checks p e) HOLDOUT_READY timestamp (dumps_spaced (ev_repr env) (readiness_json e))
       ''candidate frozen for future holdout; holdout untouched''"

definition add_research_note :: "env \<Rightarrow> promotions \<Rightarrow> promotion \<Rightarrow> string \<Rightarrow> string \<Rightarrow> promotions \<times> promotion result" where
  "add_research_note env fs p note timestamp =
     promotion_step env fs p (pm_state p) timestamp (dumps_spaced (ev_repr env) (JDict [(''research_note'', JStr note)])) ''research-note''"

definition request_post_mvp_a :: "string \<Rightarrow> unit result" where
  "request_post_mvp_a target =
     (if List.member POST_MVP_A_STATES target then Inl (UnsupportedStateError target)
      else Inl (ValueError ''unknown promotion state''))"

section \<open>Everything a client can do\<close>

datatype promotion_call =
    Create string string
  | Load string
  | Parity promotion parity_evidence string
  | Robustness promotion robustness_evidence string
  | Readiness promotion readiness_evidence string
  | Note promotion string string

fun run_call :: "env \<Rightarrow> promotions \<Rightarrow> promotion_call \<Rightarrow> promotions \<times> promotion result" where
  "run_call env fs (Create i s) = create_promotion env fs i s"
| "run_call env fs (Load i) = (fs, load_promotion env fs i)"
| "run_call env fs (Parity p e t) = advance_to_parity env fs p e t"
| "run_call env fs (Robustness p e t) = advance_to_robustness env fs p e t"
| "run_call env fs (Readiness p e t) = advance_to_holdout_ready env fs p e t"
| "run_call env fs (Note p n t) = add_research_note env fs p n t"

fun call_object :: "promotion_call \<Rightarrow> promotion option" where
  "call_object (Parity p _ _) = Some p"
| "call_object (Robustness p _ _) = Some p"
| "call_object (Readiness p _ _) = Some p"
| "call_object (Note p _ _) = Some p"
| "call_object _ = None"

inductive reachable_promotion :: "env \<Rightarrow> promotions \<Rightarrow> promotion list \<Rightarrow> bool" for env where
  \<comment> \<open>the files and the objects the calls have returned\<close>
  start: "reachable_promotion env Map.empty []"
| call: "reachable_promotion env fs ps \<Longrightarrow> set_option (call_object c) \<subseteq> set ps \<Longrightarrow>
    run_call env fs c = (fs', r) \<Longrightarrow>
    reachable_promotion env fs' (case r of Inl _ \<Rightarrow> ps | Inr p \<Rightarrow> p # ps)"

inductive_cases reachable_promotionE: "reachable_promotion env fs ps"

section \<open>A promotion is earned\<close>

lemmas promotion_states = DRAFT_def PARITY_PASSED_def ROBUSTNESS_PASSED_def HOLDOUT_READY_def

lemma state_distinct [simp]:
  "DRAFT \<noteq> PARITY_PASSED" "DRAFT \<noteq> ROBUSTNESS_PASSED" "DRAFT \<noteq> HOLDOUT_READY" "PARITY_PASSED \<noteq> ROBUSTNESS_PASSED"
  "PARITY_PASSED \<noteq> HOLDOUT_READY" "ROBUSTNESS_PASSED \<noteq> HOLDOUT_READY"
  "PARITY_PASSED \<noteq> DRAFT" "ROBUSTNESS_PASSED \<noteq> DRAFT" "HOLDOUT_READY \<noteq> DRAFT" "ROBUSTNESS_PASSED \<noteq> PARITY_PASSED"
  "HOLDOUT_READY \<noteq> PARITY_PASSED" "HOLDOUT_READY \<noteq> ROBUSTNESS_PASSED"
  by (simp_all add: promotion_states)

definition parity_entry :: "env \<Rightarrow> history_entry \<Rightarrow> bool" where
  "parity_entry env h \<longleftrightarrow> hi_origin h = DRAFT \<and> hi_target h = PARITY_PASSED \<and>
     (\<exists>e. hi_evidence h = dumps_spaced (ev_repr env) (parity_json e) \<and> pe_runtime_parity e \<and> pe_double_run_reproducibility e)"

definition robustness_entry :: "env \<Rightarrow> history_entry \<Rightarrow> bool" where
  "robustness_entry env h \<longleftrightarrow> hi_origin h = PARITY_PASSED \<and> hi_target h = ROBUSTNESS_PASSED \<and>
     (\<exists>e x. hi_evidence h = dumps_spaced (ev_repr env) (robustness_json e) \<and> re_edge_present e \<and> re_promotable e \<and>
        0 < re_profitable_windows e \<and> re_robustness_interpretation e \<noteq> ''STABLE_NEGATIVE'' \<and>
        re_expectancy e = Some x \<and> \<not> fle x (Fin 0))"

definition readiness_entry :: "env \<Rightarrow> history_entry \<Rightarrow> bool" where
  "readiness_entry env h \<longleftrightarrow> hi_origin h = ROBUSTNESS_PASSED \<and> hi_target h = HOLDOUT_READY \<and>
     (\<exists>e. hi_evidence h = dumps_spaced (ev_repr env) (readiness_json e) \<and> he_human_approved e \<and>
        \<not> is_blank (he_approver e) \<and> he_holdout_state e = ''PRISTINE'' \<and> he_split_version e = 1)"

definition justified :: "env \<Rightarrow> history_entry \<Rightarrow> bool" where
  "justified env h \<longleftrightarrow> hi_origin h = hi_target h \<or> parity_entry env h \<or> robustness_entry env h \<or> readiness_entry env h"

fun trail :: "env \<Rightarrow> string \<Rightarrow> history_entry list \<Rightarrow> string \<Rightarrow> bool" where
  \<comment> \<open>entries that lead from one state to another, each justified\<close>
  "trail env s [] t \<longleftrightarrow> s = t"
| "trail env s (h # hs) t \<longleftrightarrow> hi_origin h = s \<and> justified env h \<and> trail env (hi_target h) hs t"

lemma trail_snoc: "trail env s (hs @ [h]) t \<longleftrightarrow> trail env s hs (hi_origin h) \<and> justified env h \<and> hi_target h = t"
  by (induction hs arbitrary: s) auto

definition earned :: "env \<Rightarrow> promotion \<Rightarrow> bool" where
  "earned env p \<longleftrightarrow> trail env DRAFT (pm_history p) (pm_state p)"

definition sealed :: "env \<Rightarrow> promotions \<Rightarrow> bool" where
  \<comment> \<open>every file holds an earned promotion of its own identity under its seal\<close>
  "sealed env fs \<longleftrightarrow> (\<forall>i f. fs i = Some f \<longrightarrow>
     earned env (pf_body f) \<and> pm_strategy_identity (pf_body f) = i \<and> pf_state_hash f = Some (seal env (pf_body f)))"

lemma sealed_persist: "sealed env fs \<Longrightarrow> earned env p \<Longrightarrow> sealed env (persist_promotion env fs p)"
  by (auto simp: sealed_def persist_promotion_def)

lemma promotion_step_earned:
  assumes "earned env p" "sealed env fs" "promotion_step env fs p target t ev reason = (fs', r)"
    and "justified env \<lparr>hi_origin = pm_state p, hi_target = target, hi_timestamp = t, hi_evidence = ev, hi_reason = reason\<rparr>"
  shows "sealed env fs' \<and> (\<exists>q. r = Inr q \<and> earned env q)"
proof -
  let ?q = "p\<lparr>pm_state := target, pm_history := pm_history p @
      [\<lparr>hi_origin = pm_state p, hi_target = target, hi_timestamp = t, hi_evidence = ev, hi_reason = reason\<rparr>]\<rparr>"
  have "earned env ?q" using assms(1,4) by (simp add: earned_def trail_snoc)
  then show ?thesis using assms(2,3) sealed_persist[of env fs ?q] by (auto simp: promotion_step_def Let_def)
qed

lemma guarded_step_earned:
  assumes "earned env p" "sealed env fs" "guarded_step env fs p checks target t ev reason = (fs', r)"
    and "checks = Inr () \<Longrightarrow>
      justified env \<lparr>hi_origin = pm_state p, hi_target = target, hi_timestamp = t, hi_evidence = ev, hi_reason = reason\<rparr>"
  shows "sealed env fs' \<and> (\<forall>q. r = Inr q \<longrightarrow> earned env q) \<and> (\<forall>e. r = Inl e \<longrightarrow> fs' = fs)"
proof (cases checks)
  case (Inl e)
  then show ?thesis using assms by (auto simp: guarded_step_def)
next
  case (Inr u)
  then show ?thesis
    using assms promotion_step_earned[OF assms(1,2), of target t ev reason fs' r] by (auto simp: guarded_step_def)
qed

lemma parity_checks_ok: "parity_checks p e = Inr () \<longleftrightarrow> pm_state p = DRAFT \<and> pe_runtime_parity e \<and> pe_double_run_reproducibility e"
  by (auto simp: parity_checks_def demand_state_def bindE_eq_Inr)

lemma robustness_checks_ok:
  "robustness_checks p e = Inr () \<longleftrightarrow> pm_state p = PARITY_PASSED \<and> re_robustness_interpretation e \<noteq> ''STABLE_NEGATIVE'' \<and>
     re_edge_present e \<and> re_promotable e \<and> 0 < re_profitable_windows e \<and> (\<exists>x. re_expectancy e = Some x \<and> \<not> fle x (Fin 0))"
  by (auto simp: robustness_checks_def demand_state_def bindE_eq_Inr split: option.splits)

lemma readiness_checks_ok:
  "readiness_checks p e = Inr () \<longleftrightarrow> pm_state p = ROBUSTNESS_PASSED \<and> is_hex64 (he_spec_id e) \<and>
     is_hex64 (he_strategy_identity e) \<and> is_hex64 (he_kernel_fingerprint e) \<and> he_split_version e = 1 \<and>
     he_holdout_state e = ''PRISTINE'' \<and> he_human_approved e \<and> \<not> is_blank (he_approver e)"
  by (auto simp: readiness_checks_def demand_state_def require_hex_def bindE_eq_Inr)

lemma run_call_earned:
  assumes "sealed env fs" "\<And>p. call_object c = Some p \<Longrightarrow> earned env p" "run_call env fs c = (fs', r)"
  shows "sealed env fs' \<and> (\<forall>q. r = Inr q \<longrightarrow> earned env q) \<and> (\<forall>e. r = Inl e \<longrightarrow> fs' = fs)"
proof (cases c)
  case (Create i s)
  have "earned env \<lparr>pm_strategy_identity = i, pm_spec_id = s, pm_state = DRAFT, pm_history = []\<rparr>" by (simp add: earned_def)
  then show ?thesis using assms(1,3) Create sealed_persist[of env fs]
    by (auto simp: create_promotion_def Let_def split: sum.splits)
next
  case (Load i)
  then show ?thesis using assms(1,3)
    by (auto simp: load_promotion_def bindE_eq_Inr sealed_def split: option.splits if_splits)
next
  case (Parity p e t)
  then show ?thesis using assms
    by (intro guarded_step_earned[of env p fs "parity_checks p e" PARITY_PASSED t])
       (auto simp: advance_to_parity_def parity_checks_ok justified_def parity_entry_def)
next
  case (Robustness p e t)
  then show ?thesis using assms
    by (intro guarded_step_earned[of env p fs "robustness_checks p e" ROBUSTNESS_PASSED t])
       (auto simp: advance_to_robustness_def robustness_checks_ok justified_def robustness_entry_def)
next
  case (Readiness p e t)
  then show ?thesis using assms
    by (intro guarded_step_earned[of env p fs "readiness_checks p e" HOLDOUT_READY t])
       (auto simp: advance_to_holdout_ready_def readiness_checks_ok justified_def readiness_entry_def)
next
  case (Note p n t)
  then show ?thesis using assms promotion_step_earned[of env p fs "pm_state p" t _ "''research-note''" fs' r]
    by (auto simp: add_research_note_def justified_def)
qed

lemma reachable_earned: "reachable_promotion env fs ps \<Longrightarrow> sealed env fs \<and> (\<forall>p \<in> set ps. earned env p)"
proof (induction rule: reachable_promotion.induct)
  case start
  show ?case by (simp add: sealed_def)
next
  case (call fs ps c fs' r)
  then show ?case using run_call_earned[of env fs c fs' r] by (auto split: sum.splits)
qed

fun passed :: "(history_entry \<Rightarrow> bool) list \<Rightarrow> history_entry list \<Rightarrow> bool" where
  \<comment> \<open>entries of the given kinds occur in this order\<close>
  "passed [] hs = True"
| "passed (k # ks) [] = False"
| "passed (k # ks) (h # hs) = (k h \<and> passed ks hs \<or> passed (k # ks) hs)"

lemma passed_snoc: "passed ks hs \<Longrightarrow> passed ks (hs @ [h])"
  by (induction ks hs rule: passed.induct) auto

lemma passed_next: "passed ks hs \<Longrightarrow> k h \<Longrightarrow> passed (ks @ [k]) (hs @ [h])"
proof (induction ks hs rule: passed.induct)
  case (1 hs)
  then show ?case by (induction hs) auto
qed auto

lemma trail_passed:
  "trail env DRAFT hs t \<Longrightarrow>
     t = DRAFT \<or> t = PARITY_PASSED \<and> passed [parity_entry env] hs \<or>
     t = ROBUSTNESS_PASSED \<and> passed [parity_entry env, robustness_entry env] hs \<or>
     t = HOLDOUT_READY \<and> passed [parity_entry env, robustness_entry env, readiness_entry env] hs"
proof (induction hs arbitrary: t rule: rev_induct)
  case (snoc h hs)
  then have o: "trail env DRAFT hs (hi_origin h)" and j: "justified env h" and t: "hi_target h = t"
    by (simp_all add: trail_snoc)
  consider "hi_origin h = t" | "parity_entry env h" | "robustness_entry env h" | "readiness_entry env h"
    using j t by (auto simp: justified_def)
  then show ?case
  proof cases
    case 1
    then show ?thesis using snoc.IH[OF o] passed_snoc by metis
  next
    case 2
    then have "t = PARITY_PASSED" using t by (simp add: parity_entry_def)
    then show ?thesis using 2 passed_next[of "[]" hs "parity_entry env" h] by simp
  next
    case 3
    then have "hi_origin h = PARITY_PASSED" "t = ROBUSTNESS_PASSED" using t by (simp_all add: robustness_entry_def)
    then show ?thesis using snoc.IH[OF o] 3 passed_next[of "[parity_entry env]" hs "robustness_entry env" h] by simp
  next
    case 4
    then have "hi_origin h = ROBUSTNESS_PASSED" "t = HOLDOUT_READY" using t by (simp_all add: readiness_entry_def)
    then show ?thesis
      using snoc.IH[OF o] 4 passed_next[of "[parity_entry env, robustness_entry env]" hs "readiness_entry env" h] by simp
  qed
qed simp

lemma promotion_is_earned:
  assumes "reachable_promotion env fs ps" "p \<in> set ps \<or> load_promotion env fs i = Inr p" "pm_state p = HOLDOUT_READY"
  shows "passed [parity_entry env, robustness_entry env, readiness_entry env] (pm_history p)"
proof -
  have "earned env p"
    using reachable_earned[OF assms(1)] assms(2)
    by (auto simp: load_promotion_def bindE_eq_Inr sealed_def split: option.splits if_splits)
  then show ?thesis using trail_passed[of env "pm_history p" "pm_state p"] assms(3) by (simp add: earned_def)
qed

text \<open>C11. Whatever sequence of calls is made, on whatever promotion objects, stale ones included:
  an object or a file that says HOLDOUT_READY carries in its history, in this order, parity evidence
  with both flags set, robustness evidence with a demonstrated edge and profitable windows, and
  a readiness record approved by a named human on a pristine holdout.\<close>

theorem holdout_ready_is_earned:
  assumes "reachable_promotion env fs ps" "p \<in> set ps \<or> load_promotion env fs i = Inr p" "pm_state p = HOLDOUT_READY"
  shows "passed [parity_entry env, robustness_entry env, readiness_entry env] (pm_history p)"
  by (rule promotion_is_earned[OF assms])

lemma reachable_step:
  assumes "reachable_promotion env fs ps" "set_option (call_object c) \<subseteq> set ps" "run_call env fs c = (fs', Inr q)"
  shows "reachable_promotion env fs' (q # ps)"
  using reachable_promotion.call[OF assms] by simp

lemma guarded_step_moves:
  "guarded_step env fs p (Inr ()) target t ev reason = (fs', r) \<Longrightarrow> \<exists>q. r = Inr q \<and> pm_state q = target"
  by (auto simp: guarded_step_def promotion_step_def Let_def)

lemma advance_moves:
  "parity_checks p e = Inr () \<Longrightarrow> \<exists>fs' q. run_call env fs (Parity p e t) = (fs', Inr q) \<and> pm_state q = PARITY_PASSED"
  "robustness_checks p e' = Inr () \<Longrightarrow> \<exists>fs' q. run_call env fs (Robustness p e' t) = (fs', Inr q) \<and> pm_state q = ROBUSTNESS_PASSED"
  "readiness_checks p e'' = Inr () \<Longrightarrow> \<exists>fs' q. run_call env fs (Readiness p e'' t) = (fs', Inr q) \<and> pm_state q = HOLDOUT_READY"
  by (auto simp: advance_to_parity_def advance_to_robustness_def advance_to_holdout_ready_def
      guarded_step_def promotion_step_def Let_def)

definition example_hex :: string where
  "example_hex = replicate 64 (CHR ''a'')"

definition example_parity :: parity_evidence where
  "example_parity = \<lparr>pe_runtime_parity = True, pe_double_run_reproducibility = True\<rparr>"

definition example_robustness :: robustness_evidence where
  "example_robustness = \<lparr>re_profitable_windows = 2, re_losing_windows = 1, re_expectancy = Some (Fin 1),
     re_robustness_interpretation = ''STABLE_POSITIVE'', re_edge_present = True, re_promotable = True\<rparr>"

definition example_readiness :: readiness_evidence where
  "example_readiness = \<lparr>he_spec_id = example_hex, he_strategy_identity = example_hex, he_kernel_fingerprint = example_hex,
     he_split_version = 1, he_holdout_state = ''PRISTINE'', he_human_approved = True, he_approver = ''ana''\<rparr>"

lemma example_hex64: "is_hex64 example_hex"
  by (simp add: is_hex64_def example_hex_def list_all_iff)

lemma holdout_ready_reachable:
  "\<exists>fs ps p. reachable_promotion env fs ps \<and> p \<in> set ps \<and> pm_state p = HOLDOUT_READY"
proof -
  obtain f0 p0 where c0: "run_call env Map.empty (Create example_hex example_hex) = (f0, Inr p0)" "pm_state p0 = DRAFT"
    by (simp add: create_promotion_def require_hex_def raise_if_def example_hex64 Let_def)
  have r0: "reachable_promotion env f0 [p0]" by (rule reachable_step[OF reachable_promotion.start _ c0(1)]) simp
  have "parity_checks p0 example_parity = Inr ()" using c0(2) by (simp add: parity_checks_ok example_parity_def)
  then obtain f1 p1 where c1: "run_call env f0 (Parity p0 example_parity []) = (f1, Inr p1)" "pm_state p1 = PARITY_PASSED"
    using advance_moves(1) by blast
  have r1: "reachable_promotion env f1 [p1, p0]" by (rule reachable_step[OF r0 _ c1(1)]) simp
  have "robustness_checks p1 example_robustness = Inr ()" using c1(2) by (simp add: robustness_checks_ok example_robustness_def)
  then obtain f2 p2 where c2: "run_call env f1 (Robustness p1 example_robustness []) = (f2, Inr p2)" "pm_state p2 = ROBUSTNESS_PASSED"
    using advance_moves(2) by blast
  have r2: "reachable_promotion env f2 [p2, p1, p0]" by (rule reachable_step[OF r1 _ c2(1)]) simp
  have "\<not> is_blank ''ana''" by code_simp
  then have "readiness_checks p2 example_readiness = Inr ()"
    using c2(2) by (simp add: readiness_checks_ok example_readiness_def example_hex64)
  then obtain f3 p3 where c3: "run_call env f2 (Readiness p2 example_readiness []) = (f3, Inr p3)" "pm_state p3 = HOLDOUT_READY"
    using advance_moves(3) by blast
  have "reachable_promotion env f3 [p3, p2, p1, p0]" by (rule reachable_step[OF r2 _ c3(1)]) simp
  then show ?thesis using c3(2) by (meson list.set_intros(1))
qed

definition example_env :: env where
  "example_env = \<lparr>ev_sha256 = id, ev_repr = (\<lambda>_. [])\<rparr>"

theorem holdout_ready_is_earned_witness:
  "\<exists>fs ps p. reachable_promotion example_env fs ps \<and> p \<in> set ps \<and> pm_state p = HOLDOUT_READY \<and>
     passed [parity_entry example_env, robustness_entry example_env, readiness_entry example_env] (pm_history p)"
proof -
  obtain fs ps p where "reachable_promotion example_env fs ps" "p \<in> set ps" "pm_state p = HOLDOUT_READY"
    using holdout_ready_reachable by blast
  then show ?thesis using holdout_ready_is_earned[of example_env fs ps p undefined] by blast
qed

section \<open>The files\<close>

text \<open>A promotion that is stored loads back as it is; a file whose content no longer fits its
  seal is refused as tampered; and a call that is rejected leaves every file as it was.\<close>

theorem promotion_files_are_sealed:
  assumes "is_hex64 (pm_strategy_identity p)"
  shows "load_promotion env (persist_promotion env fs p) (pm_strategy_identity p) = Inr p \<and>
    (\<forall>f. seal env (pf_body f) \<noteq> seal env p \<longrightarrow> pf_state_hash f = Some (seal env p) \<longrightarrow>
       load_promotion env (fs(pm_strategy_identity p \<mapsto> f)) (pm_strategy_identity p) = Inl StateTamperedError) \<and>
    (\<forall>c fs' e. run_call env fs c = (fs', Inl e) \<longrightarrow> fs' = fs)"
proof -
  have "fs' = fs" if "run_call env fs c = (fs', Inl e)" for c fs' e
    using that
    by (cases c)
       (auto simp: create_promotion_def advance_to_parity_def advance_to_robustness_def advance_to_holdout_ready_def
          add_research_note_def guarded_step_def promotion_step_def Let_def split: sum.splits)
  then show ?thesis
    using assms by (auto simp: load_promotion_def persist_promotion_def require_hex_def raise_if_def)
qed

theorem promotion_files_are_sealed_witness:
  "let p = \<lparr>pm_strategy_identity = example_hex, pm_spec_id = example_hex, pm_state = DRAFT, pm_history = []\<rparr>
   in load_promotion example_env (persist_promotion example_env Map.empty p) example_hex = Inr p"
  using promotion_files_are_sealed[of "\<lparr>pm_strategy_identity = example_hex, pm_spec_id = example_hex, pm_state = DRAFT, pm_history = []\<rparr>"]
  by (simp add: example_hex64 Let_def)

text \<open>What the machine does not check: the readiness evidence may be of another strategy, an
  expectancy that is not a number passes the test on its sign, and an object read before a
  promotion writes its older state over the newer file.\<close>

lemma foreign_evidence_is_accepted:
  assumes "pm_state p = ROBUSTNESS_PASSED" "is_hex64 other" "other \<noteq> pm_strategy_identity p"
  shows "readiness_checks p (example_readiness\<lparr>he_strategy_identity := other, he_spec_id := other\<rparr>) = Inr ()"
proof -
  have "\<not> is_blank ''ana''" by code_simp
  then show ?thesis using assms by (simp add: readiness_checks_ok example_readiness_def example_hex64)
qed

lemma nan_expectancy_is_accepted:
  "pm_state p = PARITY_PASSED \<Longrightarrow> robustness_checks p (example_robustness\<lparr>re_expectancy := Some NaN\<rparr>) = Inr ()"
  by (simp add: robustness_checks_ok example_robustness_def)

lemma stale_object_reverts_the_file:
  assumes "pm_state p = DRAFT" "run_call env fs (Note p n t) = (fs', r)"
  shows "\<exists>f. fs' (pm_strategy_identity p) = Some f \<and> pm_state (pf_body f) = DRAFT"
  using assms by (auto simp: add_research_note_def promotion_step_def Let_def persist_promotion_def)

end
