(* ===== verification/Experiment.thy ===== *)
theory Experiment
  imports Canonical "HOL-Library.Multiset"
begin

text \<open>
  Experiment definitions and runs (\<open>lab/experiment_spec.py\<close>), the identity of a strategy
  (\<open>lab/fingerprints.py\<close>), the identity of the kernel (\<open>lab/kernel_bundle.py\<close>) and the
  comparison of runs (\<open>lab/registry.py\<close>).  SHA-256, \<open>repr\<close> of a float, the reading of ISO dates
  and the source of a module are arguments.
\<close>

section \<open>Experiment definitions\<close>

record 'f experiment_spec =
  es_dataset :: "'f py_value"
  es_strategy :: "'f py_value"
  es_risk :: "'f py_value"
  es_execution :: "'f py_value"
  es_fees :: "'f py_value"
  es_slippage :: "'f py_value"
  es_timing_model :: "'f py_value"
  es_holdout_protocol :: "'f py_value"
  es_kernel_identity :: "'f py_value"
  es_seed :: "'f py_value"
  es_walk_forward :: "'f py_value"

fun is_str :: "'f py_value \<Rightarrow> string option" where
  \<comment> \<open>\<open>isinstance(value, str)\<close>, with the text\<close>
  "is_str (PStr s) = Some s"
| "is_str (PEnum (StrEnum s)) = Some s"
| "is_str _ = None"

fun is_int :: "'f py_value \<Rightarrow> int option" where
  "is_int (PInt i) = Some i"
| "is_int (PBool b) = Some (if b then 1 else 0)"
| "is_int (PEnum (IntEnum i)) = Some i"
| "is_int _ = None"

definition non_empty_str :: "'f py_value \<Rightarrow> bool" where
  "non_empty_str v = (case is_str v of None \<Rightarrow> False | Some s \<Rightarrow> s \<noteq> [])"

fun mapping_get :: "'f py_value \<Rightarrow> string \<Rightarrow> 'f py_value" where
  \<comment> \<open>\<open>m.get(key)\<close>\<close>
  "mapping_get (PProxy kvs) key = (case map_of kvs (PStr key) of None \<Rightarrow> PNone | Some v \<Rightarrow> v)"
| "mapping_get (PDict kvs) key = (case map_of kvs (PStr key) of None \<Rightarrow> PNone | Some v \<Rightarrow> v)"
| "mapping_get _ key = PNone"

fun hashable :: "'f py_value \<Rightarrow> bool" where
  "hashable (PTuple xs) = list_all hashable xs"
| "hashable (PList _) = False"
| "hashable (PDict _) = False"
| "hashable (PProxy _) = False"
| "hashable PSet = False"
| "hashable _ = True"

definition ALLOWED_EXECUTION_MODELS :: "string list" where
  "ALLOWED_EXECUTION_MODELS = [''fast-research'', ''runtime-parity'']"

definition check_model :: "'f py_value \<Rightarrow> unit result" where
  \<comment> \<open>\<open>model not in ALLOWED_EXECUTION_MODELS\<close>, a lookup in a set\<close>
  "check_model m =
     (if \<not> hashable m then Inl (TypeError ''unhashable type'')
      else case is_str m of
        Some s \<Rightarrow> raise_if (\<not> List.member ALLOWED_EXECUTION_MODELS s) (ValueError ''unknown execution model'')
      | None \<Rightarrow> Inl (ValueError ''unknown execution model''))"

definition experiment_spec :: "('f \<Rightarrow> bool) \<Rightarrow> 'f experiment_spec \<Rightarrow> 'f experiment_spec result" where
  \<comment> \<open>\<open>__post_init__\<close> on the fields as given\<close>
  "experiment_spec fin a =
     bindE (section_of fin (es_dataset a)) (\<lambda>dataset.
     bindE (section_of fin (es_strategy a)) (\<lambda>strategy.
     bindE (section_of fin (es_risk a)) (\<lambda>risk.
     bindE (section_of fin (es_execution a)) (\<lambda>execution.
     bindE (section_of fin (es_fees a)) (\<lambda>fees.
     bindE (section_of fin (es_slippage a)) (\<lambda>slippage.
     bindE (section_of fin (es_kernel_identity a)) (\<lambda>kernel.
     bindE (raise_if (es_seed a \<noteq> PNone \<and> is_str (es_seed a) = None) (TypeError ''seed must be str | None'')) (\<lambda>_.
     bindE (if es_walk_forward a \<noteq> PNone then section_of fin (es_walk_forward a) else Inr PNone) (\<lambda>walk_forward.
     bindE (raise_if (\<not> non_empty_str (es_timing_model a)) (ValueError ''timing_model must be a non-empty str'')) (\<lambda>_.
     bindE (raise_if (\<not> non_empty_str (es_holdout_protocol a)) (ValueError ''holdout_protocol must be a non-empty str'')) (\<lambda>_.
     bindE (check_model (mapping_get execution ''model'')) (\<lambda>_.
     bindE (raise_if (\<not> non_empty_str (mapping_get execution ''version'')) (ValueError ''execution.version must be a non-empty str'')) (\<lambda>_.
     Inr (a\<lparr>es_dataset := dataset, es_strategy := strategy, es_risk := risk, es_execution := execution, es_fees := fees,
           es_slippage := slippage, es_kernel_identity := kernel, es_walk_forward := walk_forward\<rparr>))))))))))))))"

definition spec_to_dict :: "'f experiment_spec \<Rightarrow> 'f py_value" where
  "spec_to_dict a = PDict
     [(PStr ''dataset'', es_dataset a), (PStr ''strategy'', es_strategy a), (PStr ''risk'', es_risk a),
      (PStr ''execution'', es_execution a), (PStr ''fees'', es_fees a), (PStr ''slippage'', es_slippage a),
      (PStr ''timing_model'', es_timing_model a), (PStr ''seed'', es_seed a), (PStr ''walk_forward'', es_walk_forward a),
      (PStr ''holdout_protocol'', es_holdout_protocol a), (PStr ''kernel_identity'', es_kernel_identity a)]"

definition spec_id :: "(string \<Rightarrow> string) \<Rightarrow> ('f \<Rightarrow> bool) \<Rightarrow> ('f \<Rightarrow> string) \<Rightarrow> 'f experiment_spec \<Rightarrow> string result" where
  "spec_id sha256 fin frepr a = canonical_hash sha256 fin frepr (spec_to_dict a)"

section \<open>Runs\<close>

record experiment_run =
  rn_experiment_spec_id :: string
  rn_run_id :: string
  rn_created_at :: string
  rn_application_git_sha :: string
  rn_status :: string
  rn_event_trace_hash :: "string option"
  rn_metrics_hash :: "string option"

definition ALLOWED_RUN_STATUS :: "string list" where
  "ALLOWED_RUN_STATUS = [''ok'', ''failed'']"

definition check_hash :: "string \<Rightarrow> string option \<Rightarrow> unit result" where
  "check_hash name value =
     (case value of None \<Rightarrow> Inr () | Some s \<Rightarrow> raise_if (\<not> is_hex64 s) (ValueError (name @ '' must be SHA-256 hex or None'')))"

definition experiment_run :: "(string \<Rightarrow> bool) \<Rightarrow> experiment_run \<Rightarrow> experiment_run result" where
  \<comment> \<open>\<open>__post_init__\<close>; \<open>is_iso\<close> tells what \<open>datetime.fromisoformat\<close> reads\<close>
  "experiment_run is_iso r =
     bindE (raise_if (\<not> is_hex64 (rn_experiment_spec_id r)) (ValueError ''experiment_spec_id must be SHA-256 hex'')) (\<lambda>_.
     bindE (raise_if (is_blank (rn_run_id r)) (ValueError ''run_id must be a non-empty str'')) (\<lambda>_.
     bindE (raise_if (\<not> is_iso (rn_created_at r)) (ValueError ''created_at must be ISO-8601'')) (\<lambda>_.
     bindE (raise_if (rn_application_git_sha r = []) (ValueError ''application_git_sha must be a non-empty str'')) (\<lambda>_.
     bindE (raise_if (\<not> List.member ALLOWED_RUN_STATUS (rn_status r)) (ValueError ''unknown status'')) (\<lambda>_.
     bindE (check_hash ''event_trace_hash'' (rn_event_trace_hash r)) (\<lambda>_.
     bindE (check_hash ''metrics_hash'' (rn_metrics_hash r)) (\<lambda>_. Inr r)))))))"

record reproducibility_report =
  rr_same_spec_id :: bool
  rr_event_trace_hash_match :: bool
  rr_metrics_hash_match :: bool
  rr_reproducible :: bool

definition compare_runs :: "experiment_run \<Rightarrow> experiment_run \<Rightarrow> reproducibility_report" where
  "compare_runs a b =
     (let same = rn_experiment_spec_id a = rn_experiment_spec_id b;
          trace = rn_event_trace_hash a \<noteq> None \<and> rn_event_trace_hash a = rn_event_trace_hash b;
          metrics = rn_metrics_hash a \<noteq> None \<and> rn_metrics_hash a = rn_metrics_hash b
      in \<lparr>rr_same_spec_id = same, rr_event_trace_hash_match = trace, rr_metrics_hash_match = metrics,
          rr_reproducible = same \<and> trace \<and> metrics\<rparr>)"

section \<open>Strategy identity\<close>

record 'f strategy_definition =
  sd_strategy_id :: "'f py_value"
  sd_strategy_version :: "'f py_value"
  sd_strategy_api_version :: "'f py_value"
  sd_kind :: string
  sd_normalized_config :: "'f py_value"
  sd_sources :: "'f py_value"
  sd_prompts :: "'f py_value"
  sd_model_artifact :: "'f py_value"
  sd_feature_pipeline :: "'f py_value"

fun check_source :: "'f py_value \<Rightarrow> string result" where
  "check_source v =
     (case is_str v of
        None \<Rightarrow> Inl (TypeError ''source entry must be str'')
      | Some s \<Rightarrow> if s = [] then Inl (ValueError ''source entry must be non-empty'') else Inr s)"

definition check_sources :: "'f py_value \<Rightarrow> string list result" where
  "check_sources v =
     (case v of
        PTuple xs \<Rightarrow>
          if xs = [] then Inl (ValueError ''sources must declare at least one module'')
          else bindE (mapE check_source xs) (\<lambda>ss. if distinct ss then Inr ss else Inl (ValueError ''duplicate sources''))
      | _ \<Rightarrow> Inl (TypeError ''sources must be tuple[str, ...]''))"

fun mapping_items :: "'f py_value \<Rightarrow> ('f py_value \<times> 'f py_value) list option" where
  "mapping_items (PDict kvs) = Some kvs"
| "mapping_items (PProxy kvs) = Some kvs"
| "mapping_items _ = None"

definition check_kind :: "'f strategy_definition \<Rightarrow> unit result" where
  "check_kind d =
     (if sd_kind d = ''deterministic'' then
        bindE (raise_if (sd_prompts d \<noteq> PNone) (ValueError ''prompts must be None for deterministic kind'')) (\<lambda>_.
        bindE (raise_if (sd_model_artifact d \<noteq> PNone) (ValueError ''model_artifact must be None for deterministic kind'')) (\<lambda>_.
        raise_if (sd_feature_pipeline d \<noteq> PNone) (ValueError ''feature_pipeline must be None for deterministic kind'')))
      else if sd_kind d = ''ml'' then
        bindE (raise_if (\<not> non_empty_str (sd_model_artifact d)) (ValueError ''ml kind requires non-empty model_artifact str'')) (\<lambda>_.
        bindE (raise_if (sd_prompts d \<noteq> PNone) (ValueError ''prompts must be None for ml kind'')) (\<lambda>_.
        raise_if (sd_feature_pipeline d \<noteq> PNone \<and> \<not> non_empty_str (sd_feature_pipeline d)) (ValueError ''feature_pipeline must be str | None'')))
      else
        (case mapping_items (sd_prompts d) of
           None \<Rightarrow> Inl (ValueError ''llm-assisted kind requires non-empty prompts mapping'')
         | Some kvs \<Rightarrow>
             if kvs = [] then Inl (ValueError ''llm-assisted kind requires non-empty prompts mapping'')
             else raise_if (\<not> list_all (\<lambda>(k, v). non_empty_str k \<and> non_empty_str v) kvs)
               (ValueError ''prompt entries must be non-empty str pairs'')))"

definition strategy_definition :: "'f strategy_definition \<Rightarrow> 'f strategy_definition result" where
  \<comment> \<open>\<open>__post_init__\<close>\<close>
  "strategy_definition d =
     bindE (raise_if (\<not> non_empty_str (sd_strategy_id d)) (ValueError ''strategy_id must be a non-empty str'')) (\<lambda>_.
     bindE (raise_if (\<not> non_empty_str (sd_strategy_version d)) (ValueError ''strategy_version must be a non-empty str'')) (\<lambda>_.
     bindE (raise_if (case is_int (sd_strategy_api_version d) of None \<Rightarrow> True | Some i \<Rightarrow> i < 1)
              (ValueError ''strategy_api_version must be a positive int'')) (\<lambda>_.
     bindE (raise_if (\<not> List.member [''deterministic'', ''ml'', ''llm-assisted''] (sd_kind d)) (ValueError ''unknown strategy kind'')) (\<lambda>_.
     bindE (check_sources (sd_sources d)) (\<lambda>_.
     bindE (raise_if (\<not> is_mapping (sd_normalized_config d)) (TypeError ''normalized_config must be a mapping'')) (\<lambda>_.
     let d' = d\<lparr>sd_normalized_config := freeze (sd_normalized_config d),
               sd_prompts := (if sd_prompts d = PNone then PNone else freeze (sd_prompts d))\<rparr>
     in bindE (check_kind d') (\<lambda>_. Inr d')))))))"

type_synonym resolver = "string \<Rightarrow> string result"
  \<comment> \<open>\<open>get_source\<close>\<close>

fun source_names :: "'f py_value \<Rightarrow> string list" where
  "source_names (PTuple xs) = map (\<lambda>v. case is_str v of Some s \<Rightarrow> s | None \<Rightarrow> []) xs"
| "source_names _ = []"

definition dict_resolver :: "(string \<times> string) list \<Rightarrow> resolver" where
  "dict_resolver sources name =
     (case map_of sources name of None \<Rightarrow> Inl (ValueError ''unknown strategy module'') | Some s \<Rightarrow> Inr s)"

definition content_hashes :: "(string \<Rightarrow> string) \<Rightarrow> 'f strategy_definition \<Rightarrow> resolver \<Rightarrow> (string \<times> string) list result" where
  "content_hashes sha256 d get_source =
     mapE (\<lambda>name. bindE (get_source name) (\<lambda>text. Inr (name, sha256 text))) (sort (source_names (sd_sources d)))"

definition hash_text :: "(string \<Rightarrow> string) \<Rightarrow> 'f py_value \<Rightarrow> 'f py_value" where
  \<comment> \<open>the hash of a text that may be None\<close>
  "hash_text sha256 v = (case is_str v of None \<Rightarrow> PNone | Some s \<Rightarrow> PStr (sha256 s))"

definition extras_payload :: "(string \<Rightarrow> string) \<Rightarrow> 'f strategy_definition \<Rightarrow> 'f py_value" where
  "extras_payload sha256 d =
     (let extras = (\<lambda>p m f. PDict [(PStr ''prompts'', p), (PStr ''model_artifact'', m), (PStr ''feature_pipeline'', f)])
      in if sd_kind d = ''deterministic'' then extras PNone PNone PNone
         else if sd_kind d = ''ml'' then
           extras PNone (hash_text sha256 (sd_model_artifact d)) (hash_text sha256 (sd_feature_pipeline d))
         else extras
           (case mapping_items (sd_prompts d) of
              None \<Rightarrow> PNone
            | Some kvs \<Rightarrow> PDict (map (\<lambda>(k, v). (k, hash_text sha256 v)) kvs))
           (hash_text sha256 (sd_model_artifact d)) (hash_text sha256 (sd_feature_pipeline d)))"

definition implementation_fingerprint ::
  "(string \<Rightarrow> string) \<Rightarrow> ('f \<Rightarrow> bool) \<Rightarrow> ('f \<Rightarrow> string) \<Rightarrow> 'f strategy_definition \<Rightarrow> resolver \<Rightarrow> string result" where
  "implementation_fingerprint sha256 fin frepr d get_source =
     bindE (content_hashes sha256 d get_source) (\<lambda>hashes.
       canonical_hash sha256 fin frepr
         (PDict [(PStr ''content'', PDict (map (\<lambda>(n, h). (PStr n, PStr h)) hashes)), (PStr ''extras'', extras_payload sha256 d)]))"

definition strategy_artifact_identity ::
  "(string \<Rightarrow> string) \<Rightarrow> ('f \<Rightarrow> bool) \<Rightarrow> ('f \<Rightarrow> string) \<Rightarrow> 'f strategy_definition \<Rightarrow> resolver \<Rightarrow> string result" where
  "strategy_artifact_identity sha256 fin frepr d get_source =
     bindE (implementation_fingerprint sha256 fin frepr d get_source) (\<lambda>fingerprint.
       canonical_hash sha256 fin frepr
         (PDict [(PStr ''strategy_id'', sd_strategy_id d), (PStr ''strategy_version'', sd_strategy_version d),
           (PStr ''strategy_api_version'', sd_strategy_api_version d), (PStr ''normalized_config'', sd_normalized_config d),
           (PStr ''implementation_fingerprint'', PStr fingerprint)]))"

section \<open>Kernel identity\<close>

definition KERNEL_BUNDLE_VERSION :: int where "KERNEL_BUNDLE_VERSION = 1"

definition KERNEL_BUNDLE_V1_MODULES :: "string list" where
  "KERNEL_BUNDLE_V1_MODULES =
     [''application.services.paper_runner'', ''application.services.paper_engine'', ''application.ports.paper_trading'',
      ''domain.market.candle'', ''domain.market.stream'', ''domain.market.indicators'', ''domain.market.regime'',
      ''domain.risk.engine'', ''domain.risk.config'', ''domain.risk.guards'', ''domain.risk.sizing'', ''domain.risk.stops'',
      ''domain.portfolio.portfolio'', ''domain.trading.decision'', ''domain.trading.signal'', ''domain.trading.fill'',
      ''domain.trading.fees'', ''domain.trading.slippage'']"

definition strategy_contract_hash :: "(string \<Rightarrow> string) \<Rightarrow> string \<Rightarrow> string result" where
  "strategy_contract_hash sha256 source_text =
     (if is_blank source_text then Inl (ValueError ''source_text must be a non-empty str'') else Inr (sha256 source_text))"

definition kernel_fingerprint ::
  "(string \<Rightarrow> string) \<Rightarrow> ('f \<Rightarrow> bool) \<Rightarrow> ('f \<Rightarrow> string) \<Rightarrow> resolver \<Rightarrow> string \<Rightarrow> string result" where
  "kernel_fingerprint sha256 fin frepr get_source contract_source =
     bindE (mapE (\<lambda>name. bindE (get_source name) (\<lambda>text. Inr (PStr name, PStr (sha256 text)))) KERNEL_BUNDLE_V1_MODULES) (\<lambda>modules.
     bindE (strategy_contract_hash sha256 contract_source) (\<lambda>contract.
       canonical_hash sha256 fin frepr
         (PDict [(PStr ''kernel_bundle_version'', PInt KERNEL_BUNDLE_VERSION), (PStr ''modules'', PDict modules),
           (PStr ''strategy_contract'', PStr contract)])))"

record kernel_identity =
  ki_kernel_bundle_version :: int
  ki_kernel_fingerprint :: string

definition kernel_identity :: "int \<Rightarrow> string \<Rightarrow> kernel_identity result" where
  "kernel_identity version fingerprint =
     bindE (raise_if (version < 1) (ValueError ''kernel_bundle_version must be a positive int'')) (\<lambda>_.
     bindE (raise_if (\<not> is_hex64 fingerprint) (ValueError ''kernel_fingerprint must be SHA-256 hex'')) (\<lambda>_.
       Inr \<lparr>ki_kernel_bundle_version = version, ki_kernel_fingerprint = fingerprint\<rparr>))"

definition make_kernel_identity ::
  "(string \<Rightarrow> string) \<Rightarrow> ('f \<Rightarrow> bool) \<Rightarrow> ('f \<Rightarrow> string) \<Rightarrow> resolver \<Rightarrow> string \<Rightarrow> kernel_identity result" where
  "make_kernel_identity sha256 fin frepr get_source contract_source =
     bindE (kernel_fingerprint sha256 fin frepr get_source contract_source) (\<lambda>fp. kernel_identity KERNEL_BUNDLE_VERSION fp)"

section \<open>An id identifies the experiment\<close>

lemma sort_key_unique:
  assumes "distinct (map fst xs)" "map fst xs = map fst ys" "sort_key fst xs = sort_key fst ys"
  shows "xs = ys"
proof -
  have "set xs = set ys" using arg_cong[OF assms(3), of set] by simp
  then have m: "map_of xs = map_of ys" using assms(1,2) map_of_inject_set by metis
  have rebuild: "zs = map (\<lambda>k. (k, the (map_of zs k))) (map fst zs)" if "distinct (map fst zs)" for zs :: "('a \<times> 'b) list"
  proof (intro nth_equalityI)
    fix i assume i: "i < length zs"
    then have "map_of zs (fst (zs ! i)) = Some (snd (zs ! i))" using that by (intro map_of_is_SomeI) simp_all
    then show "zs ! i = map (\<lambda>k. (k, the (map_of zs k))) (map fst zs) ! i" using i by simp
  qed simp
  show ?thesis using rebuild[of xs] rebuild[of ys] assms(1,2) m by metis
qed

lemma mapE_map_Inr: "mapE f xs = Inr ys \<Longrightarrow> ys = map (\<lambda>x. projr (f x)) xs"
  by (induction xs arbitrary: ys) (auto simp: bindE_eq_Inr)

definition dict_of :: "(string \<times> 'f py_value) list \<Rightarrow> 'f py_value" where
  "dict_of kvs = PDict (map (\<lambda>(k, v). (PStr k, v)) kvs)"

lemma normalize_dict_of:
  "normalize fin (dict_of kvs) = Inr j \<longleftrightarrow>
     (\<forall>(k, v) \<in> set kvs. \<exists>i. normalize fin v = Inr i) \<and> j = JDict (map (\<lambda>(k, v). (k, projr (normalize fin v))) kvs)"
proof -
  let ?f = "\<lambda>(k, v). bindE (str_key k) (\<lambda>s. bindE (normalize fin v) (\<lambda>j. Inr (s, j)))"
  have "mapE ?f (map (\<lambda>(k, v). (PStr k, v)) kvs) = Inr js \<longleftrightarrow>
      (\<forall>(k, v) \<in> set kvs. \<exists>i. normalize fin v = Inr i) \<and> js = map (\<lambda>(k, v). (k, projr (normalize fin v))) kvs" for js
    by (induction kvs arbitrary: js) (fastforce simp: bindE_eq_Inr)+
  then show ?thesis unfolding dict_of_def normalize.simps bindE_eq_Inr by blast
qed

lemma canonical_dict:
  "canonical_value fin (dict_of kvs) = Inr x \<longleftrightarrow>
     (\<forall>(k, v) \<in> set kvs. \<exists>i. normalize fin v = Inr i) \<and>
     x = JDict (sort_key fst (map (\<lambda>(k, v). (k, canon (projr (normalize fin v)))) kvs))"
proof -
  have "canon (JDict (map (\<lambda>(k, v). (k, projr (normalize fin v))) kvs)) =
      JDict (sort_key fst (map (\<lambda>(k, v). (k, canon (projr (normalize fin v)))) kvs))"
    by (simp add: case_prod_unfold comp_def)
  then show ?thesis unfolding canonical_value_def bindE_eq_Inr normalize_dict_of by auto
qed

definition canon_pair :: "('f \<Rightarrow> bool) \<Rightarrow> string \<times> 'f py_value \<Rightarrow> string \<times> 'f json" where
  "canon_pair fin = (\<lambda>(k, v). (k, canon (projr (normalize fin v))))"

lemma canon_pair_same:
  assumes "fst p = fst q" "\<exists>i. normalize fin (snd p) = Inr i" "\<exists>i. normalize fin (snd q) = Inr i"
  shows "canon_pair fin p = canon_pair fin q \<longleftrightarrow> canonical_value fin (snd p) = canonical_value fin (snd q)"
  using assms by (auto simp: canon_pair_def canonical_value_def case_prod_unfold)

lemma canon_pairs_same:
  "map fst kvs = map fst kws \<Longrightarrow> \<forall>(k, v) \<in> set kvs \<union> set kws. \<exists>i. normalize fin v = Inr i \<Longrightarrow>
   map (canon_pair fin) kvs = map (canon_pair fin) kws \<longleftrightarrow>
     list_all2 (\<lambda>p q. canonical_value fin (snd p) = canonical_value fin (snd q)) kvs kws"
proof (induction kvs arbitrary: kws)
  case (Cons p kvs)
  then obtain q kws' where "kws = q # kws'" by (cases kws) auto
  then show ?case using Cons canon_pair_same[of p q fin] by auto
qed simp

lemma dict_same:
  assumes "canonical_value fin (dict_of kvs) = Inr x" "canonical_value fin (dict_of kws) = Inr y"
    and "map fst kvs = map fst kws" "distinct (map fst kvs)"
  shows "x = y \<longleftrightarrow> list_all2 (\<lambda>p q. canonical_value fin (snd p) = canonical_value fin (snd q)) kvs kws"
proof -
  note cx = iffD1[OF canonical_dict assms(1)] and cy = iffD1[OF canonical_dict assms(2)]
  note kvs = conjunct1[OF cx] conjunct2[OF cx, folded canon_pair_def]
  note kws = conjunct1[OF cy] conjunct2[OF cy, folded canon_pair_def]
  have f: "map fst (map (canon_pair fin) zs) = map fst zs" for zs by (simp add: canon_pair_def case_prod_unfold)
  have "map fst (map (canon_pair fin) kvs) = map fst (map (canon_pair fin) kws)"
    "distinct (map fst (map (canon_pair fin) kvs))"
    unfolding f using assms(3,4) by auto
  note unique = sort_key_unique[OF this(2,1)]
  have "x = y \<longleftrightarrow> map (canon_pair fin) kvs = map (canon_pair fin) kws"
    unfolding kvs(2) kws(2) json.inject using unique by (rule iffI) simp_all
  moreover have "\<forall>(k, v) \<in> set kvs \<union> set kws. \<exists>i. normalize fin v = Inr i" using kvs(1) kws(1) by blast
  ultimately show ?thesis using canon_pairs_same[OF assms(3)] by simp
qed

definition collision :: "(string \<Rightarrow> string) \<Rightarrow> bool" where
  \<comment> \<open>two texts with one hash\<close>
  "collision sha256 \<longleftrightarrow> (\<exists>s t. s \<noteq> t \<and> sha256 s = sha256 t)"

lemma canonical_hash_same:
  assumes "repr_ok fin frepr" "canonical_hash sha256 fin frepr v = Inr i" "canonical_hash sha256 fin frepr w = Inr j"
  shows "i = j \<Longrightarrow> canonical_value fin v = canonical_value fin w \<or> collision sha256"
    and "canonical_value fin v = canonical_value fin w \<Longrightarrow> i = j"
    and "\<exists>x y. canonical_value fin v = Inr x \<and> canonical_value fin w = Inr y"
proof -
  obtain s t where s: "canonical_json fin frepr v = Inr s" "canonical_json fin frepr w = Inr t" "i = sha256 s" "j = sha256 t"
    using assms(2,3) by (auto simp: canonical_hash_def bindE_eq_Inr)
  note iff = canonical_text_iff[OF assms(1) s(1,2)]
  show "i = j \<Longrightarrow> canonical_value fin v = canonical_value fin w \<or> collision sha256"
    using iff s(3,4) by (auto simp: collision_def)
  show "canonical_value fin v = canonical_value fin w \<Longrightarrow> i = j" using iff s(3,4) by simp
  show "\<exists>x y. canonical_value fin v = Inr x \<and> canonical_value fin w = Inr y"
    using s(1,2) by (auto simp: canonical_json_def canonical_value_def bindE_eq_Inr)
qed

definition spec_items :: "'f experiment_spec \<Rightarrow> (string \<times> 'f py_value) list" where
  "spec_items a =
     [(''dataset'', es_dataset a), (''strategy'', es_strategy a), (''risk'', es_risk a), (''execution'', es_execution a),
      (''fees'', es_fees a), (''slippage'', es_slippage a), (''timing_model'', es_timing_model a), (''seed'', es_seed a),
      (''walk_forward'', es_walk_forward a), (''holdout_protocol'', es_holdout_protocol a),
      (''kernel_identity'', es_kernel_identity a)]"

lemma spec_to_dict_items: "spec_to_dict a = dict_of (spec_items a)"
  by (simp add: spec_to_dict_def dict_of_def spec_items_def)

definition spec_fields :: "('f experiment_spec \<Rightarrow> 'f py_value) list" where
  "spec_fields = [es_dataset, es_strategy, es_risk, es_execution, es_fees, es_slippage, es_timing_model, es_seed,
     es_walk_forward, es_holdout_protocol, es_kernel_identity]"

definition same_experiment :: "('f \<Rightarrow> bool) \<Rightarrow> 'f experiment_spec \<Rightarrow> 'f experiment_spec \<Rightarrow> bool" where
  \<comment> \<open>every semantic input says the same\<close>
  "same_experiment fin a b \<longleftrightarrow> (\<forall>g \<in> set spec_fields. canonical_value fin (g a) = canonical_value fin (g b))"

lemma spec_items_keys: "map fst (spec_items a) = map fst (spec_items b)" "distinct (map fst (spec_items a))"
  by (simp_all add: spec_items_def)

lemma spec_items_same:
  "list_all2 (\<lambda>p q. canonical_value fin (snd p) = canonical_value fin (snd q)) (spec_items a) (spec_items b) \<longleftrightarrow>
   same_experiment fin a b"
  by (simp add: spec_items_def same_experiment_def spec_fields_def)

lemma section_value: "section_of fin v = Inr w \<Longrightarrow> canonical_value fin w = canonical_value fin v"
  using section_facts(2)[of fin v w] by (simp add: canonical_value_def)

lemma experiment_spec_values: "experiment_spec fin a = Inr A \<Longrightarrow> same_experiment fin A a"
  unfolding same_experiment_def spec_fields_def experiment_spec_def bindE_eq_Inr
  by (elim exE conjE) (auto simp: section_value split: if_splits)

lemma same_experiment_cong:
  "same_experiment fin A a \<Longrightarrow> same_experiment fin B b \<Longrightarrow> same_experiment fin A B \<longleftrightarrow> same_experiment fin a b"
  by (simp add: same_experiment_def)

text \<open>C31. The id of an experiment stands for its inputs: definitions whose semantic inputs say the
  same, in whatever key order and in lists or tuples, have the same id, and definitions with the
  same id have the same inputs unless two texts with one SHA-256 hash have been found.\<close>

theorem spec_id_identifies_experiment:
  assumes "repr_ok fin frepr" "experiment_spec fin a = Inr A" "experiment_spec fin b = Inr B"
    and "spec_id sha256 fin frepr A = Inr i" "spec_id sha256 fin frepr B = Inr j"
  shows "(same_experiment fin a b \<longrightarrow> i = j) \<and> (i = j \<longrightarrow> same_experiment fin a b \<or> collision sha256)"
proof -
  note h = assms(4,5)[unfolded spec_id_def spec_to_dict_items]
  note same = canonical_hash_same[OF assms(1) h]
  obtain x y where xy: "canonical_value fin (dict_of (spec_items A)) = Inr x" "canonical_value fin (dict_of (spec_items B)) = Inr y"
    using same(3) by blast
  have "x = y \<longleftrightarrow> same_experiment fin A B"
    unfolding dict_same[OF xy spec_items_keys] by (rule spec_items_same)
  then have "x = y \<longleftrightarrow> same_experiment fin a b"
    using same_experiment_cong[OF experiment_spec_values[OF assms(2)] experiment_spec_values[OF assms(3)]] by simp
  then show ?thesis using same(1,2) xy by auto
qed

definition example_spec :: "nat py_value \<Rightarrow> nat experiment_spec" where
  "example_spec dataset =
     \<lparr>es_dataset = dataset, es_strategy = PDict [], es_risk = PDict [],
      es_execution = PDict [(PStr ''model'', PStr ''fast-research''), (PStr ''version'', PStr ''1'')], es_fees = PDict [],
      es_slippage = PDict [], es_timing_model = PStr ''close'', es_holdout_protocol = PStr ''frozen'',
      es_kernel_identity = PDict [], es_seed = PNone, es_walk_forward = PNone\<rparr>"

theorem spec_id_identifies_experiment_witness:
  "\<exists>i. (\<exists>A. experiment_spec (\<lambda>_. True) (example_spec (PDict [(PStr ''a'', PInt 1), (PStr ''b'', PInt 2)])) = Inr A \<and>
        spec_id id (\<lambda>_. True) example_repr A = Inr i) \<and>
      (\<exists>B. experiment_spec (\<lambda>_. True) (example_spec (PDict [(PStr ''b'', PInt 2), (PStr ''a'', PInt 1)])) = Inr B \<and>
        spec_id id (\<lambda>_. True) example_repr B = Inr i)"
proof -
  let ?a = "example_spec (PDict [(PStr ''a'', PInt 1), (PStr ''b'', PInt 2)])"
  let ?b = "example_spec (PDict [(PStr ''b'', PInt 2), (PStr ''a'', PInt 1)])"
  obtain A i where A: "experiment_spec (\<lambda>_. True) ?a = Inr A" "spec_id id (\<lambda>_. True) example_repr A = Inr i"
    by (simp add: experiment_spec_def example_spec_def section_of_def check_model_def raise_if_def non_empty_str_def
      ALLOWED_EXECUTION_MODELS_def spec_id_def spec_to_dict_def canonical_hash_def canonical_json_def)
  obtain B j where B: "experiment_spec (\<lambda>_. True) ?b = Inr B" "spec_id id (\<lambda>_. True) example_repr B = Inr j"
    by (simp add: experiment_spec_def example_spec_def section_of_def check_model_def raise_if_def non_empty_str_def
      ALLOWED_EXECUTION_MODELS_def spec_id_def spec_to_dict_def canonical_hash_def canonical_json_def)
  have "''a'' < ''b''" by code_simp
  then have "same_experiment (\<lambda>_. True) ?a ?b"
    by (simp add: same_experiment_def spec_fields_def example_spec_def canonical_value_def insort_key.simps)
  then have "i = j" using spec_id_identifies_experiment[OF example_repr_ok A(1) B(1) A(2) B(2)] by blast
  then show ?thesis using A B by blast
qed

section \<open>A fingerprint identifies the sources\<close>

lemma content_hashes_Inr:
  "content_hashes sha256 d get_source = Inr hs \<Longrightarrow>
   (\<forall>n \<in> set (source_names (sd_sources d)). \<exists>t. get_source n = Inr t) \<and>
   hs = map (\<lambda>n. (n, sha256 (projr (get_source n)))) (sort (source_names (sd_sources d)))"
proof -
  have "mapE (\<lambda>n. bindE (get_source n) (\<lambda>t. Inr (n, sha256 t))) ns = Inr hs \<Longrightarrow>
      (\<forall>n \<in> set ns. \<exists>t. get_source n = Inr t) \<and> hs = map (\<lambda>n. (n, sha256 (projr (get_source n)))) ns" for ns
    by (induction ns arbitrary: hs) (fastforce simp: bindE_eq_Inr)+
  then show "content_hashes sha256 d get_source = Inr hs \<Longrightarrow> ?thesis" unfolding content_hashes_def by fastforce
qed

lemma hashes_value:
  "canonical_value fin (dict_of (map (\<lambda>(n, h). (n, PStr h)) hs)) = Inr (JDict (sort_key fst (map (\<lambda>(n, h). (n, JStr h)) hs)))"
  unfolding canonical_dict by (auto simp: case_prod_unfold comp_def)

lemma same_hashes:
  fixes get_source :: resolver
  assumes "\<forall>n \<in> N. \<exists>t. get_source n = Inr t" "\<forall>n \<in> N'. \<exists>t. get_source' n = Inr t" "\<not> collision sha256"
    and eq: "(\<lambda>n. (n, sha256 (projr (get_source n)))) ` N = (\<lambda>n. (n, sha256 (projr (get_source' n)))) ` N'"
  shows "N = N' \<and> (\<forall>n \<in> N. get_source n = get_source' n)"
proof -
  have names: "N = N'" using arg_cong[OF eq, of "image fst"] by (simp only: image_image fst_conv image_ident)
  have "get_source n = get_source' n" if n: "n \<in> N" for n
  proof -
    have "sha256 (projr (get_source n)) = sha256 (projr (get_source' n))" using eq n by auto
    then have "projr (get_source n) = projr (get_source' n)" using assms(3) by (auto simp: collision_def)
    moreover obtain t t' where "get_source n = Inr t" "get_source' n = Inr t'" using assms(1,2) n names by blast
    ultimately show ?thesis by simp
  qed
  then show ?thesis using names by blast
qed

lemma same_json_pairs:
  assumes "sort_key fst (map (\<lambda>(n, h). (n, JStr h)) hs) = (sort_key fst (map (\<lambda>(n, h). (n, JStr h)) hs') :: (string \<times> 'f json) list)"
  shows "set hs = set hs'"
proof -
  have "(\<lambda>(n, h). (n, JStr h :: 'f json)) ` set hs = (\<lambda>(n, h). (n, JStr h)) ` set hs'"
    using arg_cong[OF assms, of set] by simp
  moreover have "inj (\<lambda>(n :: string, h). (n, JStr h :: 'f json))" by (auto simp: inj_def)
  ultimately show ?thesis by (simp add: inj_image_eq_iff)
qed

definition fingerprint_payload :: "(string \<times> string) list \<Rightarrow> 'f py_value \<Rightarrow> 'f py_value" where
  "fingerprint_payload hs e = dict_of [(''content'', dict_of (map (\<lambda>(n, h). (n, PStr h)) hs)), (''extras'', e)]"

lemma fingerprint_cases:
  assumes "implementation_fingerprint sha256 fin frepr d get_source = Inr i"
  obtains hs where "content_hashes sha256 d get_source = Inr hs"
    "canonical_hash sha256 fin frepr (fingerprint_payload hs (extras_payload sha256 d)) = Inr i"
proof -
  have "PDict [(PStr ''content'', PDict (map (\<lambda>(n, h). (PStr n, PStr h)) hs)), (PStr ''extras'', extras_payload sha256 d)] =
      fingerprint_payload hs (extras_payload sha256 d)" for hs
    by (simp add: fingerprint_payload_def dict_of_def case_prod_unfold comp_def)
  then show thesis using assms that unfolding implementation_fingerprint_def bindE_eq_Inr by auto
qed

lemma payload_contents:
  assumes "canonical_value fin (fingerprint_payload hs e) = Inr x" "canonical_value fin (fingerprint_payload hs' e') = Inr x"
  shows "set hs = set hs'"
proof -
  have "canonical_value fin (dict_of (map (\<lambda>(n, h). (n, PStr h)) hs)) = canonical_value fin (dict_of (map (\<lambda>(n, h). (n, PStr h)) hs'))"
    using dict_same[OF assms[unfolded fingerprint_payload_def]] by simp
  then show ?thesis unfolding hashes_value by (intro same_json_pairs) simp
qed

text \<open>The fingerprint of an implementation stands for its sources: bundles with one
  fingerprint declare the same modules with the same texts, unless a SHA-256 collision has been
  found, and the order in which the modules are declared, the identifier, the version and the
  configuration of the strategy do not enter it.\<close>

theorem fingerprint_identifies_sources:
  assumes "repr_ok fin frepr"
    and "implementation_fingerprint sha256 fin frepr d get_source = Inr i"
    and "implementation_fingerprint sha256 fin frepr d' get_source' = Inr j"
  shows "(i = j \<longrightarrow> set (source_names (sd_sources d)) = set (source_names (sd_sources d')) \<and>
           (\<forall>n \<in> set (source_names (sd_sources d)). get_source n = get_source' n) \<or> collision sha256) \<and>
    (mset (source_names (sd_sources d)) = mset (source_names (sd_sources d')) \<and>
       (\<forall>n \<in> set (source_names (sd_sources d)). get_source n = get_source' n) \<and>
       extras_payload sha256 d = extras_payload sha256 d' \<longrightarrow> i = j)"
proof -
  let ?names = "source_names (sd_sources d)" and ?names' = "source_names (sd_sources d')"
  obtain hs where hs: "content_hashes sha256 d get_source = Inr hs"
      "canonical_hash sha256 fin frepr (fingerprint_payload hs (extras_payload sha256 d)) = Inr i"
    using fingerprint_cases[OF assms(2)] .
  obtain hs' where hs': "content_hashes sha256 d' get_source' = Inr hs'"
      "canonical_hash sha256 fin frepr (fingerprint_payload hs' (extras_payload sha256 d')) = Inr j"
    using fingerprint_cases[OF assms(3)] .
  note same = canonical_hash_same[OF assms(1) hs(2) hs'(2)]
    and src = content_hashes_Inr[OF hs(1)] and src' = content_hashes_Inr[OF hs'(1)]
  have "set ?names = set ?names' \<and> (\<forall>n \<in> set ?names. get_source n = get_source' n)"
    if "i = j" "\<not> collision sha256"
  proof -
    have "set hs = set hs'" using same(1)[OF that(1)] same(3) that(2) payload_contents by metis
    then show ?thesis using src src' by (intro same_hashes[OF _ _ that(2)]) simp_all
  qed
  moreover have "i = j" if m: "mset ?names = mset ?names'" "\<forall>n \<in> set ?names. get_source n = get_source' n"
      "extras_payload sha256 d = extras_payload sha256 d'"
  proof -
    have "sort ?names = sort ?names'" using m(1) properties_for_sort[of "sort ?names'" ?names] by simp
    then have "hs = hs'" using src src' m(2) by (simp cong: map_cong) (metis set_mset_mset set_sort)
    then show ?thesis using hs(2) hs'(2) m(3) by simp
  qed
  ultimately show ?thesis by blast
qed

definition example_strategy_definition :: "string list \<Rightarrow> nat strategy_definition" where
  "example_strategy_definition names =
     \<lparr>sd_strategy_id = PStr ''s'', sd_strategy_version = PStr ''1'', sd_strategy_api_version = PInt 1,
      sd_kind = ''deterministic'', sd_normalized_config = PDict [], sd_sources = PTuple (map PStr names),
      sd_prompts = PNone, sd_model_artifact = PNone, sd_feature_pipeline = PNone\<rparr>"

theorem fingerprint_identifies_sources_witness:
  "\<exists>i. implementation_fingerprint id (\<lambda>_. True) example_repr (example_strategy_definition [''a'', ''b'']) Inr = Inr i \<and>
       implementation_fingerprint id (\<lambda>_. True) example_repr (example_strategy_definition [''b'', ''a'']) Inr = Inr i"
proof -
  let ?d = "example_strategy_definition [''a'', ''b'']" and ?d' = "example_strategy_definition [''b'', ''a'']"
  have "''a'' < ''b''" by code_simp
  then obtain i where i: "implementation_fingerprint id (\<lambda>_. True) example_repr ?d Inr = Inr i"
    by (simp add: implementation_fingerprint_def content_hashes_def example_strategy_definition_def extras_payload_def
      canonical_hash_def canonical_json_def)
  from \<open>''a'' < ''b''\<close> obtain j where j: "implementation_fingerprint id (\<lambda>_. True) example_repr ?d' Inr = Inr j"
    by (simp add: implementation_fingerprint_def content_hashes_def example_strategy_definition_def extras_payload_def
      canonical_hash_def canonical_json_def)
  have "i = j"
    using fingerprint_identifies_sources[OF example_repr_ok i j]
    by (simp add: example_strategy_definition_def extras_payload_def)
  then show ?thesis using i j by blast
qed

end
