(* ===== verification/LabStrategies.thy ===== *)
theory LabStrategies
  imports Strategy Holdout Experiment
begin

text \<open>
  The strategies of the lab (\<open>lab/strategies/\<close>): two BTC gates in front of the EMA/RSI baseline,
  the Donchian breakout and the Bollinger mean reversion.  Each is built on a whole candle
  sequence and computes its series beforehand, then answers candle by candle; the results say
  that the preloading leaks nothing, and that a gate only turns BUY into HOLD.
\<close>

section \<open>What the preloaded strategies share\<close>

definition next_candle :: "candle list \<Rightarrow> nat \<Rightarrow> candle \<Rightarrow> string \<Rightarrow> string \<Rightarrow> unit result" where
  \<comment> \<open>the checks \<open>on_candle\<close> starts with, and their messages\<close>
  "next_candle cs i c exhausted mismatch =
     (if length cs \<le> i then Inl (ValueError exhausted)
      else if c \<noteq> cs ! i then Inl (ValueError mismatch)
      else Inr ())"

definition deterministic_definition ::
  "string \<Rightarrow> string \<Rightarrow> (string \<times> pyfloat py_value) list \<Rightarrow> string list \<Rightarrow> pyfloat strategy_definition result" where
  \<comment> \<open>\<open>StrategyDefinition\<close> with its defaults\<close>
  "deterministic_definition name version config sources =
     strategy_definition \<lparr>sd_strategy_id = PStr name, sd_strategy_version = PStr version, sd_strategy_api_version = PInt 1,
       sd_kind = ''deterministic'', sd_normalized_config = PDict (map (\<lambda>(k, v). (PStr k, v)) config),
       sd_sources = PTuple (map PStr sources), sd_prompts = PNone, sd_model_artifact = PNone, sd_feature_pipeline = PNone\<rparr>"

fun check_aligned :: "(candle \<times> candle) list \<Rightarrow> unit result" where
  "check_aligned [] = Inr ()"
| "check_aligned ((eth, btc) # rest) =
     (if timestamp_ms eth \<noteq> timestamp_ms btc then Inl (ValueError ''ETH/BTC timestamp mismatch'') else check_aligned rest)"

section \<open>The BTC gates\<close>

record btc_context_config =
  bc_ema_fast :: int
  bc_ema_slow :: int
  bc_rsi_period :: int
  bc_rsi_exit :: pyfloat
  bc_btc_ema_fast :: int
  bc_btc_ema_slow :: int

record btc_regime_config = btc_context_config +
  bc_btc_slope_lookback :: int

definition default_btc_context_config :: btc_context_config where
  "default_btc_context_config = \<lparr>bc_ema_fast = 20, bc_ema_slow = 50, bc_rsi_period = 14, bc_rsi_exit = Fin 80,
     bc_btc_ema_fast = 20, bc_btc_ema_slow = 50\<rparr>"

definition default_btc_regime_config :: btc_regime_config where
  "default_btc_regime_config = \<lparr>bc_ema_fast = 20, bc_ema_slow = 50, bc_rsi_period = 14, bc_rsi_exit = Fin 80,
     bc_btc_ema_fast = 20, bc_btc_ema_slow = 50, bc_btc_slope_lookback = 4\<rparr>"

record 'g gated_strategy =
  gs_primary :: "candle list"
  gs_gate :: "'g list"
  gs_baseline :: ema_rsi_baseline
  gs_index :: nat

definition check_periods :: "'a btc_context_config_scheme \<Rightarrow> unit result" where
  "check_periods cfg =
     raise_if (min (bc_ema_fast cfg) (min (bc_ema_slow cfg) (min (bc_rsi_period cfg) (min (bc_btc_ema_fast cfg) (bc_btc_ema_slow cfg)))) \<le> 0)
       (ValueError ''indicator periods must be positive'')"

definition check_speeds :: "'a btc_context_config_scheme \<Rightarrow> unit result" where
  "check_speeds cfg =
     bindE (raise_if (bc_ema_slow cfg \<le> bc_ema_fast cfg) (ValueError ''ETH EMA fast period must be less than slow period'')) (\<lambda>_.
     raise_if (bc_btc_ema_slow cfg \<le> bc_btc_ema_fast cfg) (ValueError ''BTC EMA fast period must be less than slow period''))"

definition check_pair :: "candle list \<Rightarrow> candle list \<Rightarrow> unit result" where
  "check_pair primary context =
     bindE (raise_if (primary = []) (ValueError ''aligned ETH/BTC candles must be non-empty'')) (\<lambda>_.
     bindE (raise_if (length primary \<noteq> length context) (ValueError ''ETH/BTC candle length mismatch'')) (\<lambda>_.
     check_aligned (zip primary context)))"

definition baseline_config :: "'a btc_context_config_scheme \<Rightarrow> ema_rsi_config" where
  "baseline_config cfg = \<lparr>ec_fast = bc_ema_fast cfg, ec_slow = bc_ema_slow cfg, ec_rsi_period = bc_rsi_period cfg, ec_rsi_exit = bc_rsi_exit cfg\<rparr>"

definition btc_bullish :: "'a btc_context_config_scheme \<Rightarrow> candle list \<Rightarrow> bool option list result" where
  "btc_bullish cfg btc =
     bindE (ema (map c_close btc) (bc_btc_ema_fast cfg)) (\<lambda>fast.
     bindE (ema (map c_close btc) (bc_btc_ema_slow cfg)) (\<lambda>slow.
       Inr (map (\<lambda>i. case (fast ! i, slow ! i) of (Some f, Some s) \<Rightarrow> Some (flt s f) | _ \<Rightarrow> None) [0..<length btc])))"

definition risk_on_at :: "int \<Rightarrow> pyfloat option list \<Rightarrow> pyfloat option list \<Rightarrow> nat \<Rightarrow> bool" where
  "risk_on_at lookback fast slow i =
     (let lag_index = int i - lookback; lag = (if 0 \<le> lag_index then fast ! nat lag_index else None)
      in case (fast ! i, slow ! i, lag) of (Some f, Some s, Some l) \<Rightarrow> flt s f \<and> flt l f | _ \<Rightarrow> False)"

definition btc_risk_on :: "'a btc_regime_config_scheme \<Rightarrow> candle list \<Rightarrow> bool list result" where
  "btc_risk_on cfg btc =
     bindE (ema (map c_close btc) (bc_btc_ema_fast cfg)) (\<lambda>fast.
     bindE (ema (map c_close btc) (bc_btc_ema_slow cfg)) (\<lambda>slow.
       Inr (map (risk_on_at (bc_btc_slope_lookback cfg) fast slow) [0..<length btc])))"

definition gated_init :: "'a btc_context_config_scheme \<Rightarrow> candle list \<Rightarrow> 'g list \<Rightarrow> 'g gated_strategy result" where
  "gated_init cfg primary gate =
     bindE (baseline_init (baseline_config cfg)) (\<lambda>b. Inr \<lparr>gs_primary = primary, gs_gate = gate, gs_baseline = b, gs_index = 0\<rparr>)"

definition context_init :: "'a btc_context_config_scheme \<Rightarrow> candle list \<Rightarrow> candle list \<Rightarrow> bool option gated_strategy result" where
  \<comment> \<open>\<open>EmaRsiBtcContext.__init__\<close>\<close>
  "context_init cfg primary btc =
     bindE (check_periods cfg) (\<lambda>_. bindE (check_speeds cfg) (\<lambda>_. bindE (check_pair primary btc) (\<lambda>_.
     bindE (btc_bullish cfg btc) (\<lambda>gate. gated_init cfg primary gate))))"

definition regime_init :: "'a btc_regime_config_scheme \<Rightarrow> candle list \<Rightarrow> candle list \<Rightarrow> bool gated_strategy result" where
  \<comment> \<open>\<open>EmaRsiBtcRegime.__init__\<close>\<close>
  "regime_init cfg primary btc =
     bindE (check_periods cfg) (\<lambda>_.
     bindE (raise_if (bc_btc_slope_lookback cfg < 1) (ValueError ''btc_slope_lookback must be positive'')) (\<lambda>_.
     bindE (check_speeds cfg) (\<lambda>_. bindE (check_pair primary btc) (\<lambda>_.
     bindE (btc_risk_on cfg btc) (\<lambda>gate. gated_init cfg primary gate)))))"

definition check_adapters :: "adapter \<Rightarrow> adapter \<Rightarrow> unit result" where
  \<comment> \<open>the checks of \<open>from_adapters\<close>\<close>
  "check_adapters primary context =
     (let p = ad_range primary; c = ad_range context in
      bindE (raise_if ((fr_symbol p, fr_timeframe p, fr_row_start p, fr_row_end p) \<noteq>
                       (''ETHUSDT'', ''15m'', fr_row_start c, fr_row_end c))
               (ValueError ''primary adapter must be aligned ETHUSDT 15m'')) (\<lambda>_.
      raise_if ((fr_dataset_id c, fr_symbol c, fr_timeframe c, fr_manifest_sha c) \<noteq>
                (fr_dataset_id p, ''BTCUSDT'', ''15m'', fr_manifest_sha p))
        (ValueError ''context adapter must be aligned BTCUSDT 15m from same dataset'')))"

definition context_from_adapters :: "'a btc_context_config_scheme \<Rightarrow> adapter \<Rightarrow> adapter \<Rightarrow> bool option gated_strategy result" where
  "context_from_adapters cfg primary context =
     bindE (check_adapters primary context) (\<lambda>_. context_init cfg (ad_candles primary) (ad_candles context))"

definition regime_from_adapters :: "'a btc_regime_config_scheme \<Rightarrow> adapter \<Rightarrow> adapter \<Rightarrow> bool gated_strategy result" where
  "regime_from_adapters cfg primary context =
     bindE (check_adapters primary context) (\<lambda>_. regime_init cfg (ad_candles primary) (ad_candles context))"

definition context_config_items :: "'a btc_context_config_scheme \<Rightarrow> (string \<times> pyfloat py_value) list" where
  "context_config_items cfg =
     [(''ema_fast'', PInt (bc_ema_fast cfg)), (''ema_slow'', PInt (bc_ema_slow cfg)), (''rsi_period'', PInt (bc_rsi_period cfg)),
      (''rsi_exit'', PFloat (bc_rsi_exit cfg)), (''btc_ema_fast'', PInt (bc_btc_ema_fast cfg)), (''btc_ema_slow'', PInt (bc_btc_ema_slow cfg))]"

definition context_strategy_definition :: "btc_context_config \<Rightarrow> pyfloat strategy_definition result" where
  "context_strategy_definition cfg =
     deterministic_definition ''EmaRsiBtcContext'' ''ema-rsi-btc-context-v1'' (context_config_items cfg)
       [''lab.strategies.ema_rsi_btc_context'', ''domain.trading.strategy'', ''domain.market.indicators'']"

definition regime_strategy_definition :: "btc_regime_config \<Rightarrow> pyfloat strategy_definition result" where
  "regime_strategy_definition cfg =
     deterministic_definition ''EmaRsiBtcRegime'' ''ema-rsi-btc-regime-v1''
       (context_config_items cfg @ [(''btc_slope_lookback'', PInt (bc_btc_slope_lookback cfg))])
       [''lab.strategies.ema_rsi_btc_regime'', ''domain.trading.strategy'', ''domain.market.indicators'']"

definition gate_signal :: "bool \<Rightarrow> string \<Rightarrow> string \<Rightarrow> signal \<Rightarrow> signal" where
  "gate_signal bullish confirmed blocked s =
     (if sig_action s \<noteq> BUY then s
      else if bullish then s\<lparr>sig_reason := confirmed\<rparr>
      else s\<lparr>sig_action := HOLD, sig_reason := blocked\<rparr>)"

definition gated_on_candle ::
  "('g \<Rightarrow> bool) \<Rightarrow> string \<Rightarrow> string \<Rightarrow> 'g gated_strategy \<Rightarrow> candle \<Rightarrow> 'g gated_strategy \<times> signal result" where
  "gated_on_candle is_open confirmed blocked s c =
     (case next_candle (gs_primary s) (gs_index s) c ''preloaded ETH sequence exhausted''
           ''runner candle does not match preloaded ETH sequence'' of
        Inl e \<Rightarrow> (s, Inl e)
      | Inr _ \<Rightarrow>
          (case on_candle (gs_baseline s) c of
             (b, Inl e) \<Rightarrow> (s\<lparr>gs_baseline := b\<rparr>, Inl e)
           | (b, Inr sig) \<Rightarrow>
               (s\<lparr>gs_baseline := b, gs_index := gs_index s + 1\<rparr>,
                Inr (gate_signal (is_open (gs_gate s ! gs_index s)) confirmed blocked sig))))"

definition context_on_candle :: "bool option gated_strategy \<Rightarrow> candle \<Rightarrow> bool option gated_strategy \<times> signal result" where
  "context_on_candle = gated_on_candle (\<lambda>g. g = Some True) ''ema_cross_up_btc_confirmed'' ''btc_context_block''"

definition regime_on_candle :: "bool gated_strategy \<Rightarrow> candle \<Rightarrow> bool gated_strategy \<times> signal result" where
  "regime_on_candle = gated_on_candle (\<lambda>g. g) ''ema_cross_up_btc_regime_confirmed'' ''btc_regime_block''"

section \<open>Donchian breakout\<close>

record donchian_config =
  dc_entry_lookback :: int
  dc_exit_lookback :: int
  dc_adx_period :: int
  dc_adx_min :: pyfloat

definition default_donchian_config :: donchian_config where
  "default_donchian_config = \<lparr>dc_entry_lookback = 20, dc_exit_lookback = 10, dc_adx_period = 14, dc_adx_min = Fin 20\<rparr>"

record donchian_strategy =
  ds_config :: donchian_config
  ds_candles :: "candle list"
  ds_prior_high :: "pyfloat option list"
  ds_prior_low :: "pyfloat option list"
  ds_adx :: "pyfloat option list"
  ds_index :: nat

definition prior_extreme :: "(pyfloat \<Rightarrow> pyfloat \<Rightarrow> pyfloat) \<Rightarrow> pyfloat list \<Rightarrow> nat \<Rightarrow> pyfloat option list" where
  \<comment> \<open>\<open>max\<close> or \<open>min\<close> of the \<open>k\<close> values before each index\<close>
  "prior_extreme better xs k =
     map (\<lambda>i. if k \<le> i then (case slice (i - k) i xs of [] \<Rightarrow> None | x # r \<Rightarrow> Some (foldl better x r)) else None) [0..<length xs]"

definition donchian_init :: "donchian_config \<Rightarrow> candle list \<Rightarrow> donchian_strategy result" where
  "donchian_init cfg cs =
     bindE (raise_if (dc_entry_lookback cfg < 1 \<or> dc_exit_lookback cfg < 1 \<or> dc_adx_period cfg < 1)
              (ValueError ''lookbacks and adx period must be positive'')) (\<lambda>_.
     bindE (raise_if (flt (dc_adx_min cfg) (Fin 0)) (ValueError ''adx_min must be non-negative'')) (\<lambda>_.
     bindE (raise_if (cs = []) (ValueError ''candles must be non-empty'')) (\<lambda>_.
     bindE (adx cs (dc_adx_period cfg)) (\<lambda>a.
       Inr \<lparr>ds_config = cfg, ds_candles = cs,
            ds_prior_high = prior_extreme fmax (map c_high cs) (nat (dc_entry_lookback cfg)),
            ds_prior_low = prior_extreme fmin (map c_low cs) (nat (dc_exit_lookback cfg)),
            ds_adx = a, ds_index = 0\<rparr>))))"

definition donchian_from_adapters :: "donchian_config \<Rightarrow> adapter \<Rightarrow> donchian_strategy result" where
  "donchian_from_adapters cfg ad = donchian_init cfg (ad_candles ad)"

definition donchian_strategy_definition :: "donchian_config \<Rightarrow> pyfloat strategy_definition result" where
  "donchian_strategy_definition cfg =
     deterministic_definition ''EthDonchianBreakout'' ''eth-donchian-breakout-v1''
       [(''entry_donchian_lookback'', PInt (dc_entry_lookback cfg)), (''exit_donchian_lookback'', PInt (dc_exit_lookback cfg)),
        (''adx_period'', PInt (dc_adx_period cfg)), (''adx_min'', PFloat (dc_adx_min cfg))]
       [''lab.strategies.eth_donchian_breakout'', ''domain.market.indicators'']"

definition donchian_signal :: "donchian_config \<Rightarrow> pyfloat option \<Rightarrow> pyfloat option \<Rightarrow> pyfloat option \<Rightarrow> candle \<Rightarrow> signal" where
  "donchian_signal cfg prior_high prior_low adx_now c =
     (if (case (prior_high, adx_now) of (Some h, Some a) \<Rightarrow> flt h (c_close c) \<and> flt (dc_adx_min cfg) a | _ \<Rightarrow> False)
      then make_signal (timestamp_ms c) BUY ''donchian_breakout_adx''
      else if (case prior_low of Some l \<Rightarrow> flt (c_close c) l | None \<Rightarrow> False)
      then make_signal (timestamp_ms c) SELL ''donchian_exit''
      else make_signal (timestamp_ms c) HOLD [])"

definition donchian_on_candle :: "donchian_strategy \<Rightarrow> candle \<Rightarrow> donchian_strategy \<times> signal result" where
  "donchian_on_candle s c =
     (case next_candle (ds_candles s) (ds_index s) c ''preloaded candle sequence exhausted''
           ''runner candle does not match preloaded sequence'' of
        Inl e \<Rightarrow> (s, Inl e)
      | Inr _ \<Rightarrow>
          (let i = ds_index s in
           (s\<lparr>ds_index := i + 1\<rparr>, Inr (donchian_signal (ds_config s) (ds_prior_high s ! i) (ds_prior_low s ! i) (ds_adx s ! i) c))))"

section \<open>Bollinger mean reversion\<close>

record reversion_config =
  bo_period :: int
  bo_stddev_multiplier :: pyfloat
  bo_adx_period :: int
  bo_adx_max :: pyfloat

definition default_reversion_config :: reversion_config where
  "default_reversion_config = \<lparr>bo_period = 20, bo_stddev_multiplier = Fin 2, bo_adx_period = 14, bo_adx_max = Fin 20\<rparr>"

record reversion_strategy =
  bs_config :: reversion_config
  bs_candles :: "candle list"
  bs_bands :: "bollinger_bands option list"
  bs_adx :: "pyfloat option list"
  bs_index :: nat

definition reversion_init :: "reversion_config \<Rightarrow> candle list \<Rightarrow> reversion_strategy result" where
  "reversion_init cfg cs =
     bindE (raise_if (bo_adx_period cfg < 1) (ValueError ''adx_period must be positive'')) (\<lambda>_.
     bindE (raise_if (\<not> is_Fin (bo_adx_max cfg) \<or> flt (bo_adx_max cfg) (Fin 0)) (ValueError ''adx_max must be finite and non-negative'')) (\<lambda>_.
     bindE (raise_if (cs = []) (ValueError ''candles must be non-empty'')) (\<lambda>_.
     bindE (bollinger (map c_close cs) (bo_period cfg) (bo_stddev_multiplier cfg)) (\<lambda>bands.
     bindE (adx cs (bo_adx_period cfg)) (\<lambda>a.
       Inr \<lparr>bs_config = cfg, bs_candles = cs, bs_bands = bands, bs_adx = a, bs_index = 0\<rparr>)))))"

definition reversion_from_adapters :: "reversion_config \<Rightarrow> adapter \<Rightarrow> reversion_strategy result" where
  "reversion_from_adapters cfg ad = reversion_init cfg (ad_candles ad)"

definition reversion_strategy_definition :: "reversion_config \<Rightarrow> pyfloat strategy_definition result" where
  "reversion_strategy_definition cfg =
     deterministic_definition ''EthBollingerMeanReversion'' ''eth-bollinger-mean-reversion-v1''
       [(''bollinger_period'', PInt (bo_period cfg)), (''bollinger_stddev_multiplier'', PFloat (bo_stddev_multiplier cfg)),
        (''adx_period'', PInt (bo_adx_period cfg)), (''adx_max'', PFloat (bo_adx_max cfg))]
       [''lab.strategies.eth_bollinger_mean_reversion'', ''domain.market.indicators'']"

definition reversion_signal ::
  "reversion_config \<Rightarrow> candle list \<Rightarrow> bollinger_bands option list \<Rightarrow> pyfloat option list \<Rightarrow> nat \<Rightarrow> candle \<Rightarrow> signal" where
  "reversion_signal cfg cs bands a i c =
     (if (case bands ! i of Some b \<Rightarrow> fle (bb_middle b) (c_close c) | None \<Rightarrow> False)
      then make_signal (timestamp_ms c) SELL ''bollinger_middle_exit''
      else if 1 \<le> i \<and> (case (bands ! (i - 1), bands ! i, a ! i) of
             (Some prev, Some cur, Some x) \<Rightarrow>
               flt (c_close (cs ! (i - 1))) (bb_lower prev) \<and> fle (bb_lower cur) (c_close c) \<and> flt x (bo_adx_max cfg)
           | _ \<Rightarrow> False)
      then make_signal (timestamp_ms c) BUY ''bollinger_reentry_low_adx''
      else make_signal (timestamp_ms c) HOLD [])"

definition reversion_on_candle :: "reversion_strategy \<Rightarrow> candle \<Rightarrow> reversion_strategy \<times> signal result" where
  "reversion_on_candle s c =
     (case next_candle (bs_candles s) (bs_index s) c ''preloaded candle sequence exhausted''
           ''runner candle does not match preloaded sequence'' of
        Inl e \<Rightarrow> (s, Inl e)
      | Inr _ \<Rightarrow>
          (let i = bs_index s in
           (s\<lparr>bs_index := i + 1\<rparr>, Inr (reversion_signal (bs_config s) (bs_candles s) (bs_bands s) (bs_adx s) i c))))"


section \<open>Preloading leaks nothing\<close>

text \<open>
  The contract a session relies on: two states that agree on the first \<open>k\<close> preloaded bars
  answer alike until bar \<open>k\<close>, whatever candles they are given.
\<close>

locale preloaded_strategy =
  fixes upd :: "'s \<Rightarrow> candle \<Rightarrow> 's \<times> 'b result" and position :: "'s \<Rightarrow> nat"
    and same_to :: "nat \<Rightarrow> 's \<Rightarrow> 's \<Rightarrow> bool"
  assumes same_step: "same_to k s t \<Longrightarrow> position s < k \<Longrightarrow>
      \<exists>s' t' r. upd s c = (s', r) \<and> upd t c = (t', r) \<and>
        (\<forall>v. r = Inr v \<longrightarrow> same_to k s' t' \<and> position s' = Suc (position s))"
begin

lemma same_run:
  "same_to k s t \<Longrightarrow> position s + length cs \<le> k \<Longrightarrow> snd (run_tracker upd s cs) = snd (run_tracker upd t cs)"
proof (induction cs arbitrary: s t)
  case (Cons c cs)
  then have "position s < k" by simp
  from same_step[OF Cons.prems(1) this, of c] obtain s' t' r where
    u: "upd s c = (s', r)" "upd t c = (t', r)" "\<forall>v. r = Inr v \<longrightarrow> same_to k s' t' \<and> position s' = Suc (position s)"
    by blast
  show ?case
  proof (cases r)
    case (Inr v)
    with u(3) Cons.prems have "snd (run_tracker upd s' cs) = snd (run_tracker upd t' cs)"
      by (intro Cons.IH) auto
    with u Inr show ?thesis by (auto split: prod.splits sum.splits)
  qed (use u in simp)
qed simp

end

definition same_gated :: "nat \<Rightarrow> 'g gated_strategy \<Rightarrow> 'g gated_strategy \<Rightarrow> bool" where
  "same_gated k s t \<longleftrightarrow>
     gs_baseline s = gs_baseline t \<and> gs_index s = gs_index t \<and> k \<le> length (gs_primary s) \<and> k \<le> length (gs_primary t) \<and>
     take k (gs_primary s) = take k (gs_primary t) \<and> take k (gs_gate s) = take k (gs_gate t)"

lemma take_nth_eq: "take k xs = take k ys \<Longrightarrow> i < k \<Longrightarrow> xs ! i = ys ! i"
  by (metis nth_take)

interpretation gated: preloaded_strategy "gated_on_candle is_open confirmed blocked" gs_index same_gated
  for is_open :: "'g \<Rightarrow> bool" and confirmed blocked
proof unfold_locales
  fix k c
  fix s t :: "'g gated_strategy"
  assume a: "same_gated k s t" "gs_index s < k"
  then have "gs_primary s ! gs_index s = gs_primary t ! gs_index s" "gs_gate s ! gs_index s = gs_gate t ! gs_index s"
    by (auto simp: same_gated_def intro: take_nth_eq)
  with a show "\<exists>s' t' r. gated_on_candle is_open confirmed blocked s c = (s', r) \<and> gated_on_candle is_open confirmed blocked t c = (t', r) \<and>
        (\<forall>v. r = Inr v \<longrightarrow> same_gated k s' t' \<and> gs_index s' = Suc (gs_index s))"
    by (auto simp: same_gated_def gated_on_candle_def next_candle_def split: prod.split sum.split)
qed

definition same_donchian :: "nat \<Rightarrow> donchian_strategy \<Rightarrow> donchian_strategy \<Rightarrow> bool" where
  "same_donchian k s t \<longleftrightarrow>
     ds_config s = ds_config t \<and> ds_index s = ds_index t \<and> k \<le> length (ds_candles s) \<and> k \<le> length (ds_candles t) \<and>
     take k (ds_candles s) = take k (ds_candles t) \<and> take k (ds_prior_high s) = take k (ds_prior_high t) \<and>
     take k (ds_prior_low s) = take k (ds_prior_low t) \<and> take k (ds_adx s) = take k (ds_adx t)"

interpretation donchian: preloaded_strategy donchian_on_candle ds_index same_donchian
proof unfold_locales
  fix k s t c
  assume a: "same_donchian k s t" "ds_index s < k"
  then have "ds_candles s ! ds_index s = ds_candles t ! ds_index s" "ds_prior_high s ! ds_index s = ds_prior_high t ! ds_index s"
    "ds_prior_low s ! ds_index s = ds_prior_low t ! ds_index s" "ds_adx s ! ds_index s = ds_adx t ! ds_index s"
    by (auto simp: same_donchian_def intro: take_nth_eq)
  with a show "\<exists>s' t' r. donchian_on_candle s c = (s', r) \<and> donchian_on_candle t c = (t', r) \<and>
        (\<forall>v. r = Inr v \<longrightarrow> same_donchian k s' t' \<and> ds_index s' = Suc (ds_index s))"
    by (auto simp: same_donchian_def donchian_on_candle_def next_candle_def Let_def)
qed

definition same_reversion :: "nat \<Rightarrow> reversion_strategy \<Rightarrow> reversion_strategy \<Rightarrow> bool" where
  "same_reversion k s t \<longleftrightarrow>
     bs_config s = bs_config t \<and> bs_index s = bs_index t \<and> k \<le> length (bs_candles s) \<and> k \<le> length (bs_candles t) \<and>
     take k (bs_candles s) = take k (bs_candles t) \<and> take k (bs_bands s) = take k (bs_bands t) \<and>
     take k (bs_adx s) = take k (bs_adx t)"

lemma reversion_signal_cong:
  assumes "take k cs = take k cs'" "take k bands = take k bands'" "take k a = take k a'" "i < k"
  shows "reversion_signal cfg cs bands a i c = reversion_signal cfg cs' bands' a' i c"
proof -
  have "i - 1 < k" using assms(4) by simp
  then have "cs ! (i - 1) = cs' ! (i - 1)" "bands ! (i - 1) = bands' ! (i - 1)" "bands ! i = bands' ! i" "a ! i = a' ! i"
    using assms by (auto intro: take_nth_eq)
  then show ?thesis unfolding reversion_signal_def by (simp only:)
qed

interpretation reversion: preloaded_strategy reversion_on_candle bs_index same_reversion
proof unfold_locales
  fix k s t c
  assume a: "same_reversion k s t" "bs_index s < k"
  then have "bs_candles s ! bs_index s = bs_candles t ! bs_index s"
    "reversion_signal (bs_config s) (bs_candles s) (bs_bands s) (bs_adx s) (bs_index s) c =
     reversion_signal (bs_config s) (bs_candles t) (bs_bands t) (bs_adx t) (bs_index s) c"
    by (auto simp: same_reversion_def intro: take_nth_eq reversion_signal_cong)
  with a show "\<exists>s' t' r. reversion_on_candle s c = (s', r) \<and> reversion_on_candle t c = (t', r) \<and>
        (\<forall>v. r = Inr v \<longrightarrow> same_reversion k s' t' \<and> bs_index s' = Suc (bs_index s))"
    by (auto simp: same_reversion_def reversion_on_candle_def next_candle_def Let_def)
qed

section \<open>The preloaded series are causal\<close>

lemma prior_extreme_take:
  "k \<le> length xs \<Longrightarrow> k \<le> length ys \<Longrightarrow> take k xs = take k ys \<Longrightarrow>
   take k (prior_extreme better xs m) = take k (prior_extreme better ys m)"
proof -
  assume a: "k \<le> length xs" "k \<le> length ys" "take k xs = take k ys"
  have "slice (i - m) i xs = slice (i - m) i ys" if "i < k" for i
    using slice_take[of i k "i - m" xs] slice_take[of i k "i - m" ys] a(3) that by simp
  then show ?thesis using a(1,2)
    by (intro nth_equalityI) (simp_all add: prior_extreme_def)
qed

interpretation btc_bullish: causal_series "btc_bullish cfg" for cfg :: "'a btc_context_config_scheme"
proof unfold_locales
  fix cs ys
  assume "btc_bullish cfg cs = Inr ys"
  then show "length ys = length cs" by (auto simp: btc_bullish_def bindE_eq_Inr)
next
  fix cs c ys
  assume "btc_bullish cfg (cs @ [c]) = Inr ys"
  then obtain f s where e: "ema (map c_close cs @ [c_close c]) (bc_btc_ema_fast cfg) = Inr f"
    "ema (map c_close cs @ [c_close c]) (bc_btc_ema_slow cfg) = Inr s"
    "ys = map (\<lambda>i. case (f ! i, s ! i) of (Some f, Some s) \<Rightarrow> Some (flt s f) | _ \<Rightarrow> None) [0..<Suc (length cs)]"
    by (auto simp: btc_bullish_def bindE_eq_Inr)
  moreover have "butlast f ! i = f ! i" "butlast s ! i = s ! i" if "i < length cs" for i
    using ema_length[OF e(1)] ema_length[OF e(2)] that by (simp_all add: nth_butlast)
  ultimately show "btc_bullish cfg cs = Inr (butlast ys)"
    using ema_snoc[OF e(1)] ema_snoc[OF e(2)] by (simp add: btc_bullish_def split: option.split)
qed

lemma btc_risk_on_snoc:
  assumes "1 \<le> bc_btc_slope_lookback cfg" "btc_risk_on cfg (cs @ [c]) = Inr ys"
  shows "btc_risk_on cfg cs = Inr (butlast ys)"
proof -
  obtain f s where e: "ema (map c_close cs @ [c_close c]) (bc_btc_ema_fast cfg) = Inr f"
    "ema (map c_close cs @ [c_close c]) (bc_btc_ema_slow cfg) = Inr s"
    and ys: "ys = map (risk_on_at (bc_btc_slope_lookback cfg) f s) [0..<Suc (length cs)]"
    using assms(2) by (auto simp: btc_risk_on_def bindE_eq_Inr)
  have lag: "nat (int i - bc_btc_slope_lookback cfg) < length cs" if "i < length cs" for i
    using that assms(1) by linarith
  have "butlast f ! i = f ! i" "butlast s ! i = s ! i" if "i < length cs" for i
    using ema_length[OF e(1)] ema_length[OF e(2)] that by (simp_all add: nth_butlast)
  with lag show ?thesis
    using ema_snoc[OF e(1)] ema_snoc[OF e(2)] by (auto simp: btc_risk_on_def ys risk_on_at_def Let_def split: option.split)
qed

interpretation btc_risk_on: causal_series
  "\<lambda>cs. if 1 \<le> bc_btc_slope_lookback cfg then btc_risk_on cfg cs else Inl (ValueError ''btc_slope_lookback must be positive'')"
  for cfg :: "'a btc_regime_config_scheme"
proof unfold_locales
  fix cs ys
  assume "(if 1 \<le> bc_btc_slope_lookback cfg then btc_risk_on cfg cs else Inl (ValueError ''btc_slope_lookback must be positive'')) = Inr ys"
  then show "length ys = length cs" by (auto simp: btc_risk_on_def bindE_eq_Inr split: if_splits)
qed (auto dest: btc_risk_on_snoc split: if_splits)


lemma context_init_same:
  assumes "context_init cfg p b = Inr s" "context_init cfg p' b' = Inr t" "k \<le> length p" "k \<le> length p'"
    "take k p = take k p'" "take k b = take k b'"
  shows "same_gated k s t \<and> gs_index s = 0"
proof -
  obtain g g' where "btc_bullish cfg b = Inr g" "btc_bullish cfg b' = Inr g'"
    "gated_init cfg p g = Inr s" "gated_init cfg p' g' = Inr t"
    using assms(1,2) by (auto simp: context_init_def bindE_eq_Inr)
  with btc_bullish.no_lookahead[of cfg b g b' g' k] assms(3-) show ?thesis
    by (auto simp: same_gated_def gated_init_def bindE_eq_Inr)
qed

lemma regime_init_same:
  assumes "regime_init cfg p b = Inr s" "regime_init cfg p' b' = Inr t" "k \<le> length p" "k \<le> length p'"
    "take k p = take k p'" "take k b = take k b'"
  shows "same_gated k s t \<and> gs_index s = 0"
proof -
  obtain g g' where "btc_risk_on cfg b = Inr g" "btc_risk_on cfg b' = Inr g'" "1 \<le> bc_btc_slope_lookback cfg"
    "gated_init cfg p g = Inr s" "gated_init cfg p' g' = Inr t"
    using assms(1,2) by (auto simp: regime_init_def bindE_eq_Inr)
  with btc_risk_on.no_lookahead[of cfg b g b' g' k] assms(3-) show ?thesis
    by (auto simp: same_gated_def gated_init_def bindE_eq_Inr)
qed

lemma donchian_init_same:
  assumes "donchian_init cfg p = Inr s" "donchian_init cfg p' = Inr t" "k \<le> length p" "k \<le> length p'" "take k p = take k p'"
  shows "same_donchian k s t \<and> ds_index s = 0"
proof -
  obtain a a' where "adx p (dc_adx_period cfg) = Inr a" "adx p' (dc_adx_period cfg) = Inr a'"
    using assms(1,2) by (auto simp: donchian_init_def bindE_eq_Inr)
  from adx.no_lookahead[OF this assms(5)] this assms show ?thesis
    by (auto simp: same_donchian_def donchian_init_def bindE_eq_Inr take_map intro!: prior_extreme_take)
qed

lemma reversion_init_same:
  assumes "reversion_init cfg p = Inr s" "reversion_init cfg p' = Inr t" "k \<le> length p" "k \<le> length p'" "take k p = take k p'"
  shows "same_reversion k s t \<and> bs_index s = 0"
proof -
  obtain a a' bb bb' where e: "adx p (bo_adx_period cfg) = Inr a" "adx p' (bo_adx_period cfg) = Inr a'"
    "bollinger (map c_close p) (bo_period cfg) (bo_stddev_multiplier cfg) = Inr bb"
    "bollinger (map c_close p') (bo_period cfg) (bo_stddev_multiplier cfg) = Inr bb'"
    using assms(1,2) by (auto simp: reversion_init_def bindE_eq_Inr)
  have "take k (map c_close p) = take k (map c_close p')" using assms(5) by (simp add: take_map)
  from bollinger.no_lookahead[OF e(3,4) this] adx.no_lookahead[OF e(1,2) assms(5)] e assms show ?thesis
    by (auto simp: same_reversion_def reversion_init_def bindE_eq_Inr)
qed

section \<open>Properties\<close>

text \<open>
  C27 A strategy that preloads its whole candle sequence does not look ahead: built on two
  data sets that agree on the first \<open>k\<close> bars, each of the four lab strategies answers the first
  \<open>k\<close> candles it is given alike, exceptions included.
\<close>

theorem preloading_leaks_nothing:
  assumes "k \<le> length p" "k \<le> length p'" "take k p = take k p'" "take k b = take k b'" "length cs \<le> k"
  shows "(context_init ccfg p b = Inr s1 \<longrightarrow> context_init ccfg p' b' = Inr t1 \<longrightarrow>
            snd (run_tracker context_on_candle s1 cs) = snd (run_tracker context_on_candle t1 cs)) \<and>
         (regime_init rcfg p b = Inr s2 \<longrightarrow> regime_init rcfg p' b' = Inr t2 \<longrightarrow>
            snd (run_tracker regime_on_candle s2 cs) = snd (run_tracker regime_on_candle t2 cs)) \<and>
         (donchian_init dcfg p = Inr s3 \<longrightarrow> donchian_init dcfg p' = Inr t3 \<longrightarrow>
            snd (run_tracker donchian_on_candle s3 cs) = snd (run_tracker donchian_on_candle t3 cs)) \<and>
         (reversion_init bcfg p = Inr s4 \<longrightarrow> reversion_init bcfg p' = Inr t4 \<longrightarrow>
            snd (run_tracker reversion_on_candle s4 cs) = snd (run_tracker reversion_on_candle t4 cs))"
proof (intro conjI impI)
  assume "context_init ccfg p b = Inr s1" "context_init ccfg p' b' = Inr t1"
  with assms show "snd (run_tracker context_on_candle s1 cs) = snd (run_tracker context_on_candle t1 cs)"
    unfolding context_on_candle_def using context_init_same[of ccfg p b s1 p' b' t1 k]
    by (intro gated.same_run[of k]) auto
next
  assume "regime_init rcfg p b = Inr s2" "regime_init rcfg p' b' = Inr t2"
  with assms show "snd (run_tracker regime_on_candle s2 cs) = snd (run_tracker regime_on_candle t2 cs)"
    unfolding regime_on_candle_def using regime_init_same[of rcfg p b s2 p' b' t2 k]
    by (intro gated.same_run[of k]) auto
next
  assume "donchian_init dcfg p = Inr s3" "donchian_init dcfg p' = Inr t3"
  with assms show "snd (run_tracker donchian_on_candle s3 cs) = snd (run_tracker donchian_on_candle t3 cs)"
    using donchian_init_same[of dcfg p s3 p' t3 k] by (intro donchian.same_run[of k]) auto
next
  assume "reversion_init bcfg p = Inr s4" "reversion_init bcfg p' = Inr t4"
  with assms show "snd (run_tracker reversion_on_candle s4 cs) = snd (run_tracker reversion_on_candle t4 cs)"
    using reversion_init_same[of bcfg p s4 p' t4 k] by (intro reversion.same_run[of k]) auto
qed

subsection \<open>The gate only blocks entries\<close>

lemma gated_step_Inr:
  "gated_on_candle is_open confirmed blocked s c = (s', Inr sig) \<Longrightarrow>
   gs_index s < length (gs_primary s) \<and> c = gs_primary s ! gs_index s \<and>
   (\<exists>b0. on_candle (gs_baseline s) c = (gs_baseline s', Inr b0) \<and>
      sig = gate_signal (is_open (gs_gate s ! gs_index s)) confirmed blocked b0) \<and>
   gs_index s' = Suc (gs_index s) \<and> gs_primary s' = gs_primary s \<and> gs_gate s' = gs_gate s"
  by (auto simp: gated_on_candle_def next_candle_def split: prod.splits sum.splits if_splits)

lemma gated_run:
  "run_tracker (gated_on_candle is_open confirmed blocked) s cs = (s', Inr sigs) \<Longrightarrow>
   \<exists>base. snd (run_tracker on_candle (gs_baseline s) cs) = Inr base \<and> length base = length cs \<and> length sigs = length cs \<and>
     (\<forall>i < length cs. gs_index s + i < length (gs_primary s) \<and> cs ! i = gs_primary s ! (gs_index s + i) \<and>
        sigs ! i = gate_signal (is_open (gs_gate s ! (gs_index s + i))) confirmed blocked (base ! i))"
proof (induction cs arbitrary: s sigs)
  case (Cons c cs)
  let ?g = "gated_on_candle is_open confirmed blocked"
  obtain t sig rest where g: "?g s c = (t, Inr sig)" "run_tracker ?g t cs = (s', Inr rest)" "sigs = sig # rest"
    using Cons.prems by (auto split: prod.splits sum.splits)
  from gated_step_Inr[OF g(1)] obtain b0 where
    t: "gs_index s < length (gs_primary s)" "c = gs_primary s ! gs_index s"
      "on_candle (gs_baseline s) c = (gs_baseline t, Inr b0)"
      "sig = gate_signal (is_open (gs_gate s ! gs_index s)) confirmed blocked b0"
      "gs_index t = Suc (gs_index s)" "gs_primary t = gs_primary s" "gs_gate t = gs_gate s" by blast
  from Cons.IH[OF g(2)] obtain base where
    b: "snd (run_tracker on_candle (gs_baseline t) cs) = Inr base" "length base = length cs" "length rest = length cs"
      "\<forall>i < length cs. gs_index t + i < length (gs_primary t) \<and> cs ! i = gs_primary t ! (gs_index t + i) \<and>
         rest ! i = gate_signal (is_open (gs_gate t ! (gs_index t + i))) confirmed blocked (base ! i)" by blast
  have "snd (run_tracker on_candle (gs_baseline s) (c # cs)) = Inr (b0 # base)"
    using t(3) b(1) by (auto split: prod.splits)
  moreover have "\<forall>i < length (c # cs). gs_index s + i < length (gs_primary s) \<and> (c # cs) ! i = gs_primary s ! (gs_index s + i) \<and>
      sigs ! i = gate_signal (is_open (gs_gate s ! (gs_index s + i))) confirmed blocked ((b0 # base) ! i)"
    using t b(4) g(3) by (auto simp: less_Suc_eq_0_disj)
  ultimately show ?case using b(2,3) g(3) by (metis length_Cons)
qed simp

lemma gate_signal_action:
  "sig_action (gate_signal g confirmed blocked s) = (if sig_action s = BUY \<and> \<not> g then HOLD else sig_action s)"
  "sig_timestamp_ms (gate_signal g confirmed blocked s) = sig_timestamp_ms s"
  "sig_intensity (gate_signal g confirmed blocked s) = sig_intensity s"
  by (auto simp: gate_signal_def)

lemma btc_risk_on_nth:
  assumes "btc_risk_on cfg b = Inr g" "1 \<le> bc_btc_slope_lookback cfg" "i < length b"
    "ema (map c_close b) (bc_btc_ema_fast cfg) = Inr fast" "ema (map c_close b) (bc_btc_ema_slow cfg) = Inr slow"
  shows "g ! i \<longleftrightarrow> (\<exists>f s l. fast ! i = Some f \<and> slow ! i = Some s \<and> bc_btc_slope_lookback cfg \<le> int i \<and>
      fast ! (i - nat (bc_btc_slope_lookback cfg)) = Some l \<and> flt s f \<and> flt l f)"
proof -
  have lag: "nat (int i - bc_btc_slope_lookback cfg) = i - nat (bc_btc_slope_lookback cfg)" using assms(2) by linarith
  have "g ! i = risk_on_at (bc_btc_slope_lookback cfg) fast slow i" using assms by (auto simp: btc_risk_on_def)
  then show ?thesis unfolding risk_on_at_def Let_def lag by (auto split: option.splits)
qed

text \<open>
  The BTC regime gate takes no decision of its own: a run that reads the bars \<open>cs\<close> has
  read them from the preloaded sequence, and its signal at bar \<open>i\<close> is the baseline's, except
  that a BUY becomes HOLD unless BTC's fast average at bar \<open>i\<close> is above both its slow average
  and its own value \<open>btc_slope_lookback\<close> bars before.
\<close>

theorem btc_regime_only_blocks_buys:
  assumes "regime_init cfg p b = Inr s" "run_tracker regime_on_candle s cs = (s', Inr sigs)" "i < length cs"
    "ema (map c_close b) (bc_btc_ema_fast cfg) = Inr fast" "ema (map c_close b) (bc_btc_ema_slow cfg) = Inr slow"
  shows "cs ! i = p ! i \<and>
    (\<exists>base. snd (run_tracker on_candle (baseline_fresh (baseline_config cfg)) cs) = Inr base \<and>
       sig_timestamp_ms (sigs ! i) = sig_timestamp_ms (base ! i) \<and>
       sig_action (sigs ! i) =
         (if sig_action (base ! i) = BUY \<and>
             \<not> (\<exists>f s l. fast ! i = Some f \<and> slow ! i = Some s \<and> bc_btc_slope_lookback cfg \<le> int i \<and>
                  fast ! (i - nat (bc_btc_slope_lookback cfg)) = Some l \<and> flt s f \<and> flt l f)
          then HOLD else sig_action (base ! i)))"
proof -
  from assms(1) obtain g b0 where g: "btc_risk_on cfg b = Inr g" "1 \<le> bc_btc_slope_lookback cfg" "length p = length b"
    "baseline_init (baseline_config cfg) = Inr b0"
    "s = \<lparr>gs_primary = p, gs_gate = g, gs_baseline = b0, gs_index = 0\<rparr>"
    by (auto simp: regime_init_def gated_init_def bindE_eq_Inr check_pair_def)
  from gated_run[OF assms(2)[unfolded regime_on_candle_def]] obtain base where
    base: "snd (run_tracker on_candle b0 cs) = Inr base" "i < length p" "cs ! i = p ! i"
      "sigs ! i = gate_signal (g ! i) ''ema_cross_up_btc_regime_confirmed'' ''btc_regime_block'' (base ! i)"
    using assms(3) g(5) by auto
  show ?thesis
    using base baseline_init_fresh[OF g(4)] btc_risk_on_nth[OF g(1,2) _ assms(4,5), of i] g(3)
    by (auto simp: gate_signal_action)
qed

subsection \<open>Examples\<close>

definition small_regime_config :: btc_regime_config where
  "small_regime_config = \<lparr>bc_ema_fast = 1, bc_ema_slow = 2, bc_rsi_period = 1, bc_rsi_exit = Fin 100,
     bc_btc_ema_fast = 1, bc_btc_ema_slow = 3, bc_btc_slope_lookback = 1\<rparr>"

definition falling_btc :: "candle list" where
  "falling_btc = [example_candle 0 16, example_candle 900000 8, example_candle 1800000 6]"

definition blocked_strategy :: "bool gated_strategy" where
  "blocked_strategy = \<lparr>gs_primary = example_candles, gs_gate = [False, False, False],
     gs_baseline = baseline_fresh (baseline_config small_regime_config), gs_index = 0\<rparr>"

definition blocked_signals :: "signal list" where
  "blocked_signals = [make_signal 0 HOLD ''warmup'', make_signal 900000 HOLD ''warmup'', make_signal 1800000 HOLD ''btc_regime_block'']"

lemma blocked_example:
  "regime_init small_regime_config example_candles falling_btc = Inr blocked_strategy"
  "run_tracker regime_on_candle blocked_strategy example_candles =
     (fst (run_tracker regime_on_candle blocked_strategy example_candles), Inr blocked_signals)"
  "ema (map c_close falling_btc) (bc_btc_ema_fast small_regime_config) = Inr [Some (Fin 16), Some (Fin 8), Some (Fin 6)]"
  "ema (map c_close falling_btc) (bc_btc_ema_slow small_regime_config) = Inr [None, None, Some (Fin 10)]"
  by code_simp+


theorem btc_regime_only_blocks_buys_witness:
  "\<exists>base. snd (run_tracker on_candle (baseline_fresh (baseline_config small_regime_config)) example_candles) = Inr base \<and>
     sig_action (base ! 2) = BUY \<and> sig_action (blocked_signals ! 2) = HOLD"
proof -
  have b: "snd (run_tracker on_candle (baseline_fresh (baseline_config small_regime_config)) example_candles) =
      Inr [make_signal 0 HOLD ''warmup'', make_signal 900000 HOLD ''warmup'', make_signal 1800000 BUY ''ema_cross_up'']"
    by code_simp
  have "2 < length example_candles" by (simp add: example_candles_def)
  from btc_regime_only_blocks_buys[OF blocked_example(1,2) this blocked_example(3,4)] b
  show ?thesis by (auto simp: make_signal_def)
qed

definition later_btc :: "candle list" where
  "later_btc = take 2 falling_btc @ [example_candle 1800000 64]"

definition later_eth :: "candle list" where
  "later_eth = take 2 example_candles @ [example_candle 1800000 2]"

definition small_donchian_config :: donchian_config where
  "small_donchian_config = \<lparr>dc_entry_lookback = 1, dc_exit_lookback = 1, dc_adx_period = 1, dc_adx_min = Fin 0\<rparr>"

definition small_reversion_config :: reversion_config where
  "small_reversion_config = \<lparr>bo_period = 2, bo_stddev_multiplier = Fin 1, bo_adx_period = 1, bo_adx_max = Fin 20\<rparr>"

definition built :: "'s result \<Rightarrow> bool" where
  "built r \<longleftrightarrow> (case r of Inl _ \<Rightarrow> False | Inr _ \<Rightarrow> True)"

lemma built_iff: "built r \<longleftrightarrow> (\<exists>s. r = Inr s)"
  by (simp add: built_def split: sum.split)

lemma preload_examples:
  "built (context_init small_regime_config example_candles falling_btc)"
  "built (context_init small_regime_config later_eth later_btc)"
  "built (regime_init small_regime_config example_candles falling_btc)"
  "built (regime_init small_regime_config later_eth later_btc)"
  "built (donchian_init small_donchian_config example_candles)" "built (donchian_init small_donchian_config later_eth)"
  "built (reversion_init small_reversion_config example_candles)" "built (reversion_init small_reversion_config later_eth)"
  "2 \<le> length example_candles" "2 \<le> length later_eth" "take 2 example_candles = take 2 later_eth"
  "take 2 falling_btc = take 2 later_btc" "length (take 2 example_candles) \<le> 2"
  by code_simp+

theorem preloading_leaks_nothing_witness:
  "\<exists>s1 t1 s2 t2 s3 t3 s4 t4.
     context_init small_regime_config example_candles falling_btc = Inr s1 \<and> context_init small_regime_config later_eth later_btc = Inr t1 \<and>
     regime_init small_regime_config example_candles falling_btc = Inr s2 \<and> regime_init small_regime_config later_eth later_btc = Inr t2 \<and>
     donchian_init small_donchian_config example_candles = Inr s3 \<and> donchian_init small_donchian_config later_eth = Inr t3 \<and>
     reversion_init small_reversion_config example_candles = Inr s4 \<and> reversion_init small_reversion_config later_eth = Inr t4 \<and>
     snd (run_tracker context_on_candle s1 (take 2 example_candles)) = snd (run_tracker context_on_candle t1 (take 2 example_candles)) \<and>
     snd (run_tracker regime_on_candle s2 (take 2 example_candles)) = snd (run_tracker regime_on_candle t2 (take 2 example_candles)) \<and>
     snd (run_tracker donchian_on_candle s3 (take 2 example_candles)) = snd (run_tracker donchian_on_candle t3 (take 2 example_candles)) \<and>
     snd (run_tracker reversion_on_candle s4 (take 2 example_candles)) = snd (run_tracker reversion_on_candle t4 (take 2 example_candles))"
proof -
  obtain s1 t1 s2 t2 s3 t3 s4 t4 where i:
    "context_init small_regime_config example_candles falling_btc = Inr s1" "context_init small_regime_config later_eth later_btc = Inr t1"
    "regime_init small_regime_config example_candles falling_btc = Inr s2" "regime_init small_regime_config later_eth later_btc = Inr t2"
    "donchian_init small_donchian_config example_candles = Inr s3" "donchian_init small_donchian_config later_eth = Inr t3"
    "reversion_init small_reversion_config example_candles = Inr s4" "reversion_init small_reversion_config later_eth = Inr t4"
    using preload_examples(1-8) unfolding built_iff by blast
  with preloading_leaks_nothing[OF preload_examples(9-13), of small_regime_config s1 t1 small_regime_config s2 t2
      small_donchian_config s3 t3 small_reversion_config s4 t4]
  show ?thesis by blast
qed

end
