(* ===== verification/LabSession.thy ===== *)
theory LabSession
  imports Metrics Books LabStrategies
begin

text \<open>
  A session of the lab (\<open>lab/session_runner.py\<close>), the trades its trace is read back into and the
  figures of a walk-forward window (\<open>lab/walk_forward.py\<close>).  A strategy is a step function on its
  own state; SHA-256 and \<open>repr\<close> of a float are arguments.  The results relate the trace to the
  engine behind it: the trades read back are the portfolio's own ledger, a session that must have
  stops trades nothing, and an entry without a stop is stopped all the same.
\<close>

section \<open>The session\<close>

record lab_event =
  le_timestamp_ms :: int
  le_action :: string
  le_filled :: bool
  le_exit_reason :: string
  le_risk_reason :: string
  le_exec_price :: "pyfloat option"
  le_quantity :: "pyfloat option"
  le_fee :: pyfloat
  le_slippage_cost :: pyfloat
  le_equity :: pyfloat

record lab_summary =
  ls_candles :: nat
  ls_decisions :: "(string \<times> nat) list"
  ls_fills :: nat
  ls_fees :: pyfloat
  ls_slippage_cost :: pyfloat
  ls_risk_rejections :: nat
  ls_equity_initial :: pyfloat
  ls_equity_final :: pyfloat

record lab_session_result =
  lr_experiment_spec_id :: string
  lr_events :: "lab_event list"
  lr_metrics :: lab_summary
  lr_event_trace_hash :: string
  lr_metrics_hash_value :: string

fun opt_float :: "pyfloat option \<Rightarrow> pyfloat py_value" where
  "opt_float None = PNone"
| "opt_float (Some x) = PFloat x"

definition event_mapping :: "lab_event \<Rightarrow> pyfloat py_value" where
  "event_mapping e =
     PDict [(PStr ''timestamp_ms'', PInt (le_timestamp_ms e)), (PStr ''action'', PStr (le_action e)),
       (PStr ''filled'', PBool (le_filled e)), (PStr ''exit_reason'', PStr (le_exit_reason e)),
       (PStr ''risk_reason'', PStr (le_risk_reason e)), (PStr ''exec_price'', opt_float (le_exec_price e)),
       (PStr ''quantity'', opt_float (le_quantity e)), (PStr ''fee'', PFloat (le_fee e)),
       (PStr ''slippage_cost'', PFloat (le_slippage_cost e)), (PStr ''equity'', PFloat (le_equity e))]"

definition trace_mapping :: "lab_event list \<Rightarrow> pyfloat py_value" where
  "trace_mapping es = PList (map event_mapping es)"

definition count_decision :: "(string \<times> nat) list \<Rightarrow> string \<Rightarrow> (string \<times> nat) list" where
  \<comment> \<open>\<open>decisions[a] = decisions.get(a, 0) + 1\<close>\<close>
  "count_decision ds a = AList.update a ((case map_of ds a of None \<Rightarrow> 0 | Some n \<Rightarrow> n) + 1) ds"

definition summarize_lab_events :: "lab_event list \<Rightarrow> pyfloat \<Rightarrow> lab_summary" where
  "summarize_lab_events es initial =
     \<lparr>ls_candles = length es,
      ls_decisions = foldl count_decision [(''BUY'', 0), (''SELL'', 0), (''HOLD'', 0)] (map le_action es),
      ls_fills = length (filter le_filled es),
      ls_fees = foldl fadd (Fin 0) (map le_fee es),
      ls_slippage_cost = foldl fadd (Fin 0) (map le_slippage_cost es),
      ls_risk_rejections = length (filter (\<lambda>e. le_risk_reason e \<noteq> []) es),
      ls_equity_initial = initial,
      ls_equity_final = (if es = [] then initial else le_equity (last es))\<rparr>"

definition summary_mapping :: "lab_summary \<Rightarrow> pyfloat py_value" where
  "summary_mapping s =
     PDict [(PStr ''candles'', PInt (int (ls_candles s))),
       (PStr ''decisions'', PDict (map (\<lambda>(a, n). (PStr a, PInt (int n))) (ls_decisions s))),
       (PStr ''fills'', PInt (int (ls_fills s))), (PStr ''fees'', PFloat (ls_fees s)),
       (PStr ''slippage_cost'', PFloat (ls_slippage_cost s)), (PStr ''risk_rejections'', PInt (int (ls_risk_rejections s))),
       (PStr ''equity_initial'', PFloat (ls_equity_initial s)), (PStr ''equity_final'', PFloat (ls_equity_final s))]"

definition lab_event_of :: "candle \<Rightarrow> paper_event \<Rightarrow> pyfloat \<Rightarrow> lab_event" where
  "lab_event_of c pv eq =
     \<lparr>le_timestamp_ms = timestamp_ms c, le_action = action_name (pv_action pv), le_filled = pv_filled pv,
      le_exit_reason = pv_exit_reason pv, le_risk_reason = pv_risk_reason pv,
      le_exec_price = map_option fl_exec_price (pv_fill pv), le_quantity = map_option fl_quantity (pv_fill pv),
      le_fee = (case pv_fill pv of None \<Rightarrow> Fin 0 | Some f \<Rightarrow> fl_fee f),
      le_slippage_cost = (case pv_fill pv of None \<Rightarrow> Fin 0 | Some f \<Rightarrow> fl_slippage_cost f),
      le_equity = eq\<rparr>"

definition lab_step ::
  "(int \<Rightarrow> int) \<Rightarrow> ('s \<Rightarrow> candle \<Rightarrow> 's \<times> signal result) \<Rightarrow> 's \<times> paper_engine \<Rightarrow> candle \<Rightarrow>
   ('s \<times> paper_engine) \<times> lab_event result" where
  \<comment> \<open>one turn of the loop of \<open>run\<close>\<close>
  "lab_step day_key strategy st c =
     (case strategy (fst st) c of
        (s, Inl err) \<Rightarrow> ((s, snd st), Inl err)
      | (s, Inr sig) \<Rightarrow>
          (case on_price day_key (snd st) (baseline_decision (timestamp_ms c) sig) (c_close c) None (timestamp_ms c) of
             (e, Inl err) \<Rightarrow> ((s, e), Inl err)
           | (e, Inr pv) \<Rightarrow>
               (case mark_to_market e (c_close c) of (e', eq) \<Rightarrow> ((s, e'), Inr (lab_event_of c pv eq)))))"

definition lab_session ::
  "(string \<Rightarrow> string) \<Rightarrow> (pyfloat \<Rightarrow> string) \<Rightarrow> (int \<Rightarrow> int) \<Rightarrow> ('s \<Rightarrow> candle \<Rightarrow> 's \<times> signal result) \<Rightarrow> string \<Rightarrow>
   's \<times> paper_engine \<Rightarrow> candle list \<Rightarrow> ('s \<times> paper_engine) \<times> lab_session_result result" where
  \<comment> \<open>\<open>LabSessionRunner(...).run()\<close>\<close>
  "lab_session sha256 frepr day_key strategy sid st cs =
     (if \<not> is_hex64 sid then (st, Inl (ValueError ''experiment_spec_id must be SHA-256 hex''))
      else case run_tracker (lab_step day_key strategy) st cs of
        (st', Inl err) \<Rightarrow> (st', Inl err)
      | (st', Inr es) \<Rightarrow>
          (st',
           let m = summarize_lab_events es (equity (pe_portfolio (snd st)) (Fin 0))
           in bindE (canonical_hash sha256 is_Fin frepr (trace_mapping es)) (\<lambda>th.
              bindE (canonical_hash sha256 is_Fin frepr (summary_mapping m)) (\<lambda>mh.
                Inr \<lparr>lr_experiment_spec_id = sid, lr_events = es, lr_metrics = m,
                     lr_event_trace_hash = th, lr_metrics_hash_value = mh\<rparr>))))"

section \<open>Walk-forward windows\<close>

definition PERIODS_PER_YEAR_15M :: int where "PERIODS_PER_YEAR_15M = 365 * 96"

definition rebuilt_trade :: "lab_event \<Rightarrow> lab_event \<Rightarrow> trade" where
  "rebuilt_trade buy e =
     (let price_of = (\<lambda>x. float_or (le_exec_price x) (Fin 0));
          quantity = fmin (float_or (le_quantity buy) (Fin 0)) (float_or (le_quantity e) (Fin 0));
          gross = fmul (fsub (price_of e) (price_of buy)) quantity;
          fees = fadd (float_or (Some (le_fee buy)) (Fin 0)) (float_or (Some (le_fee e)) (Fin 0))
      in \<lparr>tr_entry_ts = le_timestamp_ms buy, tr_exit_ts = le_timestamp_ms e, tr_entry_price = price_of buy,
          tr_exit_price = price_of e, tr_quantity = quantity, tr_gross_pnl = gross, tr_fees = fees,
          tr_slippage = fadd (float_or (Some (le_slippage_cost buy)) (Fin 0)) (float_or (Some (le_slippage_cost e)) (Fin 0)),
          tr_net_pnl = fsub gross fees\<rparr>)"

fun pair_step :: "lab_event option \<times> trade list \<Rightarrow> lab_event \<Rightarrow> lab_event option \<times> trade list" where
  "pair_step (lot, ts) e =
     (if le_filled e \<and> le_action e = ''BUY'' then (Some e, ts)
      else if le_filled e \<and> le_action e = ''SELL'' then
        (case lot of None \<Rightarrow> (None, ts) | Some buy \<Rightarrow> (None, ts @ [rebuilt_trade buy e]))
      else (lot, ts))"

definition trades_from_trace :: "lab_event list \<Rightarrow> trade list" where
  "trades_from_trace es = snd (foldl pair_step (None, []) es)"

record window_figures =
  wm_trades :: nat
  wm_net_pnl :: pyfloat
  wm_return_pct :: pyfloat
  wm_max_drawdown :: pyfloat
  wm_profit_factor :: "pyfloat option"
  wm_expectancy :: "pyfloat option"

definition session_performance :: "lab_session_result \<Rightarrow> performance_metrics result" where
  \<comment> \<open>the call of \<open>compute_metrics\<close> that the reports share\<close>
  "session_performance r =
     compute_metrics (trades_from_trace (lr_events r)) (ls_equity_initial (lr_metrics r) # map le_equity (lr_events r))
       (fint PERIODS_PER_YEAR_15M) (Fin 0) (Fin 0) (Fin 0)"

definition return_on :: "pyfloat \<Rightarrow> pyfloat \<Rightarrow> pyfloat" where
  \<comment> \<open>\<open>net / initial if initial else 0.0\<close>\<close>
  "return_on net initial = (if feq initial (Fin 0) then Fin 0 else fdiv net initial)"

definition window_metrics :: "lab_session_result \<Rightarrow> window_figures result" where
  "window_metrics r =
     bindE (session_performance r) (\<lambda>perf.
       Inr \<lparr>wm_trades = pm_trades perf, wm_net_pnl = pm_net_pnl perf,
            wm_return_pct = return_on (pm_net_pnl perf) (ls_equity_initial (lr_metrics r)),
            wm_max_drawdown = pm_max_drawdown perf, wm_profit_factor = pm_profit_factor perf,
            wm_expectancy = pm_expectancy perf\<rparr>)"

record window_result =
  wr_index :: int
  wr_row_start :: int
  wr_row_end :: int
  wr_first_timestamp_ms :: int
  wr_last_timestamp_ms :: int
  wr_figures :: window_figures
  wr_experiment_spec_id :: string
  wr_run_id :: string
  wr_event_trace_hash :: string
  wr_metrics_hash :: string

definition make_window_result :: "window_spec \<Rightarrow> lab_session_result \<Rightarrow> string \<Rightarrow> window_result result" where
  "make_window_result w r run_id =
     bindE (window_metrics r) (\<lambda>m.
       if lr_events r = [] then Inl IndexError
       else Inr \<lparr>wr_index = ws_index w, wr_row_start = ws_row_start w, wr_row_end = ws_row_end w,
                 wr_first_timestamp_ms = le_timestamp_ms (hd (lr_events r)),
                 wr_last_timestamp_ms = le_timestamp_ms (last (lr_events r)), wr_figures = m,
                 wr_experiment_spec_id = lr_experiment_spec_id r, wr_run_id = run_id,
                 wr_event_trace_hash = lr_event_trace_hash r, wr_metrics_hash = lr_metrics_hash_value r\<rparr>)"

definition median :: "pyfloat list \<Rightarrow> pyfloat result" where
  \<comment> \<open>\<open>statistics.median\<close>\<close>
  "median xs =
     (let s = fsorted xs; n = length xs in
      if n = 0 then Inl (ValueError ''no median for empty data'')
      else if odd n then Inr (s ! (n div 2))
      else Inr (fdiv (fadd (s ! (n div 2 - 1)) (s ! (n div 2))) (Fin 2)))"

record walk_forward_aggregate =
  ag_total_windows :: nat
  ag_profitable_windows :: nat
  ag_losing_windows :: nat
  ag_aggregate_net_pnl :: pyfloat
  ag_aggregate_return_pct :: pyfloat
  ag_median_window_return :: pyfloat
  ag_worst_window_return :: pyfloat
  ag_max_drawdown :: pyfloat
  ag_total_trades :: nat
  ag_profit_factor :: "pyfloat option"
  ag_expectancy :: "pyfloat option"

definition aggregate_results :: "window_result list \<Rightarrow> walk_forward_aggregate result" where
  "aggregate_results rs =
     (if rs = [] then Inl (ValueError ''no window results to aggregate'')
      else
        let nets = map (wm_net_pnl \<circ> wr_figures) rs;
            returns = map (wm_return_pct \<circ> wr_figures) rs;
            total = sum_list (map (wm_trades \<circ> wr_figures) rs);
            gross_profit = pysum (filter (\<lambda>x. flt (Fin 0) x) nets);
            gross_loss = fneg (pysum (filter (\<lambda>x. flt x (Fin 0)) nets))
        in bindE (median returns) (\<lambda>md.
           bindE (fmin_list returns) (\<lambda>worst.
           bindE (fmax_list (map (wm_max_drawdown \<circ> wr_figures) rs)) (\<lambda>dd.
             Inr \<lparr>ag_total_windows = length rs,
                  ag_profitable_windows = length (filter (\<lambda>x. flt (Fin 0) x) nets),
                  ag_losing_windows = length (filter (\<lambda>x. flt x (Fin 0)) nets),
                  ag_aggregate_net_pnl = pysum nets, ag_aggregate_return_pct = pysum returns,
                  ag_median_window_return = md, ag_worst_window_return = worst, ag_max_drawdown = dd,
                  ag_total_trades = total,
                  ag_profit_factor =
                    (if total = 0 then None
                     else if feq gross_loss (Fin 0) then (if flt (Fin 0) gross_profit then Some PInf else None)
                     else Some (fdiv gross_profit gross_loss)),
                  ag_expectancy = (if total = 0 then None else Some (fdiv (pysum nets) (fint (int total))))\<rparr>))))"


section \<open>What a tick does to the book\<close>

definition moved :: "paper_engine \<Rightarrow> paper_event \<Rightarrow> paper_engine \<Rightarrow> int \<Rightarrow> bool" where
  \<comment> \<open>an entry from flat, the sale of the whole position, or nothing\<close>
  "moved e pv e' ts \<longleftrightarrow>
     (if pv_filled pv then
        (\<exists>f. pv_fill pv = Some f \<and> fl_timestamp_ms f = ts \<and> float_value (fl_fee f) \<and> float_value (fl_slippage_cost f) \<and>
           (pv_action pv = BUY \<and> pe_position e = None \<and> map_option pp_quantity (pe_position e') = Some (fl_quantity f) \<and>
              apply_buy (pe_portfolio e) f = (pe_portfolio e', Inr ()) \<or>
            pv_action pv = SELL \<and> map_option pp_quantity (pe_position e) = Some (fl_quantity f) \<and>
              pe_position e' = None \<and> pe_portfolio e' = apply_sell (pe_portfolio e) f))
      else pe_portfolio e' = pe_portfolio e)"

lemma close_moved:
  assumes "pe_position e = Some old" "pp_quantity pos = pp_quantity old" "pe_portfolio x = pe_portfolio e"
  shows "moved e (snd (close_position x pos price ts reason)) (fst (close_position x pos price ts reason)) ts"
  using assms by (simp add: moved_def close_position_def make_fill_def event_def fee_def Let_def)

lemma open_moved:
  assumes "open_position x q price stop target ts = (e', Inr pv)" "pe_portfolio x = pe_portfolio e" "pe_position e = None"
  shows "moved e pv e' ts"
proof -
  obtain f p u where f: "entry_fill x q price ts = Inr f" "apply_buy (pe_portfolio x) f = (p, Inr u)"
    "pv = (event True BUY)\<lparr>pv_fill := Some f\<rparr>" "pe_portfolio e' = p" "map_option pp_quantity (pe_position e') = Some (fl_quantity f)"
    using assms by (auto simp: open_position_def Let_def split: sum.splits prod.splits)
  moreover have "fl_timestamp_ms f = ts" "float_value (fl_fee f)" "float_value (fl_slippage_cost f)"
    using f(1) by (auto simp: entry_fill_def fee_def Let_def bindE_eq_Inr)
  ultimately show ?thesis using assms(2,3) by (simp add: moved_def event_def)
qed

lemma decide_moved:
  assumes "decide x d price a ts = (e', Inr pv)" "setup_ok x"
    and "map_option pp_quantity (pe_position e) = map_option pp_quantity (pe_position x)" "pe_portfolio x = pe_portfolio e"
  shows "moved e pv e' ts"
  using assms(1)
proof (cases rule: decide_cases)
  case (idle ev)
  with assms(4) show ?thesis by (simp add: moved_def)
next
  case (closed pos)
  then obtain old where "pe_position e = Some old" "pp_quantity old = pp_quantity pos" using assms(3) by auto
  with closed assms(4) show ?thesis
    using close_moved[of e old pos "fst (mark_to_market x price)" price ts "''llm_sell''"] by simp
next
  case (opened sz stop target)
  have "pe_position x = None"
    using verdict_buy(2)[OF opened(1,2)] assms(2) by (fastforce simp: setup_ok_def)
  then show ?thesis using open_moved[OF opened(4)[symmetric], of e] assms(3,4) by simp
qed

lemma exits_moved:
  assumes "check_exits x price ts = (e', Some pv)" "pe_position x = pe_position e" "pe_portfolio x = pe_portfolio e"
  shows "moved e pv e' ts"
proof -
  obtain old where old: "pe_position x = Some old" using assms(1) by (auto simp: check_exits_def split: option.splits)
  let ?x = "x\<lparr>pe_position := Some (trail_position x old price)\<rparr>"
  obtain reason where "close_position ?x (trail_position x old price) price ts reason = (e', pv)"
    using assms(1) old by (auto simp: check_exits_def Let_def split: if_splits prod.splits)
  moreover have "pp_quantity (trail_position x old price) = pp_quantity old" by (simp add: trail_position_def Let_def)
  ultimately show ?thesis
    using close_moved[of e old "trail_position x old price" ?x price ts reason] assms(2,3) old by simp
qed

lemma on_price_moved:
  assumes "on_price day_key e d price a ts = (e', Inr pv)" "setup_ok e"
  shows "moved e pv e' ts"
proof -
  let ?e = "tick_state day_key e price a ts"
  have p: "process_price day_key e d price a ts = (e', Inr pv)"
    using assms(1) by (auto simp: on_price_def split: option.splits if_splits)
  have sok: "setup_ok ?e" using assms(2) by (simp add: setup_ok_def)
  obtain e2 x where c: "check_exits ?e price ts = (e2, x)" by fastforce
  show ?thesis
  proof (cases x)
    case (Some ev)
    with p c have "check_exits ?e price ts = (e', Some pv)" by (simp add: process_price_split)
    then show ?thesis by (rule exits_moved) simp_all
  next
    case None
    note f = check_exits_none_fields[OF c[unfolded None]]
    have "decide e2 d price a ts = (e', Inr pv)" using p c None by (simp add: process_price_split)
    moreover have "setup_ok e2" using sok by (simp add: setup_ok_def f)
    moreover have "map_option pp_quantity (pe_position e) = map_option pp_quantity (pe_position e2)"
      by (cases "pe_position e") (simp_all add: f trail_position_def Let_def)
    ultimately show ?thesis by (rule decide_moved) (simp add: f)
  qed
qed

section \<open>The trades read back are the ledger\<close>

fun rebuilt :: "portfolio \<Rightarrow> lab_event option \<times> trade list \<Rightarrow> bool" where
  "rebuilt p (lot, ts) \<longleftrightarrow> pf_trades p = ts \<and>
     (case lot of
        None \<Rightarrow> pf_position p = Fin 0 \<and> pf_entry_fees p = Fin 0 \<and> pf_entry_slippage p = Fin 0
      | Some b \<Rightarrow> pf_position p \<noteq> Fin 0 \<and> pf_entry_ts p = Some (le_timestamp_ms b) \<and>
          le_exec_price b \<noteq> None \<and> pf_avg_entry p = le_exec_price b \<and> le_quantity b = Some (pf_position p) \<and>
          pf_entry_fees p = le_fee b \<and> pf_entry_slippage p = le_slippage_cost b \<and>
          is_Fin (le_fee b) \<and> float_value (le_fee b) \<and> is_Fin (le_slippage_cost b) \<and> float_value (le_slippage_cost b))"

definition numbers_ok :: "lab_event \<Rightarrow> bool" where
  "numbers_ok e \<longleftrightarrow> is_Fin (le_fee e) \<and> is_Fin (le_slippage_cost e)"

lemma fmul_one: "is_Fin x \<Longrightarrow> float_value x \<Longrightarrow> fmul x (Fin 1) = x"
  by (cases x) (simp_all add: representable_def)

lemma fadd_zero: "is_Fin x \<Longrightarrow> float_value x \<Longrightarrow> fadd (Fin 0) x = x"
  by (cases x) (simp_all add: representable_def)

lemma fdiv_same: "is_Fin x \<Longrightarrow> positive x \<Longrightarrow> fdiv x x = Fin 1"
  using representable_one by (cases x) (simp_all add: representable_def)

lemma fmin_same [simp]: "fmin x x = x"
  by (simp add: fmin_def)

lemma float_or_zero_id: "float_or (Some x) (Fin 0) = x"
  by (cases x) (simp_all add: float_or_def feq_def)

lemma rebuilt_buy:
  assumes "rebuilt p acc" "apply_buy p f = (p', Inr ())" "pf_position p = Fin 0" "pf_position p' = fl_quantity f"
    and "positive (fl_quantity f)" "pv_filled pv" "pv_fill pv = Some f" "pv_action pv = BUY"
    and "float_value (fl_fee f)" "float_value (fl_slippage_cost f)" "fl_timestamp_ms f = timestamp_ms c"
    and "numbers_ok (lab_event_of c pv eq)"
  shows "rebuilt p' (pair_step acc (lab_event_of c pv eq))"
proof -
  obtain lot ts where acc: "acc = (lot, ts)" by (cases acc)
  have flat: "lot = None" "pf_entry_fees p = Fin 0" "pf_entry_slippage p = Fin 0" "pf_trades p = ts"
    using assms(1,3) acc by (auto split: option.splits)
  have n: "is_Fin (fl_fee f)" "is_Fin (fl_slippage_cost f)"
    using assms(7,12) by (auto simp: numbers_ok_def lab_event_of_def)
  have q: "\<not> fle (fl_quantity f) (Fin 0)" using assms(5) by (cases "fl_quantity f") auto
  have z: "fl_quantity f \<noteq> Fin 0" using assms(5) by auto
  have p': "pf_trades p' = ts" "pf_entry_ts p' = Some (fl_timestamp_ms f)" "pf_avg_entry p' = Some (fl_exec_price f)"
    "pf_entry_fees p' = fl_fee f" "pf_entry_slippage p' = fl_slippage_cost f"
    using assms(2,3,9,10) flat n q by (auto simp: apply_buy_def Let_def feq_def fadd_zero split: if_splits)
  then show ?thesis using assms acc z n by (auto simp: lab_event_of_def)
qed

lemma rebuilt_sell:
  assumes "rebuilt p acc" "pf_position p = fl_quantity f" "positive (fl_quantity f)" "is_Fin (fl_quantity f)"
    and "pv_filled pv" "pv_fill pv = Some f" "pv_action pv = SELL"
    and "float_value (fl_fee f)" "float_value (fl_slippage_cost f)" "fl_timestamp_ms f = timestamp_ms c"
    and "numbers_ok (lab_event_of c pv eq)"
  shows "rebuilt (apply_sell p f) (pair_step acc (lab_event_of c pv eq))"
proof -
  obtain lot ts where acc: "acc = (lot, ts)" by (cases acc)
  have z: "pf_position p \<noteq> Fin 0" "\<not> fle (fl_quantity f) (Fin 0)" "flt (Fin 0) (fl_quantity f)"
    using assms(2,3) by (cases "fl_quantity f"; auto)+
  then obtain b where b: "lot = Some b" using assms(1) acc by (cases lot) auto
  then have h: "pf_trades p = ts" "pf_entry_ts p = Some (le_timestamp_ms b)" "pf_avg_entry p = le_exec_price b"
    "le_exec_price b \<noteq> None" "le_quantity b = Some (fl_quantity f)" "pf_entry_fees p = le_fee b" "pf_entry_slippage p = le_slippage_cost b"
    "is_Fin (le_fee b)" "float_value (le_fee b)" "is_Fin (le_slippage_cost b)" "float_value (le_slippage_cost b)"
    using assms(1,2) acc by auto
  have n: "is_Fin (fl_fee f)" "is_Fin (fl_slippage_cost f)"
    using assms(6,11) by (auto simp: numbers_ok_def lab_event_of_def)
  note arith = fdiv_same[OF assms(4,3)] fmul_one fsub_self
  have t: "sell_trade p f (fl_quantity f) = rebuilt_trade b (lab_event_of c pv eq)"
    using h n z assms(2,6,8,9,10)
    by (auto simp: sell_trade_def rebuilt_trade_def Let_def arith float_or_zero_id lab_event_of_def float_or_zero_def)
  have "fle (fsub (fl_quantity f) (fl_quantity f)) DUST" using DUST_nonneg fsub_self[OF assms(4)] by simp
  then have "pf_position (apply_sell p f) = Fin 0" "pf_entry_fees (apply_sell p f) = Fin 0"
    "pf_entry_slippage (apply_sell p f) = Fin 0" "pf_trades (apply_sell p f) = ts @ [sell_trade p f (fl_quantity f)]"
    using z(1,2) assms(2) h(1,6-11) by (simp_all add: apply_sell_def Let_def fdiv_same[OF assms(4,3)] fmul_one fsub_self)
  with t b acc assms(5,7) show ?thesis by (simp add: lab_event_of_def)
qed


lemma rebuilt_moved:
  assumes "moved e pv e' (timestamp_ms c)" "engine_inv e" "engine_inv e'" "rebuilt (pe_portfolio e) acc"
    and "numbers_ok (lab_event_of c pv eq)"
  shows "rebuilt (pe_portfolio e') (pair_step acc (lab_event_of c pv eq))"
proof (cases "pv_filled pv")
  case False
  then show ?thesis using assms(1,4) by (cases acc) (simp add: moved_def lab_event_of_def)
next
  case True
  then obtain f where f: "pv_fill pv = Some f" "fl_timestamp_ms f = timestamp_ms c" "float_value (fl_fee f)" "float_value (fl_slippage_cost f)"
    and m: "pv_action pv = BUY \<and> pe_position e = None \<and> map_option pp_quantity (pe_position e') = Some (fl_quantity f) \<and>
              apply_buy (pe_portfolio e) f = (pe_portfolio e', Inr ()) \<or>
            pv_action pv = SELL \<and> map_option pp_quantity (pe_position e) = Some (fl_quantity f) \<and>
              pe_position e' = None \<and> pe_portfolio e' = apply_sell (pe_portfolio e) f"
    using assms(1) by (auto simp: moved_def)
  from m show ?thesis
  proof
    assume b: "pv_action pv = BUY \<and> pe_position e = None \<and> map_option pp_quantity (pe_position e') = Some (fl_quantity f) \<and>
        apply_buy (pe_portfolio e) f = (pe_portfolio e', Inr ())"
    then have "pf_position (pe_portfolio e) = Fin 0" "pf_position (pe_portfolio e') = fl_quantity f" "positive (fl_quantity f)"
      using assms(2,3) by (auto simp: engine_inv_def same_holding_def)
    then show ?thesis using b f True assms(4,5) by (intro rebuilt_buy[where f = f]) auto
  next
    assume b: "pv_action pv = SELL \<and> map_option pp_quantity (pe_position e) = Some (fl_quantity f) \<and>
        pe_position e' = None \<and> pe_portfolio e' = apply_sell (pe_portfolio e) f"
    then have "pf_position (pe_portfolio e) = fl_quantity f" "positive (fl_quantity f)" "is_Fin (fl_quantity f)"
      using assms(2) by (auto simp: engine_inv_def same_holding_def)
    then show ?thesis using b f True assms(4,5) rebuilt_sell[where f = f] by auto
  qed
qed

fun lab_bounds :: "(int \<Rightarrow> int) \<Rightarrow> ('s \<Rightarrow> candle \<Rightarrow> 's \<times> signal result) \<Rightarrow> 's \<times> paper_engine \<Rightarrow> candle list \<Rightarrow> bool" where
  \<comment> \<open>every close meets \<open>tick_ok\<close> in the state it arrives in\<close>
  "lab_bounds day_key strategy st [] = True"
| "lab_bounds day_key strategy st (c # cs) =
     (tick_ok (snd st) (c_close c) None \<and> lab_bounds day_key strategy (fst (lab_step day_key strategy st c)) cs)"

lemma lab_step_Inr:
  assumes "lab_step day_key strategy st c = (st', Inr ev)"
  obtains s sig e pv where "strategy (fst st) c = (s, Inr sig)"
    "on_price day_key (snd st) (baseline_decision (timestamp_ms c) sig) (c_close c) None (timestamp_ms c) = (e, Inr pv)"
    "st' = (s, fst (mark_to_market e (c_close c)))" "ev = lab_event_of c pv (equity (pe_portfolio e) (c_close c))"
proof -
  obtain s r where s: "strategy (fst st) c = (s, r)" by fastforce
  then obtain sig where sig: "r = Inr sig" using assms by (cases r) (auto simp: lab_step_def)
  obtain e q where o: "on_price day_key (snd st) (baseline_decision (timestamp_ms c) sig) (c_close c) None (timestamp_ms c) = (e, q)"
    by fastforce
  then obtain pv where pv: "q = Inr pv" using assms s sig by (cases q) (auto simp: lab_step_def)
  have "mark_to_market e (c_close c) = (fst (mark_to_market e (c_close c)), equity (pe_portfolio e) (c_close c))"
    by (simp add: prod_eq_iff)
  then have "st' = (s, fst (mark_to_market e (c_close c)))" "ev = lab_event_of c pv (equity (pe_portfolio e) (c_close c))"
    using assms s sig o pv by (auto simp: lab_step_def split: prod.splits)
  with s sig o pv show thesis by (intro that) simp_all
qed

lemma lab_step_ledger:
  assumes "lab_step day_key strategy st c = (st', Inr ev)" "engine_inv (snd st)" "setup_ok (snd st)"
    and "tick_ok (snd st) (c_close c) None" "rebuilt (pe_portfolio (snd st)) acc" "numbers_ok ev"
  shows "engine_inv (snd st') \<and> setup_ok (snd st') \<and> rebuilt (pe_portfolio (snd st')) (pair_step acc ev)"
proof -
  obtain s sig e pv where s: "on_price day_key (snd st) (baseline_decision (timestamp_ms c) sig) (c_close c) None (timestamp_ms c) = (e, Inr pv)"
    "st' = (s, fst (mark_to_market e (c_close c)))" "ev = lab_event_of c pv (equity (pe_portfolio e) (c_close c))"
    using assms(1) by (rule lab_step_Inr)
  have e: "engine_inv e" "setup_ok e" using on_price_inv[OF assms(2-4)] s(1) by (metis fst_conv)+
  have "moved (snd st) pv e (timestamp_ms c)" using on_price_moved[OF s(1) assms(3)] .
  from rebuilt_moved[OF this assms(2) e(1) assms(5), of "equity (pe_portfolio e) (c_close c)"] assms(6) s(3)
  have "rebuilt (pe_portfolio e) (pair_step acc ev)" by simp
  moreover have "pe_peak e \<noteq> NaN"
    using e(1) by (auto simp: engine_inv_def dest: fle_not_NaN)
  ultimately show ?thesis using e engine_inv_mark[of e] setup_ok_frame[OF frame_mark(1)] s(2) by simp
qed

lemma lab_run_ledger:
  "run_tracker (lab_step day_key strategy) st cs = (st', Inr es) \<Longrightarrow> engine_inv (snd st) \<Longrightarrow> setup_ok (snd st) \<Longrightarrow>
   lab_bounds day_key strategy st cs \<Longrightarrow> rebuilt (pe_portfolio (snd st)) acc \<Longrightarrow> list_all numbers_ok es \<Longrightarrow>
   rebuilt (pe_portfolio (snd st')) (foldl pair_step acc es)"
proof (induction cs arbitrary: st es acc)
  case (Cons c cs)
  obtain st1 ev es1 where h: "lab_step day_key strategy st c = (st1, Inr ev)"
    "run_tracker (lab_step day_key strategy) st1 cs = (st', Inr es1)" "es = ev # es1"
    using Cons.prems(1) by (auto split: prod.splits sum.splits)
  from lab_step_ledger[OF h(1) Cons.prems(2,3) _ Cons.prems(5)] Cons.prems(4,6) h(1,3)
  have "engine_inv (snd st1) \<and> setup_ok (snd st1) \<and> rebuilt (pe_portfolio (snd st1)) (pair_step acc ev)" by simp
  with Cons.IH[OF h(2), of "pair_step acc ev"] Cons.prems(4,6) h show ?case by simp
qed simp

lemma event_numbers: "normalize is_Fin (event_mapping e) = Inr j \<Longrightarrow> numbers_ok e"
  by (auto simp: numbers_ok_def event_mapping_def bindE_eq_Inr split: if_splits)

lemma hashed_numbers:
  assumes "canonical_hash sha256 is_Fin frepr (trace_mapping es) = Inr h"
  shows "list_all numbers_ok es"
proof -
  obtain js where "mapE (normalize is_Fin) (map event_mapping es) = Inr js"
    using assms by (auto simp: canonical_hash_def canonical_json_def trace_mapping_def bindE_eq_Inr)
  then show ?thesis by (induction es arbitrary: js) (auto simp: bindE_eq_Inr dest: event_numbers)
qed

lemma lab_session_Inr:
  assumes "lab_session sha256 frepr day_key strategy sid st cs = (st', Inr r)"
  shows "run_tracker (lab_step day_key strategy) st cs = (st', Inr (lr_events r)) \<and> list_all numbers_ok (lr_events r) \<and>
    ls_equity_initial (lr_metrics r) = equity (pe_portfolio (snd st)) (Fin 0)"
  using assms
  by (auto simp: lab_session_def Let_def bindE_eq_Inr summarize_lab_events_def dest: hashed_numbers
      split: if_splits prod.splits sum.splits)


section \<open>Stops in a session\<close>

lemma flat_exits: "pe_position e = None \<Longrightarrow> check_exits e price ts = (e, None)"
  by (simp add: check_exits_def)

lemma unstopped_buy_rejected:
  assumes "rk_stop_loss_required (pe_config e)" "td_action d = BUY"
  shows "\<not> rv_approved (verdict_on e d price None ts) \<and> rv_reason (verdict_on e d price None ts) \<noteq> []"
  using assms by (simp add: verdict_on_def evaluate_def reject_def)

lemma flat_decide:
  assumes "decide e d price None ts = (e', Inr pv)" "rk_stop_loss_required (pe_config e)" "pe_position e = None"
  shows "\<not> pv_filled pv \<and> (pv_action pv = BUY \<longrightarrow> pv_risk_reason pv \<noteq> []) \<and>
    pe_position e' = None \<and> pe_portfolio e' = pe_portfolio e"
proof (cases "td_action d")
  case BUY
  with assms unstopped_buy_rejected[OF assms(2), of d price ts] show ?thesis
    by (auto simp: decide_def Let_def event_def)
qed (use assms in \<open>auto simp: decide_def Let_def event_def split: if_splits\<close>)

lemma flat_on_price:
  assumes "on_price day_key e d price None ts = (e', Inr pv)" "rk_stop_loss_required (pe_config e)" "pe_position e = None"
  shows "\<not> pv_filled pv \<and> (pv_action pv = BUY \<longrightarrow> pv_risk_reason pv \<noteq> []) \<and>
    pe_position e' = None \<and> pe_portfolio e' = pe_portfolio e \<and> pe_config e' = pe_config e"
proof -
  have p: "process_price day_key e d price None ts = (e', Inr pv)"
    using assms(1) by (auto simp: on_price_def split: option.splits if_splits)
  then have "decide (tick_state day_key e price None ts) d price None ts = (e', Inr pv)"
    using assms(3) by (simp add: process_price_split flat_exits)
  moreover have "pe_config e' = pe_config e"
    using process_frame[of day_key e d price None ts] p by (simp add: frame_def)
  ultimately show ?thesis using flat_decide[of "tick_state day_key e price None ts" d price ts e' pv] assms(2,3) by simp
qed

definition untraded :: "lab_event \<Rightarrow> bool" where
  "untraded ev \<longleftrightarrow> \<not> le_filled ev \<and> (le_action ev = ''BUY'' \<longrightarrow> le_risk_reason ev \<noteq> [])"

lemma action_name_buy: "action_name a = ''BUY'' \<longleftrightarrow> a = BUY"
  by (cases a) simp_all

lemma flat_run:
  "run_tracker (lab_step day_key strategy) st cs = (st', Inr es) \<Longrightarrow> rk_stop_loss_required (pe_config (snd st)) \<Longrightarrow>
   pe_position (snd st) = None \<Longrightarrow>
   list_all untraded es \<and> pe_portfolio (snd st') = pe_portfolio (snd st)"
proof (induction cs arbitrary: st es)
  case (Cons c cs)
  obtain st1 ev es1 where h: "lab_step day_key strategy st c = (st1, Inr ev)"
    "run_tracker (lab_step day_key strategy) st1 cs = (st', Inr es1)" "es = ev # es1"
    using Cons.prems(1) by (auto split: prod.splits sum.splits)
  obtain s sig e pv where s: "on_price day_key (snd st) (baseline_decision (timestamp_ms c) sig) (c_close c) None (timestamp_ms c) = (e, Inr pv)"
    "st1 = (s, fst (mark_to_market e (c_close c)))" "ev = lab_event_of c pv (equity (pe_portfolio e) (c_close c))"
    using h(1) by (rule lab_step_Inr)
  note f = flat_on_price[OF s(1) Cons.prems(2,3)] frame_fields[OF frame_mark(1)[of e "c_close c"]]
  then have "untraded ev" by (simp add: s(3) untraded_def lab_event_of_def action_name_buy)
  with Cons.IH[OF h(2)] f Cons.prems(2) s(2) h(3) show ?case by simp
qed simp

definition bare_stop :: "pyfloat \<Rightarrow> pyfloat" where
  \<comment> \<open>\<open>price * (1.0 - 1e-9)\<close>\<close>
  "bare_stop price = fmul price (fsub (Fin 1) (rnd (1 / 10 ^ 9)))"

lemma unstopped_size:
  assumes "td_action d = BUY" "rv_approved (verdict_on e d price None ts)"
  shows "rv_stop_loss (verdict_on e d price None ts) = None \<and> rv_take_profit (verdict_on e d price None ts) = None"
  using assms
  by (auto simp: verdict_on_def evaluate_def size_buy_def reject_def Let_def split: if_splits)

lemma open_stop:
  assumes "open_position x q price stop target ts = (e', Inr pv)"
  shows "\<exists>pos. pe_position e' = Some pos \<and> pp_stop_loss pos = stop \<and> pp_take_profit pos = target"
  using assms by (auto simp: open_position_def Let_def split: sum.splits prod.splits)

lemma decide_unstopped:
  assumes "decide e d price None ts = (e', Inr pv)" "pv_filled pv" "pv_action pv = BUY"
  shows "\<exists>pos. pe_position e' = Some pos \<and> pp_stop_loss pos = bare_stop price \<and> pp_take_profit pos = None"
proof -
  have d: "td_action d = BUY" "rv_approved (verdict_on e d price None ts)"
    using assms by (auto elim!: decide_cases)
  obtain sz where sz: "rv_size (verdict_on e d price None ts) = Some sz"
    using assms d by (cases "rv_size (verdict_on e d price None ts)") (auto simp: decide_def Let_def event_def)
  have "open_position (fst (mark_to_market e price)) (sz_quantity sz) price (bare_stop price) None ts = (e', Inr pv)"
    using assms(1) d sz unstopped_size[OF d] by (simp add: decide_def Let_def float_or_def bare_stop_def)
  then show ?thesis by (rule open_stop)
qed

lemma on_price_unstopped:
  assumes "on_price day_key e d price None ts = (e', Inr pv)" "pv_filled pv" "pv_action pv = BUY"
  shows "\<exists>pos. pe_position e' = Some pos \<and> pp_stop_loss pos = bare_stop price \<and> pp_take_profit pos = None"
proof -
  let ?e = "tick_state day_key e price None ts"
  have p: "process_price day_key e d price None ts = (e', Inr pv)"
    using assms(1) by (auto simp: on_price_def split: option.splits if_splits)
  obtain e2 x where c: "check_exits ?e price ts = (e2, x)" by fastforce
  show ?thesis
  proof (cases x)
    case None
    then show ?thesis using p c assms(2,3) by (intro decide_unstopped) (auto simp: process_price_split)
  next
    case (Some ev)
    then show ?thesis using p c assms(3) check_exits_event[of ?e price ts e2 ev] by (auto simp: process_price_split)
  qed
qed


lemma stop_sells:
  assumes "on_price day_key e d price a ts = (e', Inr pv)" "pe_position e = Some pos" "fle price (pp_stop_loss pos)"
  shows "pv_filled pv \<and> pv_action pv = SELL \<and> pv_exit_reason pv \<in> {''trailing_stop'', ''stop_loss''}"
proof -
  let ?e = "tick_state day_key e price a ts" and ?pos = "trail_position (tick_state day_key e price a ts) pos price"
  have p: "process_price day_key e d price a ts = (e', Inr pv)"
    using assms(1) by (auto simp: on_price_def split: option.splits if_splits)
  have "fle (pp_stop_loss pos) (pp_stop_loss ?pos)"
    using assms(3) by (auto simp: trail_position_def Let_def update_trailing_def fmax_ge1 dest: fle_not_NaN)
  then have "fle price (pp_stop_loss ?pos)" using assms(3) by (rule fle_trans[rotated])
  then show ?thesis using assms(2) p
    by (auto simp: process_price_split check_exits_def Let_def split_beta split: if_splits)
qed

section \<open>Properties\<close>

text \<open>
  C24 The trades a report reads back from the trace of a session are the portfolio's own
  ledger: entry and exit times and prices, quantity, gross and net result, fees and slippage
  are equal bit for bit, for any strategy, from a fresh engine and prices in range.
\<close>

theorem rebuilt_trades_are_the_ledger:
  assumes "lab_session sha256 frepr day_key strategy sid (s, new_engine cfg fees slip) cs = (st', Inr r)"
    and "setup_ok (new_engine cfg fees slip)" "lab_bounds day_key strategy (s, new_engine cfg fees slip) cs"
  shows "trades_from_trace (lr_events r) = pf_trades (pe_portfolio (snd st'))"
proof -
  note run = lab_session_Inr[OF assms(1)]
  have "float_value (rk_capital cfg)" "rk_capital cfg \<noteq> NaN"
    using assms(2) by (auto simp: setup_ok_def new_engine_def)
  then have i: "engine_inv (new_engine cfg fees slip)" by (rule new_engine_inv)
  have "rebuilt (pe_portfolio (new_engine cfg fees slip)) (None, [])"
    by (simp add: new_engine_def new_portfolio_def)
  with lab_run_ledger[of day_key strategy "(s, new_engine cfg fees slip)" cs st' "lr_events r" "(None, [])"] run assms(2,3) i
  have "rebuilt (pe_portfolio (snd st')) (foldl pair_step (None, []) (lr_events r))" by simp
  then show ?thesis unfolding trades_from_trace_def by (metis prod.collapse rebuilt.simps)
qed

text \<open>
  C25 A session hands the engine no ATR, so under a risk configuration that requires stops it
  never trades: no event is filled, every BUY carries a rejection, and the portfolio at the
  end is the one at the start.
\<close>

theorem session_with_required_stops_never_trades:
  assumes "lab_session sha256 frepr day_key strategy sid (s, e) cs = (st', Inr r)"
    and "rk_stop_loss_required (pe_config e)" "pe_position e = None"
  shows "list_all untraded (lr_events r) \<and> trades_from_trace (lr_events r) = [] \<and> pe_portfolio (snd st') = pe_portfolio e"
proof -
  have u: "list_all untraded (lr_events r) \<and> pe_portfolio (snd st') = pe_portfolio e"
    using flat_run[of day_key strategy "(s, e)" cs st' "lr_events r"] lab_session_Inr[OF assms(1)] assms(2,3) by simp
  moreover have "foldl pair_step (None, []) es = (None, [])" if "list_all untraded es" for es
    using that by (induction es) (auto simp: untraded_def)
  ultimately show ?thesis by (simp add: trades_from_trace_def)
qed

text \<open>
  C26 Without required stops a session still stops its entries: the position of a filled BUY
  carries the stop \<open>price * (1 - 1e-9)\<close>, so the next close at or below it is sold as a stop
  exit, whatever the strategy says.
\<close>

theorem unstopped_entry_is_stopped:
  assumes "lab_step day_key strategy st c = (st1, Inr ev)" "le_filled ev" "le_action ev = ''BUY''"
    and "lab_step day_key strategy st1 c2 = (st2, Inr ev2)" "fle (c_close c2) (bare_stop (c_close c))"
  shows "le_filled ev2 \<and> le_action ev2 = ''SELL'' \<and> le_exit_reason ev2 \<in> {''trailing_stop'', ''stop_loss''}"
proof -
  obtain s sig e pv where s: "on_price day_key (snd st) (baseline_decision (timestamp_ms c) sig) (c_close c) None (timestamp_ms c) = (e, Inr pv)"
    "st1 = (s, fst (mark_to_market e (c_close c)))" "ev = lab_event_of c pv (equity (pe_portfolio e) (c_close c))"
    using assms(1) by (rule lab_step_Inr)
  then obtain pos where pos: "pe_position (snd st1) = Some pos" "pp_stop_loss pos = bare_stop (c_close c)"
    using on_price_unstopped[OF s(1)] assms(2,3) by (auto simp: lab_event_of_def action_name_buy)
  obtain s2 sig2 e2 pv2 where s2: "on_price day_key (snd st1) (baseline_decision (timestamp_ms c2) sig2) (c_close c2) None (timestamp_ms c2) = (e2, Inr pv2)"
    "ev2 = lab_event_of c2 pv2 (equity (pe_portfolio e2) (c_close c2))"
    using assms(4) by (rule lab_step_Inr)
  from stop_sells[OF s2(1) pos(1)] pos(2) assms(5) show ?thesis by (simp add: s2(2) lab_event_of_def)
qed

subsection \<open>Examples\<close>

definition replay :: "precomputed \<Rightarrow> candle \<Rightarrow> precomputed \<times> signal result" where
  "replay p c = (case precomputed_on_candle p c of (p', sig) \<Rightarrow> (p', Inr sig))"

definition free_config :: risk_config where
  "free_config = easy_config\<lparr>rk_stop_loss_required := False\<rparr>"

definition free_engine :: paper_engine where
  "free_engine = new_engine free_config
     \<lparr>taker_bps = Fin 0, maker_bps = Fin 0, fee_version = []\<rparr> \<lparr>slip_bps = Fin 0, slip_version = []\<rparr>"

definition session_candles :: "candle list" where
  "session_candles = [example_candle 900000 64, example_candle 1800000 32]"

definition buy_then_hold :: precomputed where
  "buy_then_hold = \<lparr>ps_actions = [BUY, HOLD], ps_i = 0\<rparr>"

definition example_sid :: string where "example_sid = replicate 64 (CHR ''0'')"

definition example_session :: "paper_engine \<Rightarrow> (precomputed \<times> paper_engine) \<times> lab_session_result result" where
  "example_session e = lab_session (\<lambda>_. []) (\<lambda>_. []) utc_day_index replay example_sid (buy_then_hold, e) session_candles"

lemma built_pair: "built (snd x) \<Longrightarrow> \<exists>s r. x = (s, Inr r)"
  by (cases x) (auto simp: built_iff)

definition hashable :: "precomputed \<times> paper_engine \<Rightarrow> lab_event list result \<Rightarrow> bool" where
  "hashable st r \<longleftrightarrow>
     (case r of Inl _ \<Rightarrow> False
      | Inr es \<Rightarrow> built (normalize is_Fin (trace_mapping es)) \<and>
          built (normalize is_Fin (summary_mapping (summarize_lab_events es (equity (pe_portfolio (snd st)) (Fin 0))))))"

lemma canonical_hash_built: "built (normalize fin v) \<Longrightarrow> \<exists>h. canonical_hash sha256 fin frepr v = Inr h"
  by (auto simp: built_iff canonical_hash_def canonical_json_def bindE_def)

lemma example_session_built:
  "hashable (buy_then_hold, e) (snd (run_tracker (lab_step utc_day_index replay) (buy_then_hold, e) session_candles)) \<Longrightarrow>
   \<exists>st r. example_session e = (st, Inr r)"
proof -
  assume h: "hashable (buy_then_hold, e) (snd (run_tracker (lab_step utc_day_index replay) (buy_then_hold, e) session_candles))"
  then obtain st es where es: "run_tracker (lab_step utc_day_index replay) (buy_then_hold, e) session_candles = (st, Inr es)"
    by (cases "run_tracker (lab_step utc_day_index replay) (buy_then_hold, e) session_candles") (auto simp: hashable_def split: sum.splits)
  moreover have "is_hex64 example_sid" by (simp add: is_hex64_def example_sid_def list_all_iff)
  moreover obtain th mh where "canonical_hash (\<lambda>_. []) is_Fin (\<lambda>_. []) (trace_mapping es) = Inr th"
    "canonical_hash (\<lambda>_. []) is_Fin (\<lambda>_. []) (summary_mapping (summarize_lab_events es (equity (pe_portfolio e) (Fin 0)))) = Inr mh"
    using h es canonical_hash_built by (fastforce simp: hashable_def)
  ultimately show ?thesis by (simp add: example_session_def lab_session_def Let_def)
qed

lemma free_run:
  "hashable (buy_then_hold, free_engine) (snd (run_tracker (lab_step utc_day_index replay) (buy_then_hold, free_engine) session_candles))"
  by code_simp

lemma easy_run:
  "hashable (buy_then_hold, easy_engine) (snd (run_tracker (lab_step utc_day_index replay) (buy_then_hold, easy_engine) session_candles))"
  by code_simp

lemma free_run_bounded: "lab_bounds utc_day_index replay (buy_then_hold, free_engine) session_candles"
  by code_simp

lemma example_setup: "setup_ok free_engine" "rk_stop_loss_required (pe_config easy_engine)" "pe_position easy_engine = None"
  by code_simp+

lemmas example_runs = free_run easy_run free_run_bounded example_setup

theorem rebuilt_trades_are_the_ledger_witness:
  "\<exists>st' r. example_session free_engine = (st', Inr r) \<and> trades_from_trace (lr_events r) = pf_trades (pe_portfolio (snd st'))"
proof -
  obtain st' r where r: "example_session free_engine = (st', Inr r)"
    using example_session_built[OF example_runs(1)] by blast
  from rebuilt_trades_are_the_ledger[OF r[unfolded example_session_def free_engine_def]] example_runs(3,4) r
  show ?thesis unfolding free_engine_def by blast
qed

theorem session_with_required_stops_never_trades_witness:
  "\<exists>st' r. example_session easy_engine = (st', Inr r) \<and> trades_from_trace (lr_events r) = [] \<and> pe_portfolio (snd st') = pe_portfolio easy_engine"
proof -
  obtain st' r where r: "example_session easy_engine = (st', Inr r)"
    using example_session_built[OF example_runs(2)] by blast
  from session_with_required_stops_never_trades[OF r[unfolded example_session_def] example_runs(5,6)] r
  show ?thesis by blast
qed

definition after_buy :: "precomputed \<times> paper_engine" where
  "after_buy = fst (lab_step utc_day_index replay (buy_then_hold, free_engine) (example_candle 900000 64))"

definition bought :: "lab_event result \<Rightarrow> bool" where
  "bought r \<longleftrightarrow> (case r of Inr ev \<Rightarrow> le_filled ev \<and> le_action ev = ''BUY'' | Inl _ \<Rightarrow> False)"

lemma free_buy: "bought (snd (lab_step utc_day_index replay (buy_then_hold, free_engine) (example_candle 900000 64)))"
  by code_simp

lemma hold_after_buy: "built (snd (lab_step utc_day_index replay after_buy (example_candle 1800000 32)))"
  by code_simp

lemma price_below_stop: "fle (c_close (example_candle 1800000 32)) (bare_stop (c_close (example_candle 900000 64)))"
  by code_simp

lemmas buy_filled = free_buy hold_after_buy price_below_stop

theorem unstopped_entry_is_stopped_witness:
  "\<exists>st ev. lab_step utc_day_index replay after_buy (example_candle 1800000 32) = (st, Inr ev) \<and> le_filled ev \<and> le_action ev = ''SELL''"
proof -
  obtain st1 ev where ev: "lab_step utc_day_index replay (buy_then_hold, free_engine) (example_candle 900000 64) = (st1, Inr ev)"
    "le_filled ev" "le_action ev = ''BUY''"
    using buy_filled(1) by (cases "lab_step utc_day_index replay (buy_then_hold, free_engine) (example_candle 900000 64)")
      (simp add: bought_def split: sum.splits)
  then have "st1 = after_buy" by (simp add: after_buy_def)
  moreover obtain st2 ev2 where ev2: "lab_step utc_day_index replay after_buy (example_candle 1800000 32) = (st2, Inr ev2)"
    using built_pair[OF buy_filled(2)] by blast
  ultimately have "le_filled ev2 \<and> le_action ev2 = ''SELL''"
    using unstopped_entry_is_stopped[OF ev _ buy_filled(3), of st2 ev2] by simp
  with ev2 show ?thesis by blast
qed

end
