(* ===== verification/LabReports.thy ===== *)
theory LabReports
  imports LabSession
begin

text \<open>
  The comparison of a candidate with the baseline (\<open>lab/development_evaluation.py\<close>) and the
  perturbations of the baseline (\<open>lab/robustness.py\<close>).  The results say when a candidate counts as
  improved, that the accounting of the BTC filter fits the gate it accounts for, and that the
  verdict on robustness does not depend on the order of the variants.
\<close>

section \<open>Evaluation on development data\<close>

definition MAX_DRAWDOWN_MATERIAL_ABS :: pyfloat where "MAX_DRAWDOWN_MATERIAL_ABS = rnd (1 / 100)"

definition count_signals :: "signal list \<Rightarrow> nat \<times> nat \<times> nat" where
  \<comment> \<open>BUY, SELL and the rest\<close>
  "count_signals sigs =
     (length (filter (\<lambda>s. sig_action s = BUY) sigs), length (filter (\<lambda>s. sig_action s = SELL) sigs),
      length (filter (\<lambda>s. sig_action s \<noteq> BUY \<and> sig_action s \<noteq> SELL) sigs))"

record session_figures =
  sm_closed_trades :: nat
  sm_fills :: nat
  sm_net_pnl :: pyfloat
  sm_return_pct :: pyfloat
  sm_fees :: pyfloat
  sm_slippage :: pyfloat
  sm_max_drawdown :: pyfloat
  sm_profit_factor :: "pyfloat option"
  sm_expectancy :: "pyfloat option"
  sm_win_rate :: "pyfloat option"
  sm_average_win :: "pyfloat option"
  sm_average_loss :: "pyfloat option"

definition session_metrics :: "lab_session_result \<Rightarrow> session_figures result" where
  "session_metrics r =
     bindE (session_performance r) (\<lambda>perf.
       Inr \<lparr>sm_closed_trades = pm_trades perf, sm_fills = length (filter le_filled (lr_events r)),
            sm_net_pnl = pm_net_pnl perf,
            sm_return_pct = return_on (pm_net_pnl perf) (ls_equity_initial (lr_metrics r)),
            sm_fees = pm_fees perf, sm_slippage = pm_slippage perf, sm_max_drawdown = pm_max_drawdown perf,
            sm_profit_factor = pm_profit_factor perf, sm_expectancy = pm_expectancy perf,
            sm_win_rate = pm_win_rate perf, sm_average_win = pm_avg_winner perf, sm_average_loss = pm_avg_loser perf\<rparr>)"

definition finite_or_none :: "pyfloat option \<Rightarrow> pyfloat option" where
  "finite_or_none x = (case x of None \<Rightarrow> None | Some v \<Rightarrow> if is_Fin v then Some v else None)"

definition delta :: "pyfloat option \<Rightarrow> pyfloat option \<Rightarrow> pyfloat option" where
  "delta candidate baseline =
     (case (finite_or_none candidate, finite_or_none baseline) of
        (Some c, Some b) \<Rightarrow> Some (fsub c b) | _ \<Rightarrow> None)"

record metric_deltas =
  md_net_pnl :: pyfloat
  md_return_pct :: pyfloat
  md_max_drawdown :: pyfloat
  md_profit_factor :: "pyfloat option"
  md_expectancy :: "pyfloat option"
  md_trades :: int
  md_fees :: pyfloat
  md_slippage :: pyfloat
  md_trade_reduction_percent :: pyfloat

definition compare_metrics :: "session_figures \<Rightarrow> session_figures \<Rightarrow> metric_deltas" where
  "compare_metrics b c =
     (let base = int (sm_closed_trades b); cand = int (sm_closed_trades c) in
      \<lparr>md_net_pnl = fsub (sm_net_pnl c) (sm_net_pnl b), md_return_pct = fsub (sm_return_pct c) (sm_return_pct b),
       md_max_drawdown = fsub (sm_max_drawdown c) (sm_max_drawdown b),
       md_profit_factor = delta (sm_profit_factor c) (sm_profit_factor b),
       md_expectancy = delta (sm_expectancy c) (sm_expectancy b), md_trades = cand - base,
       md_fees = fsub (sm_fees c) (sm_fees b), md_slippage = fsub (sm_slippage c) (sm_slippage b),
       md_trade_reduction_percent = (if base = 0 then Fin 0 else fmul (idiv (base - cand) base) (Fin 100))\<rparr>)"

record filter_attribution =
  fa_baseline_buy_candidates :: nat
  fa_btc_confirmed_buys :: nat
  fa_btc_blocked_buys :: nat
  fa_blocked_baseline_trades :: nat
  fa_blocked_baseline_net_pnl :: pyfloat
  fa_blocked_baseline_winners :: nat
  fa_blocked_baseline_losers :: nat
  fa_blocked_baseline_flats :: nat
  fa_blocked_baseline_avg_net_pnl :: "pyfloat option"

definition blocked_timestamps :: "(signal \<times> signal) list \<Rightarrow> int list" where
  "blocked_timestamps ps =
     map (sig_timestamp_ms \<circ> fst) (filter (\<lambda>(b, c). sig_action b = BUY \<and> sig_action c = HOLD) ps)"

definition trades_by_entry :: "trade list \<Rightarrow> int \<Rightarrow> trade option" where
  \<comment> \<open>a later trade with the same entry replaces the earlier one\<close>
  "trades_by_entry ts = map_of (rev (map (\<lambda>t. (tr_entry_ts t, t)) ts))"

definition btc_filter_attribution :: "signal list \<Rightarrow> signal list \<Rightarrow> lab_session_result \<Rightarrow> filter_attribution result" where
  "btc_filter_attribution bs cs r =
     (if length bs \<noteq> length cs then Inl (ValueError ''baseline/candidate signal length mismatch'')
      else
        let baseline_buys = length (filter (\<lambda>s. sig_action s = BUY) bs);
            candidate_buys = length (filter (\<lambda>s. sig_action s = BUY) cs);
            blocked = blocked_timestamps (zip bs cs)
        in if candidate_buys + length blocked \<noteq> baseline_buys
           then Inl (ValueError ''BTC filter changed decisions outside BUY to HOLD'')
           else
             let trades = List.map_filter (trades_by_entry (trades_from_trace (lr_events r))) blocked;
                 net = map tr_net_pnl trades
             in Inr \<lparr>fa_baseline_buy_candidates = baseline_buys, fa_btc_confirmed_buys = candidate_buys,
                     fa_btc_blocked_buys = length blocked, fa_blocked_baseline_trades = length trades,
                     fa_blocked_baseline_net_pnl = pysum net,
                     fa_blocked_baseline_winners = length (filter (\<lambda>x. flt (Fin 0) x) net),
                     fa_blocked_baseline_losers = length (filter (\<lambda>x. flt x (Fin 0)) net),
                     fa_blocked_baseline_flats = length (filter (\<lambda>x. feq x (Fin 0)) net),
                     fa_blocked_baseline_avg_net_pnl =
                       (if net = [] then None else Some (fdiv (pysum net) (fint (int (length net)))))\<rparr>)"

definition better :: "pyfloat option \<Rightarrow> pyfloat option \<Rightarrow> bool" where
  "better candidate baseline =
     (case (finite_or_none candidate, finite_or_none baseline) of (Some c, Some b) \<Rightarrow> flt b c | _ \<Rightarrow> False)"

definition worse :: "pyfloat option \<Rightarrow> pyfloat option \<Rightarrow> bool" where
  "worse candidate baseline =
     (case (finite_or_none candidate, finite_or_none baseline) of (Some c, Some b) \<Rightarrow> flt c b | _ \<Rightarrow> False)"

definition classify_development_result :: "session_figures \<Rightarrow> session_figures \<Rightarrow> string" where
  "classify_development_result b c =
     (let expectancy_better = better (sm_expectancy c) (sm_expectancy b);
          pf_better = better (sm_profit_factor c) (sm_profit_factor b);
          net_better = flt (sm_net_pnl b) (sm_net_pnl c);
          dd_material = flt (fadd (sm_max_drawdown b) MAX_DRAWDOWN_MATERIAL_ABS) (sm_max_drawdown c);
          improvements = of_bool expectancy_better + of_bool pf_better + of_bool net_better :: nat;
          deteriorations = of_bool (worse (sm_expectancy c) (sm_expectancy b)) +
            of_bool (worse (sm_profit_factor c) (sm_profit_factor b)) + of_bool (flt (sm_net_pnl c) (sm_net_pnl b)) :: nat
      in if expectancy_better \<and> pf_better \<and> net_better \<and> \<not> dd_material then ''IMPROVED''
         else if improvements = 0 \<or> 2 \<le> deteriorations then ''NOT_IMPROVED''
         else ''MIXED'')"

section \<open>Robustness\<close>

record robustness_variant =
  rv_name :: string
  rv_ema_fast :: int
  rv_ema_slow :: int
  rv_rsi_period :: int
  rv_rsi_exit :: pyfloat

definition variant :: "string \<Rightarrow> int \<Rightarrow> int \<Rightarrow> int \<Rightarrow> rat \<Rightarrow> robustness_variant" where
  "variant name fast slow period exit =
     \<lparr>rv_name = name, rv_ema_fast = fast, rv_ema_slow = slow, rv_rsi_period = period, rv_rsi_exit = Fin exit\<rparr>"

definition ROBUSTNESS_VARIANTS :: "robustness_variant list" where
  "ROBUSTNESS_VARIANTS =
     [variant ''baseline'' 20 50 14 80, variant ''ema-fast-18'' 18 50 14 80, variant ''ema-fast-22'' 22 50 14 80,
      variant ''ema-slow-45'' 20 45 14 80, variant ''ema-slow-55'' 20 55 14 80,
      variant ''rsi-exit-75'' 20 50 14 75, variant ''rsi-exit-85'' 20 50 14 85]"

definition variant_config :: "robustness_variant \<Rightarrow> ema_rsi_config" where
  "variant_config v =
     \<lparr>ec_fast = rv_ema_fast v, ec_slow = rv_ema_slow v, ec_rsi_period = rv_rsi_period v, ec_rsi_exit = rv_rsi_exit v\<rparr>"

record robustness_summary =
  rs_baseline_net_pnl :: pyfloat
  rs_variants :: nat
  rs_min_net_pnl :: pyfloat
  rs_max_net_pnl :: pyfloat
  rs_median_net_pnl :: pyfloat
  rs_stable :: string

definition summarize_robustness :: "(string \<times> pyfloat) list \<Rightarrow> string \<Rightarrow> robustness_summary result" where
  \<comment> \<open>the dict as its items; the keys are distinct, so sorting the items sorts by name\<close>
  "summarize_robustness nets baseline_name =
     (case map_of nets baseline_name of
        None \<Rightarrow> Inl (ValueError ''baseline ausente'')
      | Some baseline \<Rightarrow>
          let vals = map snd (sort_key fst nets) in
          bindE (fmin_list vals) (\<lambda>lo.
          bindE (fmax_list vals) (\<lambda>hi.
          bindE (median vals) (\<lambda>mid.
            Inr \<lparr>rs_baseline_net_pnl = baseline, rs_variants = length vals, rs_min_net_pnl = lo, rs_max_net_pnl = hi,
                 rs_median_net_pnl = mid,
                 rs_stable =
                   (if feq baseline (Fin 0) then ''INCONCLUSIVE''
                    else if list_all (\<lambda>x. feq x (Fin 0) \<or> (flt (Fin 0) x \<longleftrightarrow> flt (Fin 0) baseline)) vals then ''YES''
                    else ''NO'')\<rparr>))))"

section \<open>The accounting of the filter fits the gate\<close>

definition gated_pair :: "signal \<Rightarrow> signal \<Rightarrow> bool" where
  "gated_pair b c \<longleftrightarrow> (\<exists>g confirmed blocked. c = gate_signal g confirmed blocked b)"

lemma gated_counts:
  "list_all2 gated_pair bs cs \<Longrightarrow>
   length (filter (\<lambda>s. sig_action s = BUY) cs) + length (blocked_timestamps (zip bs cs)) =
     length (filter (\<lambda>s. sig_action s = BUY) bs)"
  by (induction rule: list_all2_induct) (auto simp: blocked_timestamps_def gated_pair_def gate_signal_action split: if_splits)

lemma gated_pairs:
  assumes "run_tracker (gated_on_candle is_open confirmed blocked) s cs = (s', Inr sigs)"
    and "run_tracker on_candle (gs_baseline s) cs = (b', Inr base)"
  shows "list_all2 gated_pair base sigs"
proof -
  obtain base' where "snd (run_tracker on_candle (gs_baseline s) cs) = Inr base'" "length base' = length cs"
    "length sigs = length cs"
    "\<forall>i < length cs. sigs ! i = gate_signal (is_open (gs_gate s ! (gs_index s + i))) confirmed blocked (base' ! i)"
    using gated_run[OF assms(1)] by blast
  then show ?thesis using assms(2) by (auto simp: list_all2_conv_all_nth gated_pair_def)
qed

lemma sign_counts:
  "length (filter (\<lambda>x. flt (Fin 0) x) xs) + length (filter (\<lambda>x. flt x (Fin 0)) xs) +
     length (filter (\<lambda>x. feq x (Fin 0)) xs) \<le> length xs"
proof (induction xs)
  case (Cons x xs)
  have "\<not> (flt (Fin 0) x \<and> flt x (Fin 0))" "\<not> (flt (Fin 0) x \<and> feq x (Fin 0))" "\<not> (flt x (Fin 0) \<and> feq x (Fin 0))"
    by (cases x; simp add: feq_def)+
  with Cons show ?case by auto
qed simp

section \<open>Properties\<close>

lemma gated_buys:
  assumes "length sigs = length base" "\<forall>i < length base. sigs ! i = gate_signal (opened i) confirmed blocked (base ! i)"
  shows "length (filter (\<lambda>s. sig_action s = BUY) sigs) = card {i. i < length base \<and> sig_action (base ! i) = BUY \<and> opened i}"
    and "length (blocked_timestamps (zip base sigs)) = card {i. i < length base \<and> sig_action (base ! i) = BUY \<and> \<not> opened i}"
  unfolding blocked_timestamps_def length_map length_filter_conv_card using assms
  by (auto simp: gate_signal_action intro!: arg_cong[where f = card] split: if_splits)

text \<open>
  C23 The accounting of the BTC filter fits the gate: for the signals of a gated strategy and of
  its baseline on the same candles, the attribution succeeds; the BUYs it counts as confirmed are
  the baseline's at the bars where the gate was open, those it counts as blocked the ones where it
  was closed, together all of them; and each blocked trade counts at most once as a winner, a loser
  or flat.  (It compares numbers of BUYs only, so it also accepts some signals no gate produces.)
\<close>

theorem attribution_accepts_the_gate:
  assumes "run_tracker (gated_on_candle is_open confirmed blocked) s cs = (s', Inr sigs)"
    and "run_tracker on_candle (gs_baseline s) cs = (b', Inr base)"
  shows "\<exists>a. btc_filter_attribution base sigs r = Inr a \<and>
      fa_btc_confirmed_buys a =
        card {i. i < length base \<and> sig_action (base ! i) = BUY \<and> is_open (gs_gate s ! (gs_index s + i))} \<and>
      fa_btc_blocked_buys a =
        card {i. i < length base \<and> sig_action (base ! i) = BUY \<and> \<not> is_open (gs_gate s ! (gs_index s + i))} \<and>
      fa_btc_confirmed_buys a + fa_btc_blocked_buys a = fa_baseline_buy_candidates a \<and>
      fa_blocked_baseline_winners a + fa_blocked_baseline_losers a + fa_blocked_baseline_flats a \<le> fa_blocked_baseline_trades a \<and>
      fa_blocked_baseline_trades a \<le> fa_btc_blocked_buys a"
proof -
  obtain base' where g: "snd (run_tracker on_candle (gs_baseline s) cs) = Inr base'" "length base' = length cs"
    "length sigs = length cs"
    "\<forall>i < length cs. sigs ! i = gate_signal (is_open (gs_gate s ! (gs_index s + i))) confirmed blocked (base' ! i)"
    using gated_run[OF assms(1)] by blast
  then have "base' = base" using assms(2) by simp
  with g have buys: "length sigs = length base"
    "\<forall>i < length base. sigs ! i = gate_signal (is_open (gs_gate s ! (gs_index s + i))) confirmed blocked (base ! i)" by simp_all
  let ?blocked = "List.map_filter (trades_by_entry (trades_from_trace (lr_events r))) (blocked_timestamps (zip base sigs))"
  have "length ?blocked \<le> length (blocked_timestamps (zip base sigs))" by (simp add: List.map_filter_def)
  then show ?thesis
    using gated_counts[OF gated_pairs[OF assms]] buys(1) gated_buys[OF buys]
      sign_counts[of "map tr_net_pnl ?blocked"]
    by (simp add: btc_filter_attribution_def Let_def)
qed

text \<open>What the attribution lets pass: a SELL turned into a BUY offsets a BUY turned into a SELL.\<close>

lemma attribution_accepts_more:
  "\<exists>a. btc_filter_attribution [make_signal 0 BUY [], make_signal 1 HOLD []] [make_signal 0 SELL [], make_signal 1 BUY []] r = Inr a"
  by (simp add: btc_filter_attribution_def make_signal_def blocked_timestamps_def)

text \<open>
  The verdict on development data is one-sided: when a candidate counts as improved over a
  baseline, that baseline counts as not improved over the candidate, and nothing is improved
  over itself.
\<close>

theorem verdict_is_one_sided:
  "classify_development_result b b \<noteq> ''IMPROVED'' \<and>
   (classify_development_result b c = ''IMPROVED'' \<longrightarrow> classify_development_result c b = ''NOT_IMPROVED'')"
proof (intro conjI impI)
  have "\<not> better x x" for x by (auto simp: better_def flt_irrefl split: option.split)
  then show "classify_development_result b b \<noteq> ''IMPROVED''" by (simp add: classify_development_result_def Let_def)
next
  assume i: "classify_development_result b c = ''IMPROVED''"
  have swap: "better x y \<Longrightarrow> worse y x \<and> \<not> better y x" for x y
    by (auto simp: better_def worse_def dest: flt_asym flt_imp_fle split: option.splits)
  from i have "better (sm_expectancy c) (sm_expectancy b)" "better (sm_profit_factor c) (sm_profit_factor b)"
    by (auto simp: classify_development_result_def Let_def split: if_splits)
  with swap show "classify_development_result c b = ''NOT_IMPROVED''"
    by (simp add: classify_development_result_def Let_def)
qed

lemma same_items:
  fixes xs ys :: "('k :: linorder \<times> 'v) list"
  assumes "mset xs = mset ys" "distinct (map fst xs)"
  shows "map_of xs = map_of ys \<and> sort_key fst xs = sort_key fst ys"
proof
  have "mset (map fst xs) = mset (map fst ys)" using assms(1) by simp
  then have d: "distinct (map fst ys)" using assms(2) mset_eq_imp_distinct_iff by blast
  have s: "set xs = set ys" using assms(1) by (rule mset_eq_setD)
  show "map_of xs = map_of ys" using map_of_inject_set[OF assms(2) d] s by blast
  have one: "filter (\<lambda>x. fst x = k) zs = (case map_of zs k of None \<Rightarrow> [] | Some v \<Rightarrow> [(k, v)])"
    if "distinct (map fst zs)" for zs :: "('k \<times> 'v) list" and k
    using that by (induction zs) (force split: option.split simp: filter_empty_conv map_of_eq_None_iff dest: map_of_SomeD)+
  show "sort_key fst xs = sort_key fst ys"
  proof (rule properties_for_sort_key)
    show "mset (sort_key fst ys) = mset xs" using assms(1) by simp
    show "filter (\<lambda>x. fst k = fst x) (sort_key fst ys) = filter (\<lambda>x. fst k = fst x) xs" for k
      using one[OF assms(2), of "fst k"] one[OF d, of "fst k"] map_of_inject_set[OF assms(2) d] s
      by (simp add: sort_key_stable eq_commute[of "fst k"])
  qed simp
qed

text \<open>
  The summary of the perturbations does not depend on the order in which the variants were
  run.
\<close>

theorem robustness_ignores_order:
  assumes "mset xs = mset ys" "distinct (map fst xs)"
  shows "summarize_robustness xs name = summarize_robustness ys name"
  using same_items[OF assms] unfolding summarize_robustness_def by (simp only:)

subsection \<open>Examples\<close>

definition example_report :: lab_session_result where
  "example_report =
     \<lparr>lr_experiment_spec_id = example_sid, lr_events = [], lr_metrics = summarize_lab_events [] (Fin 1000),
      lr_event_trace_hash = [], lr_metrics_hash_value = []\<rparr>"

theorem attribution_accepts_the_gate_witness:
  "\<exists>base a. snd (run_tracker on_candle (gs_baseline blocked_strategy) example_candles) = Inr base \<and>
     btc_filter_attribution base blocked_signals example_report = Inr a \<and> fa_btc_confirmed_buys a + fa_btc_blocked_buys a = fa_baseline_buy_candidates a"
proof -
  have "built (snd (run_tracker on_candle (gs_baseline blocked_strategy) example_candles))" by code_simp
  then obtain b' base where b: "run_tracker on_candle (gs_baseline blocked_strategy) example_candles = (b', Inr base)"
    using built_pair by blast
  from attribution_accepts_the_gate[OF blocked_example(2)[unfolded regime_on_candle_def] b, of example_report] b show ?thesis by auto
qed

theorem robustness_ignores_order_witness:
  "summarize_robustness [(''a'', Fin 1), (''baseline'', Fin 2)] ''baseline'' = summarize_robustness [(''baseline'', Fin 2), (''a'', Fin 1)] ''baseline''"
  by (rule robustness_ignores_order) simp_all

end
