(* ===== verification/Trades.thy ===== *)
theory Trades
  imports Holdout PyText "HOL-Library.AList" "HOL-Library.Product_Lexorder" "HOL-Library.Multiset"
begin

text \<open>
  The first two layers of the trade archive: the immutable downloads
  (\<open>infrastructure/medallion/bronze.py\<close>) and the canonical trades derived from them
  (\<open>infrastructure/medallion/silver.py\<close>).  A directory is its manifest, its files by name and its
  operations log; a file is written under a \<open>.part\<close> name and renamed, so only whole files appear.
  The bytes of a file, gzip, CSV, SHA-256 and the network are arguments (\<open>codec\<close>, \<open>fetch\<close>): a
  file is read as the rows that come before its end or before an error, and the network is an
  argument of each call, so it may answer the same URL differently every time.
  The results: a stored download is never overwritten and no day outside the scope is fetched;
  the canonical rows are the source rows in their total order; a transformation is deterministic,
  fails without a trace and is skipped when repeated.
\<close>

section \<open>Directories and files\<close>

record 'c codec =
  cd_magic :: "'c \<Rightarrow> bool"
    \<comment> \<open>the first two bytes are those of gzip\<close>
  cd_gzip :: "'c \<Rightarrow> unit result"
    \<comment> \<open>decompressing to the end\<close>
  cd_stream :: "'c \<Rightarrow> string list list \<times> unit result"
    \<comment> \<open>decompressing and reading as CSV: the rows read before the end or an error\<close>
  cd_write :: "string list list \<Rightarrow> 'c"
    \<comment> \<open>writing as CSV and compressing, with no timestamp and no name in the header\<close>
  cd_sha256 :: "'c \<Rightarrow> string"
  cd_size :: "'c \<Rightarrow> nat"

definition cd_rows :: "('c, 'm) codec_scheme \<Rightarrow> 'c \<Rightarrow> string list list result" where
  \<comment> \<open>the whole file\<close>
  "cd_rows cd c = (case cd_stream cd c of (rows, ending) \<Rightarrow> bindE ending (\<lambda>_. Inr rows))"

definition read_error :: "py_error \<Rightarrow> bool" where
  \<comment> \<open>\<open>OSError\<close>, \<open>EOFError\<close>, \<open>csv.Error\<close> and \<open>UnicodeDecodeError\<close>, which the readers catch; \<open>zlib.error\<close> is none of them\<close>
  "read_error e \<longleftrightarrow>
     (case e of
        NamedError name _ \<Rightarrow> List.member [''OSError'', ''EOFError'', ''csv.Error'', ''UnicodeDecodeError''] name
      | FileNotFoundError \<Rightarrow> True
      | PermissionError _ \<Rightarrow> True
      | _ \<Rightarrow> False)"

record 'e manifest =
  mf_schema_version :: "string option"
  mf_files :: "(string \<times> 'e option) list"
    \<comment> \<open>None: an entry that is not an object\<close>

datatype ops_event = Skipped string | Written string string | SchemaBackfill nat nat nat

record ('c, 'e) layer =
  la_manifest :: "'e manifest result option"
    \<comment> \<open>absent, unreadable or loaded\<close>
  la_files :: "(string \<times> 'c) list"
    \<comment> \<open>by relative path\<close>
  la_ops :: "ops_event list"

definition bronze_error :: "string \<Rightarrow> py_error" where "bronze_error msg = NamedError ''BronzeError'' msg"
definition hash_conflict :: "string \<Rightarrow> py_error" where "hash_conflict msg = NamedError ''HashConflictError'' msg"
definition invalid_row :: "string \<Rightarrow> py_error" where "invalid_row msg = NamedError ''InvalidRowError'' msg"
definition source_schema_error :: "string \<Rightarrow> py_error" where
  "source_schema_error msg = NamedError ''SourceSchemaError'' msg"

definition SOURCE_SCHEMA_V1 :: string where "SOURCE_SCHEMA_V1 = ''bybit-spot-trades-csv-gz-v1''"
definition SOURCE_SCHEMA_V2 :: string where "SOURCE_SCHEMA_V2 = ''bybit-spot-trades-csv-gz-v2''"
definition BRONZE_SCHEMA_VERSION :: string where "BRONZE_SCHEMA_VERSION = ''bybit-spot-trades-csv-gz-v1''"

definition load_manifest :: "('c, 'e) layer \<Rightarrow> 'e manifest result" where
  "load_manifest l =
     (case la_manifest l of
        None \<Rightarrow> Inr \<lparr>mf_schema_version = Some BRONZE_SCHEMA_VERSION, mf_files = []\<rparr>
      | Some r \<Rightarrow> r)"

definition entry_of :: "'e manifest \<Rightarrow> string \<Rightarrow> 'e option" where
  \<comment> \<open>\<open>files.get(name)\<close>, None unless it is an object\<close>
  "entry_of m n = (case map_of (mf_files m) n of Some (Some e) \<Rightarrow> Some e | _ \<Rightarrow> None)"

definition put_entry :: "string \<Rightarrow> 'e \<Rightarrow> 'e manifest \<Rightarrow> 'e manifest" where
  \<comment> \<open>the entry is set and the files are sorted\<close>
  "put_entry n e m = m\<lparr>mf_files := sort_key fst (AList.update n (Some e) (mf_files m))\<rparr>"

definition log_op :: "ops_event \<Rightarrow> ('c, 'e) layer \<Rightarrow> ('c, 'e) layer" where
  "log_op ev l = l\<lparr>la_ops := la_ops l @ [ev]\<rparr>"

definition store :: "string \<Rightarrow> 'c \<Rightarrow> 'e manifest \<Rightarrow> ops_event \<Rightarrow> ('c, 'e) layer \<Rightarrow> ('c, 'e) layer" where
  \<comment> \<open>manifest, rename and log, in this order\<close>
  "store n c m ev l =
     log_op ev (l\<lparr>la_manifest := Some (Inr m), la_files := AList.update n c (la_files l)\<rparr>)"

section \<open>Names\<close>

definition symbol_char :: "char \<Rightarrow> bool" where
  "symbol_char c \<longleftrightarrow> c \<in> set ''ABCDEFGHIJKLMNOPQRSTUVWXYZ0123456789''"

definition padded :: "nat \<Rightarrow> int \<Rightarrow> string" where
  "padded w i = (let s = int_text i in replicate (w - length s) (CHR ''0'') @ s)"

definition isoformat :: "date \<Rightarrow> string" where
  "isoformat d = padded 4 (date_year d) @ ''-'' @ padded 2 (date_month d) @ ''-'' @ padded 2 (date_day d)"

definition bronze_filename :: "string \<Rightarrow> date \<Rightarrow> string result" where
  "bronze_filename symbol d =
     (if list_all symbol_char symbol \<and> 2 \<le> length symbol \<and> length symbol \<le> 20
      then Inr (symbol @ ''_'' @ isoformat d @ ''.csv.gz'')
      else Inl (NamedError ''UnexpectedFilenameError'' ''symbol''))"

definition is_digit :: "char \<Rightarrow> bool" where "is_digit c \<longleftrightarrow> c \<in> set digits"

definition filename_shape :: "string \<Rightarrow> bool" where
  \<comment> \<open>\<open>[A-Z0-9]{2,20}_\d{4}-\d{2}-\d{2}\.csv\.gz\<close>\<close>
  "filename_shape name \<longleftrightarrow>
     (let symbol = takeWhile symbol_char name; rest = dropWhile symbol_char name in
      2 \<le> length symbol \<and> length symbol \<le> 20 \<and> length rest = 18 \<and> hd rest = CHR ''_'' \<and>
      list_all is_digit (take 4 (drop 1 rest)) \<and> rest ! 5 = CHR ''-'' \<and> list_all is_digit (take 2 (drop 6 rest)) \<and>
      rest ! 8 = CHR ''-'' \<and> list_all is_digit (take 2 (drop 9 rest)) \<and> drop 11 rest = ''.csv.gz'')"

fun contains :: "string \<Rightarrow> string \<Rightarrow> bool" where
  \<comment> \<open>\<open>part in text\<close>\<close>
  "contains part [] = (part = [])"
| "contains part (c # cs) = (take (length part) (c # cs) = part \<or> contains part cs)"

definition validate_filename :: "string \<Rightarrow> string \<Rightarrow> date \<Rightarrow> unit result" where
  "validate_filename name symbol d =
     (if \<not> filename_shape name \<or> CHR ''/'' \<in> set name \<or> CHR 0x5C \<in> set name \<or> contains ''..'' name
      then Inl (NamedError ''UnexpectedFilenameError'' name)
      else bindE (bronze_filename symbol d) (\<lambda>expected.
        raise_if (name \<noteq> expected) (NamedError ''UnexpectedFilenameError'' name)))"

definition rstrip_slash :: "string \<Rightarrow> string" where
  "rstrip_slash s = rev (dropWhile (\<lambda>c. c = CHR ''/'') (rev s))"

definition PUBLIC_SPOT :: string where "PUBLIC_SPOT = ''https://public.bybit.com/spot''"

definition source_url :: "string \<Rightarrow> string \<Rightarrow> date \<Rightarrow> string result" where
  "source_url base_url symbol d =
     (let base = rstrip_slash base_url in
      if take (length PUBLIC_SPOT) base \<noteq> PUBLIC_SPOT \<or> contains ''/trading'' base
      then Inl (bronze_error ''base URL no permitida'')
      else bindE (bronze_filename symbol d) (\<lambda>name.
           bindE (validate_filename name symbol d) (\<lambda>_.
             Inr (base @ ''/'' @ symbol @ ''/'' @ name))))"

definition partition_of :: "string \<Rightarrow> string \<Rightarrow> string" where
  \<comment> \<open>the path of a day's file, relative to its directory\<close>
  "partition_of day_text name = ''date='' @ day_text @ ''/'' @ name"

section \<open>Bronze\<close>

record bronze_entry =
  be_bytes :: nat
  be_date :: "string option"
  be_schema_version :: "string option"
  be_sha256 :: "string option"
  be_source_url :: string
  be_symbol :: "string option"
    \<comment> \<open>None: the field is absent or not a text\<close>

definition BRONZE_HEADER_V1 :: "string list" where
  "BRONZE_HEADER_V1 = [''id'', ''timestamp'', ''price'', ''volume'', ''side'']"
definition BRONZE_HEADER_V2 :: "string list" where
  "BRONZE_HEADER_V2 = [''id'', ''timestamp'', ''price'', ''volume'', ''side'', ''rpi'']"

definition SOURCE_HEADERS :: "(string \<times> string list) list" where
  "SOURCE_HEADERS = [(SOURCE_SCHEMA_V1, BRONZE_HEADER_V1), (SOURCE_SCHEMA_V2, BRONZE_HEADER_V2)]"

definition detect_source_schema :: "string list \<Rightarrow> string result" where
  "detect_source_schema header =
     (case find (\<lambda>(version, expected). header = expected) SOURCE_HEADERS of
        Some (version, _) \<Rightarrow> Inr version
      | None \<Rightarrow> Inl (source_schema_error ''header de fuente desconocido u orden alterado''))"

definition read_source_schema :: "'c codec \<Rightarrow> 'c \<Rightarrow> string result" where
  "read_source_schema cd c =
     (case cd_stream cd c of
        (header # _, _) \<Rightarrow> detect_source_schema header
      | ([], Inr _) \<Rightarrow> Inl (source_schema_error ''archivo vacio'')
      | ([], Inl e) \<Rightarrow> Inl (if read_error e then source_schema_error ''cabecera ilegible'' else e))"

definition validate_gzip :: "'c codec \<Rightarrow> 'c \<Rightarrow> unit result" where
  \<comment> \<open>only \<open>EOFError\<close> and \<open>OSError\<close> are caught\<close>
  "validate_gzip cd c =
     (if \<not> cd_magic cd c then Inl (NamedError ''InvalidGzipError'' ''magic gzip ausente'')
      else case cd_gzip cd c of
        Inr _ \<Rightarrow> Inr ()
      | Inl e \<Rightarrow> Inl (if read_error e then NamedError ''InvalidGzipError'' ''gzip corrupto'' else e))"

datatype layer_status = SKIPPED | DONE

record download_result =
  dr_filename :: string
  dr_status :: layer_status
  dr_sha256 :: string
  dr_bytes :: nat

type_synonym 'c bronze = "('c, bronze_entry) layer"

record 'c download_env =
  de_codec :: "'c codec"
  de_fetch :: "string \<Rightarrow> 'c result"
    \<comment> \<open>the network during one call: the bytes at a URL\<close>
  de_base_url :: string
  de_scope :: scope_arg

definition fetched ::
  "'c download_env \<Rightarrow> 'c bronze \<Rightarrow> string \<Rightarrow> date \<Rightarrow> string \<Rightarrow> string \<Rightarrow> bronze_entry manifest \<Rightarrow> 'c \<Rightarrow>
   'c bronze \<times> download_result result" where
  \<comment> \<open>what follows the download: validation, hash, manifest, rename\<close>
  "fetched env l symbol d name url m c =
     (case bindE (validate_gzip (de_codec env) c) (\<lambda>_. read_source_schema (de_codec env) c) of
        Inl e \<Rightarrow> (l, Inl e)
      | Inr schema \<Rightarrow>
          (let sha = cd_sha256 (de_codec env) c; size = cd_size (de_codec env) c;
               m' = put_entry name \<lparr>be_bytes = size, be_date = Some (isoformat d), be_schema_version = Some schema,
                      be_sha256 = Some sha, be_source_url = url, be_symbol = Some symbol\<rparr> m
           in (store (partition_of (isoformat d) name) c m' (Written name sha) l,
               Inr \<lparr>dr_filename = name, dr_status = DONE, dr_sha256 = sha, dr_bytes = size\<rparr>)))"

definition present ::
  "'c download_env \<Rightarrow> 'c bronze \<Rightarrow> string \<Rightarrow> bronze_entry manifest \<Rightarrow> 'c \<Rightarrow> 'c bronze \<times> download_result result" where
  \<comment> \<open>the branch of a file that exists\<close>
  "present env l name m c =
     (let sha = cd_sha256 (de_codec env) c in
      case entry_of m name of
        None \<Rightarrow> (l, Inl (hash_conflict ''existe sin entrada en manifest.json''))
      | Some e \<Rightarrow>
          if be_sha256 e \<noteq> Some sha then (l, Inl (hash_conflict ''hash local != manifest''))
          else (log_op (Skipped name) l,
                Inr \<lparr>dr_filename = name, dr_status = SKIPPED, dr_sha256 = sha, dr_bytes = cd_size (de_codec env) c\<rparr>))"

definition download_day ::
  "'c download_env \<Rightarrow> 'c bronze \<Rightarrow> string \<times> day_arg \<Rightarrow> 'c bronze \<times> string list \<times> download_result result" where
  \<comment> \<open>with the URLs it fetched\<close>
  "download_day env l arg =
     (case arg of (symbol, day) \<Rightarrow>
      case bindE (ensure_ingest_allowed day (de_scope env)) (\<lambda>_.
           bindE (require_day day) (\<lambda>d.
           bindE (bronze_filename symbol d) (\<lambda>name.
           bindE (validate_filename name symbol d) (\<lambda>_.
           bindE (source_url (de_base_url env) symbol d) (\<lambda>url.
           bindE (load_manifest l) (\<lambda>m. Inr (d, name, url, m))))))) of
        Inl e \<Rightarrow> (l, [], Inl e)
      | Inr (d, name, url, m) \<Rightarrow>
          (case map_of (la_files l) (partition_of (isoformat d) name) of
             Some c \<Rightarrow> (case present env l name m c of (l', r) \<Rightarrow> (l', [], r))
           | None \<Rightarrow>
               (case de_fetch env url of
                  Inl e \<Rightarrow> (l, [url], Inl e)
                | Inr c \<Rightarrow> (case fetched env l symbol d name url m c of (l', r) \<Rightarrow> (l', [url], r)))))"

fun download_days :: "'c download_env \<Rightarrow> 'c bronze \<Rightarrow> string \<Rightarrow> day_arg list \<Rightarrow> 'c bronze \<times> string list \<times> download_result list result" where
  "download_days env l symbol [] = (l, [], Inr [])"
| "download_days env l symbol (d # ds) =
     (case download_day env l (symbol, d) of
        (l1, us, Inl e) \<Rightarrow> (l1, us, Inl e)
      | (l1, us, Inr r) \<Rightarrow>
          (case download_days env l1 symbol ds of
             (l2, vs, Inl e) \<Rightarrow> (l2, us @ vs, Inl e)
           | (l2, vs, Inr rs) \<Rightarrow> (l2, us @ vs, Inr (r # rs))))"


subsection \<open>Schema backfill\<close>

record backfill_result =
  bf_scanned :: nat
  bf_changed :: nat
  bf_v1 :: nat
  bf_v2 :: nat

definition count_schema :: "string \<Rightarrow> bool \<Rightarrow> backfill_result \<Rightarrow> backfill_result" where
  "count_schema schema changed r =
     \<lparr>bf_scanned = bf_scanned r + 1, bf_changed = bf_changed r + (if changed then 1 else 0),
      bf_v1 = bf_v1 r + (if schema = SOURCE_SCHEMA_V1 then 1 else 0),
      bf_v2 = bf_v2 r + (if schema = SOURCE_SCHEMA_V1 then 0 else 1)\<rparr>"

definition set_entry :: "string \<Rightarrow> 'e \<Rightarrow> 'e manifest \<Rightarrow> 'e manifest" where
  \<comment> \<open>the entry is an object of the loaded manifest: changed in place\<close>
  "set_entry n e m = m\<lparr>mf_files := AList.update n (Some e) (mf_files m)\<rparr>"

definition sort_files :: "'e manifest \<Rightarrow> 'e manifest" where
  "sort_files m = m\<lparr>mf_files := sort_key fst (mf_files m)\<rparr>"

definition backfill_step ::
  "'c codec \<Rightarrow> (string \<Rightarrow> date option) \<Rightarrow> 'c bronze \<Rightarrow> bronze_entry manifest \<times> backfill_result \<Rightarrow> string \<Rightarrow>
   (bronze_entry manifest \<times> backfill_result) result" where
  \<comment> \<open>\<open>fromiso\<close>: \<open>date.fromisoformat\<close>, None when it raises\<close>
  "backfill_step cd fromiso l st name =
     (case entry_of (fst st) name of
        None \<Rightarrow> Inl (bronze_error ''entrada invalida en manifest Bronze'')
      | Some e \<Rightarrow>
          (case (be_date e, be_symbol e, be_sha256 e) of
             (Some day_raw, Some symbol, Some recorded) \<Rightarrow>
               (case fromiso day_raw of
                  None \<Rightarrow> Inl (bronze_error ''fecha invalida en manifest Bronze'')
                | Some d \<Rightarrow>
                    bindE (ensure_development_day (Day d)) (\<lambda>_.
                    bindE (validate_filename name symbol d) (\<lambda>_.
                    case map_of (la_files l) (partition_of day_raw name) of
                      None \<Rightarrow> Inl (hash_conflict ''archivo Bronze ausente'')
                    | Some c \<Rightarrow>
                        if cd_sha256 cd c \<noteq> recorded then Inl (hash_conflict ''hash local != manifest'')
                        else bindE (read_source_schema cd c) (\<lambda>schema.
                          let changed = (be_schema_version e \<noteq> Some schema) in
                          Inr (set_entry name (e\<lparr>be_schema_version := Some schema\<rparr>) (fst st),
                               count_schema schema changed (snd st))))))
           | _ \<Rightarrow> Inl (bronze_error ''entrada Bronze incompleta'')))"

definition close_backfill :: "('c, 'e) layer \<Rightarrow> 'e manifest \<times> backfill_result \<Rightarrow> ('c, 'e) layer" where
  "close_backfill l st =
     (case st of (m, r) \<Rightarrow>
        if bf_changed r = 0 then l
        else log_op (SchemaBackfill (bf_changed r) (bf_v1 r) (bf_v2 r)) (l\<lparr>la_manifest := Some (Inr (sort_files m))\<rparr>))"

definition bronze_backfill :: "'c codec \<Rightarrow> (string \<Rightarrow> date option) \<Rightarrow> 'c bronze \<Rightarrow> 'c bronze \<times> backfill_result result" where
  "bronze_backfill cd fromiso l =
     (case bindE (load_manifest l) (\<lambda>m.
             foldE (backfill_step cd fromiso l) (m, \<lparr>bf_scanned = 0, bf_changed = 0, bf_v1 = 0, bf_v2 = 0\<rparr>) (sort (map fst (mf_files m)))) of
        Inl e \<Rightarrow> (l, Inl e)
      | Inr st \<Rightarrow> (close_backfill l st, Inr (snd st)))"

section \<open>Reading Bronze rows\<close>

definition line_body :: "string \<Rightarrow> string" where
  \<comment> \<open>what \<open>^...$\<close> sees: a final newline does not count\<close>
  "line_body s = (if s \<noteq> [] \<and> last s = CHR 0x0A then butlast s else s)"

definition is_uint :: "string \<Rightarrow> bool" where
  \<comment> \<open>\<open>^[0-9]+$\<close>\<close>
  "is_uint s \<longleftrightarrow> line_body s \<noteq> [] \<and> list_all is_digit (line_body s)"

definition is_dec :: "string \<Rightarrow> bool" where
  \<comment> \<open>\<open>^[0-9]+(\.[0-9]+)?$\<close>\<close>
  "is_dec s \<longleftrightarrow>
     (let whole = takeWhile is_digit (line_body s); rest = dropWhile is_digit (line_body s) in
      whole \<noteq> [] \<and> (rest = [] \<or> hd rest = CHR ''.'' \<and> tl rest \<noteq> [] \<and> list_all is_digit (tl rest)))"

definition int_of :: "string \<Rightarrow> int result" where
  \<comment> \<open>\<open>int\<close> of a text of digits, which Python refuses beyond 4300\<close>
  "int_of s =
     (let ds = filter is_digit s in
      if 4300 < length ds then Inl (ValueError ''Exceeds the limit (4300 digits) for integer string conversion'')
      else Inr (int (digit_value ds)))"

definition VALID_SIDES :: "string list" where "VALID_SIDES = [''buy'', ''sell'']"

record source_row =
  sr_timestamp :: string
  sr_price :: string
  sr_quantity :: string
  sr_side :: string
  sr_id :: string
  sr_row_number :: string

definition source_row_of :: "nat \<Rightarrow> nat \<times> string list \<Rightarrow> (int \<times> source_row) result" where
  \<comment> \<open>one row of the file with its number, and its timestamp as a number\<close>
  "source_row_of columns arg =
     (case arg of (row_number, row) \<Rightarrow>
      if length row \<noteq> columns then Inl (invalid_row ''columnas'')
      else
        let native_id = row ! 0; timestamp = row ! 1; price = row ! 2; quantity = row ! 3; side = row ! 4 in
        if \<not> is_uint native_id then Inl (invalid_row ''id'')
        else if \<not> is_uint timestamp then Inl (invalid_row ''timestamp'')
        else if \<not> is_dec price then Inl (invalid_row ''price'')
        else if \<not> is_dec quantity then Inl (invalid_row ''quantity'')
        else if \<not> List.member VALID_SIDES side then Inl (invalid_row ''side'')
        else bindE (int_of timestamp) (\<lambda>ts.
          Inr (ts, \<lparr>sr_timestamp = timestamp, sr_price = price, sr_quantity = quantity, sr_side = side,
                    sr_id = native_id, sr_row_number = nat_text row_number\<rparr>)))"

record bronze_reading =
  rd_rows :: "source_row list"
  rd_min_ts :: int
  rd_max_ts :: int
  rd_source_order_preserved :: bool
  rd_source_schema :: string

fun note_ts :: "int \<times> int \<times> int \<times> bool \<Rightarrow> int \<Rightarrow> int \<times> int \<times> int \<times> bool" where
  \<comment> \<open>least, greatest and previous timestamp, and whether the order holds\<close>
  "note_ts (lo, hi, prev, ordered) ts =
     (if lo < 0 \<or> ts < lo then ts else lo, if hi < ts then ts else hi, ts, ordered \<and> prev \<le> ts)"

definition read_bronze_rows :: "'c codec \<Rightarrow> 'c \<Rightarrow> bronze_reading result" where
  "read_bronze_rows cd c =
     bindE (validate_gzip cd c) (\<lambda>_.
     case cd_stream cd c of
       ([], ending) \<Rightarrow> bindE ending (\<lambda>_. Inl (invalid_row ''archivo vacio''))
     | (header # body, ending) \<Rightarrow>
         (case detect_source_schema header of
            Inl _ \<Rightarrow> Inl (invalid_row ''header'')
          | Inr schema \<Rightarrow>
              bindE (mapE (source_row_of (length header)) (enumerate 1 body)) (\<lambda>rows.
              bindE ending (\<lambda>_.
              if rows = [] then Inl (invalid_row ''sin filas de datos'')
              else case foldl note_ts (- 1, - 1, - 1, True) (map fst rows) of (lo, hi, _, ordered) \<Rightarrow>
                Inr \<lparr>rd_rows = map snd rows, rd_min_ts = lo, rd_max_ts = hi, rd_source_order_preserved = ordered,
                     rd_source_schema = schema\<rparr>))))"

section \<open>Silver\<close>

definition SILVER_SCHEMA_VERSION :: string where "SILVER_SCHEMA_VERSION = ''bybit-spot-trades-silver-v1''"
definition ORDERING_FIDELITY :: string where "ORDERING_FIDELITY = ''PARTIAL''"

definition SILVER_HEADER :: "string list" where
  "SILVER_HEADER = [''event_timestamp'', ''symbol'', ''price'', ''quantity'', ''taker_side'', ''native_trade_id'',
     ''native_sequence'', ''source_file'', ''source_file_sha256'', ''source_row_number'']"

record silver_entry =
  se_date :: "string option"
  se_max_timestamp :: int
  se_min_timestamp :: int
  se_ordering_fidelity :: string
  se_output_sha256 :: "string option"
  se_row_count :: "int option"
  se_schema_version :: string
  se_source_bronze_path :: "string option"
  se_source_bronze_sha256 :: "string option"
  se_source_order_preserved :: bool
  se_source_schema_version :: "string option"
  se_symbol :: string

type_synonym 'c silver = "('c, silver_entry) layer"

definition number :: "string \<Rightarrow> nat" where
  \<comment> \<open>the value of a text \<open>int_of\<close> has accepted\<close>
  "number s = digit_value (filter is_digit s)"

definition canonical_order :: "source_row list \<Rightarrow> source_row list" where
  "canonical_order = sort_key (\<lambda>r. (number (sr_timestamp r), number (sr_row_number r)))"

definition silver_line :: "string \<Rightarrow> string \<Rightarrow> string \<Rightarrow> source_row \<Rightarrow> string list" where
  "silver_line symbol source_file source_sha r =
     [sr_timestamp r, symbol, sr_price r, sr_quantity r, sr_side r, sr_id r, [], source_file, source_sha, sr_row_number r]"

definition silver_content :: "'c codec \<Rightarrow> string \<Rightarrow> string \<Rightarrow> string \<Rightarrow> source_row list \<Rightarrow> 'c" where
  "silver_content cd symbol source_file source_sha rows =
     cd_write cd (SILVER_HEADER # map (silver_line symbol source_file source_sha) (canonical_order rows))"

definition verify_roundtrip :: "'c codec \<Rightarrow> string list \<Rightarrow> 'c \<Rightarrow> nat \<Rightarrow> unit result" where
  "verify_roundtrip cd header c expected =
     bindE (validate_gzip cd c) (\<lambda>_.
     case cd_stream cd c of
       ([], ending) \<Rightarrow> bindE ending (\<lambda>_. Inl (NamedError ''StopIteration'' []))
     | (h # body, ending) \<Rightarrow>
         bindE (raise_if (h \<noteq> header) (NamedError ''SilverError'' ''header silver round-trip invalido'')) (\<lambda>_.
         bindE ending (\<lambda>_. raise_if (length body \<noteq> expected) (NamedError ''SilverError'' ''round-trip rows''))))"

record silver_result =
  sv_filename :: string
  sv_status :: layer_status
  sv_sha256 :: string
  sv_rows :: int

definition bronze_source :: "'c codec \<Rightarrow> 'c bronze \<Rightarrow> string \<Rightarrow> string \<Rightarrow> ('c \<times> string \<times> bronze_entry) result" where
  \<comment> \<open>the Bronze file, its hash and its entry, which agree\<close>
  "bronze_source cd b day_text name =
     bindE (load_manifest b) (\<lambda>m.
     case entry_of m name of
       None \<Rightarrow> Inl (hash_conflict ''sin entrada en manifest Bronze'')
     | Some e \<Rightarrow>
         (case map_of (la_files b) (partition_of day_text name) of
            None \<Rightarrow> Inl (hash_conflict ''archivo Bronze ausente'')
          | Some c \<Rightarrow>
              if be_sha256 e \<noteq> Some (cd_sha256 cd c) then Inl (hash_conflict ''Bronze hash mismatch'')
              else Inr (c, cd_sha256 cd c, e)))"

definition silver_present ::
  "'c codec \<Rightarrow> 'c silver \<Rightarrow> silver_entry manifest \<Rightarrow> string \<Rightarrow> string \<Rightarrow> 'c \<Rightarrow> 'c silver \<times> silver_result result" where
  \<comment> \<open>the branch of an output that exists\<close>
  "silver_present cd l m name bronze_sha c =
     (case entry_of m name of
        None \<Rightarrow> (l, Inl (hash_conflict ''output Silver sin entrada en manifest''))
      | Some e \<Rightarrow>
          if se_output_sha256 e \<noteq> Some (cd_sha256 cd c) then (l, Inl (hash_conflict ''output Silver alterado''))
          else if se_source_bronze_sha256 e \<noteq> Some bronze_sha
          then (l, Inl (hash_conflict ''Bronze cambio respecto al linaje Silver registrado''))
          else (log_op (Skipped name) l,
                (case se_row_count e of
                   None \<Rightarrow> Inl KeyError
                 | Some n \<Rightarrow> Inr \<lparr>sv_filename = name, sv_status = SKIPPED, sv_sha256 = cd_sha256 cd c, sv_rows = n\<rparr>)))"

definition silver_build ::
  "'c codec \<Rightarrow> string \<Rightarrow> string \<Rightarrow> string \<Rightarrow> 'c \<times> string \<times> bronze_entry \<Rightarrow> ('c \<times> string \<times> silver_entry \<times> int) result" where
  \<comment> \<open>the output, its hash, its entry and its number of rows\<close>
  "silver_build cd symbol day_text name src =
     (case src of (bc, bronze_sha, be) \<Rightarrow>
      bindE (read_bronze_rows cd bc) (\<lambda>rd.
      bindE (raise_if (case be_schema_version be of None \<Rightarrow> False | Some s \<Rightarrow> s \<noteq> rd_source_schema rd)
               (hash_conflict ''schema_version manifest != detectado'')) (\<lambda>_.
      let n = length (rd_rows rd); path = partition_of day_text name;
          out = silver_content cd symbol path bronze_sha (rd_rows rd)
      in bindE (verify_roundtrip cd SILVER_HEADER out n) (\<lambda>_.
           Inr (out, cd_sha256 cd out,
             \<lparr>se_date = Some day_text, se_max_timestamp = rd_max_ts rd, se_min_timestamp = rd_min_ts rd,
              se_ordering_fidelity = ORDERING_FIDELITY, se_output_sha256 = Some (cd_sha256 cd out),
              se_row_count = Some (int n), se_schema_version = SILVER_SCHEMA_VERSION, se_source_bronze_path = Some path,
              se_source_bronze_sha256 = Some bronze_sha, se_source_order_preserved = rd_source_order_preserved rd,
              se_source_schema_version = Some (rd_source_schema rd), se_symbol = symbol\<rparr>, int n)))))"

definition silver_source ::
  "'c codec \<Rightarrow> scope_arg \<Rightarrow> 'c bronze \<Rightarrow> string \<times> day_arg \<Rightarrow> (string \<times> string \<times> 'c \<times> string \<times> bronze_entry) result" where
  \<comment> \<open>what \<open>transform_day\<close> checks before it looks at its own directory: day, name and source\<close>
  "silver_source cd scope b arg =
     (case arg of (symbol, day) \<Rightarrow>
      bindE (ensure_ingest_allowed day scope) (\<lambda>_.
      bindE (require_day day) (\<lambda>d.
      bindE (bronze_filename symbol d) (\<lambda>name.
      bindE (validate_filename name symbol d) (\<lambda>_.
      bindE (bronze_source cd b (isoformat d) name) (\<lambda>src. Inr (isoformat d, name, src)))))))"

definition silver_day :: "'c codec \<Rightarrow> scope_arg \<Rightarrow> 'c bronze \<Rightarrow> 'c silver \<Rightarrow> string \<times> day_arg \<Rightarrow> 'c silver \<times> silver_result result" where
  \<comment> \<open>\<open>transform_day\<close>\<close>
  "silver_day cd scope b l arg =
     (case bindE (silver_source cd scope b arg) (\<lambda>src. bindE (load_manifest l) (\<lambda>m. Inr (src, m))) of
        Inl e \<Rightarrow> (l, Inl e)
      | Inr ((day_text, name, src), m0) \<Rightarrow>
          (let m = m0\<lparr>mf_schema_version := Some SILVER_SCHEMA_VERSION\<rparr>; path = partition_of day_text name in
           case map_of (la_files l) path of
             Some c \<Rightarrow> silver_present cd l m name (fst (snd src)) c
           | None \<Rightarrow>
               (case silver_build cd (fst arg) day_text name src of
                  Inl e \<Rightarrow> (l, Inl e)
                | Inr (out, sha, e, n) \<Rightarrow>
                    (store path out (put_entry name e m) (Written name sha) l,
                     Inr \<lparr>sv_filename = name, sv_status = DONE, sv_sha256 = sha, sv_rows = n\<rparr>))))"

definition silver_days ::
  "'c codec \<Rightarrow> scope_arg \<Rightarrow> 'c bronze \<Rightarrow> 'c silver \<Rightarrow> string \<Rightarrow> day_arg list \<Rightarrow> 'c silver \<times> silver_result list result" where
  "silver_days cd scope b l symbol days = run_tracker (silver_day cd scope b) l (map (Pair symbol) days)"

subsection \<open>Schema backfill\<close>

definition safe_path :: "string \<Rightarrow> bool" where
  \<comment> \<open>not absolute, and no component is \<open>..\<close>\<close>
  "safe_path p \<longleftrightarrow> take 1 p \<noteq> ''/'' \<and> \<not> contains ''/../'' (''/'' @ p @ ''/'')"

definition silver_backfill_step ::
  "'c codec \<Rightarrow> (string \<Rightarrow> date option) \<Rightarrow> 'c bronze \<Rightarrow> string \<Rightarrow> silver_entry manifest \<times> backfill_result \<Rightarrow> string \<Rightarrow>
   (silver_entry manifest \<times> backfill_result) result" where
  "silver_backfill_step cd fromiso b symbol st name =
     (case entry_of (fst st) name of
        None \<Rightarrow> Inl (bronze_error ''entrada invalida en manifest Silver'')
      | Some e \<Rightarrow>
          (case (se_date e, se_source_bronze_path e, se_source_bronze_sha256 e) of
             (Some day_raw, Some source_path, Some recorded) \<Rightarrow>
               (case fromiso day_raw of
                  None \<Rightarrow> Inl (bronze_error ''fecha invalida en manifest Silver'')
                | Some d \<Rightarrow>
                    bindE (ensure_development_day (Day d)) (\<lambda>_.
                    bindE (validate_filename name symbol d) (\<lambda>_.
                    if \<not> safe_path source_path then Inl (bronze_error ''source_bronze_path invalido'')
                    else case map_of (la_files b) source_path of
                      None \<Rightarrow> Inl (hash_conflict ''Bronze de origen ausente'')
                    | Some c \<Rightarrow>
                        if cd_sha256 cd c \<noteq> recorded then Inl (hash_conflict ''Bronze de origen alterado'')
                        else bindE (read_source_schema cd c) (\<lambda>schema.
                          let changed = (se_source_schema_version e \<noteq> Some schema) in
                          Inr (set_entry name (e\<lparr>se_source_schema_version := Some schema\<rparr>) (fst st),
                               count_schema schema changed (snd st))))))
           | _ \<Rightarrow> Inl (bronze_error ''entrada Silver incompleta'')))"

definition silver_backfill ::
  "'c codec \<Rightarrow> (string \<Rightarrow> date option) \<Rightarrow> 'c bronze \<Rightarrow> 'c silver \<Rightarrow> string \<Rightarrow> 'c silver \<times> backfill_result result" where
  "silver_backfill cd fromiso b l symbol =
     (case bindE (load_manifest l) (\<lambda>m.
             foldE (silver_backfill_step cd fromiso b symbol) (m, \<lparr>bf_scanned = 0, bf_changed = 0, bf_v1 = 0, bf_v2 = 0\<rparr>)
               (sort (map fst (mf_files m)))) of
        Inl e \<Rightarrow> (l, Inl e)
      | Inr st \<Rightarrow> (close_backfill l st, Inr (snd st)))"


section \<open>Manifests\<close>

lemma map_of_first: "map_of xs k = (case filter (\<lambda>x. fst x = k) xs of [] \<Rightarrow> None | y # _ \<Rightarrow> Some (snd y))"
  by (induction xs) auto

lemma map_of_sort_key [simp]: "map_of (sort_key fst xs) k = map_of xs k"
  by (simp add: map_of_first sort_key_stable)

lemma map_of_update [simp]: "map_of (AList.update k v xs) = (map_of xs)(k \<mapsto> v)"
  by (rule update_conv')

lemma entry_of_put [simp]: "entry_of (put_entry n e m) k = (if k = n then Some e else entry_of m k)"
  by (simp add: entry_of_def put_entry_def)

lemma entry_of_version [simp]: "entry_of (m\<lparr>mf_schema_version := v\<rparr>) = entry_of m"
  by (simp add: entry_of_def fun_eq_iff)

lemma layer_ops [simp]:
  "la_manifest (log_op ev l) = la_manifest l" "la_files (log_op ev l) = la_files l"
  "la_manifest (store p c m ev l) = Some (Inr m)" "map_of (la_files (store p c m ev l)) = (map_of (la_files l))(p \<mapsto> c)"
  by (simp_all add: log_op_def store_def)

lemma symbol_not_underscore: "\<not> symbol_char (CHR ''_'')"
  by (simp add: symbol_char_def)

lemma filename_determines_day:
  assumes "bronze_filename s d = Inr name" "bronze_filename s' d' = Inr name"
  shows "s = s' \<and> isoformat d = isoformat d'"
proof -
  have n: "name = s @ ''_'' @ isoformat d @ ''.csv.gz''" "name = s' @ ''_'' @ isoformat d' @ ''.csv.gz''"
    "list_all symbol_char s" "list_all symbol_char s'"
    using assms by (auto simp: bronze_filename_def split: if_splits)
  have split: "takeWhile symbol_char (t @ ''_'' @ r) = t" if "list_all symbol_char t" for t r
    using that symbol_not_underscore by (induction t) auto
  have "takeWhile symbol_char name = s" "takeWhile symbol_char name = s'"
    using split[OF n(3), of "isoformat d @ ''.csv.gz''"] split[OF n(4), of "isoformat d' @ ''.csv.gz''"]
    by (simp_all only: n(1,2)[symmetric])
  then show ?thesis using n(1,2) by auto
qed

section \<open>Bronze is append-only\<close>

definition bronze_step :: "'c codec \<Rightarrow> 'c bronze \<Rightarrow> 'c download_env \<times> string \<times> day_arg \<Rightarrow> 'c bronze" where
  \<comment> \<open>one call, with the network, the base URL and the scope of that call; only the codec is the same for all\<close>
  "bronze_step cd l call = (case call of (env, arg) \<Rightarrow> fst (download_day (env\<lparr>de_codec := cd\<rparr>) l arg))"

definition new_layer :: "('c, 'e) layer" where
  "new_layer = \<lparr>la_manifest = None, la_files = [], la_ops = []\<rparr>"

definition bronze_inv :: "'c codec \<Rightarrow> 'c bronze \<Rightarrow> bool" where
  \<comment> \<open>every stored file lies at the place its name says and has an entry with its hash\<close>
  "bronze_inv cd l \<longleftrightarrow>
     (\<forall>p c. map_of (la_files l) p = Some c \<longrightarrow>
        (\<exists>symbol d name m e. bronze_filename symbol d = Inr name \<and> p = partition_of (isoformat d) name \<and>
           la_manifest l = Some (Inr m) \<and> entry_of m name = Some e \<and> be_sha256 e = Some (cd_sha256 cd c)))"

lemma fetched_cases:
  assumes "fetched env l symbol d name url m c = (l', r)"
  shows "l' = l \<or> (\<exists>e ev. be_sha256 e = Some (cd_sha256 (de_codec env) c) \<and>
    l' = store (partition_of (isoformat d) name) c (put_entry name e m) ev l)"
proof (cases "bindE (validate_gzip (de_codec env) c) (\<lambda>_. read_source_schema (de_codec env) c)")
  case (Inr schema)
  let ?e = "\<lparr>be_bytes = cd_size (de_codec env) c, be_date = Some (isoformat d), be_schema_version = Some schema,
      be_sha256 = Some (cd_sha256 (de_codec env) c), be_source_url = url, be_symbol = Some symbol\<rparr>"
  have "l' = store (partition_of (isoformat d) name) c (put_entry name ?e m) (Written name (cd_sha256 (de_codec env) c)) l"
    using assms Inr by (simp add: fetched_def Let_def)
  moreover have "be_sha256 ?e = Some (cd_sha256 (de_codec env) c)" by simp
  ultimately show ?thesis by blast
qed (use assms in \<open>simp add: fetched_def\<close>)

lemma download_cases:
  assumes "download_day env l (symbol, day) = (l', us, r)"
  shows "(la_manifest l' = la_manifest l \<and> la_files l' = la_files l \<or>
      (\<exists>d name m c e ev. day = Day d \<and> bronze_filename symbol d = Inr name \<and> load_manifest l = Inr m \<and>
        map_of (la_files l) (partition_of (isoformat d) name) = None \<and> be_sha256 e = Some (cd_sha256 (de_codec env) c) \<and>
        l' = store (partition_of (isoformat d) name) c (put_entry name e m) ev l)) \<and>
    (us \<noteq> [] \<longrightarrow> (\<exists>d name url cl. day = Day d \<and> bronze_filename symbol d = Inr name \<and> us = [url] \<and>
        source_url (de_base_url env) symbol d = Inr url \<and> ensure_ingest_allowed day (de_scope env) = Inr cl \<and>
        map_of (la_files l) (partition_of (isoformat d) name) = None))"
proof -
  let ?g = "bindE (ensure_ingest_allowed day (de_scope env)) (\<lambda>_. bindE (require_day day) (\<lambda>d.
      bindE (bronze_filename symbol d) (\<lambda>name. bindE (validate_filename name symbol d) (\<lambda>_.
      bindE (source_url (de_base_url env) symbol d) (\<lambda>url. bindE (load_manifest l) (\<lambda>m. Inr (d, name, url, m)))))))"
  show ?thesis
  proof (cases ?g)
    case (Inl e)
    with assms show ?thesis by (simp add: download_day_def)
  next
    case (Inr a)
    then obtain d name url m where a: "a = (d, name, url, m)" by (cases a)
    with Inr have g: "day = Day d" "bronze_filename symbol d = Inr name" "source_url (de_base_url env) symbol d = Inr url"
      "load_manifest l = Inr m" "\<exists>cl. ensure_ingest_allowed day (de_scope env) = Inr cl"
      by (cases day; auto simp: bindE_eq_Inr)+
    note h = assms[unfolded download_day_def prod.case Inr a sum.case]
    show ?thesis
    proof (cases "map_of (la_files l) (partition_of (isoformat d) name)")
      case (Some c)
      with h show ?thesis by (auto simp: present_def Let_def split: option.splits if_splits prod.splits)
    next
      case None
      show ?thesis
      proof (cases "de_fetch env url")
        case (Inl e)
        with h None g show ?thesis by auto
      next
        case (Inr c)
        with h None obtain l1 r1 where f: "fetched env l symbol d name url m c = (l1, r1)" "l' = l1" "us = [url]"
          by (auto split: prod.splits)
        from fetched_cases[OF f(1)] f g None show ?thesis by auto
      qed
    qed
  qed
qed

lemma bronze_inv_store:
  assumes "bronze_inv cd l" "bronze_filename symbol d = Inr name" "load_manifest l = Inr m" "be_sha256 e = Some (cd_sha256 cd c)"
  shows "bronze_inv cd (store (partition_of (isoformat d) name) c (put_entry name e m) ev l)"
  unfolding bronze_inv_def layer_ops
proof (intro allI impI)
  fix p c2 assume f: "((map_of (la_files l))(partition_of (isoformat d) name \<mapsto> c)) p = Some c2"
  show "\<exists>symbol d' name' m' e'. bronze_filename symbol d' = Inr name' \<and> p = partition_of (isoformat d') name' \<and>
      Some (Inr (put_entry name e m)) = Some (Inr m') \<and> entry_of m' name' = Some e' \<and> be_sha256 e' = Some (cd_sha256 cd c2)"
  proof (cases "p = partition_of (isoformat d) name")
    case True
    then have c: "c2 = c" using f by simp
    show ?thesis
      by (intro exI conjI) (rule assms(2), rule True, rule refl, simp, simp add: assms(4) c)
  next
    case False
    with f have "map_of (la_files l) p = Some c2" by simp
    then have "\<exists>symbol d name m e. bronze_filename symbol d = Inr name \<and> p = partition_of (isoformat d) name \<and>
       la_manifest l = Some (Inr m) \<and> entry_of m name = Some e \<and> be_sha256 e = Some (cd_sha256 cd c2)"
      using assms(1) unfolding bronze_inv_def by (elim allE impE)
    then show ?thesis
    proof (elim exE conjE)
      fix s2 d2 name2 m2 e2
      assume o: "bronze_filename s2 d2 = Inr name2" "p = partition_of (isoformat d2) name2"
        "la_manifest l = Some (Inr m2)" "entry_of m2 name2 = Some e2" "be_sha256 e2 = Some (cd_sha256 cd c2)"
      have "m2 = m" using assms(3) o(3) by (simp add: load_manifest_def)
      moreover have "name2 \<noteq> name"
      proof
        assume "name2 = name"
        with filename_determines_day[OF o(1)[unfolded \<open>name2 = name\<close>] assms(2)] o(2) False show False by simp
      qed
      ultimately have "entry_of (put_entry name e m) name2 = Some e2" using o(4) by simp
      then show ?thesis by (intro exI conjI) (rule o(1), rule o(2), rule refl, assumption, rule o(5))
    qed
  qed
qed

definition stores :: "'c codec \<Rightarrow> 'c bronze \<Rightarrow> 'c bronze \<Rightarrow> bool" where
  \<comment> \<open>one new file, at the place its name says, with its entry\<close>
  "stores cd l l' \<longleftrightarrow>
     (\<exists>symbol d name m c e ev. bronze_filename symbol d = Inr name \<and> load_manifest l = Inr m \<and>
        map_of (la_files l) (partition_of (isoformat d) name) = None \<and> be_sha256 e = Some (cd_sha256 cd c) \<and>
        l' = store (partition_of (isoformat d) name) c (put_entry name e m) ev l)"

lemma download_stores:
  assumes "download_day env l (symbol, day) = (l', us, r)"
  shows "la_manifest l' = la_manifest l \<and> la_files l' = la_files l \<or> stores (de_codec env) l l'"
  using download_cases[OF assms, THEN conjunct1]
proof (elim disjE exE conjE)
  fix d name m c e ev
  assume o: "bronze_filename symbol d = Inr name" "load_manifest l = Inr m"
    "map_of (la_files l) (partition_of (isoformat d) name) = None" "be_sha256 e = Some (cd_sha256 (de_codec env) c)"
    "l' = store (partition_of (isoformat d) name) c (put_entry name e m) ev l"
  have "stores (de_codec env) l l'"
    unfolding stores_def by (intro exI conjI) (rule o)+
  then show ?thesis ..
next
  assume "la_manifest l' = la_manifest l" "la_files l' = la_files l"
  then show ?thesis by (intro disjI1 conjI)
qed

lemma step_cases:
  "la_manifest (bronze_step cd l call) = la_manifest l \<and> la_files (bronze_step cd l call) = la_files l \<or>
   stores cd l (bronze_step cd l call)"
proof -
  obtain env symbol day where c: "call = (env, symbol, day)" by (cases call)
  obtain l' us r where "download_day (env\<lparr>de_codec := cd\<rparr>) l (symbol, day) = (l', us, r)" by (cases "download_day (env\<lparr>de_codec := cd\<rparr>) l (symbol, day)")
  then show ?thesis using download_stores[of "env\<lparr>de_codec := cd\<rparr>" l symbol day l' us r] by (simp add: bronze_step_def c)
qed

lemma stores_inv:
  assumes "stores cd l l'" "bronze_inv cd l"
  shows "bronze_inv cd l'"
proof -
  obtain symbol d name m c e ev where o: "bronze_filename symbol d = Inr name" "load_manifest l = Inr m"
    "be_sha256 e = Some (cd_sha256 cd c)" "l' = store (partition_of (isoformat d) name) c (put_entry name e m) ev l"
    using assms(1) unfolding stores_def by (elim exE conjE) 
  show ?thesis unfolding o(4) by (rule bronze_inv_store[OF assms(2) o(1-3)])
qed

lemma stores_keeps:
  assumes "stores cd l l'" "map_of (la_files l) p = Some c"
  shows "map_of (la_files l') p = Some c"
  using assms unfolding stores_def by (elim exE conjE) (auto simp: layer_ops)

interpretation bronze: guarded_machine "bronze_step cd" "bronze_inv cd" "\<lambda>_. True" for cd
proof unfold_locales
  fix l :: "'a bronze" and call
  assume i: "bronze_inv cd l"
  show "bronze_inv cd (bronze_step cd l call)"
    using step_cases[of cd l call]
  proof
    assume "stores cd l (bronze_step cd l call)"
    from stores_inv[OF this i] show ?thesis .
  qed (use i in \<open>simp add: bronze_inv_def\<close>)
qed

interpretation bronze_file: latch_machine "bronze_step cd" "\<lambda>_. True" "\<lambda>_. True"
  "\<lambda>l. map_of (la_files l) p \<noteq> None" "\<lambda>l. map_of (la_files l) p" "\<lambda>_. False" for cd p
proof unfold_locales
  fix l :: "'a bronze" and call
  assume "map_of (la_files l) p \<noteq> None"
  then show "map_of (la_files (bronze_step cd l call)) p \<noteq> None \<and> map_of (la_files (bronze_step cd l call)) p = map_of (la_files l) p"
    using step_cases[of cd l call] stores_keeps[of cd l "bronze_step cd l call" p] by auto
qed simp

section \<open>Silver\<close>

lemma present_cases:
  "silver_present cd l m name sha c = (l', r) \<Longrightarrow> la_manifest l' = la_manifest l \<and> la_files l' = la_files l \<and>
     (\<forall>v. r = Inr v \<longrightarrow> sv_status v = SKIPPED)"
  by (auto simp: silver_present_def split: option.splits if_splits)

lemma build_entry:
  assumes "silver_build cd symbol day_text name (bc, sha, be) = Inr (out, osha, e, n)"
  shows "se_output_sha256 e = Some osha \<and> osha = cd_sha256 cd out \<and> se_source_bronze_sha256 e = Some sha \<and> se_row_count e = Some n"
  using assms by (auto simp: silver_build_def Let_def bindE_eq_Inr)

lemma silver_day_cases:
  assumes "silver_day cd scope b l arg = (l', r)"
  obtains (failed) e where "r = Inl e" "la_manifest l' = la_manifest l" "la_files l' = la_files l"
  | (skipped) v where "r = Inr v" "sv_status v = SKIPPED" "la_manifest l' = la_manifest l" "la_files l' = la_files l"
  | (written) day_text name bc sha be m out osha e n where "silver_source cd scope b arg = Inr (day_text, name, bc, sha, be)" "load_manifest l = Inr m"
    "map_of (la_files l) (partition_of day_text name) = None"
    "silver_build cd (fst arg) day_text name (bc, sha, be) = Inr (out, osha, e, n)"
    "l' = store (partition_of day_text name) out (put_entry name e (m\<lparr>mf_schema_version := Some SILVER_SCHEMA_VERSION\<rparr>)) (Written name osha) l"
    "r = Inr \<lparr>sv_filename = name, sv_status = DONE, sv_sha256 = osha, sv_rows = n\<rparr>"
proof (cases "bindE (silver_source cd scope b arg) (\<lambda>src. bindE (load_manifest l) (\<lambda>m. Inr (src, m)))")
  case (Inl e)
  with assms have "r = Inl e" "l' = l" by (simp_all add: silver_day_def)
  then show thesis by (intro failed) simp_all
next
  case (Inr a)
  then obtain day_text name bc sha be m where a: "a = ((day_text, name, bc, sha, be), m)" "silver_source cd scope b arg = Inr (day_text, name, bc, sha, be)"
    "load_manifest l = Inr m" by (auto simp: bindE_eq_Inr)
  note h = assms[unfolded silver_day_def Inr a(1) sum.case prod.case Let_def]
  show thesis
  proof (cases "map_of (la_files l) (partition_of day_text name)")
    case (Some c)
    with h have "silver_present cd l (m\<lparr>mf_schema_version := Some SILVER_SCHEMA_VERSION\<rparr>) name sha c = (l', r)" by simp
    from present_cases[OF this] failed skipped show thesis by (cases r) auto
  next
    case None
    show thesis
    proof (cases "silver_build cd (fst arg) day_text name (bc, sha, be)")
      case (Inl e)
      with h None have "r = Inl e" "l' = l" by simp_all
      then show thesis by (intro failed) simp_all
    next
      case (Inr y)
      then obtain out osha e n where y: "silver_build cd (fst arg) day_text name (bc, sha, be) = Inr (out, osha, e, n)"
        by (cases y) auto
      with h None written[OF a(2,3) None y] show thesis by simp
    qed
  qed
qed

lemma silver_repeat:
  assumes "silver_source cd scope b arg = Inr (day_text, name, bc, sha, be)" "la_manifest l = Some (Inr m)"
    and "map_of (la_files l) (partition_of day_text name) = Some c" "entry_of m name = Some e"
    and "se_output_sha256 e = Some (cd_sha256 cd c)" "se_source_bronze_sha256 e = Some sha" "se_row_count e = Some n"
  shows "silver_day cd scope b l arg =
    (log_op (Skipped name) l, Inr \<lparr>sv_filename = name, sv_status = SKIPPED, sv_sha256 = cd_sha256 cd c, sv_rows = n\<rparr>)"
  using assms by (simp add: silver_day_def load_manifest_def silver_present_def Let_def)

section \<open>A concrete archive\<close>

definition plain_codec :: "string list list codec" where
  "plain_codec = \<lparr>cd_magic = (\<lambda>_. True), cd_gzip = (\<lambda>_. Inr ()), cd_stream = (\<lambda>rows. (rows, Inr ())), cd_write = (\<lambda>rows. rows),
     cd_sha256 = (\<lambda>rows. nat_text (length rows)), cd_size = length\<rparr>"

definition two_trades :: "string list list" where
  "two_trades = [BRONZE_HEADER_V1, [''2'', ''20'', ''1.5'', ''3'', ''sell''], [''1'', ''10'', ''1.4'', ''2'', ''buy'']]"

definition plain_env :: "string list list download_env" where
  "plain_env = \<lparr>de_codec = plain_codec, de_fetch = (\<lambda>_. Inr two_trades), de_base_url = PUBLIC_SPOT,
     de_scope = Scope DEVELOPMENT_ONLY\<rparr>"

definition other_env :: "string list list download_env" where
  \<comment> \<open>the archive has changed: the same URLs answer with another file\<close>
  "other_env = plain_env\<lparr>de_fetch := (\<lambda>_. Inr (take 2 two_trades)), de_scope := Scope DEVELOPMENT_ONLY\<rparr>"

definition one_day :: day_arg where "one_day = Day (Date 2024 3 5)"

lemma plain_name:
  "bronze_filename ''AB'' (Date 2024 3 5) = Inr ''AB_2024-03-05.csv.gz''"
  by code_simp

lemma plain_shape: "filename_shape ''AB_2024-03-05.csv.gz''"
  by code_simp

lemma plain_dots: "\<not> contains ''..'' ''AB_2024-03-05.csv.gz''"
  by code_simp

lemma plain_base: "\<not> contains ''/trading'' PUBLIC_SPOT \<and> rstrip_slash PUBLIC_SPOT = PUBLIC_SPOT"
  by code_simp

lemma plain_day: "isoformat (Date 2024 3 5) = ''2024-03-05''"
  by code_simp

lemma plain_header: "detect_source_schema BRONZE_HEADER_V1 = Inr SOURCE_SCHEMA_V1"
  by code_simp

lemma plain_allowed: "ensure_ingest_allowed (Day (Date 2024 3 5)) (Scope DEVELOPMENT_ONLY) = Inr DEVELOPMENT"
  by code_simp

lemma plain_valid: "validate_filename ''AB_2024-03-05.csv.gz'' ''AB'' (Date 2024 3 5) = Inr ()"
  by (simp add: validate_filename_def plain_shape plain_dots plain_name raise_if_def)

lemma plain_url: "source_url PUBLIC_SPOT ''AB'' (Date 2024 3 5) = Inr (PUBLIC_SPOT @ ''/AB/AB_2024-03-05.csv.gz'')"
  by (simp add: source_url_def plain_base plain_name plain_valid)

lemma plain_schema: "read_source_schema plain_codec two_trades = Inr SOURCE_SCHEMA_V1"
  by (simp add: read_source_schema_def plain_codec_def two_trades_def plain_header)

lemma asked_url:
  "fst (snd (download_day plain_env new_layer (''AB'', one_day))) = [PUBLIC_SPOT @ ''/AB/AB_2024-03-05.csv.gz'']"
  by (simp add: download_day_def one_day_def plain_env_def plain_allowed require_day.simps plain_name plain_valid plain_url
      load_manifest_def new_layer_def split: prod.splits)

definition plain_entry :: bronze_entry where
  "plain_entry = \<lparr>be_bytes = 3, be_date = Some (isoformat (Date 2024 3 5)), be_schema_version = Some SOURCE_SCHEMA_V1,
     be_sha256 = Some (cd_sha256 plain_codec two_trades), be_source_url = PUBLIC_SPOT @ ''/AB/AB_2024-03-05.csv.gz'',
     be_symbol = Some ''AB''\<rparr>"

definition plain_bronze :: "string list list bronze" where
  "plain_bronze = store (partition_of (isoformat (Date 2024 3 5)) ''AB_2024-03-05.csv.gz'') two_trades
     (put_entry ''AB_2024-03-05.csv.gz'' plain_entry \<lparr>mf_schema_version = Some BRONZE_SCHEMA_VERSION, mf_files = []\<rparr>)
     (Written ''AB_2024-03-05.csv.gz'' (cd_sha256 plain_codec two_trades)) new_layer"

lemma plain_fetched:
  "fst (fetched plain_env new_layer ''AB'' (Date 2024 3 5) ''AB_2024-03-05.csv.gz'' (PUBLIC_SPOT @ ''/AB/AB_2024-03-05.csv.gz'')
     \<lparr>mf_schema_version = Some BRONZE_SCHEMA_VERSION, mf_files = []\<rparr> two_trades) = plain_bronze"
proof -
  have "validate_gzip plain_codec two_trades = Inr ()" "cd_size plain_codec two_trades = 3"
    by (simp_all add: validate_gzip_def raise_if_def plain_codec_def two_trades_def)
  then show ?thesis by (simp add: fetched_def plain_env_def plain_schema plain_bronze_def plain_entry_def Let_def)
qed

lemma first_download: "bronze_step plain_codec new_layer (plain_env, ''AB'', one_day) = plain_bronze"
proof -
  have env: "de_scope plain_env = Scope DEVELOPMENT_ONLY" "de_base_url plain_env = PUBLIC_SPOT" "de_fetch plain_env u = Inr two_trades" for u
    by (simp_all add: plain_env_def)
  have same: "plain_env\<lparr>de_codec := plain_codec\<rparr> = plain_env" by (simp add: plain_env_def)
  have l: "load_manifest new_layer = Inr \<lparr>mf_schema_version = Some BRONZE_SCHEMA_VERSION, mf_files = []\<rparr>"
    "map_of (la_files new_layer) = (\<lambda>_. None)"
    by (simp_all add: load_manifest_def new_layer_def)
  show ?thesis unfolding plain_fetched[symmetric]
    by (simp add: bronze_step_def same download_day_def one_day_def env plain_allowed plain_name plain_valid plain_url l
        case_prod_beta)
qed

lemma plain_source:
  "silver_source plain_codec (Scope DEVELOPMENT_ONLY) plain_bronze (''AB'', one_day) =
   Inr (isoformat (Date 2024 3 5), ''AB_2024-03-05.csv.gz'', two_trades, cd_sha256 plain_codec two_trades, plain_entry)"
  by (simp add: silver_source_def one_day_def plain_allowed require_day.simps plain_name plain_valid bronze_source_def
      plain_bronze_def load_manifest_def plain_entry_def)

lemma plain_rows:
  "map_sum (\<lambda>_. ()) (\<lambda>rd. (length (rd_rows rd), rd_source_schema rd)) (read_bronze_rows plain_codec two_trades) =
   Inr (2, SOURCE_SCHEMA_V1)"
  by code_simp

lemma first_silver:
  "\<exists>l' v. silver_day plain_codec (Scope DEVELOPMENT_ONLY) plain_bronze new_layer (''AB'', one_day) = (l', Inr v) \<and> sv_status v = DONE"
proof -
  obtain rd where "read_bronze_rows plain_codec two_trades = Inr rd" "length (rd_rows rd) = 2" "rd_source_schema rd = SOURCE_SCHEMA_V1"
    using plain_rows by (cases "read_bronze_rows plain_codec two_trades") auto
  then have "\<exists>y. silver_build plain_codec ''AB'' (isoformat (Date 2024 3 5)) ''AB_2024-03-05.csv.gz''
      (two_trades, cd_sha256 plain_codec two_trades, plain_entry) = Inr y"
    by (simp add: silver_build_def plain_entry_def raise_if_def silver_content_def verify_roundtrip_def validate_gzip_def
        canonical_order_def plain_codec_def Let_def)
  then show ?thesis
    by (auto simp: silver_day_def plain_source load_manifest_def new_layer_def)
qed

section \<open>Properties\<close>

text \<open>
  C29 A stored download is immutable.  The calls may ask for any days and symbols, repeatedly,
  each with its own base URL, scope and network: the network of a later call may answer the URL
  of a stored file with other bytes.  The bytes once stored stay, and they keep lying at the place
  the name says with a manifest entry that carries their hash.
\<close>

theorem downloads_are_immutable:
  assumes "map_of (la_files (foldl (bronze_step cd) new_layer calls)) p = Some c"
  shows "map_of (la_files (foldl (bronze_step cd) new_layer (calls @ later))) p = Some c \<and>
    (\<exists>symbol d name m e. bronze_filename symbol d = Inr name \<and> p = partition_of (isoformat d) name \<and>
       la_manifest (foldl (bronze_step cd) new_layer (calls @ later)) = Some (Inr m) \<and>
       entry_of m name = Some e \<and> be_sha256 e = Some (cd_sha256 cd c))"
proof -
  have "map_of (la_files (foldl (bronze_step cd) new_layer (calls @ later))) p = Some c"
    using bronze_file.latched_run[where s = "foldl (bronze_step cd) new_layer calls" and es = later and cd = cd and p = p] assms
    by (simp add: list.pred_True)
  moreover have "bronze_inv cd (foldl (bronze_step cd) new_layer (calls @ later))"
    by (intro bronze.run_inv) (simp_all add: bronze_inv_def new_layer_def list.pred_True)
  ultimately show ?thesis unfolding bronze_inv_def by blast
qed

lemma downloads_are_immutable_witness:
  "de_fetch other_env = (\<lambda>_. Inr (take 2 two_trades)) \<and>
   map_of (la_files (foldl (bronze_step plain_codec) new_layer
       ([(plain_env, ''AB'', one_day)] @ [(other_env, ''AB'', one_day), (other_env, ''CD'', one_day)])))
     (partition_of (isoformat (Date 2024 3 5)) ''AB_2024-03-05.csv.gz'') = Some two_trades"
  using downloads_are_immutable[of plain_codec "[(plain_env, ''AB'', one_day)]"
      "partition_of (isoformat (Date 2024 3 5)) ''AB_2024-03-05.csv.gz''" two_trades
      "[(other_env, ''AB'', one_day), (other_env, ''CD'', one_day)]"]
  by (simp add: first_download plain_bronze_def other_env_def)

text \<open>
  The network is asked at most once per call, only for a day the scope allows and only for
  a file that is not there; the URL is that of the day's file on the public archive.
\<close>

theorem downloads_are_guarded:
  assumes "download_day env l (symbol, day) = (l', us, r)" "us \<noteq> []"
  shows "\<exists>d name url. day = Day d \<and> us = [url] \<and> source_url (de_base_url env) symbol d = Inr url \<and>
    (d \<le> DEVELOPMENT_LAST_DAY \<or> FUTURE_COLLECTION_FIRST_DAY \<le> d) \<and>
    bronze_filename symbol d = Inr name \<and> map_of (la_files l) (partition_of (isoformat d) name) = None"
proof -
  from download_cases[OF assms(1)] assms(2) obtain d name url cl where d: "day = Day d" "bronze_filename symbol d = Inr name"
    "us = [url]" "source_url (de_base_url env) symbol d = Inr url" "ensure_ingest_allowed day (de_scope env) = Inr cl"
    "map_of (la_files l) (partition_of (isoformat d) name) = None" by blast
  then have "d \<le> DEVELOPMENT_LAST_DAY \<or> FUTURE_COLLECTION_FIRST_DAY \<le> d"
    by (auto simp: ensure_ingest_allowed_def classify_ingest_day_def bindE_eq_Inr split: scope_arg.splits if_splits)
  with d show ?thesis by blast
qed

lemma downloads_are_guarded_witness:
  "\<exists>d name url. one_day = Day d \<and> source_url PUBLIC_SPOT ''AB'' d = Inr url \<and>
    (d \<le> DEVELOPMENT_LAST_DAY \<or> FUTURE_COLLECTION_FIRST_DAY \<le> d) \<and> bronze_filename ''AB'' d = Inr name"
  using downloads_are_guarded[of plain_env new_layer "''AB''" one_day
      "fst (download_day plain_env new_layer (''AB'', one_day))" "fst (snd (download_day plain_env new_layer (''AB'', one_day)))"
      "snd (snd (download_day plain_env new_layer (''AB'', one_day)))"] asked_url
  by (auto simp: plain_env_def)

text \<open>
  A transformation to Silver is fail-closed and idempotent: an error leaves the manifest
  and the files as they were; after a success the same call on the same source writes nothing
  and reports the same hash and number of rows.
\<close>

theorem silver_is_idempotent:
  assumes "silver_day cd scope b l arg = (l', r)"
  shows "case r of
      Inl e \<Rightarrow> la_manifest l' = la_manifest l \<and> la_files l' = la_files l
    | Inr v \<Rightarrow> sv_status v = DONE \<longrightarrow>
        silver_day cd scope b l' arg = (log_op (Skipped (sv_filename v)) l', Inr (v\<lparr>sv_status := SKIPPED\<rparr>))"
  using assms
proof (cases rule: silver_day_cases)
  case (written day_text name bc sha be m out osha e n)
  note be = build_entry[OF written(4)]
  show ?thesis using silver_repeat[OF written(1), of l' _ out e n] written(5,6) be by simp
qed simp_all

lemma silver_is_idempotent_witness:
  "\<exists>l' v. silver_day plain_codec (Scope DEVELOPMENT_ONLY) plain_bronze new_layer (''AB'', one_day) = (l', Inr v) \<and>
     silver_day plain_codec (Scope DEVELOPMENT_ONLY) plain_bronze l' (''AB'', one_day) =
       (log_op (Skipped (sv_filename v)) l', Inr (v\<lparr>sv_status := SKIPPED\<rparr>))"
proof -
  obtain l' v where "silver_day plain_codec (Scope DEVELOPMENT_ONLY) plain_bronze new_layer (''AB'', one_day) = (l', Inr v)"
    "sv_status v = DONE" using first_silver by blast
  with silver_is_idempotent[OF this(1)] show ?thesis by auto
qed

end
