(* ===== verification/Replay.thy ===== *)
theory Replay
  imports Indicators Risk Strategy "HOL-Library.AList"
begin

text \<open>
  The trade-level replay (\<open>infrastructure/medallion/replay.py\<close>, class \<open>_Engine\<close>) and the
  adapter that lets a strategy decide in it (\<open>strategy_provider.py\<close>).  Two clocks: confirmed
  15m candles produce decisions, every trade fills and is checked against the stops.  The state
  is a record, every method a function on it that may raise; the provider is an argument with a
  state of its own, and the trades are a list with what its iterator does at the end.
  The results: every decision is accounted for, the state after a trade depends on no candle
  that closes later, a position leaves at the trade after the one that reached the stop in force
  (initial or trailing, recomputed from the trades alone) or the target and at none before, and a
  run raises only what its inputs make it raise.
\<close>

section \<open>Data\<close>

record candle_row =
  cr_open_time :: int
  cr_close_time :: int
  cr_open :: pyfloat
  cr_high :: pyfloat
  cr_low :: pyfloat
  cr_close :: pyfloat
  cr_volume :: pyfloat
  cr_trade_count :: int

record context_snapshot =
  cx_decision_ts :: int
  cx_h1 :: "candle_row option"
  cx_h4 :: "candle_row option"

record replay_decision =
  dn_action :: string
  dn_signal_ts :: int
  dn_reference_price :: pyfloat
  dn_candle_index :: nat
  dn_atr :: "pyfloat option"

record decide_args =
  da_candle_index :: nat
  da_decision_ts :: int
  da_reference_price :: pyfloat
  da_atr_value :: "pyfloat option"
  da_context :: context_snapshot

record replay_trade =
  rt_ts :: int
  rt_price :: pyfloat
  rt_quantity :: pyfloat

definition replay_error :: "string \<Rightarrow> py_error" where "replay_error msg = NamedError ''ReplayError'' msg"

definition REPLAY_RISK :: risk_config where
  "REPLAY_RISK = default_risk_config\<lparr>rk_stop_atr_multiplier := Fin 2, rk_take_profit_r_multiple := Fin (3/2),
     rk_trailing_atr_multiplier := Fin 1, rk_version := ''replay-risk-v1''\<rparr>"

definition SIZING_MODES :: "string list" where "SIZING_MODES = [''fixed'', ''risk_engine'']"
definition VALID_INTENSITIES :: "string list" where "VALID_INTENSITIES = [''low'', ''medium'', ''high'']"

record replay_scenario =
  sn_scenario_id :: string
  sn_risk :: risk_config
  sn_quantity :: pyfloat
  sn_fee_rate :: pyfloat
  sn_slippage_bps :: pyfloat
  sn_strategy_version :: string
  sn_atr_period :: int
  sn_sizing_mode :: string
  sn_intensity :: string

definition check_scenario :: "replay_scenario \<Rightarrow> unit result" where
  "check_scenario s =
     bindE (raise_if (\<not> List.member SIZING_MODES (sn_sizing_mode s)) (ValueError ''sizing_mode'')) (\<lambda>_.
     raise_if (\<not> List.member VALID_INTENSITIES (sn_intensity s)) (ValueError ''intensity''))"

definition DEFAULT_SCENARIO :: replay_scenario where
  "DEFAULT_SCENARIO =
     \<lparr>sn_scenario_id = ''scripted-default-v1'', sn_risk = REPLAY_RISK, sn_quantity = rnd (1/100),
      sn_fee_rate = rnd (1/1000), sn_slippage_bps = Fin 5, sn_strategy_version = ''scripted-schedule-v1'',
      sn_atr_period = 14, sn_sizing_mode = ''fixed'', sn_intensity = ''medium''\<rparr>"

definition scripted_decide :: "unit \<Rightarrow> decide_args \<Rightarrow> (unit \<times> replay_decision option) result" where
  \<comment> \<open>\<open>ScriptedScheduleProvider.decide\<close>\<close>
  "scripted_decide p a =
     (let index = da_candle_index a;
          answer = (\<lambda>action. Inr ((), Some \<lparr>dn_action = action, dn_signal_ts = da_decision_ts a,
             dn_reference_price = da_reference_price a, dn_candle_index = index, dn_atr = da_atr_value a\<rparr>))
      in if 14 \<le> index \<and> index mod 12 = 5 then
           (case da_atr_value a of None \<Rightarrow> Inr ((), None) | Some _ \<Rightarrow> answer ''buy'')
         else if 25 \<le> index \<and> index mod 12 = 1 then answer ''sell''
         else Inr ((), None))"

record replay_position =
  rp_quantity :: pyfloat
  rp_entry_signal_ts :: int
  rp_entry_trigger_ts :: int
  rp_entry_fill_ts :: int
  rp_entry_reference_price :: pyfloat
  rp_entry_execution_price :: pyfloat
  rp_entry_trade_price :: pyfloat
  rp_entry_candle_index :: nat
  rp_entry_fill_trade_index :: nat
  rp_atr :: pyfloat
  rp_initial_stop :: pyfloat
  rp_initial_target :: pyfloat
  rp_trailing :: pyfloat
  rp_highest :: pyfloat
  rp_lowest :: pyfloat
  rp_current_atr :: pyfloat
  rp_trailing_updates :: nat

record pending_exit =
  px_reason :: string
  px_trigger_ts :: int
  px_trigger_trade_index :: "nat option"
  px_trigger_price :: pyfloat
  px_reference_price :: pyfloat

record replay_record =
  rr_position :: replay_position
    \<comment> \<open>the entry fields, highest price and trailing updates are the position's\<close>
  rr_mfe :: pyfloat
  rr_mae :: pyfloat
  rr_exit :: pending_exit
    \<comment> \<open>the trigger timestamp and index, reason and reference price are the exit's\<close>
  rr_exit_fill_timestamp :: int
  rr_exit_fill_trade_index :: nat
  rr_exit_execution_price :: pyfloat
  rr_exit_trade_price :: pyfloat
  rr_fees :: pyfloat
  rr_slippage :: pyfloat
  rr_gross_pnl :: pyfloat
  rr_net_pnl :: pyfloat
  rr_holding_ms :: int

record replay_stats =
  rs_total :: nat
  rs_filled :: nat
  rs_dropped :: nat
  rs_unfilled :: nat
  rs_rejected :: nat
  rs_closed :: nat

section \<open>The engine\<close>

record 'p replay_env =
  ev_candles :: "candle_row list"
  ev_ctx_1h :: "candle_row list"
  ev_ctx_4h :: "candle_row list"
  ev_scenario :: replay_scenario
  ev_decide :: "'p \<Rightarrow> decide_args \<Rightarrow> ('p \<times> replay_decision option) result"
    \<comment> \<open>the provider: its state, the call, the new state and the decision\<close>
  ev_provider :: 'p

record 'p replay_state =
  re_provider :: 'p
  re_atr :: "pyfloat option list"
  re_queue :: "replay_decision list"
  re_candle_i :: nat
  re_position :: "replay_position option"
  re_pending :: "pending_exit option"
  re_records :: "replay_record list"
  re_stats :: replay_stats
  re_rejected_reasons :: "(string \<times> nat) list"
  re_realized_total :: pyfloat
  re_realized_today :: pyfloat
  re_day :: "int option"
  re_peak_equity :: pyfloat

definition dynamic :: "'p replay_env \<Rightarrow> bool" where
  "dynamic env \<longleftrightarrow> sn_sizing_mode (ev_scenario env) = ''risk_engine''"

definition replay_init :: "'p replay_env \<Rightarrow> 'p replay_state" where
  "replay_init env =
     \<lparr>re_provider = ev_provider env, re_atr = [], re_queue = [], re_candle_i = 0, re_position = None, re_pending = None,
      re_records = [], re_stats = \<lparr>rs_total = 0, rs_filled = 0, rs_dropped = 0, rs_unfilled = 0, rs_rejected = 0, rs_closed = 0\<rparr>,
      re_rejected_reasons = [], re_realized_total = Fin 0, re_realized_today = Fin 0, re_day = None,
      re_peak_equity = rk_capital (sn_risk (ev_scenario env))\<rparr>"

definition domain_candle :: "candle_row \<Rightarrow> candle result" where
  "domain_candle c =
     make_candle (cr_open_time c) (cr_open c) (cr_high c) (cr_low c) (cr_close c) (cr_volume c) (Fin 0)"

definition replay_start :: "'p replay_env \<Rightarrow> 'p replay_state result" where
  \<comment> \<open>\<open>run\<close> up to the loop\<close>
  "replay_start env =
     bindE (mapE domain_candle (ev_candles env)) (\<lambda>cs.
     bindE (atr cs (sn_atr_period (ev_scenario env))) (\<lambda>values.
       Inr ((replay_init env)\<lparr>re_atr := values\<rparr>)))"

subsection \<open>Context\<close>

function bisect_right :: "int list \<Rightarrow> int \<Rightarrow> nat \<Rightarrow> nat \<Rightarrow> nat" where
  \<comment> \<open>the search of \<open>bisect.bisect_right\<close> between \<open>lo\<close> and \<open>hi\<close>\<close>
  "bisect_right keys x lo hi =
     (if lo < hi then
        let mid = (lo + hi) div 2 in
        if x < keys ! mid then bisect_right keys x lo mid else bisect_right keys x (mid + 1) hi
      else lo)"
  by pat_completeness auto
termination
  by (relation "measure (\<lambda>(keys, x, lo, hi). hi - lo)") auto

declare bisect_right.simps [simp del]

definition context_at :: "candle_row list \<Rightarrow> int \<Rightarrow> candle_row option" where
  "context_at rows decision_ts =
     (let keys = map cr_close_time rows; i = bisect_right keys decision_ts 0 (length keys) in
      if i = 0 then None else Some (rows ! (i - 1)))"

definition enqueue :: "replay_decision option \<Rightarrow> 'p replay_state \<Rightarrow> 'p replay_state" where
  "enqueue d st =
     (case d of
        None \<Rightarrow> st
      | Some decision \<Rightarrow> st\<lparr>re_queue := re_queue st @ [decision], re_stats := (re_stats st)\<lparr>rs_total := rs_total (re_stats st) + 1\<rparr>\<rparr>)"

definition confirm_atr :: "'p replay_env \<Rightarrow> pyfloat option \<Rightarrow> 'p replay_state \<Rightarrow> 'p replay_state" where
  \<comment> \<open>the trailing stop of an open position takes the ATR of the candle that closed\<close>
  "confirm_atr env v st =
     (case (re_position st, v) of
        (Some p, Some a) \<Rightarrow> if dynamic env then st\<lparr>re_position := Some (p\<lparr>rp_current_atr := a\<rparr>)\<rparr> else st
      | _ \<Rightarrow> st)"

definition confirm_candle :: "'p replay_env \<Rightarrow> 'p replay_state \<Rightarrow> candle_row \<Rightarrow> 'p replay_state result" where
  \<comment> \<open>the body of the loop of \<open>_advance\<close> for the candle at \<open>re_candle_i\<close>\<close>
  "confirm_candle env st c =
     (let index = re_candle_i st; v = re_atr st ! index;
          context = \<lparr>cx_decision_ts = cr_close_time c, cx_h1 = context_at (ev_ctx_1h env) (cr_close_time c),
                     cx_h4 = context_at (ev_ctx_4h env) (cr_close_time c)\<rparr>
      in bindE (ev_decide env (re_provider st)
                  \<lparr>da_candle_index = index, da_decision_ts = cr_close_time c, da_reference_price = cr_close c,
                   da_atr_value = v, da_context = context\<rparr>) (\<lambda>(p, d).
         Inr ((confirm_atr env v (enqueue d (st\<lparr>re_provider := p\<rparr>)))\<lparr>re_candle_i := index + 1\<rparr>)))"

definition closed_by :: "int \<Rightarrow> candle_row list \<Rightarrow> candle_row list" where
  "closed_by cutoff rows = takeWhile (\<lambda>c. cr_close_time c \<le> cutoff) rows"

definition advance :: "'p replay_env \<Rightarrow> int \<Rightarrow> 'p replay_state \<Rightarrow> 'p replay_state result" where
  \<comment> \<open>\<open>_advance\<close>: the candles from \<open>re_candle_i\<close> on up to the first that closes after the cutoff\<close>
  "advance env cutoff st = foldE (confirm_candle env) st (closed_by cutoff (drop (re_candle_i st) (ev_candles env)))"

subsection \<open>Exits\<close>

definition DAY_MS :: int where "DAY_MS = 86400000"

definition roll_day :: "int \<Rightarrow> 'p replay_state \<Rightarrow> 'p replay_state" where
  "roll_day ts st =
     (let day = ts div DAY_MS in
      case re_day st of
        None \<Rightarrow> st\<lparr>re_day := Some day\<rparr>
      | Some d \<Rightarrow> if day \<noteq> d then st\<lparr>re_day := Some day, re_realized_today := Fin 0\<rparr> else st)"

definition book_result :: "'p replay_env \<Rightarrow> int \<Rightarrow> pyfloat \<Rightarrow> 'p replay_state \<Rightarrow> 'p replay_state" where
  \<comment> \<open>the portfolio figures the risk engine reads\<close>
  "book_result env ts net st =
     (let st1 = roll_day ts st;
          total = fadd (re_realized_total st1) net;
          eq = fadd (rk_capital (sn_risk (ev_scenario env))) total
      in st1\<lparr>re_realized_total := total, re_realized_today := fadd (re_realized_today st1) net,
             re_peak_equity := (if flt (re_peak_equity st1) eq then eq else re_peak_equity st1)\<rparr>)"

definition replay_record_of :: "replay_scenario \<Rightarrow> replay_position \<Rightarrow> pending_exit \<Rightarrow> int \<Rightarrow> nat \<Rightarrow> pyfloat \<Rightarrow> replay_record" where
  "replay_record_of sn p px fill_ts fill_index fill_price =
     (let slip = fdiv (sn_slippage_bps sn) (Fin 10000);
          exit_execution = fmul fill_price (fsub (Fin 1) slip);
          gross = fmul (fsub fill_price (rp_entry_trade_price p)) (rp_quantity p);
          slippage = fmul (fmul slip (fadd (rp_entry_trade_price p) fill_price)) (rp_quantity p);
          fees = fmul (fmul (sn_fee_rate sn) (fadd (rp_entry_execution_price p) exit_execution)) (rp_quantity p)
      in \<lparr>rr_position = p,
          rr_mfe = fmax (fsub (rp_highest p) (rp_entry_execution_price p)) (Fin 0),
          rr_mae = fmax (fsub (rp_entry_execution_price p) (rp_lowest p)) (Fin 0),
          rr_exit = px, rr_exit_fill_timestamp = fill_ts, rr_exit_fill_trade_index = fill_index,
          rr_exit_execution_price = exit_execution, rr_exit_trade_price = fill_price,
          rr_fees = fees, rr_slippage = slippage, rr_gross_pnl = gross, rr_net_pnl = fsub (fsub gross slippage) fees,
          rr_holding_ms = fill_ts - rp_entry_fill_ts p\<rparr>)"

definition finish :: "'p replay_env \<Rightarrow> 'p replay_state \<Rightarrow> replay_position \<Rightarrow> pending_exit \<Rightarrow> int \<Rightarrow> nat \<Rightarrow> pyfloat \<Rightarrow> 'p replay_state" where
  "finish env st p px fill_ts fill_index fill_price =
     (let r = replay_record_of (ev_scenario env) p px fill_ts fill_index fill_price;
          st1 = st\<lparr>re_records := re_records st @ [r],
                   re_stats := (re_stats st)\<lparr>rs_closed := rs_closed (re_stats st) + 1\<rparr>\<rparr>;
          st2 = (if dynamic env then book_result env fill_ts (rr_net_pnl r) st1 else st1)
      in st2\<lparr>re_position := None, re_pending := None\<rparr>)"

definition fill_pending_exit :: "'p replay_env \<Rightarrow> nat \<Rightarrow> replay_trade \<Rightarrow> 'p replay_state \<Rightarrow> 'p replay_state result" where
  "fill_pending_exit env index t st =
     (case re_pending st of
        None \<Rightarrow> Inr st
      | Some px \<Rightarrow>
          (case re_position st of
             None \<Rightarrow> Inl (replay_error ''exit pendiente sin posicion (invariante rota)'')
           | Some p \<Rightarrow> Inr (finish env (st\<lparr>re_pending := None\<rparr>) p px (rt_ts t) index (rt_price t))))"

definition fill_pending_edge :: "'p replay_env \<Rightarrow> 'p replay_state \<Rightarrow> 'p replay_state result" where
  "fill_pending_edge env st =
     (case (re_pending st, re_position st) of
        (Some px, Some p) \<Rightarrow>
          (case px_trigger_trade_index px of
             None \<Rightarrow> Inl (replay_error ''exit de riesgo sin indice de trade'')
           | Some i \<Rightarrow> Inr (finish env (st\<lparr>re_pending := None\<rparr>) p px (px_trigger_ts px) i (px_trigger_price px)))
      | _ \<Rightarrow> Inl (replay_error ''exit pendiente sin posicion (invariante rota)''))"

subsection \<open>Decisions\<close>

definition replay_verdict :: "'p replay_env \<Rightarrow> 'p replay_state \<Rightarrow> replay_decision \<Rightarrow> risk_verdict" where
  \<comment> \<open>\<open>_evaluate_risk\<close> after the day is rolled; its kill switch is never activated\<close>
  "replay_verdict env st d =
     evaluate (sn_risk (ev_scenario env))
       \<lparr>tp_action = BUY, tp_intensity = sn_intensity (ev_scenario env), tp_price = dn_reference_price d,
        tp_atr = dn_atr d, tp_timestamp_ms = dn_signal_ts d\<rparr>
       \<lparr>pr_open_positions = 0, pr_realized_pnl_today = re_realized_today st, pr_peak_equity = re_peak_equity st,
        pr_equity = fadd (rk_capital (sn_risk (ev_scenario env))) (re_realized_total st), pr_kill_switch = kill_switch_clear\<rparr>"

definition count_reason :: "string \<Rightarrow> (string \<times> nat) list \<Rightarrow> (string \<times> nat) list" where
  "count_reason reason d = AList.update reason ((case map_of d reason of None \<Rightarrow> 0 | Some n \<Rightarrow> n) + 1) d"

definition entry_levels :: "replay_scenario \<Rightarrow> pyfloat \<Rightarrow> pyfloat \<Rightarrow> risk_verdict option \<Rightarrow> (pyfloat \<times> pyfloat \<times> pyfloat) result" where
  \<comment> \<open>quantity, stop and target of an entry at an execution price\<close>
  "entry_levels sn execution a verdict =
     (case verdict of
        Some v \<Rightarrow>
          (case (rv_size v, rv_stop_loss v, rv_take_profit v) of
             (Some z, Some stop, Some target) \<Rightarrow> Inr (sz_quantity z, stop, target)
           | _ \<Rightarrow> Inl (replay_error ''RiskEngine aprobado sin size/stop/target (FAIL CLOSED)''))
      | None \<Rightarrow>
          (let stop = initial_stop execution a (sn_risk sn)
           in Inr (sn_quantity sn, stop, take_profit execution stop (sn_risk sn))))"

definition open_replay_position ::
  "'p replay_env \<Rightarrow> nat \<Rightarrow> replay_trade \<Rightarrow> replay_decision \<Rightarrow> pyfloat \<Rightarrow> risk_verdict option \<Rightarrow> 'p replay_state \<Rightarrow> 'p replay_state result" where
  "open_replay_position env index t d a verdict st =
     (let execution = fmul (rt_price t) (fadd (Fin 1) (fdiv (sn_slippage_bps (ev_scenario env)) (Fin 10000)))
      in bindE (entry_levels (ev_scenario env) execution a verdict) (\<lambda>(quantity, stop, target).
         Inr (st\<lparr>re_position := Some
           \<lparr>rp_quantity = quantity, rp_entry_signal_ts = dn_signal_ts d, rp_entry_trigger_ts = dn_signal_ts d,
            rp_entry_fill_ts = rt_ts t, rp_entry_reference_price = dn_reference_price d,
            rp_entry_execution_price = execution, rp_entry_trade_price = rt_price t,
            rp_entry_candle_index = dn_candle_index d, rp_entry_fill_trade_index = index, rp_atr = a,
            rp_initial_stop = stop, rp_initial_target = target, rp_trailing = stop, rp_highest = execution,
            rp_lowest = execution, rp_current_atr = a, rp_trailing_updates = 0\<rparr>\<rparr>)))"

definition update_path :: "pyfloat \<Rightarrow> replay_position \<Rightarrow> replay_position" where
  "update_path price p = p\<lparr>rp_highest := fmax (rp_highest p) price, rp_lowest := fmin (rp_lowest p) price\<rparr>"

definition drop_decision :: "'p replay_state \<Rightarrow> 'p replay_state" where
  "drop_decision st = st\<lparr>re_stats := (re_stats st)\<lparr>rs_dropped := rs_dropped (re_stats st) + 1\<rparr>\<rparr>"

definition note_filled :: "'p replay_state \<Rightarrow> 'p replay_state" where
  "note_filled st = st\<lparr>re_stats := (re_stats st)\<lparr>rs_filled := rs_filled (re_stats st) + 1\<rparr>\<rparr>"

definition reject_decision :: "string \<Rightarrow> 'p replay_state \<Rightarrow> 'p replay_state" where
  "reject_decision reason st =
     st\<lparr>re_stats := (re_stats st)\<lparr>rs_rejected := rs_rejected (re_stats st) + 1\<rparr>,
        re_rejected_reasons := count_reason reason (re_rejected_reasons st)\<rparr>"

definition take_buy :: "'p replay_env \<Rightarrow> nat \<Rightarrow> replay_trade \<Rightarrow> 'p replay_state \<Rightarrow> replay_decision \<Rightarrow> 'p replay_state result" where
  "take_buy env index t st d =
     (case (re_position st, dn_atr d) of
        (None, Some a) \<Rightarrow>
          if dynamic env then
            let st1 = roll_day (rt_ts t) st; v = replay_verdict env st1 d in
            if \<not> rv_approved v then Inr (reject_decision (rv_reason v) st1)
            else bindE (open_replay_position env index t d a (Some v) st1) (\<lambda>st2. Inr (note_filled st2))
          else bindE (open_replay_position env index t d a None st) (\<lambda>st2. Inr (note_filled st2))
      | _ \<Rightarrow> Inr (drop_decision st))"

definition take_sell :: "'p replay_env \<Rightarrow> nat \<Rightarrow> replay_trade \<Rightarrow> 'p replay_state \<Rightarrow> replay_decision \<Rightarrow> 'p replay_state" where
  "take_sell env index t st d =
     (case re_position st of
        None \<Rightarrow> drop_decision st
      | Some p \<Rightarrow>
          note_filled (finish env st (update_path (rt_price t) p)
            \<lparr>px_reason = ''strategy_exit'', px_trigger_ts = dn_signal_ts d, px_trigger_trade_index = None,
             px_trigger_price = rt_price t, px_reference_price = dn_reference_price d\<rparr>
            (rt_ts t) index (rt_price t)))"

definition take_decision :: "'p replay_env \<Rightarrow> nat \<Rightarrow> replay_trade \<Rightarrow> 'p replay_state \<Rightarrow> replay_decision \<Rightarrow> 'p replay_state result" where
  "take_decision env index t st d =
     (if dn_action d = ''buy'' then take_buy env index t st d
      else if dn_action d = ''sell'' then Inr (take_sell env index t st d)
      else Inl (replay_error ''accion desconocida''))"

definition drain_decisions :: "'p replay_env \<Rightarrow> nat \<Rightarrow> replay_trade \<Rightarrow> 'p replay_state \<Rightarrow> 'p replay_state result" where
  "drain_decisions env index t st = foldE (take_decision env index t) (st\<lparr>re_queue := []\<rparr>) (re_queue st)"

subsection \<open>Stops and target\<close>

definition protective_stop :: "replay_position \<Rightarrow> pyfloat" where
  "protective_stop p = fmax (rp_initial_stop p) (rp_trailing p)"

definition risk_exit :: "nat \<Rightarrow> replay_trade \<Rightarrow> replay_position \<Rightarrow> pending_exit option" where
  \<comment> \<open>the exit a trade triggers: stop before target\<close>
  "risk_exit index t p =
     (let protective = protective_stop p;
          exit_at = (\<lambda>reason level. Some \<lparr>px_reason = reason, px_trigger_ts = rt_ts t, px_trigger_trade_index = Some index,
             px_trigger_price = rt_price t, px_reference_price = level\<rparr>)
      in if fle (rt_price t) protective
         then exit_at (if flt (rp_entry_execution_price p) protective then ''trailing_stop'' else ''stop_loss'') protective
         else if fle (rp_initial_target p) (rt_price t) then exit_at ''take_profit'' (rp_initial_target p)
         else None)"

definition raise_trailing :: "'p replay_env \<Rightarrow> replay_position \<Rightarrow> replay_position" where
  "raise_trailing env p =
     (let s = update_trailing (rp_trailing p) (rp_highest p) (if dynamic env then rp_current_atr p else rp_atr p)
                (sn_risk (ev_scenario env))
      in if flt (rp_trailing p) s then p\<lparr>rp_trailing := s, rp_trailing_updates := rp_trailing_updates p + 1\<rparr> else p)"

definition risk_eval :: "'p replay_env \<Rightarrow> nat \<Rightarrow> replay_trade \<Rightarrow> 'p replay_state \<Rightarrow> 'p replay_state" where
  "risk_eval env index t st =
     (case re_position st of
        None \<Rightarrow> st
      | Some p0 \<Rightarrow>
          if rt_ts t \<le> rp_entry_fill_ts p0 then st
          else let p = update_path (rt_price t) p0 in
            (case risk_exit index t p of
               Some px \<Rightarrow> st\<lparr>re_position := Some p, re_pending := Some px\<rparr>
             | None \<Rightarrow> st\<lparr>re_position := Some (raise_trailing env p)\<rparr>))"

subsection \<open>The run\<close>

definition trade_step :: "'p replay_env \<Rightarrow> 'p replay_state \<Rightarrow> nat \<times> replay_trade \<Rightarrow> 'p replay_state result" where
  "trade_step env st arg =
     (case arg of (index, t) \<Rightarrow>
      bindE (advance env (rt_ts t) st) (\<lambda>st1.
      bindE (fill_pending_exit env index t st1) (\<lambda>st2.
      bindE (drain_decisions env index t st2) (\<lambda>st3. Inr (risk_eval env index t st3)))))"

definition replay_after :: "'p replay_env \<Rightarrow> replay_trade list \<Rightarrow> 'p replay_state result" where
  \<comment> \<open>the loop over the trades\<close>
  "replay_after env ts = bindE (replay_start env) (\<lambda>st. foldE (trade_step env) st (enumerate 0 ts))"

definition SWEEP_CUTOFF :: int where "SWEEP_CUTOFF = 2 ^ 62"

definition sweep_queue :: "'p replay_state \<Rightarrow> 'p replay_state" where
  "sweep_queue st =
     st\<lparr>re_queue := [], re_stats := (re_stats st)\<lparr>rs_unfilled := rs_unfilled (re_stats st) + length (re_queue st)\<rparr>\<rparr>"

definition close_at_end :: "'p replay_env \<Rightarrow> replay_trade list \<Rightarrow> 'p replay_state \<Rightarrow> 'p replay_state result" where
  \<comment> \<open>a position still open leaves at the last trade\<close>
  "close_at_end env ts st =
     (case re_position st of
        None \<Rightarrow> Inr st
      | Some p \<Rightarrow>
          if ts = [] then Inl (replay_error ''posicion abierta sin trades (invariante rota)'')
          else let t = last ts; i = length ts - 1 in
            Inr (finish env st p
              \<lparr>px_reason = ''end_of_dataset'', px_trigger_ts = rt_ts t, px_trigger_trade_index = Some i,
               px_trigger_price = rt_price t, px_reference_price = rt_price t\<rparr>
              (rt_ts t) i (rt_price t)))"

record replay_result =
  rx_records :: "replay_record list"
  rx_stats :: replay_stats
  rx_rejected_reasons :: "(string \<times> nat) list"

definition replay_engine :: "'p replay_env \<Rightarrow> replay_trade list \<times> unit result \<Rightarrow> replay_result result" where
  \<comment> \<open>the trades and what their iterator does after the last one\<close>
  "replay_engine env arg =
     (case arg of (ts, ending) \<Rightarrow>
      bindE (replay_after env ts) (\<lambda>st1.
      bindE ending (\<lambda>_.
      bindE (advance env SWEEP_CUTOFF st1) (\<lambda>st2.
      let st3 = sweep_queue st2 in
      bindE (case re_pending st3 of None \<Rightarrow> Inr st3 | Some _ \<Rightarrow> fill_pending_edge env st3) (\<lambda>st4.
      bindE (close_at_end env ts st4) (\<lambda>st5.
        Inr \<lparr>rx_records = re_records st5, rx_stats = re_stats st5, rx_rejected_reasons = re_rejected_reasons st5\<rparr>))))))"

section \<open>A strategy as a provider\<close>

record 's strategy_provider =
  sp_strategy :: 's
  sp_rows :: "candle_row list"
  sp_candles :: "candle list"
  sp_next_index :: nat

definition strategy_provider :: "'s \<Rightarrow> candle_row list \<Rightarrow> 's strategy_provider result" where
  "strategy_provider s rows =
     bindE (mapE domain_candle rows) (\<lambda>cs.
     if rows = [] then Inl (replay_error ''strategy provider: sin velas (FAIL CLOSED)'')
     else Inr \<lparr>sp_strategy = s, sp_rows = rows, sp_candles = cs, sp_next_index = 0\<rparr>)"

definition strategy_decide ::
  "('s \<Rightarrow> candle \<Rightarrow> 's \<times> signal result) \<Rightarrow> 's strategy_provider \<Rightarrow> decide_args \<Rightarrow>
   ('s strategy_provider \<times> replay_decision option) result" where
  \<comment> \<open>\<open>on_candle\<close> of the strategy is an argument\<close>
  "strategy_decide upd sp a =
     (let i = da_candle_index a; row = sp_rows sp ! i in
      if i \<noteq> sp_next_index sp then Inl (replay_error ''strategy provider: candle_index fuera de secuencia'')
      else if length (sp_rows sp) \<le> i then Inl (replay_error ''strategy provider: candle_index fuera de rango (FAIL CLOSED)'')
      else if da_decision_ts a \<noteq> cr_close_time row then Inl (replay_error ''strategy provider: decision_ts != close_time'')
      else case upd (sp_strategy sp) (sp_candles sp ! i) of (s, r) \<Rightarrow>
        bindE r (\<lambda>signal.
        let sp' = sp\<lparr>sp_strategy := s, sp_next_index := i + 1\<rparr>;
            answer = (\<lambda>action. Inr (sp', Some \<lparr>dn_action = action, dn_signal_ts = da_decision_ts a,
              dn_reference_price = da_reference_price a, dn_candle_index = i, dn_atr = da_atr_value a\<rparr>))
        in if sig_timestamp_ms signal \<noteq> cr_open_time row
           then Inl (replay_error ''strategy provider: Signal.timestamp_ms != open_time'')
           else case sig_action signal of HOLD \<Rightarrow> Inr (sp', None) | BUY \<Rightarrow> answer ''buy'' | SELL \<Rightarrow> answer ''sell''))"

section \<open>Fields\<close>

lemma roll_day_fields [simp]:
  "re_provider (roll_day ts st) = re_provider st" "re_atr (roll_day ts st) = re_atr st" "re_queue (roll_day ts st) = re_queue st"
  "re_candle_i (roll_day ts st) = re_candle_i st" "re_position (roll_day ts st) = re_position st"
  "re_pending (roll_day ts st) = re_pending st" "re_records (roll_day ts st) = re_records st"
  "re_stats (roll_day ts st) = re_stats st" "re_rejected_reasons (roll_day ts st) = re_rejected_reasons st"
  "re_realized_total (roll_day ts st) = re_realized_total st" "re_peak_equity (roll_day ts st) = re_peak_equity st"
  by (simp_all add: roll_day_def Let_def split: option.split)

lemma finish_fields [simp]:
  "re_provider (finish env st p px ts i x) = re_provider st" "re_atr (finish env st p px ts i x) = re_atr st"
  "re_queue (finish env st p px ts i x) = re_queue st" "re_candle_i (finish env st p px ts i x) = re_candle_i st"
  "re_position (finish env st p px ts i x) = None" "re_pending (finish env st p px ts i x) = None"
  "re_records (finish env st p px ts i x) = re_records st @ [replay_record_of (ev_scenario env) p px ts i x]"
  "re_stats (finish env st p px ts i x) = (re_stats st)\<lparr>rs_closed := rs_closed (re_stats st) + 1\<rparr>"
  "re_rejected_reasons (finish env st p px ts i x) = re_rejected_reasons st"
  by (simp_all add: finish_def book_result_def Let_def)

lemma confirm_atr_fields [simp]:
  "re_provider (confirm_atr env v st) = re_provider st" "re_atr (confirm_atr env v st) = re_atr st"
  "re_queue (confirm_atr env v st) = re_queue st" "re_candle_i (confirm_atr env v st) = re_candle_i st"
  "re_pending (confirm_atr env v st) = re_pending st" "re_records (confirm_atr env v st) = re_records st"
  "re_stats (confirm_atr env v st) = re_stats st" "re_rejected_reasons (confirm_atr env v st) = re_rejected_reasons st"
  by (simp_all add: confirm_atr_def split: option.split)

lemma enqueue_fields [simp]:
  "re_provider (enqueue d st) = re_provider st" "re_atr (enqueue d st) = re_atr st"
  "re_queue (enqueue d st) = re_queue st @ (case d of None \<Rightarrow> [] | Some x \<Rightarrow> [x])"
  "re_candle_i (enqueue d st) = re_candle_i st" "re_position (enqueue d st) = re_position st"
  "re_pending (enqueue d st) = re_pending st" "re_records (enqueue d st) = re_records st"
  "re_rejected_reasons (enqueue d st) = re_rejected_reasons st"
  by (simp_all add: enqueue_def split: option.split)

lemma record_fields [simp]:
  "rr_position (replay_record_of sn p px ts i x) = p" "rr_exit (replay_record_of sn p px ts i x) = px"
  "rr_exit_fill_timestamp (replay_record_of sn p px ts i x) = ts" "rr_exit_fill_trade_index (replay_record_of sn p px ts i x) = i"
  "rr_exit_trade_price (replay_record_of sn p px ts i x) = x"
  by (simp_all add: replay_record_of_def Let_def)

lemma update_path_fields [simp]:
  "rp_entry_trigger_ts (update_path x p) = rp_entry_trigger_ts p" "rp_entry_fill_ts (update_path x p) = rp_entry_fill_ts p"
  "rp_entry_trade_price (update_path x p) = rp_entry_trade_price p"
  "rp_entry_fill_trade_index (update_path x p) = rp_entry_fill_trade_index p"
  "rp_initial_stop (update_path x p) = rp_initial_stop p" "rp_initial_target (update_path x p) = rp_initial_target p"
  by (simp_all add: update_path_def)

lemma drain_fields [simp]:
  "re_position (drop_decision st) = re_position st" "re_pending (drop_decision st) = re_pending st"
  "re_records (drop_decision st) = re_records st" "re_position (note_filled st) = re_position st"
  "re_pending (note_filled st) = re_pending st" "re_records (note_filled st) = re_records st"
  "re_position (reject_decision m st) = re_position st" "re_pending (reject_decision m st) = re_pending st"
  "re_records (reject_decision m st) = re_records st"
  "re_queue (drop_decision st) = re_queue st" "re_queue (note_filled st) = re_queue st" "re_queue (reject_decision m st) = re_queue st"
  "re_candle_i (drop_decision st) = re_candle_i st" "re_candle_i (note_filled st) = re_candle_i st"
  "re_candle_i (reject_decision m st) = re_candle_i st"
  "re_atr (drop_decision st) = re_atr st" "re_atr (note_filled st) = re_atr st" "re_atr (reject_decision m st) = re_atr st"
  "re_provider (drop_decision st) = re_provider st" "re_provider (note_filled st) = re_provider st"
  "re_provider (reject_decision m st) = re_provider st"
  by (simp_all add: drop_decision_def note_filled_def reject_decision_def)

section \<open>Induction over the trades\<close>

lemma bindE_Inr_right [simp]: "bindE m Inr = m"
  by (cases m) auto

lemma replay_after_snoc:
  "replay_after env (ts @ [t]) = bindE (replay_after env ts) (\<lambda>st. trade_step env st (length ts, t))"
  by (simp add: replay_after_def enumerate_append_eq foldE_append bindE_assoc)

lemma replay_after_induct [consumes 1, case_names start trade]:
  assumes "replay_after env ts = Inr st" "\<And>st. replay_start env = Inr st \<Longrightarrow> P [] st"
    and "\<And>ts t st st'. P ts st \<Longrightarrow> trade_step env st (length ts, t) = Inr st' \<Longrightarrow> P (ts @ [t]) st'"
  shows "P ts st"
  using assms(1)
proof (induction ts arbitrary: st rule: rev_induct)
  case Nil
  then show ?case using assms(2) by (auto simp: replay_after_def bindE_eq_Inr)
next
  case (snoc t ts)
  then show ?case using assms(3) by (auto simp: replay_after_snoc bindE_eq_Inr)
qed

lemma trade_step_cases:
  assumes "trade_step env st (i, t) = Inr st'"
  obtains s1 s2 s3 where "advance env (rt_ts t) st = Inr s1" "fill_pending_exit env i t s1 = Inr s2"
    "drain_decisions env i t s2 = Inr s3" "st' = risk_eval env i t s3"
  using assms by (auto simp: trade_step_def bindE_eq_Inr)

text \<open>What an invariant must survive: each phase, one candle and one decision at a time.\<close>

lemma advance_invariant:
  assumes "advance env cutoff st = Inr st'" "P st" "\<And>st c st'. P st \<Longrightarrow> confirm_candle env st c = Inr st' \<Longrightarrow> P st'"
  shows "P st'"
  using assms unfolding advance_def by (elim foldE_invariant) blast

lemma drain_invariant:
  assumes "drain_decisions env i t st = Inr st'" "P (st\<lparr>re_queue := []\<rparr>)"
    and "\<And>st d st'. d \<in> set q \<Longrightarrow> P st \<Longrightarrow> take_decision env i t st d = Inr st' \<Longrightarrow> P st'" "re_queue st = q"
  shows "P st'"
proof (rule foldE_invariant[OF assms(1)[unfolded drain_decisions_def]])
  show "P (st\<lparr>re_queue := []\<rparr>)" by (rule assms(2))
next
  fix s x u assume "x \<in> set (re_queue st)" "P s" "take_decision env i t s x = Inr u"
  then show "P u" using assms(3,4) by blast
qed

section \<open>Every decision is accounted for\<close>

definition counts_ok :: "nat \<Rightarrow> 'p replay_state \<Rightarrow> bool" where
  \<comment> \<open>\<open>n\<close>: decisions taken from the queue and not yet counted\<close>
  "counts_ok n st \<longleftrightarrow>
     (let s = re_stats st in
      rs_total s = rs_filled s + rs_dropped s + rs_rejected s + rs_unfilled s + length (re_queue st) + n \<and>
      rs_closed s = length (re_records st) \<and> sum_list (map snd (re_rejected_reasons st)) = rs_rejected s)"

lemma count_reason_sum [simp]: "sum_list (map snd (count_reason m d)) = sum_list (map snd d) + 1"
proof -
  have "sum_list (map snd (AList.update m (k + 1) d)) + (case map_of d m of None \<Rightarrow> 0 | Some n \<Rightarrow> n) = sum_list (map snd d) + k + 1" for k
    by (induction d) (auto split: option.splits)
  from this[of "case map_of d m of None \<Rightarrow> 0 | Some n \<Rightarrow> n"] show ?thesis
    by (simp add: count_reason_def)
qed

lemma counts_confirm: "counts_ok n st \<Longrightarrow> confirm_candle env st c = Inr st' \<Longrightarrow> counts_ok n st'"
  by (auto simp: confirm_candle_def counts_ok_def Let_def bindE_eq_Inr enqueue_def split: option.split)

lemma open_position_cases:
  assumes "open_replay_position env i t d a v st = Inr st'"
  obtains p where "st' = st\<lparr>re_position := Some p\<rparr>" "rp_entry_fill_trade_index p = i" "rp_entry_fill_ts p = rt_ts t"
    "rp_entry_trade_price p = rt_price t" "rp_entry_trigger_ts p = dn_signal_ts d"
    "rp_highest p = rp_entry_execution_price p" "rp_trailing p = rp_initial_stop p" "rp_current_atr p = rp_atr p"
  using assms by (auto simp: open_replay_position_def Let_def bindE_eq_Inr split: prod.splits)

lemma counts_decision:
  assumes "counts_ok (Suc n) st" "take_decision env i t st d = Inr st'"
  shows "counts_ok n st'"
proof -
  have buy: "counts_ok n st'" if "take_buy env i t st d = Inr st'"
    using that assms(1)
    by (auto simp: take_buy_def Let_def bindE_eq_Inr counts_ok_def drop_decision_def reject_decision_def note_filled_def
        split: option.splits if_splits elim!: open_position_cases)
  show ?thesis
    using assms buy
    by (auto simp: take_decision_def take_sell_def counts_ok_def Let_def drop_decision_def note_filled_def
        split: if_splits option.splits)
qed

lemma counts_drain:
  assumes "counts_ok n st" "drain_decisions env i t st = Inr st'"
  shows "counts_ok n st'"
proof -
  have "counts_ok n st'" if "foldE (take_decision env i t) st0 q = Inr st'" "counts_ok (n + length q) st0" for st0 q
    using that
  proof (induction q arbitrary: st0)
    case (Cons d q)
    then obtain a where a: "take_decision env i t st0 d = Inr a" "foldE (take_decision env i t) a q = Inr st'"
      by (auto simp: bindE_eq_Inr)
    have "counts_ok (n + length q) a" using counts_decision[OF _ a(1)] Cons.prems(2) by simp
    with Cons.IH[OF a(2)] show ?case .
  qed simp
  moreover have "counts_ok (n + length (re_queue st)) (st\<lparr>re_queue := []\<rparr>)"
    using assms(1) by (simp add: counts_ok_def Let_def)
  ultimately show ?thesis using assms(2) by (simp add: drain_decisions_def)
qed

lemma counts_finish [simp]: "counts_ok n (finish env st p px ts i x) = counts_ok n st"
  by (simp add: counts_ok_def Let_def)

lemma counts_pending:
  "counts_ok n st \<Longrightarrow> fill_pending_exit env i t st = Inr st' \<Longrightarrow> counts_ok n st'"
  by (auto simp: fill_pending_exit_def counts_ok_def Let_def split: option.splits)

lemma counts_risk [simp]: "counts_ok n (risk_eval env i t st) = counts_ok n st"
  by (simp add: risk_eval_def counts_ok_def Let_def split: option.split)

lemma counts_after: "replay_after env ts = Inr st \<Longrightarrow> counts_ok 0 st"
proof (induction rule: replay_after_induct)
  case (start st)
  then show ?case by (auto simp: replay_start_def replay_init_def counts_ok_def Let_def bindE_eq_Inr)
next
  case (trade ts t st st')
  from trade(2) obtain s1 s2 s3 where s: "advance env (rt_ts t) st = Inr s1" "fill_pending_exit env (length ts) t s1 = Inr s2"
    "drain_decisions env (length ts) t s2 = Inr s3" "st' = risk_eval env (length ts) t s3" by (rule trade_step_cases)
  have "counts_ok 0 s1" using advance_invariant[where P = "counts_ok 0", OF s(1) trade(1)] counts_confirm by blast
  then show ?case using counts_pending[OF _ s(2)] counts_drain[OF _ s(3)] s(4) by simp
qed

section \<open>What leaves a position, and when\<close>

text \<open>
  The reference: which exit is due at a trade, computed from the candles, the ATR series and the
  trades alone.  It follows the stop of a position trade by trade from its entry, and knows
  nothing of the engine's state; of a position it reads what the entry fixed.
\<close>

definition confirmed :: "'p replay_env \<Rightarrow> replay_trade list \<Rightarrow> nat" where
  \<comment> \<open>how many candles are confirmed after the trades\<close>
  "confirmed env ts = foldl (\<lambda>n t. n + length (closed_by (rt_ts t) (drop n (ev_candles env)))) 0 ts"

definition last_defined :: "'a \<Rightarrow> 'a option list \<Rightarrow> 'a" where
  "last_defined a vs = foldl (\<lambda>b v. case v of None \<Rightarrow> b | Some x \<Rightarrow> x) a vs"

definition atr_in_force :: "'p replay_env \<Rightarrow> pyfloat option list \<Rightarrow> replay_trade list \<Rightarrow> replay_position \<Rightarrow> nat \<Rightarrow> pyfloat" where
  \<comment> \<open>when \<open>n\<close> candles are confirmed: the entry's, or in dynamic mode the last since the entry\<close>
  "atr_in_force env atrs ts p n =
     (if dynamic env
      then last_defined (rp_atr p) (map (nth atrs) [confirmed env (take (Suc (rp_entry_fill_trade_index p)) ts)..<n])
      else rp_atr p)"

fun stop_path :: "'p replay_env \<Rightarrow> pyfloat option list \<Rightarrow> replay_trade list \<Rightarrow> replay_position \<Rightarrow> nat \<Rightarrow> pyfloat \<times> pyfloat" where
  \<comment> \<open>the highest price and the trailing stop \<open>d\<close> trades after the entry's\<close>
  "stop_path env atrs ts p 0 = (rp_entry_execution_price p, rp_initial_stop p)"
| "stop_path env atrs ts p (Suc d) =
     (let j = rp_entry_fill_trade_index p + Suc d; t = ts ! j in
      case stop_path env atrs ts p d of (high, stop) \<Rightarrow>
        if rt_ts t \<le> rp_entry_fill_ts p then (high, stop)
        else let high' = fmax high (rt_price t);
                 s = update_trailing stop high' (atr_in_force env atrs ts p (confirmed env (take (Suc j) ts))) (sn_risk (ev_scenario env))
             in (high', if flt stop s then s else stop))"

definition stop_at :: "'p replay_env \<Rightarrow> pyfloat option list \<Rightarrow> replay_trade list \<Rightarrow> replay_position \<Rightarrow> nat \<Rightarrow> pyfloat" where
  \<comment> \<open>the stop in force at the trade \<open>j\<close>: the initial one or the trailing one, whichever is higher\<close>
  "stop_at env atrs ts p j = fmax (rp_initial_stop p) (snd (stop_path env atrs ts p (j - Suc (rp_entry_fill_trade_index p))))"

definition quiet :: "'p replay_env \<Rightarrow> pyfloat option list \<Rightarrow> replay_trade list \<Rightarrow> replay_position \<Rightarrow> nat \<Rightarrow> bool" where
  \<comment> \<open>a trade that reaches neither the stop in force nor the target, or is not after the entry's instant\<close>
  "quiet env atrs ts p j \<longleftrightarrow> rt_ts (ts ! j) \<le> rp_entry_fill_ts p \<or>
     \<not> fle (rt_price (ts ! j)) (stop_at env atrs ts p j) \<and> \<not> fle (rp_initial_target p) (rt_price (ts ! j))"

definition held :: "'p replay_env \<Rightarrow> pyfloat option list \<Rightarrow> replay_trade list \<Rightarrow> replay_position \<Rightarrow> nat \<Rightarrow> bool" where
  \<comment> \<open>the position was filled by its trade and every trade from then to \<open>k\<close> was quiet\<close>
  "held env atrs ts p k \<longleftrightarrow>
     (let e = rp_entry_fill_trade_index p in
      e \<le> k \<and> e < length ts \<and> rp_entry_fill_ts p = rt_ts (ts ! e) \<and> rp_entry_trade_price p = rt_price (ts ! e) \<and>
      (\<forall>j. e < j \<and> j < k \<longrightarrow> quiet env atrs ts p j))"

definition exit_due ::
  "'p replay_env \<Rightarrow> pyfloat option list \<Rightarrow> replay_trade list \<Rightarrow> replay_position \<Rightarrow> nat \<Rightarrow> pending_exit \<Rightarrow> bool" where
  \<comment> \<open>the exit the trade \<open>k\<close> triggers: the stop in force before the target\<close>
  "exit_due env atrs ts p k px \<longleftrightarrow>
     (let t = ts ! k; stop = stop_at env atrs ts p k in
      rp_entry_fill_ts p < rt_ts t \<and> px_trigger_ts px = rt_ts t \<and> px_trigger_trade_index px = Some k \<and>
      px_trigger_price px = rt_price t \<and>
      (if fle (rt_price t) stop
       then px_reason px = (if flt (rp_entry_execution_price p) stop then ''trailing_stop'' else ''stop_loss'') \<and>
            px_reference_price px = stop
       else fle (rp_initial_target p) (rt_price t) \<and> px_reason px = ''take_profit'' \<and>
            px_reference_price px = rp_initial_target p))"

definition left_by_trade :: "'p replay_env \<Rightarrow> pyfloat option list \<Rightarrow> replay_trade list \<Rightarrow> replay_record \<Rightarrow> bool" where
  \<comment> \<open>the record of a position that left at a trade: a decision, or a level reached one trade before\<close>
  "left_by_trade env atrs ts r \<longleftrightarrow>
     (let p = rr_position r; px = rr_exit r; i = rr_exit_fill_trade_index r in
      i < length ts \<and> rr_exit_fill_timestamp r = rt_ts (ts ! i) \<and> rr_exit_trade_price r = rt_price (ts ! i) \<and>
      (case px_trigger_trade_index px of
         None \<Rightarrow> px_reason px = ''strategy_exit'' \<and> held env atrs ts p i
       | Some k \<Rightarrow> i = k + 1 \<and> held env atrs ts p k \<and> exit_due env atrs ts p k px))"

definition left_at_end :: "'p replay_env \<Rightarrow> pyfloat option list \<Rightarrow> replay_trade list \<Rightarrow> replay_record \<Rightarrow> bool" where
  \<comment> \<open>the record of a position the data ended on\<close>
  "left_at_end env atrs ts r \<longleftrightarrow>
     (let p = rr_position r; px = rr_exit r; i = rr_exit_fill_trade_index r in
      i + 1 = length ts \<and> rr_exit_fill_timestamp r = rt_ts (ts ! i) \<and> rr_exit_trade_price r = rt_price (ts ! i) \<and>
      px_trigger_trade_index px = Some i \<and> held env atrs ts p i \<and>
      (exit_due env atrs ts p i px \<or> px_reason px = ''end_of_dataset'' \<and> held env atrs ts p (length ts)))"

subsection \<open>What the reference depends on\<close>

lemma confirmed_snoc [simp]:
  "confirmed env [] = 0"
  "confirmed env (ts @ [t]) = confirmed env ts + length (closed_by (rt_ts t) (drop (confirmed env ts) (ev_candles env)))"
  by (simp_all add: confirmed_def)

lemma last_defined_snoc [simp]:
  "last_defined a [] = a" "last_defined a (vs @ [v]) = (case v of None \<Rightarrow> last_defined a vs | Some x \<Rightarrow> x)"
  by (simp_all add: last_defined_def split: option.split)

lemma atr_in_force_append:
  "rp_entry_fill_trade_index p < length ts \<Longrightarrow> atr_in_force env atrs (ts @ us) p n = atr_in_force env atrs ts p n"
  by (simp add: atr_in_force_def)

lemma stop_path_append:
  "rp_entry_fill_trade_index p + d < length ts \<Longrightarrow> stop_path env atrs (ts @ us) p d = stop_path env atrs ts p d"
proof (induction d)
  case (Suc d)
  then have "take (Suc (Suc (rp_entry_fill_trade_index p + d))) (ts @ us) = take (Suc (Suc (rp_entry_fill_trade_index p + d))) ts"
    by simp
  with Suc show ?case
    by (cases "stop_path env atrs ts p d") (simp add: nth_append atr_in_force_append Let_def)
qed simp

lemma stop_at_append: "j < length ts \<Longrightarrow> rp_entry_fill_trade_index p < j \<Longrightarrow> stop_at env atrs (ts @ us) p j = stop_at env atrs ts p j"
  by (simp add: stop_at_def stop_path_append)

lemma quiet_append: "j < length ts \<Longrightarrow> rp_entry_fill_trade_index p < j \<Longrightarrow> quiet env atrs (ts @ us) p j = quiet env atrs ts p j"
  by (simp add: quiet_def stop_at_append nth_append)

lemma held_append: "held env atrs ts p k \<Longrightarrow> k \<le> length ts \<Longrightarrow> held env atrs (ts @ us) p k"
  by (auto simp: held_def Let_def nth_append quiet_append)

lemma due_after_entry: "held env atrs ts p k \<Longrightarrow> rp_entry_fill_ts p < rt_ts (ts ! k) \<Longrightarrow> rp_entry_fill_trade_index p < k"
  by (auto simp: held_def Let_def order_le_less)

lemma exit_due_append:
  "exit_due env atrs ts p k px \<Longrightarrow> held env atrs ts p k \<Longrightarrow> k < length ts \<Longrightarrow> exit_due env atrs (ts @ us) p k px"
  using due_after_entry[of env atrs ts p k] by (simp add: exit_due_def Let_def nth_append stop_at_append)

lemma left_by_trade_append: "left_by_trade env atrs ts r \<Longrightarrow> left_by_trade env atrs (ts @ us) r"
  by (auto simp: left_by_trade_def Let_def nth_append held_append exit_due_append split: option.splits)

definition same_entry :: "replay_position \<Rightarrow> replay_position \<Rightarrow> bool" where
  \<comment> \<open>what the entry fixed\<close>
  "same_entry q p \<longleftrightarrow>
     rp_entry_fill_trade_index q = rp_entry_fill_trade_index p \<and> rp_entry_fill_ts q = rp_entry_fill_ts p \<and>
     rp_entry_trade_price q = rp_entry_trade_price p \<and> rp_entry_execution_price q = rp_entry_execution_price p \<and>
     rp_initial_stop q = rp_initial_stop p \<and> rp_initial_target q = rp_initial_target p \<and> rp_atr q = rp_atr p"

lemma same_path: "same_entry q p \<Longrightarrow> stop_path env atrs ts q d = stop_path env atrs ts p d"
proof (induction d)
  case (Suc d)
  then show ?case by (cases "stop_path env atrs ts p d") (simp add: same_entry_def atr_in_force_def Let_def)
qed (simp add: same_entry_def)

lemma same_quiet:
  assumes "same_entry q p"
  shows "quiet env atrs ts q j = quiet env atrs ts p j"
  using assms by (simp add: quiet_def stop_at_def same_path[OF assms]) (simp add: same_entry_def)

lemma same_held:
  assumes "same_entry q p"
  shows "held env atrs ts q k = held env atrs ts p k"
  using assms by (simp add: held_def same_quiet[OF assms]) (simp add: same_entry_def)

lemma same_due:
  assumes "same_entry q p"
  shows "exit_due env atrs ts q k px = exit_due env atrs ts p k px"
  using assms by (simp add: exit_due_def Let_def stop_at_def same_path[OF assms]) (simp add: same_entry_def)

lemma same_entries [simp]:
  "same_entry p p" "same_entry (update_path x p) p" "same_entry (raise_trailing env p) p" "same_entry (p\<lparr>rp_current_atr := a\<rparr>) p"
  by (simp_all add: same_entry_def update_path_def raise_trailing_def Let_def)

lemma raise_trailing_entry [simp]: "rp_entry_fill_trade_index (raise_trailing env p) = rp_entry_fill_trade_index p"
  by (simp add: raise_trailing_def Let_def)

lemma held_Suc:
  "held env atrs ts p k \<Longrightarrow> quiet env atrs ts p k \<Longrightarrow> held env atrs ts p (Suc k)"
  by (auto simp: held_def Let_def less_Suc_eq)

subsection \<open>The engine follows the reference\<close>

definition followed :: "'p replay_env \<Rightarrow> pyfloat option list \<Rightarrow> replay_trade list \<Rightarrow> nat \<Rightarrow> nat \<Rightarrow> replay_position \<Rightarrow> bool" where
  \<comment> \<open>the open position holds the reference's figures: \<open>m\<close> is the last trade checked, \<open>n\<close> the candles confirmed\<close>
  "followed env atrs ts m n p \<longleftrightarrow>
     confirmed env (take (Suc (rp_entry_fill_trade_index p)) ts) \<le> n \<and>
     stop_path env atrs ts p (m - rp_entry_fill_trade_index p) = (rp_highest p, rp_trailing p) \<and>
     (dynamic env \<longrightarrow> rp_current_atr p = atr_in_force env atrs ts p n)"

lemma followed_append:
  assumes "followed env atrs ts (length ts - 1) n p" "rp_entry_fill_trade_index p < length ts"
  shows "followed env atrs (ts @ us) (length ts - 1) n p"
  using assms by (simp add: followed_def stop_path_append atr_in_force_append)

lemma followed_confirm:
  assumes "followed env atrs ts m n p" "dynamic env \<Longrightarrow> a = (case atrs ! n of None \<Rightarrow> rp_current_atr p | Some x \<Rightarrow> x)"
  shows "followed env atrs ts m (Suc n) (p\<lparr>rp_current_atr := a\<rparr>)"
proof -
  let ?q = "p\<lparr>rp_current_atr := a\<rparr>"
  have "atr_in_force env atrs ts ?q (Suc n) = a" if "dynamic env"
    using assms that by (simp add: followed_def atr_in_force_def split: option.split)
  with assms(1) show ?thesis
    using same_path[of ?q p env atrs ts] by (simp add: followed_def)
qed

lemma followed_stop:
  assumes "followed env atrs ts m n p" "m = k - 1"
  shows "protective_stop p = stop_at env atrs ts p k"
  using assms by (simp add: followed_def protective_stop_def stop_at_def)

lemma checked_exit:
  assumes "followed env atrs ts (k - 1) n p" "rp_entry_fill_ts p < rt_ts (ts ! k)"
  shows "case risk_exit k (ts ! k) (update_path x p) of None \<Rightarrow> quiet env atrs ts p k | Some px \<Rightarrow> exit_due env atrs ts p k px"
proof -
  have "protective_stop (update_path x p) = stop_at env atrs ts p k"
    using followed_stop[OF assms(1) refl] by (simp add: protective_stop_def update_path_def)
  with assms(2) show ?thesis
    by (auto simp: risk_exit_def exit_due_def quiet_def Let_def update_path_def)
qed

lemma checked_path:
  assumes "followed env atrs ts (k - 1) n p" "rp_entry_fill_trade_index p < k" "n = confirmed env (take (Suc k) ts)"
    "rp_entry_fill_ts p < rt_ts (ts ! k)"
  shows "followed env atrs ts k n (raise_trailing env (update_path (rt_price (ts ! k)) p))"
proof -
  let ?e = "rp_entry_fill_trade_index p" and ?q = "update_path (rt_price (ts ! k)) p"
  obtain d where d: "k = ?e + Suc d" using assms(2) less_imp_Suc_add by fastforce
  have path: "stop_path env atrs ts p d = (rp_highest p, rp_trailing p)" using assms(1) d by (simp add: followed_def)
  have s: "same_entry (raise_trailing env ?q) p" by (simp add: same_entry_def update_path_def raise_trailing_def Let_def)
  have a: "(if dynamic env then rp_current_atr p else rp_atr p) = atr_in_force env atrs ts p n"
    using assms(1) by (simp add: followed_def atr_in_force_def)
  have e: "rp_entry_fill_trade_index (raise_trailing env ?q) = ?e" using s by (simp add: same_entry_def)
  have "stop_path env atrs ts p (Suc d) = (rp_highest (raise_trailing env ?q), rp_trailing (raise_trailing env ?q))"
    using path assms(3,4) a unfolding d
    by (cases "dynamic env") (simp_all add: raise_trailing_def update_path_def Let_def)
  moreover have "rp_current_atr (raise_trailing env ?q) = rp_current_atr p"
    by (simp add: raise_trailing_def update_path_def Let_def)
  moreover have "atr_in_force env atrs ts (raise_trailing env ?q) n = atr_in_force env atrs ts p n"
    using s by (simp add: atr_in_force_def same_entry_def)
  ultimately show ?thesis
    using assms(1) d e same_path[OF s, of env atrs ts "Suc d"] by (simp add: followed_def del: stop_path.simps)
qed

lemma unchecked_path:
  assumes "followed env atrs ts (k - 1) n p" "rp_entry_fill_trade_index p \<le> k" "rt_ts (ts ! k) \<le> rp_entry_fill_ts p"
  shows "followed env atrs ts k n p"
proof (cases "rp_entry_fill_trade_index p = k")
  case False
  with assms(2) obtain d where d: "k = rp_entry_fill_trade_index p + Suc d"
    using less_imp_Suc_add[of "rp_entry_fill_trade_index p" k] by fastforce
  with assms show ?thesis by (simp add: followed_def Let_def)
qed (use assms(1) in \<open>simp add: followed_def\<close>)

lemma confirm_position:
  assumes "confirm_candle env st c = Inr st'"
  shows "re_position st' = map_option (\<lambda>p. p\<lparr>rp_current_atr :=
      (if dynamic env then case re_atr st ! re_candle_i st of None \<Rightarrow> rp_current_atr p | Some a \<Rightarrow> a else rp_current_atr p)\<rparr>)
      (re_position st)"
proof -
  obtain p d where s: "st' = (confirm_atr env (re_atr st ! re_candle_i st) (enqueue d (st\<lparr>re_provider := p\<rparr>)))\<lparr>re_candle_i := re_candle_i st + 1\<rparr>"
    using assms by (auto simp: confirm_candle_def Let_def bindE_eq_Inr)
  show ?thesis
    unfolding s by (cases "re_position st"; cases "re_atr st ! re_candle_i st") (simp_all add: confirm_atr_def)
qed

lemma confirm_cases:
  assumes "confirm_candle env st c = Inr st'"
  shows "re_pending st' = re_pending st \<and> re_records st' = re_records st \<and> re_candle_i st' = re_candle_i st + 1 \<and>
    re_atr st' = re_atr st \<and>
    (re_position st' = re_position st \<or> (\<exists>p a. re_position st = Some p \<and> re_position st' = Some (p\<lparr>rp_current_atr := a\<rparr>)))"
proof -
  obtain p d v where s: "st' = (confirm_atr env v (enqueue d (st\<lparr>re_provider := p\<rparr>)))\<lparr>re_candle_i := re_candle_i st + 1\<rparr>"
    using assms by (auto simp: confirm_candle_def Let_def bindE_eq_Inr)
  have "re_position st' = re_position st \<or> (\<exists>p a. re_position st = Some p \<and> re_position st' = Some (p\<lparr>rp_current_atr := a\<rparr>))"
    using confirm_position[OF assms] by (cases "re_position st") auto
  then show ?thesis unfolding s by simp
qed

lemma foldE_counter:
  "foldE f s xs = Inr t \<Longrightarrow> (\<And>s x t. f s x = Inr t \<Longrightarrow> n t = n s + (1::nat)) \<Longrightarrow> n t = n s + length xs"
proof (induction xs arbitrary: s)
  case (Cons x xs)
  then obtain u where "f s x = Inr u" "foldE f u xs = Inr t" by (auto simp: bindE_eq_Inr)
  with Cons.IH[of u] Cons.prems(2)[of s x u] Cons.prems(2) show ?case by simp
qed simp

lemma advance_index:
  assumes "advance env cutoff st = Inr st'"
  shows "re_candle_i st' = re_candle_i st + length (closed_by cutoff (drop (re_candle_i st) (ev_candles env)))"
  using assms confirm_cases unfolding advance_def by (intro foldE_counter[where f = "confirm_candle env"]) blast+

abbreviation entry_of_record :: "replay_record \<Rightarrow> nat" where
  "entry_of_record r \<equiv> rp_entry_fill_trade_index (rr_position r)"

definition in_turn :: "replay_record list \<Rightarrow> bool" where
  \<comment> \<open>each position was filled at or after the exit of the one before\<close>
  "in_turn rs \<longleftrightarrow> sorted_wrt (\<lambda>r s. rr_exit_fill_trade_index r \<le> entry_of_record s) rs"

definition position_inv :: "'p replay_env \<Rightarrow> replay_trade list \<Rightarrow> 'p replay_state \<Rightarrow> replay_position \<Rightarrow> bool" where
  "position_inv env ts st p \<longleftrightarrow>
     (\<forall>r \<in> set (re_records st). rr_exit_fill_trade_index r \<le> rp_entry_fill_trade_index p) \<and>
     (case re_pending st of
        None \<Rightarrow> held env (re_atr st) ts p (length ts) \<and> followed env (re_atr st) ts (length ts - 1) (re_candle_i st) p
      | Some px \<Rightarrow> \<exists>us t. ts = us @ [t] \<and> held env (re_atr st) ts p (length us) \<and> exit_due env (re_atr st) ts p (length us) px)"

definition exits_inv :: "'p replay_env \<Rightarrow> replay_trade list \<Rightarrow> 'p replay_state \<Rightarrow> bool" where
  \<comment> \<open>between two trades\<close>
  "exits_inv env ts st \<longleftrightarrow>
     (\<forall>r \<in> set (re_records st). left_by_trade env (re_atr st) ts r) \<and> in_turn (re_records st) \<and>
     (case re_position st of None \<Rightarrow> re_pending st = None | Some p \<Rightarrow> position_inv env ts st p)"

definition drain_inv :: "'p replay_env \<Rightarrow> replay_trade list \<Rightarrow> replay_trade \<Rightarrow> 'p replay_state \<Rightarrow> bool" where
  \<comment> \<open>while the decisions are taken at the trade \<open>t\<close>, which is not in \<open>ts\<close>\<close>
  "drain_inv env ts t st \<longleftrightarrow>
     re_pending st = None \<and> re_candle_i st = confirmed env (ts @ [t]) \<and>
     (\<forall>r \<in> set (re_records st). left_by_trade env (re_atr st) (ts @ [t]) r) \<and> in_turn (re_records st) \<and>
     (\<forall>p. re_position st = Some p \<longrightarrow>
        (\<forall>r \<in> set (re_records st). rr_exit_fill_trade_index r \<le> rp_entry_fill_trade_index p) \<and>
        held env (re_atr st) (ts @ [t]) p (length ts) \<and>
        followed env (re_atr st) (ts @ [t]) (length ts - 1) (re_candle_i st) p)"

lemma drain_inv_queue [simp]: "drain_inv env ts t (st\<lparr>re_queue := q\<rparr>) = drain_inv env ts t st"
  by (simp add: drain_inv_def split: option.split)

lemma in_turn_snoc: "in_turn (rs @ [r]) \<longleftrightarrow> in_turn rs \<and> (\<forall>s \<in> set rs. rr_exit_fill_trade_index s \<le> entry_of_record r)"
  by (auto simp: in_turn_def sorted_wrt_append)

lemma exits_confirm:
  assumes "exits_inv env ts st" "confirm_candle env st c = Inr st'"
  shows "exits_inv env ts st'"
proof (cases "re_position st")
  case None
  with confirm_cases[OF assms(2)] assms(1) show ?thesis by (auto simp: exits_inv_def split: option.splits)
next
  case (Some p)
  define a where "a = (if dynamic env then case re_atr st ! re_candle_i st of None \<Rightarrow> rp_current_atr p | Some a \<Rightarrow> a else rp_current_atr p)"
  have p': "re_position st' = Some (p\<lparr>rp_current_atr := a\<rparr>)" using confirm_position[OF assms(2)] Some by (simp add: a_def)
  have "position_inv env ts st p" using assms(1) Some by (simp add: exits_inv_def)
  then have "position_inv env ts st' (p\<lparr>rp_current_atr := a\<rparr>)"
    using confirm_cases[OF assms(2)] followed_confirm[of env "re_atr st" ts "length ts - 1" "re_candle_i st" p a]
    by (auto simp: position_inv_def same_held[OF same_entries(4)] same_due[OF same_entries(4)] a_def split: option.splits)
  with p' confirm_cases[OF assms(2)] assms(1) show ?thesis by (simp add: exits_inv_def)
qed

lemma exits_pending:
  assumes "exits_inv env ts st" "fill_pending_exit env (length ts) t st = Inr st'" "re_candle_i st = confirmed env (ts @ [t])"
  shows "drain_inv env ts t st'"
proof (cases "re_pending st")
  case None
  have "followed env (re_atr st) (ts @ [t]) (length ts - 1) (re_candle_i st) p" if "re_position st = Some p" for p
    using assms(1) None that by (intro followed_append) (auto simp: exits_inv_def position_inv_def held_def Let_def)
  with None assms show ?thesis
    by (auto simp: fill_pending_exit_def exits_inv_def drain_inv_def position_inv_def left_by_trade_append held_append
        simp del: confirmed_snoc split: option.splits)
next
  case (Some px)
  with assms(2) obtain p where p: "re_position st = Some p"
    "st' = finish env (st\<lparr>re_pending := None\<rparr>) p px (rt_ts t) (length ts) (rt_price t)"
    by (auto simp: fill_pending_exit_def split: option.splits)
  from assms(1) p(1) Some obtain us u where u: "ts = us @ [u]" "held env (re_atr st) ts p (length us)"
    "exit_due env (re_atr st) ts p (length us) px"
    "\<forall>r \<in> set (re_records st). rr_exit_fill_trade_index r \<le> rp_entry_fill_trade_index p"
    "\<forall>r \<in> set (re_records st). left_by_trade env (re_atr st) ts r" "in_turn (re_records st)"
    by (auto simp: exits_inv_def position_inv_def)
  have k: "px_trigger_trade_index px = Some (length us)" using u(3) by (simp add: exit_due_def Let_def)
  have "left_by_trade env (re_atr st) (ts @ [t]) (replay_record_of (ev_scenario env) p px (rt_ts t) (length ts) (rt_price t))"
    using u(1) held_append[OF u(2), of "[t]"] exit_due_append[OF u(3,2), of "[t]"] k
    by (simp add: left_by_trade_def Let_def nth_append)
  then show ?thesis using u(4-6) p(2) assms(3)
    by (auto simp: drain_inv_def in_turn_snoc simp del: confirmed_snoc intro: left_by_trade_append)
qed

lemma take_buy_cases:
  assumes "take_buy env i t st d = Inr st'"
  obtains "st' = drop_decision st"
  | "dynamic env" "st' = reject_decision (rv_reason (replay_verdict env (roll_day (rt_ts t) st) d)) (roll_day (rt_ts t) st)"
  | a v s1 s2 where "re_position st = None" "s1 = st \<or> s1 = roll_day (rt_ts t) st" "open_replay_position env i t d a v s1 = Inr s2" "st' = note_filled s2"
proof (cases "re_position st = None \<and> dn_atr d \<noteq> None")
  case True
  then obtain a where a: "re_position st = None" "dn_atr d = Some a" by auto
  show thesis
  proof (cases "dynamic env")
    case dyn: True
    show thesis
    proof (cases "rv_approved (replay_verdict env (roll_day (rt_ts t) st) d)")
      case True
      with dyn a assms obtain s2 where
        "open_replay_position env i t d a (Some (replay_verdict env (roll_day (rt_ts t) st) d)) (roll_day (rt_ts t) st) = Inr s2"
        "st' = note_filled s2" by (auto simp: take_buy_def Let_def bindE_eq_Inr)
      with a(1) that(3) show thesis by blast
    next
      case False
      with dyn a assms have "st' = reject_decision (rv_reason (replay_verdict env (roll_day (rt_ts t) st) d)) (roll_day (rt_ts t) st)"
        by (simp add: take_buy_def Let_def)
      with dyn that(2) show thesis by blast
    qed
  next
    case False
    with a assms obtain s2 where "open_replay_position env i t d a None st = Inr s2" "st' = note_filled s2"
      by (auto simp: take_buy_def bindE_eq_Inr)
    with a(1) that(3) show thesis by blast
  qed
next
  case False
  with assms have "st' = drop_decision st" by (auto simp: take_buy_def split: option.splits)
  with that(1) show thesis .
qed

lemma opened_keeps:
  "open_replay_position env i t d a v st = Inr st' \<Longrightarrow> re_queue st' = re_queue st \<and> re_candle_i st' = re_candle_i st \<and>
     re_atr st' = re_atr st \<and> re_provider st' = re_provider st"
  by (auto elim: open_position_cases)

lemma decision_keeps:
  assumes "take_decision env i t st d = Inr st'"
  shows "re_queue st' = re_queue st \<and> re_candle_i st' = re_candle_i st \<and> re_atr st' = re_atr st \<and> re_provider st' = re_provider st"
proof (cases "dn_action d = ''buy''")
  case True
  with assms have "take_buy env i t st d = Inr st'" by (simp add: take_decision_def)
  then show ?thesis by (cases rule: take_buy_cases) (auto dest: opened_keeps)
next
  case False
  with assms have "st' = take_sell env i t st d" by (simp add: take_decision_def split: if_splits)
  then show ?thesis by (simp add: take_sell_def split: option.split)
qed

lemma risk_keeps [simp]:
  "re_queue (risk_eval env i t st) = re_queue st" "re_candle_i (risk_eval env i t st) = re_candle_i st"
  "re_atr (risk_eval env i t st) = re_atr st" "re_provider (risk_eval env i t st) = re_provider st"
  by (simp_all add: risk_eval_def Let_def split: option.split)

lemma exits_opened:
  assumes "open_replay_position env (length ts) t d a v s1 = Inr s2" "drain_inv env ts t s1"
  shows "drain_inv env ts t s2"
proof -
  obtain p where p: "s2 = s1\<lparr>re_position := Some p\<rparr>" "rp_entry_fill_trade_index p = length ts"
    "rp_entry_fill_ts p = rt_ts t" "rp_entry_trade_price p = rt_price t"
    "rp_highest p = rp_entry_execution_price p" "rp_trailing p = rp_initial_stop p" "rp_current_atr p = rp_atr p"
    using open_position_cases[OF assms(1)] by metis
  then have "held env (re_atr s1) (ts @ [t]) p (length ts)" by (auto simp: held_def Let_def)
  moreover have "followed env (re_atr s1) (ts @ [t]) (length ts - 1) (re_candle_i s1) p"
    using p(2,5-7) assms(2) by (simp add: followed_def drain_inv_def atr_in_force_def del: confirmed_snoc)
  moreover have "rr_exit_fill_trade_index r \<le> length ts" if "r \<in> set (re_records s1)" for r
    using assms(2) that by (auto simp: drain_inv_def left_by_trade_def Let_def)
  ultimately show ?thesis using assms(2) p(1,2) by (simp add: drain_inv_def del: confirmed_snoc)
qed

lemma exits_same [simp]:
  "drain_inv env ts t (drop_decision u) = drain_inv env ts t u" "drain_inv env ts t (note_filled u) = drain_inv env ts t u"
  "drain_inv env ts t (reject_decision m u) = drain_inv env ts t u" "drain_inv env ts t (roll_day x u) = drain_inv env ts t u"
  by (simp_all add: drain_inv_def)

lemma exits_sell:
  assumes "drain_inv env ts t st"
  shows "drain_inv env ts t (take_sell env (length ts) t st d)"
proof (cases "re_position st")
  case None
  with assms show ?thesis by (simp add: take_sell_def)
next
  case (Some p)
  with assms have "held env (re_atr st) (ts @ [t]) (update_path (rt_price t) p) (length ts)"
    by (simp add: drain_inv_def same_held[OF same_entries(2)])
  with Some assms show ?thesis
    by (auto simp: take_sell_def drain_inv_def in_turn_snoc left_by_trade_def Let_def simp del: confirmed_snoc)
qed

lemma exits_decision:
  assumes "drain_inv env ts t st" "take_decision env (length ts) t st d = Inr st'"
  shows "drain_inv env ts t st'"
proof (cases "dn_action d = ''buy''")
  case True
  with assms(2) have "take_buy env (length ts) t st d = Inr st'" by (simp add: take_decision_def)
  then show ?thesis
  proof (cases rule: take_buy_cases)
    case (3 a v s1 s2)
    then have "drain_inv env ts t s1" using assms(1) by auto
    from exits_opened[OF 3(3) this] 3(4) show ?thesis by simp
  qed (use assms(1) in simp_all)
next
  case False
  with assms(2) have "st' = take_sell env (length ts) t st d" by (simp add: take_decision_def split: if_splits)
  then show ?thesis using exits_sell[OF assms(1)] by simp
qed

lemma exits_risk:
  assumes "drain_inv env ts t st"
  shows "exits_inv env (ts @ [t]) (risk_eval env (length ts) t st)"
proof (cases "re_position st")
  case None
  with assms show ?thesis by (simp add: risk_eval_def exits_inv_def drain_inv_def)
next
  case (Some p0)
  let ?p = "update_path (rt_price t) p0" and ?ts = "ts @ [t]"
  from assms Some have h: "held env (re_atr st) ?ts p0 (length ts)" "re_pending st = None"
    "\<forall>r \<in> set (re_records st). rr_exit_fill_trade_index r \<le> rp_entry_fill_trade_index p0"
    "\<forall>r \<in> set (re_records st). left_by_trade env (re_atr st) ?ts r" "in_turn (re_records st)"
    by (auto simp: drain_inv_def)
  from assms Some have f: "followed env (re_atr st) ?ts (length ts - 1) (re_candle_i st) p0"
    "re_candle_i st = confirmed env (take (Suc (length ts)) ?ts)" by (auto simp: drain_inv_def)
  note same = same_held[OF same_entries(2)] same_held[OF same_entries(3)[of env]] same_due[OF same_entries(2)]
  show ?thesis
  proof (cases "rt_ts t \<le> rp_entry_fill_ts p0")
    case True
    then have "held env (re_atr st) ?ts p0 (Suc (length ts))"
      using h(1) by (intro held_Suc) (simp_all add: quiet_def)
    moreover have "followed env (re_atr st) ?ts (length ts) (re_candle_i st) p0"
      using unchecked_path[OF f(1)] h(1) True by (simp add: held_def Let_def)
    ultimately show ?thesis using True Some h by (simp add: risk_eval_def exits_inv_def position_inv_def)
  next
    case False
    then have late: "rp_entry_fill_ts p0 < rt_ts (?ts ! length ts)" by simp
    from checked_exit[OF f(1) late, of "rt_price t"]
    have due: "case risk_exit (length ts) t ?p of None \<Rightarrow> quiet env (re_atr st) ?ts p0 (length ts)
      | Some px \<Rightarrow> exit_due env (re_atr st) ?ts p0 (length ts) px" by simp
    show ?thesis
    proof (cases "risk_exit (length ts) t ?p")
      case None
      with due h(1) have "held env (re_atr st) ?ts p0 (Suc (length ts))" by (auto intro: held_Suc)
      moreover have "followed env (re_atr st) ?ts (length ts) (re_candle_i st) (raise_trailing env ?p)"
        using checked_path[OF f(1) due_after_entry[OF h(1) late] f(2) late] by simp
      ultimately show ?thesis using None False Some h
        by (simp add: risk_eval_def Let_def exits_inv_def position_inv_def same trans[OF same(2) same(1)])
    next
      case (Some px)
      with due have "exit_due env (re_atr st) ?ts p0 (length ts) px" by simp
      with Some False \<open>re_position st = Some p0\<close> h show ?thesis
        by (simp add: risk_eval_def Let_def exits_inv_def position_inv_def same)
    qed
  qed
qed

lemma exits_advance:
  assumes "advance env cutoff st = Inr st'" "exits_inv env ts st"
  shows "exits_inv env ts st' \<and> re_atr st' = re_atr st"
proof (rule advance_invariant[where P = "\<lambda>u. exits_inv env ts u \<and> re_atr u = re_atr st", OF assms(1)])
  fix u c u' assume "exits_inv env ts u \<and> re_atr u = re_atr st" "confirm_candle env u c = Inr u'"
  then show "exits_inv env ts u' \<and> re_atr u' = re_atr st" using exits_confirm confirm_cases by metis
qed (simp add: assms(2))

lemma exits_trade:
  assumes "trade_step env st (length ts, t) = Inr st'" "exits_inv env ts st" "re_candle_i st = confirmed env ts"
  shows "exits_inv env (ts @ [t]) st' \<and> re_candle_i st' = confirmed env (ts @ [t]) \<and> re_atr st' = re_atr st"
proof -
  from assms(1) obtain s1 s2 s3 where s: "advance env (rt_ts t) st = Inr s1" "fill_pending_exit env (length ts) t s1 = Inr s2"
    "drain_decisions env (length ts) t s2 = Inr s3" "st' = risk_eval env (length ts) t s3" by (rule trade_step_cases)
  have i: "exits_inv env ts s1 \<and> re_atr s1 = re_atr st" using exits_advance[OF s(1) assms(2)] .
  have c: "re_candle_i s1 = confirmed env (ts @ [t])" using advance_index[OF s(1)] assms(3) by simp
  have a: "re_atr s2 = re_atr s1" using s(2) by (auto simp: fill_pending_exit_def split: option.splits)
  have "drain_inv env ts t s3 \<and> re_atr s3 = re_atr st"
  proof (rule drain_invariant[where P = "\<lambda>u. drain_inv env ts t u \<and> re_atr u = re_atr st", OF s(3) _ _ refl])
    show "drain_inv env ts t (s2\<lparr>re_queue := []\<rparr>) \<and> re_atr (s2\<lparr>re_queue := []\<rparr>) = re_atr st"
      using exits_pending[OF conjunct1[OF i] s(2) c] i a by simp
  next
    fix u d u' assume "drain_inv env ts t u \<and> re_atr u = re_atr st" "take_decision env (length ts) t u d = Inr u'"
    then show "drain_inv env ts t u' \<and> re_atr u' = re_atr st" using exits_decision decision_keeps by metis
  qed
  then have "drain_inv env ts t s3" "re_atr s3 = re_atr st" by auto
  moreover from this(1) have "re_candle_i s3 = confirmed env (ts @ [t])" by (simp add: drain_inv_def)
  ultimately show ?thesis using exits_risk[of env ts t s3] by (simp add: s(4) del: confirmed_snoc)
qed

lemma exits_after:
  assumes "replay_after env ts = Inr st"
  shows "exits_inv env ts st \<and> re_candle_i st = confirmed env ts \<and> (\<exists>st0. replay_start env = Inr st0 \<and> re_atr st = re_atr st0)"
  using assms
proof (induction rule: replay_after_induct)
  case (start st)
  then show ?case by (auto simp: replay_start_def replay_init_def exits_inv_def in_turn_def bindE_eq_Inr)
next
  case (trade ts t st st')
  then show ?case using exits_trade[of env st ts t st'] by auto
qed

section \<open>The end of a run\<close>

lemma sweep_fields [simp]:
  "re_position (sweep_queue st) = re_position st" "re_pending (sweep_queue st) = re_pending st"
  "re_records (sweep_queue st) = re_records st" "re_queue (sweep_queue st) = []"
  by (simp_all add: sweep_queue_def)

lemma replay_engine_cases:
  assumes "replay_engine env (ts, ending) = Inr res"
  obtains s1 s2 s4 s5 where "replay_after env ts = Inr s1" "ending = Inr ()" "advance env SWEEP_CUTOFF s1 = Inr s2"
    "(case re_pending s2 of None \<Rightarrow> Inr (sweep_queue s2) | Some _ \<Rightarrow> fill_pending_edge env (sweep_queue s2)) = Inr s4"
    "close_at_end env ts s4 = Inr s5"
    "res = \<lparr>rx_records = re_records s5, rx_stats = re_stats s5, rx_rejected_reasons = re_rejected_reasons s5\<rparr>"
  using assms by (auto simp: replay_engine_def Let_def bindE_eq_Inr)

lemma edge_cases:
  assumes "fill_pending_edge env st = Inr st'"
  obtains p px i where "re_position st = Some p" "re_pending st = Some px" "px_trigger_trade_index px = Some i"
    "st' = finish env (st\<lparr>re_pending := None\<rparr>) p px (px_trigger_ts px) i (px_trigger_price px)"
  using assms by (auto simp: fill_pending_edge_def split: option.splits)

definition ended :: "'p replay_env \<Rightarrow> pyfloat option list \<Rightarrow> replay_trade list \<Rightarrow> replay_record list \<Rightarrow> bool" where
  \<comment> \<open>every record left at a trade, but the last may have left where the data ended\<close>
  "ended env atrs ts rs \<longleftrightarrow> in_turn rs \<and> (\<forall>r \<in> set rs. left_by_trade env atrs ts r \<or> left_at_end env atrs ts r)"

lemma exits_end:
  assumes i: "exits_inv env ts s2" and
    f: "(case re_pending s2 of None \<Rightarrow> Inr (sweep_queue s2) | Some _ \<Rightarrow> fill_pending_edge env (sweep_queue s2)) = Inr s4"
    "close_at_end env ts s4 = Inr s5"
  shows "ended env (re_atr s2) ts (re_records s5)"
proof (cases "re_position s2")
  case None
  with i f show ?thesis by (auto simp: exits_inv_def close_at_end_def ended_def)
next
  case (Some p)
  note pos = this
  have old: "in_turn (re_records s2)" "\<forall>r \<in> set (re_records s2). left_by_trade env (re_atr s2) ts r"
    "\<forall>r \<in> set (re_records s2). rr_exit_fill_trade_index r \<le> rp_entry_fill_trade_index p"
    using i pos by (auto simp: exits_inv_def position_inv_def)
  show ?thesis
  proof (cases "re_pending s2")
    case None
    with i pos have h: "held env (re_atr s2) ts p (length ts)" "ts \<noteq> []" by (auto simp: exits_inv_def position_inv_def held_def)
    then have h': "held env (re_atr s2) ts p (length ts - 1)" by (auto simp: held_def Let_def)
    from None f pos h(2) have "re_records s5 = re_records s2 @ [replay_record_of (ev_scenario env) p
        \<lparr>px_reason = ''end_of_dataset'', px_trigger_ts = rt_ts (last ts), px_trigger_trade_index = Some (length ts - 1),
         px_trigger_price = rt_price (last ts), px_reference_price = rt_price (last ts)\<rparr>
        (rt_ts (last ts)) (length ts - 1) (rt_price (last ts))]"
      by (auto simp: close_at_end_def Let_def)
    with old h h' show ?thesis by (simp add: ended_def in_turn_snoc left_at_end_def Let_def last_conv_nth)
  next
    case (Some px)
    with i pos obtain us t where u: "ts = us @ [t]" "held env (re_atr s2) ts p (length us)"
      "exit_due env (re_atr s2) ts p (length us) px"
      by (auto simp: exits_inv_def position_inv_def)
    have k: "px_trigger_trade_index px = Some (length us)" "px_trigger_ts px = rt_ts t" "px_trigger_price px = rt_price t"
      using u(3) by (simp_all add: exit_due_def Let_def u(1))
    from Some pos f k have "re_records s5 = re_records s2 @ [replay_record_of (ev_scenario env) p px (rt_ts t) (length us) (rt_price t)]"
      by (auto simp: fill_pending_edge_def close_at_end_def)
    with old u k(1) show ?thesis by (simp add: ended_def in_turn_snoc left_at_end_def Let_def)
  qed
qed

section \<open>Providers\<close>

definition first_eligible :: "replay_trade list \<Rightarrow> nat \<Rightarrow> int \<Rightarrow> bool" where
  \<comment> \<open>the trade \<open>i\<close> is the first at or after the trigger\<close>
  "first_eligible ts i trigger \<longleftrightarrow> i < length ts \<and> trigger \<le> rt_ts (ts ! i) \<and> (\<forall>j < i. rt_ts (ts ! j) < trigger)"

definition fills_in_time :: "replay_trade list \<Rightarrow> replay_record \<Rightarrow> bool" where
  \<comment> \<open>the entry, and an exit that is a decision\<close>
  "fills_in_time ts r \<longleftrightarrow>
     first_eligible ts (entry_of_record r) (rp_entry_trigger_ts (rr_position r)) \<and>
     (px_trigger_trade_index (rr_exit r) = None \<longrightarrow> first_eligible ts (rr_exit_fill_trade_index r) (px_trigger_ts (rr_exit r)))"

definition timed_inv :: "'p replay_env \<Rightarrow> replay_trade list \<Rightarrow> 'p replay_state \<Rightarrow> bool" where
  "timed_inv env ts st \<longleftrightarrow>
     (\<forall>r \<in> set (re_records st). fills_in_time ts r) \<and>
     (\<forall>p. re_position st = Some p \<longrightarrow> first_eligible ts (rp_entry_fill_trade_index p) (rp_entry_trigger_ts p)) \<and>
     (\<forall>px. re_pending st = Some px \<longrightarrow> px_trigger_trade_index px \<noteq> None)"

definition waiting :: "'p replay_env \<Rightarrow> replay_trade list \<Rightarrow> 'p replay_state \<Rightarrow> bool" where
  \<comment> \<open>the candles not yet confirmed close after every trade so far\<close>
  "waiting env ts st \<longleftrightarrow> (\<forall>c \<in> set (drop (re_candle_i st) (ev_candles env)). \<forall>t \<in> set ts. rt_ts t < cr_close_time c)"

lemma first_eligible_append: "first_eligible ts i trigger \<Longrightarrow> first_eligible (ts @ us) i trigger"
  by (auto simp: first_eligible_def nth_append)

lemma fills_in_time_append: "fills_in_time ts r \<Longrightarrow> fills_in_time (ts @ us) r"
  by (auto simp: fills_in_time_def first_eligible_append)

lemma timed_append: "timed_inv env ts st \<Longrightarrow> timed_inv env (ts @ us) st"
  by (auto simp: timed_inv_def first_eligible_append fills_in_time_append)

lemma timed_confirm:
  assumes "timed_inv env ts st" "confirm_candle env st c = Inr st'"
  shows "timed_inv env ts st'"
  using confirm_cases[OF assms(2)] assms(1) by (auto simp: timed_inv_def)

lemma timed_finish:
  assumes "timed_inv env ts st" "re_position st = Some q" "rp_entry_fill_trade_index p = rp_entry_fill_trade_index q"
    "rp_entry_trigger_ts p = rp_entry_trigger_ts q"
    and "px_trigger_trade_index px = None \<longrightarrow> first_eligible ts i (px_trigger_ts px)"
  shows "timed_inv env ts (finish env st p px x i y)"
  using assms by (auto simp: timed_inv_def fills_in_time_def)

lemma timed_pending:
  assumes "timed_inv env ts st" "fill_pending_exit env i t st = Inr st'"
  shows "timed_inv env ts st'"
proof (cases "re_pending st")
  case None
  with assms show ?thesis by (simp add: fill_pending_exit_def)
next
  case (Some px)
  with assms(2) obtain p where p: "re_position st = Some p" "st' = finish env (st\<lparr>re_pending := None\<rparr>) p px (rt_ts t) i (rt_price t)"
    by (auto simp: fill_pending_exit_def split: option.splits)
  have "timed_inv env ts (st\<lparr>re_pending := None\<rparr>)" using assms(1) by (simp add: timed_inv_def)
  moreover have "px_trigger_trade_index px \<noteq> None" using assms(1) Some by (simp add: timed_inv_def)
  ultimately show ?thesis unfolding p(2) using p(1) by (intro timed_finish) auto
qed

lemma timed_same [simp]:
  "timed_inv env ts (drop_decision u) = timed_inv env ts u" "timed_inv env ts (note_filled u) = timed_inv env ts u"
  "timed_inv env ts (reject_decision m u) = timed_inv env ts u" "timed_inv env ts (roll_day x u) = timed_inv env ts u"
  "timed_inv env ts (u\<lparr>re_queue := q\<rparr>) = timed_inv env ts u"
  by (simp_all add: timed_inv_def)

lemma timed_opened:
  assumes "open_replay_position env i t d a v s1 = Inr s2" "timed_inv env ts s1" "first_eligible ts i (dn_signal_ts d)"
  shows "timed_inv env ts s2"
proof -
  obtain p where p: "s2 = s1\<lparr>re_position := Some p\<rparr>" "rp_entry_fill_trade_index p = i" "rp_entry_trigger_ts p = dn_signal_ts d"
    using open_position_cases[OF assms(1)] by blast
  with assms(2,3) show ?thesis by (simp add: timed_inv_def)
qed

lemma timed_sell:
  assumes "timed_inv env ts st" "first_eligible ts i (dn_signal_ts d)"
  shows "timed_inv env ts (take_sell env i t st d)"
proof (cases "re_position st")
  case None
  with assms(1) show ?thesis by (simp add: take_sell_def)
next
  case (Some p)
  have "timed_inv env ts (finish env st (update_path (rt_price t) p)
      \<lparr>px_reason = ''strategy_exit'', px_trigger_ts = dn_signal_ts d, px_trigger_trade_index = None,
       px_trigger_price = rt_price t, px_reference_price = dn_reference_price d\<rparr> (rt_ts t) i (rt_price t))"
    by (rule timed_finish[OF assms(1) Some]) (simp_all add: assms(2))
  with Some show ?thesis by (simp add: take_sell_def)
qed

lemma timed_decision:
  assumes "timed_inv env ts st" "take_decision env i t st d = Inr st'" "first_eligible ts i (dn_signal_ts d)"
  shows "timed_inv env ts st'"
proof (cases "dn_action d = ''buy''")
  case True
  with assms(2) have "take_buy env i t st d = Inr st'" by (simp add: take_decision_def)
  then show ?thesis
  proof (cases rule: take_buy_cases)
    case (3 a v s1 s2)
    then have "timed_inv env ts s1" using assms(1) by auto
    from timed_opened[OF 3(3) this assms(3)] 3(4) show ?thesis by simp
  qed (use assms(1) in simp_all)
next
  case False
  with assms(2) have "st' = take_sell env i t st d" by (simp add: take_decision_def split: if_splits)
  then show ?thesis using timed_sell[OF assms(1,3)] by simp
qed

lemma timed_risk: "timed_inv env ts st \<Longrightarrow> timed_inv env ts (risk_eval env i t st)"
  by (auto simp: risk_eval_def Let_def timed_inv_def risk_exit_def raise_trailing_def split: option.split if_splits)

lemma sorted_dropWhile:
  assumes "sorted (map f xs)" "x \<in> set (drop (length (takeWhile (\<lambda>y. f y \<le> (k::int)) xs)) xs)"
  shows "k < f x"
  using assms by (induction xs) (auto split: if_splits)

lemma waiting_advance:
  assumes "sorted (map cr_close_time (ev_candles env))" "waiting env ts st" "advance env (rt_ts t) st = Inr st'"
  shows "waiting env (ts @ [t]) st'"
proof -
  define rest where "rest = drop (re_candle_i st) (ev_candles env)"
  define n where "n = length (takeWhile (\<lambda>c. cr_close_time c \<le> rt_ts t) rest)"
  have d: "drop (re_candle_i st') (ev_candles env) = drop n rest"
    using advance_index[OF assms(3)] by (simp add: closed_by_def rest_def n_def add.commute)
  have "sorted (map cr_close_time rest)"
    using assms(1) by (simp add: rest_def sorted_wrt_drop flip: drop_map)
  then have later: "rt_ts t < cr_close_time c" if "c \<in> set (drop n rest)" for c
    using that sorted_dropWhile[of cr_close_time rest c "rt_ts t"] by (simp add: n_def)
  have old: "\<forall>x \<in> set ts. rt_ts x < cr_close_time c" if "c \<in> set (drop n rest)" for c
  proof -
    have "c \<in> set rest" using that by (rule in_set_dropD)
    then show ?thesis using assms(2) by (simp add: waiting_def rest_def)
  qed
  show ?thesis unfolding waiting_def d using later old by simp
qed

text \<open>What the engine relies on: a decision carries the instant it was asked for, and is one of two.\<close>

locale decision_provider =
  fixes decide :: "'p \<Rightarrow> decide_args \<Rightarrow> ('p \<times> replay_decision option) result"
  assumes decided: "decide p a = Inr (p', Some d) \<Longrightarrow>
      dn_signal_ts d = da_decision_ts a \<and> (dn_action d = ''buy'' \<or> dn_action d = ''sell'')"
begin

lemma advance_queue:
  assumes "ev_decide env = decide" "advance env cutoff st = Inr st'" "d \<in> set (re_queue st')" "re_queue st = []"
  shows "\<exists>c \<in> set (closed_by cutoff (drop (re_candle_i st) (ev_candles env))). dn_signal_ts d = cr_close_time c"
proof -
  let ?cs = "closed_by cutoff (drop (re_candle_i st) (ev_candles env))"
  have "\<forall>d \<in> set (re_queue st'). \<exists>c \<in> set ?cs. dn_signal_ts d = cr_close_time c"
  proof (rule foldE_invariant[OF assms(2)[unfolded advance_def]])
    fix s c s' assume c: "c \<in> set ?cs" and i: "\<forall>d \<in> set (re_queue s). \<exists>c \<in> set ?cs. dn_signal_ts d = cr_close_time c"
      and s: "confirm_candle env s c = Inr s'"
    from s obtain a p x where a: "decide (re_provider s) a = Inr (p, x)" "da_decision_ts a = cr_close_time c"
      "re_queue s' = re_queue s @ (case x of None \<Rightarrow> [] | Some y \<Rightarrow> [y])"
      using assms(1) by (fastforce simp: confirm_candle_def Let_def bindE_eq_Inr)
    with decided[of "re_provider s" a p] c i show "\<forall>d \<in> set (re_queue s'). \<exists>c \<in> set ?cs. dn_signal_ts d = cr_close_time c"
      by (cases x) auto
  qed (use assms(4) in simp)
  with assms(3) show ?thesis by blast
qed

lemma timed_trade:
  assumes e: "ev_decide env = decide" "sorted (map cr_close_time (ev_candles env))"
    and st: "timed_inv env ts st" "waiting env ts st" "re_queue st = []" and step: "trade_step env st (length ts, t) = Inr st'"
  shows "timed_inv env (ts @ [t]) st' \<and> waiting env (ts @ [t]) st' \<and> re_queue st' = []"
proof -
  from step obtain s1 s2 s3 where s: "advance env (rt_ts t) st = Inr s1" "fill_pending_exit env (length ts) t s1 = Inr s2"
    "drain_decisions env (length ts) t s2 = Inr s3" "st' = risk_eval env (length ts) t s3" by (rule trade_step_cases)
  have w: "waiting env (ts @ [t]) s1" using waiting_advance[OF e(2) st(2) s(1)] .
  have due: "first_eligible (ts @ [t]) (length ts) (dn_signal_ts d)" if d: "d \<in> set (re_queue s1)" for d
  proof -
    obtain c where c: "c \<in> set (closed_by (rt_ts t) (drop (re_candle_i st) (ev_candles env)))" "dn_signal_ts d = cr_close_time c"
      using advance_queue[OF e(1) s(1) d st(3)] by blast
    then have "c \<in> set (drop (re_candle_i st) (ev_candles env))" "cr_close_time c \<le> rt_ts t"
      unfolding closed_by_def by (auto dest: set_takeWhileD)
    with st(2) c(2) show ?thesis by (simp add: first_eligible_def waiting_def nth_append)
  qed
  have "timed_inv env (ts @ [t]) s1"
    using advance_invariant[where P = "timed_inv env (ts @ [t])", OF s(1) timed_append[OF st(1)]] timed_confirm by blast
  then have t2: "timed_inv env (ts @ [t]) s2" using s(2) by (rule timed_pending)
  have q: "re_queue s2 = re_queue s1" "re_candle_i s2 = re_candle_i s1"
    using s(2) by (auto simp: fill_pending_exit_def split: option.splits)
  define J where "J u \<longleftrightarrow> timed_inv env (ts @ [t]) u \<and> re_queue u = [] \<and> re_candle_i u = re_candle_i s1" for u
  have "J (s2\<lparr>re_queue := []\<rparr>)" using t2 q by (simp add: J_def)
  then have "J s3"
  proof (rule drain_invariant[OF s(3)])
    fix u d u' assume d: "d \<in> set (re_queue s1)" "J u" "take_decision env (length ts) t u d = Inr u'"
    then show "J u'" using timed_decision[OF _ d(3) due[OF d(1)]] decision_keeps[OF d(3)] by (auto simp: J_def)
  qed (rule q(1))
  then show ?thesis using s(4) w timed_risk by (auto simp: J_def waiting_def risk_keeps)
qed

lemma timed_after:
  assumes "ev_decide env = decide" "sorted (map cr_close_time (ev_candles env))" "replay_after env ts = Inr st"
  shows "timed_inv env ts st \<and> waiting env ts st \<and> re_queue st = []"
  using assms(3)
proof (induction rule: replay_after_induct)
  case (start st)
  then show ?case by (auto simp: replay_start_def replay_init_def timed_inv_def waiting_def bindE_eq_Inr)
next
  case (trade ts t st st')
  then show ?case using timed_trade[OF assms(1,2)] by blast
qed

lemma timed_records:
  assumes "ev_decide env = decide" "sorted (map cr_close_time (ev_candles env))" "replay_engine env (ts, ending) = Inr res"
  shows "\<forall>r \<in> set (rx_records res). fills_in_time ts r"
proof -
  obtain s1 s2 s4 s5 where s: "replay_after env ts = Inr s1" "advance env SWEEP_CUTOFF s1 = Inr s2"
    "(case re_pending s2 of None \<Rightarrow> Inr (sweep_queue s2) | Some _ \<Rightarrow> fill_pending_edge env (sweep_queue s2)) = Inr s4"
    "close_at_end env ts s4 = Inr s5"
    "res = \<lparr>rx_records = re_records s5, rx_stats = re_stats s5, rx_rejected_reasons = re_rejected_reasons s5\<rparr>"
    using assms(3) by (rule replay_engine_cases)
  have "timed_inv env ts s2"
    using advance_invariant[where P = "timed_inv env ts", OF s(2)] timed_after[OF assms(1,2) s(1)] timed_confirm by blast
  then have t: "timed_inv env ts (sweep_queue s2)" by (simp add: timed_inv_def)
  have "timed_inv env ts s4"
  proof (cases "re_pending s2")
    case None
    with s(3) t show ?thesis by auto
  next
    case (Some px)
    with s(3) obtain p i where p: "re_position s2 = Some p" "px_trigger_trade_index px = Some i"
      "s4 = finish env ((sweep_queue s2)\<lparr>re_pending := None\<rparr>) p px (px_trigger_ts px) i (px_trigger_price px)"
      by (auto elim!: edge_cases)
    have "timed_inv env ts ((sweep_queue s2)\<lparr>re_pending := None\<rparr>)" using t by (simp add: timed_inv_def)
    then show ?thesis unfolding p(3) by (rule timed_finish[where q = p]) (use p in simp_all)
  qed
  then have "timed_inv env ts s5"
    using s(4) by (auto simp: close_at_end_def Let_def timed_finish split: option.splits if_splits)
  then show ?thesis by (simp add: s(5) timed_inv_def)
qed

end

interpretation scripted: decision_provider scripted_decide
  by unfold_locales (auto simp: scripted_decide_def Let_def split: if_splits option.splits)

interpretation strategy: decision_provider "strategy_decide upd" for upd
proof unfold_locales
  fix sp :: "'a strategy_provider" and a sp' d
  assume "strategy_decide upd sp a = Inr (sp', Some d)"
  then show "dn_signal_ts d = da_decision_ts a \<and> (dn_action d = ''buy'' \<or> dn_action d = ''sell'')"
    by (auto simp: strategy_decide_def Let_def bindE_eq_Inr split: if_splits prod.splits action.splits)
qed

lemma approved_buy_has_levels:
  assumes "rk_stop_loss_required cfg" "tp_action p = BUY" "rv_approved (evaluate cfg p s)"
  shows "\<exists>z stop target. rv_size (evaluate cfg p s) = Some z \<and> rv_stop_loss (evaluate cfg p s) = Some stop \<and>
    rv_take_profit (evaluate cfg p s) = Some target"
  using assms by (auto simp: evaluate_def reject_def size_buy_def Let_def split: if_splits option.splits)

text \<open>A provider that answers every call the engine makes, in the order it makes them.\<close>

locale answering_provider = decision_provider decide
  for decide :: "'p \<Rightarrow> decide_args \<Rightarrow> ('p \<times> replay_decision option) result" +
  fixes rows :: "candle_row list" and ready :: "nat \<Rightarrow> 'p \<Rightarrow> bool"
  assumes answers: "ready (da_candle_index a) p \<Longrightarrow> da_candle_index a < length rows \<Longrightarrow>
      da_decision_ts a = cr_close_time (rows ! da_candle_index a) \<Longrightarrow>
      \<exists>p' d. decide p a = Inr (p', d) \<and> ready (Suc (da_candle_index a)) p'"
begin

definition good :: "'p replay_state \<Rightarrow> bool" where
  "good st \<longleftrightarrow> ready (re_candle_i st) (re_provider st) \<and> (\<forall>d \<in> set (re_queue st). dn_action d = ''buy'' \<or> dn_action d = ''sell'')"

definition runs_here :: "'p replay_env \<Rightarrow> bool" where
  "runs_here env \<longleftrightarrow> ev_decide env = decide \<and> ev_candles env = rows \<and>
     (dynamic env \<longrightarrow> rk_stop_loss_required (sn_risk (ev_scenario env)))"

lemma confirm_total:
  assumes "runs_here env" "good st" "re_candle_i st < length rows"
  shows "\<exists>st'. confirm_candle env st (rows ! re_candle_i st) = Inr st' \<and> good st'"
proof -
  let ?c = "rows ! re_candle_i st"
  let ?a = "\<lparr>da_candle_index = re_candle_i st, da_decision_ts = cr_close_time ?c, da_reference_price = cr_close ?c,
      da_atr_value = re_atr st ! re_candle_i st,
      da_context = \<lparr>cx_decision_ts = cr_close_time ?c, cx_h1 = context_at (ev_ctx_1h env) (cr_close_time ?c),
        cx_h4 = context_at (ev_ctx_4h env) (cr_close_time ?c)\<rparr>\<rparr>"
  obtain p' d where d: "decide (re_provider st) ?a = Inr (p', d)" "ready (Suc (re_candle_i st)) p'"
    using answers[of ?a "re_provider st"] assms(2,3) by (auto simp: good_def)
  have "dn_action x = ''buy'' \<or> dn_action x = ''sell''" if "d = Some x" for x
    using decided[of "re_provider st" ?a p' x] d(1) that by simp
  then show ?thesis
    using assms(1,2) d by (auto simp: confirm_candle_def Let_def runs_here_def good_def split: option.splits)
qed

lemma advance_total:
  assumes "runs_here env" "good st"
  shows "\<exists>st'. advance env cutoff st = Inr st' \<and> good st'"
proof -
  have "\<exists>s'. foldE (confirm_candle env) s xs = Inr s' \<and> good s'"
    if "good s" "\<exists>zs. drop (re_candle_i s) rows = xs @ zs" for s xs
    using that
  proof (induction xs arbitrary: s)
    case (Cons c xs)
    then obtain zs where z: "drop (re_candle_i s) rows = c # xs @ zs" by auto
    then have i: "re_candle_i s < length rows" "rows ! re_candle_i s = c" "drop (Suc (re_candle_i s)) rows = xs @ zs"
      by (auto simp: drop_eq_Nil not_le[symmetric] drop_Suc nth_via_drop tl_drop[symmetric])
    obtain s1 where s1: "confirm_candle env s c = Inr s1" "good s1" using confirm_total[OF assms(1) Cons.prems(1) i(1)] i(2) by blast
    have "re_candle_i s1 = Suc (re_candle_i s)" using confirm_cases[OF s1(1)] by simp
    with Cons.IH[OF s1(2)] i(3) s1(1) show ?case by auto
  qed simp
  moreover have "\<exists>zs. drop (re_candle_i st) rows = closed_by cutoff (drop (re_candle_i st) rows) @ zs"
    unfolding closed_by_def by (metis takeWhile_dropWhile_id)
  ultimately show ?thesis using assms by (simp add: advance_def runs_here_def)
qed

lemma opened_total:
  assumes "runs_here env"
  shows "\<exists>st'. take_buy env i t st d = Inr st'"
proof -
  have "\<exists>z. entry_levels (ev_scenario env) x a (Some (replay_verdict env s d)) = Inr z"
    if "dynamic env" "rv_approved (replay_verdict env s d)" for x a s
    using approved_buy_has_levels[OF _ _ that(2)[unfolded replay_verdict_def]] assms that(1)
    by (auto simp: runs_here_def entry_levels_def replay_verdict_def)
  moreover have "\<exists>z. entry_levels (ev_scenario env) x a None = Inr z" for x a by (simp add: entry_levels_def Let_def)
  ultimately have opens: "\<exists>s'. open_replay_position env i t d a (if dynamic env then Some (replay_verdict env s d) else None) s = Inr s'"
    if "dynamic env \<longrightarrow> rv_approved (replay_verdict env s d)" for a s
    using that by (auto simp: open_replay_position_def Let_def bindE_eq_Inr split_def)
  show ?thesis
  proof (cases "re_position st = None \<and> dn_atr d \<noteq> None")
    case True
    then obtain a where "re_position st = None" "dn_atr d = Some a" by auto
    then show ?thesis
      using opens[of "roll_day (rt_ts t) st" a] opens[of st a] by (auto simp: take_buy_def Let_def)
  qed (auto simp: take_buy_def split: option.split)
qed

lemma drain_total:
  assumes "runs_here env" "good st"
  shows "\<exists>st'. drain_decisions env i t st = Inr st'"
proof -
  have "\<exists>s'. foldE (take_decision env i t) s q = Inr s'" if "\<forall>d \<in> set q. dn_action d = ''buy'' \<or> dn_action d = ''sell''" for s q
    using that
  proof (induction q arbitrary: s)
    case (Cons d q)
    obtain s1 where "take_decision env i t s d = Inr s1"
      using Cons.prems opened_total[OF assms(1), of i t s d] by (auto simp: take_decision_def)
    with Cons show ?case by simp
  qed simp
  with assms(2) show ?thesis by (simp add: drain_decisions_def good_def)
qed

lemma step_total:
  assumes "runs_here env" "good st" "exits_inv env ts st"
  shows "\<exists>st'. trade_step env st (length ts, t) = Inr st' \<and> good st'"
proof -
  obtain s1 where s1: "advance env (rt_ts t) st = Inr s1" "good s1" using advance_total[OF assms(1,2)] by blast
  have i: "exits_inv env ts s1" using advance_invariant[where P = "exits_inv env ts", OF s1(1) assms(3)] exits_confirm by blast
  obtain s2 where s2: "fill_pending_exit env (length ts) t s1 = Inr s2"
    using i by (cases "re_pending s1"; cases "re_position s1") (auto simp: fill_pending_exit_def exits_inv_def)
  then have k: "re_provider s2 = re_provider s1" "re_queue s2 = re_queue s1" "re_candle_i s2 = re_candle_i s1"
    by (auto simp: fill_pending_exit_def split: option.splits)
  with s1(2) have "good s2" by (simp add: good_def)
  then obtain s3 where s3: "drain_decisions env (length ts) t s2 = Inr s3" using drain_total[OF assms(1)] by blast
  define J where "J u \<longleftrightarrow> re_provider u = re_provider s2 \<and> re_candle_i u = re_candle_i s2 \<and> re_queue u = []" for u :: "'p replay_state"
  have "J s3"
  proof (rule drain_invariant[where P = J, OF s3 _ _ refl])
    show "J (s2\<lparr>re_queue := []\<rparr>)" by (simp add: J_def)
  qed (auto simp: J_def dest: decision_keeps)
  then have "good (risk_eval env (length ts) t s3)" using s1(2) k by (simp add: J_def good_def)
  then show ?thesis using s1(1) s2 s3 by (simp add: trade_step_def)
qed

lemma replay_total:
  assumes "runs_here env" "replay_start env = Inr st0" "ready 0 (ev_provider env)"
  shows "\<exists>res. replay_engine env (ts, Inr ()) = Inr res"
proof -
  have after: "\<exists>st. replay_after env ts = Inr st \<and> good st" for ts
  proof (induction ts rule: rev_induct)
    case Nil
    have "good st0" using assms(2,3) by (auto simp: replay_start_def replay_init_def good_def bindE_eq_Inr)
    with assms(2) show ?case by (simp add: replay_after_def)
  next
    case (snoc t ts)
    then obtain st where "replay_after env ts = Inr st" "good st" by blast
    with step_total[OF assms(1), of st ts t] exits_after[of env ts st] show ?case by (auto simp: replay_after_snoc)
  qed
  then obtain s1 where s1: "replay_after env ts = Inr s1" "good s1" by blast
  obtain s2 where s2: "advance env SWEEP_CUTOFF s1 = Inr s2" using advance_total[OF assms(1) s1(2)] by blast
  have i: "exits_inv env ts s2" using exits_advance[OF s2] exits_after[OF s1(1)] by blast
  have "\<exists>s5. bindE (case re_pending (sweep_queue s2) of None \<Rightarrow> Inr (sweep_queue s2) | Some _ \<Rightarrow> fill_pending_edge env (sweep_queue s2))
      (\<lambda>s4. close_at_end env ts s4) = Inr s5"
  proof (cases "re_position s2")
    case None
    with i show ?thesis by (simp add: exits_inv_def close_at_end_def)
  next
    case (Some p)
    show ?thesis
    proof (cases "re_pending s2")
      case None
      with i Some have "held env (re_atr s2) ts p (length ts)" by (simp add: exits_inv_def position_inv_def)
      then have "ts \<noteq> []" by (auto simp: held_def)
      with None Some show ?thesis by (simp add: close_at_end_def Let_def)
    next
      case (Some px)
      with i \<open>re_position s2 = Some p\<close> obtain k where "px_trigger_trade_index px = Some k"
        by (auto simp: exits_inv_def position_inv_def exit_due_def Let_def)
      with Some \<open>re_position s2 = Some p\<close> show ?thesis by (simp add: fill_pending_edge_def close_at_end_def)
    qed
  qed
  then show ?thesis using s1(1) s2 by (auto simp: replay_engine_def Let_def bindE_eq_Inr)
qed

end

interpretation scripted_run: answering_provider scripted_decide rows "\<lambda>_ _. True" for rows
  by unfold_locales (auto simp: scripted_decide_def Let_def split: option.splits)

section \<open>No look ahead\<close>

definition confirmed_by :: "int \<Rightarrow> 'p replay_env \<Rightarrow> 'p replay_env" where
  \<comment> \<open>the same run, with only the candles closed by an instant\<close>
  "confirmed_by T env =
     env\<lparr>ev_candles := closed_by T (ev_candles env), ev_ctx_1h := closed_by T (ev_ctx_1h env), ev_ctx_4h := closed_by T (ev_ctx_4h env)\<rparr>"

lemma bisect_right_split:
  assumes "sorted keys" "lo \<le> hi" "hi \<le> length keys" "\<forall>j < lo. keys ! j \<le> x" "\<forall>j. hi \<le> j \<and> j < length keys \<longrightarrow> x < keys ! j"
  shows "bisect_right keys x lo hi \<le> length keys \<and> (\<forall>j < bisect_right keys x lo hi. keys ! j \<le> x) \<and>
    (\<forall>j. bisect_right keys x lo hi \<le> j \<and> j < length keys \<longrightarrow> x < keys ! j)"
  using assms
proof (induction keys x lo hi rule: bisect_right.induct)
  case (1 keys x lo hi)
  show ?case
  proof (cases "lo < hi")
    case False
    then have "bisect_right keys x lo hi = lo" by (subst bisect_right.simps) simp
    moreover have "lo = hi" using False 1(4) by simp
    ultimately show ?thesis using 1(5-7) by simp
  next
    case True
    let ?m = "(lo + hi) div 2"
    have m: "lo \<le> ?m" "?m < hi" "?m < length keys" using True 1(5) by auto
    show ?thesis
    proof (cases "x < keys ! ?m")
      case less: True
      have "\<forall>j. ?m \<le> j \<and> j < length keys \<longrightarrow> x < keys ! j"
      proof (intro allI impI)
        fix j assume "?m \<le> j \<and> j < length keys"
        then have "keys ! ?m \<le> keys ! j" using sorted_nth_mono[OF 1(3)] by simp
        with less show "x < keys ! j" by simp
      qed
      moreover have "bisect_right keys x lo hi = bisect_right keys x lo ?m"
        by (subst bisect_right.simps) (simp only: True less if_True Let_def)
      moreover note 1(1)[OF True refl less 1(3) m(1) less_imp_le[OF m(3)] 1(6)]
      ultimately show ?thesis by simp
    next
      case False
      have "\<forall>j < ?m + 1. keys ! j \<le> x"
      proof (intro allI impI)
        fix j assume "j < ?m + 1"
        then have "keys ! j \<le> keys ! ?m" using sorted_nth_mono[OF 1(3)] m(3) by simp
        with False show "keys ! j \<le> x" by simp
      qed
      moreover have "bisect_right keys x lo hi = bisect_right keys x (?m + 1) hi"
        by (subst bisect_right.simps) (simp only: True False if_True if_False Let_def)
      moreover have "?m + 1 \<le> hi" using m(2) by simp
      moreover note 1(2)[OF True refl False 1(3) _ 1(5) _ 1(7)]
      ultimately show ?thesis by simp
    qed
  qed
qed

lemma bisect_right_takeWhile:
  assumes "sorted keys"
  shows "bisect_right keys x 0 (length keys) = length (takeWhile (\<lambda>k. k \<le> x) keys)"
proof -
  let ?r = "bisect_right keys x 0 (length keys)"
  have r: "?r \<le> length keys" "\<forall>j < ?r. keys ! j \<le> x" "\<forall>j. ?r \<le> j \<and> j < length keys \<longrightarrow> x < keys ! j"
    using bisect_right_split[OF assms, of 0 "length keys" x] by auto
  have "takeWhile (\<lambda>k. k \<le> x) keys = take ?r keys"
    using r by (intro takeWhile_eq_take_P_nth) auto
  with r(1) show ?thesis by simp
qed

lemma context_at_last:
  assumes "sorted (map cr_close_time rows)"
  shows "context_at rows x = (if closed_by x rows = [] then None else Some (last (closed_by x rows)))"
proof -
  have l: "bisect_right (map cr_close_time rows) x 0 (length rows) = length (closed_by x rows)"
    using bisect_right_takeWhile[OF assms, of x] by (simp add: closed_by_def takeWhile_map comp_def)
  have "rows ! (length (closed_by x rows) - 1) = last (closed_by x rows)" if "closed_by x rows \<noteq> []"
  proof -
    from that have "length (closed_by x rows) - 1 < length (closed_by x rows)" by simp
    then have "closed_by x rows ! (length (closed_by x rows) - 1) = rows ! (length (closed_by x rows) - 1)"
      unfolding closed_by_def by (rule takeWhile_nth)
    with that show ?thesis by (simp add: last_conv_nth)
  qed
  then show ?thesis by (simp add: context_at_def Let_def l)
qed

lemma closed_by_closed_by: "x \<le> T \<Longrightarrow> closed_by x (closed_by T rows) = closed_by x rows"
  unfolding closed_by_def by (induction rows) auto

lemma sorted_closed_by: "sorted (map cr_close_time rows) \<Longrightarrow> sorted (map cr_close_time (closed_by T rows))"
  unfolding closed_by_def by (induction rows) (auto dest: set_takeWhileD)

lemma context_at_closed_by:
  "sorted (map cr_close_time rows) \<Longrightarrow> x \<le> T \<Longrightarrow> context_at (closed_by T rows) x = context_at rows x"
  by (simp add: context_at_last sorted_closed_by closed_by_closed_by)

lemma closed_by_drop:
  assumes "sorted (map cr_close_time rows)" "x \<le> T"
  shows "closed_by x (drop i (closed_by T rows)) = closed_by x (drop i rows)"
  using assms
proof (induction rows arbitrary: i)
  case (Cons r rows)
  show ?case
  proof (cases i)
    case 0
    then show ?thesis using closed_by_closed_by[OF assms(2)] by simp
  next
    case (Suc k)
    show ?thesis
    proof (cases "cr_close_time r \<le> T")
      case True
      with Suc Cons show ?thesis by (simp add: closed_by_def)
    next
      case False
      have "closed_by x (drop k rows) = []"
      proof (cases "drop k rows")
        case (Cons y ys)
        then have "y \<in> set rows" by (metis in_set_dropD list.set_intros(1))
        then have "T < cr_close_time y" using Cons.prems False by auto
        with Cons assms(2) show ?thesis by (simp add: closed_by_def)
      qed (simp add: closed_by_def)
      with False Suc show ?thesis by (simp add: closed_by_def)
    qed
  qed
qed (simp add: closed_by_def)

text \<open>The phases after the candles read neither the candles nor their ATR.\<close>

definition with_atr :: "pyfloat option list \<Rightarrow> 'p replay_state \<Rightarrow> 'p replay_state" where
  "with_atr a st = st\<lparr>re_atr := a\<rparr>"

lemma confirmed_by_fields [simp]:
  "ev_scenario (confirmed_by T env) = ev_scenario env" "ev_decide (confirmed_by T env) = ev_decide env"
  "ev_provider (confirmed_by T env) = ev_provider env" "dynamic (confirmed_by T env) = dynamic env"
  "ev_candles (confirmed_by T env) = closed_by T (ev_candles env)"
  "ev_ctx_1h (confirmed_by T env) = closed_by T (ev_ctx_1h env)" "ev_ctx_4h (confirmed_by T env) = closed_by T (ev_ctx_4h env)"
  by (simp_all add: confirmed_by_def dynamic_def)

lemma with_atr_fields [simp]:
  "re_atr (with_atr a st) = a" "re_provider (with_atr a st) = re_provider st" "re_queue (with_atr a st) = re_queue st"
  "re_candle_i (with_atr a st) = re_candle_i st" "re_position (with_atr a st) = re_position st"
  "re_pending (with_atr a st) = re_pending st"
  by (simp_all add: with_atr_def)

lemma bindE_map_sum: "bindE (map_sum (\<lambda>e. e) f m) g = bindE m (\<lambda>x. g (f x))"
  by (cases m) simp_all

lemma map_sum_bindE: "map_sum (\<lambda>e. e) f (bindE m g) = bindE m (\<lambda>x. map_sum (\<lambda>e. e) f (g x))"
  by (cases m) simp_all

lemma roll_day_with_atr: "roll_day x (with_atr a st) = with_atr a (roll_day x st)"
  by (cases st) (simp add: roll_day_def with_atr_def Let_def split: option.split)

lemma finish_with_atr: "finish (confirmed_by T env) (with_atr a st) p px x i y = with_atr a (finish env st p px x i y)"
  by (cases st) (simp add: finish_def book_result_def roll_day_def with_atr_def Let_def split: option.split)

lemma pending_with_atr:
  "fill_pending_exit (confirmed_by T env) i t (with_atr a st) = map_sum (\<lambda>e. e) (with_atr a) (fill_pending_exit env i t st)"
proof -
  have "(with_atr a st)\<lparr>re_pending := None\<rparr> = with_atr a (st\<lparr>re_pending := None\<rparr>)" by (simp add: with_atr_def)
  then show ?thesis by (simp add: fill_pending_exit_def finish_with_atr split: option.split)
qed

lemma counters_with_atr:
  "drop_decision (with_atr a st) = with_atr a (drop_decision st)" "note_filled (with_atr a st) = with_atr a (note_filled st)"
  "reject_decision m (with_atr a st) = with_atr a (reject_decision m st)"
  by (simp_all add: drop_decision_def note_filled_def reject_decision_def with_atr_def)

lemma opened_with_atr:
  "open_replay_position (confirmed_by T env) i t d x v (with_atr a st) =
   map_sum (\<lambda>e. e) (with_atr a) (open_replay_position env i t d x v st)"
proof -
  have swap: "st\<lparr>re_atr := a, re_position := p\<rparr> = st\<lparr>re_position := p, re_atr := a\<rparr>" for p by (cases st) simp
  show ?thesis by (simp add: open_replay_position_def Let_def map_sum_bindE with_atr_def split_def swap)
qed

lemma verdict_with_atr: "replay_verdict (confirmed_by T env) (with_atr a st) d = replay_verdict env st d"
  by (simp add: replay_verdict_def with_atr_def)

lemma decision_with_atr:
  "take_decision (confirmed_by T env) i t (with_atr a st) d = map_sum (\<lambda>e. e) (with_atr a) (take_decision env i t st d)"
  by (simp add: take_decision_def take_buy_def take_sell_def Let_def roll_day_with_atr verdict_with_atr opened_with_atr
      counters_with_atr finish_with_atr bindE_map_sum map_sum_bindE split: option.split)

lemma drain_with_atr:
  "drain_decisions (confirmed_by T env) i t (with_atr a st) = map_sum (\<lambda>e. e) (with_atr a) (drain_decisions env i t st)"
proof -
  have "foldE (take_decision (confirmed_by T env) i t) (with_atr a s) q = map_sum (\<lambda>e. e) (with_atr a) (foldE (take_decision env i t) s q)" for s q
    by (induction q arbitrary: s) (simp_all add: decision_with_atr bindE_map_sum map_sum_bindE)
  moreover have "(with_atr a st)\<lparr>re_queue := []\<rparr> = with_atr a (st\<lparr>re_queue := []\<rparr>)" by (simp add: with_atr_def)
  ultimately show ?thesis by (simp add: drain_decisions_def)
qed

lemma risk_with_atr: "risk_eval (confirmed_by T env) i t (with_atr a st) = with_atr a (risk_eval env i t st)"
  by (simp add: risk_eval_def Let_def raise_trailing_def with_atr_def split: option.split)

lemma confirm_with_atr:
  assumes "sorted (map cr_close_time (ev_ctx_1h env))" "sorted (map cr_close_time (ev_ctx_4h env))" "cr_close_time c \<le> T"
    and "re_candle_i st < n"
  shows "confirm_candle (confirmed_by T env) (with_atr (take n (re_atr st)) st) c =
    map_sum (\<lambda>e. e) (with_atr (take n (re_atr st))) (confirm_candle env st c)"
proof -
  have "(confirm_atr (confirmed_by T env) v (enqueue d ((with_atr a st)\<lparr>re_provider := p\<rparr>)))\<lparr>re_candle_i := k\<rparr> =
    with_atr a ((confirm_atr env v (enqueue d (st\<lparr>re_provider := p\<rparr>)))\<lparr>re_candle_i := k\<rparr>)" for v d p k a
    by (simp add: confirm_atr_def enqueue_def with_atr_def split: option.split)
  then show ?thesis
    using assms(4) by (simp add: confirm_candle_def Let_def map_sum_bindE context_at_closed_by assms(1-3) split_def)
qed

lemma confirm_keeps_atr: "confirm_candle env st c = Inr st' \<Longrightarrow> re_atr st' = re_atr st"
  by (auto simp: confirm_candle_def Let_def bindE_eq_Inr)

lemma step_keeps_atr:
  assumes "trade_step env st (i, t) = Inr st'"
  shows "re_atr st' = re_atr st"
proof -
  from assms obtain s1 s2 s3 where s: "advance env (rt_ts t) st = Inr s1" "fill_pending_exit env i t s1 = Inr s2"
    "drain_decisions env i t s2 = Inr s3" "st' = risk_eval env i t s3" by (rule trade_step_cases)
  have "re_atr s1 = re_atr st"
    by (rule advance_invariant[where P = "\<lambda>u. re_atr u = re_atr st", OF s(1)]) (auto dest: confirm_keeps_atr)
  moreover have "re_atr s2 = re_atr s1" using s(2) by (auto simp: fill_pending_exit_def split: option.splits)
  moreover have "re_atr s3 = re_atr s2"
    by (rule drain_invariant[where P = "\<lambda>u. re_atr u = re_atr s2", OF s(3)]) (auto dest: decision_keeps)
  moreover have "re_atr st' = re_atr s3" using s(4) by simp
  ultimately show ?thesis by simp
qed

definition in_order :: "'p replay_env \<Rightarrow> bool" where
  \<comment> \<open>what the loaders guarantee of the candles: each list is in the order of its closes\<close>
  "in_order env \<longleftrightarrow> sorted (map cr_close_time (ev_candles env)) \<and> sorted (map cr_close_time (ev_ctx_1h env)) \<and>
     sorted (map cr_close_time (ev_ctx_4h env))"

lemma advance_with_atr:
  assumes "in_order env" "cutoff \<le> T" "n = length (closed_by T (ev_candles env))"
  shows "advance (confirmed_by T env) cutoff (with_atr (take n (re_atr st)) st) =
    map_sum (\<lambda>e. e) (with_atr (take n (re_atr st))) (advance env cutoff st)"
proof -
  let ?cs = "closed_by cutoff (drop (re_candle_i st) (ev_candles env))"
  have cs: "closed_by cutoff (drop (re_candle_i st) (closed_by T (ev_candles env))) = ?cs"
    using assms(1,2) by (simp add: closed_by_drop in_order_def)
  have "length ?cs \<le> length (drop (re_candle_i st) (closed_by T (ev_candles env)))"
    unfolding cs[symmetric] unfolding closed_by_def by (rule length_takeWhile_le)
  then have "?cs = [] \<or> re_candle_i st + length ?cs \<le> length (closed_by T (ev_candles env))"
    by (cases ?cs) auto
  then have len: "?cs = [] \<or> re_candle_i st + length ?cs \<le> n" unfolding assms(3) .
  have fold: "foldE (confirm_candle (confirmed_by T env)) (with_atr (take n (re_atr s)) s) xs =
      map_sum (\<lambda>e. e) (with_atr (take n (re_atr s))) (foldE (confirm_candle env) s xs)"
    if "\<forall>c \<in> set xs. cr_close_time c \<le> T" "xs = [] \<or> re_candle_i s + length xs \<le> n" for xs s
    using that
  proof (induction xs arbitrary: s)
    case (Cons c xs)
    have one: "confirm_candle (confirmed_by T env) (with_atr (take n (re_atr s)) s) c =
        map_sum (\<lambda>e. e) (with_atr (take n (re_atr s))) (confirm_candle env s c)"
      using assms(1) Cons.prems by (intro confirm_with_atr) (auto simp: in_order_def)
    show ?case
    proof (cases "confirm_candle env s c")
      case (Inr s')
      have "re_atr s' = re_atr s" using Inr by (rule confirm_keeps_atr)
      moreover have "re_candle_i s' = re_candle_i s + 1" using confirm_cases[OF Inr] by simp
      ultimately show ?thesis using Cons.IH[of s'] Cons.prems one Inr by (simp add: bindE_map_sum)
    qed (simp add: one)
  qed simp
  have "\<forall>c \<in> set ?cs. cr_close_time c \<le> T" using assms(2) unfolding closed_by_def by (auto dest: set_takeWhileD)
  from fold[OF this len] show ?thesis by (simp add: advance_def cs)
qed

lemma step_with_atr:
  assumes "in_order env" "rt_ts t \<le> T" "n = length (closed_by T (ev_candles env))"
  shows "trade_step (confirmed_by T env) (with_atr (take n (re_atr st)) st) (i, t) =
    map_sum (\<lambda>e. e) (with_atr (take n (re_atr st))) (trade_step env st (i, t))"
  by (simp add: trade_step_def advance_with_atr[OF assms] bindE_map_sum map_sum_bindE pending_with_atr drain_with_atr risk_with_atr)

lemma start_confirmed:
  assumes "replay_start env = Inr st" "n = length (closed_by T (ev_candles env))"
  shows "replay_start (confirmed_by T env) = Inr (with_atr (take n (re_atr st)) st)"
proof -
  obtain cs vals where c: "mapE domain_candle (ev_candles env) = Inr cs" "atr cs (sn_atr_period (ev_scenario env)) = Inr vals"
    "st = (replay_init env)\<lparr>re_atr := vals\<rparr>"
    using assms(1) by (auto simp: replay_start_def bindE_eq_Inr)
  have split: "ev_candles env = closed_by T (ev_candles env) @ dropWhile (\<lambda>c. cr_close_time c \<le> T) (ev_candles env)"
    unfolding closed_by_def by simp
  obtain as bs where ab: "mapE domain_candle (closed_by T (ev_candles env)) = Inr as" "cs = as @ bs"
    using c(1) unfolding split[THEN arg_cong[of _ _ "mapE domain_candle"]] mapE_append bindE_eq_Inr by auto
  have "length as = n" using mapE_length[OF ab(1)] assms(2) by simp
  with atr.ind_append c(2) ab(2) have "atr as (sn_atr_period (ev_scenario env)) = Inr (take n vals)" by blast
  then show ?thesis using ab(1) by (simp add: replay_start_def c(3) with_atr_def replay_init_def)
qed

lemma replay_confirmed:
  assumes "in_order env" "replay_start env = Inr st" "\<forall>t \<in> set ts. rt_ts t \<le> T" "n = length (closed_by T (ev_candles env))"
  shows "replay_after (confirmed_by T env) ts = map_sum (\<lambda>e. e) (\<lambda>s. with_atr (take n (re_atr s)) s) (replay_after env ts)"
  using assms(3)
proof (induction ts rule: rev_induct)
  case Nil
  show ?case using start_confirmed[OF assms(2,4)] assms(2) by (simp add: replay_after_def)
next
  case (snoc t ts)
  then have ih: "replay_after (confirmed_by T env) ts = map_sum (\<lambda>e. e) (\<lambda>s. with_atr (take n (re_atr s)) s) (replay_after env ts)"
    and t: "rt_ts t \<le> T" by simp_all
  show ?case
  proof (cases "replay_after env ts")
    case (Inr s)
    show ?thesis
    proof (cases "trade_step env s (length ts, t)")
      case (Inr s')
      with step_keeps_atr[OF this] \<open>replay_after env ts = Inr s\<close> ih show ?thesis
        by (simp add: replay_after_snoc step_with_atr[OF assms(1) t assms(4)])
    qed (use \<open>replay_after env ts = Inr s\<close> ih in \<open>simp add: replay_after_snoc step_with_atr[OF assms(1) t assms(4)]\<close>)
  qed (use ih in \<open>simp add: replay_after_snoc\<close>)
qed

section \<open>A strategy answers in turn\<close>

definition strategy_ready :: "candle_row list \<Rightarrow> nat \<Rightarrow> 's strategy_provider \<Rightarrow> bool" where
  "strategy_ready rows i sp \<longleftrightarrow> sp_rows sp = rows \<and> mapE domain_candle rows = Inr (sp_candles sp) \<and> sp_next_index sp = i"

lemma domain_candle_time: "domain_candle r = Inr c \<Longrightarrow> timestamp_ms c = cr_open_time r"
  by (auto simp: domain_candle_def make_candle_def Let_def bindE_eq_Inr)

lemma strategy_answers:
  fixes upd :: "'s \<Rightarrow> candle \<Rightarrow> 's \<times> signal result"
  assumes "\<And>s c. \<exists>s' g. upd s c = (s', Inr g) \<and> sig_timestamp_ms g = timestamp_ms c"
  shows "answering_provider (strategy_decide upd) rows (strategy_ready rows)"
proof unfold_locales
  fix a :: decide_args and sp :: "'s strategy_provider"
  assume r: "strategy_ready rows (da_candle_index a) sp" and i: "da_candle_index a < length rows"
    and ts: "da_decision_ts a = cr_close_time (rows ! da_candle_index a)"
  let ?i = "da_candle_index a"
  have time: "timestamp_ms (sp_candles sp ! ?i) = cr_open_time (rows ! ?i)"
    using r mapE_nth[of domain_candle rows "sp_candles sp" ?i] i domain_candle_time by (auto simp: strategy_ready_def)
  obtain s' g where g: "upd (sp_strategy sp) (sp_candles sp ! ?i) = (s', Inr g)" "sig_timestamp_ms g = cr_open_time (rows ! ?i)"
    using assms[of "sp_strategy sp" "sp_candles sp ! ?i"] time by auto
  have "\<exists>d. strategy_decide upd sp a = Inr (sp\<lparr>sp_strategy := s', sp_next_index := ?i + 1\<rparr>, d)"
    using r i ts g by (cases "sig_action g") (auto simp: strategy_decide_def strategy_ready_def Let_def)
  then show "\<exists>p' d. strategy_decide upd sp a = Inr (p', d) \<and> strategy_ready rows (Suc ?i) p'"
    using r by (auto simp: strategy_ready_def)
qed

section \<open>A small replay\<close>

definition small_rows :: "candle_row list" where
  "small_rows =
     [\<lparr>cr_open_time = 0, cr_close_time = 10, cr_open = Fin 8, cr_high = Fin 8, cr_low = Fin 8, cr_close = Fin 8, cr_volume = Fin 1, cr_trade_count = 1\<rparr>,
      \<lparr>cr_open_time = 10, cr_close_time = 20, cr_open = Fin 8, cr_high = Fin 9, cr_low = Fin 8, cr_close = Fin 8, cr_volume = Fin 1, cr_trade_count = 1\<rparr>]"

definition always_buy :: "nat \<Rightarrow> candle \<Rightarrow> nat \<times> signal result" where
  "always_buy n c = (n + 1, Inr \<lparr>sig_timestamp_ms = timestamp_ms c, sig_action = BUY, sig_intensity = LOW, sig_reason = []\<rparr>)"

definition small_env :: "nat strategy_provider replay_env" where
  "small_env =
     \<lparr>ev_candles = small_rows, ev_ctx_1h = [], ev_ctx_4h = [],
      ev_scenario = DEFAULT_SCENARIO\<lparr>sn_atr_period := 1, sn_slippage_bps := Fin 0\<rparr>,
      ev_decide = strategy_decide always_buy,
      ev_provider = \<lparr>sp_strategy = 0, sp_rows = small_rows, sp_candles = map (\<lambda>r. \<lparr>timestamp_ms = cr_open_time r,
        c_open = cr_open r, c_high = cr_high r, c_low = cr_low r, c_close = cr_close r, c_volume = cr_volume r, c_turnover = Fin 0\<rparr>) small_rows,
        sp_next_index = 0\<rparr>\<rparr>"

definition small_trades :: "replay_trade list" where
  "small_trades = [\<lparr>rt_ts = 15, rt_price = Fin 8, rt_quantity = Fin 1\<rparr>, \<lparr>rt_ts = 25, rt_price = Fin 8, rt_quantity = Fin 1\<rparr>,
     \<lparr>rt_ts = 26, rt_price = Fin 5, rt_quantity = Fin 1\<rparr>, \<lparr>rt_ts = 27, rt_price = Fin 4, rt_quantity = Fin 1\<rparr>]"

lemma small_run:
  "map_sum (\<lambda>_. ()) (\<lambda>res. (rx_stats res, map (\<lambda>r. (entry_of_record r, px_reason (rr_exit r), rr_exit_fill_trade_index r)) (rx_records res)))
     (replay_engine small_env (small_trades, Inr ())) =
   Inr (\<lparr>rs_total = 2, rs_filled = 1, rs_dropped = 1, rs_unfilled = 0, rs_rejected = 0, rs_closed = 1\<rparr>,
        [(1, ''stop_loss'', 3)])"
  by code_simp

lemma small_result:
  obtains res r where "replay_engine small_env (small_trades, Inr ()) = Inr res" "rs_total (rx_stats res) = 2"
    "rx_records res = [r]" "entry_of_record r = 1"
  using small_run by (cases "replay_engine small_env (small_trades, Inr ())") auto

definition rising_trades :: "replay_trade list" where
  \<comment> \<open>the price rises by the trailing distance and falls back\<close>
  "rising_trades = [\<lparr>rt_ts = 15, rt_price = Fin 8, rt_quantity = Fin 1\<rparr>, \<lparr>rt_ts = 25, rt_price = Fin 8, rt_quantity = Fin 1\<rparr>,
     \<lparr>rt_ts = 26, rt_price = Fin 10, rt_quantity = Fin 1\<rparr>, \<lparr>rt_ts = 27, rt_price = Fin (17/2), rt_quantity = Fin 1\<rparr>,
     \<lparr>rt_ts = 28, rt_price = Fin 8, rt_quantity = Fin 1\<rparr>]"

lemma rising_run:
  "map_sum (\<lambda>_. ()) (\<lambda>res. map (\<lambda>r. (entry_of_record r, px_reason (rr_exit r), rr_exit_fill_trade_index r)) (rx_records res))
     (replay_engine small_env (rising_trades, Inr ())) =
   Inr [(1, ''trailing_stop'', 4)]"
  by code_simp

lemma rising_result:
  obtains res r where "replay_engine small_env (rising_trades, Inr ()) = Inr res" "rx_records res = [r]"
    "px_reason (rr_exit r) = ''trailing_stop''"
  using rising_run by (cases "replay_engine small_env (rising_trades, Inr ())") auto

lemma small_start: "\<exists>st. replay_start small_env = Inr st"
proof -
  have "map_sum (\<lambda>_. ()) (\<lambda>_. ()) (replay_start small_env) = Inr ()" by code_simp
  then show ?thesis by (cases "replay_start small_env") auto
qed

lemma small_order: "in_order small_env"
  by (simp add: in_order_def small_env_def small_rows_def)

section \<open>Properties\<close>

text \<open>
  C20 Every decision of a replay is accounted for: it was filled, dropped, rejected by the risk
  engine (under its reason) or left without a trade; every record is a closed trade.
\<close>

theorem replay_accounts_for_every_decision:
  assumes "replay_engine env (ts, ending) = Inr res"
  shows "rs_total (rx_stats res) = rs_filled (rx_stats res) + rs_dropped (rx_stats res) + rs_rejected (rx_stats res) + rs_unfilled (rx_stats res) \<and>
    rs_closed (rx_stats res) = length (rx_records res) \<and>
    rs_rejected (rx_stats res) = sum_list (map snd (rx_rejected_reasons res))"
proof -
  obtain s1 s2 s4 s5 where s: "replay_after env ts = Inr s1" "advance env SWEEP_CUTOFF s1 = Inr s2"
    "(case re_pending s2 of None \<Rightarrow> Inr (sweep_queue s2) | Some _ \<Rightarrow> fill_pending_edge env (sweep_queue s2)) = Inr s4"
    "close_at_end env ts s4 = Inr s5"
    "res = \<lparr>rx_records = re_records s5, rx_stats = re_stats s5, rx_rejected_reasons = re_rejected_reasons s5\<rparr>"
    using assms by (rule replay_engine_cases)
  have "counts_ok 0 s2" using advance_invariant[where P = "counts_ok 0", OF s(2) counts_after[OF s(1)]] counts_confirm by blast
  then have c: "counts_ok 0 (sweep_queue s2)" by (simp add: sweep_queue_def counts_ok_def Let_def)
  have "counts_ok 0 s4 \<and> re_queue s4 = []"
  proof (cases "re_pending s2")
    case None
    with s(3) c show ?thesis by auto
  next
    case (Some px)
    with s(3) have "fill_pending_edge env (sweep_queue s2) = Inr s4" by simp
    then show ?thesis by (rule edge_cases) (use c in \<open>simp add: counts_ok_def Let_def\<close>)
  qed
  then have "counts_ok 0 s5 \<and> re_queue s5 = []"
    using s(4) by (auto simp: close_at_end_def Let_def split: option.splits if_splits)
  then show ?thesis by (simp add: s(5) counts_ok_def Let_def)
qed

lemma replay_accounts_for_every_decision_witness:
  "\<exists>res. replay_engine small_env (small_trades, Inr ()) = Inr res \<and> rs_total (rx_stats res) = 2 \<and>
     rs_filled (rx_stats res) + rs_dropped (rx_stats res) + rs_rejected (rx_stats res) + rs_unfilled (rx_stats res) = 2"
proof -
  obtain res r where "replay_engine small_env (small_trades, Inr ()) = Inr res" "rs_total (rx_stats res) = 2"
    by (rule small_result)
  with replay_accounts_for_every_decision[OF this(1)] show ?thesis by auto
qed

text \<open>
  C17 A position leaves when it should.  The stop in force is the initial stop or the trailing
  stop, whichever is higher, where the trailing stop is recomputed from the trades after the
  entry's instant and the ATR series alone.  Every trade after the entry's instant and before the
  trigger of the exit stayed above the stop in force then and below the target (trades of the
  entry's own instant are not checked, as in the code).  An exit by a level is triggered by a
  trade that reached the stop in force, or else the target, with the reason and level that say
  which, and is filled at the next trade, or at its own if the data end there; a decision
  leaves at its own trade; only the last trade of the data closes a position itself.  No
  position is entered before the one before has left.
\<close>

theorem exits_are_prompt:
  assumes "replay_engine env (ts, ending) = Inr res"
  shows "\<exists>st. replay_start env = Inr st \<and> in_turn (rx_records res) \<and>
    (\<forall>r \<in> set (rx_records res). left_by_trade env (re_atr st) ts r \<or> left_at_end env (re_atr st) ts r)"
proof -
  obtain s1 s2 s4 s5 where s: "replay_after env ts = Inr s1" "advance env SWEEP_CUTOFF s1 = Inr s2"
    "(case re_pending s2 of None \<Rightarrow> Inr (sweep_queue s2) | Some _ \<Rightarrow> fill_pending_edge env (sweep_queue s2)) = Inr s4"
    "close_at_end env ts s4 = Inr s5"
    "res = \<lparr>rx_records = re_records s5, rx_stats = re_stats s5, rx_rejected_reasons = re_rejected_reasons s5\<rparr>"
    using assms by (rule replay_engine_cases)
  obtain st where st: "exits_inv env ts s1" "replay_start env = Inr st" "re_atr s1 = re_atr st"
    using exits_after[OF s(1)] by blast
  have "exits_inv env ts s2 \<and> re_atr s2 = re_atr st" using exits_advance[OF s(2) st(1)] st(3) by simp
  then have "ended env (re_atr st) ts (re_records s5)" using exits_end[OF _ s(3,4)] by metis
  with st(2) show ?thesis by (auto simp: ended_def s(5))
qed

lemma exits_are_prompt_witness:
  "\<exists>st res r. replay_start small_env = Inr st \<and> replay_engine small_env (rising_trades, Inr ()) = Inr res \<and>
     rx_records res = [r] \<and> px_reason (rr_exit r) = ''trailing_stop'' \<and>
     (left_by_trade small_env (re_atr st) rising_trades r \<or> left_at_end small_env (re_atr st) rising_trades r)"
proof -
  obtain res r where r: "replay_engine small_env (rising_trades, Inr ()) = Inr res" "rx_records res = [r]"
    "px_reason (rr_exit r) = ''trailing_stop''"
    by (rule rising_result)
  with exits_are_prompt[OF r(1)] show ?thesis by auto
qed



text \<open>
  C16 A replay does not look ahead: after the trades up to an instant, its records, its open
  position, its queue and its figures are those of a run that holds only the candles closed by
  then; no later candle, and so no indicator computed over later candles, can change them.
\<close>

theorem replay_does_not_look_ahead:
  assumes "in_order env" "replay_start env = Inr st" "\<forall>t \<in> set ts. rt_ts t \<le> T"
  shows "map_sum (\<lambda>e. e) (with_atr []) (replay_after (confirmed_by T env) ts) = map_sum (\<lambda>e. e) (with_atr []) (replay_after env ts)"
  using replay_confirmed[OF assms refl] by (cases "replay_after env ts") (simp_all add: with_atr_def)

lemma replay_does_not_look_ahead_witness:
  "map_sum (\<lambda>e. e) (with_atr []) (replay_after (confirmed_by 15 small_env) (take 1 small_trades)) =
   map_sum (\<lambda>e. e) (with_atr []) (replay_after small_env (take 1 small_trades))"
  using replay_does_not_look_ahead[OF small_order, of _ "take 1 small_trades" 15] small_start
  by (auto simp: small_trades_def)

text \<open>
  C19 A replay driven by a strategy that answers every candle with a signal of its time always
  ends with a result: the adapter's sequence checks, the engine's broken-invariant errors and the
  check of an approval without levels are never reached (in dynamic mode, given required stops).
\<close>

theorem replay_of_a_strategy_completes:
  assumes "\<And>s c. \<exists>s' g. upd s c = (s', Inr g) \<and> sig_timestamp_ms g = timestamp_ms c"
    and "ev_decide env = strategy_decide upd" "strategy_provider s (ev_candles env) = Inr (ev_provider env)"
    and "replay_start env = Inr st" "dynamic env \<longrightarrow> rk_stop_loss_required (sn_risk (ev_scenario env))"
  shows "\<exists>res. replay_engine env (ts, Inr ()) = Inr res"
proof -
  have a: "answering_provider (strategy_decide upd) (ev_candles env) (strategy_ready (ev_candles env))"
    by (rule strategy_answers) (rule assms(1))
  have "answering_provider.runs_here (strategy_decide upd) (ev_candles env) env"
    using assms(2,5) by (simp add: answering_provider.runs_here_def[OF a])
  moreover have "strategy_ready (ev_candles env) 0 (ev_provider env)"
    using assms(3)[symmetric] by (auto simp: strategy_provider_def strategy_ready_def bindE_def split: if_splits sum.splits)
  ultimately show ?thesis using answering_provider.replay_total[OF a _ assms(4)] by blast
qed

lemma replay_of_a_strategy_completes_witness: "\<exists>res. replay_engine small_env (small_trades, Inr ()) = Inr res"
proof -
  obtain st where st: "replay_start small_env = Inr st" using small_start by blast
  have "strategy_provider 0 (ev_candles small_env) = Inr (ev_provider small_env)"
    by (simp add: strategy_provider_def small_env_def small_rows_def domain_candle_def make_candle_def candle_check_def
        Let_def fmax_def fmin_def)
  then show ?thesis
    using replay_of_a_strategy_completes[of always_buy small_env 0 st small_trades, OF _ _ _ st]
    by (simp add: small_env_def always_buy_def dynamic_def DEFAULT_SCENARIO_def)
qed

end
