(* ===== verification/TradeCandles.thy ===== *)
theory TradeCandles
  imports Trades Replay
begin

text \<open>
  The candles of the trade archive (\<open>infrastructure/medallion/candles.py\<close>) and the loaders that
  read them and the trades for a replay (\<open>load_candles\<close>, \<open>iter_trades\<close> of \<open>replay.py\<close>).
  Prices stay texts, compared as Decimals; a volume is a sum of Decimals under the default
  context (28 digits, ties to even), written with \<open>format(_, 'f')\<close>; \<open>float\<close> of such a text is the
  rounding of its value.
  The results: the candles of a day are the groups of its trades; the candles a transformation
  writes are read back by the loader; what the loader returns suits the replay.
\<close>

section \<open>Decimals of a file\<close>

record udec =
  ud_coefficient :: nat
  ud_exponent :: int

definition udec_value :: "udec \<Rightarrow> rat" where
  "udec_value d = of_nat (ud_coefficient d) * 10 powi ud_exponent d"

definition udec_of_text :: "string \<Rightarrow> udec" where
  \<comment> \<open>\<open>Decimal(s)\<close> of a text \<open>is_dec\<close> accepts\<close>
  "udec_of_text s =
     (let fraction = filter is_digit (dropWhile is_digit s) in
      \<lparr>ud_coefficient = digit_value (filter is_digit s), ud_exponent = - int (length fraction)\<rparr>)"

definition udec_fix :: "udec \<Rightarrow> udec" where
  \<comment> \<open>rounding to 28 digits, ties to even\<close>
  "udec_fix d =
     (let c = ud_coefficient d; n = length (nat_text c) in
      if n \<le> 28 then d
      else let k = n - 28; q = c div 10 ^ k; r = c mod 10 ^ k;
               up = (10 ^ k < 2 * r \<or> 2 * r = 10 ^ k \<and> odd q); c' = (if up then q + 1 else q)
           in if c' = 10 ^ 28 then \<lparr>ud_coefficient = 10 ^ 27, ud_exponent = ud_exponent d + int k + 1\<rparr>
              else \<lparr>ud_coefficient = c', ud_exponent = ud_exponent d + int k\<rparr>)"

definition udec_add :: "udec \<Rightarrow> udec \<Rightarrow> udec" where
  "udec_add a b =
     (let e = min (ud_exponent a) (ud_exponent b) in
      udec_fix \<lparr>ud_coefficient = ud_coefficient a * 10 ^ nat (ud_exponent a - e) + ud_coefficient b * 10 ^ nat (ud_exponent b - e),
                ud_exponent = e\<rparr>)"

definition udec_text :: "udec \<Rightarrow> string" where
  \<comment> \<open>\<open>format(d, 'f')\<close>\<close>
  "udec_text d =
     (let s = nat_text (ud_coefficient d); p = nat (- ud_exponent d) in
      if 0 \<le> ud_exponent d then s @ replicate (nat (ud_exponent d)) (CHR ''0'')
      else if length s \<le> p then ''0.'' @ replicate (p - length s) (CHR ''0'') @ s
      else take (length s - p) s @ ''.'' @ drop (length s - p) s)"

definition float_text :: "string \<Rightarrow> pyfloat" where
  \<comment> \<open>\<open>float(s)\<close> of such a text\<close>
  "float_text s = rnd (udec_value (udec_of_text s))"

section \<open>Reading the trades of a day\<close>

definition CANDLE_SCHEMA_VERSION :: string where "CANDLE_SCHEMA_VERSION = ''bybit-spot-candles-silver-v1''"
definition TIMEFRAMES :: "string list" where "TIMEFRAMES = [''1m'', ''5m'', ''15m'', ''30m'', ''1h'', ''4h'', ''1d'']"

definition DURATION_MS :: "(string \<times> int) list" where
  "DURATION_MS = [(''1m'', 60000), (''5m'', 300000), (''15m'', 900000), (''30m'', 1800000), (''1h'', 3600000),
     (''4h'', 14400000), (''1d'', 86400000)]"

definition duration_of :: "string \<Rightarrow> int" where
  "duration_of tf = (case map_of DURATION_MS tf of Some d \<Rightarrow> d | None \<Rightarrow> 0)"

definition CANDLE_HEADER :: "string list" where
  "CANDLE_HEADER = [''open_time'', ''close_time'', ''symbol'', ''timeframe'', ''open'', ''high'', ''low'', ''close'', ''volume'', ''trade_count'']"

definition candle_error :: "string \<Rightarrow> py_error" where "candle_error msg = NamedError ''CandleError'' msg"
definition invalid_trade :: "string \<Rightarrow> py_error" where "invalid_trade msg = NamedError ''InvalidTradeRowError'' msg"

definition is_sha64 :: "string \<Rightarrow> bool" where
  \<comment> \<open>\<open>^[0-9a-f]{64}$\<close>\<close>
  "is_sha64 s \<longleftrightarrow> is_hex64 (line_body s)"

definition epoch_days :: "date \<Rightarrow> int" where
  \<comment> \<open>the days from 1970-01-01 in the proleptic Gregorian calendar\<close>
  "epoch_days d =
     (let y = (if date_month d \<le> 2 then date_year d - 1 else date_year d);
          yoe = y mod 400; mp = (date_month d + 9) mod 12; doy = (153 * mp + 2) div 5 + date_day d - 1
      in y div 400 * 146097 + yoe * 365 + yoe div 4 - yoe div 100 + doy - 719468)"

definition day_bounds_ms :: "date \<Rightarrow> int \<times> int" where
  "day_bounds_ms d = (epoch_days d * DAY_MS, epoch_days d * DAY_MS + DAY_MS)"

type_synonym trade_row = "int \<times> string \<times> string"

fun trade_key_ok :: "(int \<times> int) option \<Rightarrow> int \<times> int \<Rightarrow> bool" where
  "trade_key_ok None key = True"
| "trade_key_ok (Some prev) key = (prev < key)"

definition trade_row_of :: "string \<Rightarrow> string \<Rightarrow> int \<times> int \<Rightarrow> (int \<times> int) option \<Rightarrow> string list \<Rightarrow> (trade_row \<times> int \<times> int) result" where
  \<comment> \<open>one row of the file: the trade and its key\<close>
  "trade_row_of source_file symbol bounds prev row =
     (if length row \<noteq> 10 then Inl (invalid_trade ''columnas'')
      else if \<not> is_uint (row ! 0) then Inl (invalid_trade ''timestamp'')
      else if row ! 1 \<noteq> symbol then Inl (invalid_trade ''symbol'')
      else if \<not> is_dec (row ! 2) then Inl (invalid_trade ''price'')
      else if \<not> is_dec (row ! 3) then Inl (invalid_trade ''quantity'')
      else if \<not> List.member VALID_SIDES (row ! 4) then Inl (invalid_trade ''side'')
      else if \<not> is_uint (row ! 5) then Inl (invalid_trade ''native_trade_id'')
      else if row ! 6 \<noteq> [] \<and> \<not> is_uint (row ! 6) then Inl (invalid_trade ''native_sequence'')
      else if row ! 7 \<noteq> source_file then Inl (invalid_trade ''source_file'')
      else if \<not> is_sha64 (row ! 8) then Inl (invalid_trade ''source_file_sha256'')
      else if \<not> is_uint (row ! 9) then Inl (invalid_trade ''source_row_number'')
      else bindE (int_of (row ! 0)) (\<lambda>ts.
        if \<not> (fst bounds \<le> ts \<and> ts < snd bounds) then Inl (invalid_trade ''fuera del dia'')
        else bindE (int_of (row ! 9)) (\<lambda>n.
          if \<not> trade_key_ok prev (ts, n) then Inl (invalid_trade ''orden canonico violado'')
          else Inr ((ts, row ! 2, row ! 3), (ts, n)))))"

fun read_trade_rows :: "string \<Rightarrow> string \<Rightarrow> int \<times> int \<Rightarrow> (int \<times> int) option \<Rightarrow> string list list \<Rightarrow> trade_row list result" where
  "read_trade_rows source_file symbol bounds prev [] = Inr []"
| "read_trade_rows source_file symbol bounds prev (row # rows) =
     bindE (trade_row_of source_file symbol bounds prev row) (\<lambda>(t, key).
     bindE (read_trade_rows source_file symbol bounds (Some key) rows) (\<lambda>ts. Inr (t # ts)))"

definition read_trades :: "'c codec \<Rightarrow> 'c \<Rightarrow> string \<Rightarrow> string \<Rightarrow> int \<times> int \<Rightarrow> int \<Rightarrow> trade_row list result" where
  "read_trades cd c source_file symbol bounds expected_rows =
     bindE (validate_gzip cd c) (\<lambda>_.
     case cd_stream cd c of
       ([], ending) \<Rightarrow> bindE ending (\<lambda>_. Inl (invalid_trade ''archivo vacio''))
     | (header # body, ending) \<Rightarrow>
         if header \<noteq> SILVER_HEADER then Inl (invalid_trade ''header'')
         else bindE (read_trade_rows source_file symbol bounds None body) (\<lambda>rows.
           bindE ending (\<lambda>_.
           if rows = [] then Inl (invalid_trade ''sin filas de datos'')
           else if int (length rows) \<noteq> expected_rows then Inl (hash_conflict ''row_count'')
           else Inr rows)))"

section \<open>Aggregation\<close>

record agg =
  ag_open :: string
  ag_high :: string
  ag_high_d :: rat
  ag_low :: string
  ag_low_d :: rat
  ag_close :: string
  ag_volume :: udec
  ag_count :: nat

definition price_of :: "trade_row \<Rightarrow> rat" where
  "price_of t = udec_value (udec_of_text (fst (snd t)))"

definition new_agg :: "trade_row \<Rightarrow> agg" where
  "new_agg t =
     (case t of (ts, price, quantity) \<Rightarrow>
        \<lparr>ag_open = price, ag_high = price, ag_high_d = price_of t, ag_low = price, ag_low_d = price_of t, ag_close = price,
         ag_volume = udec_of_text quantity, ag_count = 1\<rparr>)"

definition extend_agg :: "agg \<Rightarrow> trade_row \<Rightarrow> agg" where
  "extend_agg a t =
     (case t of (ts, price, quantity) \<Rightarrow>
      let a1 = (if ag_high_d a < price_of t then a\<lparr>ag_high := price, ag_high_d := price_of t\<rparr> else a);
          a2 = (if price_of t < ag_low_d a1 then a1\<lparr>ag_low := price, ag_low_d := price_of t\<rparr> else a1)
      in a2\<lparr>ag_close := price, ag_volume := udec_add (ag_volume a2) (udec_of_text quantity), ag_count := ag_count a2 + 1\<rparr>)"

definition bucket_of :: "int \<Rightarrow> trade_row \<Rightarrow> int" where
  "bucket_of dur t = fst t div dur * dur"

definition add_trade :: "int \<Rightarrow> (int \<times> agg) list \<Rightarrow> trade_row \<Rightarrow> (int \<times> agg) list" where
  "add_trade dur buckets t =
     AList.update (bucket_of dur t)
       (case map_of buckets (bucket_of dur t) of None \<Rightarrow> new_agg t | Some a \<Rightarrow> extend_agg a t) buckets"

definition candle_line :: "int \<Rightarrow> string \<Rightarrow> string \<Rightarrow> int \<times> agg \<Rightarrow> string list" where
  "candle_line dur symbol tf b =
     (case b of (open_ms, a) \<Rightarrow>
      [int_text open_ms, int_text (open_ms + dur), symbol, tf, ag_open a, ag_high a, ag_low a, ag_close a,
       udec_text (ag_volume a), nat_text (ag_count a)])"

definition aggregate :: "trade_row list \<Rightarrow> int \<Rightarrow> string \<Rightarrow> string \<Rightarrow> int \<times> int \<Rightarrow> string list list result" where
  "aggregate rows dur symbol tf bounds =
     mapE (\<lambda>b. if fst b < fst bounds \<or> snd bounds < fst b + dur then Inl (candle_error ''fuera del dia fuente'')
               else Inr (candle_line dur symbol tf b))
       (sort_key fst (foldl (add_trade dur) [] rows))"

section \<open>A day of candles\<close>

record candle_entry =
  ce_candle_count :: "int option"
  ce_date :: string
  ce_duration_ms :: int
  ce_max_open_time :: int
  ce_min_open_time :: int
  ce_output_path :: string
  ce_output_sha256 :: "string option"
  ce_source_trades :: "(string \<times> string) list"
    \<comment> \<open>path and hash\<close>
  ce_symbol :: string
  ce_timeframe :: string

record candle_result =
  cn_filename :: string
  cn_timeframe :: string
  cn_status :: layer_status
  cn_sha256 :: string
  cn_candles :: int

type_synonym 'c candles = "('c, candle_entry) layer"

definition candle_filename :: "string \<Rightarrow> string \<Rightarrow> string \<Rightarrow> string" where
  "candle_filename symbol day_text tf = symbol @ ''_'' @ day_text @ ''_'' @ tf @ ''.csv.gz''"

definition candle_path :: "string \<Rightarrow> string \<Rightarrow> string \<Rightarrow> string" where
  "candle_path symbol day_text tf = ''timeframe='' @ tf @ ''/date='' @ day_text @ ''/'' @ candle_filename symbol day_text tf"

record 'c candle_source =
  cs_day :: date
  cs_partition :: string
  cs_content :: 'c
  cs_sha :: string
  cs_rows :: int

definition candle_source :: "'c codec \<Rightarrow> scope_arg \<Rightarrow> 'c silver \<Rightarrow> string \<times> day_arg \<Rightarrow> 'c candle_source result" where
  \<comment> \<open>what \<open>transform_day\<close> checks of the trades before it looks at its own directory\<close>
  "candle_source cd scope trades arg =
     (case arg of (symbol, day) \<Rightarrow>
      bindE (ensure_ingest_allowed day scope) (\<lambda>_.
      bindE (require_day day) (\<lambda>d.
      bindE (bronze_filename symbol d) (\<lambda>name.
      bindE (load_manifest trades) (\<lambda>m.
      if mf_schema_version m \<noteq> Some SILVER_SCHEMA_VERSION then Inl (candle_error ''manifest trades schema_version'')
      else case entry_of m name of
        None \<Rightarrow> Inl (hash_conflict ''sin entrada en manifest trades'')
      | Some e \<Rightarrow>
          (case map_of (la_files trades) (partition_of (isoformat d) name) of
             None \<Rightarrow> Inl (hash_conflict ''archivo trades ausente'')
           | Some c \<Rightarrow>
               if se_output_sha256 e \<noteq> Some (cd_sha256 cd c) then Inl (hash_conflict ''trades hash mismatch'')
               else case se_row_count e of
                 None \<Rightarrow> Inl (hash_conflict ''row_count ausente en manifest trades'')
               | Some n \<Rightarrow> Inr \<lparr>cs_day = d, cs_partition = partition_of (isoformat d) name, cs_content = c,
                                 cs_sha = cd_sha256 cd c, cs_rows = n\<rparr>))))))"

definition candle_present :: "'c codec \<Rightarrow> 'c candles \<Rightarrow> candle_entry manifest \<Rightarrow> string \<Rightarrow> string \<Rightarrow> string \<Rightarrow> 'c \<Rightarrow> candle_result result" where
  \<comment> \<open>the branch of an output that exists\<close>
  "candle_present cd l m name tf trades_sha c =
     (case entry_of m name of
        None \<Rightarrow> Inl (hash_conflict ''output candles sin entrada en manifest'')
      | Some e \<Rightarrow>
          if ce_output_sha256 e \<noteq> Some (cd_sha256 cd c) then Inl (hash_conflict ''output alterado'')
          else if (case ce_source_trades e of [] \<Rightarrow> True | s # _ \<Rightarrow> snd s \<noteq> trades_sha)
          then Inl (hash_conflict ''linaje Silver de entrada cambio'')
          else case ce_candle_count e of
            None \<Rightarrow> Inl KeyError
          | Some n \<Rightarrow> Inr \<lparr>cn_filename = name, cn_timeframe = tf, cn_status = SKIPPED, cn_sha256 = cd_sha256 cd c, cn_candles = n\<rparr>)"

fun check_outputs ::
  "'c codec \<Rightarrow> candle_entry manifest \<Rightarrow> string \<Rightarrow> string \<Rightarrow> string \<Rightarrow> 'c candles \<Rightarrow> string list \<Rightarrow>
   'c candles \<times> (string \<times> candle_result option) list result" where
  \<comment> \<open>the first loop: what is there is checked and logged, the rest is pending (None)\<close>
  "check_outputs cd m symbol day_text trades_sha l [] = (l, Inr [])"
| "check_outputs cd m symbol day_text trades_sha l (tf # tfs) =
     (case map_of (la_files l) (candle_path symbol day_text tf) of
        None \<Rightarrow>
          (case check_outputs cd m symbol day_text trades_sha l tfs of
             (l', r) \<Rightarrow> (l', bindE r (\<lambda>xs. Inr ((tf, None) # xs))))
      | Some c \<Rightarrow>
          (case candle_present cd l m (candle_filename symbol day_text tf) tf trades_sha c of
             Inl e \<Rightarrow> (l, Inl e)
           | Inr res \<Rightarrow>
               (case check_outputs cd m symbol day_text trades_sha (log_op (Skipped (cn_filename res)) l) tfs of
                  (l', r) \<Rightarrow> (l', bindE r (\<lambda>xs. Inr ((tf, Some res) # xs))))))"

definition verify_candles :: "'c codec \<Rightarrow> 'c \<Rightarrow> nat \<Rightarrow> unit result" where
  \<comment> \<open>\<open>_verify_roundtrip\<close>\<close>
  "verify_candles cd c expected =
     bindE (validate_gzip cd c) (\<lambda>_.
     case cd_stream cd c of
       ([], ending) \<Rightarrow> bindE ending (\<lambda>_. Inl (candle_error ''candles round-trip: archivo vacio''))
     | (h # body, ending) \<Rightarrow>
         bindE (raise_if (h \<noteq> CANDLE_HEADER) (candle_error ''candles round-trip header invalido'')) (\<lambda>_.
         bindE ending (\<lambda>_. raise_if (length body \<noteq> expected) (candle_error ''candles round-trip''))))"

definition build_candles ::
  "'c codec \<Rightarrow> string \<Rightarrow> 'c candle_source \<Rightarrow> trade_row list \<Rightarrow> string \<Rightarrow> ('c \<times> candle_entry) result" where
  \<comment> \<open>the file of a timeframe and its entry\<close>
  "build_candles cd symbol src rows tf =
     bindE (aggregate rows (duration_of tf) symbol tf (day_bounds_ms (cs_day src))) (\<lambda>candles.
     let c = cd_write cd (CANDLE_HEADER # candles) in
     bindE (verify_candles cd c (length candles)) (\<lambda>_.
     bindE (int_of (hd (last candles))) (\<lambda>hi.
     bindE (int_of (hd (hd candles))) (\<lambda>lo.
       Inr (c, \<lparr>ce_candle_count = Some (int (length candles)), ce_date = isoformat (cs_day src), ce_duration_ms = duration_of tf,
                ce_max_open_time = hi, ce_min_open_time = lo,
                ce_output_path = candle_path symbol (isoformat (cs_day src)) tf, ce_output_sha256 = Some (cd_sha256 cd c),
                ce_source_trades = [(cs_partition src, cs_sha src)], ce_symbol = symbol, ce_timeframe = tf\<rparr>)))))"

fun write_outputs ::
  "'c codec \<Rightarrow> string \<Rightarrow> 'c candle_source \<Rightarrow> trade_row list \<Rightarrow> candle_entry manifest \<Rightarrow> 'c candles \<Rightarrow>
   (string \<times> candle_result option) list \<Rightarrow> 'c candles \<times> candle_result list result" where
  \<comment> \<open>the second loop: the pending timeframes in order\<close>
  "write_outputs cd symbol src rows m l [] = (l, Inr [])"
| "write_outputs cd symbol src rows m l ((tf, Some res) # xs) =
     (case write_outputs cd symbol src rows m l xs of (l', r) \<Rightarrow> (l', bindE r (\<lambda>rs. Inr (res # rs))))"
| "write_outputs cd symbol src rows m l ((tf, None) # xs) =
     (case build_candles cd symbol src rows tf of
        Inl e \<Rightarrow> (l, Inl e)
      | Inr (c, e) \<Rightarrow>
          (let name = candle_filename symbol (isoformat (cs_day src)) tf; m' = put_entry name e m;
               l1 = store (candle_path symbol (isoformat (cs_day src)) tf) c m' (Written name (cd_sha256 cd c)) l
           in case write_outputs cd symbol src rows m' l1 xs of
             (l', r) \<Rightarrow> (l', bindE r (\<lambda>rs. Inr (\<lparr>cn_filename = name, cn_timeframe = tf, cn_status = DONE,
                cn_sha256 = cd_sha256 cd c, cn_candles = get_or (ce_candle_count e) 0\<rparr> # rs)))))"

definition candle_day :: "'c codec \<Rightarrow> scope_arg \<Rightarrow> 'c silver \<Rightarrow> 'c candles \<Rightarrow> string \<times> day_arg \<Rightarrow> 'c candles \<times> candle_result list result" where
  \<comment> \<open>\<open>transform_day\<close>\<close>
  "candle_day cd scope trades l arg =
     (case bindE (candle_source cd scope trades arg) (\<lambda>src. bindE (load_manifest l) (\<lambda>m. Inr (src, m))) of
        Inl e \<Rightarrow> (l, Inl e)
      | Inr (src, m0) \<Rightarrow>
          (let m = m0\<lparr>mf_schema_version := Some CANDLE_SCHEMA_VERSION\<rparr>; symbol = fst arg in
           case check_outputs cd m symbol (isoformat (cs_day src)) (cs_sha src) l TIMEFRAMES of
             (l1, Inl e) \<Rightarrow> (l1, Inl e)
           | (l1, Inr xs) \<Rightarrow>
               if list_all (\<lambda>x. snd x \<noteq> None) xs then (l1, Inr (map (the \<circ> snd) xs))
               else case read_trades cd (cs_content src) (cs_partition src) symbol (day_bounds_ms (cs_day src)) (cs_rows src) of
                 Inl e \<Rightarrow> (l1, Inl e)
               | Inr rows \<Rightarrow> write_outputs cd symbol src rows m l1 xs))"

definition candle_days :: "'c codec \<Rightarrow> scope_arg \<Rightarrow> 'c silver \<Rightarrow> 'c candles \<Rightarrow> string \<Rightarrow> day_arg list \<Rightarrow> 'c candles \<times> candle_result list result" where
  "candle_days cd scope trades l symbol days =
     (case run_tracker (candle_day cd scope trades) l (map (Pair symbol) days) of
        (l', r) \<Rightarrow> (l', bindE r (\<lambda>rs. Inr (concat rs))))"

section \<open>The loaders of a replay\<close>

definition candle_row_of :: "string \<Rightarrow> string \<Rightarrow> int \<Rightarrow> int \<times> int \<Rightarrow> int option \<Rightarrow> string list \<Rightarrow> candle_row result" where
  \<comment> \<open>one row of \<open>_read_candle_file\<close>\<close>
  "candle_row_of symbol tf dur bounds prev row =
     (if length row \<noteq> length CANDLE_HEADER then Inl (replay_error ''columnas'')
      else if \<not> is_uint (row ! 0) \<or> \<not> is_uint (row ! 1) then Inl (replay_error ''timestamps'')
      else bindE (int_of (row ! 0)) (\<lambda>open_time.
      bindE (int_of (row ! 1)) (\<lambda>close_time.
      if row ! 2 \<noteq> symbol then Inl (replay_error ''symbol'')
      else if row ! 3 \<noteq> tf then Inl (replay_error ''timeframe'')
      else if close_time \<noteq> open_time + dur then Inl (replay_error ''close_time'')
      else if \<not> fst bounds \<le> open_time \<or> snd bounds < close_time then Inl (replay_error ''fuera del dia'')
      else if \<not> list_all is_dec (take 5 (drop 4 row)) then Inl (replay_error ''columna'')
      else if \<not> is_uint (row ! 9) then Inl (replay_error ''trade_count'')
      else let op = float_text (row ! 4); hi = float_text (row ! 5); lo = float_text (row ! 6); cl = float_text (row ! 7);
               vol = float_text (row ! 8)
      in if flt hi (fmax op cl) \<or> flt (fmin op cl) lo then Inl (replay_error ''OHLC'')
      else if flt vol (Fin 0) then Inl (replay_error ''volume'')
      else if (case prev of None \<Rightarrow> False | Some p \<Rightarrow> open_time \<le> p) then Inl (replay_error ''orden'')
      else bindE (int_of (row ! 9)) (\<lambda>n.
        Inr \<lparr>cr_open_time = open_time, cr_close_time = close_time, cr_open = op, cr_high = hi, cr_low = lo, cr_close = cl,
             cr_volume = vol, cr_trade_count = n\<rparr>))))"

fun read_candle_rows :: "string \<Rightarrow> string \<Rightarrow> int \<Rightarrow> int \<times> int \<Rightarrow> int option \<Rightarrow> string list list \<Rightarrow> candle_row list result" where
  "read_candle_rows symbol tf dur bounds prev [] = Inr []"
| "read_candle_rows symbol tf dur bounds prev (row # rows) =
     bindE (candle_row_of symbol tf dur bounds prev row) (\<lambda>c.
     bindE (read_candle_rows symbol tf dur bounds (Some (cr_open_time c)) rows) (\<lambda>cs. Inr (c # cs)))"

record 'c candle_file =
  cf_date :: date
  cf_timeframe :: string
  cf_content :: 'c
  cf_candle_count :: int

definition reading :: "unit result \<Rightarrow> unit result" where
  \<comment> \<open>the errors of the file that the loaders turn into their own\<close>
  "reading ending =
     (case ending of Inr _ \<Rightarrow> Inr () | Inl e \<Rightarrow> Inl (if read_error e then replay_error ''lectura fallida'' else e))"

definition read_candle_file :: "'c codec \<Rightarrow> string \<Rightarrow> int option \<Rightarrow> 'c candle_file \<Rightarrow> (candle_row list \<times> int option) result" where
  "read_candle_file cd symbol prev f =
     (case cd_stream cd (cf_content f) of
        ([], ending) \<Rightarrow> bindE (reading ending) (\<lambda>_. Inl (replay_error ''header''))
      | (header # body, ending) \<Rightarrow>
          if header \<noteq> CANDLE_HEADER then Inl (replay_error ''header'')
          else bindE (read_candle_rows symbol (cf_timeframe f) (duration_of (cf_timeframe f)) (day_bounds_ms (cf_date f)) prev body) (\<lambda>rows.
            bindE (reading ending) (\<lambda>_.
            if int (length rows) \<noteq> cf_candle_count f then Inl (replay_error ''candle_count'')
            else Inr (rows, if rows = [] then prev else Some (cr_open_time (last rows))))))"

fun load_files :: "'c codec \<Rightarrow> string \<Rightarrow> int option \<Rightarrow> 'c candle_file list \<Rightarrow> candle_row list result" where
  "load_files cd symbol prev [] = Inr []"
| "load_files cd symbol prev (f # fs) =
     bindE (read_candle_file cd symbol prev f) (\<lambda>(rows, prev').
     bindE (load_files cd symbol prev' fs) (\<lambda>rest. Inr (rows @ rest)))"

definition load_timeframe :: "'c codec \<Rightarrow> string \<Rightarrow> 'c candle_file list \<Rightarrow> string \<Rightarrow> candle_row list result" where
  \<comment> \<open>\<open>load_candles\<close> for one timeframe\<close>
  "load_timeframe cd symbol files tf =
     (let fs = filter (\<lambda>f. cf_timeframe f = tf) files in
      if fs = [] then Inl (replay_error ''sin archivos de candles'') else load_files cd symbol None fs)"

definition replay_row_of :: "string \<Rightarrow> int option \<Rightarrow> string list \<Rightarrow> replay_trade result" where
  \<comment> \<open>one row of \<open>iter_trades\<close>\<close>
  "replay_row_of symbol prev row =
     (if length row \<noteq> length SILVER_HEADER then Inl (replay_error ''columnas'')
      else if \<not> is_uint (row ! 0) then Inl (replay_error ''event_timestamp'')
      else bindE (int_of (row ! 0)) (\<lambda>ts.
      if row ! 1 \<noteq> symbol then Inl (replay_error ''symbol'')
      else if \<not> is_dec (row ! 2) \<or> \<not> is_dec (row ! 3) then Inl (replay_error ''price/quantity'')
      else let price = float_text (row ! 2); quantity = float_text (row ! 3) in
        if fle price (Fin 0) \<or> fle quantity (Fin 0) then Inl (replay_error ''price/quantity no positivos'')
        else if (case prev of None \<Rightarrow> False | Some p \<Rightarrow> ts < p) then Inl (replay_error ''orden'')
        else Inr \<lparr>rt_ts = ts, rt_price = price, rt_quantity = quantity\<rparr>))"

fun iter_rows :: "string \<Rightarrow> int option \<Rightarrow> string list list \<Rightarrow> replay_trade list \<times> int option \<times> unit result" where
  \<comment> \<open>the trades yielded before the rows end or one of them is refused\<close>
  "iter_rows symbol prev [] = ([], prev, Inr ())"
| "iter_rows symbol prev (row # rows) =
     (case replay_row_of symbol prev row of
        Inl e \<Rightarrow> ([], prev, Inl e)
      | Inr t \<Rightarrow> (case iter_rows symbol (Some (rt_ts t)) rows of (ts, p, r) \<Rightarrow> (t # ts, p, r)))"

fun iter_files :: "'c codec \<Rightarrow> string \<Rightarrow> int option \<Rightarrow> 'c list \<Rightarrow> replay_trade list \<times> unit result" where
  "iter_files cd symbol prev [] = ([], Inr ())"
| "iter_files cd symbol prev (c # cs) =
     (case cd_stream cd c of
        ([], ending) \<Rightarrow> ([], bindE (reading ending) (\<lambda>_. Inl (replay_error ''header'')))
      | (header # body, ending) \<Rightarrow>
          if header \<noteq> SILVER_HEADER then ([], Inl (replay_error ''header''))
          else case iter_rows symbol prev body of (ts, p, read) \<Rightarrow>
            (case bindE read (\<lambda>_. reading ending) of
               Inl e \<Rightarrow> (ts, Inl e)
             | Inr _ \<Rightarrow> case iter_files cd symbol p cs of (us, r) \<Rightarrow> (ts @ us, r)))"

definition iter_trades :: "'c codec \<Rightarrow> string \<Rightarrow> ('c \<times> int) list \<Rightarrow> replay_trade list \<times> unit result" where
  \<comment> \<open>the files with the row counts the dataset declares\<close>
  "iter_trades cd symbol files =
     (case iter_files cd symbol None (map fst files) of
        (ts, r) \<Rightarrow> (ts, bindE r (\<lambda>_. raise_if (int (length ts) \<noteq> sum_list (map snd files)) (replay_error ''row_count total''))))"

section \<open>Candles are groups\<close>

definition agg_of :: "rat \<Rightarrow> rat \<Rightarrow> trade_row list \<Rightarrow> agg" where
  \<comment> \<open>the trades of one interval, in order, summed up as a whole around their extremes\<close>
  "agg_of hi lo g =
     \<lparr>ag_open = fst (snd (hd g)),
      ag_high = fst (snd (hd (filter (\<lambda>t. price_of t = hi) g))), ag_high_d = hi,
      ag_low = fst (snd (hd (filter (\<lambda>t. price_of t = lo) g))), ag_low_d = lo,
      ag_close = fst (snd (last g)),
      ag_volume = foldl udec_add (udec_of_text (snd (snd (hd g)))) (map (\<lambda>t. udec_of_text (snd (snd t))) (tl g)),
      ag_count = length g\<rparr>"

definition group_agg :: "trade_row list \<Rightarrow> agg" where
  "group_agg g = agg_of (Max (set (map price_of g))) (Min (set (map price_of g))) g"

lemma group_agg_new: "group_agg [t] = new_agg t"
  by (cases t) (simp add: group_agg_def agg_of_def new_agg_def)

lemma group_agg_snoc:
  assumes "g \<noteq> []"
  shows "group_agg (g @ [t]) = extend_agg (group_agg g) t"
proof -
  let ?P = "price_of ` set g"
  define H L x where hlx: "H = Max ?P" "L = Min ?P" "x = price_of t"
  have P: "finite ?P" "?P \<noteq> {}" using assms by auto
  have ends: "Max (price_of ` set (g @ [t])) = max x H" "Min (price_of ` set (g @ [t])) = min x L"
    using P by (simp_all add: hlx)
  have order: "L \<le> H" unfolding hlx by (rule Min_le[OF P(1) Max_in[OF P]])
  have kept: "filter (\<lambda>u. price_of u = H) g \<noteq> []" "filter (\<lambda>u. price_of u = L) g \<noteq> []"
  proof -
    from Max_in[OF P] obtain u where "u \<in> set g" "price_of u = H" by (auto simp: hlx)
    then show "filter (\<lambda>u. price_of u = H) g \<noteq> []" by (auto simp: filter_empty_conv)
    from Min_in[OF P] obtain v where "v \<in> set g" "price_of v = L" by (auto simp: hlx)
    then show "filter (\<lambda>u. price_of u = L) g \<noteq> []" by (auto simp: filter_empty_conv)
  qed
  have new: "filter (\<lambda>u. price_of u = x) g = []" if "H < x \<or> x < L"
  proof -
    have "L \<le> price_of u \<and> price_of u \<le> H" if "u \<in> set g" for u
      unfolding hlx using that P(1) by (intro conjI Min_le Max_ge) simp_all
    then have "price_of u \<noteq> x" if "u \<in> set g" for u
      using that \<open>H < x \<or> x < L\<close> by fastforce
    then show ?thesis by (simp add: filter_empty_conv)
  qed
  have old: "group_agg g = agg_of H L g" by (simp add: group_agg_def hlx)
  have grown: "group_agg (g @ [t]) = agg_of (max x H) (min x L) (g @ [t])"
    unfolding group_agg_def set_map ends ..
  have ext: "extend_agg a t = (let a1 = (if ag_high_d a < x then a\<lparr>ag_high := fst (snd t), ag_high_d := x\<rparr> else a);
          a2 = (if x < ag_low_d a1 then a1\<lparr>ag_low := fst (snd t), ag_low_d := x\<rparr> else a1)
      in a2\<lparr>ag_close := fst (snd t), ag_volume := udec_add (ag_volume a2) (udec_of_text (snd (snd t))), ag_count := ag_count a2 + 1\<rparr>)" for a
    by (cases t) (simp add: extend_agg_def hlx)
  have at: "price_of t = x" by (simp add: hlx)
  consider "H < x" "\<not> x < L" | "\<not> H < x" "x < L" | "\<not> H < x" "\<not> x < L" using order by linarith
  then show ?thesis
  proof cases
    case 1
    then show ?thesis using new kept at assms by (simp add: old grown ext agg_of_def Let_def max_def min_def)
  next
    case 2
    then have "x \<noteq> H" using order by simp
    with 2 show ?thesis using new kept at assms by (simp add: old grown ext agg_of_def Let_def max_def min_def)
  next
    case 3
    then have m: "max x H = H" "min x L = L" by auto
    show ?thesis using 3 kept assms at by (simp add: old grown ext agg_of_def Let_def m)
  qed
qed

lemma group_agg_fold: "foldl extend_agg (new_agg t) ts = group_agg (t # ts)"
proof (induction ts rule: rev_induct)
  case Nil
  show ?case by (simp add: group_agg_new)
next
  case (snoc u ts)
  then show ?case using group_agg_snoc[of "t # ts" u] by simp
qed

definition interval :: "int \<Rightarrow> trade_row list \<Rightarrow> int \<Rightarrow> trade_row list" where
  \<comment> \<open>the trades of an interval\<close>
  "interval dur rows b = filter (\<lambda>t. bucket_of dur t = b) rows"

lemma bucket_content:
  "map_of (foldl (add_trade dur) [] rows) b = (if interval dur rows b = [] then None else Some (group_agg (interval dur rows b)))"
proof (induction rows rule: rev_induct)
  case Nil
  show ?case by (simp add: interval_def)
next
  case (snoc t rows)
  show ?case
  proof (cases "bucket_of dur t = b")
    case True
    then show ?thesis
      using snoc group_agg_snoc[of "interval dur rows b" t] group_agg_new[of t]
      by (auto simp: add_trade_def interval_def)
  next
    case False
    then show ?thesis using snoc by (simp add: add_trade_def interval_def)
  qed
qed

lemma bucket_keys_distinct: "distinct (map fst (foldl (add_trade dur) [] rows))"
  by (induction rows rule: rev_induct) (simp_all add: add_trade_def distinct_update)

lemma sorted_buckets:
  obtains bs where "sorted bs" "distinct bs" "set bs = bucket_of dur ` set rows"
    "sort_key fst (foldl (add_trade dur) [] rows) = map (\<lambda>b. (b, group_agg (interval dur rows b))) bs"
proof -
  let ?al = "foldl (add_trade dur) [] rows"
  let ?bs = "map fst (sort_key fst ?al)"
  have "mset ?bs = mset (map fst ?al)" by simp
  then have d: "distinct ?bs" using bucket_keys_distinct by (metis mset_eq_imp_distinct_iff)
  have keys: "set ?bs = bucket_of dur ` set rows"
  proof -
    have "b \<in> set ?bs \<longleftrightarrow> interval dur rows b \<noteq> []" for b
      using bucket_content[of dur rows b] by (auto simp: dom_map_of_conv_image_fst[symmetric] split: if_splits)
    moreover have "b \<in> bucket_of dur ` set rows \<longleftrightarrow> interval dur rows b \<noteq> []" for b
      by (auto simp: interval_def filter_empty_conv)
    ultimately show ?thesis by blast
  qed
  have "x = (fst x, group_agg (interval dur rows (fst x)))" if "x \<in> set ?al" for x
  proof -
    have "map_of ?al (fst x) = Some (snd x)" using that bucket_keys_distinct by (simp add: map_of_is_SomeI)
    then show ?thesis using bucket_content[of dur rows "fst x"] by (cases x) (simp split: if_splits)
  qed
  then have "map ((\<lambda>b. (b, group_agg (interval dur rows b))) \<circ> fst) (sort_key fst ?al) = sort_key fst ?al"
    by (intro map_idI) (simp flip: prod.collapse)
  then have "sort_key fst ?al = map (\<lambda>b. (b, group_agg (interval dur rows b))) ?bs" by simp
  with that[of ?bs] d keys show thesis by simp
qed

lemma interval_lengths:
  assumes "distinct bs" "set bs = bucket_of dur ` set rows"
  shows "sum_list (map (\<lambda>b. length (interval dur rows b)) bs) = length rows"
proof -
  have "sum_list (map (\<lambda>b. length (interval dur xs b)) bs) = length xs" if "bucket_of dur ` set xs \<subseteq> set bs" for xs
    using that
  proof (induction xs)
    case (Cons x xs)
    have "sum_list (map (\<lambda>b. length (interval dur (x # xs) b)) bs) =
        sum_list (map (\<lambda>b. (if b = bucket_of dur x then 1 else 0) + length (interval dur xs b)) bs)"
      by (rule arg_cong[where f = sum_list]) (auto simp: interval_def)
    also have "\<dots> = sum_list (map (\<lambda>b. if b = bucket_of dur x then 1 else 0) bs) + length xs"
      using Cons by (simp add: sum_list_addf)
    also have "sum_list (map (\<lambda>b. if b = bucket_of dur x then 1 else 0) bs) = (1 :: nat)"
      using Cons.prems assms(1) by (simp add: sum_list_distinct_conv_sum_set)
    finally show ?case by simp
  qed (simp add: interval_def)
  with assms(2) show ?thesis by simp
qed

lemma mapE_guard: "mapE (\<lambda>b. if P b then Inl (e :: py_error) else Inr (f b)) xs = Inr ys \<longleftrightarrow> (\<forall>x \<in> set xs. \<not> P x) \<and> ys = map f xs"
  by (induction xs arbitrary: ys) (auto simp: bindE_eq_Inr)

lemma aggregate_groups:
  assumes "aggregate rows dur symbol tf bounds = Inr cs"
  obtains bs where "sorted bs" "distinct bs" "set bs = bucket_of dur ` set rows"
    "\<forall>b \<in> set bs. fst bounds \<le> b \<and> b + dur \<le> snd bounds"
    "cs = map (\<lambda>b. candle_line dur symbol tf (b, group_agg (interval dur rows b))) bs"
proof -
  obtain bs where bs: "sorted bs" "distinct bs" "set bs = bucket_of dur ` set rows"
    "sort_key fst (foldl (add_trade dur) [] rows) = map (\<lambda>b. (b, group_agg (interval dur rows b))) bs"
    by (rule sorted_buckets)
  have "\<forall>b \<in> set bs. fst bounds \<le> b \<and> b + dur \<le> snd bounds"
    "cs = map (\<lambda>b. candle_line dur symbol tf (b, group_agg (interval dur rows b))) bs"
    using assms by (auto simp: aggregate_def bs(4) mapE_guard comp_def not_less)
  with that bs show thesis by blast
qed

section \<open>Texts a loader accepts\<close>

lemma newline_no_digit: "\<not> is_digit (CHR 0x0A)"
  by (simp add: is_digit_def PyText.digits_def)

lemma point_no_digit: "\<not> is_digit (CHR ''.'')"
  by (simp add: is_digit_def PyText.digits_def)

lemma line_body_digits: "s \<noteq> [] \<Longrightarrow> is_digit (last s) \<Longrightarrow> line_body s = s"
  using newline_no_digit by (auto simp: line_body_def)

lemma last_digit: "list_all is_digit s \<Longrightarrow> s \<noteq> [] \<Longrightarrow> is_digit (last s)"
  by (simp add: list_all_iff)

lemma nat_text_all_digits [simp]: "list_all is_digit (nat_text n)"
  using nat_text_digits[of n] by (auto simp: list_all_iff is_digit_def)

lemma nat_text_uint [simp]: "is_uint (nat_text n)"
  using line_body_digits[OF nat_text_nonempty last_digit[OF nat_text_all_digits nat_text_nonempty]]
  by (simp add: is_uint_def nat_text_nonempty)

lemma filter_digits: "list_all is_digit s \<Longrightarrow> filter is_digit s = s"
  by (simp add: list_all_iff filter_id_conv)

lemma int_of_nat_text: "length (nat_text n) \<le> 4300 \<Longrightarrow> int_of (nat_text n) = Inr (int n)"
  by (simp add: int_of_def filter_digits nat_text_value)

lemma length_nat_text: "n < 10 ^ Suc k \<Longrightarrow> length (nat_text n) \<le> Suc k"
proof (induction k arbitrary: n)
  case 0
  then show ?case by (subst nat_text.simps) simp
next
  case (Suc k)
  show ?case
  proof (cases "n < 10")
    case True
    then show ?thesis by (subst nat_text.simps) simp
  next
    case False
    have "n div 10 < 10 ^ Suc k" using Suc.prems by (simp add: less_mult_imp_div_less mult.commute)
    from Suc.IH[OF this] False show ?thesis by (subst nat_text.simps) simp
  qed
qed

lemma is_dec_whole: "list_all is_digit a \<Longrightarrow> a \<noteq> [] \<Longrightarrow> is_dec a"
  using line_body_digits[of a] last_digit[of a] by (simp add: is_dec_def Let_def list_all_iff takeWhile_eq_all_conv[THEN iffD2])

lemma is_dec_point:
  assumes "list_all is_digit a" "a \<noteq> []" "list_all is_digit b" "b \<noteq> []"
  shows "is_dec (a @ ''.'' @ b)"
proof -
  have "line_body (a @ ''.'' @ b) = a @ ''.'' @ b"
    using assms last_digit[of b] by (intro line_body_digits) auto
  moreover have "takeWhile is_digit (a @ ''.'' @ b) = a" "dropWhile is_digit (a @ ''.'' @ b) = ''.'' @ b"
    using assms(1) point_no_digit by (simp_all add: list_all_iff takeWhile_append2 dropWhile_append2)
  ultimately show ?thesis using assms by (simp add: is_dec_def Let_def)
qed

lemma udec_text_dec [simp]: "is_dec (udec_text d)"
proof -
  let ?s = "nat_text (ud_coefficient d)" and ?p = "nat (- ud_exponent d)"
  have z: "list_all is_digit (replicate n (CHR ''0''))" for n by (simp add: list_all_iff is_digit_def PyText.digits_def)
  have parts: "list_all is_digit (take n ?s)" "list_all is_digit (drop n ?s)" for n
    using nat_text_all_digits[of "ud_coefficient d"] by (metis append_take_drop_id list_all_append)+
  consider "0 \<le> ud_exponent d" | "ud_exponent d < 0" "length ?s \<le> ?p" | "ud_exponent d < 0" "?p < length ?s" by linarith
  then show ?thesis
  proof cases
    case 1
    then show ?thesis using z by (simp add: udec_text_def Let_def is_dec_whole nat_text_nonempty)
  next
    case 2
    then have "is_dec (''0'' @ ''.'' @ replicate (?p - length ?s) (CHR ''0'') @ ?s)"
      using z z[of 1] by (intro is_dec_point) (simp_all add: nat_text_nonempty)
    with 2 show ?thesis by (simp add: udec_text_def Let_def)
  next
    case 3
    then have "is_dec (take (length ?s - ?p) ?s @ ''.'' @ drop (length ?s - ?p) ?s)"
      using parts by (intro is_dec_point) auto
    with 3 show ?thesis by (simp add: udec_text_def Let_def)
  qed
qed

lemma udec_value_nonneg: "0 \<le> udec_value d"
  by (simp add: udec_value_def)

lemma float_text_mono: "udec_value (udec_of_text a) \<le> udec_value (udec_of_text b) \<Longrightarrow> fle (float_text a) (float_text b)"
  unfolding float_text_def by (rule binary64.rd_mono)

lemma float_text_nonneg: "\<not> flt (float_text a) (Fin 0)"
  using binary64.rd_nonneg[OF udec_value_nonneg, of "udec_of_text a"] flt_asym by (auto simp: float_text_def)

section \<open>What the loaders return\<close>

definition well_formed_row :: "int \<Rightarrow> int \<times> int \<Rightarrow> candle_row \<Rightarrow> bool" where
  "well_formed_row dur bounds c \<longleftrightarrow>
     cr_close_time c = cr_open_time c + dur \<and> fst bounds \<le> cr_open_time c \<and> cr_close_time c \<le> snd bounds \<and>
     \<not> flt (cr_high c) (fmax (cr_open c) (cr_close c)) \<and> \<not> flt (fmin (cr_open c) (cr_close c)) (cr_low c) \<and>
     \<not> flt (cr_volume c) (Fin 0)"

lemma candle_row_of_Inr:
  assumes "candle_row_of symbol tf dur bounds prev row = Inr c"
  shows "well_formed_row dur bounds c \<and> (\<forall>p. prev = Some p \<longrightarrow> p < cr_open_time c)"
  using assms by (auto simp: candle_row_of_def Let_def bindE_eq_Inr well_formed_row_def split: if_splits option.splits)

lemma read_candle_rows_Inr:
  "read_candle_rows symbol tf dur bounds prev rows = Inr cs \<Longrightarrow>
     list_all (well_formed_row dur bounds) cs \<and> sorted_wrt (<) (map cr_open_time cs) \<and>
     (\<forall>p. prev = Some p \<longrightarrow> list_all (\<lambda>c. p < cr_open_time c) cs)"
proof (induction rows arbitrary: prev cs)
  case (Cons row rows)
  then obtain c cs' where c: "candle_row_of symbol tf dur bounds prev row = Inr c"
    "read_candle_rows symbol tf dur bounds (Some (cr_open_time c)) rows = Inr cs'" "cs = c # cs'"
    by (auto simp: bindE_eq_Inr)
  note ih = Cons.IH[OF c(2)] and one = candle_row_of_Inr[OF c(1)]
  from ih have later: "\<forall>x \<in> set cs'. cr_open_time c < cr_open_time x" by (simp add: list_all_iff)
  show ?case
  proof (intro conjI allI impI)
    show "list_all (well_formed_row dur bounds) cs" using ih one c(3) by simp
    show "sorted_wrt (<) (map cr_open_time cs)" using ih later c(3) by simp
    fix p assume "prev = Some p"
    then have "p < cr_open_time c" using one by simp
    with later show "list_all (\<lambda>c. p < cr_open_time c) cs" using c(3) by (force simp: list_all_iff)
  qed
qed simp

lemma read_candle_file_Inr:
  assumes "read_candle_file cd symbol prev f = Inr (rows, prev')"
  shows "list_all (well_formed_row (duration_of (cf_timeframe f)) (day_bounds_ms (cf_date f))) rows \<and>
    sorted_wrt (<) (map cr_open_time rows) \<and> (\<forall>p. prev = Some p \<longrightarrow> list_all (\<lambda>c. p < cr_open_time c) rows) \<and>
    prev' = (if rows = [] then prev else Some (cr_open_time (last rows)))"
proof -
  obtain header body ending where content: "cd_stream cd (cf_content f) = (header # body, ending)"
    using assms by (auto simp: read_candle_file_def bindE_eq_Inr split: prod.splits list.splits)
  with assms have "header = CANDLE_HEADER" by (auto simp: read_candle_file_def split: if_splits)
  with content assms obtain rs where r: "read_candle_rows symbol (cf_timeframe f) (duration_of (cf_timeframe f)) (day_bounds_ms (cf_date f)) prev body = Inr rs"
    "(if int (length rs) \<noteq> cf_candle_count f then Inl (replay_error ''candle_count'')
      else Inr (rs, if rs = [] then prev else Some (cr_open_time (last rs)))) = Inr (rows, prev')"
    unfolding read_candle_file_def content prod.case list.case by (auto simp: bindE_eq_Inr split: if_splits)
  then have "rs = rows" "prev' = (if rows = [] then prev else Some (cr_open_time (last rows)))"
    by (auto split: if_splits)
  with read_candle_rows_Inr[OF r(1)] show ?thesis by simp
qed

lemma load_files_Inr:
  "load_files cd symbol prev fs = Inr rows \<Longrightarrow> (\<And>f. f \<in> set fs \<Longrightarrow> cf_timeframe f = tf) \<Longrightarrow>
     list_all (\<lambda>c. \<exists>bounds. well_formed_row (duration_of tf) bounds c) rows \<and> sorted_wrt (<) (map cr_open_time rows) \<and>
     (\<forall>p. prev = Some p \<longrightarrow> list_all (\<lambda>c. p < cr_open_time c) rows)"
proof (induction fs arbitrary: prev rows)
  case (Cons f fs)
  from Cons.prems(1) obtain rs p rest where r: "read_candle_file cd symbol prev f = Inr (rs, p)"
    "load_files cd symbol p fs = Inr rest" "rows = rs @ rest" by (auto simp: bindE_eq_Inr)
  have tf: "cf_timeframe f = tf" using Cons.prems(2) by simp
  note one = read_candle_file_Inr[OF r(1)] and ih = Cons.IH[OF r(2) Cons.prems(2)]
  have wf: "list_all (\<lambda>c. \<exists>bounds. well_formed_row (duration_of tf) bounds c) rs"
    using one tf unfolding list_all_iff by blast
  show ?case
  proof (cases "rs = []")
    case True
    with one ih r(3) show ?thesis by simp
  next
    case False
    then have p: "p = Some (cr_open_time (last rs))" using one by simp
    then have later: "list_all (\<lambda>c. cr_open_time (last rs) < cr_open_time c) rest" using ih by simp
    have up: "cr_open_time c \<le> cr_open_time (last rs)" if c: "c \<in> set rs" for c
    proof -
      have "rs = butlast rs @ [last rs]" using False by simp
      then have "sorted_wrt (<) (map cr_open_time (butlast rs) @ [cr_open_time (last rs)])" "c \<in> set (butlast rs @ [last rs])"
        using one c by (metis list.simps(8,9) map_append, metis)
      then show ?thesis by (auto simp: sorted_wrt_append)
    qed
    have between: "cr_open_time a < cr_open_time b" if "a \<in> set rs" "b \<in> set rest" for a b
      using up[OF that(1)] later that(2) by (fastforce simp: list_all_iff)
    have "sorted_wrt (<) (map cr_open_time rows)" using one ih between r(3) by (auto simp: sorted_wrt_append)
    moreover have "list_all (\<lambda>c. q < cr_open_time c) rows" if "prev = Some q" for q
    proof -
      have "q < cr_open_time (last rs)" using one that False by (auto simp: list_all_iff)
      then show ?thesis using one that later r(3) by (fastforce simp: list_all_iff)
    qed
    ultimately show ?thesis using wf ih r(3) by simp
  qed
qed simp

lemma loaded_candle:
  assumes "well_formed_row dur bounds c"
  shows "\<exists>d. domain_candle c = Inr d"
  using assms by (auto simp: well_formed_row_def domain_candle_def make_candle_def candle_check_def Let_def)

lemma mapE_total: "list_all (\<lambda>x. \<exists>y. f x = Inr y) xs \<Longrightarrow> \<exists>ys. mapE f xs = Inr ys"
  by (induction xs) auto

section \<open>What is written is read\<close>

definition readable_trade :: "int \<times> int \<Rightarrow> trade_row \<Rightarrow> bool" where
  "readable_trade bounds t \<longleftrightarrow>
     0 \<le> fst t \<and> fst bounds \<le> fst t \<and> fst t < snd bounds \<and> is_dec (fst (snd t)) \<and> is_dec (snd (snd t))"

lemma int_of_nonneg: "int_of s = Inr i \<Longrightarrow> 0 \<le> i"
  by (auto simp: int_of_def Let_def split: if_splits)

lemma trade_row_of_Inr: "trade_row_of source_file symbol bounds prev row = Inr (t, key) \<Longrightarrow> readable_trade bounds t"
  by (auto simp: trade_row_of_def bindE_eq_Inr readable_trade_def int_of_nonneg split: if_splits)

lemma read_trade_rows_Inr:
  "read_trade_rows source_file symbol bounds prev body = Inr rows \<Longrightarrow> list_all (readable_trade bounds) rows"
  by (induction body arbitrary: prev rows) (auto simp: bindE_eq_Inr dest: trade_row_of_Inr)

lemma read_trades_Inr:
  assumes "read_trades cd c source_file symbol bounds expected = Inr rows"
  shows "list_all (readable_trade bounds) rows \<and> rows \<noteq> []"
proof -
  obtain csv ending where csv: "cd_stream cd c = (csv, ending)" by (cases "cd_stream cd c")
  from assms csv obtain header body where "csv = header # body"
    unfolding read_trades_def by (cases csv) (auto simp: bindE_eq_Inr)
  with assms csv show ?thesis
    unfolding read_trades_def by (auto simp: bindE_eq_Inr dest: read_trade_rows_Inr split: if_splits)
qed

lemma int_text_reads: 
  assumes "0 \<le> i" "i < 10 ^ 18"
  shows "is_uint (int_text i)" "int_of (int_text i) = Inr i"
proof -
  have "nat i < 10 ^ Suc 17" using assms by simp
  then have "length (nat_text (nat i)) \<le> 4300" using length_nat_text[of "nat i" 17] by simp
  with assms(1) show "is_uint (int_text i)" "int_of (int_text i) = Inr i"
    by (simp_all add: int_text_def int_of_nat_text)
qed

definition prices_of :: "trade_row list \<Rightarrow> string set" where
  "prices_of g = (\<lambda>t. fst (snd t)) ` set g"

lemma first_with:
  assumes "x \<in> price_of ` set g"
  shows "fst (snd (hd (filter (\<lambda>t. price_of t = x) g))) \<in> prices_of g \<and>
    udec_value (udec_of_text (fst (snd (hd (filter (\<lambda>t. price_of t = x) g))))) = x"
proof -
  have "filter (\<lambda>t. price_of t = x) g \<noteq> []" using assms by (auto simp: filter_empty_conv)
  then have "hd (filter (\<lambda>t. price_of t = x) g) \<in> set (filter (\<lambda>t. price_of t = x) g)" by (rule hd_in_set)
  then show ?thesis by (auto simp: prices_of_def price_of_def)
qed

lemma group_prices:
  assumes "g \<noteq> []"
  defines "a \<equiv> group_agg g"
  shows "{ag_open a, ag_high a, ag_low a, ag_close a} \<subseteq> prices_of g"
    and "p \<in> prices_of g \<Longrightarrow> udec_value (udec_of_text (ag_low a)) \<le> udec_value (udec_of_text p)"
    and "p \<in> prices_of g \<Longrightarrow> udec_value (udec_of_text p) \<le> udec_value (udec_of_text (ag_high a))"
proof -
  let ?P = "price_of ` set g"
  have P: "finite ?P" "?P \<noteq> {}" using assms(1) by auto
  note hi = first_with[OF Max_in[OF P]] and lo = first_with[OF Min_in[OF P]]
  have ends: "fst (snd (hd g)) \<in> prices_of g" "fst (snd (last g)) \<in> prices_of g"
    using assms(1) by (auto simp: prices_of_def)
  show "{ag_open a, ag_high a, ag_low a, ag_close a} \<subseteq> prices_of g"
    using hi lo ends by (simp add: a_def group_agg_def agg_of_def)
  assume "p \<in> prices_of g"
  then have p: "udec_value (udec_of_text p) \<in> ?P" by (auto simp: prices_of_def price_of_def)
  show "udec_value (udec_of_text (ag_low a)) \<le> udec_value (udec_of_text p)"
    using lo Min_le[OF P(1) p] by (simp add: a_def group_agg_def agg_of_def)
  show "udec_value (udec_of_text p) \<le> udec_value (udec_of_text (ag_high a))"
    using hi Max_ge[OF P(1) p] by (simp add: a_def group_agg_def agg_of_def)
qed

lemma group_ohlc:
  assumes "g \<noteq> []"
  defines "a \<equiv> group_agg g"
  shows "\<not> flt (float_text (ag_high a)) (fmax (float_text (ag_open a)) (float_text (ag_close a)))"
    and "\<not> flt (fmin (float_text (ag_open a)) (float_text (ag_close a))) (float_text (ag_low a))"
proof -
  note gp = group_prices[OF assms(1), folded a_def]
  have "fle (float_text p) (float_text (ag_high a))" "fle (float_text (ag_low a)) (float_text p)" if "p \<in> prices_of g" for p
    using gp(2,3)[OF that] by (simp_all add: float_text_mono)
  with gp(1) show "\<not> flt (float_text (ag_high a)) (fmax (float_text (ag_open a)) (float_text (ag_close a)))"
    "\<not> flt (fmin (float_text (ag_open a)) (float_text (ag_close a))) (float_text (ag_low a))"
    by (auto simp: fmax_def fmin_def dest: flt_asym)
qed

lemma candle_line_is_read:
  assumes "g \<noteq> []" "list_all (readable_trade bounds) g" "0 \<le> b" "0 < dur" "fst bounds \<le> b" "b + dur \<le> snd bounds"
    "snd bounds < 10 ^ 18" "length g < 10 ^ 18" "\<forall>p \<in> set_option prev. p < b"
  obtains c where "candle_row_of symbol tf dur bounds prev (candle_line dur symbol tf (b, group_agg g)) = Inr c"
    "cr_open_time c = b" "cr_trade_count c = int (length g)"
proof -
  let ?a = "group_agg g"
  have "is_dec p" if "p \<in> prices_of g" for p
    using that assms(2) by (auto simp: prices_of_def readable_trade_def list_all_iff)
  then have decs: "is_dec (ag_open ?a)" "is_dec (ag_high ?a)" "is_dec (ag_low ?a)" "is_dec (ag_close ?a)"
    using group_prices(1)[OF assms(1)] by auto
  have line: "candle_line dur symbol tf (b, ?a) = [int_text b, int_text (b + dur), symbol, tf, ag_open ?a, ag_high ?a,
      ag_low ?a, ag_close ?a, udec_text (ag_volume ?a), int_text (int (length g))]"
    by (simp add: candle_line_def int_text_def group_agg_def agg_of_def)
  have reads: "is_uint (int_text b)" "is_uint (int_text (b + dur))" "is_uint (int_text (int (length g)))"
    "int_of (int_text b) = Inr b" "int_of (int_text (b + dur)) = Inr (b + dur)" "int_of (int_text (int (length g))) = Inr (int (length g))"
    using assms(3,4,6,7,8) by (simp_all add: int_text_reads)
  have after: "\<not> (case prev of None \<Rightarrow> False | Some p \<Rightarrow> b \<le> p)" using assms(9) by (auto split: option.splits)
  show thesis
    by (rule that)
      (simp add: candle_row_of_def line Let_def CANDLE_HEADER_def reads decs assms(5) not_less[THEN iffD2, OF assms(6)] after
          group_ohlc[OF assms(1)] float_text_nonneg, simp_all)
qed

lemma interval_readable: "list_all P rows \<Longrightarrow> list_all P (interval dur rows b)"
  by (auto simp: interval_def list_all_iff)

lemma interval_length: "length (interval dur rows b) \<le> length rows"
  by (simp add: interval_def)

lemma lines_are_read:
  assumes "sorted_wrt (<) bs" "\<forall>b \<in> set bs. 0 \<le> b \<and> fst bounds \<le> b \<and> b + dur \<le> snd bounds \<and> interval dur rows b \<noteq> []"
    "\<forall>p \<in> set_option prev. \<forall>b \<in> set bs. p < b"
    "list_all (readable_trade bounds) rows" "0 < dur" "snd bounds < 10 ^ 18" "length rows < 10 ^ 18"
  shows "\<exists>loaded. read_candle_rows symbol tf dur bounds prev
      (map (\<lambda>b. candle_line dur symbol tf (b, group_agg (interval dur rows b))) bs) = Inr loaded \<and>
    map cr_open_time loaded = bs \<and> map cr_trade_count loaded = map (\<lambda>b. int (length (interval dur rows b))) bs"
  using assms(1-3)
proof (induction bs arbitrary: prev)
  case (Cons b bs)
  have "length (interval dur rows b) < 10 ^ 18" using interval_length[of dur rows b] assms(7) by linarith
  then obtain c where c: "candle_row_of symbol tf dur bounds prev (candle_line dur symbol tf (b, group_agg (interval dur rows b))) = Inr c"
    "cr_open_time c = b" "cr_trade_count c = int (length (interval dur rows b))"
    using Cons.prems assms(5,6) interval_readable[OF assms(4)]
    by (elim candle_line_is_read[where g = "interval dur rows b", rotated -1]) auto
  from Cons.IH[of "Some b"] Cons.prems c show ?case by auto
qed simp

section \<open>A small day\<close>

definition three_trades :: "trade_row list" where
  "three_trades = [(10, ''1.5'', ''2''), (20, ''1.25'', ''0.5''), (60001, ''2'', ''1'')]"

lemma aggregate_total:
  assumes "\<forall>b \<in> bucket_of dur ` set rows. fst bounds \<le> b \<and> b + dur \<le> snd bounds"
  shows "\<exists>cs. aggregate rows dur symbol tf bounds = Inr cs"
proof -
  obtain bs where "set bs = bucket_of dur ` set rows"
    "sort_key fst (foldl (add_trade dur) [] rows) = map (\<lambda>b. (b, group_agg (interval dur rows b))) bs"
    by (rule sorted_buckets)
  with assms show ?thesis by (auto simp: aggregate_def mapE_guard not_less)
qed

lemma three_trades_candles: "\<exists>cs. aggregate three_trades 60000 ''BTC'' ''1m'' (0, 86400000) = Inr cs"
  by (rule aggregate_total) (simp add: three_trades_def bucket_of_def)

definition one_candle :: "string list list candle_file" where
  "one_candle =
     \<lparr>cf_date = Date 1970 1 1, cf_timeframe = ''1d'',
      cf_content = [CANDLE_HEADER, [''0'', ''86400000'', ''BTC'', ''1d'', ''1.5'', ''1.5'', ''1.5'', ''1.5'', ''3.5'', ''3'']],
      cf_candle_count = 1\<rparr>"

lemma one_candle_uint: "is_uint ''0''" "is_uint ''86400000''" "is_uint ''3''"
  by code_simp+

lemma one_candle_dec: "is_dec ''1.5''" "is_dec ''3.5''"
  by code_simp+

lemma one_candle_int: "int_of ''0'' = Inr 0" "int_of ''86400000'' = Inr 86400000" "int_of ''3'' = Inr 3"
  by (simp_all add: int_of_def digit_value_def is_digit_def PyText.digits_def)

lemma one_candle_day: "day_bounds_ms (Date 1970 1 1) = (0, 86400000)"
  by code_simp

lemma one_candle_duration: "duration_of ''1d'' = 86400000"
  by code_simp

lemma one_candle_row:
  "\<exists>c. candle_row_of ''BTC'' ''1d'' 86400000 (0, 86400000) None
     [''0'', ''86400000'', ''BTC'', ''1d'', ''1.5'', ''1.5'', ''1.5'', ''1.5'', ''3.5'', ''3''] = Inr c"
  by (simp add: candle_row_of_def Let_def CANDLE_HEADER_def one_candle_uint one_candle_dec one_candle_int
      float_text_nonneg fmax_def fmin_def)

lemma one_candle_loads: "\<exists>rows. load_timeframe plain_codec ''BTC'' [one_candle] ''1d'' = Inr rows \<and> length rows = 1"
proof -
  obtain c where c: "candle_row_of ''BTC'' ''1d'' 86400000 (0, 86400000) None
     [''0'', ''86400000'', ''BTC'', ''1d'', ''1.5'', ''1.5'', ''1.5'', ''1.5'', ''3.5'', ''3''] = Inr c"
    using one_candle_row by blast
  show ?thesis
    by (simp add: load_timeframe_def one_candle_def read_candle_file_def reading_def plain_codec_def one_candle_day one_candle_duration c)
qed

definition small_day :: "string list list candle_source" where
  "small_day =
     \<lparr>cs_day = Date 1970 1 1, cs_partition = ''p'',
      cs_content = [SILVER_HEADER, [''10'', ''BTC'', ''1.5'', ''2'', ''buy'', ''7'', '''', ''p'', replicate 64 (CHR ''0''), ''1''],
                    [''20'', ''BTC'', ''1.25'', ''0.5'', ''sell'', ''8'', ''3'', ''p'', replicate 64 (CHR ''0''), ''2'']],
      cs_sha = '''', cs_rows = 2\<rparr>"

lemma small_day_read:
  "read_trades plain_codec (cs_content small_day) (cs_partition small_day) ''BTC'' (day_bounds_ms (cs_day small_day)) (cs_rows small_day) =
     Inr [(10, ''1.5'', ''2''), (20, ''1.25'', ''0.5'')]"
  by code_simp

lemma build_candles_total:
  assumes "\<forall>b \<in> bucket_of (duration_of tf) ` set rows. 0 \<le> b \<and> b < 10 ^ 18 \<and>
      fst (day_bounds_ms (cs_day src)) \<le> b \<and> b + duration_of tf \<le> snd (day_bounds_ms (cs_day src))"
    and "rows \<noteq> []"
  shows "\<exists>c e. build_candles plain_codec symbol src rows tf = Inr (c, e)"
proof -
  let ?dur = "duration_of tf" and ?bounds = "day_bounds_ms (cs_day src)"
  obtain cs where cs: "aggregate rows ?dur symbol tf ?bounds = Inr cs" using aggregate_total assms(1) by blast
  then obtain bs where bs: "set bs = bucket_of ?dur ` set rows"
    "cs = map (\<lambda>b. candle_line ?dur symbol tf (b, group_agg (interval ?dur rows b))) bs"
    by (rule aggregate_groups)
  have "\<exists>i. int_of (hd x) = Inr i" if "x \<in> set cs" for x
    using that bs assms(1) int_text_reads(2) by (fastforce simp: candle_line_def)
  moreover have "cs \<noteq> []" using bs assms(2) by auto
  ultimately obtain lo hi where "int_of (hd (hd cs)) = Inr lo" "int_of (hd (last cs)) = Inr hi"
    using hd_in_set last_in_set by metis
  with cs show ?thesis
    by (simp add: build_candles_def Let_def verify_candles_def validate_gzip_def plain_codec_def raise_if_def)
qed

lemma small_day_built: "\<exists>c e. build_candles plain_codec ''BTC'' small_day [(10, ''1.5'', ''2''), (20, ''1.25'', ''0.5'')] ''1d'' = Inr (c, e)"
  by (rule build_candles_total) (simp_all add: bucket_of_def one_candle_duration small_day_def one_candle_day)

lemma small_day_end: "snd (day_bounds_ms (cs_day small_day)) < 10 ^ 18"
  by code_simp

section \<open>Properties\<close>

text \<open>
  C21 The candles of a day are the groups of its trades: one candle per interval that has
  trades, in the order of time, inside the day; open and close are its first and last price,
  high and low the first extreme, the volume its sum under the Decimal context, and every trade
  is counted once.
\<close>

theorem candles_are_the_groups:
  assumes "aggregate rows dur symbol tf bounds = Inr cs"
  shows "\<exists>bs. sorted bs \<and> distinct bs \<and> set bs = bucket_of dur ` set rows \<and>
    list_all (\<lambda>b. fst bounds \<le> b \<and> b + dur \<le> snd bounds) bs \<and>
    cs = map (\<lambda>b. candle_line dur symbol tf (b, group_agg (interval dur rows b))) bs \<and>
    sum_list (map (\<lambda>b. ag_count (group_agg (interval dur rows b))) bs) = length rows"
proof -
  obtain bs where bs: "sorted bs" "distinct bs" "set bs = bucket_of dur ` set rows"
    "\<forall>b \<in> set bs. fst bounds \<le> b \<and> b + dur \<le> snd bounds"
    "cs = map (\<lambda>b. candle_line dur symbol tf (b, group_agg (interval dur rows b))) bs"
    using assms by (rule aggregate_groups)
  then have "sum_list (map (\<lambda>b. ag_count (group_agg (interval dur rows b))) bs) = length rows"
    using interval_lengths[OF bs(2,3)] by (simp add: group_agg_def agg_of_def)
  with bs show ?thesis by (intro exI[of _ bs]) (simp add: list_all_iff)
qed

lemma candles_are_the_groups_witness:
  "\<exists>cs bs. aggregate three_trades 60000 ''BTC'' ''1m'' (0, 86400000) = Inr cs \<and> sorted bs \<and> set bs = {0, 60000} \<and>
     sum_list (map (\<lambda>b. ag_count (group_agg (interval 60000 three_trades b))) bs) = 3"
proof -
  obtain cs where "aggregate three_trades 60000 ''BTC'' ''1m'' (0, 86400000) = Inr cs"
    using three_trades_candles by blast
  moreover have "bucket_of 60000 ` set three_trades = {0, 60000}" "length three_trades = 3"
    by (simp_all add: three_trades_def bucket_of_def)
  ultimately show ?thesis using candles_are_the_groups[of three_trades 60000 "''BTC''" "''1m''" "(0, 86400000)" cs] by auto
qed

text \<open>
  C22 What a transformation writes is what the loader accepts: the file built for a day's
  trades is read back by the loader, one row per interval in order, and the trade counts of the
  rows add up to the trades of the day.
\<close>

theorem written_candles_are_loaded:
  assumes "\<forall>rs. cd_rows cd (cd_write cd rs) = Inr rs"
    and "read_trades cd (cs_content src) (cs_partition src) symbol (day_bounds_ms (cs_day src)) (cs_rows src) = Inr rows"
    and "build_candles cd symbol src rows tf = Inr (c, e)" and "tf \<in> set TIMEFRAMES"
    and "snd (day_bounds_ms (cs_day src)) < 10 ^ 18" and "length rows < 10 ^ 18"
    and "\<forall>p \<in> set_option prev. p < fst (day_bounds_ms (cs_day src))"
  shows "\<exists>loaded. read_candle_file cd symbol prev
      \<lparr>cf_date = cs_day src, cf_timeframe = tf, cf_content = c, cf_candle_count = get_or (ce_candle_count e) 0\<rparr> =
        Inr (loaded, Some (cr_open_time (last loaded))) \<and> loaded \<noteq> [] \<and>
    set (map cr_open_time loaded) = bucket_of (duration_of tf) ` set rows \<and>
    sum_list (map cr_trade_count loaded) = int (length rows)"
proof -
  let ?dur = "duration_of tf" and ?bounds = "day_bounds_ms (cs_day src)"
  obtain cs where cs: "aggregate rows ?dur symbol tf ?bounds = Inr cs" "c = cd_write cd (CANDLE_HEADER # cs)"
    "get_or (ce_candle_count e) 0 = int (length cs)"
    using assms(3) by (auto simp: build_candles_def bindE_eq_Inr Let_def get_or_def)
  obtain bs where bs: "sorted bs" "distinct bs" "set bs = bucket_of ?dur ` set rows"
    "\<forall>b \<in> set bs. fst ?bounds \<le> b \<and> b + ?dur \<le> snd ?bounds"
    "cs = map (\<lambda>b. candle_line ?dur symbol tf (b, group_agg (interval ?dur rows b))) bs"
    using cs(1) by (rule aggregate_groups)
  have dur: "0 < ?dur" using assms(4) by (auto simp: TIMEFRAMES_def duration_of_def DURATION_MS_def)
  have ok: "list_all (readable_trade ?bounds) rows" "rows \<noteq> []" using read_trades_Inr[OF assms(2)] by auto
  have "0 \<le> b \<and> interval ?dur rows b \<noteq> []" if "b \<in> set bs" for b
    using that bs(3) ok(1) dur
    by (auto simp: interval_def filter_empty_conv bucket_of_def readable_trade_def list_all_iff pos_imp_zdiv_nonneg_iff)
  then obtain loaded where l: "read_candle_rows symbol tf ?dur ?bounds prev cs = Inr loaded"
    "map cr_open_time loaded = bs" "map cr_trade_count loaded = map (\<lambda>b. int (length (interval ?dur rows b))) bs"
    using lines_are_read[of bs ?bounds ?dur rows prev symbol tf] bs ok dur assms(5-7)
    by (fastforce simp: strict_sorted_iff)
  have ne: "loaded \<noteq> []" using l(2) bs(3) ok(2) by auto
  have "sum_list (map cr_trade_count loaded) = int (sum_list (map (\<lambda>b. length (interval ?dur rows b)) bs))"
    unfolding l(3) by (induction bs) simp_all
  then have total: "sum_list (map cr_trade_count loaded) = int (length rows)"
    by (simp add: interval_lengths[OF bs(2,3)])
  have "int (length loaded) = get_or (ce_candle_count e) 0" using cs(3) bs(5) arg_cong[OF l(2), of length] by simp
  moreover have "cd_stream cd c = (CANDLE_HEADER # cs, Inr ())"
    using spec[OF assms(1), of "CANDLE_HEADER # cs"] unfolding cs(2)
    by (cases "cd_stream cd (cd_write cd (CANDLE_HEADER # cs))") (auto simp: cd_rows_def bindE_eq_Inr)
  ultimately show ?thesis using l(1,2) ne total bs(3) by (simp add: read_candle_file_def reading_def flip: set_map)
qed

lemma written_candles_are_loaded_witness:
  "\<exists>c e loaded. build_candles plain_codec ''BTC'' small_day [(10, ''1.5'', ''2''), (20, ''1.25'', ''0.5'')] ''1d'' = Inr (c, e) \<and>
     read_candle_file plain_codec ''BTC'' None
       \<lparr>cf_date = cs_day small_day, cf_timeframe = ''1d'', cf_content = c, cf_candle_count = get_or (ce_candle_count e) 0\<rparr> =
         Inr (loaded, Some (cr_open_time (last loaded))) \<and> sum_list (map cr_trade_count loaded) = 2"
proof -
  obtain c e where b: "build_candles plain_codec ''BTC'' small_day [(10, ''1.5'', ''2''), (20, ''1.25'', ''0.5'')] ''1d'' = Inr (c, e)"
    using small_day_built by blast
  have "\<forall>rs. cd_rows plain_codec (cd_write plain_codec rs) = Inr rs" by (simp add: plain_codec_def cd_rows_def)
  from written_candles_are_loaded[OF this small_day_read b, of None] small_day_end b
  show ?thesis by (auto simp: TIMEFRAMES_def)
qed

text \<open>
  What the loader of candles returns suits the replay: the candles of a timeframe are in
  the order of their closes, each as long as its timeframe, and each is a candle the domain
  constructor accepts.
\<close>

theorem loaded_candles_suit_the_replay:
  assumes "load_timeframe cd symbol files tf = Inr rows"
  shows "sorted (map cr_close_time rows) \<and> distinct (map cr_close_time rows) \<and>
    list_all (\<lambda>c. cr_close_time c = cr_open_time c + duration_of tf) rows \<and> (\<exists>cs. mapE domain_candle rows = Inr cs)"
proof -
  let ?fs = "filter (\<lambda>f. cf_timeframe f = tf) files"
  have "load_files cd symbol None ?fs = Inr rows" using assms by (auto simp: load_timeframe_def Let_def split: if_splits)
  from load_files_Inr[OF this, of tf] have r: "list_all (\<lambda>c. \<exists>bounds. well_formed_row (duration_of tf) bounds c) rows"
    "sorted_wrt (<) (map cr_open_time rows)" by auto
  have close: "cr_close_time c = cr_open_time c + duration_of tf" if "c \<in> set rows" for c
    using r(1) that by (auto simp: list_all_iff well_formed_row_def)
  then have "map cr_close_time rows = map (\<lambda>t. t + duration_of tf) (map cr_open_time rows)" by simp
  moreover have "sorted_wrt (<) (map (\<lambda>t. t + duration_of tf) (map cr_open_time rows))"
    using r(2) by (simp add: sorted_wrt_map)
  ultimately have "sorted_wrt (<) (map cr_close_time rows)" by (simp only:)
  then have "sorted (map cr_close_time rows)" "distinct (map cr_close_time rows)"
    by (simp_all only: strict_sorted_iff)
  moreover have "list_all (\<lambda>c. \<exists>d. domain_candle c = Inr d) rows"
    using r(1) loaded_candle by (fastforce simp: list_all_iff)
  ultimately show ?thesis using close mapE_total by (auto simp: list_all_iff)
qed

lemma loaded_candles_suit_the_replay_witness:
  "\<exists>rows cs. load_timeframe plain_codec ''BTC'' [one_candle] ''1d'' = Inr rows \<and> length rows = 1 \<and> mapE domain_candle rows = Inr cs"
proof -
  obtain rows where "load_timeframe plain_codec ''BTC'' [one_candle] ''1d'' = Inr rows" "length rows = 1"
    using one_candle_loads by blast
  with loaded_candles_suit_the_replay[OF this(1)] show ?thesis by auto
qed

end
