(* ===== verification/Spec2Isabelle.thy ===== *)
theory Spec2Isabelle
  imports Strategy Regime EngineSync OrderBook FeatureEngine Llm Context Books Approval Exchange Memory
    Learning Holdout Promotion Experiment LabReports TradeCandles
begin

text \<open>
  A verification library of the Self-Evaluating Trading Agent, the Python program under
  \<open>src/src\<close>.  The program downloads and validates market data, derives indicators and market
  state, lets a strategy or a language model propose a trade, passes the proposal through a risk
  engine, fills it on paper, accounts for the result, and evaluates and promotes strategies
  without touching data held out for the final test.  The theories follow these parts; every
  definition is the translation of a class, a function or a part of one.

  \<^bold>\<open>How the parts work together.\<close>  Candles (\<open>Candles\<close>) feed the indicators (\<open>Indicators\<close>), the
  strategies (\<open>Strategy\<close>, \<open>LabStrategies\<close>) and the regime (\<open>Regime\<close>).  A signal becomes a
  decision (\<open>Trading\<close>); \<open>Engine.on_price\<close> moves the stops, asks \<open>Risk.evaluate\<close>, and books fills in
  the \<open>Portfolio\<close>.  \<open>Runner\<close> is the live loop around the engine, with its store (\<open>Store\<close>) and its
  recovery by replay; \<open>Books\<close> reconciles its events three ways.  \<open>Backtest\<close>, \<open>LabSession\<close> and \<open>Replay\<close>
  are the three offline loops.  \<open>Holdout\<close>, \<open>Experiment\<close> and \<open>Promotion\<close> decide which data and which
  strategies may go further, \<open>Approval\<close> which changes a human has allowed.

  \<^bold>\<open>Foundations.\<close>
  \<^item> \<open>Prelude\<close>: exceptions (\<open>py_error\<close>), results as sums with \<open>bindE\<close>, \<open>mapE\<close>, \<open>foldE\<close> and the
    state-and-error loop \<open>run_tracker\<close>; six interfaces as locales: \<open>causal_series\<close> and
    \<open>streaming_series\<close> (what an indicator and its incremental tracker promise), \<open>guarded_machine\<close>,
    \<open>latch_machine\<close> and \<open>mirrored_machine\<close> (operations that keep an invariant, a state only named
    events leave, a machine another one reproduces), \<open>retry_loop\<close>.  They are interpreted on the
    components' own operations; so are \<open>rounding\<close> (\<open>PyFloat\<close>), \<open>session_log\<close> (\<open>Store\<close>),
    \<open>preloaded_strategy\<close> (\<open>LabStrategies\<close>), \<open>decision_provider\<close> and \<open>answering_provider\<close> (\<open>Replay\<close>).
  \<^item> \<open>PyFloat\<close>, \<open>PyMath\<close>: binary64 values over the rationals with signed infinities and NaN, rounding
    ties to even, the arithmetic and comparisons of Python, \<open>min\<close>, \<open>max\<close>, \<open>round\<close>, \<open>sqrt\<close>; the
    locale of a monotone rounding and its interpretation on \<open>rnd\<close>.  \<open>-0.0\<close> is identified with \<open>0.0\<close>.
  \<^item> \<open>PyDecimal\<close>, \<open>PyText\<close>: Decimals of 28 digits, texts of numbers, hexadecimal digests.

  \<^bold>\<open>Market.\<close>
  \<^item> \<open>Candles\<close> (\<open>domain/market/candle.py\<close>, \<open>stream.py\<close>, \<open>services/validation.py\<close>), \<open>Indicators\<close>
    (\<open>indicators.py\<close>), \<open>FeatureEngine\<close> (\<open>feature_engine.py\<close>), \<open>OrderBook\<close> (\<open>orderbook.py\<close>,
    \<open>market_data_service.py\<close>), \<open>Regime\<close> (\<open>regime.py\<close>, \<open>regime_confirmation.py\<close>).  The lemmas: no
    indicator looks ahead, the incremental trackers compute the batch series, a book that reports
    no desynchronisation has missed no delta, a regime is confirmed exactly after its number of
    candles.

  \<^bold>\<open>Trading.\<close>
  \<^item> \<open>Trading\<close>, \<open>Portfolio\<close>, \<open>Strategy\<close>, \<open>Risk\<close> (\<open>domain/trading\<close>, \<open>domain/portfolio\<close>, \<open>domain/risk\<close>):
    value objects, long-only accounting, the baseline as a crossing rule, the verdict as the first
    applicable rule, the bound on an approved buy, the kill switch a human resets.
  \<^item> \<open>Engine\<close>, \<open>EngineSync\<close> (\<open>services/paper_engine.py\<close>): every method; stops before decisions, and the
    invariant that the engine's position is the portfolio's over all runs.
  \<^item> \<open>Store\<close>, \<open>Context\<close>, \<open>Runner\<close> (\<open>database/repositories.py\<close>, \<open>decision_context.py\<close>,
    \<open>paper_runner.py\<close>, \<open>recovery.py\<close>, \<open>backfill.py\<close>): tables with their conflict targets, the pipeline, replay; the
    lemmas show that a restored runner is the live one, and when it cannot be restored.
  \<^item> \<open>Accounting\<close>, \<open>Books\<close> (\<open>accounting_reconciliation.py\<close>): mirror, ledger, checkpoint; a simulation
    between the mirror and the engine, and the round trip through a checkpoint.
  \<^item> \<open>Exchange\<close> (\<open>bybit/trade_client.py\<close>, \<open>reconciliation.py\<close>, \<open>connection_supervisor.py\<close>), \<open>Llm\<close>
    (\<open>llm/deepseek.py\<close>, \<open>decision_agent.py\<close>, budgets), \<open>Memory\<close> (\<open>domain/memory\<close>, \<open>memory_writer.py\<close>,
    \<open>reflection_engine.py\<close>, \<open>memory_repository.py\<close>), \<open>Approval\<close> (\<open>approval_workflow.py\<close>, \<open>audit_log.py\<close>):
    retries are bounded, a failing model gives HOLD (and the lemmas name the replies on which the
    adapter raises instead), memory only recalls closed trades, only a human decides.

  \<^bold>\<open>Evaluation and research.\<close>
  \<^item> \<open>Metrics\<close>, \<open>Backtest\<close>, \<open>Learning\<close> (\<open>domain/evaluation\<close>, \<open>backtest_engine.py\<close>, \<open>ml_pipeline.py\<close>,
    \<open>domain/experiments\<close>): figures and their bounds, delayed execution, walk-forward learning; what
    a backtest holds at a bar does not depend on the bar's own prices after its opening or on any
    later bar, and the learned predictions do not look ahead.
  \<^item> \<open>Holdout\<close>, \<open>Canonical\<close>, \<open>Experiment\<close>, \<open>Promotion\<close>, \<open>LabStrategies\<close>, \<open>LabSession\<close>, \<open>LabReports\<close>
    (\<open>lab/\<close>): protection of unseen rows, canonical JSON and identities, the promotion machine over
    its sealed files, the strategies under the contract of preloading, sessions and their trades
    read back, comparison with a baseline.
  \<^item> \<open>Trades\<close>, \<open>TradeCandles\<close>, \<open>Replay\<close> (\<open>infrastructure/medallion/\<close>: \<open>bronze.py\<close>, \<open>silver.py\<close>,
    \<open>candles.py\<close>, \<open>replay.py\<close>, \<open>strategy_provider.py\<close>): the layers as a map of files with a manifest and
    a log; downloads never change though the network may answer differently at every call, candles are
    the groups of the trades and are read back by the loader, and the trade-level replay does not
    look ahead, leaves a position exactly at the stop in force (initial or trailing) or the target,
    and always ends.

  \<^bold>\<open>State and effects.\<close>  A mutable object is a record handed through; a method that may raise returns
  a sum, and where it changes the object before raising, the pair of the object and the sum.
  A coroutine is the sequence of its steps, between which nothing else runs, as in the program's
  single event loop.  Files and tables are association lists or maps.

  \<^bold>\<open>Bounds and fuel.\<close>  Integers are unbounded, as Python's, except that reading a text of more than 4300
  digits fails (writing one, which Python refuses too, does not fail in \<open>Canonical\<close>).  No definition has fuel: loops are structural recursions over their input, and
  bisection, the integer square root, the digits of a number and the loop over the windows end by
  a measure.  Statements about float arithmetic that need the absence of
  overflow say so with a range of prices (\<open>lab_bounds\<close> and its like), wide enough for any market
  price; the round trip of candle files asks for times and counts below \<open>10 ^ 18\<close>.

  \<^bold>\<open>Not modelled.\<close>  Clocks, random numbers, C \<open>pow\<close> and \<open>exp\<close>, SHA-256, \<open>repr\<close> of a float, JSON and CSV parsing,
  gzip, HTTP, the embedding model and the language model are arguments; their errors are values of
  the argument, those the program catches and those it does not, and what is relied on (a
  writer and its reader are inverse) is a hypothesis where it is used.
  Left out are the certification snapshot and the reports of the runner (aggregation for
  display), the Gold manifests, the refresh and the capacity guards of the archive (checks of the
  file system and of nested JSON), the file registry of experiments, the SQL schema and its
  migrations, market-data clients and request signing, logging and metrics, the HTTP interface,
  the command lines and the scripts of the phases.
\<close>

end
